(* ===== verification/Prelude.thy ===== *)
theory Prelude
  imports Main "HOL-Library.Word" "HOL-Library.Char_ord" "HOL-Library.List_Lexorder"
begin

text \<open>
  Shared vocabulary of the development: the types the Rust sources use (bytes, strings,
  results), the library routines of the Rust standard library the modelled code calls
  (big-endian integers, UTF-8 validation, \<open>str::split\<close>, \<open>strip_prefix\<close>, \<open>trim\<close>,
  \<open>clamp\<close>, \<open>div_ceil\<close>), and the lemma collections the component theories rewrite with.

  A Rust \<open>String\<close> is a sequence of bytes that is valid UTF-8. It is modelled as the HOL
  type \<open>string\<close>, whose characters are the bytes of the encoding, so \<open>len()\<close> is \<open>length\<close>
  and the derived order is the lexicographic order of the bytes; \<open>rust_str\<close> is the
  UTF-8 invariant.  A Rust \<open>Result\<close> is a sum with the error on the left.
\<close>

section \<open>Types\<close>

type_synonym u8 = "8 word"
type_synonym bytes = "u8 list"

text \<open>Equations and inversion rules of the result combinators.\<close>
named_theorems result_simps
text \<open>Facts about byte encodings.\<close>
named_theorems codec_simps

section \<open>Results\<close>

text \<open>\<open>and_then r f\<close> is the sequencing of the \<open>?\<close> operator; \<open>ensure\<close> is
  \<open>if !b { bail!(e) }\<close>; \<open>ok_or\<close> and \<open>map_err\<close> are the methods of the same name.\<close>

fun and_then :: "'e + 'a \<Rightarrow> ('a \<Rightarrow> 'e + 'b) \<Rightarrow> 'e + 'b" where
  "and_then (Inl e) f = Inl e"
| "and_then (Inr x) f = f x"

definition ensure :: "bool \<Rightarrow> 'e \<Rightarrow> 'e + unit" where
  "ensure b e = (if b then Inr () else Inl e)"

definition ok_or :: "'e \<Rightarrow> 'a option \<Rightarrow> 'e + 'a" where
  "ok_or e x = (case x of None \<Rightarrow> Inl e | Some y \<Rightarrow> Inr y)"

definition map_err :: "('e \<Rightarrow> 'f) \<Rightarrow> 'e + 'a \<Rightarrow> 'f + 'a" where
  "map_err g r = (case r of Inl e \<Rightarrow> Inl (g e) | Inr x \<Rightarrow> Inr x)"

definition is_ok :: "'e + 'a \<Rightarrow> bool" where
  "is_ok r = (case r of Inl _ \<Rightarrow> False | Inr _ \<Rightarrow> True)"

text \<open>\<open>iter.collect::<Result<Vec<_>>>()\<close>: the first error wins.\<close>
fun collect_results :: "('e + 'a) list \<Rightarrow> 'e + 'a list" where
  "collect_results [] = Inr []"
| "collect_results (r # rs) = and_then r (\<lambda>x. and_then (collect_results rs) (\<lambda>xs. Inr (x # xs)))"

lemma and_then_Inr_iff [result_simps]:
  "and_then r f = Inr y \<longleftrightarrow> (\<exists>x. r = Inr x \<and> f x = Inr y)"
  by (cases r) auto

lemma and_then_Inl_iff:
  "and_then r f = Inl e \<longleftrightarrow> r = Inl e \<or> (\<exists>x. r = Inr x \<and> f x = Inl e)"
  by (cases r) auto

lemma ensure_Inr [result_simps]: "ensure b e = Inr u \<longleftrightarrow> b"
  by (simp add: ensure_def)

lemma ensure_Inl [result_simps]: "ensure b e = Inl e' \<longleftrightarrow> \<not> b \<and> e' = e"
  by (auto simp: ensure_def)

lemma ensure_simps [simp]: "ensure True e = Inr ()" "ensure False e = Inl e"
  by (simp_all add: ensure_def)

lemma ok_or_simps [simp]: "ok_or e None = Inl e" "ok_or e (Some x) = Inr x"
  by (simp_all add: ok_or_def)

lemma ok_or_Inr [result_simps]: "ok_or e x = Inr y \<longleftrightarrow> x = Some y"
  by (auto simp: ok_or_def split: option.splits)

lemma ok_or_Inl [result_simps]: "ok_or e x = Inl e' \<longleftrightarrow> x = None \<and> e' = e"
  by (auto simp: ok_or_def split: option.splits)

lemma map_err_simps [simp]: "map_err g (Inl e) = Inl (g e)" "map_err g (Inr x) = Inr x"
  by (simp_all add: map_err_def)

lemma map_err_Inr [result_simps]: "map_err g r = Inr x \<longleftrightarrow> r = Inr x"
  by (auto simp: map_err_def split: sum.splits)

lemma is_ok_simps [simp]: "is_ok (Inl e) = False" "is_ok (Inr x) = True"
  by (simp_all add: is_ok_def)

lemma is_ok_iff: "is_ok r \<longleftrightarrow> (\<exists>x. r = Inr x)"
  by (cases r) auto

lemma collect_results_Inr:
  "collect_results (map (\<lambda>x. Inr (f x)) xs) = Inr (map f xs)"
  by (induction xs) auto

section \<open>Integers\<close>

text \<open>\<open>Ord::clamp\<close> (for \<open>lo \<le> hi\<close>) and \<open>usize::div_ceil\<close>.\<close>

definition clamp :: "nat \<Rightarrow> nat \<Rightarrow> nat \<Rightarrow> nat" where
  "clamp x lo hi = (if x < lo then lo else if hi < x then hi else x)"

definition div_ceil :: "nat \<Rightarrow> nat \<Rightarrow> nat" where
  "div_ceil a b = (if a mod b = 0 then a div b else a div b + 1)"

lemma clamp_bounds: "lo \<le> hi \<Longrightarrow> lo \<le> clamp x lo hi \<and> clamp x lo hi \<le> hi"
  by (simp add: clamp_def)

lemma div_ceil_cover: "0 < b \<Longrightarrow> a \<le> b * div_ceil a b"
  by (metis (no_types, lifting) Suc_eq_plus1 add_lessD1 div_ceil_def div_mult_self_is_m
      dividend_less_times_div less_or_eq_imp_le mod_eq_0_iff_dvd dvd_mult_div_cancel mult_Suc_right add.commute)

lemma div_ceil_pred:
  assumes "0 < b" and "0 < div_ceil a b"
  shows "(div_ceil a b - 1) * b < a"
proof -
  have a: "a = a div b * b + a mod b" by simp
  show ?thesis
  proof (cases "a mod b = 0")
    case True
    then have "(a div b - 1) * b < a div b * b" using assms by (simp add: div_ceil_def)
    with True a show ?thesis by (simp add: div_ceil_def)
  next
    case False
    then have "a div b * b < a" using a by linarith
    with False show ?thesis by (simp add: div_ceil_def)
  qed
qed

text \<open>\<open>i32::try_from\<close> and \<open>u32::try_from\<close>: the value when it is in range.  An \<open>i32\<close> is
  an \<open>int\<close> and a \<open>u32\<close> or \<open>usize\<close> a \<open>nat\<close> throughout; the checks are written out.\<close>

definition i32_max :: nat where "i32_max = 2 ^ 31 - 1"
definition u32_max :: nat where "u32_max = 2 ^ 32 - 1"

definition i32_try_from :: "nat \<Rightarrow> int option" where
  "i32_try_from n = (if n \<le> i32_max then Some (int n) else None)"

definition u32_try_from :: "int \<Rightarrow> nat option" where
  "u32_try_from i = (if 0 \<le> i \<and> i \<le> int u32_max then Some (nat i) else None)"

definition u32_checked_add :: "nat \<Rightarrow> nat \<Rightarrow> nat option" where
  "u32_checked_add a b = (if a + b \<le> u32_max then Some (a + b) else None)"

subsection \<open>Big-endian bytes\<close>

text \<open>\<open>be_bytes k n\<close> is \<open>to_be_bytes\<close> of \<open>n\<close> cast (\<open>as\<close>) to the unsigned integer of
  \<open>k\<close> bytes: the cast keeps the low \<open>8 k\<close> bits.  \<open>be_nat\<close> is \<open>from_be_bytes\<close>.\<close>

primrec be_bytes :: "nat \<Rightarrow> nat \<Rightarrow> bytes" where
  "be_bytes 0 n = []"
| "be_bytes (Suc k) n = of_nat (n div 256 ^ k) # be_bytes k n"

primrec be_nat :: "bytes \<Rightarrow> nat" where
  "be_nat [] = 0"
| "be_nat (b # bs) = unat b * 256 ^ length bs + be_nat bs"

lemma length_be_bytes [simp, codec_simps]: "length (be_bytes k n) = k"
  by (induction k) auto

lemma unat_u8_of_nat: "unat (of_nat m :: u8) = m mod 256"
  by (simp add: unat_of_nat)

lemma be_nat_be_bytes: "be_nat (be_bytes k n) = n mod 256 ^ k"
proof (induction k)
  case (Suc k)
  have "n mod (256 ^ k * 256) = 256 ^ k * (n div 256 ^ k mod 256) + n mod 256 ^ k"
    by (rule mod_mult2_eq)
  with Suc show ?case by (simp add: unat_u8_of_nat mult.commute)
qed simp

lemma be_nat_be_bytes_small [simp, codec_simps]:
  "n < 256 ^ k \<Longrightarrow> be_nat (be_bytes k n) = n"
  by (simp add: be_nat_be_bytes)

lemma be_nat_bound: "be_nat bs < 256 ^ length bs"
proof (induction bs)
  case (Cons b bs)
  let ?p = "256 ^ length bs :: nat"
  have "unat b < 256" using unsigned_less [of b, where ?'a = nat] by simp
  have "be_nat (b # bs) < Suc (unat b) * ?p" using Cons by simp
  also have "\<dots> \<le> 256 * ?p" using \<open>unat b < 256\<close> by (intro mult_le_mono1) simp
  finally show ?case by simp
qed simp

lemma be_bytes_be_nat: "be_bytes (length bs) (be_nat bs) = bs"
proof -
  have gen: "be_bytes (length bs) (m * 256 ^ length bs + be_nat bs) = bs" for m
  proof (induction bs arbitrary: m)
    case (Cons b bs)
    let ?p = "256 ^ length bs :: nat" and ?x = "m * 256 + unat b"
    have eq: "m * 256 ^ length (b # bs) + be_nat (b # bs) = ?x * ?p + be_nat bs"
      by (simp add: algebra_simps)
    have "(?x * ?p + be_nat bs) div ?p = ?x"
      using be_nat_bound [of bs] by simp
    moreover have "(of_nat ?x :: u8) = b"
    proof -
      have "(of_nat (m * 256) :: u8) = 0" by (simp only: word_of_nat_eq_0_iff) simp
      then show ?thesis by (simp only: of_nat_add) simp
    qed
    ultimately show ?case
      unfolding eq using Cons [of ?x] by (simp only: list.size be_bytes.simps) simp
  qed simp
  from gen [of 0] show ?thesis by simp
qed


subsection \<open>UTF-8 and strings\<close>

definition str_bytes :: "string \<Rightarrow> bytes" where
  "str_bytes s = map (\<lambda>c. of_nat (of_char c)) s"

definition bytes_str :: "bytes \<Rightarrow> string" where
  "bytes_str bs = map (\<lambda>b. char_of (unat b)) bs"

text \<open>A continuation byte, and the validity test of \<open>str::from_utf8\<close>: no overlong
  form, no surrogate, nothing above U+10FFFF.\<close>

definition utf8_cont :: "u8 \<Rightarrow> bool" where
  "utf8_cont b \<longleftrightarrow> 0x80 \<le> b \<and> b \<le> 0xBF"

fun utf8_valid :: "bytes \<Rightarrow> bool" where
  "utf8_valid [] = True"
| "utf8_valid (b # bs) =
    (if b < 0x80 then utf8_valid bs
     else if 0xC2 \<le> b \<and> b \<le> 0xDF then
       (case bs of c1 # r \<Rightarrow> utf8_cont c1 \<and> utf8_valid r | _ \<Rightarrow> False)
     else if 0xE0 \<le> b \<and> b \<le> 0xEF then
       (case bs of c1 # c2 # r \<Rightarrow>
          utf8_cont c1 \<and> (b = 0xE0 \<longrightarrow> 0xA0 \<le> c1) \<and> (b = 0xED \<longrightarrow> c1 \<le> 0x9F)
          \<and> utf8_cont c2 \<and> utf8_valid r | _ \<Rightarrow> False)
     else if 0xF0 \<le> b \<and> b \<le> 0xF4 then
       (case bs of c1 # c2 # c3 # r \<Rightarrow>
          utf8_cont c1 \<and> (b = 0xF0 \<longrightarrow> 0x90 \<le> c1) \<and> (b = 0xF4 \<longrightarrow> c1 \<le> 0x8F)
          \<and> utf8_cont c2 \<and> utf8_cont c3 \<and> utf8_valid r | _ \<Rightarrow> False)
     else False)"

text \<open>The invariant of a Rust \<open>String\<close>, and \<open>String::from_utf8\<close>.\<close>

definition rust_str :: "string \<Rightarrow> bool" where
  "rust_str s = utf8_valid (str_bytes s)"

definition from_utf8 :: "bytes \<Rightarrow> string option" where
  "from_utf8 bs = (if utf8_valid bs then Some (bytes_str bs) else None)"

lemma unat_u8_of_char: "unat (of_nat (of_char c) :: u8) = of_char c"
proof -
  have "(of_char c :: nat) < 256" using nat_of_char_less_256 by simp
  then show ?thesis by (simp add: unat_u8_of_nat)
qed

lemma bytes_str_bytes [simp, codec_simps]: "bytes_str (str_bytes s) = s"
  by (simp add: bytes_str_def str_bytes_def unat_u8_of_char o_def)

lemma str_bytes_str [simp]: "str_bytes (bytes_str bs) = bs"
proof -
  have "of_nat (of_char (char_of (unat b) :: char)) = b" for b :: u8
    using unsigned_less [of b, where ?'a = nat] by (simp add: of_char_of)
  then show ?thesis by (simp add: bytes_str_def str_bytes_def o_def)
qed

lemma length_str_bytes [simp, codec_simps]: "length (str_bytes s) = length s"
  by (simp add: str_bytes_def)

lemma length_bytes_str [simp]: "length (bytes_str bs) = length bs"
  by (simp add: bytes_str_def)

lemma str_bytes_inj: "str_bytes s = str_bytes t \<longleftrightarrow> s = t"
  by (metis bytes_str_bytes)

lemma str_bytes_append: "str_bytes (s @ t) = str_bytes s @ str_bytes t"
  by (simp add: str_bytes_def)

lemma from_utf8_str_bytes [simp, codec_simps]: "rust_str s \<Longrightarrow> from_utf8 (str_bytes s) = Some s"
  by (simp add: from_utf8_def rust_str_def)

lemma from_utf8_Some: "from_utf8 bs = Some s \<longleftrightarrow> utf8_valid bs \<and> bs = str_bytes s"
  by (auto simp: from_utf8_def)

text \<open>\<open>String::from_utf8_lossy\<close>: every maximal prefix of an ill-formed sequence becomes the
  replacement character U+FFFD.\<close>

fun utf8_lossy :: "bytes \<Rightarrow> bytes" where
  "utf8_lossy [] = []"
| "utf8_lossy (b # bs) =
    (if b < 0x80 then b # utf8_lossy bs
     else if 0xC2 \<le> b \<and> b \<le> 0xDF then
       (case bs of c1 # r \<Rightarrow> if utf8_cont c1 then b # c1 # utf8_lossy r else [0xEF, 0xBF, 0xBD] @ utf8_lossy bs
        | [] \<Rightarrow> [0xEF, 0xBF, 0xBD])
     else if 0xE0 \<le> b \<and> b \<le> 0xEF then
       (case bs of
          c1 # r \<Rightarrow>
            if utf8_cont c1 \<and> (b = 0xE0 \<longrightarrow> 0xA0 \<le> c1) \<and> (b = 0xED \<longrightarrow> c1 \<le> 0x9F) then
              (case r of
                 c2 # r' \<Rightarrow> if utf8_cont c2 then b # c1 # c2 # utf8_lossy r' else [0xEF, 0xBF, 0xBD] @ utf8_lossy r
               | [] \<Rightarrow> [0xEF, 0xBF, 0xBD])
            else [0xEF, 0xBF, 0xBD] @ utf8_lossy bs
        | [] \<Rightarrow> [0xEF, 0xBF, 0xBD])
     else if 0xF0 \<le> b \<and> b \<le> 0xF4 then
       (case bs of
          c1 # r \<Rightarrow>
            if utf8_cont c1 \<and> (b = 0xF0 \<longrightarrow> 0x90 \<le> c1) \<and> (b = 0xF4 \<longrightarrow> c1 \<le> 0x8F) then
              (case r of
                 c2 # r' \<Rightarrow>
                   if utf8_cont c2 then
                     (case r' of
                        c3 # r'' \<Rightarrow> if utf8_cont c3 then b # c1 # c2 # c3 # utf8_lossy r''
                                    else [0xEF, 0xBF, 0xBD] @ utf8_lossy r'
                      | [] \<Rightarrow> [0xEF, 0xBF, 0xBD])
                   else [0xEF, 0xBF, 0xBD] @ utf8_lossy r
               | [] \<Rightarrow> [0xEF, 0xBF, 0xBD])
            else [0xEF, 0xBF, 0xBD] @ utf8_lossy bs
        | [] \<Rightarrow> [0xEF, 0xBF, 0xBD])
     else [0xEF, 0xBF, 0xBD] @ utf8_lossy bs)"

lemma utf8_lossy_valid: "utf8_valid bs \<Longrightarrow> utf8_lossy bs = bs"
proof (induction bs rule: utf8_valid.induct)
  case (2 b bs)
  consider (one) "b < 0x80"
    | (two) "\<not> b < 0x80" "0xC2 \<le> b \<and> b \<le> 0xDF"
    | (three) "\<not> b < 0x80" "\<not> (0xC2 \<le> b \<and> b \<le> 0xDF)" "0xE0 \<le> b \<and> b \<le> 0xEF"
    | (four) "\<not> b < 0x80" "\<not> (0xC2 \<le> b \<and> b \<le> 0xDF)" "\<not> (0xE0 \<le> b \<and> b \<le> 0xEF)" "0xF0 \<le> b \<and> b \<le> 0xF4"
    | (none) "\<not> b < 0x80" "\<not> (0xC2 \<le> b \<and> b \<le> 0xDF)" "\<not> (0xE0 \<le> b \<and> b \<le> 0xEF)"
        "\<not> (0xF0 \<le> b \<and> b \<le> 0xF4)" by blast
  then show ?case
  proof cases
    case one
    with 2 show ?thesis by simp
  next
    case two
    with "2.prems" obtain c1 r where bs: "bs = c1 # r" and ok: "utf8_cont c1" "utf8_valid r"
      by (simp only: utf8_valid.simps if_False if_True) (cases bs; simp)
    have "utf8_lossy r = r" using "2.IH"(2) two bs ok(2) by blast
    with two ok show ?thesis unfolding bs by (subst utf8_lossy.simps) (simp del: utf8_lossy.simps)
  next
    case three
    with "2.prems" obtain c1 c2 r where bs: "bs = c1 # c2 # r" and ok: "utf8_cont c1"
      "(b = 0xE0 \<longrightarrow> 0xA0 \<le> c1) \<and> (b = 0xED \<longrightarrow> c1 \<le> 0x9F)" "utf8_cont c2" "utf8_valid r"
      by (simp only: utf8_valid.simps if_False if_True) (cases bs; cases "tl bs"; simp)
    have "utf8_lossy r = r" using "2.IH"(3) three bs ok(4) by blast
    with three ok show ?thesis unfolding bs by (subst utf8_lossy.simps) (auto simp del: utf8_lossy.simps)
  next
    case four
    with "2.prems" obtain c1 c2 c3 r where bs: "bs = c1 # c2 # c3 # r" and ok: "utf8_cont c1"
      "(b = 0xF0 \<longrightarrow> 0x90 \<le> c1) \<and> (b = 0xF4 \<longrightarrow> c1 \<le> 0x8F)" "utf8_cont c2" "utf8_cont c3" "utf8_valid r"
      by (simp only: utf8_valid.simps if_False if_True) (cases bs; cases "tl bs"; cases "tl (tl bs)"; simp)
    have "utf8_lossy r = r" using "2.IH"(4) four bs ok(5) by blast
    with four ok show ?thesis unfolding bs by (subst utf8_lossy.simps) (auto simp del: utf8_lossy.simps)
  next
    case none
    with "2.prems" show ?thesis by (simp only: utf8_valid.simps if_False)
  qed
qed simp

declare utf8_lossy.simps [simp del]

definition from_utf8_lossy :: "bytes \<Rightarrow> string" where
  "from_utf8_lossy bs = bytes_str (utf8_lossy bs)"

lemma from_utf8_lossy_str [simp]: "rust_str s \<Longrightarrow> from_utf8_lossy (str_bytes s) = s"
  by (simp add: from_utf8_lossy_def rust_str_def utf8_lossy_valid)

text \<open>ASCII strings are valid.\<close>

definition ascii :: "string \<Rightarrow> bool" where
  "ascii s \<longleftrightarrow> list_all (\<lambda>c. of_char c < (128 :: nat)) s"

lemma utf8_valid_ascii: "list_all (\<lambda>b. b < (0x80 :: u8)) bs \<Longrightarrow> utf8_valid bs"
  by (induction bs) auto

lemma ascii_rust_str: "ascii s \<Longrightarrow> rust_str s"
  unfolding rust_str_def ascii_def
  by (rule utf8_valid_ascii)
    (auto simp: str_bytes_def list_all_iff word_less_nat_alt unat_u8_of_char)

text \<open>\<open>str::split("::")\<close>: non-overlapping, from the left.\<close>

fun split_dcolon :: "string \<Rightarrow> string list" where
  "split_dcolon [] = [[]]"
| "split_dcolon [c] = [[c]]"
| "split_dcolon (c # d # s) =
    (if c = CHR '':'' \<and> d = CHR '':'' then [] # split_dcolon s
     else (case split_dcolon (d # s) of [] \<Rightarrow> [[c]] | p # ps \<Rightarrow> (c # p) # ps))"

lemma split_dcolon_nonempty: "split_dcolon s \<noteq> []"
  by (induction s rule: split_dcolon.induct) (auto split: list.splits)

text \<open>A prefix without a colon is never cut.\<close>

lemma split_dcolon_no_colon:
  "CHR '':'' \<notin> set s \<Longrightarrow> split_dcolon s = [s]"
  by (induction s rule: split_dcolon.induct) auto

lemma split_dcolon_append:
  "CHR '':'' \<notin> set p \<Longrightarrow> split_dcolon (p @ ''::'' @ s) = p # split_dcolon s"
proof (induction p)
  case (Cons c p)
  then have IH: "split_dcolon (p @ ''::'' @ s) = p # split_dcolon s" and c: "c \<noteq> CHR '':''" by auto
  obtain d t where dt: "p @ ''::'' @ s = d # t" by (cases p) auto
  have "split_dcolon (c # d # t) = (c # p) # split_dcolon s" using IH c unfolding dt by simp
  then show ?case by (metis append_Cons dt)
qed simp

text \<open>Joining the parts with the delimiter gives the string back.\<close>

fun join_dcolon :: "string list \<Rightarrow> string" where
  "join_dcolon [] = []"
| "join_dcolon [p] = p"
| "join_dcolon (p # ps) = p @ ''::'' @ join_dcolon ps"

lemma join_split_dcolon: "join_dcolon (split_dcolon s) = s"
proof (induction s rule: split_dcolon.induct)
  case (3 c d s)
  show ?case
  proof (cases "c = CHR '':'' \<and> d = CHR '':''")
    case True
    obtain p ps where "split_dcolon s = p # ps"
      using split_dcolon_nonempty [of s] by (cases "split_dcolon s") auto
    with True "3.IH"(1) show ?thesis by simp
  next
    case False
    obtain p ps where "split_dcolon (d # s) = p # ps"
      using split_dcolon_nonempty [of "d # s"] by (cases "split_dcolon (d # s)") auto
    with False "3.IH"(2) show ?thesis by (cases ps) auto
  qed
qed auto

text \<open>\<open>str::strip_prefix\<close>.\<close>

fun strip_prefix :: "'a list \<Rightarrow> 'a list \<Rightarrow> 'a list option" where
  "strip_prefix [] s = Some s"
| "strip_prefix (p # ps) [] = None"
| "strip_prefix (p # ps) (c # s) = (if p = c then strip_prefix ps s else None)"

lemma strip_prefix_append [simp]: "strip_prefix p (p @ s) = Some s"
  by (induction p) auto

lemma strip_prefix_Some: "strip_prefix p s = Some r \<longleftrightarrow> s = p @ r"
  by (induction p s rule: strip_prefix.induct) auto

lemma strip_prefix_None: "strip_prefix p s = None \<longleftrightarrow> (\<forall>r. s \<noteq> p @ r)"
  by (metis not_None_eq strip_prefix_Some)

text \<open>\<open>str::trim\<close> removes the characters of the Unicode property \<open>White_Space\<close> at
  both ends; they are listed by their UTF-8 encodings.\<close>

definition white_space :: "bytes list" where
  "white_space = [[0x09], [0x0A], [0x0B], [0x0C], [0x0D], [0x20], [0xC2, 0x85], [0xC2, 0xA0],
     [0xE1, 0x9A, 0x80], [0xE2, 0x80, 0x80], [0xE2, 0x80, 0x81], [0xE2, 0x80, 0x82],
     [0xE2, 0x80, 0x83], [0xE2, 0x80, 0x84], [0xE2, 0x80, 0x85], [0xE2, 0x80, 0x86],
     [0xE2, 0x80, 0x87], [0xE2, 0x80, 0x88], [0xE2, 0x80, 0x89], [0xE2, 0x80, 0x8A],
     [0xE2, 0x80, 0xA8], [0xE2, 0x80, 0xA9], [0xE2, 0x80, 0xAF], [0xE2, 0x81, 0x9F],
     [0xE3, 0x80, 0x80]]"

fun strip_one :: "'a list list \<Rightarrow> 'a list \<Rightarrow> 'a list option" where
  "strip_one [] s = None"
| "strip_one (w # ws) s = (case strip_prefix w s of Some r \<Rightarrow> Some r | None \<Rightarrow> strip_one ws s)"

text \<open>Each round removes at least one byte, so \<open>length s\<close> rounds are enough.\<close>

fun strip_all :: "nat \<Rightarrow> 'a list list \<Rightarrow> 'a list \<Rightarrow> 'a list" where
  "strip_all 0 ws s = s"
| "strip_all (Suc n) ws s = (case strip_one ws s of None \<Rightarrow> s | Some r \<Rightarrow> strip_all n ws r)"

definition trim :: "string \<Rightarrow> string" where
  "trim s =
    (let ws = map bytes_str white_space;
         t = strip_all (length s) ws s
     in rev (strip_all (length t) (map rev ws) (rev t)))"

lemma strip_one_None: "strip_one ws s = None \<longleftrightarrow> (\<forall>w\<in>set ws. strip_prefix w s = None)"
  by (induction ws) (auto split: option.splits)

lemma strip_all_None: "strip_one ws s = None \<Longrightarrow> strip_all n ws s = s"
  by (cases n) auto

text \<open>A string that neither starts nor ends with white space is its own trim.\<close>

lemma trim_id:
  assumes "strip_one (map bytes_str white_space) s = None"
    and "strip_one (map rev (map bytes_str white_space)) (rev s) = None"
  shows "trim s = s"
  using assms by (simp add: trim_def strip_all_None Let_def)

end
