(* ===== verification/Noise_Message.thy ===== *)
theory Noise_Message
  imports Prelude
begin

text \<open>
  The application frames of the Noise channel (\<open>crates/decman/src/noise/mod.rs\<close>): the message
  types and their wire numbers, the frame encoder and decoder, the error classification that
  decides which failures are retried, the retry loop, and the metadata of chunked responses.
\<close>

section \<open>Message types\<close>

datatype message_type =
    UploadDars | GenerateKeys | SignDns | SignP2p | SignSubmissions | StatusUpdate | Disconnect
  | GetNextCommand | SignKick | Ping | RequestOwnerKeys | ListPeers | RequestMemberParty | Health
  | GenerateAddPartyKeys | SignAddParty | ImportAcs | ClearOnboardingFlag | SignClearOnboarding
  | SignChangeThreshold | RetireLegacyKeys | RequestDar | InviteOnboarding | InviteKick
  | InviteContracts | InviteDars | CancelInvite | RetryWorkflow | DeclineInvitation
  | InviteAddParty | InviteChangeThreshold | Ack | Data | Error | Ready | Wait | Pong | OwnerKeys
  | PeerList | MemberPartyResponse | HealthResponse | Busy | KeysUpload | DnsSignature
  | P2pSignatures | SubmissionSignatures | KickSignatures | AddPartyKeysUpload
  | AddPartySignatures | AddPartyClearSignatures | AddPartyClearProposal
  | ChangeThresholdSignatures | ChunkedCommand | GetChunk | Chunk | GetNextAcsBlock | AcsBlock
  | AcsBlockEnd

text \<open>\<open>MessageType as u16\<close>: the discriminants of the enum.\<close>

primrec to_u16 :: "message_type \<Rightarrow> nat" where
  "to_u16 UploadDars = 0x0001"
| "to_u16 GenerateKeys = 0x0002"
| "to_u16 SignDns = 0x0003"
| "to_u16 SignP2p = 0x0004"
| "to_u16 SignSubmissions = 0x0005"
| "to_u16 StatusUpdate = 0x0006"
| "to_u16 Disconnect = 0x0007"
| "to_u16 GetNextCommand = 0x0008"
| "to_u16 SignKick = 0x0009"
| "to_u16 Ping = 0x000A"
| "to_u16 RequestOwnerKeys = 0x000C"
| "to_u16 ListPeers = 0x000D"
| "to_u16 RequestMemberParty = 0x000E"
| "to_u16 Health = 0x000F"
| "to_u16 GenerateAddPartyKeys = 0x0020"
| "to_u16 SignAddParty = 0x0021"
| "to_u16 ImportAcs = 0x0022"
| "to_u16 ClearOnboardingFlag = 0x0023"
| "to_u16 SignClearOnboarding = 0x0024"
| "to_u16 SignChangeThreshold = 0x0025"
| "to_u16 RetireLegacyKeys = 0x0026"
| "to_u16 RequestDar = 0x0027"
| "to_u16 InviteOnboarding = 0x0010"
| "to_u16 InviteKick = 0x0011"
| "to_u16 InviteContracts = 0x0012"
| "to_u16 InviteDars = 0x0013"
| "to_u16 CancelInvite = 0x0014"
| "to_u16 RetryWorkflow = 0x0015"
| "to_u16 DeclineInvitation = 0x0016"
| "to_u16 InviteAddParty = 0x0017"
| "to_u16 InviteChangeThreshold = 0x0018"
| "to_u16 Ack = 0x0101"
| "to_u16 Data = 0x0102"
| "to_u16 Error = 0x0103"
| "to_u16 Ready = 0x0104"
| "to_u16 Wait = 0x0105"
| "to_u16 Pong = 0x0106"
| "to_u16 OwnerKeys = 0x0107"
| "to_u16 PeerList = 0x0108"
| "to_u16 MemberPartyResponse = 0x0109"
| "to_u16 HealthResponse = 0x010A"
| "to_u16 Busy = 0x010B"
| "to_u16 KeysUpload = 0x0201"
| "to_u16 DnsSignature = 0x0202"
| "to_u16 P2pSignatures = 0x0203"
| "to_u16 SubmissionSignatures = 0x0204"
| "to_u16 KickSignatures = 0x0205"
| "to_u16 AddPartyKeysUpload = 0x0206"
| "to_u16 AddPartySignatures = 0x0207"
| "to_u16 AddPartyClearSignatures = 0x0208"
| "to_u16 AddPartyClearProposal = 0x0209"
| "to_u16 ChangeThresholdSignatures = 0x020A"
| "to_u16 ChunkedCommand = 0x0300"
| "to_u16 GetChunk = 0x0301"
| "to_u16 Chunk = 0x0302"
| "to_u16 GetNextAcsBlock = 0x0305"
| "to_u16 AcsBlock = 0x0306"
| "to_u16 AcsBlockEnd = 0x0307"

text \<open>The match of \<open>TryFrom<u16>\<close>, arm by arm; anything else is an error.\<close>

definition message_type_table :: "(nat \<times> message_type) list" where
  "message_type_table = [
     (0x0001, UploadDars), (0x0002, GenerateKeys), (0x0003, SignDns), (0x0004, SignP2p),
     (0x0005, SignSubmissions), (0x0006, StatusUpdate), (0x0007, Disconnect),
     (0x0008, GetNextCommand), (0x0009, SignKick), (0x000A, Ping), (0x000C, RequestOwnerKeys),
     (0x000D, ListPeers), (0x000E, RequestMemberParty), (0x000F, Health), (0x0010, InviteOnboarding),
     (0x0011, InviteKick), (0x0012, InviteContracts), (0x0013, InviteDars), (0x0014, CancelInvite),
     (0x0015, RetryWorkflow), (0x0016, DeclineInvitation), (0x0017, InviteAddParty),
     (0x0020, GenerateAddPartyKeys), (0x0021, SignAddParty), (0x0022, ImportAcs),
     (0x0023, ClearOnboardingFlag), (0x0024, SignClearOnboarding), (0x0025, SignChangeThreshold),
     (0x0026, RetireLegacyKeys), (0x0027, RequestDar), (0x0018, InviteChangeThreshold), (0x0101, Ack),
     (0x0102, Data), (0x0103, Error), (0x0104, Ready), (0x0105, Wait), (0x0106, Pong),
     (0x0107, OwnerKeys), (0x0108, PeerList), (0x0109, MemberPartyResponse), (0x010A, HealthResponse),
     (0x010B, Busy), (0x0201, KeysUpload), (0x0202, DnsSignature), (0x0203, P2pSignatures),
     (0x0204, SubmissionSignatures), (0x0205, KickSignatures), (0x0206, AddPartyKeysUpload),
     (0x0207, AddPartySignatures), (0x0208, AddPartyClearSignatures), (0x0209, AddPartyClearProposal),
     (0x020A, ChangeThresholdSignatures), (0x0300, ChunkedCommand), (0x0301, GetChunk),
     (0x0302, Chunk), (0x0305, GetNextAcsBlock), (0x0306, AcsBlock), (0x0307, AcsBlockEnd)]"

datatype wire_error =
    MessageTooShort nat
  | VersionMismatch u8
  | UnknownType nat
  | InstanceTruncated nat
  | InstanceNotUtf8
  | PayloadTruncated nat

definition message_type_try_from :: "nat \<Rightarrow> wire_error + message_type" where
  "message_type_try_from v = ok_or (UnknownType v) (map_of message_type_table v)"

section \<open>Limits\<close>

definition WIRE_VERSION :: u8 where "WIRE_VERSION = 0xD3"
definition MAX_PAYLOAD_SIZE :: nat where "MAX_PAYLOAD_SIZE = 1024 * 1024"
definition CHUNK_SIZE :: nat where "CHUNK_SIZE = 1024 * 1024"
definition MAX_CHUNKED_TOTAL_SIZE :: nat where "MAX_CHUNKED_TOTAL_SIZE = 16 * 1024 * 1024"
definition MAX_CHUNK_COUNT :: nat where
  "MAX_CHUNK_COUNT = div_ceil MAX_CHUNKED_TOTAL_SIZE CHUNK_SIZE"
definition ACS_BLOCK_SIZE :: nat where "ACS_BLOCK_SIZE = 4 * 1024 * 1024"
definition MAX_ACS_BLOCK_SIZE :: nat where "MAX_ACS_BLOCK_SIZE = 8 * 1024 * 1024"

text \<open>The argument is the environment variable \<open>DECPM_ACS_BLOCK_BYTES\<close> after \<open>parse\<close>:
  \<open>None\<close> when it is unset or not a number.\<close>

definition acs_block_size :: "nat option \<Rightarrow> nat" where
  "acs_block_size env = clamp (case env of Some n \<Rightarrow> n | None \<Rightarrow> ACS_BLOCK_SIZE) (64 * 1024) MAX_ACS_BLOCK_SIZE"

section \<open>Frames\<close>

record message =
  msg_type :: message_type
  msg_instance :: string
  payload :: bytes

definition message_new :: "message_type \<Rightarrow> bytes \<Rightarrow> message" where
  "message_new t p = \<lparr>msg_type = t, msg_instance = [], payload = p\<rparr>"

definition message_new_empty :: "message_type \<Rightarrow> message" where
  "message_new_empty t = \<lparr>msg_type = t, msg_instance = [], payload = []\<rparr>"

definition with_instance :: "message \<Rightarrow> string \<Rightarrow> message" where
  "with_instance m i = m\<lparr>msg_instance := i\<rparr>"

text \<open>An instance longer than \<open>u16::MAX\<close> bytes is dropped; the payload length is cast to
  \<open>u32\<close>.\<close>

definition encode_with_instance :: "message \<Rightarrow> string \<Rightarrow> bytes" where
  "encode_with_instance m inst =
     (let instance_bytes = (if length (str_bytes inst) > 65535 then [] else str_bytes inst) in
      [WIRE_VERSION] @ be_bytes 2 (to_u16 (msg_type m))
      @ be_bytes 2 (length instance_bytes) @ instance_bytes
      @ be_bytes 4 (length (payload m)) @ payload m)"

definition to_bytes :: "message \<Rightarrow> bytes" where
  "to_bytes m = encode_with_instance m (msg_instance m)"

definition from_bytes :: "bytes \<Rightarrow> wire_error + message" where
  "from_bytes bs =
     (if length bs < 9 then Inl (MessageTooShort (length bs))
      else if bs ! 0 \<noteq> WIRE_VERSION then Inl (VersionMismatch (bs ! 0))
      else and_then (message_type_try_from (be_nat [bs ! 1, bs ! 2])) (\<lambda>t.
        let instance_len = be_nat [bs ! 3, bs ! 4]; instance_end = 5 + instance_len in
        if length bs < instance_end + 4 then Inl (InstanceTruncated instance_len)
        else and_then (ok_or InstanceNotUtf8 (from_utf8 (take instance_len (drop 5 bs)))) (\<lambda>inst.
          let len_start = instance_end;
              payload_len = be_nat [bs ! len_start, bs ! (len_start + 1), bs ! (len_start + 2), bs ! (len_start + 3)];
              payload_start = len_start + 4 in
          if length bs < payload_start + payload_len then Inl (PayloadTruncated payload_len)
          else Inr \<lparr>msg_type = t, msg_instance = inst,
                   payload = take payload_len (drop payload_start bs)\<rparr>)))"

section \<open>Errors and retries\<close>

text \<open>The variants of \<open>NoiseError\<close>; the payloads of third-party error types are the text
  they print.\<close>

datatype noise_error =
    Noise string
  | Hyper string
  | Http string
  | Io string
  | JsonSerialization string
  | BadStatusCode nat "string option"
  | InvalidUri string
  | UriParsingError string
  | RequestTimeout
  | TcpConnectionTimeout string
  | TcpConnectionFailed string
  | HandshakeFailed
  | UnknownPeer string
  | DecryptionError
  | InvalidMessage
  | Anyhow string

text \<open>\<open>StatusCode::is_server_error\<close>: 500 to 599.\<close>

definition is_server_error :: "nat \<Rightarrow> bool" where
  "is_server_error code \<longleftrightarrow> 500 \<le> code \<and> code < 600"

fun is_transient :: "noise_error \<Rightarrow> bool" where
  "is_transient (TcpConnectionTimeout _) = True"
| "is_transient (TcpConnectionFailed _) = True"
| "is_transient RequestTimeout = True"
| "is_transient (Io _) = True"
| "is_transient (Hyper _) = True"
| "is_transient (BadStatusCode code _) = is_server_error code"
| "is_transient (Noise _) = False"
| "is_transient HandshakeFailed = False"
| "is_transient DecryptionError = False"
| "is_transient InvalidMessage = False"
| "is_transient (JsonSerialization _) = False"
| "is_transient (Http _) = False"
| "is_transient (InvalidUri _) = False"
| "is_transient (UriParsingError _) = False"
| "is_transient (UnknownPeer _) = False"
| "is_transient (Anyhow _) = False"

text \<open>An attempt reads and changes the world \<open>'w\<close> (the network and the peer behind it).
  \<open>attempts op n\<close> is the loop with \<open>n\<close> attempts left: it stops at the first success, at the
  first error that is not transient, and at the last attempt, whose error it returns.\<close>

type_synonym ('w, 'a) attempt = "'w \<Rightarrow> (noise_error + 'a) \<times> 'w"

fun attempts :: "('w, 'a) attempt \<Rightarrow> nat \<Rightarrow> ('w, 'a) attempt" where
  "attempts op 0 w = (Inl (Anyhow ''NoiseRetryConfig.max_attempts must be >= 1''), w)"
| "attempts op (Suc n) w =
    (case op w of
       (Inr b, w') \<Rightarrow> (Inr b, w')
     | (Inl e, w') \<Rightarrow> if is_transient e \<and> 0 < n then attempts op n w' else (Inl e, w'))"

text \<open>\<open>retry_loop\<close>: the guard on \<open>max_attempts\<close> is the case of no attempt.\<close>

definition retry_loop :: "nat \<Rightarrow> ('w, 'a) attempt \<Rightarrow> ('w, 'a) attempt" where
  "retry_loop max_attempts op = attempts op max_attempts"

section \<open>Chunked responses\<close>

definition parse_chunked_command_metadata ::
    "bytes \<Rightarrow> noise_error + message_type \<times> nat \<times> nat" where
  "parse_chunked_command_metadata p =
     (if length p < 10 then Inl InvalidMessage
      else let command_type_u16 = be_nat [p ! 0, p ! 1];
               total_size = be_nat [p ! 2, p ! 3, p ! 4, p ! 5];
               chunk_count = be_nat [p ! 6, p ! 7, p ! 8, p ! 9]
           in and_then (map_err (\<lambda>_. InvalidMessage) (message_type_try_from command_type_u16)) (\<lambda>t.
                Inr (t, total_size, chunk_count)))"

text \<open>The caps and the consistency test that both receivers of chunked responses apply before
  they fetch anything.\<close>

definition check_chunk_metadata :: "nat \<Rightarrow> nat \<Rightarrow> noise_error + unit" where
  "check_chunk_metadata total_size chunk_count =
     (if total_size > MAX_CHUNKED_TOTAL_SIZE \<or> chunk_count > MAX_CHUNK_COUNT then Inl InvalidMessage
      else if chunk_count \<noteq> div_ceil total_size CHUNK_SIZE then Inl InvalidMessage
      else Inr ())"

definition parse_chunk :: "nat \<Rightarrow> bytes \<Rightarrow> noise_error + bytes" where
  "parse_chunk chunk_index response =
     and_then (map_err (\<lambda>_. InvalidMessage) (from_bytes response)) (\<lambda>m.
       if msg_type m \<noteq> Chunk \<or> length (payload m) < 4 then Inl InvalidMessage
       else if be_nat [payload m ! 0, payload m ! 1, payload m ! 2, payload m ! 3] \<noteq> chunk_index
       then Inl InvalidMessage
       else Inr (drop 4 (payload m)))"

section \<open>Lemmas\<close>

subsection \<open>Wire numbers\<close>

lemma try_from_to_u16: "message_type_try_from (to_u16 t) = Inr t"
  by (cases t) (simp_all add: message_type_try_from_def message_type_table_def)

lemma table_to_u16: "list_all (\<lambda>(v, t). to_u16 t = v) message_type_table"
  by (simp add: message_type_table_def)

lemma try_from_iff: "message_type_try_from v = Inr t \<longleftrightarrow> v = to_u16 t"
proof
  assume "message_type_try_from v = Inr t"
  then have "(v, t) \<in> set message_type_table"
    by (auto simp: message_type_try_from_def result_simps dest: map_of_SomeD)
  then show "v = to_u16 t" using table_to_u16 by (auto simp: list_all_iff)
qed (simp add: try_from_to_u16)

lemma to_u16_inj: "to_u16 s = to_u16 t \<longleftrightarrow> s = t"
  by (metis sum.inject(2) try_from_to_u16)

lemma to_u16_bound: "to_u16 t < 0x400"
  by (cases t) simp_all

subsection \<open>Reading integers at an offset\<close>

lemma nth2_take_drop:
  "i + 2 \<le> length bs \<Longrightarrow> j = i + 1 \<Longrightarrow> [bs ! i, bs ! j] = take 2 (drop i bs)"
  by (simp add: numeral_2_eq_2 take_Suc_conv_app_nth)

lemma nth4_take_drop:
  "i + 4 \<le> length bs \<Longrightarrow> j = i + 1 \<Longrightarrow> k = i + 2 \<Longrightarrow> l = i + 3 \<Longrightarrow>
    [bs ! i, bs ! j, bs ! k, bs ! l] = take 4 (drop i bs)"
  by (simp add: numeral_eq_Suc take_Suc_conv_app_nth)

lemma be_nat_take_id: "k \<le> length bs \<Longrightarrow> be_bytes k (be_nat (take k bs)) = take k bs"
  using be_bytes_be_nat [of "take k bs"] by simp

lemma be2_at:
  "i + 2 \<le> length bs \<Longrightarrow> j = i + 1 \<Longrightarrow> be_bytes 2 (be_nat [bs ! i, bs ! j]) = take 2 (drop i bs)"
  using be_nat_take_id [of 2 "drop i bs"] by (simp only: nth2_take_drop) simp

lemma be4_at:
  "i + 4 \<le> length bs \<Longrightarrow> j = i + 1 \<Longrightarrow> k = i + 2 \<Longrightarrow> l = i + 3 \<Longrightarrow>
    be_bytes 4 (be_nat [bs ! i, bs ! j, bs ! k, bs ! l]) = take 4 (drop i bs)"
  using be_nat_take_id [of 4 "drop i bs"] by (simp only: nth4_take_drop) simp

subsection \<open>Frames\<close>

text \<open>A readable form of the decoder: split the input into its fields.\<close>

definition frame :: "message_type \<Rightarrow> bytes \<Rightarrow> bytes \<Rightarrow> bytes" where
  "frame t inst p = [WIRE_VERSION] @ be_bytes 2 (to_u16 t) @ be_bytes 2 (length inst) @ inst
     @ be_bytes 4 (length p) @ p"

lemma encode_frame: "encode_with_instance m inst =
    frame (msg_type m) (if length inst > 65535 then [] else str_bytes inst) (payload m)"
  by (simp add: encode_with_instance_def frame_def Let_def)

lemma be_bytes_2: obtains a b where "be_bytes 2 n = [a, b]"
  by (simp add: numeral_2_eq_2)

lemma drop_header: "drop (5 + n) (a # b # c # d # e # xs) = drop n xs"
  by (simp add: numeral_eq_Suc)

lemma from_bytes_frame:
  assumes "utf8_valid inst" and "length inst < 256 ^ 2" and "length p < 256 ^ 4"
  shows "from_bytes (frame t inst p @ tail)
    = Inr \<lparr>msg_type = t, msg_instance = bytes_str inst, payload = p\<rparr>"
proof -
  obtain a b where t: "be_bytes 2 (to_u16 t) = [a, b]" by (rule be_bytes_2)
  obtain c d where l: "be_bytes 2 (length inst) = [c, d]" by (rule be_bytes_2)
  let ?bs = "WIRE_VERSION # a # b # c # d # inst @ be_bytes 4 (length p) @ p @ tail"
  have fr: "frame t inst p @ tail = ?bs" by (simp add: frame_def t l)
  have tn: "be_nat [a, b] = to_u16 t" unfolding t [symmetric]
    using to_u16_bound [of t] by (intro be_nat_be_bytes_small) simp
  have ln: "be_nat [c, d] = length inst" unfolding l [symmetric]
    by (rule be_nat_be_bytes_small [OF assms(2)])
  let ?n = "5 + length inst"
  have "[?bs ! ?n, ?bs ! (?n + 1), ?bs ! (?n + 2), ?bs ! (?n + 3)] = take 4 (drop ?n ?bs)"
    by (rule nth4_take_drop) simp_all
  also have "\<dots> = be_bytes 4 (length p)" by (simp only: drop_header) simp
  finally have pn: "be_nat [?bs ! ?n, ?bs ! (?n + 1), ?bs ! (?n + 2), ?bs ! (?n + 3)] = length p"
    using assms(3) by (simp only: be_nat_be_bytes_small)
  have "length ?bs = 9 + length inst + length p + length tail"
    by (simp add: length_be_bytes)
  moreover have "take (length inst) (drop 5 ?bs) = inst" by simp
  moreover have "take (length p) (drop (?n + 4) ?bs) = p"
    by (simp only: add.assoc drop_header) simp
  moreover have "?bs ! 0 = WIRE_VERSION" "?bs ! 1 = a" "?bs ! 2 = b" "?bs ! 3 = c" "?bs ! 4 = d"
    by simp_all
  ultimately show ?thesis
    using assms(1) unfolding fr from_bytes_def Let_def
    by (simp only: tn ln pn try_from_to_u16 and_then.simps from_utf8_def ok_or_simps if_True) simp
qed

lemma from_bytes_encode:
  assumes "rust_str inst" and "length (payload m) < 256 ^ 4"
  shows "from_bytes (encode_with_instance m inst @ tail)
    = Inr (m\<lparr>msg_instance := (if length inst > 65535 then [] else inst)\<rparr>)"
proof -
  let ?i = "if length inst > 65535 then [] else str_bytes inst"
  have "utf8_valid ?i" using assms(1) by (simp add: rust_str_def)
  moreover have "length ?i < 256 ^ 2" by simp
  moreover have "bytes_str ?i = (if length inst > 65535 then [] else inst)"
    by (simp add: bytes_str_def [of "[]"])
  ultimately show ?thesis
    unfolding encode_frame using assms(2) by (subst from_bytes_frame) auto
qed

lemma from_bytes_to_bytes:
  assumes "rust_str (msg_instance m)" and "length (msg_instance m) \<le> 65535" and "length (payload m) < 256 ^ 4"
  shows "from_bytes (to_bytes m @ tail) = Inr m"
  using from_bytes_encode [OF assms(1,3), of tail] assms(2) by (simp add: to_bytes_def)

lemma from_bytes_new:
  "length p < 256 ^ 4 \<Longrightarrow> from_bytes (to_bytes (message_new t p) @ tail) = Inr (message_new t p)"
  by (rule from_bytes_to_bytes) (simp_all add: message_new_def rust_str_def str_bytes_def)

lemma from_bytes_version:
  "from_bytes bs = Inr m \<Longrightarrow> 9 \<le> length bs \<and> bs ! 0 = WIRE_VERSION"
  by (auto simp: from_bytes_def split: if_splits)

text \<open>Every accepted frame is the encoding of what it decodes to.\<close>

lemma from_bytes_sound:
  assumes "from_bytes bs = Inr m"
  shows "\<exists>tail. bs = to_bytes m @ tail \<and> rust_str (msg_instance m)
    \<and> length (msg_instance m) \<le> 65535 \<and> length (payload m) < 256 ^ 4"
proof -
  define k where "k = be_nat [bs ! 3, bs ! 4]"
  define n where "n = be_nat [bs ! (5 + k), bs ! (5 + k + 1), bs ! (5 + k + 2), bs ! (5 + k + 3)]"
  from assms have v: "9 \<le> length bs" "bs ! 0 = WIRE_VERSION"
    using from_bytes_version by auto
  have "(if length bs < 9 then Inl (MessageTooShort (length bs))
      else if bs ! 0 \<noteq> WIRE_VERSION then Inl (VersionMismatch (bs ! 0))
      else and_then (message_type_try_from (be_nat [bs ! 1, bs ! 2])) (\<lambda>t.
        if length bs < 5 + k + 4 then Inl (InstanceTruncated k)
        else and_then (ok_or InstanceNotUtf8 (from_utf8 (take k (drop 5 bs)))) (\<lambda>inst.
          if length bs < 5 + k + 4 + n then Inl (PayloadTruncated n)
          else Inr \<lparr>msg_type = t, msg_instance = inst, payload = take n (drop (5 + k + 4) bs)\<rparr>))) = Inr m"
    using assms unfolding from_bytes_def Let_def k_def n_def .
  with v obtain t inst where t: "be_nat [bs ! 1, bs ! 2] = to_u16 t"
    and k: "5 + k + 4 \<le> length bs"
    and inst: "from_utf8 (take k (drop 5 bs)) = Some inst"
    and n: "5 + k + 4 + n \<le> length bs"
    and m: "m = \<lparr>msg_type = t, msg_instance = inst, payload = take n (drop (5 + k + 4) bs)\<rparr>"
    by (auto simp: result_simps try_from_iff simp del: be_nat.simps split: if_splits)
  have i: "utf8_valid (take k (drop 5 bs))" "take k (drop 5 bs) = str_bytes inst"
    using inst by (auto simp: from_utf8_Some)
  have li: "length inst = k" using arg_cong [OF i(2), of length] k by simp
  have k2: "k < 256 ^ 2" unfolding k_def using be_nat_bound [of "[bs ! 3, bs ! 4]"] by simp
  have n4: "n < 256 ^ 4" unfolding n_def
    using be_nat_bound [of "[bs ! (5 + k), bs ! (5 + k + 1), bs ! (5 + k + 2), bs ! (5 + k + 3)]"] by simp
  have e1: "be_bytes 2 (to_u16 t) = take 2 (drop 1 bs)"
    unfolding t [symmetric] using v by (intro be2_at) simp_all
  have e2: "be_bytes 2 k = take 2 (drop 3 bs)"
    unfolding k_def using v by (intro be2_at) simp_all
  have e3: "be_bytes 4 n = take 4 (drop (5 + k) bs)"
    unfolding n_def using k by (intro be4_at) simp_all
  have ln: "length (take n (drop (5 + k + 4) bs)) = n" using n by simp
  have "bs = take 1 bs @ take 2 (drop 1 bs) @ take 2 (drop 3 bs) @ take k (drop 5 bs)
      @ take 4 (drop (5 + k) bs) @ take n (drop (5 + k + 4) bs) @ drop (5 + k + 4 + n) bs"
    (is "_ = ?r")
  proof -
    have step: "drop j bs = take l (drop j bs) @ drop (j + l) bs" for j l
      by (metis append_take_drop_id drop_drop add.commute)
    show ?thesis
      using step [of 0 1] step [of 1 2] step [of 3 2] step [of 5 k] step [of "5 + k" 4]
        step [of "5 + k + 4" n] by (simp add: numeral_eq_Suc)
  qed
  moreover have "take 1 bs = [WIRE_VERSION]" using v by (cases bs) auto
  moreover have "to_bytes m = [WIRE_VERSION] @ take 2 (drop 1 bs) @ take 2 (drop 3 bs) @ take k (drop 5 bs)
      @ take 4 (drop (5 + k) bs) @ take n (drop (5 + k + 4) bs)"
    using k2 unfolding to_bytes_def encode_frame frame_def m
    by (simp only: message.select_convs ln li length_str_bytes i(2) [symmetric] e1 e2 e3)
      (simp add: li e1 e2 e3 i(2))
  ultimately have "bs = to_bytes m @ drop (5 + k + 4 + n) bs" by simp
  then show ?thesis using i li k2 n4 ln by (auto simp: m rust_str_def)
qed

subsection \<open>Retries\<close>

text \<open>The world after \<open>k\<close> attempts.\<close>

definition world_after :: "('w, 'a) attempt \<Rightarrow> nat \<Rightarrow> 'w \<Rightarrow> 'w" where
  "world_after op k w = ((\<lambda>v. snd (op v)) ^^ k) w"

lemma world_after_simps [simp]:
  "world_after op 0 w = w" "world_after op (Suc k) w = world_after op k (snd (op w))"
  by (simp_all add: world_after_def funpow_Suc_right del: funpow.simps(2))

lemma attempts_trace:
  "attempts op (Suc n) w = (r, w') \<Longrightarrow>
   \<exists>k\<le>n. r = fst (op (world_after op k w)) \<and> w' = world_after op (Suc k) w
     \<and> (\<forall>j<k. \<exists>e. fst (op (world_after op j w)) = Inl e \<and> is_transient e)
     \<and> (k < n \<longrightarrow> (case r of Inl e \<Rightarrow> \<not> is_transient e | Inr _ \<Rightarrow> True))"
proof (induction n arbitrary: w)
  case 0
  then show ?case by (auto split: prod.splits sum.splits)
next
  case (Suc n)
  obtain r0 w0 where op: "op w = (r0, w0)" by (cases "op w")
  show ?case
  proof (cases "\<exists>e. r0 = Inl e \<and> is_transient e")
    case True
    then have "attempts op (Suc n) w0 = (r, w')" using Suc.prems op by (auto split: sum.splits)
    from Suc.IH [OF this] obtain k where k: "k \<le> n" "r = fst (op (world_after op k w0))"
      "w' = world_after op (Suc k) w0"
      "\<forall>j<k. \<exists>e. fst (op (world_after op j w0)) = Inl e \<and> is_transient e"
      "k < n \<longrightarrow> (case r of Inl e \<Rightarrow> \<not> is_transient e | Inr _ \<Rightarrow> True)" by auto
    have "\<forall>j<Suc k. \<exists>e. fst (op (world_after op j w)) = Inl e \<and> is_transient e"
    proof (intro allI impI)
      fix j assume "j < Suc k"
      then show "\<exists>e. fst (op (world_after op j w)) = Inl e \<and> is_transient e"
        using k(4) True op by (cases j) auto
    qed
    with k op show ?thesis by (intro exI [of _ "Suc k"]) auto
  next
    case False
    then have "r = r0" "w' = w0" using Suc.prems op by (auto split: sum.splits if_splits)
    with False op show ?thesis by (intro exI [of _ 0]) (auto split: sum.splits)
  qed
qed

lemma legacy_first_byte: "unat (be_bytes 2 (to_u16 t) ! 0) \<le> 3"
  using to_u16_bound [of t] by (simp add: numeral_2_eq_2 unat_u8_of_nat)

section \<open>Properties\<close>

text \<open>The decoder of wire numbers accepts exactly the numbers the encoder
  produces, each for the message type that produces it, and a frame of the format before the
  version byte, which starts with the high byte of a message type, is never taken for a frame of
  the current version.\<close>

theorem message_type_roundtrip:
  "(message_type_try_from v = Inr t) = (v = to_u16 t) \<and>
   is_ok (from_bytes (be_bytes 2 (to_u16 t) @ old)) = False"
proof
  show "(message_type_try_from v = Inr t) = (v = to_u16 t)" by (rule try_from_iff)
  have "(be_bytes 2 (to_u16 t) @ old) ! 0 \<noteq> WIRE_VERSION"
    using legacy_first_byte [of t] by (auto simp: nth_append WIRE_VERSION_def)
  then have "\<nexists>m. from_bytes (be_bytes 2 (to_u16 t) @ old) = Inr m"
    using from_bytes_version by metis
  then show "is_ok (from_bytes (be_bytes 2 (to_u16 t) @ old)) = False"
    by (auto simp: is_ok_iff)
qed

text \<open>A frame decodes to the message that was encoded, with the routing instance the
  client stamped on it, whatever bytes follow; an instance beyond the 16-bit length field is
  dropped and the frame still decodes to the same type and payload.\<close>

theorem frame_roundtrip:
  assumes "rust_str inst" and "length (payload m) < 2 ^ 32"
  shows "from_bytes (encode_with_instance m inst @ tail) =
    Inr (m\<lparr>msg_instance := (if length inst \<le> 65535 then inst else [])\<rparr>)"
  using from_bytes_encode [OF assms(1), of m tail] assms(2) by (auto simp: not_less)

theorem frame_roundtrip_witness:
  "from_bytes (encode_with_instance (message_new SignDns [1, 2, 3]) ''run-7'' @ [0]) =
     Inr \<lparr>msg_type = SignDns, msg_instance = ''run-7'', payload = [1, 2, 3]\<rparr>"
proof -
  have "rust_str ''run-7''" by (simp add: rust_str_def str_bytes_def)
  then show ?thesis
    using frame_roundtrip [of "''run-7''" "message_new SignDns [1, 2, 3]" "[0]"]
    by (simp add: message_new_def)
qed

text \<open>C28: the decoder accepts nothing but frames of its own version: an accepted input starts
  with the version byte and is the encoding of the message returned followed by ignored bytes,
  its instance is valid UTF-8 and both lengths fit their fields.\<close>

theorem frame_sound:
  assumes "from_bytes bs = Inr m"
  shows "hd bs = WIRE_VERSION \<and> rust_str (msg_instance m) \<and> length (msg_instance m) \<le> 65535 \<and>
    length (payload m) < 2 ^ 32 \<and> (\<exists>tail. bs = to_bytes m @ tail)"
proof -
  have "9 \<le> length bs" "bs ! 0 = WIRE_VERSION" using from_bytes_version [OF assms] by auto
  then have "hd bs = WIRE_VERSION" by (cases bs) auto
  moreover have "(256 :: nat) ^ 4 = 2 ^ 32" by simp
  ultimately show ?thesis using from_bytes_sound [OF assms] by (metis (full_types))
qed

theorem frame_sound_witness:
  "hd (to_bytes (message_new Ping [5]) @ [1]) = WIRE_VERSION \<and> length (payload (message_new Ping [5])) < 2 ^ 32"
  using frame_sound [of "to_bytes (message_new Ping [5]) @ [1]" "message_new Ping [5]"]
    from_bytes_new [of "[5]" Ping "[1]"] by simp

text \<open>The retry loop with a limit of \<open>n \<ge> 1\<close> makes between one and \<open>n\<close> attempts; its
  result is the result of the last attempt made, every earlier attempt failed with a transient
  error, and if it stopped before the limit the last attempt succeeded or failed with an error
  that is not worth retrying.\<close>

theorem retry_loop_spec:
  assumes "1 \<le> n" and "retry_loop n op w = (r, w')"
  shows "\<exists>k. 1 \<le> k \<and> k \<le> n \<and> r = fst (op (world_after op (k - 1) w)) \<and> w' = world_after op k w
    \<and> (\<forall>j<k - 1. \<exists>e. fst (op (world_after op j w)) = Inl e \<and> is_transient e)
    \<and> (k < n \<longrightarrow> (case r of Inl e \<Rightarrow> \<not> is_transient e | Inr _ \<Rightarrow> True))"
proof -
  obtain n' where n: "n = Suc n'" using assms(1) by (cases n) auto
  from attempts_trace [of op n' w r w'] assms(2) obtain k where "k \<le> n'"
    "r = fst (op (world_after op k w))" "w' = world_after op (Suc k) w"
    "\<forall>j<k. \<exists>e. fst (op (world_after op j w)) = Inl e \<and> is_transient e"
    "k < n' \<longrightarrow> (case r of Inl e \<Rightarrow> \<not> is_transient e | Inr _ \<Rightarrow> True)"
    by (auto simp: retry_loop_def n)
  then show ?thesis by (intro exI [of _ "Suc k"]) (simp add: n)
qed

theorem retry_loop_spec_witness:
  "\<exists>k. 1 \<le> k \<and> k \<le> 3 \<and>
     (Inr True :: noise_error + bool) =
       fst ((\<lambda>v. (if v = 0 then Inl RequestTimeout else Inr True, v + 1)) (world_after
         (\<lambda>v :: nat. (if v = 0 then Inl RequestTimeout else (Inr True :: noise_error + bool), v + 1)) (k - 1) 0))"
proof -
  let ?op = "\<lambda>v :: nat. (if v = 0 then Inl RequestTimeout else (Inr True :: noise_error + bool), v + 1)"
  have "retry_loop 3 ?op 0 = (Inr True, 2)"
    by (simp add: retry_loop_def numeral_3_eq_3)
  from retry_loop_spec [of 3, OF _ this] obtain k where "1 \<le> k" "k \<le> 3"
    "Inr True = fst (?op (world_after ?op (k - 1) 0))" by auto
  then show ?thesis by blast
qed

end
