(* ===== verification/Canton_Id.thy ===== *)
theory Canton_Id
  imports Prelude
begin

text \<open>
  Canton identifiers: \<open>Namespace\<close>, \<open>Fingerprint\<close> and \<open>CantonId\<close> of
  \<open>crates/common/src/canton_id.rs\<close> with their parsers and printers, the prefix validator,
  and the public-key fingerprint of \<open>crates/common/src/fingerprint.rs\<close>.

  The \<open>hex\<close> and \<open>sha2\<close> crates are parameters: \<open>hexlib\<close> carries \<open>hex::encode\<close> and
  \<open>hex::decode\<close>, and the locale \<open>hex_codec\<close> states what their documentation promises
  (lower-case output of two digits per byte, case-insensitive decoding).  The reference
  implementation \<open>std_hex\<close> interprets it.
\<close>

section \<open>The hex crate\<close>

record hexlib =
  hex_encode :: "bytes \<Rightarrow> string"
  hex_decode :: "string \<Rightarrow> bytes option"

definition hex_digits :: string where
  "hex_digits = ''0123456789abcdef''"

definition lower_char :: "char \<Rightarrow> char" where
  "lower_char c = (let n = of_char c :: nat in if 65 \<le> n \<and> n \<le> 90 then char_of (n + 32) else c)"

locale hex_codec =
  fixes H :: hexlib
  assumes decode_encode: "hex_decode H (hex_encode H b) = Some b"
    and length_encode: "length (hex_encode H b) = 2 * length b"
    and encode_digits: "set (hex_encode H b) \<subseteq> set hex_digits"
    and decode_lower: "hex_decode H s = Some b \<Longrightarrow> hex_encode H b = map lower_char s"

section \<open>Definitions\<close>

subsection \<open>Namespaces\<close>

definition NAMESPACE_LENGTH :: nat where "NAMESPACE_LENGTH = 34"

datatype namespace = Namespace (as_bytes: bytes)

text \<open>The array type \<open>[u8; NAMESPACE_LENGTH]\<close>.\<close>

definition wf_namespace :: "namespace \<Rightarrow> bool" where
  "wf_namespace n \<longleftrightarrow> length (as_bytes n) = NAMESPACE_LENGTH"

datatype id_error =
    HexError string
  | NamespaceLength nat
  | FingerprintLength nat
  | FingerprintPrefix string
  | FingerprintDigits string
  | IdFormat string

definition namespace_from_hex :: "hexlib \<Rightarrow> string \<Rightarrow> id_error + namespace" where
  "namespace_from_hex H hex_str =
     and_then (ok_or (HexError hex_str) (hex_decode H hex_str)) (\<lambda>bytes.
       if length bytes \<noteq> NAMESPACE_LENGTH then Inl (NamespaceLength (length bytes))
       else Inr (Namespace bytes))"

definition namespace_to_hex :: "hexlib \<Rightarrow> namespace \<Rightarrow> string" where
  "namespace_to_hex H n = hex_encode H (as_bytes n)"

subsection \<open>Fingerprints\<close>

definition MULTIHASH_SHA256_PREFIX :: string where
  "MULTIHASH_SHA256_PREFIX = ''1220''"

definition FINGERPRINT_LENGTH :: nat where
  "FINGERPRINT_LENGTH = 2 * NAMESPACE_LENGTH"

datatype fingerprint = Fingerprint (as_str: string)

definition from_sha256 :: "hexlib \<Rightarrow> bytes \<Rightarrow> fingerprint" where
  "from_sha256 H digest = Fingerprint (MULTIHASH_SHA256_PREFIX @ hex_encode H digest)"

text \<open>\<open>b'0'..=b'9' | b'a'..=b'f'\<close>.\<close>

definition lower_hex_byte :: "char \<Rightarrow> bool" where
  "lower_hex_byte c = (let n = of_char c :: nat in (48 \<le> n \<and> n \<le> 57) \<or> (97 \<le> n \<and> n \<le> 102))"

definition fingerprint_try_from :: "string \<Rightarrow> id_error + fingerprint" where
  "fingerprint_try_from s =
     (if length s \<noteq> FINGERPRINT_LENGTH then Inl (FingerprintLength (length s))
      else case strip_prefix MULTIHASH_SHA256_PREFIX s of
        None \<Rightarrow> Inl (FingerprintPrefix s)
      | Some hash \<Rightarrow>
          if \<not> list_all lower_hex_byte hash then Inl (FingerprintDigits s)
          else Inr (Fingerprint s))"

definition PURPOSE_PUBLIC_KEY_FINGERPRINT :: nat where
  "PURPOSE_PUBLIC_KEY_FINGERPRINT = 12"

definition fingerprint_from_public_key ::
    "hexlib \<Rightarrow> (bytes \<Rightarrow> bytes) \<Rightarrow> bytes \<Rightarrow> fingerprint" where
  "fingerprint_from_public_key H sha256 public_key =
     from_sha256 H (sha256 (be_bytes 4 PURPOSE_PUBLIC_KEY_FINGERPRINT @ public_key))"

subsection \<open>Canton ids\<close>

datatype canton_id = CantonId (prefix: string) (ns: namespace)

definition wf_id :: "canton_id \<Rightarrow> bool" where
  "wf_id i \<longleftrightarrow> wf_namespace (ns i)"

definition canton_id_parse :: "hexlib \<Rightarrow> string \<Rightarrow> id_error + canton_id" where
  "canton_id_parse H s =
     (case split_dcolon s of
        [p, h] \<Rightarrow> and_then (namespace_from_hex H h) (\<lambda>n. Inr (CantonId p n))
      | _ \<Rightarrow> Inl (IdFormat s))"

definition canton_id_display :: "hexlib \<Rightarrow> canton_id \<Rightarrow> string" where
  "canton_id_display H i = prefix i @ ''::'' @ namespace_to_hex H (ns i)"

definition parse_from_file :: "hexlib \<Rightarrow> string \<Rightarrow> id_error + canton_id" where
  "parse_from_file H content =
     (let trimmed = trim content;
          id_str = (case strip_prefix ''PAR::'' trimmed of Some stripped \<Rightarrow> stripped | None \<Rightarrow> trimmed)
      in canton_id_parse H id_str)"

definition to_file_format :: "hexlib \<Rightarrow> canton_id \<Rightarrow> string" where
  "to_file_format H i = ''PAR::'' @ canton_id_display H i"

text \<open>The order derived on the struct: prefix first, then the namespace bytes.\<close>

instantiation namespace :: linorder
begin
definition less_eq_namespace :: "namespace \<Rightarrow> namespace \<Rightarrow> bool" where
  "less_eq_namespace a b \<longleftrightarrow> as_bytes a \<le> as_bytes b"
definition less_namespace :: "namespace \<Rightarrow> namespace \<Rightarrow> bool" where
  "less_namespace a b \<longleftrightarrow> as_bytes a < as_bytes b"
instance
  by standard (auto simp: less_eq_namespace_def less_namespace_def namespace.expand)
end

instantiation canton_id :: linorder
begin
definition less_eq_canton_id :: "canton_id \<Rightarrow> canton_id \<Rightarrow> bool" where
  "less_eq_canton_id a b \<longleftrightarrow> prefix a < prefix b \<or> prefix a = prefix b \<and> ns a \<le> ns b"
definition less_canton_id :: "canton_id \<Rightarrow> canton_id \<Rightarrow> bool" where
  "less_canton_id a b \<longleftrightarrow> prefix a < prefix b \<or> prefix a = prefix b \<and> ns a < ns b"
instance
  by standard (auto simp: less_eq_canton_id_def less_canton_id_def canton_id.expand)
end

subsection \<open>Party prefixes\<close>

definition MAX_PARTY_ID_PREFIX_LEN :: nat where "MAX_PARTY_ID_PREFIX_LEN = 180"

text \<open>\<open>str::chars\<close>: the encodings of the code points, one by one.\<close>

definition char_width :: "char \<Rightarrow> nat" where
  "char_width c = (let n = of_char c :: nat in
     if n < 0x80 then 1 else if n < 0xE0 then 2 else if n < 0xF0 then 3 else 4)"

function str_chars :: "string \<Rightarrow> string list" where
  "str_chars [] = []"
| "str_chars (c # s) =
    take (char_width c) (c # s) # str_chars (drop (char_width c) (c # s))"
  by pat_completeness auto
termination
  by (relation "measure length") (auto simp: char_width_def Let_def)

definition is_ascii_alphabetic :: "string \<Rightarrow> bool" where
  "is_ascii_alphabetic ch = (case ch of
     [c] \<Rightarrow> (let n = of_char c :: nat in (65 \<le> n \<and> n \<le> 90) \<or> (97 \<le> n \<and> n \<le> 122)) | _ \<Rightarrow> False)"

definition is_ascii_alphanumeric :: "string \<Rightarrow> bool" where
  "is_ascii_alphanumeric ch = (is_ascii_alphabetic ch \<or> (case ch of
     [c] \<Rightarrow> (let n = of_char c :: nat in 48 \<le> n \<and> n \<le> 57) | _ \<Rightarrow> False))"

datatype prefix_error =
    PrefixEmpty
  | PrefixTooLong nat
  | PrefixLeadingLetter
  | PrefixInvalidChar string

definition prefix_char_ok :: "string \<Rightarrow> bool" where
  "prefix_char_ok ch \<longleftrightarrow> is_ascii_alphanumeric ch \<or> ch = ''-'' \<or> ch = ''_''"

definition validate_party_id_prefix :: "string \<Rightarrow> prefix_error + unit" where
  "validate_party_id_prefix p =
     (if p = [] then Inl PrefixEmpty
      else let len = length (str_chars p) in
        if len > MAX_PARTY_ID_PREFIX_LEN then Inl (PrefixTooLong len)
        else if \<not> (case str_chars p of c # _ \<Rightarrow> is_ascii_alphabetic c | [] \<Rightarrow> False)
        then Inl PrefixLeadingLetter
        else case find (\<lambda>c. \<not> prefix_char_ok c) (str_chars p) of
          Some bad \<Rightarrow> Inl (PrefixInvalidChar bad)
        | None \<Rightarrow> Inr ())"

section \<open>The reference hex codec\<close>

definition hex_nibble :: "char \<Rightarrow> nat option" where
  "hex_nibble c = (let n = of_char c :: nat in
     if 48 \<le> n \<and> n \<le> 57 then Some (n - 48)
     else if 97 \<le> n \<and> n \<le> 102 then Some (n - 87)
     else if 65 \<le> n \<and> n \<le> 70 then Some (n - 55)
     else None)"

fun std_encode :: "bytes \<Rightarrow> string" where
  "std_encode [] = []"
| "std_encode (b # bs) = hex_digits ! (unat b div 16) # hex_digits ! (unat b mod 16) # std_encode bs"

fun std_decode :: "string \<Rightarrow> bytes option" where
  "std_decode [] = Some []"
| "std_decode [c] = None"
| "std_decode (c # d # s) =
    (case (hex_nibble c, hex_nibble d, std_decode s) of
       (Some m, Some n, Some bs) \<Rightarrow> Some (of_nat (16 * m + n) # bs) | _ \<Rightarrow> None)"

definition std_hex :: hexlib where
  "std_hex = \<lparr>hex_encode = std_encode, hex_decode = std_decode\<rparr>"

section \<open>Lemmas\<close>

text \<open>The tables, checked on every digit and on every byte.\<close>

lemma hex_digit_table:
  "list_all (\<lambda>n. hex_nibble (hex_digits ! n) = Some n \<and> hex_digits ! n \<in> set hex_digits) [0..<16]"
  by code_simp

lemma hex_nibble_table:
  "list_all (\<lambda>c. case hex_nibble c of
      None \<Rightarrow> True | Some m \<Rightarrow> m < 16 \<and> lower_char c = hex_digits ! m)
    ''0123456789abcdefABCDEF''"
  by (simp add: hex_nibble_def lower_char_def hex_digits_def char_of_eq_iff)

lemma hex_digit_props:
  assumes "n < 16"
  shows "hex_nibble (hex_digits ! n) = Some n" "hex_digits ! n \<in> set hex_digits"
  using hex_digit_table assms by (auto simp: list_all_iff)

lemma hex_nibble_domain:
  assumes "hex_nibble c = Some m"
  shows "c \<in> set ''0123456789abcdefABCDEF''"
proof -
  define n where "n = (of_char c :: nat)"
  have c: "c = char_of n" by (simp add: n_def)
  have "48 \<le> n \<and> n \<le> 57 \<or> 97 \<le> n \<and> n \<le> 102 \<or> 65 \<le> n \<and> n \<le> 70"
    using assms by (auto simp: hex_nibble_def n_def Let_def split: if_splits)
  then have "n = 48 \<or> n = 49 \<or> n = 50 \<or> n = 51 \<or> n = 52 \<or> n = 53 \<or> n = 54 \<or> n = 55 \<or> n = 56 \<or> n = 57
    \<or> n = 97 \<or> n = 98 \<or> n = 99 \<or> n = 100 \<or> n = 101 \<or> n = 102
    \<or> n = 65 \<or> n = 66 \<or> n = 67 \<or> n = 68 \<or> n = 69 \<or> n = 70"
    by presburger
  then show ?thesis unfolding c by (elim disjE) (simp_all add: char_of_eq_iff)
qed

lemma hex_nibble_Some:
  assumes "hex_nibble c = Some m"
  shows "m < 16" "hex_digits ! m = lower_char c"
  using hex_nibble_table [unfolded list_all_iff, THEN bspec, OF hex_nibble_domain [OF assms]] assms
  by auto

lemma unat_u8_less: "unat (b :: u8) < 256"
  using unsigned_less [of b, where ?'a = nat] by simp

lemma std_decode_encode: "std_decode (std_encode b) = Some b"
proof (induction b)
  case (Cons x xs)
  have "unat x div 16 < 16" using unat_u8_less [of x] by simp
  then show ?case using Cons by (simp add: hex_digit_props)
qed simp

lemma std_encode_decode: "std_decode s = Some b \<Longrightarrow> std_encode b = map lower_char s"
proof (induction s arbitrary: b rule: std_decode.induct)
  case (3 c d s)
  then obtain m n bs where mn: "hex_nibble c = Some m" "hex_nibble d = Some n"
    and bs: "std_decode s = Some bs" and b: "b = of_nat (16 * m + n) # bs"
    by (auto split: option.splits)
  have "m < 16" "n < 16" using mn by (auto dest: hex_nibble_Some)
  then have "unat (of_nat (16 * m + n) :: u8) = 16 * m + n" by (simp only: unat_u8_of_nat) simp
  with "3.IH" [OF bs] mn \<open>n < 16\<close> show ?case
    unfolding b by (simp del: of_nat_add of_nat_mult add: hex_nibble_Some)
qed auto

interpretation std: hex_codec std_hex
proof
  fix b s
  show "hex_decode std_hex (hex_encode std_hex b) = Some b"
    by (simp add: std_hex_def std_decode_encode)
  show "length (hex_encode std_hex b) = 2 * length b"
    unfolding std_hex_def by (induction b) auto
  show "set (hex_encode std_hex b) \<subseteq> set hex_digits"
  proof (induction b)
    case (Cons x xs)
    have "unat x div 16 < 16" using unat_u8_less [of x] by simp
    with Cons show ?case by (simp add: std_hex_def hex_digit_props)
  qed (simp add: std_hex_def)
  show "hex_decode std_hex s = Some b \<Longrightarrow> hex_encode std_hex b = map lower_char s"
    by (simp add: std_hex_def std_encode_decode)
qed

subsection \<open>Printing and parsing\<close>

text \<open>What the first part of a split may look like: it can be followed by the delimiter
  again, whatever comes next.\<close>

lemma split_dcolon_head:
  "split_dcolon s = p # q # ps \<Longrightarrow> split_dcolon (p @ ''::'' @ t) = p # split_dcolon t"
proof (induction s arbitrary: p q ps rule: split_dcolon.induct)
  case (3 c d s)
  show ?case
  proof (cases "c = CHR '':'' \<and> d = CHR '':''")
    case True
    with "3.prems" show ?thesis by simp
  next
    case False
    then obtain p' where p: "p = c # p'" and tl: "split_dcolon (d # s) = p' # q # ps"
      using "3.prems" by (auto split: list.splits)
    have IH: "split_dcolon (p' @ ''::'' @ t) = p' # split_dcolon t"
      using "3.IH"(2) False tl by blast
    show ?thesis
    proof (cases p')
      case Nil
      with tl have "d = CHR '':''" by (cases s) (auto split: if_splits list.splits)
      with False Nil p show ?thesis by simp
    next
      case (Cons e r)
      then have "e = d" using tl by (cases s) (auto split: if_splits list.splits)
      then have "\<not> (c = CHR '':'' \<and> e = CHR '':'')" using False by simp
      then show ?thesis using IH unfolding p Cons by auto
    qed
  qed
qed auto

lemma hex_digits_no_colon: "CHR '':'' \<notin> set hex_digits"
  by code_simp

context hex_codec
begin

lemma to_hex_no_colon: "CHR '':'' \<notin> set (namespace_to_hex H n)"
  using encode_digits hex_digits_no_colon by (auto simp: namespace_to_hex_def)

lemma length_to_hex: "length (namespace_to_hex H n) = 2 * length (as_bytes n)"
  by (simp add: namespace_to_hex_def length_encode)

lemma from_hex_to_hex: "wf_namespace n \<Longrightarrow> namespace_from_hex H (namespace_to_hex H n) = Inr n"
  by (simp add: namespace_from_hex_def namespace_to_hex_def decode_encode wf_namespace_def)

lemma from_hex_wf: "namespace_from_hex H s = Inr n \<Longrightarrow> wf_namespace n"
  by (auto simp: namespace_from_hex_def wf_namespace_def result_simps split: if_splits)

lemma from_hex_lower:
  "namespace_from_hex H s = Inr n \<Longrightarrow> namespace_to_hex H n = map lower_char s"
  by (auto simp: namespace_from_hex_def namespace_to_hex_def result_simps decode_lower split: if_splits)

lemma parse_parts:
  "canton_id_parse H s = Inr i \<longleftrightarrow>
     (\<exists>p h n. split_dcolon s = [p, h] \<and> namespace_from_hex H h = Inr n \<and> i = CantonId p n)"
  by (auto simp: canton_id_parse_def result_simps split: list.splits)

lemma parse_display:
  assumes "wf_id i" and "split_dcolon (prefix i @ ''::'' @ namespace_to_hex H (ns i))
    = [prefix i, namespace_to_hex H (ns i)]"
  shows "canton_id_parse H (canton_id_display H i) = Inr i"
  using assms unfolding parse_parts canton_id_display_def
  by (auto simp: from_hex_to_hex wf_id_def)

lemma parse_display_no_colon:
  assumes "wf_id i" and "CHR '':'' \<notin> set (prefix i)"
  shows "canton_id_parse H (canton_id_display H i) = Inr i"
  using assms split_dcolon_append [of "prefix i" "namespace_to_hex H (ns i)"]
  by (intro parse_display) (simp_all add: split_dcolon_no_colon to_hex_no_colon)

lemma parse_sound:
  assumes "canton_id_parse H s = Inr i"
  shows "wf_id i" "canton_id_parse H (canton_id_display H i) = Inr i"
    "\<exists>h. s = prefix i @ ''::'' @ h \<and> namespace_to_hex H (ns i) = map lower_char h"
proof -
  from assms obtain p h n where sp: "split_dcolon s = [p, h]" and n: "namespace_from_hex H h = Inr n"
    and i: "i = CantonId p n" by (auto simp: parse_parts)
  show wf: "wf_id i" using from_hex_wf [OF n] by (simp add: i wf_id_def)
  have "split_dcolon (p @ ''::'' @ namespace_to_hex H n) = [p, namespace_to_hex H n]"
    using split_dcolon_head [OF sp] by (simp add: split_dcolon_no_colon to_hex_no_colon)
  with wf show "canton_id_parse H (canton_id_display H i) = Inr i"
    by (intro parse_display) (auto simp: i)
  have "s = join_dcolon [p, h]" using join_split_dcolon [of s] sp by simp
  then show "\<exists>h. s = prefix i @ ''::'' @ h \<and> namespace_to_hex H (ns i) = map lower_char h"
    using from_hex_lower [OF n] by (auto simp: i)
qed

end


subsection \<open>File format\<close>

text \<open>No white space starts with \<open>P\<close> or ends in a hex digit, so trimming leaves a
  printed id alone.\<close>

lemma white_space_first: "list_all (\<lambda>w. strip_prefix w (CHR ''P'' # s) = None) (map bytes_str white_space)"
  by (simp add: white_space_def bytes_str_def char_of_eq_iff)

lemma white_space_last:
  assumes "c \<in> set hex_digits"
  shows "list_all (\<lambda>w. strip_prefix w (c # s) = None) (map rev (map bytes_str white_space))"
  using assms by (auto simp: white_space_def bytes_str_def char_of_eq_iff hex_digits_def)

context hex_codec
begin

lemma trim_file_format:
  assumes "wf_id i"
  shows "trim (to_file_format H i) = to_file_format H i"
proof (rule trim_id)
  show "strip_one (map bytes_str white_space) (to_file_format H i) = None"
    unfolding strip_one_None using white_space_first by (simp add: to_file_format_def list_all_iff)
  let ?h = "namespace_to_hex H (ns i)"
  have "?h \<noteq> []" using assms length_to_hex [of "ns i"]
    by (auto simp: wf_id_def wf_namespace_def NAMESPACE_LENGTH_def)
  then obtain t c where h: "?h = t @ [c]" by (metis rev_exhaust)
  have "set ?h \<subseteq> set hex_digits" using encode_digits by (simp add: namespace_to_hex_def)
  then have c: "c \<in> set hex_digits" unfolding h by simp
  have "rev (to_file_format H i) = c # rev (''PAR::'' @ prefix i @ ''::'' @ t)"
    unfolding to_file_format_def canton_id_display_def h by (simp only: rev_append append_assoc) simp
  then show "strip_one (map rev (map bytes_str white_space)) (rev (to_file_format H i)) = None"
    unfolding strip_one_None using white_space_last [OF c] by (simp add: list_all_iff)
qed

lemma file_roundtrip:
  assumes "wf_id i" and "CHR '':'' \<notin> set (prefix i)"
  shows "parse_from_file H (to_file_format H i) = Inr i"
  unfolding parse_from_file_def trim_file_format [OF assms(1)]
  using parse_display_no_colon [OF assms] by (simp only: to_file_format_def strip_prefix_append) simp

lemma from_sha256_valid:
  assumes "length digest = 32"
  shows "fingerprint_try_from (as_str (from_sha256 H digest)) = Inr (from_sha256 H digest)"
proof -
  have "\<forall>c\<in>set hex_digits. lower_hex_byte c"
    by (simp add: hex_digits_def lower_hex_byte_def)
  then have "list_all lower_hex_byte (hex_encode H digest)"
    using encode_digits by (auto simp: list_all_iff)
  moreover have "length (MULTIHASH_SHA256_PREFIX @ hex_encode H digest) = FINGERPRINT_LENGTH"
    using assms by (simp add: MULTIHASH_SHA256_PREFIX_def FINGERPRINT_LENGTH_def
      NAMESPACE_LENGTH_def length_encode)
  ultimately show ?thesis
    by (simp add: fingerprint_try_from_def from_sha256_def)
qed

end

subsection \<open>Prefix validation\<close>

definition prefix_byte_ok :: "char \<Rightarrow> bool" where
  "prefix_byte_ok c = (let n = of_char c :: nat in
     (65 \<le> n \<and> n \<le> 90) \<or> (97 \<le> n \<and> n \<le> 122) \<or> (48 \<le> n \<and> n \<le> 57) \<or> c = CHR ''-'' \<or> c = CHR ''_'')"

lemma prefix_char_ok_iff: "prefix_char_ok ch \<longleftrightarrow> (\<exists>c. ch = [c] \<and> prefix_byte_ok c)"
  by (auto simp: prefix_char_ok_def prefix_byte_ok_def is_ascii_alphanumeric_def
      is_ascii_alphabetic_def Let_def split: list.splits)

lemma prefix_byte_ok_width: "prefix_byte_ok c \<Longrightarrow> char_width c = 1"
  by (auto simp: prefix_byte_ok_def char_width_def Let_def)

lemma concat_str_chars: "concat (str_chars s) = s"
  by (induction s rule: str_chars.induct) simp_all

lemma str_chars_ok: "list_all prefix_byte_ok p \<Longrightarrow> str_chars p = map (\<lambda>c. [c]) p"
  by (induction p) (auto simp: prefix_byte_ok_width)

lemma str_chars_all_ok: "list_all prefix_char_ok (str_chars p) \<longleftrightarrow> list_all prefix_byte_ok p"
proof
  assume "list_all prefix_char_ok (str_chars p)"
  then have "list_all prefix_byte_ok (concat (str_chars p))"
    by (auto simp: list_all_iff prefix_char_ok_iff)
  then show "list_all prefix_byte_ok p" by (simp add: concat_str_chars)
next
  assume ok: "list_all prefix_byte_ok p"
  then show "list_all prefix_char_ok (str_chars p)"
    using str_chars_ok [OF ok] by (auto simp: list_all_iff prefix_char_ok_iff)
qed

lemma validate_prefix_iff:
  "validate_party_id_prefix p = Inr () \<longleftrightarrow>
     p \<noteq> [] \<and> length p \<le> MAX_PARTY_ID_PREFIX_LEN \<and> is_ascii_alphabetic [hd p]
     \<and> list_all prefix_byte_ok p"
proof (cases p)
  case (Cons c s)
  have "(case r of Some bad \<Rightarrow> Inl (PrefixInvalidChar bad) | None \<Rightarrow> Inr ()) = Inr () \<longleftrightarrow> r = None"
    for r by (cases r) auto
  then have "validate_party_id_prefix p = Inr () \<longleftrightarrow>
      length (str_chars p) \<le> MAX_PARTY_ID_PREFIX_LEN
      \<and> (case str_chars p of c # _ \<Rightarrow> is_ascii_alphabetic c | [] \<Rightarrow> False)
      \<and> list_all prefix_char_ok (str_chars p)"
    using Cons by (auto simp: validate_party_id_prefix_def Let_def find_None_iff list_all_iff
        simp del: str_chars.simps)
  then show ?thesis
    unfolding str_chars_all_ok using Cons by (auto simp: str_chars_ok simp del: str_chars.simps)
qed (simp add: validate_party_id_prefix_def)

lemma prefix_byte_ok_no_colon: "list_all prefix_byte_ok p \<Longrightarrow> CHR '':'' \<notin> set p"
  by (auto simp: list_all_iff prefix_byte_ok_def)

section \<open>Properties\<close>

text \<open>\<open>validate_party_id_prefix\<close> accepts exactly the strings of 1 to 180 bytes that
  start with an ASCII letter and consist of ASCII letters, digits, \<open>-\<close> and \<open>_\<close>; on every other
  string it returns an error.\<close>

theorem prefix_accepted_iff:
  "is_ok (validate_party_id_prefix p) =
     (1 \<le> length p \<and> length p \<le> 180 \<and> is_ascii_alphabetic [hd p] \<and> list_all prefix_byte_ok p)"
proof -
  have "is_ok (validate_party_id_prefix p) \<longleftrightarrow> validate_party_id_prefix p = Inr ()"
    by (cases "validate_party_id_prefix p") auto
  then show ?thesis unfolding validate_prefix_iff
    by (cases p) (auto simp: MAX_PARTY_ID_PREFIX_LEN_def)
qed

text \<open>An id built from a prefix the validator accepts survives both text forms:
  \<open>CantonId::parse\<close> reads back what \<open>Display\<close> prints, and \<open>parse_from_file\<close> what
  \<open>to_file_format\<close> writes.\<close>

theorem validated_id_roundtrip:
  assumes "hex_codec H" and "validate_party_id_prefix p = Inr ()" and "wf_namespace n"
  shows "canton_id_parse H (canton_id_display H (CantonId p n)) = Inr (CantonId p n) \<and>
    parse_from_file H (to_file_format H (CantonId p n)) = Inr (CantonId p n)"
proof (intro conjI)
  have colon: "CHR '':'' \<notin> set (prefix (CantonId p n))" and wf: "wf_id (CantonId p n)"
    using assms(2,3) by (auto simp: validate_prefix_iff wf_id_def dest: prefix_byte_ok_no_colon)
  show "canton_id_parse H (canton_id_display H (CantonId p n)) = Inr (CantonId p n)"
    by (rule hex_codec.parse_display_no_colon [OF assms(1) wf colon])
  show "parse_from_file H (to_file_format H (CantonId p n)) = Inr (CantonId p n)"
    by (rule hex_codec.file_roundtrip [OF assms(1) wf colon])
qed

theorem validated_id_roundtrip_witness:
  "canton_id_parse std_hex (canton_id_display std_hex (CantonId ''sv-1'' (Namespace (replicate 34 0x12))))
     = Inr (CantonId ''sv-1'' (Namespace (replicate 34 0x12)))"
proof (rule validated_id_roundtrip [OF std.hex_codec_axioms, THEN conjunct1])
  show "validate_party_id_prefix ''sv-1'' = Inr ()"
    by (simp add: validate_prefix_iff MAX_PARTY_ID_PREFIX_LEN_def is_ascii_alphabetic_def
        prefix_byte_ok_def)
  show "wf_namespace (Namespace (replicate 34 0x12))"
    by (simp add: wf_namespace_def NAMESPACE_LENGTH_def)
qed

text \<open>A successful \<open>CantonId::parse\<close> yields a 34-byte namespace, the input is the
  id's prefix, the delimiter and a hex string whose lower-case form is what the namespace
  prints as, and the printed id parses to the same id again (printing canonicalises).\<close>

theorem parsed_id_canonical:
  assumes "hex_codec H" and "canton_id_parse H s = Inr i"
  shows "length (as_bytes (ns i)) = 34 \<and>
    canton_id_parse H (canton_id_display H i) = Inr i \<and>
    (\<exists>h. s = prefix i @ ''::'' @ h \<and> canton_id_display H i = prefix i @ ''::'' @ map lower_char h)"
  using hex_codec.parse_sound [OF assms]
  by (auto simp: wf_id_def wf_namespace_def NAMESPACE_LENGTH_def canton_id_display_def)

theorem parsed_id_canonical_witness:
  "length (as_bytes (ns (CantonId ''sv'' (Namespace (replicate 34 0xAB))))) = 34 \<and>
    canton_id_parse std_hex (canton_id_display std_hex (CantonId ''sv'' (Namespace (replicate 34 0xAB))))
      = Inr (CantonId ''sv'' (Namespace (replicate 34 0xAB)))"
proof -
  have "canton_id_parse std_hex (''sv::'' @ concat (replicate 34 ''aB''))
      = Inr (CantonId ''sv'' (Namespace (replicate 34 0xAB)))"
    by (simp add: canton_id_parse_def namespace_from_hex_def std_hex_def hex_nibble_def
        numeral_eq_Suc NAMESPACE_LENGTH_def)
  from parsed_id_canonical [OF std.hex_codec_axioms this] show ?thesis by blast
qed

text \<open>The fingerprint computed from a public key always passes \<open>Fingerprint\<close>'s own
  validation (68 characters, the \<open>1220\<close> multihash prefix, lower-case hex), given a hash of
  32 bytes.\<close>

theorem key_fingerprint_valid:
  assumes "hex_codec H" and "\<And>m. length (sha256 m) = 32"
  shows "fingerprint_try_from (as_str (fingerprint_from_public_key H sha256 k))
    = Inr (fingerprint_from_public_key H sha256 k)"
  unfolding fingerprint_from_public_key_def
  using assms(2) by (rule hex_codec.from_sha256_valid [OF assms(1)])

theorem key_fingerprint_valid_witness:
  "fingerprint_try_from (as_str (fingerprint_from_public_key std_hex (\<lambda>m. take 32 (m @ replicate 32 0)) [7]))
    = Inr (fingerprint_from_public_key std_hex (\<lambda>m. take 32 (m @ replicate 32 0)) [7])"
  by (rule key_fingerprint_valid [OF std.hex_codec_axioms]) simp

end
