(* ===== verification/Pipe.thy ===== *)
theory Pipe
  imports Noise_Message Canton_Id
begin

text \<open>
  The forward-only ACS pipe (\<open>crates/decman/src/workflow/party_replication/pipe.rs\<close>): the export
  session that cuts the participant's stream into numbered blocks, and the encoding of a block.

  The participant's stream is the list of the messages still to come (\<open>Inl\<close> a transport error);
  the incremental hasher is the list of the bytes fed to it so far, and \<open>sha256\<close> is a parameter
  applied to it when the trailer is built.  Sequence numbers and totals are \<open>u64\<close> in the code; no
  export reaches \<open>2^64\<close> bytes or blocks, and they are natural numbers here.
\<close>

section \<open>Definitions\<close>

datatype pipe_trailer = PipeTrailer (trailer_total: nat) (trailer_sha256: string)

datatype pipe_block =
    DataBlock (block_seq: nat) (block_bytes: bytes)
  | EndBlock (block_seq: nat) (block_trailer: pipe_trailer)

datatype pipe_error =
    StreamError string
  | OutOfSync nat nat
  | DataTooShort nat
  | EndTooShort nat
  | DigestNotUtf8

record export_session =
  stream :: "(string + bytes) list"
  carry :: bytes
  served_seq :: nat
  last_block :: "pipe_block option"
  total_len :: nat
  hashed :: bytes
  drained :: bool
  started_at_ms :: int
  last_served_at_ms :: int

definition export_session_new :: "int \<Rightarrow> (string + bytes) list \<Rightarrow> export_session" where
  "export_session_new now st = \<lparr>stream = st, carry = [], served_seq = 0, last_block = None, total_len = 0,
     hashed = [], drained = False, started_at_ms = now, last_served_at_ms = now\<rparr>"

definition served_past_first :: "export_session \<Rightarrow> bool" where
  "served_past_first s \<longleftrightarrow> served_seq s > 1"

text \<open>The \<open>while\<close> loop of \<open>block\<close>: read until a block is full or the stream has ended.  An
  error leaves what was read in \<open>carry\<close>.\<close>

fun fill_carry :: "nat \<Rightarrow> (string + bytes) list \<Rightarrow> bytes \<Rightarrow> bool
    \<Rightarrow> (pipe_error + unit) \<times> (string + bytes) list \<times> bytes \<times> bool" where
  "fill_carry block_size st c dr =
     (if dr \<or> block_size \<le> length c then (Inr (), st, c, dr)
      else case st of
        [] \<Rightarrow> (Inr (), [], c, True)
      | Inr chunk # rest \<Rightarrow> fill_carry block_size rest (c @ chunk) dr
      | Inl e # rest \<Rightarrow> (Inl (StreamError e), rest, c, dr))"

declare fill_carry.simps [simp del]

text \<open>The part of \<open>block\<close> after the replay test.\<close>

definition next_block :: "hexlib \<Rightarrow> (bytes \<Rightarrow> bytes) \<Rightarrow> int \<Rightarrow> export_session \<Rightarrow> nat \<Rightarrow> nat
    \<Rightarrow> export_session \<times> (pipe_error + pipe_block)" where
  "next_block H sha256 now s seq block_size =
     (if seq \<noteq> served_seq s + 1 then (s, Inl (OutOfSync seq (served_seq s)))
      else case fill_carry block_size (stream s) (carry s) (drained s) of
        (Inl e, st, c, dr) \<Rightarrow> (s\<lparr>stream := st, carry := c, drained := dr\<rparr>, Inl e)
      | (Inr _, st, c, dr) \<Rightarrow>
          if c = [] \<and> dr then
            let b = EndBlock seq (PipeTrailer (total_len s) (hex_encode H (sha256 (hashed s)))) in
            (s\<lparr>stream := st, carry := c, drained := dr, served_seq := seq, last_block := Some b,
               last_served_at_ms := now\<rparr>, Inr b)
          else
            let n = min (length c) block_size; bytes = take n c; b = DataBlock seq bytes in
            (s\<lparr>stream := st, carry := drop n c, drained := dr, served_seq := seq, last_block := Some b,
               total_len := total_len s + length bytes, hashed := hashed s @ bytes,
               last_served_at_ms := now\<rparr>, Inr b))"

definition export_block :: "hexlib \<Rightarrow> (bytes \<Rightarrow> bytes) \<Rightarrow> int \<Rightarrow> export_session \<Rightarrow> nat \<Rightarrow> nat
    \<Rightarrow> export_session \<times> (pipe_error + pipe_block)" where
  "export_block H sha256 now s seq block_size =
     (case last_block s of
        Some b \<Rightarrow> if seq = served_seq s then (s, Inr b) else next_block H sha256 now s seq block_size
      | None \<Rightarrow> next_block H sha256 now s seq block_size)"

text \<open>Wire form: the flag says whether the block is the last.\<close>

definition encode_block :: "pipe_block \<Rightarrow> bool \<times> bytes" where
  "encode_block b = (case b of
     DataBlock seq bytes \<Rightarrow> (False, be_bytes 8 seq @ bytes)
   | EndBlock seq t \<Rightarrow> (True, be_bytes 8 seq @ be_bytes 8 (trailer_total t) @ str_bytes (trailer_sha256 t)))"

definition decode_data :: "bytes \<Rightarrow> pipe_error + nat \<times> bytes" where
  "decode_data p = (if length p < 8 then Inl (DataTooShort (length p))
     else Inr (be_nat (take 8 p), drop 8 p))"

definition decode_end :: "bytes \<Rightarrow> pipe_error + nat \<times> pipe_trailer" where
  "decode_end p = (if length p < 16 then Inl (EndTooShort (length p))
     else and_then (ok_or DigestNotUtf8 (from_utf8 (drop 16 p))) (\<lambda>sha.
       Inr (be_nat (take 8 p), PipeTrailer (be_nat (take 8 (drop 8 p))) sha)))"

section \<open>Specification\<close>

text \<open>What block \<open>seq\<close> of an export of the bytes \<open>d\<close> is: the slice of \<open>d\<close> at its position, or
  the trailer over all of \<open>d\<close> from the first position past the end on.\<close>

definition spec_block :: "hexlib \<Rightarrow> (bytes \<Rightarrow> bytes) \<Rightarrow> nat \<Rightarrow> bytes \<Rightarrow> nat \<Rightarrow> pipe_block" where
  "spec_block H sha256 bsz d seq =
     (let pos = (seq - 1) * bsz in
      if pos < length d then DataBlock seq (take bsz (drop pos d))
      else EndBlock seq (PipeTrailer (length d) (hex_encode H (sha256 d))))"

text \<open>The state of a session that has served \<open>served_seq\<close> blocks of \<open>d\<close>; the bytes still to
  come are in \<open>carry\<close> and in the stream.\<close>

definition pending_bytes :: "(string + bytes) list \<Rightarrow> bytes" where
  "pending_bytes st = concat (map (\<lambda>m. case m of Inr c \<Rightarrow> c | Inl _ \<Rightarrow> []) st)"

definition session_inv :: "hexlib \<Rightarrow> (bytes \<Rightarrow> bytes) \<Rightarrow> nat \<Rightarrow> bytes \<Rightarrow> export_session \<Rightarrow> bool" where
  "session_inv H sha256 bsz d s \<longleftrightarrow>
     hashed s = take (served_seq s * bsz) d \<and> total_len s = length (hashed s)
     \<and> carry s @ pending_bytes (stream s) = drop (served_seq s * bsz) d
     \<and> (drained s \<longrightarrow> stream s = [])
     \<and> last_block s = (if served_seq s = 0 then None else Some (spec_block H sha256 bsz d (served_seq s)))"

section \<open>Lemmas\<close>

lemma fill_carry_Inr:
  "fill_carry n st c dr = (Inr (), st', c', dr') \<Longrightarrow> (dr \<Longrightarrow> st = []) \<Longrightarrow>
     c' @ pending_bytes st' = c @ pending_bytes st \<and> (dr' \<longrightarrow> st' = []) \<and> (dr' \<or> n \<le> length c')"
proof (induction n st c dr arbitrary: st' c' dr' rule: fill_carry.induct)
  case (1 n st c dr)
  show ?case
  proof (cases "dr \<or> n \<le> length c")
    case True
    with "1.prems" show ?thesis by (subst (asm) fill_carry.simps) auto
  next
    case False
    show ?thesis
    proof (cases st)
      case Nil
      with False "1.prems" show ?thesis by (subst (asm) fill_carry.simps) (auto simp: pending_bytes_def)
    next
      case (Cons m rest)
      with False "1.prems" obtain chunk where m: "m = Inr chunk"
        by (subst (asm) fill_carry.simps) (auto split: sum.splits)
      with False "1.prems"(1) Cons have "fill_carry n rest (c @ chunk) dr = (Inr (), st', c', dr')"
        by (subst (asm) fill_carry.simps) auto
      from "1.IH" [OF False Cons m this] False Cons m show ?thesis
        by (auto simp: pending_bytes_def)
    qed
  qed
qed

lemma fill_carry_Inl:
  "fill_carry n st c dr = (Inl e, st', c', dr') \<Longrightarrow>
     c' @ pending_bytes st' = c @ pending_bytes st \<and> dr' = dr \<and> (\<exists>m. e = StreamError m \<and> Inl m \<in> set st)
     \<and> \<not> dr"
proof (induction n st c dr arbitrary: st' c' dr' rule: fill_carry.induct)
  case (1 n st c dr)
  then have no: "\<not> (dr \<or> n \<le> length c)"
    by (subst (asm) (2) fill_carry.simps) (auto split: if_splits)
  then obtain m rest where st: "st = m # rest"
    using "1.prems" by (subst (asm) fill_carry.simps) (cases st; auto)
  show ?case
  proof (cases m)
    case (Inl x)
    with no st "1.prems" show ?thesis by (subst (asm) fill_carry.simps) (auto simp: pending_bytes_def)
  next
    case (Inr chunk)
    with no st "1.prems" have "fill_carry n rest (c @ chunk) dr = (Inl e, st', c', dr')"
      by (subst (asm) fill_carry.simps) auto
    from "1.IH" [OF no st Inr this] st Inr no show ?thesis by (auto simp: pending_bytes_def)
  qed
qed

lemma session_inv_new:
  "session_inv H sha256 bsz (pending_bytes st) (export_session_new now st)"
  by (simp add: session_inv_def export_session_new_def)

lemma next_block_spec:
  assumes inv: "session_inv H sha256 bsz d s" and pos: "0 < bsz"
    and eq: "next_block H sha256 now s seq bsz = (s', r)"
  shows "session_inv H sha256 bsz d s' \<and>
    (case r of Inr b \<Rightarrow> seq = served_seq s + 1 \<and> b = spec_block H sha256 bsz d seq \<and> served_seq s' = seq
     | Inl e \<Rightarrow> served_seq s' = served_seq s \<and> (seq \<noteq> served_seq s + 1 \<or> (\<exists>m. Inl m \<in> set (stream s))))"
proof (cases "seq = served_seq s + 1")
  case False
  with eq inv show ?thesis by (auto simp: next_block_def)
next
  case seq: True
  let ?p = "served_seq s * bsz"
  obtain r0 st c dr where f: "fill_carry bsz (stream s) (carry s) (drained s) = (r0, st, c, dr)"
    by (metis prod_cases4)
  show ?thesis
  proof (cases r0)
    case (Inl e)
    have "r = Inl e" "s' = s\<lparr>stream := st, carry := c, drained := dr\<rparr>"
      using eq seq f Inl by (auto simp: next_block_def)
    moreover have "c @ pending_bytes st = carry s @ pending_bytes (stream s)" "dr = drained s" "\<not> drained s"
      "\<exists>m. Inl m \<in> set (stream s)"
      using fill_carry_Inl [OF f [unfolded Inl]] by auto
    ultimately show ?thesis using inv by (auto simp: session_inv_def)
  next
    case (Inr u)
    then have "fill_carry bsz (stream s) (carry s) (drained s) = (Inr (), st, c, dr)" using f by simp
    from fill_carry_Inr [OF this] inv
    have "c @ pending_bytes st = drop ?p d \<and> (dr \<longrightarrow> st = []) \<and> (dr \<or> bsz \<le> length c)"
      by (auto simp: session_inv_def)
    then have c: "c @ pending_bytes st = drop ?p d" and dr: "dr \<Longrightarrow> st = []" and full: "dr \<or> bsz \<le> length c"
      by auto
    have empty: "c = [] \<and> dr \<longleftrightarrow> length d \<le> ?p"
    proof
      assume "c = [] \<and> dr"
      with c dr show "length d \<le> ?p" by (auto simp: pending_bytes_def)
    next
      assume "length d \<le> ?p"
      with c full pos show "c = [] \<and> dr" by auto
    qed
    have slice: "take (min (length c) bsz) c = take bsz (drop ?p d)"
      "drop (min (length c) bsz) c @ pending_bytes st = drop (?p + bsz) d"
    proof -
      have "take bsz (c @ pending_bytes st) = take bsz c \<and> drop bsz (c @ pending_bytes st) = drop bsz c @ pending_bytes st"
        using full dr by (auto simp: pending_bytes_def)
      then show "take (min (length c) bsz) c = take bsz (drop ?p d)"
        "drop (min (length c) bsz) c @ pending_bytes st = drop (?p + bsz) d"
        unfolding c by (auto simp: min_def add.commute)
    qed
    have sb: "spec_block H sha256 bsz d seq = (if ?p < length d then DataBlock seq (take bsz (drop ?p d))
        else EndBlock seq (PipeTrailer (length d) (hex_encode H (sha256 d))))"
      by (simp add: spec_block_def seq)
    show ?thesis
    proof (cases "length d \<le> ?p")
      case True
      then show ?thesis using eq seq f Inr inv c dr empty sb
        by (auto simp: next_block_def session_inv_def Let_def add_mult_distrib)
    next
      case False
      let ?b = "DataBlock seq (take bsz (drop ?p d))"
      have r: "r = Inr ?b" and s': "s' = s\<lparr>stream := st, carry := drop (min (length c) bsz) c, drained := dr,
          served_seq := seq, last_block := Some ?b, total_len := total_len s + length (take bsz (drop ?p d)),
          hashed := hashed s @ take bsz (drop ?p d), last_served_at_ms := now\<rparr>"
        using eq seq f Inr empty False slice(1) by (auto simp: next_block_def Let_def simp del: length_take)
      have "take (?p + bsz) d = take ?p d @ take bsz (drop ?p d)" by (rule take_add)
      moreover have "hashed s = take ?p d" "total_len s = length (hashed s)"
        using inv by (auto simp: session_inv_def)
      moreover have "seq * bsz = ?p + bsz" by (simp add: seq)
      ultimately have "session_inv H sha256 bsz d s'"
        using slice(2) dr sb False seq unfolding session_inv_def s' by (simp add: add.commute)
      then show ?thesis using r seq sb False by (simp add: s')
    qed
  qed
qed

lemma export_block_spec:
  assumes inv: "session_inv H sha256 bsz d s" and pos: "0 < bsz"
    and eq: "export_block H sha256 now s seq bsz = (s', r)"
  shows "session_inv H sha256 bsz d s' \<and>
    (case r of Inr b \<Rightarrow> b = spec_block H sha256 bsz d seq \<and> served_seq s' = seq
     | Inl e \<Rightarrow> served_seq s' = served_seq s
         \<and> (seq \<noteq> served_seq s + 1 \<and> \<not> (seq = served_seq s \<and> 0 < seq) \<or> (\<exists>m. Inl m \<in> set (stream s))))"
proof (cases "seq = served_seq s \<and> last_block s \<noteq> None")
  case True
  with eq inv show ?thesis by (auto simp: export_block_def session_inv_def split: if_splits)
next
  case False
  then have "next_block H sha256 now s seq bsz = (s', r)"
    using eq by (auto simp: export_block_def split: option.splits if_splits)
  from next_block_spec [OF inv pos this] False inv show ?thesis
    by (auto simp: session_inv_def split: sum.splits if_splits)
qed

text \<open>The slices of the blocks before the end put the export together again.\<close>

lemma take_blocks: "concat (map (\<lambda>k. take n (drop (k * n) d)) [0..<m]) = take (m * n) d"
proof (induction m)
  case (Suc m)
  have "take (m * n + n) d = take (m * n) d @ take n (drop (m * n) d)" by (rule take_add)
  with Suc show ?case by (simp add: add.commute)
qed simp

text \<open>A run of requests against one session, each with the time it arrives.\<close>

fun serve :: "hexlib \<Rightarrow> (bytes \<Rightarrow> bytes) \<Rightarrow> nat \<Rightarrow> export_session \<Rightarrow> (int \<times> nat) list
    \<Rightarrow> (nat \<times> (pipe_error + pipe_block)) list" where
  "serve H sha256 bsz s [] = []"
| "serve H sha256 bsz s ((now, seq) # reqs) =
    (case export_block H sha256 now s seq bsz of (s', r) \<Rightarrow> (seq, r) # serve H sha256 bsz s' reqs)"

lemma serve_spec:
  assumes "session_inv H sha256 bsz d s" and "0 < bsz"
  shows "\<forall>(seq, r)\<in>set (serve H sha256 bsz s reqs). \<forall>b. r = Inr b \<longrightarrow> b = spec_block H sha256 bsz d seq"
  using assms(1)
proof (induction reqs arbitrary: s)
  case (Cons q reqs)
  obtain now seq where q: "q = (now, seq)" by (cases q)
  obtain s' r where e: "export_block H sha256 now s seq bsz = (s', r)"
    by (cases "export_block H sha256 now s seq bsz")
  note spec = export_block_spec [OF Cons.prems assms(2) e]
  have "\<forall>(seq, r)\<in>set (serve H sha256 bsz s' reqs). \<forall>b. r = Inr b \<longrightarrow> b = spec_block H sha256 bsz d seq"
    using spec by (intro Cons.IH) simp
  then show ?case using spec by (auto simp: q e)
qed simp

lemma fill_carry_stream: "fill_carry n st c dr = (r, st', c', dr') \<Longrightarrow> set st' \<subseteq> set st"
proof (induction n st c dr arbitrary: r st' c' dr' rule: fill_carry.induct)
  case (1 n st c dr)
  then show ?case
    by (subst (asm) (2) fill_carry.simps) (fastforce split: if_splits list.splits sum.splits)
qed

lemma export_block_stream:
  "export_block H sha256 now s seq bsz = (s', r) \<Longrightarrow> set (stream s') \<subseteq> set (stream s)"
  by (auto simp: export_block_def next_block_def Let_def
      split: option.splits if_splits prod.splits sum.splits dest!: fill_carry_stream)

lemma serve_clean:
  assumes "0 < bsz"
  shows "session_inv H sha256 bsz d s \<Longrightarrow> (\<forall>m. Inl m \<notin> set (stream s)) \<Longrightarrow>
    serve H sha256 bsz s (map (\<lambda>k. (now k, k)) [served_seq s + 1..<served_seq s + 1 + n])
      = map (\<lambda>k. (k, Inr (spec_block H sha256 bsz d k))) [served_seq s + 1..<served_seq s + 1 + n]"
proof (induction n arbitrary: s)
  case (Suc n)
  let ?k = "served_seq s + 1"
  obtain s' r where e: "export_block H sha256 (now ?k) s ?k bsz = (s', r)"
    by (cases "export_block H sha256 (now ?k) s ?k bsz")
  from export_block_spec [OF Suc.prems(1) assms e] Suc.prems(2)
  have inv: "session_inv H sha256 bsz d s'" and r: "r = Inr (spec_block H sha256 bsz d ?k)"
    and k: "served_seq s' = ?k" by (auto split: sum.splits)
  have "\<forall>m. Inl m \<notin> set (stream s')" using export_block_stream [OF e] Suc.prems(2) by auto
  note IH = Suc.IH [OF inv this, unfolded k]
  have up: "[?k..<?k + Suc n] = ?k # [?k + 1..<?k + 1 + n]" by (simp add: upt_rec)
  show ?case unfolding up using e r IH by simp
qed simp

lemma acs_block_size_pos: "0 < acs_block_size env" "acs_block_size env \<le> MAX_ACS_BLOCK_SIZE"
  using clamp_bounds [of "64 * 1024" MAX_ACS_BLOCK_SIZE]
  by (auto simp: acs_block_size_def MAX_ACS_BLOCK_SIZE_def clamp_def)

lemma spec_block_bytes_bound: "spec_block H sha256 bsz d k = DataBlock q b \<Longrightarrow> length b \<le> bsz"
  by (auto simp: spec_block_def Let_def split: if_splits)

section \<open>Properties\<close>

text \<open>C30: whatever sequence of block requests a target makes (in order, replayed,
  skipping ahead, going back), every block the export session answers with is the block of that
  number of the specification: the slice of the exported bytes at its position, no longer than the
  configured block size, or the trailer with the total length and the hash of the whole export.\<close>

theorem pipe_serves_spec:
  "list_all (\<lambda>(seq, r). case r of Inl _ \<Rightarrow> True
     | Inr b \<Rightarrow> b = spec_block H sha256 (acs_block_size env) (pending_bytes st) seq)
   (serve H sha256 (acs_block_size env) (export_session_new now st) reqs)"
  using serve_spec [OF session_inv_new acs_block_size_pos(1)]
  unfolding list_all_iff by (fastforce split: sum.splits)

text \<open>When the participant's stream does not fail, requesting the blocks in order
  serves every one of them: the data blocks put together are the exported bytes, and the block
  after them is the trailer with their length and hash.\<close>

theorem pipe_transfer_complete:
  fixes env :: "nat option" and chunks :: "bytes list"
  defines "bsz \<equiv> acs_block_size env" and "d \<equiv> concat chunks"
  defines "n \<equiv> div_ceil (length d) bsz"
  shows "\<exists>blocks. serve H sha256 bsz (export_session_new now (map Inr chunks)) (map (\<lambda>k. (t k, k)) [1..<n + 2])
      = map (\<lambda>(k, b). (k, Inr b)) (zip [1..<n + 2] (blocks @ [EndBlock (n + 1) (PipeTrailer (length d) (hex_encode H (sha256 d)))]))
    \<and> length blocks = n \<and> concat (map block_bytes blocks) = d"
proof -
  let ?s = "export_session_new now (map Inr chunks)" and ?b = "spec_block H sha256 bsz d"
  have pos: "0 < bsz" unfolding bsz_def by (rule acs_block_size_pos)
  have d: "pending_bytes (map Inr chunks) = d" by (simp add: pending_bytes_def d_def o_def)
  have inv: "session_inv H sha256 bsz d ?s" using session_inv_new [of H sha256 bsz "map Inr chunks"] d by simp
  have "\<forall>m. Inl m \<notin> set (stream ?s)" by (auto simp: export_session_new_def)
  from serve_clean [OF pos inv this, of t "n + 1"]
  have srv: "serve H sha256 bsz ?s (map (\<lambda>k. (t k, k)) [1..<n + 2]) = map (\<lambda>k. (k, Inr (?b k))) [1..<n + 2]"
    by (simp add: export_session_new_def)
  have cover: "length d \<le> n * bsz" unfolding n_def using div_ceil_cover [OF pos] by (simp add: mult.commute)
  have "(n - 1) * bsz < length d" if "0 < n" using div_ceil_pred [OF pos] that by (simp add: n_def)
  then have data: "?b (Suc k) = DataBlock (Suc k) (take bsz (drop (k * bsz) d))" if "k < n" for k
  proof -
    have "k * bsz \<le> (n - 1) * bsz" using that by (intro mult_le_mono1) simp
    also have "\<dots> < length d" using \<open>0 < n \<Longrightarrow> _\<close> that by simp
    finally show ?thesis by (simp add: spec_block_def)
  qed
  let ?blocks = "map ?b [1..<n + 1]"
  have "concat (map block_bytes ?blocks) = concat (map (\<lambda>k. take bsz (drop (k * bsz) d)) [0..<n])"
  proof -
    have "[1..<n + 1] = map Suc [0..<n]" by (simp add: map_Suc_upt)
    then have "map block_bytes ?blocks = map (\<lambda>k. take bsz (drop (k * bsz) d)) [0..<n]"
      using data by simp
    then show ?thesis by simp
  qed
  also have "\<dots> = d" unfolding take_blocks using cover by simp
  finally have cat: "concat (map block_bytes ?blocks) = d" .
  have last: "?b (n + 1) = EndBlock (n + 1) (PipeTrailer (length d) (hex_encode H (sha256 d)))"
    using cover by (simp add: spec_block_def)
  have "map (\<lambda>k. (k, Inr (?b k))) [1..<n + 2] = map (\<lambda>(k, b). (k, Inr b)) (zip [1..<n + 2] (map ?b [1..<n + 2]))"
    by (simp add: zip_map2 zip_same_conv_map o_def)
  moreover have "map ?b [1..<n + 2] = ?blocks @ [?b (n + 1)]" by simp
  ultimately show ?thesis using srv cat last by (intro exI [of _ ?blocks]) auto
qed

text \<open>A served block survives its wire form: the flag tells data from the trailer,
  the decoders give back the sequence number with the bytes, and with the total and digest.\<close>

theorem pipe_block_roundtrip:
  assumes "seq < 2 ^ 64" and "tot < 2 ^ 64" and "rust_str digest"
  shows "(case encode_block (DataBlock seq bytes) of (is_last, p) \<Rightarrow> \<not> is_last \<and> decode_data p = Inr (seq, bytes)) \<and>
    (case encode_block (EndBlock seq (PipeTrailer tot digest)) of
       (is_last, p) \<Rightarrow> is_last \<and> decode_end p = Inr (seq, PipeTrailer tot digest))"
proof -
  have "seq < 256 ^ 8" "tot < 256 ^ 8" using assms by simp_all
  then show ?thesis using assms(3)
    by (auto simp: encode_block_def decode_data_def decode_end_def simp del: be_bytes.simps)
qed

theorem pipe_block_roundtrip_witness:
  "(case encode_block (DataBlock 3 [1, 2]) of (is_last, p) \<Rightarrow> \<not> is_last \<and> decode_data p = Inr (3, [1, 2])) \<and>
    (case encode_block (EndBlock 3 (PipeTrailer 20 ''ab'')) of
       (is_last, p) \<Rightarrow> is_last \<and> decode_end p = Inr (3, PipeTrailer 20 ''ab''))"
  by (rule pipe_block_roundtrip) (simp_all add: rust_str_def str_bytes_def)

end
