(* ===== verification/Noise_Client.thy ===== *)
theory Noise_Client
  imports Pipe
begin

text \<open>
  The requesting side of the Noise channel: sending a frame and reading the response
  (\<open>noise/mod.rs\<close>), chunked responses, and the client a peer polls its coordinator with
  (\<open>noise/client.rs\<close>).

  The TCP, Noise and HTTP stack is third-party: one request is a function of the world \<open>'w\<close> that
  returns what the stack reports, a value of \<open>http_outcome\<close>, and the world after it.
\<close>

section \<open>Sending a frame\<close>

text \<open>What can happen to a request: it cannot be built; the connection is refused or times out;
  the request fails on the channel (\<open>From<hyper_noise::ClientError>\<close>); or a response arrives with a
  status and a body, which may come \<open>late\<close> (after the per-request budget) or break off.\<close>

datatype http_outcome =
    NotBuilt noise_error
  | ConnectFailed string
  | ConnectTimedOut string
  | RequestFailed noise_error
  | HttpResponse nat bool "string + bytes"

type_synonym 'w exchange = "'w \<Rightarrow> bytes \<Rightarrow> http_outcome \<times> 'w"

text \<open>The reason a peer gives with a status other than 200: the payload of an \<open>Error\<close> frame.\<close>

definition deny_reason :: "bool \<Rightarrow> string + bytes \<Rightarrow> string option" where
  "deny_reason late body = (if late then None else case body of
     Inr b \<Rightarrow> if b = [] then None else (case from_bytes b of
         Inr m \<Rightarrow> if msg_type m = Error then Some (from_utf8_lossy (payload m)) else None
       | Inl _ \<Rightarrow> None)
   | Inl _ \<Rightarrow> None)"

text \<open>\<open>send_noise_message_with_timeout\<close>: here the body of a successful response is read without
  a time limit.\<close>

definition send_noise_message_with_timeout :: "'w exchange \<Rightarrow> message \<Rightarrow> ('w, bytes) attempt" where
  "send_noise_message_with_timeout ex m w =
     (case ex w (to_bytes m) of
        (NotBuilt e, w') \<Rightarrow> (Inl e, w')
      | (ConnectFailed why, w') \<Rightarrow> (Inl (TcpConnectionFailed why), w')
      | (ConnectTimedOut addr, w') \<Rightarrow> (Inl (TcpConnectionTimeout addr), w')
      | (RequestFailed e, w') \<Rightarrow> (Inl e, w')
      | (HttpResponse status late body, w') \<Rightarrow>
          if status \<noteq> 200 then (Inl (BadStatusCode status (deny_reason late body)), w')
          else (case body of Inl e \<Rightarrow> (Inl (Hyper e), w') | Inr b \<Rightarrow> (Inr b, w')))"

definition send_noise_message_with_retry :: "nat \<Rightarrow> 'w exchange \<Rightarrow> message \<Rightarrow> ('w, bytes) attempt" where
  "send_noise_message_with_retry max_attempts ex m =
     retry_loop max_attempts (send_noise_message_with_timeout ex m)"

text \<open>\<open>NoiseClient::send_message_with_timeout\<close>: the run's instance is stamped on frames that
  carry none, and a late body is a timeout.\<close>

definition client_send :: "string \<Rightarrow> 'w exchange \<Rightarrow> message \<Rightarrow> ('w, bytes) attempt" where
  "client_send route_instance ex m w =
     (let request_body = (if msg_instance m = [] \<and> route_instance \<noteq> []
                          then encode_with_instance m route_instance else to_bytes m) in
      case ex w request_body of
        (NotBuilt e, w') \<Rightarrow> (Inl e, w')
      | (ConnectFailed why, w') \<Rightarrow> (Inl (TcpConnectionFailed why), w')
      | (ConnectTimedOut addr, w') \<Rightarrow> (Inl (TcpConnectionTimeout addr), w')
      | (RequestFailed e, w') \<Rightarrow> (Inl e, w')
      | (HttpResponse status late body, w') \<Rightarrow>
          if status \<noteq> 200 then (Inl (BadStatusCode status (deny_reason late body)), w')
          else if late then (Inl RequestTimeout, w')
          else (case body of Inl e \<Rightarrow> (Inl (Hyper e), w') | Inr b \<Rightarrow> (Inr b, w')))"

section \<open>Chunked responses\<close>

text \<open>The loop over \<open>0..chunk_count\<close>: \<open>n\<close> chunks left, from index \<open>i\<close> on.\<close>

fun fetch_chunks :: "(nat \<Rightarrow> ('w, bytes) attempt) \<Rightarrow> nat \<Rightarrow> nat \<Rightarrow> bytes \<Rightarrow> ('w, bytes) attempt" where
  "fetch_chunks fetch i 0 acc w = (Inr acc, w)"
| "fetch_chunks fetch i (Suc n) acc w =
    (case fetch i w of
       (Inl e, w') \<Rightarrow> (Inl e, w')
     | (Inr c, w') \<Rightarrow> fetch_chunks fetch (Suc i) n (acc @ c) w')"

text \<open>From the metadata to the assembled payload; both receivers do this.\<close>

definition assemble :: "(nat \<Rightarrow> ('w, bytes) attempt) \<Rightarrow> nat \<Rightarrow> nat \<Rightarrow> ('w, bytes) attempt" where
  "assemble fetch total_size chunk_count w =
     (case check_chunk_metadata total_size chunk_count of
        Inl e \<Rightarrow> (Inl e, w)
      | Inr _ \<Rightarrow>
          (case fetch_chunks fetch 0 chunk_count [] w of
             (Inl e, w') \<Rightarrow> (Inl e, w')
           | (Inr p, w') \<Rightarrow> if length p \<noteq> total_size then (Inl InvalidMessage, w') else (Inr p, w')))"

definition send_noise_message_with_chunked_response ::
    "nat \<Rightarrow> 'w exchange \<Rightarrow> message \<Rightarrow> ('w, bytes) attempt" where
  "send_noise_message_with_chunked_response max_attempts ex m w =
     (case send_noise_message_with_retry max_attempts ex m w of
        (Inl e, w1) \<Rightarrow> (Inl e, w1)
      | (Inr response, w1) \<Rightarrow>
          (case from_bytes response of
             Inl _ \<Rightarrow> (Inl InvalidMessage, w1)
           | Inr resp_msg \<Rightarrow>
               if msg_type resp_msg \<noteq> ChunkedCommand then (Inr response, w1)
               else (case parse_chunked_command_metadata (payload resp_msg) of
                  Inl e \<Rightarrow> (Inl e, w1)
                | Inr (command_type, total_size, chunk_count) \<Rightarrow>
                    (case assemble (\<lambda>i w. case send_noise_message_with_retry max_attempts ex
                                            (message_new GetChunk (be_bytes 4 i)) w of
                                          (Inl e, w') \<Rightarrow> (Inl e, w')
                                        | (Inr r, w') \<Rightarrow> (parse_chunk i r, w'))
                           total_size chunk_count w1 of
                       (Inl e, w2) \<Rightarrow> (Inl e, w2)
                     | (Inr p, w2) \<Rightarrow> (Inr (to_bytes (message_new command_type p)), w2)))))"

section \<open>The client\<close>

definition CHUNK_FETCH_MAX_ATTEMPTS :: nat where "CHUNK_FETCH_MAX_ATTEMPTS = 3"

definition send_and_verify_ack :: "string \<Rightarrow> 'w exchange \<Rightarrow> message_type \<Rightarrow> bytes \<Rightarrow> ('w, unit) attempt" where
  "send_and_verify_ack route ex t p w =
     (case client_send route ex (message_new t p) w of
        (Inl e, w') \<Rightarrow> (Inl e, w')
      | (Inr response, w') \<Rightarrow>
          (and_then (map_err (\<lambda>_. InvalidMessage) (from_bytes response)) (\<lambda>resp_msg.
             if msg_type resp_msg \<noteq> Ack then Inl InvalidMessage else Inr ()), w'))"

text \<open>The uploads of a peer, one message type each.\<close>

definition upload_keys :: "string \<Rightarrow> 'w exchange \<Rightarrow> bytes \<Rightarrow> ('w, unit) attempt" where
  "upload_keys route ex = send_and_verify_ack route ex KeysUpload"
definition send_dns_signature :: "string \<Rightarrow> 'w exchange \<Rightarrow> bytes \<Rightarrow> ('w, unit) attempt" where
  "send_dns_signature route ex = send_and_verify_ack route ex DnsSignature"
definition send_p2p_signatures :: "string \<Rightarrow> 'w exchange \<Rightarrow> bytes \<Rightarrow> ('w, unit) attempt" where
  "send_p2p_signatures route ex = send_and_verify_ack route ex P2pSignatures"
definition send_submission_signatures :: "string \<Rightarrow> 'w exchange \<Rightarrow> bytes \<Rightarrow> ('w, unit) attempt" where
  "send_submission_signatures route ex = send_and_verify_ack route ex SubmissionSignatures"
definition send_kick_signatures :: "string \<Rightarrow> 'w exchange \<Rightarrow> bytes \<Rightarrow> ('w, unit) attempt" where
  "send_kick_signatures route ex = send_and_verify_ack route ex KickSignatures"
definition send_change_threshold_signatures :: "string \<Rightarrow> 'w exchange \<Rightarrow> bytes \<Rightarrow> ('w, unit) attempt" where
  "send_change_threshold_signatures route ex = send_and_verify_ack route ex ChangeThresholdSignatures"
definition upload_add_party_keys :: "string \<Rightarrow> 'w exchange \<Rightarrow> bytes \<Rightarrow> ('w, unit) attempt" where
  "upload_add_party_keys route ex = send_and_verify_ack route ex AddPartyKeysUpload"
definition send_add_party_signatures :: "string \<Rightarrow> 'w exchange \<Rightarrow> bytes \<Rightarrow> ('w, unit) attempt" where
  "send_add_party_signatures route ex = send_and_verify_ack route ex AddPartySignatures"
definition send_add_party_clear_proposal :: "string \<Rightarrow> 'w exchange \<Rightarrow> bytes \<Rightarrow> ('w, unit) attempt" where
  "send_add_party_clear_proposal route ex = send_and_verify_ack route ex AddPartyClearProposal"
definition send_add_party_clear_signature :: "string \<Rightarrow> 'w exchange \<Rightarrow> bytes \<Rightarrow> ('w, unit) attempt" where
  "send_add_party_clear_signature route ex = send_and_verify_ack route ex AddPartyClearSignatures"
definition send_decline_invitation :: "string \<Rightarrow> 'w exchange \<Rightarrow> bytes \<Rightarrow> ('w, unit) attempt" where
  "send_decline_invitation route ex = send_and_verify_ack route ex DeclineInvitation"
definition report_failure :: "string \<Rightarrow> 'w exchange \<Rightarrow> bytes \<Rightarrow> ('w, unit) attempt" where
  "report_failure route ex = send_and_verify_ack route ex DeclineInvitation"
definition send_status :: "string \<Rightarrow> 'w exchange \<Rightarrow> bytes \<Rightarrow> ('w, unit) attempt" where
  "send_status route ex = send_and_verify_ack route ex StatusUpdate"

definition request_chunk :: "string \<Rightarrow> 'w exchange \<Rightarrow> nat \<Rightarrow> ('w, bytes) attempt" where
  "request_chunk route ex chunk_index w =
     (case client_send route ex (message_new GetChunk (be_bytes 4 chunk_index)) w of
        (Inl e, w') \<Rightarrow> (Inl e, w')
      | (Inr response, w') \<Rightarrow> (parse_chunk chunk_index response, w'))"

definition request_chunk_with_retry :: "string \<Rightarrow> 'w exchange \<Rightarrow> nat \<Rightarrow> ('w, bytes) attempt" where
  "request_chunk_with_retry route ex chunk_index =
     attempts (request_chunk route ex chunk_index) CHUNK_FETCH_MAX_ATTEMPTS"

definition receive_chunked_payload :: "string \<Rightarrow> 'w exchange \<Rightarrow> bytes \<Rightarrow> ('w, message) attempt" where
  "receive_chunked_payload route ex meta w =
     (case parse_chunked_command_metadata meta of
        Inl e \<Rightarrow> (Inl e, w)
      | Inr (command, total_size, chunk_count) \<Rightarrow>
          (case assemble (request_chunk_with_retry route ex) total_size chunk_count w of
             (Inl e, w') \<Rightarrow> (Inl e, w')
           | (Inr p, w') \<Rightarrow> (Inr (message_new command p), w')))"

definition get_next_command_with_payload :: "string \<Rightarrow> 'w exchange \<Rightarrow> ('w, message) attempt" where
  "get_next_command_with_payload route ex w =
     (case client_send route ex (message_new_empty GetNextCommand) w of
        (Inl e, w') \<Rightarrow> (Inl e, w')
      | (Inr response, w') \<Rightarrow>
          (case from_bytes response of
             Inl _ \<Rightarrow> (Inl InvalidMessage, w')
           | Inr resp_msg \<Rightarrow>
               if msg_type resp_msg = ChunkedCommand then receive_chunked_payload route ex (payload resp_msg) w'
               else (Inr resp_msg, w')))"

definition get_next_command :: "string \<Rightarrow> 'w exchange \<Rightarrow> ('w, message_type) attempt" where
  "get_next_command route ex w =
     (case get_next_command_with_payload route ex w of
        (Inl e, w') \<Rightarrow> (Inl e, w') | (Inr m, w') \<Rightarrow> (Inr (msg_type m), w'))"

text \<open>The response to a block request: size cap, decoding, and the echoed sequence number.\<close>

definition parse_acs_block :: "nat \<Rightarrow> bytes \<Rightarrow> noise_error + pipe_block" where
  "parse_acs_block seq response =
     and_then (map_err (\<lambda>_. InvalidMessage) (from_bytes response)) (\<lambda>resp_msg.
       and_then
        (if msg_type resp_msg = AcsBlock then
           if length (payload resp_msg) > MAX_ACS_BLOCK_SIZE + 8 then Inl InvalidMessage
           else and_then (map_err (\<lambda>_. InvalidMessage) (decode_data (payload resp_msg)))
                  (\<lambda>(got, bytes). Inr (DataBlock got bytes))
         else if msg_type resp_msg = AcsBlockEnd then
           and_then (map_err (\<lambda>_. InvalidMessage) (decode_end (payload resp_msg)))
                  (\<lambda>(got, trailer). Inr (EndBlock got trailer))
         else if msg_type resp_msg = Error then
           Inl (Anyhow (''coordinator refused ACS block: '' @ from_utf8_lossy (payload resp_msg)))
         else Inl InvalidMessage)
        (\<lambda>block. if block_seq block \<noteq> seq then Inl InvalidMessage else Inr block))"

definition request_next_acs_block :: "string \<Rightarrow> 'w exchange \<Rightarrow> nat \<Rightarrow> ('w, pipe_block) attempt" where
  "request_next_acs_block route ex seq w =
     (case attempts (client_send route ex (message_new GetNextAcsBlock (be_bytes 8 seq))) CHUNK_FETCH_MAX_ATTEMPTS w of
        (Inl e, w') \<Rightarrow> (Inl e, w')
      | (Inr response, w') \<Rightarrow> (parse_acs_block seq response, w'))"

section \<open>Lemmas\<close>

lemma MAX_CHUNK_COUNT_16: "MAX_CHUNK_COUNT = 16"
  by (simp add: MAX_CHUNK_COUNT_def MAX_CHUNKED_TOTAL_SIZE_def CHUNK_SIZE_def div_ceil_def)

lemma check_chunk_metadata_Inr:
  "check_chunk_metadata total n = Inr u \<longleftrightarrow>
     total \<le> MAX_CHUNKED_TOTAL_SIZE \<and> n \<le> MAX_CHUNK_COUNT \<and> n = div_ceil total CHUNK_SIZE" for total :: nat
  by (auto simp: check_chunk_metadata_def)

lemma check_chunk_metadata_Inl:
  "check_chunk_metadata total n = Inl e \<longleftrightarrow> e = InvalidMessage \<and>
     (MAX_CHUNKED_TOTAL_SIZE < total \<or> MAX_CHUNK_COUNT < n \<or> n \<noteq> div_ceil total CHUNK_SIZE)" for total :: nat
  by (auto simp: check_chunk_metadata_def)

lemma assemble_Inr:
  "assemble fetch t n w = (Inr p, w') \<Longrightarrow>
     length p = t \<and> t \<le> MAX_CHUNKED_TOTAL_SIZE \<and> n \<le> MAX_CHUNK_COUNT \<and> n = div_ceil t CHUNK_SIZE"
  by (auto simp: assemble_def check_chunk_metadata_Inr split: sum.splits prod.splits if_splits)

lemma receive_chunked_payload_Inr:
  "receive_chunked_payload route ex meta w = (Inr m, w') \<Longrightarrow>
     length (payload m) \<le> MAX_CHUNKED_TOTAL_SIZE \<and>
     (\<exists>n. parse_chunked_command_metadata meta = Inr (msg_type m, length (payload m), n))"
  by (auto simp: receive_chunked_payload_def message_new_def dest!: assemble_Inr
      split: sum.splits prod.splits)

text \<open>Chunks that are what they should be are put together in order.\<close>

lemma fetch_chunks_correct:
  assumes "\<And>i w. i < c \<Longrightarrow> I w \<Longrightarrow> \<exists>w'. fetch i w = (Inr (take n (drop (i * n) d)), w') \<and> I w'"
  shows "i + k = c \<Longrightarrow> I w \<Longrightarrow> \<exists>w'. fetch_chunks fetch i k acc w = (Inr (acc @ take (k * n) (drop (i * n) d)), w') \<and> I w'"
proof (induction k arbitrary: i acc w)
  case (Suc k)
  from assms [of i w] Suc.prems obtain w1 where f: "fetch i w = (Inr (take n (drop (i * n) d)), w1)"
    and "I w1" by auto
  with Suc.IH [of "Suc i" w1 "acc @ take n (drop (i * n) d)"] Suc.prems obtain w'
    where g: "fetch_chunks fetch (Suc i) k (acc @ take n (drop (i * n) d)) w1
      = (Inr (acc @ take n (drop (i * n) d) @ take (k * n) (drop (Suc i * n) d)), w')" and "I w'"
    by auto
  have "take (n + k * n) (drop (i * n) d) = take n (drop (i * n) d) @ take (k * n) (drop (Suc i * n) d)"
    by (subst take_add) (simp add: add.commute)
  with f g \<open>I w'\<close> show ?case by simp
qed simp

lemma assemble_correct:
  assumes fetch: "\<And>i w. i * CHUNK_SIZE < length d \<Longrightarrow> I w \<Longrightarrow>
      \<exists>w'. fetch i w = (Inr (take CHUNK_SIZE (drop (i * CHUNK_SIZE) d)), w') \<and> I w'"
    and size: "length d \<le> MAX_CHUNKED_TOTAL_SIZE" and "I w"
  shows "\<exists>w'. assemble fetch (length d) (div_ceil (length d) CHUNK_SIZE) w = (Inr d, w') \<and> I w'"
proof -
  let ?c = "div_ceil (length d) CHUNK_SIZE"
  have pos: "0 < CHUNK_SIZE" by (simp add: CHUNK_SIZE_def)
  have cover: "length d \<le> ?c * CHUNK_SIZE" using div_ceil_cover [OF pos, of "length d"] by (simp add: mult.commute)
  have "i * CHUNK_SIZE < length d" if "i < ?c" for i
  proof -
    have "i * CHUNK_SIZE \<le> (?c - 1) * CHUNK_SIZE" using that by (intro mult_le_mono1) simp
    also have "\<dots> < length d" using that by (intro div_ceil_pred [OF pos]) simp
    finally show ?thesis .
  qed
  then have step: "\<exists>w'. fetch i w = (Inr (take CHUNK_SIZE (drop (i * CHUNK_SIZE) d)), w') \<and> I w'"
    if "i < ?c" "I w" for i w using that fetch by blast
  have "?c \<le> MAX_CHUNK_COUNT"
  proof (rule ccontr)
    assume "\<not> ?c \<le> MAX_CHUNK_COUNT"
    then have "MAX_CHUNK_COUNT * CHUNK_SIZE \<le> (?c - 1) * CHUNK_SIZE" by (intro mult_le_mono1) simp
    also have "\<dots> < length d" using \<open>\<not> ?c \<le> MAX_CHUNK_COUNT\<close> by (intro div_ceil_pred [OF pos]) simp
    finally show False using size by (simp add: MAX_CHUNK_COUNT_16 CHUNK_SIZE_def MAX_CHUNKED_TOTAL_SIZE_def)
  qed
  then have chk: "check_chunk_metadata (length d) ?c = Inr ()" using size by (simp add: check_chunk_metadata_Inr)
  from fetch_chunks_correct [where I = I and fetch = fetch and c = ?c, OF step, of 0 ?c w "[]"] \<open>I w\<close>
  obtain w' where "fetch_chunks fetch 0 ?c [] w = (Inr (take (?c * CHUNK_SIZE) d), w')" "I w'" by auto
  then show ?thesis using chk cover by (simp add: assemble_def)
qed

subsection \<open>Counting requests\<close>

text \<open>A world that counts the requests made through it.\<close>

definition counted :: "'w exchange \<Rightarrow> ('w \<times> nat) exchange" where
  "counted ex wn b = (case ex (fst wn) b of (r, w') \<Rightarrow> (r, (w', Suc (snd wn))))"

definition costs :: "nat \<Rightarrow> ('w \<times> nat, 'a) attempt \<Rightarrow> bool" where
  "costs k op \<longleftrightarrow> (\<forall>w. snd (snd (op w)) \<le> snd w + k)"

lemma costsI: "(\<And>w r w'. op w = (r, w') \<Longrightarrow> snd w' \<le> snd w + k) \<Longrightarrow> costs k op"
  unfolding costs_def by (metis prod.collapse)

lemma costsD: "costs k op \<Longrightarrow> op w = (r, w') \<Longrightarrow> snd w' \<le> snd w + k"
  unfolding costs_def by (metis snd_conv)

lemma costs_client_send: "costs 1 (client_send route (counted ex) m)"
  unfolding costs_def client_send_def counted_def Let_def
  by (auto split: prod.splits http_outcome.splits sum.splits)

lemma costs_attempts:
  assumes "costs k op"
  shows "costs (n * k) (attempts op n)"
proof -
  have "snd (snd (attempts op n w)) \<le> snd w + n * k" for w
  proof (induction n arbitrary: w)
    case (Suc n)
    obtain r w' where op: "op w = (r, w')" by (cases "op w")
    then have le: "snd w' \<le> snd w + k" using assms by (metis costs_def snd_conv)
    show ?case
    proof (cases r)
      case (Inl e)
      then show ?thesis using op le Suc.IH [of w'] by auto
    qed (use op le in auto)
  qed simp
  then show ?thesis by (simp add: costs_def)
qed

lemma costs_fetch_chunks:
  assumes "\<And>i. costs k (fetch i)"
  shows "costs (n * k) (fetch_chunks fetch i n acc)"
proof -
  have "snd (snd (fetch_chunks fetch i n acc w)) \<le> snd w + n * k" for w
  proof (induction n arbitrary: i acc w)
    case (Suc n)
    obtain r w' where op: "fetch i w = (r, w')" by (cases "fetch i w")
    then have le: "snd w' \<le> snd w + k" using assms [of i] by (metis costs_def snd_conv)
    show ?case
    proof (cases r)
      case (Inr c)
      then show ?thesis using op le Suc.IH [of "Suc i" "acc @ c" w'] by auto
    qed (use op le in auto)
  qed simp
  then show ?thesis by (simp add: costs_def)
qed

lemma costs_request_chunk: "costs 1 (request_chunk route (counted ex) i)"
proof (rule costsI)
  fix w r w' assume "request_chunk route (counted ex) i w = (r, w')"
  then obtain r0 where "client_send route (counted ex) (message_new GetChunk (be_bytes 4 i)) w = (r0, w')"
    by (auto simp: request_chunk_def split: prod.splits sum.splits)
  then show "snd w' \<le> snd w + 1" by (rule costsD [OF costs_client_send])
qed

lemma costs_receive: "costs (MAX_CHUNK_COUNT * CHUNK_FETCH_MAX_ATTEMPTS) (receive_chunked_payload route (counted ex) meta)"
proof -
  have one: "costs CHUNK_FETCH_MAX_ATTEMPTS (request_chunk_with_retry route (counted ex) i)" for i
    unfolding request_chunk_with_retry_def using costs_attempts [OF costs_request_chunk] by force
  have "snd (snd (receive_chunked_payload route (counted ex) meta w)) \<le> snd w + MAX_CHUNK_COUNT * CHUNK_FETCH_MAX_ATTEMPTS"
    for w
  proof -
    have f: "snd (snd (fetch_chunks (request_chunk_with_retry route (counted ex)) 0 n [] w))
        \<le> snd w + MAX_CHUNK_COUNT * CHUNK_FETCH_MAX_ATTEMPTS" if "n \<le> MAX_CHUNK_COUNT" for n
    proof -
      have "n * CHUNK_FETCH_MAX_ATTEMPTS \<le> MAX_CHUNK_COUNT * CHUNK_FETCH_MAX_ATTEMPTS"
        using that by (rule mult_le_mono1)
      moreover have "snd (snd (fetch_chunks (request_chunk_with_retry route (counted ex)) 0 n [] w))
        \<le> snd w + n * CHUNK_FETCH_MAX_ATTEMPTS"
        using costs_fetch_chunks [where fetch = "request_chunk_with_retry route (counted ex)", OF one]
        unfolding costs_def by blast
      ultimately show ?thesis by linarith
    qed
    have "snd (snd (assemble (request_chunk_with_retry route (counted ex)) t n w))
        \<le> snd w + MAX_CHUNK_COUNT * CHUNK_FETCH_MAX_ATTEMPTS" for t n
    proof (cases "check_chunk_metadata t n")
      case (Inr u)
      then have "n \<le> MAX_CHUNK_COUNT" by (simp add: check_chunk_metadata_Inr)
      from f [OF this] Inr show ?thesis by (auto simp: assemble_def split: prod.splits sum.splits)
    qed (simp add: assemble_def)
    then show ?thesis
      by (auto simp: receive_chunked_payload_def split: prod.splits sum.splits) (metis snd_conv)+
  qed
  then show ?thesis by (simp add: costs_def)
qed

lemma decode_data_sound: "decode_data p = Inr (seq, b) \<Longrightarrow> encode_block (DataBlock seq b) = (False, p)"
  by (auto simp: decode_data_def encode_block_def be_nat_take_id split: if_splits)

lemma decode_end_sound:
  assumes "decode_end p = Inr (seq, t)"
  shows "encode_block (EndBlock seq t) = (True, p)"
proof -
  from assms obtain sha where len: "16 \<le> length p" and sha: "drop 16 p = str_bytes sha"
    and seq: "seq = be_nat (take 8 p)" and t: "t = PipeTrailer (be_nat (take 8 (drop 8 p))) sha"
    by (auto simp: decode_end_def result_simps from_utf8_Some split: if_splits)
  have "take 8 p @ take 8 (drop 8 p) @ drop 16 p = p"
  proof -
    have "take 8 (drop 8 p) @ drop 16 p = drop 8 p"
      using append_take_drop_id [of 8 "drop 8 p"] by simp
    then show ?thesis by simp
  qed
  moreover have "8 \<le> length (drop 8 p)" "8 \<le> length p" using len by simp_all
  ultimately show ?thesis using len unfolding seq t encode_block_def
    by (simp only: pipe_block.case pipe_trailer.sel be_nat_take_id sha [symmetric])
qed

text \<open>A payload put together from chunks has exactly the announced size, and at most 16 MiB.\<close>

lemma poll_payload_bounded:
  assumes "client_send route ex (message_new_empty GetNextCommand) w = (Inr r, w1)" "from_bytes r = Inr cmd"
    and "msg_type cmd = ChunkedCommand" "get_next_command_with_payload route ex w = (Inr m, w2)"
  shows "length (payload m) \<le> 16 * 1024 * 1024 \<and>
    (\<exists>k. parse_chunked_command_metadata (payload cmd) = Inr (msg_type m, length (payload m), k))"
  using assms by (auto simp: get_next_command_with_payload_def MAX_CHUNKED_TOTAL_SIZE_def
      split: prod.splits sum.splits if_splits dest: receive_chunked_payload_Inr)

section \<open>Properties\<close>

text \<open>C29: whatever the coordinator and the network answer, one poll for the next command ends after
  at most 49 requests: the poll, and three attempts for each of at most 16 chunks.\<close>

theorem poll_bounded: "snd (snd (get_next_command_with_payload route (counted ex) (w, n))) \<le> n + 49"
proof -
  obtain r w1 where c: "client_send route (counted ex) (message_new_empty GetNextCommand) (w, n) = (r, w1)"
    by (cases "client_send route (counted ex) (message_new_empty GetNextCommand) (w, n)")
  then have le: "snd w1 \<le> n + 1" using costsD [OF costs_client_send c] by simp
  have rec: "snd (snd (receive_chunked_payload route (counted ex) meta w1)) \<le> snd w1 + 48" for meta
    using costs_receive [of route ex meta, unfolded costs_def, rule_format, of w1]
    by (simp add: MAX_CHUNK_COUNT_16 CHUNK_FETCH_MAX_ATTEMPTS_def)
  show ?thesis
    using c le order_trans [OF rec] by (auto simp: get_next_command_with_payload_def split: sum.splits)
qed

text \<open>An ACS block the client accepts carries the sequence number it asked for, is at
  most 8 MiB, and is the block encoded in the response.\<close>

theorem acs_block_checked:
  assumes "parse_acs_block seq response = Inr b"
  shows "block_seq b = seq \<and> (case b of DataBlock _ bytes \<Rightarrow> length bytes \<le> 8 * 1024 * 1024 | EndBlock _ _ \<Rightarrow> True) \<and>
    (\<exists>m. from_bytes response = Inr m \<and> encode_block b = (msg_type m = AcsBlockEnd, payload m))"
proof -
  from assms obtain m where m: "from_bytes response = Inr m" and seq: "block_seq b = seq"
    and alt: "msg_type m = AcsBlock \<and> length (payload m) \<le> MAX_ACS_BLOCK_SIZE + 8
        \<and> (\<exists>q d. decode_data (payload m) = Inr (q, d) \<and> b = DataBlock q d)
      \<or> msg_type m = AcsBlockEnd \<and> (\<exists>q t. decode_end (payload m) = Inr (q, t) \<and> b = EndBlock q t)"
    by (auto simp: parse_acs_block_def result_simps split: if_splits)
  from alt have "encode_block b = (msg_type m = AcsBlockEnd, payload m)"
    by (auto simp: decode_data_sound decode_end_sound)
  moreover from alt have "case b of DataBlock _ bytes \<Rightarrow> length bytes \<le> 8 * 1024 * 1024 | EndBlock _ _ \<Rightarrow> True"
    by (auto simp: decode_data_def MAX_ACS_BLOCK_SIZE_def split: if_splits)
  ultimately show ?thesis using m seq by blast
qed

theorem acs_block_checked_witness:
  "block_seq (DataBlock 2 [7, 8]) = 2 \<and>
   (\<exists>m. from_bytes (to_bytes (message_new AcsBlock (be_bytes 8 2 @ [7, 8]))) = Inr m \<and>
      encode_block (DataBlock 2 [7, 8]) = (msg_type m = AcsBlockEnd, payload m))"
proof -
  have "from_bytes (to_bytes (message_new AcsBlock (be_bytes 8 2 @ [7, 8]))) = Inr (message_new AcsBlock (be_bytes 8 2 @ [7, 8]))"
    using from_bytes_new [of "be_bytes 8 2 @ [7, 8]" AcsBlock "[]"] by simp
  then have "parse_acs_block 2 (to_bytes (message_new AcsBlock (be_bytes 8 2 @ [7, 8]))) = Inr (DataBlock 2 [7, 8])"
    by (simp add: parse_acs_block_def message_new_def decode_data_def MAX_ACS_BLOCK_SIZE_def)
  from acs_block_checked [OF this] show ?thesis by blast
qed

end
