(* ===== verification/Framing.thy ===== *)
theory Framing
  imports Prelude
begin

text \<open>
  Byte framings and small helpers of \<open>crates/decman/src/utils.rs\<close>: the length-prefixed
  item lists and file bundles the coordinator ships to its peers, the
  \<open>varint(len)||message\<close> framing of topology transactions, the cached synchronizer id,
  the retry loop, and the synchronizer-id parser.

  The \<open>prost\<close> crate is a parameter: \<open>varint\<close> carries its varint routines (locale
  \<open>varint_codec\<close>), and message encoders and decoders are arguments.  The \<open>semver\<close>
  parser is an argument of \<open>version_at_least\<close>.
\<close>

section \<open>Definitions\<close>

datatype frame_error =
    PrefixMissing nat nat        \<comment> \<open>offset, item index\<close>
  | ItemTruncated nat nat nat    \<comment> \<open>expected length, offset, item index\<close>
  | CountMissing
  | NameNotUtf8 bytes
  | IndexPanic
  | NoMessages
  | VarintError
  | MessageTruncated nat nat
  | MessageDecode bytes
  | SynchronizerFormat string

subsection \<open>Length-prefixed items\<close>

definition encode_length_prefixed :: "bytes list \<Rightarrow> bytes" where
  "encode_length_prefixed items = concat (map (\<lambda>item. be_bytes 4 (length item) @ item) items)"

text \<open>The loop of \<open>decode_length_prefixed\<close>: \<open>n\<close> items are still wanted, the next is
  number \<open>i\<close>, its length prefix at \<open>offset\<close>.\<close>

fun decode_items :: "bytes \<Rightarrow> nat \<Rightarrow> nat \<Rightarrow> nat \<Rightarrow> frame_error + bytes list" where
  "decode_items data 0 i offset = Inr []"
| "decode_items data (Suc n) i offset =
    (if offset + 4 > length data then Inl (PrefixMissing offset i)
     else let item_len = be_nat (take 4 (drop offset data)); start = offset + 4 in
       if start + item_len > length data then Inl (ItemTruncated item_len start i)
       else and_then (decode_items data n (Suc i) (start + item_len)) (\<lambda>items.
         Inr (take item_len (drop start data) # items)))"

definition decode_length_prefixed :: "bytes \<Rightarrow> nat \<Rightarrow> frame_error + bytes list" where
  "decode_length_prefixed data expected_count = decode_items data expected_count 0 0"

subsection \<open>File bundles\<close>

definition encode_files :: "(string \<times> bytes) list \<Rightarrow> bytes" where
  "encode_files files =
     be_bytes 4 (length files) @
     encode_length_prefixed (concat (map (\<lambda>(name, data). [str_bytes name, data]) files))"

text \<open>\<open>items.chunks(2)\<close> with \<open>chunk[0]\<close> and \<open>chunk[1]\<close>; indexing a chunk of one panics.\<close>

fun chunk_pairs :: "bytes list \<Rightarrow> (frame_error + string \<times> bytes) list" where
  "chunk_pairs [] = []"
| "chunk_pairs [a] = [Inl IndexPanic]"
| "chunk_pairs (a # b # r) =
    and_then (ok_or (NameNotUtf8 a) (from_utf8 a)) (\<lambda>name. Inr (name, b)) # chunk_pairs r"

definition decode_files :: "bytes \<Rightarrow> frame_error + (string \<times> bytes) list" where
  "decode_files data =
     (if length data < 4 then Inl CountMissing
      else let count = be_nat (take 4 data) in
        and_then (decode_length_prefixed (drop 4 data) (count * 2)) (\<lambda>items.
          collect_results (chunk_pairs items)))"

subsection \<open>Protobuf message framing\<close>

record varint =
  encode_varint :: "nat \<Rightarrow> bytes"
  decode_varint :: "bytes \<Rightarrow> (nat \<times> bytes) option"

definition encode_length_prefixed_message :: "varint \<Rightarrow> ('m \<Rightarrow> bytes) \<Rightarrow> 'm \<Rightarrow> bytes" where
  "encode_length_prefixed_message V enc m =
     (let encoded = enc m in encode_varint V (length encoded) @ encoded)"

definition read_first_message_from_bytes ::
    "varint \<Rightarrow> (bytes \<Rightarrow> 'm option) \<Rightarrow> bytes \<Rightarrow> frame_error + 'm" where
  "read_first_message_from_bytes V dec data =
     (if data = [] then Inl NoMessages
      else and_then (ok_or VarintError (decode_varint V data)) (\<lambda>(len, cursor).
        if length cursor < len then Inl (MessageTruncated len (length cursor))
        else ok_or (MessageDecode (take len cursor)) (dec (take len cursor))))"

text \<open>\<open>read_all_messages_from_file\<close> on the bytes it read.  Each round takes at least one
  byte off the cursor (a law of \<open>varint_codec\<close>), so \<open>length data\<close> rounds are enough.\<close>

fun read_messages_loop ::
    "nat \<Rightarrow> varint \<Rightarrow> (bytes \<Rightarrow> 'm option) \<Rightarrow> bytes \<Rightarrow> frame_error + 'm list" where
  "read_messages_loop fuel V dec [] = Inr []"
| "read_messages_loop 0 V dec (b # bs) = Inl VarintError"
| "read_messages_loop (Suc fuel) V dec (b # bs) =
    and_then (ok_or VarintError (decode_varint V (b # bs))) (\<lambda>(len, cursor).
      if length cursor < len then Inl (MessageTruncated len (length cursor))
      else and_then (ok_or (MessageDecode (take len cursor)) (dec (take len cursor))) (\<lambda>m.
        and_then (read_messages_loop fuel V dec (drop len cursor)) (\<lambda>ms. Inr (m # ms))))"

definition read_all_messages :: "varint \<Rightarrow> (bytes \<Rightarrow> 'm option) \<Rightarrow> bytes \<Rightarrow> frame_error + 'm list" where
  "read_all_messages V dec data = read_messages_loop (length data) V dec data"

definition read_first_message :: "varint \<Rightarrow> (bytes \<Rightarrow> 'm option) \<Rightarrow> bytes \<Rightarrow> frame_error + 'm" where
  "read_first_message V dec data =
     and_then (read_all_messages V dec data) (\<lambda>ms.
       case ms of [] \<Rightarrow> Inl NoMessages | m # _ \<Rightarrow> Inr m)"

definition write_messages :: "varint \<Rightarrow> ('m \<Rightarrow> bytes) \<Rightarrow> 'm list \<Rightarrow> bytes" where
  "write_messages V enc ms = concat (map (encode_length_prefixed_message V enc) ms)"

subsection \<open>Retrying\<close>

text \<open>\<open>check k\<close> is the outcome of attempt \<open>k\<close>; an error counts as "not yet".\<close>

fun retry_attempts :: "(nat \<Rightarrow> 'e + bool) \<Rightarrow> nat \<Rightarrow> nat \<Rightarrow> bool" where
  "retry_attempts check attempt 0 = False"
| "retry_attempts check attempt (Suc n) =
    (case check attempt of
       Inr True \<Rightarrow> True
     | _ \<Rightarrow> retry_attempts check (Suc attempt) n)"

definition retry_until_true :: "(nat \<Rightarrow> 'e + bool) \<Rightarrow> nat \<Rightarrow> nat + unit" where
  "retry_until_true check max_attempts =
     (if retry_attempts check 1 max_attempts then Inr () else Inl max_attempts)"

subsection \<open>The cached synchronizer id\<close>

text \<open>Instants are nanoseconds of the monotonic clock; \<open>duration_since\<close> saturates at 0.\<close>

definition SYNCHRONIZER_ID_TTL :: nat where "SYNCHRONIZER_ID_TTL = 300 * 10 ^ 9"

definition TOPOLOGY_STORE_NOT_FOUND :: string where
  "TOPOLOGY_STORE_NOT_FOUND = ''TOPOLOGY_STORE_NOT_FOUND''"

datatype cached_synchronizer_id = CachedSynchronizerId (cached_id: string) (resolved_at: nat)

definition fresh_synchronizer_id :: "cached_synchronizer_id option \<Rightarrow> nat \<Rightarrow> string option" where
  "fresh_synchronizer_id cache now =
     (case cache of
        Some c \<Rightarrow> if now - resolved_at c < SYNCHRONIZER_ID_TTL then Some (cached_id c) else None
      | None \<Rightarrow> None)"

text \<open>\<open>str::contains\<close>.\<close>

fun str_contains :: "string \<Rightarrow> string \<Rightarrow> bool" where
  "str_contains [] pat = (pat = [])"
| "str_contains (c # s) pat = (strip_prefix pat (c # s) \<noteq> None \<or> str_contains s pat)"

text \<open>The new cache, and whether it cleared anything.\<close>

definition forget_synchronizer_id_in ::
    "cached_synchronizer_id option \<Rightarrow> string \<Rightarrow> cached_synchronizer_id option \<times> bool" where
  "forget_synchronizer_id_in cache err =
     (if \<not> str_contains err TOPOLOGY_STORE_NOT_FOUND then (cache, False)
      else (None, cache \<noteq> None))"

text \<open>\<open>fetch\<close> is the participant's answer, asked only when the cache is stale; \<open>now\<close> and
  \<open>later\<close> are the two clock readings.\<close>

definition get_synchronizer_id ::
    "('e + string) \<Rightarrow> nat \<Rightarrow> nat \<Rightarrow> cached_synchronizer_id option
     \<Rightarrow> cached_synchronizer_id option \<times> ('e + string)" where
  "get_synchronizer_id fetch now later cache =
     (case fresh_synchronizer_id cache now of
        Some i \<Rightarrow> (cache, Inr i)
      | None \<Rightarrow> (case fetch of
          Inl e \<Rightarrow> (cache, Inl e)
        | Inr i \<Rightarrow> (Some (CachedSynchronizerId i later), Inr i)))"

definition extract_synchronizer_fingerprint :: "string \<Rightarrow> frame_error + string" where
  "extract_synchronizer_fingerprint synchronizer_id =
     (case split_dcolon synchronizer_id of
        [alias_part, fp, version] \<Rightarrow> Inr (alias_part @ ''::'' @ fp)
      | [alias_part, fp] \<Rightarrow> Inr synchronizer_id
      | _ \<Rightarrow> Inl (SynchronizerFormat synchronizer_id))"

definition version_at_least ::
    "(string \<Rightarrow> 'v option) \<Rightarrow> ('v \<Rightarrow> 'v \<Rightarrow> bool) \<Rightarrow> string \<Rightarrow> string \<Rightarrow> bool" where
  "version_at_least parse ge v min_v =
     (case (parse (trim v), parse (trim min_v)) of
        (Some a, Some b) \<Rightarrow> ge a b | _ \<Rightarrow> False)"

section \<open>Item lists\<close>

lemma encode_length_prefixed_simps [simp]:
  "encode_length_prefixed [] = []"
  "encode_length_prefixed (x # xs) = be_bytes 4 (length x) @ x @ encode_length_prefixed xs"
  by (simp_all add: encode_length_prefixed_def)

lemma length_encode_length_prefixed:
  "length (encode_length_prefixed items) = sum_list (map (\<lambda>i. 4 + length i) items)"
  by (induction items) auto

text \<open>Decoding at an offset reads what was encoded there, whatever surrounds it.\<close>

lemma decode_items_encode:
  assumes "list_all (\<lambda>x. length x < 256 ^ 4) items"
  shows "decode_items (pre @ encode_length_prefixed items @ tail) (length items) i (length pre)
    = Inr items"
  using assms
proof (induction items arbitrary: pre i)
  case (Cons x xs)
  let ?data = "pre @ encode_length_prefixed (x # xs) @ tail"
  have "take 4 (drop (length pre) ?data) = be_bytes 4 (length x)" by simp
  then have len: "be_nat (take 4 (drop (length pre) ?data)) = length x" using Cons.prems by simp
  have rest: "?data = (pre @ be_bytes 4 (length x) @ x) @ encode_length_prefixed xs @ tail" by simp
  have IH: "decode_items ?data (length xs) (Suc i) (length pre + 4 + length x) = Inr xs"
    using Cons.IH [of "pre @ be_bytes 4 (length x) @ x" "Suc i"] Cons.prems
    unfolding rest by (simp add: add.assoc)
  show ?case using len IH by (simp add: Let_def)
qed simp

lemma decode_items_sound:
  assumes "decode_items data n i offset = Inr items" and "offset \<le> length data"
  shows "length items = n \<and> list_all (\<lambda>x. length x < 256 ^ 4) items \<and>
    (\<exists>tail. drop offset data = encode_length_prefixed items @ tail)"
  using assms
proof (induction n arbitrary: i offset items)
  case (Suc n)
  let ?len = "be_nat (take 4 (drop offset data))"
  from Suc.prems obtain rest where le4: "offset + 4 \<le> length data"
    and le: "offset + 4 + ?len \<le> length data"
    and rest: "decode_items data n (Suc i) (offset + 4 + ?len) = Inr rest"
    and items: "items = take ?len (drop (offset + 4) data) # rest"
    by (auto simp: Let_def result_simps split: if_splits)
  obtain tail where tail: "drop (offset + 4 + ?len) data = encode_length_prefixed rest @ tail"
    and IH: "length rest = n" "list_all (\<lambda>x. length x < 256 ^ 4) rest"
    using Suc.IH [OF rest le] by blast
  have len4: "length (take 4 (drop offset data)) = 4" using le4 by simp
  then have bound: "?len < 256 ^ 4" using be_nat_bound [of "take 4 (drop offset data)"] by simp
  have xlen: "length (take ?len (drop (offset + 4) data)) = ?len" using le by simp
  have "drop offset data = take 4 (drop offset data) @ drop (offset + 4) data"
    by (metis append_take_drop_id drop_drop add.commute)
  also have "take 4 (drop offset data) = be_bytes 4 ?len"
    using be_bytes_be_nat [of "take 4 (drop offset data)"] len4 by simp
  also have "drop (offset + 4) data
      = take ?len (drop (offset + 4) data) @ encode_length_prefixed rest @ tail"
    by (metis append_take_drop_id drop_drop add.commute tail)
  finally have "drop offset data = encode_length_prefixed items @ tail"
    using xlen by (simp add: items)
  moreover have "length items = Suc n" using IH by (simp add: items)
  moreover have "list_all (\<lambda>x. length x < 256 ^ 4) items"
    using IH bound xlen by (simp add: items)
  ultimately show ?case by blast
qed (auto intro: exI [of _ "drop _ _"])

lemma decode_length_prefixed_encode:
  "list_all (\<lambda>x. length x < 256 ^ 4) items \<Longrightarrow>
     decode_length_prefixed (encode_length_prefixed items @ tail) (length items) = Inr items"
  using decode_items_encode [of items "[]"] by (simp add: decode_length_prefixed_def)

lemma decode_length_prefixed_sound:
  "decode_length_prefixed data n = Inr items \<Longrightarrow>
     length items = n \<and> list_all (\<lambda>x. length x < 256 ^ 4) items \<and>
     (\<exists>tail. data = encode_length_prefixed items @ tail)"
  using decode_items_sound [of data n 0 0 items] by (simp add: decode_length_prefixed_def)

section \<open>File bundles\<close>

definition file_ok :: "string \<times> bytes \<Rightarrow> bool" where
  "file_ok f \<longleftrightarrow> rust_str (fst f) \<and> length (fst f) < 256 ^ 4 \<and> length (snd f) < 256 ^ 4"

lemma length_file_items [simp]:
  "length (concat (map (\<lambda>(name, data). [str_bytes name, data]) files)) = 2 * length files"
  by (induction files) auto

lemma chunk_pairs_files:
  "list_all file_ok files \<Longrightarrow>
     collect_results (chunk_pairs (concat (map (\<lambda>(name, data). [str_bytes name, data]) files))) = Inr files"
  by (induction files) (auto simp: file_ok_def)

lemma decode_encode_files:
  assumes ok: "list_all file_ok files" and len: "length files < 256 ^ 4"
  shows "decode_files (encode_files files @ tail) = Inr files"
proof -
  let ?items = "concat (map (\<lambda>(name, data). [str_bytes name, data]) files)"
  have items: "list_all (\<lambda>x. length x < 256 ^ 4) ?items"
    using ok by (induction files) (auto simp: file_ok_def)
  have enc: "encode_files files @ tail = be_bytes 4 (length files) @ encode_length_prefixed ?items @ tail"
    by (simp add: encode_files_def)
  have "decode_length_prefixed (encode_length_prefixed ?items @ tail) (length files * 2) = Inr ?items"
    using decode_length_prefixed_encode [OF items] by (simp add: mult.commute)
  then show ?thesis
    using chunk_pairs_files [OF ok] len unfolding enc by (simp add: decode_files_def Let_def)
qed

text \<open>The chunks of an even list are pairs, so indexing never panics.\<close>

lemma chunk_pairs_no_panic: "even (length items) \<Longrightarrow> Inl IndexPanic \<notin> set (chunk_pairs items)"
  by (induction items rule: chunk_pairs.induct) (auto simp: ok_or_def split: option.splits)

lemma collect_results_Inl: "collect_results rs = Inl e \<Longrightarrow> Inl e \<in> set rs"
  by (induction rs) (auto simp: and_then_Inl_iff)

lemma decode_items_no_panic: "decode_items data n i offset \<noteq> Inl IndexPanic"
  by (induction n arbitrary: i offset) (auto simp: Let_def and_then_Inl_iff)

section \<open>Message framing\<close>

locale varint_codec =
  fixes V :: varint
  assumes decode_encode: "n < 2 ^ 64 \<Longrightarrow> decode_varint V (encode_varint V n @ rest) = Some (n, rest)"
    and decode_consumes: "decode_varint V bs = Some (n, rest) \<Longrightarrow> length rest < length bs"
begin

lemma encode_nonempty: "n < 2 ^ 64 \<Longrightarrow> encode_varint V n \<noteq> []"
  using decode_encode [of n "[]"] decode_consumes [of "encode_varint V n" n "[]"] by auto

lemma first_message:
  assumes "\<And>m. dec (enc m) = Some m" and "length (enc m) < 2 ^ 64"
  shows "read_first_message_from_bytes V dec (encode_length_prefixed_message V enc m @ tail) = Inr m"
  using assms encode_nonempty [OF assms(2)]
  by (simp add: read_first_message_from_bytes_def encode_length_prefixed_message_def Let_def decode_encode)

lemma loop_writes:
  assumes inv: "\<And>m. dec (enc m) = Some m" and len: "\<And>m. length (enc m) < 2 ^ 64"
  shows "length (write_messages V enc ms) \<le> fuel \<Longrightarrow>
    read_messages_loop fuel V dec (write_messages V enc ms) = Inr ms"
proof (induction ms arbitrary: fuel)
  case (Cons m ms)
  let ?fr = "encode_varint V (length (enc m))"
  have w: "write_messages V enc (m # ms) = ?fr @ enc m @ write_messages V enc ms"
    by (simp add: write_messages_def encode_length_prefixed_message_def Let_def)
  have "?fr \<noteq> []" by (rule encode_nonempty [OF len])
  then obtain b bs where b: "?fr @ enc m @ write_messages V enc ms = b # bs" by (cases ?fr) auto
  have d: "decode_varint V (b # bs) = Some (length (enc m), enc m @ write_messages V enc ms)"
    using decode_encode [OF len [of m], of "enc m @ write_messages V enc ms"] b by simp
  from Cons.prems b \<open>?fr \<noteq> []\<close> obtain f where f: "fuel = Suc f"
    and "length (write_messages V enc ms) \<le> f"
    unfolding w by (cases fuel; cases ?fr) auto
  then show ?case using Cons.IH [of f] unfolding w b f by (simp add: d inv)
qed (simp add: write_messages_def)

lemma all_messages:
  assumes "\<And>m. dec (enc m) = Some m" and "\<And>m. length (enc m) < 2 ^ 64"
  shows "read_all_messages V dec (write_messages V enc ms) = Inr ms"
  unfolding read_all_messages_def by (rule loop_writes [OF assms]) simp

text \<open>The fuel \<open>length data\<close> is enough: more never changes the result.\<close>

lemma loop_fuel_enough:
  "length data \<le> fuel \<Longrightarrow> read_messages_loop fuel V dec data = read_messages_loop (length data) V dec data"
proof (induction "length data" arbitrary: data fuel rule: less_induct)
  case less
  show ?case
  proof (cases data)
    case (Cons b bs)
    obtain f where f: "fuel = Suc f" using less.prems Cons by (cases fuel) auto
    have eq: "read_messages_loop f V dec (drop n r) = read_messages_loop (length bs) V dec (drop n r)"
      if "decode_varint V data = Some (n, r)" for n r
    proof -
      have lt: "length (drop n r) < length data" using decode_consumes [OF that] by simp
      then have "length (drop n r) \<le> f" "length (drop n r) \<le> length bs"
        using less.prems f Cons by auto
      then show ?thesis using less.hyps [OF lt] by metis
    qed
    show ?thesis
    proof (cases "decode_varint V data")
      case (Some p)
      obtain n r where p: "p = (n, r)" by (cases p)
      with Some eq [of n r] Cons f show ?thesis by simp
    qed (use Cons f in simp)
  qed simp
qed

end

text \<open>LEB128, the encoding prost documents, interprets the interface.\<close>

fun leb_encode :: "nat \<Rightarrow> bytes" where
  "leb_encode n = (if n < 128 then [of_nat n] else of_nat (128 + n mod 128) # leb_encode (n div 128))"

fun leb_decode :: "bytes \<Rightarrow> (nat \<times> bytes) option" where
  "leb_decode [] = None"
| "leb_decode (b # bs) =
    (if unat b < 128 then Some (unat b, bs)
     else case leb_decode bs of None \<Rightarrow> None | Some (m, r) \<Rightarrow> Some (unat b - 128 + 128 * m, r))"

declare leb_encode.simps [simp del]

definition leb128 :: varint where
  "leb128 = \<lparr>encode_varint = leb_encode, decode_varint = leb_decode\<rparr>"

lemma leb_decode_encode: "leb_decode (leb_encode n @ rest) = Some (n, rest)"
proof (induction n rule: leb_encode.induct)
  case (1 n)
  show ?case
  proof (cases "n < 128")
    case True
    then show ?thesis by (subst leb_encode.simps) (simp add: unat_u8_of_nat)
  next
    case False
    have "unat (of_nat (128 + n mod 128) :: u8) = 128 + n mod 128"
      by (simp only: unat_u8_of_nat) simp
    with False 1 show ?thesis by (subst leb_encode.simps) (simp del: of_nat_add)
  qed
qed

lemma leb_decode_consumes: "leb_decode bs = Some (n, r) \<Longrightarrow> length r < length bs"
  by (induction bs arbitrary: n r) (fastforce split: if_splits option.splits)+

interpretation leb: varint_codec leb128
  by unfold_locales (simp_all add: leb128_def leb_decode_encode leb_decode_consumes)

section \<open>Synchronizer id\<close>

lemma fresh_after_get:
  assumes "get_synchronizer_id fetch now later cache = (cache', Inr i)"
  shows "fresh_synchronizer_id cache now = Some i \<and> cache' = cache
    \<or> fresh_synchronizer_id cache now = None \<and> fetch = Inr i \<and> cache' = Some (CachedSynchronizerId i later)"
  using assms by (auto simp: get_synchronizer_id_def split: option.splits sum.splits)

lemma retry_attempts_iff:
  "retry_attempts check k n \<longleftrightarrow> (\<exists>j. k \<le> j \<and> j < k + n \<and> check j = Inr True)"
proof (induction n arbitrary: k)
  case (Suc n)
  have "retry_attempts check k (Suc n) \<longleftrightarrow> check k = Inr True \<or> retry_attempts check (Suc k) n"
    by (auto split: sum.splits bool.splits)
  also have "\<dots> \<longleftrightarrow> (\<exists>j. k \<le> j \<and> j < k + Suc n \<and> check j = Inr True)"
    unfolding Suc.IH by (metis Suc_le_eq add_Suc_right add_Suc le_eq_less_or_eq less_add_Suc1)
  finally show ?case .
qed auto

section \<open>Properties\<close>

text \<open>The length-prefixed framing of workflow payloads is exact.  Decoding the
  encoding of any items shorter than 4 GiB gives the items back whatever bytes follow, and
  whenever decoding \<open>n\<close> items succeeds the input starts with the encoding of exactly the \<open>n\<close>
  items returned, so two different item lists never share a payload.\<close>

theorem length_prefixed_roundtrip:
  assumes "list_all (\<lambda>x. length x < 2 ^ 32) items"
  shows "decode_length_prefixed (encode_length_prefixed items @ tail) (length items) = Inr items \<and>
    (\<forall>data n out. decode_length_prefixed data n = Inr out \<longrightarrow>
       length out = n \<and> (\<exists>rest. data = encode_length_prefixed out @ rest))"
proof -
  have "list_all (\<lambda>x. length x < 256 ^ 4) items" using assms by simp
  then show ?thesis
    using decode_length_prefixed_encode decode_length_prefixed_sound by blast
qed

theorem length_prefixed_roundtrip_witness:
  "decode_length_prefixed (encode_length_prefixed [[1, 2], [], [3]] @ [9]) 3 = Inr [[1, 2], [], [3]]"
  using length_prefixed_roundtrip [of "[[1, 2], [], [3]]" "[9]"] by (simp add: numeral_3_eq_3)

text \<open>\<open>decode_files\<close> inverts \<open>encode_files\<close> on every bundle of fewer than \<open>2^32\<close> files
  with UTF-8 names and contents below 4 GiB, and \<open>decode_files\<close> never indexes past a chunk (it
  never panics), on any input.\<close>

theorem files_roundtrip:
  assumes "list_all file_ok files" and "length files < 2 ^ 32"
  shows "decode_files (encode_files files) = Inr files \<and> decode_files data \<noteq> Inl IndexPanic"
proof
  show "decode_files (encode_files files) = Inr files"
    using decode_encode_files [OF assms(1), of "[]"] assms(2) by simp
  show "decode_files data \<noteq> Inl IndexPanic"
  proof
    assume "decode_files data = Inl IndexPanic"
    then obtain n items where "decode_length_prefixed (drop 4 data) (n * 2) = Inr items"
      and "Inl IndexPanic \<in> set (chunk_pairs items)"
      using decode_items_no_panic
      by (auto simp: decode_files_def Let_def and_then_Inl_iff decode_length_prefixed_def
          dest: collect_results_Inl split: if_splits)
    moreover have "even (length items)"
      using decode_length_prefixed_sound [OF calculation(1)] by simp
    ultimately show False by (simp add: chunk_pairs_no_panic)
  qed
qed

theorem files_roundtrip_witness:
  "decode_files (encode_files [(''a.dar'', [1, 2]), (''b.dar'', [])]) = Inr [(''a.dar'', [1, 2]), (''b.dar'', [])]
   \<and> decode_files [0, 0] \<noteq> Inl IndexPanic"
  by (rule files_roundtrip) (simp_all add: file_ok_def rust_str_def str_bytes_def)

text \<open>Topology messages survive the \<open>varint(len)||proto\<close> framing: the reader of a
  file gives back all messages written, and the reader of a payload the first one, for any
  codec that inverts its encoder.\<close>

theorem message_framing_roundtrip:
  assumes "varint_codec V" and "\<And>m. dec (enc m) = Some m" and "\<And>m. length (enc m) < 2 ^ 64"
  shows "read_all_messages V dec (write_messages V enc ms) = Inr ms \<and>
    read_first_message_from_bytes V dec (write_messages V enc (m # ms)) = Inr m"
  using varint_codec.all_messages [OF assms] varint_codec.first_message [OF assms(1,2,3), of m]
  by (simp add: write_messages_def)

theorem message_framing_roundtrip_witness:
  "read_all_messages leb128 Some (write_messages leb128 (\<lambda>m. m) []) = Inr [] \<and>
   read_first_message_from_bytes leb128
     (\<lambda>b. case b of [] \<Rightarrow> Some False | _ \<Rightarrow> Some True)
     (write_messages leb128 (\<lambda>m. if m then [1] else []) [True, False]) = Inr True"
  using message_framing_roundtrip [OF leb.varint_codec_axioms,
      of "\<lambda>b. case b of [] \<Rightarrow> Some False | _ \<Rightarrow> Some True" "\<lambda>m. if m then [1] else []" "[False]" True]
  by (simp add: read_all_messages_def write_messages_def)

text \<open>The synchronizer-id cache never serves an entry as old as its TTL, an error that
  names an unknown topology store empties it so the next lookup asks the participant, and any
  other error leaves it alone.\<close>

theorem synchronizer_cache:
  "(case get_synchronizer_id fetch now later cache of (cache', r) \<Rightarrow>
      (case cache of Some c \<Rightarrow> SYNCHRONIZER_ID_TTL \<le> now - resolved_at c | None \<Rightarrow> True) \<longrightarrow>
        r = fetch \<and> (\<forall>i. fetch = Inr i \<longrightarrow> cache' = Some (CachedSynchronizerId i later)))
   \<and> (str_contains err TOPOLOGY_STORE_NOT_FOUND \<longrightarrow>
        snd (get_synchronizer_id fetch now later (fst (forget_synchronizer_id_in cache err))) = fetch)
   \<and> (\<not> str_contains err TOPOLOGY_STORE_NOT_FOUND \<longrightarrow> forget_synchronizer_id_in cache err = (cache, False))"
  by (auto simp: get_synchronizer_id_def fresh_synchronizer_id_def forget_synchronizer_id_in_def
      split: option.splits sum.splits)

theorem synchronizer_cache_witness:
  "snd (get_synchronizer_id (Inr ''sync::2'' :: unit + string) 10 11
     (fst (forget_synchronizer_id_in (Some (CachedSynchronizerId ''sync::1'' 5))
       ''NOT_FOUND/TOPOLOGY_STORE_NOT_FOUND(11,0)''))) = Inr ''sync::2''"
proof -
  have "str_contains ''NOT_FOUND/TOPOLOGY_STORE_NOT_FOUND(11,0)'' TOPOLOGY_STORE_NOT_FOUND"
    by (simp add: TOPOLOGY_STORE_NOT_FOUND_def)
  then show ?thesis
    using synchronizer_cache [where fetch = "Inr ''sync::2'' :: unit + string" and now = 10 and later = 11
        and cache = "Some (CachedSynchronizerId ''sync::1'' 5)"
        and err = "''NOT_FOUND/TOPOLOGY_STORE_NOT_FOUND(11,0)''"]
    by blast
qed

end
