(* ===== verification/Workflow_Step.thy ===== *)
theory Workflow_Step
  imports Noise_Message
begin

text \<open>
  The trait \<open>WorkflowStep\<close> of \<open>crates/decman/src/workflow/state.rs\<close> and its six
  implementations, one per workflow kind (\<open>workflow/*/mod.rs\<close>).

  The trait is a record of its methods, so that the generic state machine takes the methods of
  the workflow it runs as an argument.  The locale \<open>workflow_step\<close> states the laws the state
  machine, the server and the resume path rely on; each implementation interprets it.
\<close>

section \<open>The trait\<close>

datatype workflow_kind = Onboarding | Kick | Contracts | Dars | AddParty | ChangeThreshold

record 's step_ops =
  to_command :: "'s \<Rightarrow> message_type option"
  next_step :: "'s \<Rightarrow> 's option"
  requires_peers :: "'s \<Rightarrow> bool"
  is_waiting_for_peers :: "'s \<Rightarrow> bool"
  step_index :: "'s \<Rightarrow> int"
  step_total :: int
  step_name :: "'s \<Rightarrow> string"
  try_from_step_name :: "string \<Rightarrow> 's option"
  step_kind :: workflow_kind

section \<open>The implementations\<close>

subsection \<open>Onboarding\<close>

datatype onboarding_step =
    WaitingForPeers
  | GenerateKeys
  | CreateProposals
  | SignDns
  | SubmitDns
  | SignP2p
  | SubmitFinal
  | Complete

primrec onboarding_to_command :: "onboarding_step \<Rightarrow> message_type option" where
  "onboarding_to_command onboarding_step.WaitingForPeers = None"
| "onboarding_to_command onboarding_step.GenerateKeys = Some message_type.GenerateKeys"
| "onboarding_to_command onboarding_step.CreateProposals = None"
| "onboarding_to_command onboarding_step.SignDns = Some message_type.SignDns"
| "onboarding_to_command onboarding_step.SubmitDns = None"
| "onboarding_to_command onboarding_step.SignP2p = Some message_type.SignP2p"
| "onboarding_to_command onboarding_step.SubmitFinal = None"
| "onboarding_to_command onboarding_step.Complete = Some message_type.Disconnect"

primrec onboarding_next :: "onboarding_step \<Rightarrow> onboarding_step option" where
  "onboarding_next onboarding_step.WaitingForPeers = Some onboarding_step.GenerateKeys"
| "onboarding_next onboarding_step.GenerateKeys = Some onboarding_step.CreateProposals"
| "onboarding_next onboarding_step.CreateProposals = Some onboarding_step.SignDns"
| "onboarding_next onboarding_step.SignDns = Some onboarding_step.SubmitDns"
| "onboarding_next onboarding_step.SubmitDns = Some onboarding_step.SignP2p"
| "onboarding_next onboarding_step.SignP2p = Some onboarding_step.SubmitFinal"
| "onboarding_next onboarding_step.SubmitFinal = Some onboarding_step.Complete"
| "onboarding_next onboarding_step.Complete = None"

definition onboarding_requires_peers :: "onboarding_step \<Rightarrow> bool" where
  "onboarding_requires_peers s \<longleftrightarrow> s = onboarding_step.GenerateKeys \<or> s = onboarding_step.SignDns \<or> s = onboarding_step.SignP2p"

primrec onboarding_step_index :: "onboarding_step \<Rightarrow> int" where
  "onboarding_step_index onboarding_step.WaitingForPeers = 0"
| "onboarding_step_index onboarding_step.GenerateKeys = 1"
| "onboarding_step_index onboarding_step.CreateProposals = 2"
| "onboarding_step_index onboarding_step.SignDns = 3"
| "onboarding_step_index onboarding_step.SubmitDns = 4"
| "onboarding_step_index onboarding_step.SignP2p = 5"
| "onboarding_step_index onboarding_step.SubmitFinal = 6"
| "onboarding_step_index onboarding_step.Complete = 7"

primrec onboarding_step_name :: "onboarding_step \<Rightarrow> string" where
  "onboarding_step_name onboarding_step.WaitingForPeers = ''WaitingForPeers''"
| "onboarding_step_name onboarding_step.GenerateKeys = ''GenerateKeys''"
| "onboarding_step_name onboarding_step.CreateProposals = ''CreateProposals''"
| "onboarding_step_name onboarding_step.SignDns = ''SignDns''"
| "onboarding_step_name onboarding_step.SubmitDns = ''SubmitDns''"
| "onboarding_step_name onboarding_step.SignP2p = ''SignP2p''"
| "onboarding_step_name onboarding_step.SubmitFinal = ''SubmitFinal''"
| "onboarding_step_name onboarding_step.Complete = ''Complete''"

definition onboarding_try_from_step_name :: "string \<Rightarrow> onboarding_step option" where
  "onboarding_try_from_step_name name = map_of [
     (''WaitingForPeers'', onboarding_step.WaitingForPeers),
     (''GenerateKeys'', onboarding_step.GenerateKeys),
     (''CreateProposals'', onboarding_step.CreateProposals),
     (''SignDns'', onboarding_step.SignDns),
     (''SubmitDns'', onboarding_step.SubmitDns),
     (''SignP2p'', onboarding_step.SignP2p),
     (''SubmitFinal'', onboarding_step.SubmitFinal),
     (''Complete'', onboarding_step.Complete)] name"

definition onboarding_ops :: "onboarding_step step_ops" where
  "onboarding_ops = \<lparr>to_command = onboarding_to_command, next_step = onboarding_next, requires_peers = onboarding_requires_peers,
     is_waiting_for_peers = (\<lambda>s. s = onboarding_step.WaitingForPeers), step_index = onboarding_step_index, step_total = 8,
     step_name = onboarding_step_name, try_from_step_name = onboarding_try_from_step_name, step_kind = workflow_kind.Onboarding\<rparr>"

subsection \<open>Kick\<close>

datatype kick_step =
    WaitingForPeers
  | ExportState
  | CreateProposals
  | SignProposals
  | SubmitKick
  | RetireLegacyKeys
  | Complete

primrec kick_to_command :: "kick_step \<Rightarrow> message_type option" where
  "kick_to_command kick_step.WaitingForPeers = None"
| "kick_to_command kick_step.ExportState = None"
| "kick_to_command kick_step.CreateProposals = None"
| "kick_to_command kick_step.SignProposals = Some message_type.SignKick"
| "kick_to_command kick_step.SubmitKick = None"
| "kick_to_command kick_step.RetireLegacyKeys = Some message_type.RetireLegacyKeys"
| "kick_to_command kick_step.Complete = Some message_type.Disconnect"

primrec kick_next :: "kick_step \<Rightarrow> kick_step option" where
  "kick_next kick_step.WaitingForPeers = Some kick_step.ExportState"
| "kick_next kick_step.ExportState = Some kick_step.CreateProposals"
| "kick_next kick_step.CreateProposals = Some kick_step.SignProposals"
| "kick_next kick_step.SignProposals = Some kick_step.SubmitKick"
| "kick_next kick_step.SubmitKick = Some kick_step.RetireLegacyKeys"
| "kick_next kick_step.RetireLegacyKeys = Some kick_step.Complete"
| "kick_next kick_step.Complete = None"

definition kick_requires_peers :: "kick_step \<Rightarrow> bool" where
  "kick_requires_peers s \<longleftrightarrow> s = kick_step.SignProposals"

primrec kick_step_index :: "kick_step \<Rightarrow> int" where
  "kick_step_index kick_step.WaitingForPeers = 0"
| "kick_step_index kick_step.ExportState = 1"
| "kick_step_index kick_step.CreateProposals = 2"
| "kick_step_index kick_step.SignProposals = 3"
| "kick_step_index kick_step.SubmitKick = 4"
| "kick_step_index kick_step.RetireLegacyKeys = 5"
| "kick_step_index kick_step.Complete = 6"

primrec kick_step_name :: "kick_step \<Rightarrow> string" where
  "kick_step_name kick_step.WaitingForPeers = ''WaitingForPeers''"
| "kick_step_name kick_step.ExportState = ''ExportState''"
| "kick_step_name kick_step.CreateProposals = ''CreateProposals''"
| "kick_step_name kick_step.SignProposals = ''SignProposals''"
| "kick_step_name kick_step.SubmitKick = ''SubmitKick''"
| "kick_step_name kick_step.RetireLegacyKeys = ''RetireLegacyKeys''"
| "kick_step_name kick_step.Complete = ''Complete''"

definition kick_try_from_step_name :: "string \<Rightarrow> kick_step option" where
  "kick_try_from_step_name name = map_of [
     (''WaitingForPeers'', kick_step.WaitingForPeers),
     (''ExportState'', kick_step.ExportState),
     (''CreateProposals'', kick_step.CreateProposals),
     (''SignProposals'', kick_step.SignProposals),
     (''SubmitKick'', kick_step.SubmitKick),
     (''RetireLegacyKeys'', kick_step.RetireLegacyKeys),
     (''Complete'', kick_step.Complete)] name"

definition kick_ops :: "kick_step step_ops" where
  "kick_ops = \<lparr>to_command = kick_to_command, next_step = kick_next, requires_peers = kick_requires_peers,
     is_waiting_for_peers = (\<lambda>s. s = kick_step.WaitingForPeers), step_index = kick_step_index, step_total = 7,
     step_name = kick_step_name, try_from_step_name = kick_try_from_step_name, step_kind = workflow_kind.Kick\<rparr>"

subsection \<open>Contracts\<close>

datatype contracts_step =
    WaitingForPeers
  | PrepareSubmissions
  | SignSubmissions
  | ExecuteSubmissions
  | Complete

primrec contracts_to_command :: "contracts_step \<Rightarrow> message_type option" where
  "contracts_to_command contracts_step.WaitingForPeers = None"
| "contracts_to_command contracts_step.PrepareSubmissions = None"
| "contracts_to_command contracts_step.SignSubmissions = Some message_type.SignSubmissions"
| "contracts_to_command contracts_step.ExecuteSubmissions = None"
| "contracts_to_command contracts_step.Complete = Some message_type.Disconnect"

primrec contracts_next :: "contracts_step \<Rightarrow> contracts_step option" where
  "contracts_next contracts_step.WaitingForPeers = Some contracts_step.PrepareSubmissions"
| "contracts_next contracts_step.PrepareSubmissions = Some contracts_step.SignSubmissions"
| "contracts_next contracts_step.SignSubmissions = Some contracts_step.ExecuteSubmissions"
| "contracts_next contracts_step.ExecuteSubmissions = Some contracts_step.Complete"
| "contracts_next contracts_step.Complete = None"

definition contracts_requires_peers :: "contracts_step \<Rightarrow> bool" where
  "contracts_requires_peers s \<longleftrightarrow> s = contracts_step.SignSubmissions"

primrec contracts_step_index :: "contracts_step \<Rightarrow> int" where
  "contracts_step_index contracts_step.WaitingForPeers = 0"
| "contracts_step_index contracts_step.PrepareSubmissions = 1"
| "contracts_step_index contracts_step.SignSubmissions = 2"
| "contracts_step_index contracts_step.ExecuteSubmissions = 3"
| "contracts_step_index contracts_step.Complete = 4"

primrec contracts_step_name :: "contracts_step \<Rightarrow> string" where
  "contracts_step_name contracts_step.WaitingForPeers = ''WaitingForPeers''"
| "contracts_step_name contracts_step.PrepareSubmissions = ''PrepareSubmissions''"
| "contracts_step_name contracts_step.SignSubmissions = ''SignSubmissions''"
| "contracts_step_name contracts_step.ExecuteSubmissions = ''ExecuteSubmissions''"
| "contracts_step_name contracts_step.Complete = ''Complete''"

definition contracts_try_from_step_name :: "string \<Rightarrow> contracts_step option" where
  "contracts_try_from_step_name name = map_of [
     (''WaitingForPeers'', contracts_step.WaitingForPeers),
     (''PrepareSubmissions'', contracts_step.PrepareSubmissions),
     (''SignSubmissions'', contracts_step.SignSubmissions),
     (''ExecuteSubmissions'', contracts_step.ExecuteSubmissions),
     (''Complete'', contracts_step.Complete)] name"

definition contracts_ops :: "contracts_step step_ops" where
  "contracts_ops = \<lparr>to_command = contracts_to_command, next_step = contracts_next, requires_peers = contracts_requires_peers,
     is_waiting_for_peers = (\<lambda>s. s = contracts_step.WaitingForPeers), step_index = contracts_step_index, step_total = 5,
     step_name = contracts_step_name, try_from_step_name = contracts_try_from_step_name, step_kind = workflow_kind.Contracts\<rparr>"

subsection \<open>Dars\<close>

datatype dars_step =
    WaitingForPeers
  | UploadDars
  | Complete

primrec dars_to_command :: "dars_step \<Rightarrow> message_type option" where
  "dars_to_command dars_step.WaitingForPeers = None"
| "dars_to_command dars_step.UploadDars = Some message_type.UploadDars"
| "dars_to_command dars_step.Complete = Some message_type.Disconnect"

primrec dars_next :: "dars_step \<Rightarrow> dars_step option" where
  "dars_next dars_step.WaitingForPeers = Some dars_step.UploadDars"
| "dars_next dars_step.UploadDars = Some dars_step.Complete"
| "dars_next dars_step.Complete = None"

definition dars_requires_peers :: "dars_step \<Rightarrow> bool" where
  "dars_requires_peers s \<longleftrightarrow> s = dars_step.UploadDars"

primrec dars_step_index :: "dars_step \<Rightarrow> int" where
  "dars_step_index dars_step.WaitingForPeers = 0"
| "dars_step_index dars_step.UploadDars = 1"
| "dars_step_index dars_step.Complete = 2"

primrec dars_step_name :: "dars_step \<Rightarrow> string" where
  "dars_step_name dars_step.WaitingForPeers = ''WaitingForPeers''"
| "dars_step_name dars_step.UploadDars = ''UploadDars''"
| "dars_step_name dars_step.Complete = ''Complete''"

definition dars_try_from_step_name :: "string \<Rightarrow> dars_step option" where
  "dars_try_from_step_name name = map_of [
     (''WaitingForPeers'', dars_step.WaitingForPeers),
     (''UploadDars'', dars_step.UploadDars),
     (''Complete'', dars_step.Complete)] name"

definition dars_ops :: "dars_step step_ops" where
  "dars_ops = \<lparr>to_command = dars_to_command, next_step = dars_next, requires_peers = dars_requires_peers,
     is_waiting_for_peers = (\<lambda>s. s = dars_step.WaitingForPeers), step_index = dars_step_index, step_total = 3,
     step_name = dars_step_name, try_from_step_name = dars_try_from_step_name, step_kind = workflow_kind.Dars\<rparr>"

subsection \<open>AddParty\<close>

datatype add_party_step =
    WaitingForPeers
  | GenerateNewMemberKeys
  | ExportState
  | CreateProposals
  | SignProposals
  | SubmitProposals
  | SyncAcs
  | PrepareClearOnboarding
  | ProposeClearOnboarding
  | PrepareClearSign
  | SignClearOnboarding
  | SubmitClearOnboarding
  | RetireLegacyKeys
  | Complete

primrec add_party_to_command :: "add_party_step \<Rightarrow> message_type option" where
  "add_party_to_command add_party_step.WaitingForPeers = None"
| "add_party_to_command add_party_step.GenerateNewMemberKeys = Some message_type.GenerateAddPartyKeys"
| "add_party_to_command add_party_step.ExportState = None"
| "add_party_to_command add_party_step.CreateProposals = None"
| "add_party_to_command add_party_step.SignProposals = Some message_type.SignAddParty"
| "add_party_to_command add_party_step.SubmitProposals = None"
| "add_party_to_command add_party_step.SyncAcs = Some message_type.ImportAcs"
| "add_party_to_command add_party_step.PrepareClearOnboarding = None"
| "add_party_to_command add_party_step.ProposeClearOnboarding = Some message_type.ClearOnboardingFlag"
| "add_party_to_command add_party_step.PrepareClearSign = None"
| "add_party_to_command add_party_step.SignClearOnboarding = Some message_type.SignClearOnboarding"
| "add_party_to_command add_party_step.SubmitClearOnboarding = None"
| "add_party_to_command add_party_step.RetireLegacyKeys = Some message_type.RetireLegacyKeys"
| "add_party_to_command add_party_step.Complete = Some message_type.Disconnect"

primrec add_party_next :: "add_party_step \<Rightarrow> add_party_step option" where
  "add_party_next add_party_step.WaitingForPeers = Some add_party_step.GenerateNewMemberKeys"
| "add_party_next add_party_step.GenerateNewMemberKeys = Some add_party_step.ExportState"
| "add_party_next add_party_step.ExportState = Some add_party_step.CreateProposals"
| "add_party_next add_party_step.CreateProposals = Some add_party_step.SignProposals"
| "add_party_next add_party_step.SignProposals = Some add_party_step.SubmitProposals"
| "add_party_next add_party_step.SubmitProposals = Some add_party_step.SyncAcs"
| "add_party_next add_party_step.SyncAcs = Some add_party_step.PrepareClearOnboarding"
| "add_party_next add_party_step.PrepareClearOnboarding = Some add_party_step.ProposeClearOnboarding"
| "add_party_next add_party_step.ProposeClearOnboarding = Some add_party_step.PrepareClearSign"
| "add_party_next add_party_step.PrepareClearSign = Some add_party_step.SignClearOnboarding"
| "add_party_next add_party_step.SignClearOnboarding = Some add_party_step.SubmitClearOnboarding"
| "add_party_next add_party_step.SubmitClearOnboarding = Some add_party_step.RetireLegacyKeys"
| "add_party_next add_party_step.RetireLegacyKeys = Some add_party_step.Complete"
| "add_party_next add_party_step.Complete = None"

definition add_party_requires_peers :: "add_party_step \<Rightarrow> bool" where
  "add_party_requires_peers s \<longleftrightarrow> s = add_party_step.GenerateNewMemberKeys \<or> s = add_party_step.SignProposals \<or> s = add_party_step.SyncAcs \<or> s = add_party_step.ProposeClearOnboarding \<or> s = add_party_step.SignClearOnboarding"

primrec add_party_step_index :: "add_party_step \<Rightarrow> int" where
  "add_party_step_index add_party_step.WaitingForPeers = 0"
| "add_party_step_index add_party_step.GenerateNewMemberKeys = 1"
| "add_party_step_index add_party_step.ExportState = 2"
| "add_party_step_index add_party_step.CreateProposals = 3"
| "add_party_step_index add_party_step.SignProposals = 4"
| "add_party_step_index add_party_step.SubmitProposals = 5"
| "add_party_step_index add_party_step.SyncAcs = 6"
| "add_party_step_index add_party_step.PrepareClearOnboarding = 7"
| "add_party_step_index add_party_step.ProposeClearOnboarding = 8"
| "add_party_step_index add_party_step.PrepareClearSign = 9"
| "add_party_step_index add_party_step.SignClearOnboarding = 10"
| "add_party_step_index add_party_step.SubmitClearOnboarding = 11"
| "add_party_step_index add_party_step.RetireLegacyKeys = 12"
| "add_party_step_index add_party_step.Complete = 13"

primrec add_party_step_name :: "add_party_step \<Rightarrow> string" where
  "add_party_step_name add_party_step.WaitingForPeers = ''WaitingForPeers''"
| "add_party_step_name add_party_step.GenerateNewMemberKeys = ''GenerateNewMemberKeys''"
| "add_party_step_name add_party_step.ExportState = ''ExportState''"
| "add_party_step_name add_party_step.CreateProposals = ''CreateProposals''"
| "add_party_step_name add_party_step.SignProposals = ''SignProposals''"
| "add_party_step_name add_party_step.SubmitProposals = ''SubmitProposals''"
| "add_party_step_name add_party_step.SyncAcs = ''SyncAcs''"
| "add_party_step_name add_party_step.PrepareClearOnboarding = ''PrepareClearOnboarding''"
| "add_party_step_name add_party_step.ProposeClearOnboarding = ''ProposeClearOnboarding''"
| "add_party_step_name add_party_step.PrepareClearSign = ''PrepareClearSign''"
| "add_party_step_name add_party_step.SignClearOnboarding = ''SignClearOnboarding''"
| "add_party_step_name add_party_step.SubmitClearOnboarding = ''SubmitClearOnboarding''"
| "add_party_step_name add_party_step.RetireLegacyKeys = ''RetireLegacyKeys''"
| "add_party_step_name add_party_step.Complete = ''Complete''"

definition add_party_try_from_step_name :: "string \<Rightarrow> add_party_step option" where
  "add_party_try_from_step_name name = map_of [
     (''WaitingForPeers'', add_party_step.WaitingForPeers),
     (''GenerateNewMemberKeys'', add_party_step.GenerateNewMemberKeys),
     (''ExportState'', add_party_step.ExportState),
     (''CreateProposals'', add_party_step.CreateProposals),
     (''SignProposals'', add_party_step.SignProposals),
     (''SubmitProposals'', add_party_step.SubmitProposals),
     (''SyncAcs'', add_party_step.SyncAcs),
     (''PrepareClearOnboarding'', add_party_step.PrepareClearOnboarding),
     (''ProposeClearOnboarding'', add_party_step.ProposeClearOnboarding),
     (''PrepareClearSign'', add_party_step.PrepareClearSign),
     (''SignClearOnboarding'', add_party_step.SignClearOnboarding),
     (''SubmitClearOnboarding'', add_party_step.SubmitClearOnboarding),
     (''RetireLegacyKeys'', add_party_step.RetireLegacyKeys),
     (''Complete'', add_party_step.Complete)] name"

definition add_party_ops :: "add_party_step step_ops" where
  "add_party_ops = \<lparr>to_command = add_party_to_command, next_step = add_party_next, requires_peers = add_party_requires_peers,
     is_waiting_for_peers = (\<lambda>s. s = add_party_step.WaitingForPeers), step_index = add_party_step_index, step_total = 14,
     step_name = add_party_step_name, try_from_step_name = add_party_try_from_step_name, step_kind = workflow_kind.AddParty\<rparr>"

subsection \<open>ChangeThreshold\<close>

datatype change_threshold_step =
    WaitingForPeers
  | ExportState
  | CreateProposals
  | SignProposals
  | Submit
  | RetireLegacyKeys
  | Complete

primrec change_threshold_to_command :: "change_threshold_step \<Rightarrow> message_type option" where
  "change_threshold_to_command change_threshold_step.WaitingForPeers = None"
| "change_threshold_to_command change_threshold_step.ExportState = None"
| "change_threshold_to_command change_threshold_step.CreateProposals = None"
| "change_threshold_to_command change_threshold_step.SignProposals = Some message_type.SignChangeThreshold"
| "change_threshold_to_command change_threshold_step.Submit = None"
| "change_threshold_to_command change_threshold_step.RetireLegacyKeys = Some message_type.RetireLegacyKeys"
| "change_threshold_to_command change_threshold_step.Complete = Some message_type.Disconnect"

primrec change_threshold_next :: "change_threshold_step \<Rightarrow> change_threshold_step option" where
  "change_threshold_next change_threshold_step.WaitingForPeers = Some change_threshold_step.ExportState"
| "change_threshold_next change_threshold_step.ExportState = Some change_threshold_step.CreateProposals"
| "change_threshold_next change_threshold_step.CreateProposals = Some change_threshold_step.SignProposals"
| "change_threshold_next change_threshold_step.SignProposals = Some change_threshold_step.Submit"
| "change_threshold_next change_threshold_step.Submit = Some change_threshold_step.RetireLegacyKeys"
| "change_threshold_next change_threshold_step.RetireLegacyKeys = Some change_threshold_step.Complete"
| "change_threshold_next change_threshold_step.Complete = None"

definition change_threshold_requires_peers :: "change_threshold_step \<Rightarrow> bool" where
  "change_threshold_requires_peers s \<longleftrightarrow> s = change_threshold_step.SignProposals"

primrec change_threshold_step_index :: "change_threshold_step \<Rightarrow> int" where
  "change_threshold_step_index change_threshold_step.WaitingForPeers = 0"
| "change_threshold_step_index change_threshold_step.ExportState = 1"
| "change_threshold_step_index change_threshold_step.CreateProposals = 2"
| "change_threshold_step_index change_threshold_step.SignProposals = 3"
| "change_threshold_step_index change_threshold_step.Submit = 4"
| "change_threshold_step_index change_threshold_step.RetireLegacyKeys = 5"
| "change_threshold_step_index change_threshold_step.Complete = 6"

primrec change_threshold_step_name :: "change_threshold_step \<Rightarrow> string" where
  "change_threshold_step_name change_threshold_step.WaitingForPeers = ''WaitingForPeers''"
| "change_threshold_step_name change_threshold_step.ExportState = ''ExportState''"
| "change_threshold_step_name change_threshold_step.CreateProposals = ''CreateProposals''"
| "change_threshold_step_name change_threshold_step.SignProposals = ''SignProposals''"
| "change_threshold_step_name change_threshold_step.Submit = ''Submit''"
| "change_threshold_step_name change_threshold_step.RetireLegacyKeys = ''RetireLegacyKeys''"
| "change_threshold_step_name change_threshold_step.Complete = ''Complete''"

definition change_threshold_try_from_step_name :: "string \<Rightarrow> change_threshold_step option" where
  "change_threshold_try_from_step_name name = map_of [
     (''WaitingForPeers'', change_threshold_step.WaitingForPeers),
     (''ExportState'', change_threshold_step.ExportState),
     (''CreateProposals'', change_threshold_step.CreateProposals),
     (''SignProposals'', change_threshold_step.SignProposals),
     (''Submit'', change_threshold_step.Submit),
     (''RetireLegacyKeys'', change_threshold_step.RetireLegacyKeys),
     (''Complete'', change_threshold_step.Complete)] name"

definition change_threshold_ops :: "change_threshold_step step_ops" where
  "change_threshold_ops = \<lparr>to_command = change_threshold_to_command, next_step = change_threshold_next, requires_peers = change_threshold_requires_peers,
     is_waiting_for_peers = (\<lambda>s. s = change_threshold_step.WaitingForPeers), step_index = change_threshold_step_index, step_total = 7,
     step_name = change_threshold_step_name, try_from_step_name = change_threshold_try_from_step_name, step_kind = workflow_kind.ChangeThreshold\<rparr>"

section \<open>Laws\<close>

text \<open>The steps a run goes through from \<open>s\<close> on, following \<open>next\<close> at most \<open>n\<close> times.\<close>

fun steps_from :: "'s step_ops \<Rightarrow> nat \<Rightarrow> 's \<Rightarrow> 's list" where
  "steps_from ops 0 s = [s]"
| "steps_from ops (Suc n) s =
    s # (case next_step ops s of None \<Rightarrow> [] | Some t \<Rightarrow> steps_from ops n t)"

locale workflow_step =
  fixes ops :: "'s step_ops"
  assumes index_next: "next_step ops s = Some t \<Longrightarrow> step_index ops t = step_index ops s + 1"
    and index_bounds: "0 \<le> step_index ops s \<and> step_index ops s < step_total ops"
    and last_iff: "next_step ops s = None \<longleftrightarrow> step_index ops s = step_total ops - 1"
    and index_inj: "step_index ops s = step_index ops t \<Longrightarrow> s = t"
    and name_roundtrip: "try_from_step_name ops (step_name ops s) = Some s"
    and name_sound: "try_from_step_name ops n = Some s \<Longrightarrow> n = step_name ops s"
    and gated_command: "requires_peers ops s \<Longrightarrow> to_command ops s \<noteq> None"
    and gated_next: "requires_peers ops s \<Longrightarrow> next_step ops s \<noteq> None"
    and waiting_first: "is_waiting_for_peers ops s \<longleftrightarrow> step_index ops s = 0"
    and waiting_idle: "is_waiting_for_peers ops s \<Longrightarrow> \<not> requires_peers ops s \<and> to_command ops s = None"
    and disconnect_last: "to_command ops s = Some Disconnect \<longleftrightarrow> next_step ops s = None"
    and command_inj: "to_command ops s = Some c \<Longrightarrow> to_command ops t = Some c \<Longrightarrow> s = t"
    and gates_apart: "requires_peers ops s \<Longrightarrow> next_step ops s = Some t \<Longrightarrow> \<not> requires_peers ops t"
begin

lemma next_neq: "next_step ops s = Some t \<Longrightarrow> t \<noteq> s"
  using index_next by fastforce

lemma name_inj: "step_name ops s = step_name ops t \<longleftrightarrow> s = t"
  by (metis name_roundtrip option.inject)

text \<open>Following \<open>next\<close> goes through the steps in the order of their indices, each once, and ends
  at the step that tells the peers to disconnect.\<close>

lemma steps_from_indices:
  "step_index ops s + int n = step_total ops - 1 \<Longrightarrow>
     map (step_index ops) (steps_from ops n s) = map (\<lambda>k. step_index ops s + int k) [0..<Suc n]"
proof (induction n arbitrary: s)
  case (Suc n)
  then have "next_step ops s \<noteq> None" using last_iff by auto
  then obtain t where t: "next_step ops s = Some t" by blast
  have i: "step_index ops t = step_index ops s + 1" by (rule index_next [OF t])
  have "[0..<Suc (Suc n)] = 0 # map Suc [0..<Suc n]" by (subst upt_conv_Cons) (simp_all add: map_Suc_upt del: upt_Suc)
  then show ?case using Suc.IH [of t] Suc.prems i t by (simp add: o_def del: upt_Suc)
qed simp

lemma steps_from_last:
  "step_index ops s + int n = step_total ops - 1 \<Longrightarrow> next_step ops (last (steps_from ops n s)) = None"
proof (induction n arbitrary: s)
  case 0
  then show ?case using last_iff by simp
next
  case (Suc n)
  then have "next_step ops s \<noteq> None" using last_iff by auto
  then obtain t where t: "next_step ops s = Some t" by blast
  have "steps_from ops n t \<noteq> []" by (cases n) auto
  then show ?case using Suc.IH [of t] Suc.prems index_next [OF t] t by simp
qed

lemma steps_from_start:
  assumes "is_waiting_for_peers ops s"
  shows "map (step_index ops) (steps_from ops (nat (step_total ops - 1)) s) = map int [0..<nat (step_total ops)]"
    and "to_command ops (last (steps_from ops (nat (step_total ops - 1)) s)) = Some Disconnect"
proof -
  have i: "step_index ops s = 0" using assms waiting_first by simp
  have pos: "0 < step_total ops" using index_bounds [of s] by linarith
  then have eq: "step_index ops s + int (nat (step_total ops - 1)) = step_total ops - 1" using i by simp
  have "Suc (nat (step_total ops - 1)) = nat (step_total ops)" using pos by simp
  then show "map (step_index ops) (steps_from ops (nat (step_total ops - 1)) s) = map int [0..<nat (step_total ops)]"
    using steps_from_indices [OF eq] i by simp
  show "to_command ops (last (steps_from ops (nat (step_total ops - 1)) s)) = Some Disconnect"
    using steps_from_last [OF eq] disconnect_last by simp
qed

end

interpretation onboarding_wf: workflow_step onboarding_ops
proof
  fix s t :: onboarding_step and n c
  show "next_step onboarding_ops s = Some t \<Longrightarrow> step_index onboarding_ops t = step_index onboarding_ops s + 1"
    by (cases s) (auto simp: onboarding_ops_def)
  show "0 \<le> step_index onboarding_ops s \<and> step_index onboarding_ops s < step_total onboarding_ops"
    by (cases s) (simp_all add: onboarding_ops_def)
  show "next_step onboarding_ops s = None \<longleftrightarrow> step_index onboarding_ops s = step_total onboarding_ops - 1"
    by (cases s) (simp_all add: onboarding_ops_def)
  show "step_index onboarding_ops s = step_index onboarding_ops t \<Longrightarrow> s = t"
    by (cases s; cases t) (simp_all add: onboarding_ops_def)
  show "try_from_step_name onboarding_ops (step_name onboarding_ops s) = Some s"
    by (cases s) (simp_all add: onboarding_ops_def onboarding_try_from_step_name_def)
  show "try_from_step_name onboarding_ops n = Some s \<Longrightarrow> n = step_name onboarding_ops s"
    by (auto simp: onboarding_ops_def onboarding_try_from_step_name_def split: if_splits)
  show "requires_peers onboarding_ops s \<Longrightarrow> to_command onboarding_ops s \<noteq> None"
    by (auto simp: onboarding_ops_def onboarding_requires_peers_def)
  show "requires_peers onboarding_ops s \<Longrightarrow> next_step onboarding_ops s \<noteq> None"
    by (auto simp: onboarding_ops_def onboarding_requires_peers_def)
  show "is_waiting_for_peers onboarding_ops s \<longleftrightarrow> step_index onboarding_ops s = 0"
    by (cases s) (simp_all add: onboarding_ops_def)
  show "is_waiting_for_peers onboarding_ops s \<Longrightarrow> \<not> requires_peers onboarding_ops s \<and> to_command onboarding_ops s = None"
    by (auto simp: onboarding_ops_def onboarding_requires_peers_def)
  show "to_command onboarding_ops s = Some Disconnect \<longleftrightarrow> next_step onboarding_ops s = None"
    by (cases s) (simp_all add: onboarding_ops_def)
  show "to_command onboarding_ops s = Some c \<Longrightarrow> to_command onboarding_ops t = Some c \<Longrightarrow> s = t"
    by (cases s; cases t) (auto simp: onboarding_ops_def)
  show "requires_peers onboarding_ops s \<Longrightarrow> next_step onboarding_ops s = Some t \<Longrightarrow> \<not> requires_peers onboarding_ops t"
    by (auto simp: onboarding_ops_def onboarding_requires_peers_def)
qed

interpretation kick_wf: workflow_step kick_ops
proof
  fix s t :: kick_step and n c
  show "next_step kick_ops s = Some t \<Longrightarrow> step_index kick_ops t = step_index kick_ops s + 1"
    by (cases s) (auto simp: kick_ops_def)
  show "0 \<le> step_index kick_ops s \<and> step_index kick_ops s < step_total kick_ops"
    by (cases s) (simp_all add: kick_ops_def)
  show "next_step kick_ops s = None \<longleftrightarrow> step_index kick_ops s = step_total kick_ops - 1"
    by (cases s) (simp_all add: kick_ops_def)
  show "step_index kick_ops s = step_index kick_ops t \<Longrightarrow> s = t"
    by (cases s; cases t) (simp_all add: kick_ops_def)
  show "try_from_step_name kick_ops (step_name kick_ops s) = Some s"
    by (cases s) (simp_all add: kick_ops_def kick_try_from_step_name_def)
  show "try_from_step_name kick_ops n = Some s \<Longrightarrow> n = step_name kick_ops s"
    by (auto simp: kick_ops_def kick_try_from_step_name_def split: if_splits)
  show "requires_peers kick_ops s \<Longrightarrow> to_command kick_ops s \<noteq> None"
    by (auto simp: kick_ops_def kick_requires_peers_def)
  show "requires_peers kick_ops s \<Longrightarrow> next_step kick_ops s \<noteq> None"
    by (auto simp: kick_ops_def kick_requires_peers_def)
  show "is_waiting_for_peers kick_ops s \<longleftrightarrow> step_index kick_ops s = 0"
    by (cases s) (simp_all add: kick_ops_def)
  show "is_waiting_for_peers kick_ops s \<Longrightarrow> \<not> requires_peers kick_ops s \<and> to_command kick_ops s = None"
    by (auto simp: kick_ops_def kick_requires_peers_def)
  show "to_command kick_ops s = Some Disconnect \<longleftrightarrow> next_step kick_ops s = None"
    by (cases s) (simp_all add: kick_ops_def)
  show "to_command kick_ops s = Some c \<Longrightarrow> to_command kick_ops t = Some c \<Longrightarrow> s = t"
    by (cases s; cases t) (auto simp: kick_ops_def)
  show "requires_peers kick_ops s \<Longrightarrow> next_step kick_ops s = Some t \<Longrightarrow> \<not> requires_peers kick_ops t"
    by (auto simp: kick_ops_def kick_requires_peers_def)
qed

interpretation contracts_wf: workflow_step contracts_ops
proof
  fix s t :: contracts_step and n c
  show "next_step contracts_ops s = Some t \<Longrightarrow> step_index contracts_ops t = step_index contracts_ops s + 1"
    by (cases s) (auto simp: contracts_ops_def)
  show "0 \<le> step_index contracts_ops s \<and> step_index contracts_ops s < step_total contracts_ops"
    by (cases s) (simp_all add: contracts_ops_def)
  show "next_step contracts_ops s = None \<longleftrightarrow> step_index contracts_ops s = step_total contracts_ops - 1"
    by (cases s) (simp_all add: contracts_ops_def)
  show "step_index contracts_ops s = step_index contracts_ops t \<Longrightarrow> s = t"
    by (cases s; cases t) (simp_all add: contracts_ops_def)
  show "try_from_step_name contracts_ops (step_name contracts_ops s) = Some s"
    by (cases s) (simp_all add: contracts_ops_def contracts_try_from_step_name_def)
  show "try_from_step_name contracts_ops n = Some s \<Longrightarrow> n = step_name contracts_ops s"
    by (auto simp: contracts_ops_def contracts_try_from_step_name_def split: if_splits)
  show "requires_peers contracts_ops s \<Longrightarrow> to_command contracts_ops s \<noteq> None"
    by (auto simp: contracts_ops_def contracts_requires_peers_def)
  show "requires_peers contracts_ops s \<Longrightarrow> next_step contracts_ops s \<noteq> None"
    by (auto simp: contracts_ops_def contracts_requires_peers_def)
  show "is_waiting_for_peers contracts_ops s \<longleftrightarrow> step_index contracts_ops s = 0"
    by (cases s) (simp_all add: contracts_ops_def)
  show "is_waiting_for_peers contracts_ops s \<Longrightarrow> \<not> requires_peers contracts_ops s \<and> to_command contracts_ops s = None"
    by (auto simp: contracts_ops_def contracts_requires_peers_def)
  show "to_command contracts_ops s = Some Disconnect \<longleftrightarrow> next_step contracts_ops s = None"
    by (cases s) (simp_all add: contracts_ops_def)
  show "to_command contracts_ops s = Some c \<Longrightarrow> to_command contracts_ops t = Some c \<Longrightarrow> s = t"
    by (cases s; cases t) (auto simp: contracts_ops_def)
  show "requires_peers contracts_ops s \<Longrightarrow> next_step contracts_ops s = Some t \<Longrightarrow> \<not> requires_peers contracts_ops t"
    by (auto simp: contracts_ops_def contracts_requires_peers_def)
qed

interpretation dars_wf: workflow_step dars_ops
proof
  fix s t :: dars_step and n c
  show "next_step dars_ops s = Some t \<Longrightarrow> step_index dars_ops t = step_index dars_ops s + 1"
    by (cases s) (auto simp: dars_ops_def)
  show "0 \<le> step_index dars_ops s \<and> step_index dars_ops s < step_total dars_ops"
    by (cases s) (simp_all add: dars_ops_def)
  show "next_step dars_ops s = None \<longleftrightarrow> step_index dars_ops s = step_total dars_ops - 1"
    by (cases s) (simp_all add: dars_ops_def)
  show "step_index dars_ops s = step_index dars_ops t \<Longrightarrow> s = t"
    by (cases s; cases t) (simp_all add: dars_ops_def)
  show "try_from_step_name dars_ops (step_name dars_ops s) = Some s"
    by (cases s) (simp_all add: dars_ops_def dars_try_from_step_name_def)
  show "try_from_step_name dars_ops n = Some s \<Longrightarrow> n = step_name dars_ops s"
    by (auto simp: dars_ops_def dars_try_from_step_name_def split: if_splits)
  show "requires_peers dars_ops s \<Longrightarrow> to_command dars_ops s \<noteq> None"
    by (auto simp: dars_ops_def dars_requires_peers_def)
  show "requires_peers dars_ops s \<Longrightarrow> next_step dars_ops s \<noteq> None"
    by (auto simp: dars_ops_def dars_requires_peers_def)
  show "is_waiting_for_peers dars_ops s \<longleftrightarrow> step_index dars_ops s = 0"
    by (cases s) (simp_all add: dars_ops_def)
  show "is_waiting_for_peers dars_ops s \<Longrightarrow> \<not> requires_peers dars_ops s \<and> to_command dars_ops s = None"
    by (auto simp: dars_ops_def dars_requires_peers_def)
  show "to_command dars_ops s = Some Disconnect \<longleftrightarrow> next_step dars_ops s = None"
    by (cases s) (simp_all add: dars_ops_def)
  show "to_command dars_ops s = Some c \<Longrightarrow> to_command dars_ops t = Some c \<Longrightarrow> s = t"
    by (cases s; cases t) (auto simp: dars_ops_def)
  show "requires_peers dars_ops s \<Longrightarrow> next_step dars_ops s = Some t \<Longrightarrow> \<not> requires_peers dars_ops t"
    by (auto simp: dars_ops_def dars_requires_peers_def)
qed

interpretation add_party_wf: workflow_step add_party_ops
proof
  fix s t :: add_party_step and n c
  show "next_step add_party_ops s = Some t \<Longrightarrow> step_index add_party_ops t = step_index add_party_ops s + 1"
    by (cases s) (auto simp: add_party_ops_def)
  show "0 \<le> step_index add_party_ops s \<and> step_index add_party_ops s < step_total add_party_ops"
    by (cases s) (simp_all add: add_party_ops_def)
  show "next_step add_party_ops s = None \<longleftrightarrow> step_index add_party_ops s = step_total add_party_ops - 1"
    by (cases s) (simp_all add: add_party_ops_def)
  show "step_index add_party_ops s = step_index add_party_ops t \<Longrightarrow> s = t"
    by (cases s; cases t) (simp_all add: add_party_ops_def)
  show "try_from_step_name add_party_ops (step_name add_party_ops s) = Some s"
    by (cases s) (simp_all add: add_party_ops_def add_party_try_from_step_name_def)
  show "try_from_step_name add_party_ops n = Some s \<Longrightarrow> n = step_name add_party_ops s"
    by (auto simp: add_party_ops_def add_party_try_from_step_name_def split: if_splits)
  show "requires_peers add_party_ops s \<Longrightarrow> to_command add_party_ops s \<noteq> None"
    by (auto simp: add_party_ops_def add_party_requires_peers_def)
  show "requires_peers add_party_ops s \<Longrightarrow> next_step add_party_ops s \<noteq> None"
    by (auto simp: add_party_ops_def add_party_requires_peers_def)
  show "is_waiting_for_peers add_party_ops s \<longleftrightarrow> step_index add_party_ops s = 0"
    by (cases s) (simp_all add: add_party_ops_def)
  show "is_waiting_for_peers add_party_ops s \<Longrightarrow> \<not> requires_peers add_party_ops s \<and> to_command add_party_ops s = None"
    by (auto simp: add_party_ops_def add_party_requires_peers_def)
  show "to_command add_party_ops s = Some Disconnect \<longleftrightarrow> next_step add_party_ops s = None"
    by (cases s) (simp_all add: add_party_ops_def)
  show "to_command add_party_ops s = Some c \<Longrightarrow> to_command add_party_ops t = Some c \<Longrightarrow> s = t"
    by (cases s; cases t) (auto simp: add_party_ops_def)
  show "requires_peers add_party_ops s \<Longrightarrow> next_step add_party_ops s = Some t \<Longrightarrow> \<not> requires_peers add_party_ops t"
    by (auto simp: add_party_ops_def add_party_requires_peers_def)
qed

interpretation change_threshold_wf: workflow_step change_threshold_ops
proof
  fix s t :: change_threshold_step and n c
  show "next_step change_threshold_ops s = Some t \<Longrightarrow> step_index change_threshold_ops t = step_index change_threshold_ops s + 1"
    by (cases s) (auto simp: change_threshold_ops_def)
  show "0 \<le> step_index change_threshold_ops s \<and> step_index change_threshold_ops s < step_total change_threshold_ops"
    by (cases s) (simp_all add: change_threshold_ops_def)
  show "next_step change_threshold_ops s = None \<longleftrightarrow> step_index change_threshold_ops s = step_total change_threshold_ops - 1"
    by (cases s) (simp_all add: change_threshold_ops_def)
  show "step_index change_threshold_ops s = step_index change_threshold_ops t \<Longrightarrow> s = t"
    by (cases s; cases t) (simp_all add: change_threshold_ops_def)
  show "try_from_step_name change_threshold_ops (step_name change_threshold_ops s) = Some s"
    by (cases s) (simp_all add: change_threshold_ops_def change_threshold_try_from_step_name_def)
  show "try_from_step_name change_threshold_ops n = Some s \<Longrightarrow> n = step_name change_threshold_ops s"
    by (auto simp: change_threshold_ops_def change_threshold_try_from_step_name_def split: if_splits)
  show "requires_peers change_threshold_ops s \<Longrightarrow> to_command change_threshold_ops s \<noteq> None"
    by (auto simp: change_threshold_ops_def change_threshold_requires_peers_def)
  show "requires_peers change_threshold_ops s \<Longrightarrow> next_step change_threshold_ops s \<noteq> None"
    by (auto simp: change_threshold_ops_def change_threshold_requires_peers_def)
  show "is_waiting_for_peers change_threshold_ops s \<longleftrightarrow> step_index change_threshold_ops s = 0"
    by (cases s) (simp_all add: change_threshold_ops_def)
  show "is_waiting_for_peers change_threshold_ops s \<Longrightarrow> \<not> requires_peers change_threshold_ops s \<and> to_command change_threshold_ops s = None"
    by (auto simp: change_threshold_ops_def change_threshold_requires_peers_def)
  show "to_command change_threshold_ops s = Some Disconnect \<longleftrightarrow> next_step change_threshold_ops s = None"
    by (cases s) (simp_all add: change_threshold_ops_def)
  show "to_command change_threshold_ops s = Some c \<Longrightarrow> to_command change_threshold_ops t = Some c \<Longrightarrow> s = t"
    by (cases s; cases t) (auto simp: change_threshold_ops_def)
  show "requires_peers change_threshold_ops s \<Longrightarrow> next_step change_threshold_ops s = Some t \<Longrightarrow> \<not> requires_peers change_threshold_ops t"
    by (auto simp: change_threshold_ops_def change_threshold_requires_peers_def)
qed

section \<open>Properties\<close>

text \<open>Each of the six workflows is a line.  From its waiting step, following \<open>next\<close> goes
  through all \<open>step_total\<close> steps in the order of their indices, each exactly once, and ends at the
  step whose command tells the peers to disconnect.\<close>

theorem workflows_linear:
  "map (step_index onboarding_ops) (steps_from onboarding_ops 7 onboarding_step.WaitingForPeers) = [0..7] \<and>
   map (step_index kick_ops) (steps_from kick_ops 6 kick_step.WaitingForPeers) = [0..6] \<and>
   map (step_index contracts_ops) (steps_from contracts_ops 4 contracts_step.WaitingForPeers) = [0..4] \<and>
   map (step_index dars_ops) (steps_from dars_ops 2 dars_step.WaitingForPeers) = [0..2] \<and>
   map (step_index add_party_ops) (steps_from add_party_ops 13 add_party_step.WaitingForPeers) = [0..13] \<and>
   map (step_index change_threshold_ops) (steps_from change_threshold_ops 6 change_threshold_step.WaitingForPeers) = [0..6] \<and>
   map (to_command onboarding_ops) [last (steps_from onboarding_ops 7 onboarding_step.WaitingForPeers)]
     @ map (to_command kick_ops) [last (steps_from kick_ops 6 kick_step.WaitingForPeers)]
     @ map (to_command contracts_ops) [last (steps_from contracts_ops 4 contracts_step.WaitingForPeers)]
     @ map (to_command dars_ops) [last (steps_from dars_ops 2 dars_step.WaitingForPeers)]
     @ map (to_command add_party_ops) [last (steps_from add_party_ops 13 add_party_step.WaitingForPeers)]
     @ map (to_command change_threshold_ops) [last (steps_from change_threshold_ops 6 change_threshold_step.WaitingForPeers)]
     = replicate 6 (Some Disconnect)"
  using onboarding_wf.steps_from_start [of onboarding_step.WaitingForPeers]
    kick_wf.steps_from_start [of kick_step.WaitingForPeers]
    contracts_wf.steps_from_start [of contracts_step.WaitingForPeers]
    dars_wf.steps_from_start [of dars_step.WaitingForPeers]
    add_party_wf.steps_from_start [of add_party_step.WaitingForPeers]
    change_threshold_wf.steps_from_start [of change_threshold_step.WaitingForPeers]
  by (simp add: onboarding_ops_def kick_ops_def contracts_ops_def dars_ops_def add_party_ops_def
      change_threshold_ops_def upto_rec1 upt_rec numeral_eq_Suc)

text \<open>The name a step is persisted under identifies it: reading it back gives the
  step, and no other string is accepted, for each of the six workflows.\<close>

theorem step_names_resume:
  "(onboarding_try_from_step_name n1 = Some s1) = (n1 = onboarding_step_name s1) \<and>
   (kick_try_from_step_name n2 = Some s2) = (n2 = kick_step_name s2) \<and>
   (contracts_try_from_step_name n3 = Some s3) = (n3 = contracts_step_name s3) \<and>
   (dars_try_from_step_name n4 = Some s4) = (n4 = dars_step_name s4) \<and>
   (add_party_try_from_step_name n5 = Some s5) = (n5 = add_party_step_name s5) \<and>
   (change_threshold_try_from_step_name n6 = Some s6) = (n6 = change_threshold_step_name s6)"
proof (intro conjI iffI)
  note names = onboarding_wf.name_sound kick_wf.name_sound contracts_wf.name_sound dars_wf.name_sound
    add_party_wf.name_sound change_threshold_wf.name_sound
  note returns = onboarding_wf.name_roundtrip kick_wf.name_roundtrip contracts_wf.name_roundtrip
    dars_wf.name_roundtrip add_party_wf.name_roundtrip change_threshold_wf.name_roundtrip
  note unfold = onboarding_ops_def kick_ops_def contracts_ops_def dars_ops_def add_party_ops_def change_threshold_ops_def
  show "onboarding_try_from_step_name n1 = Some s1 \<Longrightarrow> n1 = onboarding_step_name s1"
    "kick_try_from_step_name n2 = Some s2 \<Longrightarrow> n2 = kick_step_name s2"
    "contracts_try_from_step_name n3 = Some s3 \<Longrightarrow> n3 = contracts_step_name s3"
    "dars_try_from_step_name n4 = Some s4 \<Longrightarrow> n4 = dars_step_name s4"
    "add_party_try_from_step_name n5 = Some s5 \<Longrightarrow> n5 = add_party_step_name s5"
    "change_threshold_try_from_step_name n6 = Some s6 \<Longrightarrow> n6 = change_threshold_step_name s6"
    using names by (simp_all add: unfold)
  show "n1 = onboarding_step_name s1 \<Longrightarrow> onboarding_try_from_step_name n1 = Some s1"
    "n2 = kick_step_name s2 \<Longrightarrow> kick_try_from_step_name n2 = Some s2"
    "n3 = contracts_step_name s3 \<Longrightarrow> contracts_try_from_step_name n3 = Some s3"
    "n4 = dars_step_name s4 \<Longrightarrow> dars_try_from_step_name n4 = Some s4"
    "n5 = add_party_step_name s5 \<Longrightarrow> add_party_try_from_step_name n5 = Some s5"
    "n6 = change_threshold_step_name s6 \<Longrightarrow> change_threshold_try_from_step_name n6 = Some s6"
    using returns by (simp_all add: unfold)
qed

end
