(* ===== verification/Topology.thy ===== *)
theory Topology
  imports Framing Canton_Id Workflow_Step
begin

text \<open>
  The topology data the workflows propose and sign: the protobuf messages with the fields the code
  reads, key fingerprints (\<open>utils.rs\<close>), the decoders of proposals (\<open>workflow/validation.rs\<close>), the
  key bundle decoder and the decentralized namespace hash
  (\<open>workflow/onboarding/steps/proposals/create.rs\<close>), and the thresholds of
  \<open>workflow/thresholds.rs\<close>.

  The protobuf codecs, the hash, the hex codec, the X.509 parser and the numbers of the generated
  enums are third-party: they are the fields of \<open>proto\<close>.
\<close>

section \<open>Messages\<close>

record signing_public_key =
  key_format :: int
  public_key :: bytes
  key_usage :: "int list"
  key_spec :: int
  key_scheme :: int

record signing_keys_with_threshold =
  sk_keys :: "signing_public_key list"
  sk_threshold :: nat

record hosting_participant =
  participant_uid :: string
  permission :: int
  onboarding :: "unit option"

record party_to_participant =
  p2p_party :: string
  p2p_threshold :: nat
  p2p_participants :: "hosting_participant list"
  p2p_signing_keys :: "signing_keys_with_threshold option"

record namespace_definition =
  decentralized_namespace :: string
  dns_threshold :: int
  dns_owners :: "string list"

record party_to_key_mapping =
  p2k_party :: string
  p2k_threshold :: nat
  p2k_signing_keys :: "signing_public_key list"

text \<open>Of the kinds of mapping only two are ever signed; the others keep their name.\<close>

datatype mapping =
    DecentralizedNamespaceDefinition namespace_definition
  | PartyToParticipant party_to_participant
  | OtherMapping string

record topology_transaction =
  operation :: int
  tx_serial :: nat
  tx_mapping :: "mapping option"

record proto =
  proto_varint :: varint
  dec_signed :: "bytes \<Rightarrow> bytes option"
  dec_untyped :: "bytes \<Rightarrow> bytes option option"
  dec_transaction :: "bytes \<Rightarrow> topology_transaction option"
  dec_key :: "bytes \<Rightarrow> signing_public_key option"
  spki_key :: "bytes \<Rightarrow> bytes option"
  op_add_replace :: int
  perm_confirmation :: int
  usage_namespace :: int
  usage_protocol :: int
  format_spki :: int
  spec_ed25519 :: int
  proto_hex :: hexlib
  proto_sha256 :: "bytes \<Rightarrow> bytes"

section \<open>Fingerprints\<close>

text \<open>Only an Ed25519 key in SPKI form is hashed by its raw key; a key that does not parse falls
  back to the bytes as they are.\<close>

definition fingerprint_data :: "proto \<Rightarrow> signing_public_key \<Rightarrow> bytes" where
  "fingerprint_data P key =
     (if key_format key = format_spki P \<and> key_spec key = spec_ed25519 P
      then (case spki_key P (public_key key) of Some raw \<Rightarrow> raw | None \<Rightarrow> public_key key)
      else public_key key)"

definition compute_fingerprint :: "proto \<Rightarrow> signing_public_key \<Rightarrow> fingerprint" where
  "compute_fingerprint P key = fingerprint_from_public_key (proto_hex P) (proto_sha256 P) (fingerprint_data P key)"

definition PURPOSE_DECENTRALIZED_NAMESPACE :: nat where "PURPOSE_DECENTRALIZED_NAMESPACE = 37"

text \<open>The bytes fed to the hasher; the length is cast to \<open>i32\<close> and written big-endian.\<close>

definition namespace_preimage :: "string set \<Rightarrow> bytes" where
  "namespace_preimage namespaces = be_bytes 4 PURPOSE_DECENTRALIZED_NAMESPACE
     @ concat (map (\<lambda>n. be_bytes 4 (length (str_bytes n)) @ str_bytes n) (sorted_list_of_set namespaces))"

definition compute_decentralized_namespace :: "proto \<Rightarrow> string set \<Rightarrow> string" where
  "compute_decentralized_namespace P namespaces =
     MULTIHASH_SHA256_PREFIX @ hex_encode (proto_hex P) (proto_sha256 P (namespace_preimage namespaces))"

section \<open>Decoding\<close>

datatype topo_error =
    NotFramed frame_error
  | NoEnvelope
  | NoWrapperData
  | NoTransaction
  | NotAddReplace int
  | NoMapping
  | NotNamespaceDefinition
  | NotPartyToParticipant
  | BadVarint
  | TruncatedKey nat
  | BadKey
  | ApiError string
  | V31Mapping
  | SerialOutOfRange int
  | RowsWithoutContext nat
  | NoP2pMapping string
  | NoNamespaceHead string
  | NamespaceNotFound string
  | SerialTaken nat
  | HeadMoved nat nat
  | NotDnsOrP2p
  | OtherParty
  | NoInlineKeys
  | UnusableThreshold
  | DuplicateInlineKeys
  | InvalidSerial int

definition decode_versioned :: "proto \<Rightarrow> (bytes \<Rightarrow> 'm option) \<Rightarrow> bytes \<Rightarrow> topo_error + 'm" where
  "decode_versioned P dec bs =
     and_then (ok_or NoEnvelope (dec_untyped P bs)) (\<lambda>w.
     and_then (ok_or NoWrapperData w) (\<lambda>inner. ok_or NoTransaction (dec inner)))"

definition decode_add_replace :: "proto \<Rightarrow> bytes \<Rightarrow> topo_error + topology_transaction" where
  "decode_add_replace P bs =
     and_then (map_err NotFramed (read_first_message_from_bytes (proto_varint P) (dec_signed P) bs)) (\<lambda>signed.
     and_then (decode_versioned P (dec_transaction P) signed) (\<lambda>tx.
       if operation tx \<noteq> op_add_replace P then Inl (NotAddReplace (operation tx)) else Inr tx))"

definition decode_topology_mapping :: "proto \<Rightarrow> bytes \<Rightarrow> topo_error + mapping" where
  "decode_topology_mapping P bs = and_then (decode_add_replace P bs) (\<lambda>tx. ok_or NoMapping (tx_mapping tx))"

definition decode_proposal_serial :: "proto \<Rightarrow> bytes \<Rightarrow> topo_error + nat" where
  "decode_proposal_serial P bs = and_then (decode_add_replace P bs) (\<lambda>tx. Inr (tx_serial tx))"

definition decode_namespace_definition :: "proto \<Rightarrow> bytes \<Rightarrow> topo_error + namespace_definition" where
  "decode_namespace_definition P bs = and_then (decode_topology_mapping P bs) (\<lambda>m. case m of
     DecentralizedNamespaceDefinition d \<Rightarrow> Inr d | _ \<Rightarrow> Inl NotNamespaceDefinition)"

definition decode_party_to_participant :: "proto \<Rightarrow> bytes \<Rightarrow> topo_error + party_to_participant" where
  "decode_party_to_participant P bs = and_then (decode_topology_mapping P bs) (\<lambda>m. case m of
     PartyToParticipant p \<Rightarrow> Inr p | _ \<Rightarrow> Inl NotPartyToParticipant)"

text \<open>The \<open>while\<close> loop of \<open>decode_keys_payload\<close>; the fuel is the length of the payload, and every
  round consumes at least the varint.\<close>

fun decode_keys_loop :: "nat \<Rightarrow> proto \<Rightarrow> bytes \<Rightarrow> topo_error + signing_public_key list" where
  "decode_keys_loop fuel P [] = Inr []"
| "decode_keys_loop 0 P (b # bs) = Inl BadVarint"
| "decode_keys_loop (Suc fuel) P (b # bs) =
    (case decode_varint (proto_varint P) (b # bs) of
       None \<Rightarrow> Inl BadVarint
     | Some (len, cursor) \<Rightarrow>
         if length cursor < len then Inl (TruncatedKey len)
         else and_then (ok_or BadKey (dec_key P (take len cursor))) (\<lambda>key.
              and_then (decode_keys_loop fuel P (drop len cursor)) (\<lambda>keys. Inr (key # keys))))"

definition decode_keys_payload :: "proto \<Rightarrow> bytes \<Rightarrow> topo_error + signing_public_key list" where
  "decode_keys_payload P bs = decode_keys_loop (length bs) P bs"

section \<open>Reads of the head state\<close>

text \<open>The participant's admin API (topology reads and the key vault) is a service: its answers are
  the fields of \<open>canton_api\<close>.  A row has an optional context (operation and serial) and an optional
  item; a vault entry is the signing key it carries, if it carries one.\<close>

record row_context =
  ctx_operation :: int
  ctx_serial :: int

datatype p2p_item = P2pV30 party_to_participant | P2pV31

record canton_api =
  list_party_to_participant :: "string \<Rightarrow> string \<Rightarrow> string + (row_context option \<times> p2p_item option) list"
  list_namespace_definition :: "string \<Rightarrow> string \<Rightarrow> string + (row_context option \<times> namespace_definition option) list"
  list_party_to_key_mapping :: "string \<Rightarrow> string \<Rightarrow> string + (row_context option \<times> party_to_key_mapping option) list"
  list_my_keys :: "string \<Rightarrow> string \<Rightarrow> int list \<Rightarrow> string + signing_public_key option list"

definition p2p_v30 :: "p2p_item \<Rightarrow> topo_error + party_to_participant" where
  "p2p_v30 item = (case item of P2pV30 m \<Rightarrow> Inr m | P2pV31 \<Rightarrow> Inl V31Mapping)"

text \<open>The loop of \<open>fetch_p2p_mapping_at_head_in\<close>: the first add-or-replace row of this very party,
  and the number of rows without context seen before it.\<close>

fun p2p_head_loop :: "proto \<Rightarrow> string \<Rightarrow> nat \<Rightarrow> (row_context option \<times> p2p_item option) list
    \<Rightarrow> topo_error + nat \<times> (int \<times> party_to_participant) option" where
  "p2p_head_loop P party without [] = Inr (without, None)"
| "p2p_head_loop P party without ((None, item) # rows) = p2p_head_loop P party (Suc without) rows"
| "p2p_head_loop P party without ((Some c, item) # rows) =
    (if ctx_operation c \<noteq> op_add_replace P then p2p_head_loop P party without rows
     else case item of
       None \<Rightarrow> p2p_head_loop P party without rows
     | Some i \<Rightarrow> and_then (p2p_v30 i) (\<lambda>candidate.
         if p2p_party candidate = party then Inr (without, Some (ctx_serial c, candidate))
         else p2p_head_loop P party without rows))"

definition fetch_p2p_mapping_at_head :: "proto \<Rightarrow> canton_api \<Rightarrow> string \<Rightarrow> canton_id
    \<Rightarrow> topo_error + nat \<times> party_to_participant" where
  "fetch_p2p_mapping_at_head P A sync party_id =
     (let party = canton_id_display (proto_hex P) party_id in
      and_then (map_err ApiError (list_party_to_participant A sync party)) (\<lambda>rows.
      and_then (p2p_head_loop P party 0 rows) (\<lambda>(without, found). case found of
        Some (serial, m) \<Rightarrow> and_then (ok_or (SerialOutOfRange serial) (u32_try_from serial)) (\<lambda>n. Inr (n, m))
      | None \<Rightarrow> if without > 0 then Inl (RowsWithoutContext without) else Inl (NoP2pMapping party))))"

definition fetch_p2p_mapping :: "proto \<Rightarrow> canton_api \<Rightarrow> string \<Rightarrow> canton_id \<Rightarrow> topo_error + party_to_participant" where
  "fetch_p2p_mapping P A sync party_id =
     and_then (fetch_p2p_mapping_at_head P A sync party_id) (\<lambda>(_, m). Inr m)"

text \<open>\<open>find_map\<close> over the rows: the first that is an add-or-replace with a wanted item.\<close>

fun find_row :: "proto \<Rightarrow> ('m \<Rightarrow> bool) \<Rightarrow> (row_context option \<times> 'm option) list \<Rightarrow> (int \<times> 'm) option" where
  "find_row P wanted [] = None"
| "find_row P wanted ((Some c, Some m) # rows) =
    (if ctx_operation c = op_add_replace P \<and> wanted m then Some (ctx_serial c, m) else find_row P wanted rows)"
| "find_row P wanted (r # rows) = find_row P wanted rows"

definition fetch_party_to_key_mapping :: "proto \<Rightarrow> canton_api \<Rightarrow> string \<Rightarrow> canton_id
    \<Rightarrow> topo_error + party_to_key_mapping option" where
  "fetch_party_to_key_mapping P A sync party_id =
     (let party = canton_id_display (proto_hex P) party_id in
      and_then (map_err ApiError (list_party_to_key_mapping A sync party)) (\<lambda>rows.
        Inr (map_option snd (find_row P (\<lambda>m. p2k_party m = party) rows))))"

definition fetch_namespace_definition_at_head :: "proto \<Rightarrow> canton_api \<Rightarrow> string \<Rightarrow> string
    \<Rightarrow> topo_error + nat \<times> namespace_definition" where
  "fetch_namespace_definition_at_head P A sync namespace_hex =
     and_then (map_err ApiError (list_namespace_definition A sync namespace_hex)) (\<lambda>rows.
     and_then (ok_or (NoNamespaceHead namespace_hex)
         (find_row P (\<lambda>d. decentralized_namespace d = namespace_hex) rows)) (\<lambda>(serial, d).
     and_then (ok_or (SerialOutOfRange serial) (u32_try_from serial)) (\<lambda>n. Inr (n, d))))"

text \<open>This older read takes the first row as it is, without looking at its operation or namespace.\<close>

definition fetch_namespace_definition :: "canton_api \<Rightarrow> string \<Rightarrow> string \<Rightarrow> topo_error + namespace_definition" where
  "fetch_namespace_definition A sync namespace_hex =
     and_then (map_err ApiError (list_namespace_definition A sync namespace_hex)) (\<lambda>rows.
       ok_or (NamespaceNotFound namespace_hex) (case rows of (_, item) # _ \<Rightarrow> item | [] \<Rightarrow> None))"

subsection \<open>Standing of a proposal\<close>

datatype standing = Next | InForce

definition proposal_standing :: "topology_transaction \<Rightarrow> topology_transaction option \<Rightarrow> topo_error + standing" where
  "proposal_standing proposal head =
     (if head = Some proposal then Inr InForce
      else let head_serial = (case head of Some h \<Rightarrow> tx_serial h | None \<Rightarrow> 0) in
        if u32_checked_add head_serial 1 = Some (tx_serial proposal) then Inr Next
        else if head_serial = tx_serial proposal then Inl (SerialTaken head_serial)
        else Inl (HeadMoved (tx_serial proposal) head_serial))"

subsection \<open>Retiring the legacy key mapping\<close>

definition validate_legacy_retirement :: "proto \<Rightarrow> party_to_participant \<Rightarrow> party_to_key_mapping \<Rightarrow> topo_error + unit" where
  "validate_legacy_retirement P p2p legacy =
     and_then (ensure (p2p_party p2p = p2k_party legacy) OtherParty) (\<lambda>_.
     and_then (ok_or NoInlineKeys (p2p_signing_keys p2p)) (\<lambda>keys.
       let distinct_fps = remdups (map (compute_fingerprint P) (sk_keys keys)) in
       and_then (ensure (0 < sk_threshold keys \<and> sk_threshold keys \<le> length distinct_fps) UnusableThreshold) (\<lambda>_.
         ensure (length distinct_fps = length (sk_keys keys)) DuplicateInlineKeys)))"

text \<open>The proposal that removes the mapping, at the next serial of the \<open>i32\<close> it carries.\<close>

definition legacy_retirement_request :: "proto \<Rightarrow> int \<Rightarrow> party_to_key_mapping \<Rightarrow> topo_error + nat \<times> party_to_key_mapping" where
  "legacy_retirement_request P serial m =
     and_then (ensure (serial > 0) (InvalidSerial serial)) (\<lambda>_.
     and_then (ok_or (SerialOutOfRange serial) (if serial + 1 \<le> int i32_max then Some (serial + 1) else None)) (\<lambda>s.
     and_then (ok_or (SerialOutOfRange s) (u32_try_from s)) (\<lambda>n. Inr (n, m))))"

section \<open>Thresholds\<close>

record party_thresholds =
  th_namespace :: int
  th_confirmation :: int

definition party_thresholds_new :: "int \<Rightarrow> int option \<Rightarrow> party_thresholds" where
  "party_thresholds_new n c = \<lparr>th_namespace = n, th_confirmation = (case c of Some x \<Rightarrow> x | None \<Rightarrow> n)\<rparr>"

datatype threshold_error =
    NegativeThreshold
  | StaleCache int int int
  | TooManyHosts
  | ConfirmationOutOfRange int nat

definition thresholds_party_to_participant :: "party_thresholds \<Rightarrow> string \<Rightarrow> hosting_participant list
    \<Rightarrow> signing_public_key list \<Rightarrow> threshold_error + party_to_participant" where
  "thresholds_party_to_participant t party hosts keys =
     and_then (ok_or NegativeThreshold (u32_try_from (th_confirmation t))) (\<lambda>c.
     and_then (ok_or NegativeThreshold (u32_try_from (th_namespace t))) (\<lambda>n.
       Inr \<lparr>p2p_party = party, p2p_threshold = c, p2p_participants = hosts,
            p2p_signing_keys = Some \<lparr>sk_keys = keys, sk_threshold = n\<rparr>\<rparr>))"

definition carried_confirmation_threshold :: "party_thresholds \<Rightarrow> nat \<Rightarrow> int option" where
  "carried_confirmation_threshold cur host_count =
     (if th_confirmation cur = th_namespace cur then None
      else let hosts = (case i32_try_from host_count of Some h \<Rightarrow> h | None \<Rightarrow> int i32_max)
           in Some (min (th_confirmation cur) hosts))"

definition ensure_carried_from :: "party_thresholds \<Rightarrow> nat \<Rightarrow> party_thresholds \<Rightarrow> threshold_error + unit" where
  "ensure_carried_from on_chain host_count planned =
     (let expected = (case carried_confirmation_threshold on_chain host_count of
                        Some c \<Rightarrow> c | None \<Rightarrow> th_namespace planned) in
      if expected \<noteq> th_confirmation planned
      then Inl (StaleCache (th_confirmation on_chain) expected (th_confirmation planned)) else Inr ())"

definition check_confirmation_threshold :: "int \<Rightarrow> nat \<Rightarrow> threshold_error + unit" where
  "check_confirmation_threshold confirmation host_count =
     and_then (ok_or TooManyHosts (i32_try_from host_count)) (\<lambda>hosts.
       if \<not> (1 \<le> confirmation \<and> confirmation \<le> hosts) then Inl (ConfirmationOutOfRange confirmation host_count)
       else Inr ())"

section \<open>Lemmas\<close>

lemma encode_length_prefixed_inj:
  assumes "\<forall>x\<in>set xs. length x < 2 ^ 32" "\<forall>y\<in>set ys. length y < 2 ^ 32"
    and "encode_length_prefixed xs = encode_length_prefixed ys"
  shows "xs = ys"
  using assms
proof (induction xs arbitrary: ys)
  case Nil
  then show ?case by (cases ys) (auto dest: arg_cong [of _ _ length])
next
  case (Cons x xs)
  obtain y ys' where ys: "ys = y # ys'"
    using Cons.prems(3) by (cases ys) (auto dest: arg_cong [of _ _ length])
  let ?e = "be_bytes 4 (length x) @ x @ encode_length_prefixed xs"
  let ?f = "be_bytes 4 (length y) @ y @ encode_length_prefixed ys'"
  have eq: "?e = ?f" using Cons.prems(3) ys by simp
  have "take 4 ?e = be_bytes 4 (length x)" "take 4 ?f = be_bytes 4 (length y)" by simp_all
  then have "be_nat (be_bytes 4 (length x)) = be_nat (be_bytes 4 (length y))" using eq by simp
  then have len: "length x = length y" using Cons.prems(1,2) ys by simp
  then have "x = y" "encode_length_prefixed xs = encode_length_prefixed ys'" using eq by auto
  then show ?case using Cons ys by simp
qed

lemma namespace_preimage_alt:
  "namespace_preimage N = be_bytes 4 37 @ encode_length_prefixed (map str_bytes (sorted_list_of_set N))"
  by (simp add: namespace_preimage_def encode_length_prefixed_def PURPOSE_DECENTRALIZED_NAMESPACE_def comp_def)

lemma map_str_bytes_inj: "map str_bytes xs = map str_bytes ys \<longleftrightarrow> xs = ys"
  using inj_map_eq_map [of str_bytes] by (simp add: inj_def str_bytes_inj)

lemma p2p_head_loop_found:
  "p2p_head_loop P party w rows = Inr (w', Some (serial, m)) \<Longrightarrow>
     p2p_party m = party \<and> (\<exists>c. (Some c, Some (P2pV30 m)) \<in> set rows \<and> ctx_operation c = op_add_replace P \<and> ctx_serial c = serial)"
proof (induction rows arbitrary: w)
  case (Cons r rows)
  obtain oc item where r: "r = (oc, item)" by (cases r)
  show ?case
  proof (cases oc)
    case None
    then show ?thesis using Cons r by auto
  next
    case (Some c)
    have IH: ?thesis if "p2p_head_loop P party w rows = Inr (w', Some (serial, m))" using Cons.IH [OF that] by auto
    show ?thesis
    proof (cases "p2p_head_loop P party w rows = Inr (w', Some (serial, m))")
      case False
      then show ?thesis using Cons.prems r Some
        by (auto simp: p2p_v30_def and_then_Inr_iff split: if_splits option.splits p2p_item.splits)
    qed (rule IH)
  qed
qed simp

lemma find_row_found:
  "find_row P wanted rows = Some (serial, m) \<Longrightarrow>
     wanted m \<and> (\<exists>c. (Some c, Some m) \<in> set rows \<and> ctx_operation c = op_add_replace P \<and> ctx_serial c = serial)"
  by (induction P wanted rows rule: find_row.induct) (auto split: if_splits)

lemma u32_try_from_nonneg: "u32_try_from i = Some n \<Longrightarrow> i = int n \<and> n \<le> u32_max"
  by (auto simp: u32_try_from_def split: if_splits)

lemma decode_add_replace_op: "decode_add_replace P bs = Inr tx \<Longrightarrow> operation tx = op_add_replace P"
  by (auto simp: decode_add_replace_def result_simps split: if_splits)

text \<open>A concrete instance of the parameters: identity envelopes, a given table of transactions, keys that
  are their own bytes, and a checksum in place of the hash.\<close>

definition example_key :: "bytes \<Rightarrow> signing_public_key" where
  "example_key bs = \<lparr>key_format = 0, public_key = bs, key_usage = [1], key_spec = 0, key_scheme = 0\<rparr>"

definition example_proto :: "(bytes \<Rightarrow> topology_transaction option) \<Rightarrow> proto" where
  "example_proto txs = \<lparr>proto_varint = leb128, dec_signed = Some, dec_untyped = (\<lambda>bs. Some (Some bs)),
     dec_transaction = txs, dec_key = (\<lambda>bs. Some (example_key bs)), spki_key = (\<lambda>_. None),
     op_add_replace = 1, perm_confirmation = 2, usage_namespace = 1, usage_protocol = 4, format_spki = 9,
     spec_ed25519 = 1, proto_hex = std_hex, proto_sha256 = (\<lambda>bs. drop 4 bs)\<rparr>"

definition example_api :: canton_api where
  "example_api = \<lparr>list_party_to_participant = (\<lambda>_ _. Inl ''unreachable''),
     list_namespace_definition = (\<lambda>_ n. Inr
       [(Some \<lparr>ctx_operation = 2, ctx_serial = 8\<rparr>, Some \<lparr>decentralized_namespace = n, dns_threshold = 1, dns_owners = []\<rparr>),
        (Some \<lparr>ctx_operation = 1, ctx_serial = 7\<rparr>, Some \<lparr>decentralized_namespace = n, dns_threshold = 2, dns_owners = [''a'']\<rparr>)]),
     list_party_to_key_mapping = (\<lambda>_ _. Inr []), list_my_keys = (\<lambda>_ _ _. Inr [])\<rparr>"

section \<open>Properties\<close>

text \<open>The bytes hashed into a decentralized namespace determine its owner set.  Two
  finite owner sets of names shorter than 4 GiB hash to the same namespace only if they are equal or SHA-256
  maps two different byte strings to one digest, so a namespace commits to its owners.\<close>

theorem namespace_binding:
  assumes "hex_codec (proto_hex P)" "finite A" "finite B" "\<forall>n\<in>A \<union> B. length n < 2 ^ 32"
    and "compute_decentralized_namespace P A = compute_decentralized_namespace P B"
  shows "A = B \<or> (\<exists>x y. x \<noteq> y \<and> proto_sha256 P x = proto_sha256 P y)"
proof -
  have "proto_sha256 P (namespace_preimage A) = proto_sha256 P (namespace_preimage B)"
    using assms(5) hex_codec.decode_encode [OF assms(1)]
    by (metis compute_decentralized_namespace_def append_same_eq same_append_eq option.inject)
  moreover have "A = B" if "namespace_preimage A = namespace_preimage B"
  proof -
    have "map str_bytes (sorted_list_of_set A) = map str_bytes (sorted_list_of_set B)"
      using that assms(2,3,4)
      by (intro encode_length_prefixed_inj) (auto simp: namespace_preimage_alt)
    then show ?thesis using assms(2,3) by (metis map_str_bytes_inj set_sorted_list_of_set)
  qed
  ultimately show ?thesis by blast
qed

theorem namespace_binding_witness:
  "{''a'', ''b''} = {''b'', ''a''} \<or>
     (\<exists>x y. x \<noteq> y \<and> proto_sha256 (example_proto (\<lambda>_. None)) x = proto_sha256 (example_proto (\<lambda>_. None)) y)"
proof -
  have h: "hex_codec (proto_hex (example_proto (\<lambda>_. None)))"
    unfolding example_proto_def proto.simps by (rule std.hex_codec_axioms)
  have "compute_decentralized_namespace (example_proto (\<lambda>_. None)) {''a'', ''b''} =
        compute_decentralized_namespace (example_proto (\<lambda>_. None)) {''b'', ''a''}"
    by (simp add: insert_commute)
  then show ?thesis by (intro namespace_binding [OF h]) simp_all
qed

text \<open>The reads the checks rest on return only what was asked for, whatever rows the
  participant lists.  A mapping, definition or legacy key mapping that is returned is the item of a listed
  add-or-replace row of that very party or namespace, and the serial is that row's, in \<open>u32\<close> range; and only
  add-or-replace transactions are ever decoded from a proposal.\<close>

theorem head_reads_pinned:
  "(fetch_p2p_mapping_at_head P A sync party = Inr (n, m) \<longrightarrow>
      p2p_party m = canton_id_display (proto_hex P) party \<and> n \<le> u32_max \<and>
      (\<exists>rows c. list_party_to_participant A sync (canton_id_display (proto_hex P) party) = Inr rows \<and>
         (Some c, Some (P2pV30 m)) \<in> set rows \<and> ctx_operation c = op_add_replace P \<and> ctx_serial c = int n)) \<and>
   (fetch_namespace_definition_at_head P A sync ns_hex = Inr (k, d) \<longrightarrow>
      decentralized_namespace d = ns_hex \<and> k \<le> u32_max \<and>
      (\<exists>rows c. list_namespace_definition A sync ns_hex = Inr rows \<and>
         (Some c, Some d) \<in> set rows \<and> ctx_operation c = op_add_replace P \<and> ctx_serial c = int k)) \<and>
   (fetch_party_to_key_mapping P A sync party = Inr (Some l) \<longrightarrow>
      p2k_party l = canton_id_display (proto_hex P) party \<and>
      (\<exists>rows c. list_party_to_key_mapping A sync (canton_id_display (proto_hex P) party) = Inr rows \<and>
         (Some c, Some l) \<in> set rows \<and> ctx_operation c = op_add_replace P)) \<and>
   (decode_add_replace P bs = Inr tx \<longrightarrow> operation tx = op_add_replace P)"
proof (intro conjI impI)
  assume "fetch_p2p_mapping_at_head P A sync party = Inr (n, m)"
  then obtain rows w serial where r: "list_party_to_participant A sync (canton_id_display (proto_hex P) party) = Inr rows"
    "p2p_head_loop P (canton_id_display (proto_hex P) party) 0 rows = Inr (w, Some (serial, m))" "u32_try_from serial = Some n"
    by (auto simp: fetch_p2p_mapping_at_head_def Let_def result_simps split: option.splits if_splits)
  then show "p2p_party m = canton_id_display (proto_hex P) party" "n \<le> u32_max"
    "\<exists>rows c. list_party_to_participant A sync (canton_id_display (proto_hex P) party) = Inr rows \<and>
         (Some c, Some (P2pV30 m)) \<in> set rows \<and> ctx_operation c = op_add_replace P \<and> ctx_serial c = int n"
    using p2p_head_loop_found u32_try_from_nonneg by blast+
next
  assume "fetch_namespace_definition_at_head P A sync ns_hex = Inr (k, d)"
  then obtain rows serial where r: "list_namespace_definition A sync ns_hex = Inr rows"
    "find_row P (\<lambda>d. decentralized_namespace d = ns_hex) rows = Some (serial, d)" "u32_try_from serial = Some k"
    by (auto simp: fetch_namespace_definition_at_head_def result_simps)
  then show "decentralized_namespace d = ns_hex" "k \<le> u32_max"
    "\<exists>rows c. list_namespace_definition A sync ns_hex = Inr rows \<and>
         (Some c, Some d) \<in> set rows \<and> ctx_operation c = op_add_replace P \<and> ctx_serial c = int k"
    using find_row_found [OF r(2)] u32_try_from_nonneg [OF r(3)] by auto
next
  assume "fetch_party_to_key_mapping P A sync party = Inr (Some l)"
  then obtain rows serial where r: "list_party_to_key_mapping A sync (canton_id_display (proto_hex P) party) = Inr rows"
    "find_row P (\<lambda>m. p2k_party m = canton_id_display (proto_hex P) party) rows = Some (serial, l)"
    by (auto simp: fetch_party_to_key_mapping_def Let_def result_simps)
  then show "p2k_party l = canton_id_display (proto_hex P) party"
    "\<exists>rows c. list_party_to_key_mapping A sync (canton_id_display (proto_hex P) party) = Inr rows \<and>
         (Some c, Some l) \<in> set rows \<and> ctx_operation c = op_add_replace P"
    using find_row_found [OF r(2)] by auto
qed (rule decode_add_replace_op)

theorem head_reads_pinned_witness:
  "fetch_namespace_definition_at_head (example_proto (\<lambda>_. None)) example_api ''sync'' ''ns'' =
     Inr (7, \<lparr>decentralized_namespace = ''ns'', dns_threshold = 2, dns_owners = [''a'']\<rparr>) \<and> (7::nat) \<le> u32_max"
proof -
  have r: "fetch_namespace_definition_at_head (example_proto (\<lambda>_. None)) example_api ''sync'' ''ns'' =
     Inr (7, \<lparr>decentralized_namespace = ''ns'', dns_threshold = 2, dns_owners = [''a'']\<rparr>)"
    by (simp add: fetch_namespace_definition_at_head_def example_api_def example_proto_def u32_try_from_def u32_max_def)
  then show ?thesis using head_reads_pinned [of "example_proto (\<lambda>_. None)" example_api "''sync''"] by blast
qed

end
