(* ===== verification/Signing_Keys.thy ===== *)
theory Signing_Keys
  imports Topology
begin

text \<open>
  Which member contributed which signing key: \<open>crates/decman/src/workflow/signing_keys.rs\<close>.

  The node's own records (run artefacts, identity rows and the cached participants of a party) are
  read from its database: the results of those reads are the fields of \<open>storage_reads\<close>.  The
  participant's API is the \<open>canton_api\<close> of \<open>Topology\<close>.
\<close>

section \<open>Definitions\<close>

record storage_reads =
  read_artifact :: "string \<Rightarrow> string \<Rightarrow> string option \<Rightarrow> string + bytes option"
  read_identity :: "canton_id \<Rightarrow> string \<Rightarrow> string \<Rightarrow> string + bytes option"
  list_identity :: "canton_id \<Rightarrow> string \<Rightarrow> string + (string \<times> bytes) list"
  dec_party_participants :: "canton_id \<Rightarrow> string + (string \<times> string option) list"

definition PEER_PUBLIC_KEYS :: string where "PEER_PUBLIC_KEYS = ''peer_public_keys''"

datatype signing_error =
    TopoError topo_error
  | StorageError string
  | VaultError string
  | CannotAttribute nat nat
  | NoKeysToRebuild
  | UnclaimedMembers "string list"
  | UnmatchedMembers "(string \<times> fingerprint) list"
  | DuplicatedMembers "(string \<times> fingerprint) list"

definition party_daml_key_name :: "string \<Rightarrow> string" where
  "party_daml_key_name party_id_prefix = party_id_prefix @ ''-daml-transactions''"

subsection \<open>The vault\<close>

definition vault_holds :: "canton_api \<Rightarrow> fingerprint \<Rightarrow> signing_error + bool" where
  "vault_holds A f = and_then (map_err VaultError (list_my_keys A (as_str f) [] [])) (\<lambda>ks. Inr (ks \<noteq> []))"

text \<open>A namespace definition that cannot be read means "not known", not an error.\<close>

definition own_namespace_key :: "proto \<Rightarrow> canton_api \<Rightarrow> canton_id \<Rightarrow> string \<Rightarrow> signing_error + signing_public_key option" where
  "own_namespace_key P A dec_party_id sync =
     (case fetch_namespace_definition A sync (namespace_to_hex (proto_hex P) (ns dec_party_id)) of
        Inl _ \<Rightarrow> Inr None
      | Inr d \<Rightarrow> and_then (map_err VaultError (list_my_keys A [] [] [usage_namespace P])) (\<lambda>metas.
          Inr (find (\<lambda>k. as_str (compute_fingerprint P k) \<in> set (dns_owners d)) (List.map_filter id metas))))"

fun held_keys :: "proto \<Rightarrow> canton_api \<Rightarrow> signing_public_key list \<Rightarrow> signing_error + signing_public_key list" where
  "held_keys P A [] = Inr []"
| "held_keys P A (k # ks) = and_then (vault_holds A (compute_fingerprint P k)) (\<lambda>h.
     and_then (held_keys P A ks) (\<lambda>r. Inr (if h then k # r else r)))"

text \<open>The vault steps of \<open>own_signing_key_fingerprint\<close>: the key named after the party, then the one
  of the candidates the vault holds, protocol keys first.\<close>

definition own_key_from_vault :: "proto \<Rightarrow> canton_api \<Rightarrow> canton_id \<Rightarrow> signing_public_key list
    \<Rightarrow> signing_error + fingerprint option" where
  "own_key_from_vault P A dec_party_id candidates =
     and_then (map_err VaultError (list_my_keys A [] (party_daml_key_name (prefix dec_party_id)) [usage_protocol P])) (\<lambda>metas.
       case List.map_filter id metas of
         k # _ \<Rightarrow> Inr (Some (compute_fingerprint P k))
       | [] \<Rightarrow> and_then (held_keys P A candidates) (\<lambda>held.
           let protocol = filter (\<lambda>k. usage_protocol P \<in> set (key_usage k)) held;
               considered = (if protocol = [] then held else protocol) in
           case considered of [] \<Rightarrow> Inr None | chosen # _ \<Rightarrow> Inr (Some (compute_fingerprint P chosen))))"

definition own_signing_key_fingerprint :: "proto \<Rightarrow> canton_api \<Rightarrow> storage_reads \<Rightarrow> canton_id \<Rightarrow> canton_id
    \<Rightarrow> signing_public_key list \<Rightarrow> signing_error + fingerprint option" where
  "own_signing_key_fingerprint P A S self_id dec_party_id candidates =
     and_then (map_err StorageError (read_identity S dec_party_id PEER_PUBLIC_KEYS (canton_id_display (proto_hex P) self_id))) (\<lambda>row.
       case row of
         None \<Rightarrow> own_key_from_vault P A dec_party_id candidates
       | Some blob \<Rightarrow> and_then (map_err TopoError (decode_keys_payload P blob)) (\<lambda>keys.
           if length keys = 2 then Inr (Some (compute_fingerprint P (keys ! 1)))
           else own_key_from_vault P A dec_party_id candidates))"

subsection \<open>Attribution\<close>

text \<open>The fingerprints participants reported, then the identity rows on top of them.  Rows that do
  not parse are skipped.\<close>

definition reported_claims :: "(string \<times> string option) list \<Rightarrow> string \<rightharpoonup> fingerprint" where
  "reported_claims rows = fold (\<lambda>(uid, stored) m. case stored of
      None \<Rightarrow> m
    | Some s \<Rightarrow> (case fingerprint_try_from s of Inr f \<Rightarrow> m(uid \<mapsto> f) | Inl _ \<Rightarrow> m)) rows Map.empty"

definition identity_claims :: "proto \<Rightarrow> (string \<times> bytes) list \<Rightarrow> (string \<rightharpoonup> fingerprint) \<Rightarrow> string \<rightharpoonup> fingerprint" where
  "identity_claims P rows claims = fold (\<lambda>(peer, blob) m. case decode_keys_payload P blob of
      Inr keys \<Rightarrow> if length keys = 2 then m(peer \<mapsto> compute_fingerprint P (keys ! 1)) else m
    | Inl _ \<Rightarrow> m) rows claims"

definition known_signing_keys_by_member :: "proto \<Rightarrow> canton_api \<Rightarrow> storage_reads \<Rightarrow> canton_id \<Rightarrow> canton_id
    \<Rightarrow> signing_public_key list \<Rightarrow> signing_error + (string \<rightharpoonup> fingerprint)" where
  "known_signing_keys_by_member P A S self_id dec_party_id candidates =
     and_then (map_err StorageError (dec_party_participants S dec_party_id)) (\<lambda>participants.
     and_then (map_err StorageError (list_identity S dec_party_id PEER_PUBLIC_KEYS)) (\<lambda>rows.
       let claims = identity_claims P rows (reported_claims participants);
           me = canton_id_display (proto_hex P) self_id in
       case claims me of
         Some _ \<Rightarrow> Inr claims
       | None \<Rightarrow> and_then (own_signing_key_fingerprint P A S self_id dec_party_id candidates) (\<lambda>own.
           Inr (case own of Some f \<Rightarrow> claims(me \<mapsto> f) | None \<Rightarrow> claims))))"

definition signing_keys_without_member :: "proto \<Rightarrow> signing_public_key list \<Rightarrow> string \<Rightarrow> string list
    \<Rightarrow> (string \<rightharpoonup> fingerprint) \<Rightarrow> signing_error + signing_public_key list" where
  "signing_keys_without_member P current removed survivors claims =
     (let fps = map (compute_fingerprint P) current;
          drop_key = (\<lambda>target. filter (\<lambda>k. compute_fingerprint P k \<noteq> target) current);
          by_elimination =
            (let survivor_claims = List.map_filter claims survivors;
                 unclaimed = filter (\<lambda>f. f \<notin> set survivor_claims) fps in
             case unclaimed of
               [] \<Rightarrow> Inr current
             | [f] \<Rightarrow> Inr (drop_key f)
             | _ \<Rightarrow> Inl (CannotAttribute (length fps) (length unclaimed))) in
      case claims removed of
        Some f \<Rightarrow> if f \<in> set fps then Inr (drop_key f) else by_elimination
      | None \<Rightarrow> by_elimination)"

record adoption =
  ad_keys :: "signing_public_key list"
  ad_taken :: "fingerprint list"
  ad_unclaimed :: "string list"
  ad_unmatched :: "(string \<times> fingerprint) list"
  ad_duplicated :: "(string \<times> fingerprint) list"

text \<open>Collecting into a \<open>HashMap\<close> keeps the last key of a fingerprint.\<close>

definition by_fingerprint :: "proto \<Rightarrow> signing_public_key list \<Rightarrow> fingerprint \<rightharpoonup> signing_public_key" where
  "by_fingerprint P ks = map_of (rev (map (\<lambda>k. (compute_fingerprint P k, k)) ks))"

definition adopt_member :: "(fingerprint \<rightharpoonup> signing_public_key) \<Rightarrow> (string \<rightharpoonup> fingerprint) \<Rightarrow> string \<Rightarrow> adoption \<Rightarrow> adoption" where
  "adopt_member keymap claims member a =
     (case claims member of
        None \<Rightarrow> a\<lparr>ad_unclaimed := ad_unclaimed a @ [member]\<rparr>
      | Some f \<Rightarrow> (case keymap f of
          Some key \<Rightarrow> if f \<notin> set (ad_taken a)
            then a\<lparr>ad_taken := f # ad_taken a, ad_keys := ad_keys a @ [key]\<rparr>
            else a\<lparr>ad_duplicated := ad_duplicated a @ [(member, f)]\<rparr>
        | None \<Rightarrow> a\<lparr>ad_unmatched := ad_unmatched a @ [(member, f)]\<rparr>))"

definition legacy_signing_keys_for_members :: "proto \<Rightarrow> signing_public_key list \<Rightarrow> string list
    \<Rightarrow> (string \<rightharpoonup> fingerprint) \<Rightarrow> signing_error + signing_public_key list" where
  "legacy_signing_keys_for_members P legacy_keys members claims =
     (let a = fold (adopt_member (by_fingerprint P legacy_keys) claims) members
                \<lparr>ad_keys = [], ad_taken = [], ad_unclaimed = [], ad_unmatched = [], ad_duplicated = []\<rparr> in
      if ad_unclaimed a \<noteq> [] then Inl (UnclaimedMembers (ad_unclaimed a))
      else if ad_unmatched a \<noteq> [] then Inl (UnmatchedMembers (ad_unmatched a))
      else if ad_duplicated a \<noteq> [] then Inl (DuplicatedMembers (ad_duplicated a))
      else Inr (ad_keys a))"

text \<open>The candidates of a rebuilt key set: the legacy keys, then the inline keys not among them.\<close>

fun push_unseen :: "proto \<Rightarrow> signing_public_key list \<Rightarrow> signing_public_key list \<Rightarrow> signing_public_key list" where
  "push_unseen P acc [] = acc"
| "push_unseen P acc (k # ks) =
    push_unseen P (if compute_fingerprint P k \<in> compute_fingerprint P ` set acc then acc else acc @ [k]) ks"

definition adopt_legacy_signing_keys :: "proto \<Rightarrow> canton_api \<Rightarrow> storage_reads \<Rightarrow> canton_id \<Rightarrow> string \<Rightarrow> canton_id
    \<Rightarrow> string list \<Rightarrow> signing_public_key list \<Rightarrow> signing_error + signing_public_key list" where
  "adopt_legacy_signing_keys P A S self_id sync dec_party_id members inline =
     and_then (map_err TopoError (fetch_party_to_key_mapping P A sync dec_party_id)) (\<lambda>m.
       if m = None \<and> inline = [] then Inl NoKeysToRebuild
       else let candidates = push_unseen P (case m of Some l \<Rightarrow> p2k_signing_keys l | None \<Rightarrow> []) inline in
         and_then (known_signing_keys_by_member P A S self_id dec_party_id candidates) (\<lambda>claims.
           legacy_signing_keys_for_members P candidates members claims))"

section \<open>Lemmas\<close>

lemma by_fingerprint_Some:
  "by_fingerprint P ks f = Some k \<Longrightarrow> k \<in> set ks \<and> compute_fingerprint P k = f"
  unfolding by_fingerprint_def by (drule map_of_SomeD) auto

lemma by_fingerprint_dom: "by_fingerprint P ks f \<noteq> None \<longleftrightarrow> f \<in> compute_fingerprint P ` set ks"
proof -
  have "by_fingerprint P ks f = None \<longleftrightarrow> f \<notin> fst ` set (rev (map (\<lambda>k. (compute_fingerprint P k, k)) ks))"
    unfolding by_fingerprint_def by (rule map_of_eq_None_iff)
  then show ?thesis by (auto simp: image_iff)
qed

text \<open>A member that can be adopted has a claim, a key for it, and no one claimed the key before.\<close>

lemma adopt_member_clean:
  "(ad_unclaimed (adopt_member km cl m a) = [] \<and> ad_unmatched (adopt_member km cl m a) = [] \<and>
    ad_duplicated (adopt_member km cl m a) = []) \<longleftrightarrow>
   (ad_unclaimed a = [] \<and> ad_unmatched a = [] \<and> ad_duplicated a = [] \<and>
    (\<exists>f key. cl m = Some f \<and> km f = Some key \<and> f \<notin> set (ad_taken a)))"
  by (auto simp: adopt_member_def split: option.splits)

definition adoption_clean :: "adoption \<Rightarrow> bool" where
  "adoption_clean a \<longleftrightarrow> ad_unclaimed a = [] \<and> ad_unmatched a = [] \<and> ad_duplicated a = []"

lemma adopt_fold_clean:
  "adoption_clean (fold (adopt_member km cl) ms a) \<longleftrightarrow>
     adoption_clean a \<and> (\<forall>m\<in>set ms. \<exists>f key. cl m = Some f \<and> km f = Some key \<and> f \<notin> set (ad_taken a)) \<and>
     distinct (map cl ms)"
proof (induction ms arbitrary: a)
  case (Cons m ms)
  let ?b = "adopt_member km cl m a"
  have c: "adoption_clean ?b \<longleftrightarrow> adoption_clean a \<and> (\<exists>f key. cl m = Some f \<and> km f = Some key \<and> f \<notin> set (ad_taken a))"
    using adopt_member_clean [of km cl m a] by (auto simp: adoption_clean_def)
  show ?case
  proof (cases "\<exists>f key. cl m = Some f \<and> km f = Some key \<and> f \<notin> set (ad_taken a)")
    case True
    then obtain f key where f: "cl m = Some f" "km f = Some key" "f \<notin> set (ad_taken a)" by blast
    then have t: "ad_taken ?b = f # ad_taken a" by (simp add: adopt_member_def)
    have d: "(\<forall>n\<in>set ms. \<exists>g key. cl n = Some g \<and> km g = Some key \<and> g \<notin> set (f # ad_taken a)) \<longleftrightarrow>
             (\<forall>n\<in>set ms. \<exists>g key. cl n = Some g \<and> km g = Some key \<and> g \<notin> set (ad_taken a)) \<and> cl m \<notin> cl ` set ms"
      using f(1) by (force simp: image_iff)
    show ?thesis using c f d by (auto simp: Cons.IH t)
  next
    case False
    then have "\<not> adoption_clean ?b" using c by blast
    then show ?thesis using False by (simp only: fold.simps comp_apply Cons.IH) auto
  qed
qed simp

lemma adopt_fold_keys:
  "adoption_clean (fold (adopt_member km cl) ms a) \<Longrightarrow>
     ad_keys (fold (adopt_member km cl) ms a) = ad_keys a @ map (\<lambda>m. the (km (the (cl m)))) ms"
proof (induction ms arbitrary: a)
  case (Cons m ms)
  have "adoption_clean (adopt_member km cl m a)"
    using Cons.prems adopt_fold_clean [of km cl ms "adopt_member km cl m a"] by simp
  then have "ad_keys (adopt_member km cl m a) = ad_keys a @ [the (km (the (cl m)))]"
    by (auto simp: adoption_clean_def adopt_member_def split: option.splits if_splits)
  then show ?case using Cons by simp
qed simp

lemma adoption_result:
  "(if ad_unclaimed a \<noteq> [] then Inl (UnclaimedMembers (ad_unclaimed a))
    else if ad_unmatched a \<noteq> [] then Inl (UnmatchedMembers (ad_unmatched a))
    else if ad_duplicated a \<noteq> [] then Inl (DuplicatedMembers (ad_duplicated a))
    else Inr (ad_keys a)) = Inr keys \<longleftrightarrow> adoption_clean a \<and> keys = ad_keys a"
  by (auto simp: adoption_clean_def)

lemma legacy_adoption_Inr:
  "legacy_signing_keys_for_members P legacy members claims = Inr keys \<longleftrightarrow>
     (\<forall>m\<in>set members. \<exists>f key. claims m = Some f \<and> by_fingerprint P legacy f = Some key) \<and>
     distinct (map claims members) \<and> keys = map (\<lambda>m. the (by_fingerprint P legacy (the (claims m)))) members"
proof -
  let ?start = "\<lparr>ad_keys = [], ad_taken = [], ad_unclaimed = [], ad_unmatched = [], ad_duplicated = []\<rparr>"
  let ?a = "fold (adopt_member (by_fingerprint P legacy) claims) members ?start"
  have "legacy_signing_keys_for_members P legacy members claims = Inr keys \<longleftrightarrow> adoption_clean ?a \<and> keys = ad_keys ?a"
    unfolding legacy_signing_keys_for_members_def Let_def by (rule adoption_result)
  moreover have "adoption_clean ?start" by (simp add: adoption_clean_def)
  ultimately show ?thesis
    using adopt_fold_clean [of "by_fingerprint P legacy" claims members ?start]
      adopt_fold_keys [of "by_fingerprint P legacy" claims members ?start] by auto
qed

lemma list_cases_012: "xs = [] \<or> (\<exists>x. xs = [x]) \<or> (\<exists>x y ys. xs = x # y # ys)"
  by (cases xs; cases "tl xs") auto

lemma example_fingerprint:
  "compute_fingerprint (example_proto t) (example_key bs) = Fingerprint (MULTIHASH_SHA256_PREFIX @ std_encode bs)"
  by (simp add: compute_fingerprint_def fingerprint_data_def fingerprint_from_public_key_def from_sha256_def
      example_proto_def example_key_def std_hex_def)

lemma example_fingerprint_inj [simp]:
  "compute_fingerprint (example_proto t) (example_key bs) = compute_fingerprint (example_proto t) (example_key cs) \<longleftrightarrow> bs = cs"
  by (simp add: example_fingerprint) (metis std_decode_encode option.inject)

lemma map_filter_mem: "f \<in> set (List.map_filter g xs) \<longleftrightarrow> (\<exists>x\<in>set xs. g x = Some f)"
  by (induction xs) (auto simp: List.map_filter_simps split: option.splits)

section \<open>Properties\<close>



text \<open>Moving a legacy party's keys inline adopts exactly one key per current member.  It
  succeeds if and only if every member's claim is known, names a key of the legacy set, and no two members
  claim one key; the adopted keys are then keys of the legacy set, in member order, each the key its member
  claims, with distinct fingerprints and as many as members.\<close>

theorem legacy_adoption:
  "((\<exists>keys. legacy_signing_keys_for_members P legacy members claims = Inr keys) \<longleftrightarrow>
      (\<forall>m\<in>set members. \<exists>k\<in>set legacy. claims m = Some (compute_fingerprint P k)) \<and> distinct (map claims members)) \<and>
   (\<forall>keys. legacy_signing_keys_for_members P legacy members claims = Inr keys \<longrightarrow>
      set keys \<subseteq> set legacy \<and> length keys = length members \<and>
      map (\<lambda>k. Some (compute_fingerprint P k)) keys = map claims members \<and>
      distinct (map (compute_fingerprint P) keys))"
proof -
  have dom: "(\<exists>f key. claims m = Some f \<and> by_fingerprint P legacy f = Some key) \<longleftrightarrow>
      (\<exists>k\<in>set legacy. claims m = Some (compute_fingerprint P k))" for m
    using by_fingerprint_dom [of P legacy] by (cases "claims m") (auto simp: image_iff)
  have sound: "set keys \<subseteq> set legacy \<and> length keys = length members \<and>
      map (\<lambda>k. Some (compute_fingerprint P k)) keys = map claims members \<and>
      distinct (map (compute_fingerprint P) keys)"
    if r: "legacy_signing_keys_for_members P legacy members claims = Inr keys" for keys
  proof -
    let ?key = "\<lambda>m. the (by_fingerprint P legacy (the (claims m)))"
    have ms: "?key m \<in> set legacy \<and> Some (compute_fingerprint P (?key m)) = claims m" if "m \<in> set members" for m
      using r that by_fingerprint_Some [of P legacy] by (fastforce simp: legacy_adoption_Inr)
    have keys: "keys = map ?key members" and d: "distinct (map claims members)"
      using r by (auto simp: legacy_adoption_Inr)
    have m: "map (\<lambda>k. Some (compute_fingerprint P k)) keys = map claims members" using ms keys by simp
    then have "distinct (map Some (map (compute_fingerprint P) keys))" using d by (simp add: comp_def)
    then have "distinct (map (compute_fingerprint P) keys)" by (rule distinct_map [THEN iffD1, THEN conjunct1])
    then show ?thesis using ms keys m by auto
  qed
  have "(\<exists>keys. legacy_signing_keys_for_members P legacy members claims = Inr keys) \<longleftrightarrow>
      (\<forall>m\<in>set members. \<exists>k\<in>set legacy. claims m = Some (compute_fingerprint P k)) \<and> distinct (map claims members)"
    by (simp only: legacy_adoption_Inr dom) blast
  then show ?thesis using sound by blast
qed

theorem legacy_adoption_witness:
  "legacy_signing_keys_for_members (example_proto (\<lambda>_. None)) [example_key [1], example_key [2], example_key [3]]
     [''b'', ''a''] [''a'' \<mapsto> compute_fingerprint (example_proto (\<lambda>_. None)) (example_key [1]),
       ''b'' \<mapsto> compute_fingerprint (example_proto (\<lambda>_. None)) (example_key [3])] = Inr [example_key [3], example_key [1]] \<and>
   distinct (map (compute_fingerprint (example_proto (\<lambda>_. None))) [example_key [3], example_key [1]])"
proof -
  let ?P = "example_proto (\<lambda>_. None)"
  let ?c = "[''a'' \<mapsto> compute_fingerprint ?P (example_key [1]), ''b'' \<mapsto> compute_fingerprint ?P (example_key [3])]"
  have r: "legacy_signing_keys_for_members ?P [example_key [1], example_key [2], example_key [3]] [''b'', ''a''] ?c =
      Inr [example_key [3], example_key [1]]"
    by (simp add: legacy_signing_keys_for_members_def adopt_member_def by_fingerprint_def)
  then show ?thesis
    using legacy_adoption [of ?P "[example_key [1], example_key [2], example_key [3]]" "[''b'', ''a'']" ?c] by blast
qed

end
