(* ===== verification/Validation.thy ===== *)
theory Validation
  imports Signing_Keys
begin

text \<open>
  What a peer checks before it signs: \<open>crates/decman/src/workflow/validation.rs\<close>.

  \<open>peer_expectations\<close> is the invitation the operator accepted.  Everything the checks read besides
  it is in \<open>node\<close>: the codecs, the participant's API, the node's own records and the synchronizer
  id.  Each \<open>bail!\<close> is a constructor of \<open>val_error\<close>; a check that accepts returns \<open>Inr\<close>.
  \<open>BTreeSet\<close>s are sets and their \<open>len\<close> is \<open>card\<close>.
\<close>

section \<open>The accepted invitation\<close>

datatype when_unrecorded = Fail | Skip

record contract_deployment_intent =
  intent_package_id :: string
  intent_module_name :: string
  intent_entity_name :: string
  intent_argument_hash :: string

record peer_expectations =
  ex_kind :: workflow_kind
  contract_intents :: "contract_deployment_intent list"
  members :: "canton_id set"
  dec_party_id :: "canton_id option"
  ex_prefix :: "string option"
  ex_threshold :: "int option"
  confirmation_threshold :: "int option"
  kicked_participant :: "canton_id option"
  new_participant :: "canton_id option"
  dar_filenames :: "string list"
  dar_hashes :: "string list"
  self_id :: canton_id

record peer_run_config =
  cfg_contract_intents :: "contract_deployment_intent list"
  cfg_prefix :: "string option"
  cfg_participants :: "canton_id list"
  cfg_dar_filenames :: "string list"
  cfg_dar_hashes :: "string list"
  cfg_participant_id :: "canton_id option"
  cfg_new_participant_id :: "canton_id option"
  cfg_new_threshold :: "int option"
  cfg_confirmation_threshold :: "int option"

record peer_run =
  pr_kind :: workflow_kind
  pr_dec_party_id :: "canton_id option"
  pr_config_json :: string

record node =
  nd_proto :: proto
  nd_api :: canton_api
  nd_storage :: storage_reads
  nd_sync :: "string + string"

datatype val_error =
    NoRun
  | DbError string
  | BadInvitation
  | NoPrefix
  | PrefixMismatch string
  | Undecodable topo_error
  | BadId id_error
  | RepeatedOwner
  | OwnerCount nat nat
  | OwnKeysUnrecorded
  | OwnNamespaceMissing string
  | NamespaceNotHash string
  | NoDnsNamespace
  | NamespaceMismatch string
  | NoDecParty
  | WrongParty string
  | NoNewMemberKeys
  | KeyBundleSize nat
  | StillOnboarding string
  | DarsNotNamed nat
  | DarNamedTwice
  | DarSentTwice
  | DarUnexpected
  | DarMissing
  | DarHashCount nat nat
  | NoAcceptedHash string
  | DarHashMismatch string
  | OtherDecParty canton_id
  | NoNewParticipant
  | OtherNewParticipant canton_id
  | RepeatedHost canton_id
  | BadPermission canton_id int
  | HostSetMismatch
  | SelfNotHosted
  | KickedStillHosted
  | AddedNotHosted
  | BadMarker canton_id
  | ThresholdNotI32 nat
  | ThresholdRange int
  | ThresholdMismatch int int
  | NoAcceptedThreshold
  | NoSigningKeys
  | KeyCount nat nat
  | OwnDamlKeyMissing
  | VaultHoldsNone
  | Signing signing_error
  | SyncError string
  | OwnersUnreadable topo_error
  | KeysUnreadable topo_error
  | NoKeysAtAll
  | SerialReused nat
  | NotNextSerial nat nat
  | RepeatedEntry
  | NoDelta workflow_kind
  | TooManyAdded nat
  | WrongRemoved nat
  | StrangerAdded
  | NewMemberMissing

definition load_expectations :: "(string \<Rightarrow> string + peer_run option) \<Rightarrow> (string \<Rightarrow> peer_run_config option)
    \<Rightarrow> canton_id \<Rightarrow> string \<Rightarrow> canton_id \<Rightarrow> val_error + peer_expectations" where
  "load_expectations get_workflow_run from_json own_id instance_name coordinator_id =
     and_then (map_err DbError (get_workflow_run instance_name)) (\<lambda>row.
     and_then (ok_or NoRun row) (\<lambda>run.
     and_then (ok_or BadInvitation (from_json (pr_config_json run))) (\<lambda>config.
       Inr \<lparr>ex_kind = pr_kind run, contract_intents = cfg_contract_intents config,
            members = insert coordinator_id (set (cfg_participants config)),
            dec_party_id = pr_dec_party_id run, ex_prefix = cfg_prefix config,
            ex_threshold = cfg_new_threshold config,
            confirmation_threshold = cfg_confirmation_threshold config,
            kicked_participant = cfg_participant_id config,
            new_participant = cfg_new_participant_id config,
            dar_filenames = cfg_dar_filenames config, dar_hashes = cfg_dar_hashes config,
            self_id = own_id\<rparr>)))"

section \<open>Checks of a mapping against the invitation\<close>

definition check_onboarding_config :: "peer_expectations \<Rightarrow> string \<Rightarrow> val_error + unit" where
  "check_onboarding_config ex party_id_prefix =
     (case ex_prefix ex of
        None \<Rightarrow> Inl NoPrefix
      | Some accepted \<Rightarrow> if accepted \<noteq> party_id_prefix then Inl (PrefixMismatch party_id_prefix) else Inr ())"

definition check_threshold_against :: "peer_expectations \<Rightarrow> int \<Rightarrow> nat \<Rightarrow> int option \<Rightarrow> val_error + unit" where
  "check_threshold_against ex t owner_count expected =
     and_then (ok_or (ThresholdNotI32 owner_count) (i32_try_from owner_count)) (\<lambda>count.
       if \<not> (1 \<le> t \<and> t \<le> count) then Inl (ThresholdRange t)
       else case expected of
         Some e \<Rightarrow> if e \<noteq> t then Inl (ThresholdMismatch t e) else Inr ()
       | None \<Rightarrow> if ex_kind ex = Onboarding then Inr () else Inl NoAcceptedThreshold)"

definition check_threshold :: "peer_expectations \<Rightarrow> int \<Rightarrow> nat \<Rightarrow> val_error + unit" where
  "check_threshold ex t owner_count = check_threshold_against ex t owner_count (ex_threshold ex)"

text \<open>The loop over the hosts: every uid parses, none repeats, all host at \<open>Confirmation\<close>.\<close>

fun collect_hosts :: "proto \<Rightarrow> hosting_participant list \<Rightarrow> canton_id set \<Rightarrow> val_error + canton_id set" where
  "collect_hosts P [] hosts = Inr hosts"
| "collect_hosts P (p # ps) hosts =
    and_then (map_err BadId (canton_id_parse (proto_hex P) (participant_uid p))) (\<lambda>i.
      if i \<in> hosts then Inl (RepeatedHost i)
      else if permission p \<noteq> perm_confirmation P then Inl (BadPermission i (permission p))
      else collect_hosts P ps (insert i hosts))"

definition check_p2p_membership :: "proto \<Rightarrow> peer_expectations \<Rightarrow> party_to_participant \<Rightarrow> val_error + unit" where
  "check_p2p_membership P ex m =
     and_then (collect_hosts P (p2p_participants m) {}) (\<lambda>hosts.
       if hosts \<noteq> members ex then Inl HostSetMismatch
       else if self_id ex \<notin> hosts then Inl SelfNotHosted
       else if (case kicked_participant ex of Some k \<Rightarrow> k \<in> hosts | None \<Rightarrow> False) then Inl KickedStillHosted
       else if (case new_participant ex of Some a \<Rightarrow> a \<notin> hosts | None \<Rightarrow> False) then Inl AddedNotHosted
       else Inr ())"

fun check_onboarding_markers :: "proto \<Rightarrow> peer_expectations \<Rightarrow> hosting_participant list \<Rightarrow> val_error + unit" where
  "check_onboarding_markers P ex [] = Inr ()"
| "check_onboarding_markers P ex (p # ps) =
    and_then (map_err BadId (canton_id_parse (proto_hex P) (participant_uid p))) (\<lambda>i.
      if (onboarding p \<noteq> None) \<noteq> (new_participant ex = Some i) then Inl (BadMarker i)
      else check_onboarding_markers P ex ps)"

definition check_p2p_thresholds :: "peer_expectations \<Rightarrow> party_to_participant \<Rightarrow> val_error + unit" where
  "check_p2p_thresholds ex m =
     and_then (ok_or (ThresholdNotI32 (p2p_threshold m)) (i32_try_from (p2p_threshold m))) (\<lambda>t.
     and_then (check_threshold_against ex t (card (members ex))
         (case confirmation_threshold ex of Some c \<Rightarrow> Some c | None \<Rightarrow> ex_threshold ex)) (\<lambda>_.
     and_then (ok_or NoSigningKeys (p2p_signing_keys m)) (\<lambda>keys.
     and_then (ok_or (ThresholdNotI32 (sk_threshold keys)) (i32_try_from (sk_threshold keys))) (\<lambda>s.
     and_then (check_threshold ex s (card (members ex))) (\<lambda>_.
       if length (sk_keys keys) \<noteq> card (members ex)
       then Inl (KeyCount (length (sk_keys keys)) (card (members ex))) else Inr ())))))"

section \<open>The node's own keys\<close>

definition own_keys :: "peer_expectations \<Rightarrow> node \<Rightarrow> string \<Rightarrow> val_error + signing_public_key list option" where
  "own_keys ex nd instance_name =
     (let me = canton_id_display (proto_hex (nd_proto nd)) (self_id ex) in
      and_then (and_then (map_err DbError (read_artifact (nd_storage nd) instance_name PEER_PUBLIC_KEYS (Some me))) (\<lambda>a.
          case a of
            Some blob \<Rightarrow> Inr (Some blob)
          | None \<Rightarrow> (case dec_party_id ex of
              Some d \<Rightarrow> map_err DbError (read_identity (nd_storage nd) d PEER_PUBLIC_KEYS me)
            | None \<Rightarrow> Inr None))) (\<lambda>stored.
        case stored of
          None \<Rightarrow> Inr None
        | Some blob \<Rightarrow> and_then (map_err Undecodable (decode_keys_payload (nd_proto nd) blob)) (\<lambda>keys.
            if length keys \<noteq> 2 then Inl (KeyBundleSize (length keys)) else Inr (Some keys))))"

definition namespace_fingerprint :: "proto \<Rightarrow> signing_public_key list \<Rightarrow> fingerprint option" where
  "namespace_fingerprint P keys = (case keys of
     [] \<Rightarrow> None
   | key # _ \<Rightarrow> if usage_namespace P \<notin> set (key_usage key) then None else Some (compute_fingerprint P key))"

definition own_namespace :: "peer_expectations \<Rightarrow> node \<Rightarrow> string \<Rightarrow> val_error + fingerprint option" where
  "own_namespace ex nd instance_name =
     and_then (own_keys ex nd instance_name) (\<lambda>keys.
       case (case keys of Some ks \<Rightarrow> namespace_fingerprint (nd_proto nd) ks | None \<Rightarrow> None) of
         Some f \<Rightarrow> Inr (Some f)
       | None \<Rightarrow> (case dec_party_id ex of
           None \<Rightarrow> Inr None
         | Some d \<Rightarrow> and_then (map_err SyncError (nd_sync nd)) (\<lambda>sync.
             and_then (map_err Signing (own_namespace_key (nd_proto nd) (nd_api nd) d sync)) (\<lambda>key.
               Inr (map_option (compute_fingerprint (nd_proto nd)) key)))))"

fun vault_holds_any :: "proto \<Rightarrow> canton_api \<Rightarrow> signing_public_key list \<Rightarrow> val_error + unit" where
  "vault_holds_any P A [] = Inl VaultHoldsNone"
| "vault_holds_any P A (k # ks) =
    and_then (map_err Signing (vault_holds A (compute_fingerprint P k))) (\<lambda>h.
      if h then Inr () else vault_holds_any P A ks)"

definition check_vault_holds_a_party_key :: "node \<Rightarrow> party_to_participant \<Rightarrow> val_error + unit" where
  "check_vault_holds_a_party_key nd m =
     and_then (ok_or NoSigningKeys (p2p_signing_keys m)) (\<lambda>keys.
       vault_holds_any (nd_proto nd) (nd_api nd) (sk_keys keys))"

definition check_own_daml_key :: "peer_expectations \<Rightarrow> node \<Rightarrow> string \<Rightarrow> party_to_participant \<Rightarrow> when_unrecorded \<Rightarrow> val_error + unit" where
  "check_own_daml_key ex nd instance_name m when_unrecorded =
     and_then (own_keys ex nd instance_name) (\<lambda>recorded. case recorded of
       None \<Rightarrow> if when_unrecorded = Fail then Inl OwnKeysUnrecorded else check_vault_holds_a_party_key nd m
     | Some ks \<Rightarrow>
         let own = compute_fingerprint (nd_proto nd) (ks ! 1) in
         and_then (ok_or NoSigningKeys (p2p_signing_keys m)) (\<lambda>keys.
           if \<not> list_ex (\<lambda>k. compute_fingerprint (nd_proto nd) k = own) (sk_keys keys)
           then Inl OwnDamlKeyMissing else Inr ()))"

section \<open>Checks against the head state\<close>

definition already_applied :: "nat \<times> 'm \<Rightarrow> nat \<times> 'm \<Rightarrow> val_error + bool" where
  "already_applied proposal head =
     (if fst proposal = fst head
      then (if snd proposal \<noteq> snd head then Inl (SerialReused (fst head)) else Inr True)
      else if u32_checked_add (fst head) 1 \<noteq> Some (fst proposal) then Inl (NotNextSerial (fst proposal) (fst head))
      else Inr False)"

definition delta_bounds :: "workflow_kind \<Rightarrow> val_error + nat \<times> nat" where
  "delta_bounds k = (case k of
     ChangeThreshold \<Rightarrow> Inr (0, 0) | Kick \<Rightarrow> Inr (0, 1) | AddParty \<Rightarrow> Inr (1, 0) | _ \<Rightarrow> Inl (NoDelta k))"

definition check_set_delta :: "workflow_kind \<Rightarrow> string set \<Rightarrow> string list \<Rightarrow> string option \<Rightarrow> bool \<Rightarrow> val_error + unit" where
  "check_set_delta kind current proposed new_member legacy_source =
     (let proposed_set = set proposed; added = proposed_set - current; removed = current - proposed_set in
      if card proposed_set \<noteq> length proposed then Inl RepeatedEntry
      else and_then (delta_bounds kind) (\<lambda>(max_added, removals).
        if card added > max_added then Inl (TooManyAdded (card added))
        else if \<not> legacy_source \<and> card removed \<noteq> removals then Inl (WrongRemoved (card removed))
        else case new_member of
          None \<Rightarrow> Inr ()
        | Some f \<Rightarrow> if added - {f} \<noteq> {} then Inl StrangerAdded
                    else if f \<notin> proposed_set then Inl NewMemberMissing else Inr ()))"

definition check_dns_against_head :: "workflow_kind \<Rightarrow> nat \<times> namespace_definition \<Rightarrow> nat \<times> namespace_definition
    \<Rightarrow> string option \<Rightarrow> val_error + unit" where
  "check_dns_against_head kind proposal head new_member =
     and_then (already_applied proposal head) (\<lambda>applied.
       if applied then Inr ()
       else check_set_delta kind (set (dns_owners (snd head))) (dns_owners (snd proposal)) new_member False)"

text \<open>The keys the proposal is compared with: the inline keys if there is one per host, else the
  legacy mapping's keys joined with them.\<close>

definition key_baseline :: "node \<Rightarrow> string \<Rightarrow> canton_id \<Rightarrow> party_to_participant \<Rightarrow> val_error + signing_public_key list \<times> bool" where
  "key_baseline nd sync d current_p2p =
     (let inline = (case p2p_signing_keys current_p2p of Some k \<Rightarrow> sk_keys k | None \<Rightarrow> []) in
      if length inline \<ge> length (p2p_participants current_p2p) \<and> inline \<noteq> [] then Inr (inline, False)
      else and_then (map_err Undecodable (fetch_party_to_key_mapping (nd_proto nd) (nd_api nd) sync d)) (\<lambda>legacy.
        if legacy = None \<and> inline = [] then Inl NoKeysAtAll
        else Inr (push_unseen (nd_proto nd) (case legacy of Some l \<Rightarrow> p2k_signing_keys l | None \<Rightarrow> []) inline, True)))"

definition check_against_head :: "node \<Rightarrow> string \<Rightarrow> workflow_kind \<Rightarrow> canton_id \<Rightarrow> nat \<times> namespace_definition
    \<Rightarrow> nat \<times> party_to_participant \<Rightarrow> (fingerprint \<times> fingerprint) option \<Rightarrow> val_error + unit" where
  "check_against_head nd sync kind d dns p2p new_member =
     (let P = nd_proto nd; A = nd_api nd in
      and_then (map_err OwnersUnreadable
          (fetch_namespace_definition_at_head P A sync (namespace_to_hex (proto_hex P) (ns d)))) (\<lambda>head_dns.
      and_then (map_err KeysUnreadable (fetch_p2p_mapping_at_head P A sync d)) (\<lambda>head_p2p.
      and_then (check_dns_against_head kind dns head_dns (map_option (\<lambda>(n, _). as_str n) new_member)) (\<lambda>_.
      and_then (already_applied p2p head_p2p) (\<lambda>applied.
        if applied then Inr ()
        else and_then (key_baseline nd sync d (snd head_p2p)) (\<lambda>(current_keys, legacy).
          and_then (ok_or NoSigningKeys (p2p_signing_keys (snd p2p))) (\<lambda>proposed_keys.
            check_set_delta kind (set (map (\<lambda>k. as_str (compute_fingerprint P k)) current_keys))
              (map (\<lambda>k. as_str (compute_fingerprint P k)) (sk_keys proposed_keys))
              (map_option (\<lambda>(_, k). as_str k) new_member) legacy)))))))"

definition new_member_fingerprints :: "peer_expectations \<Rightarrow> node \<Rightarrow> string
    \<Rightarrow> val_error + (fingerprint \<times> fingerprint) option" where
  "new_member_fingerprints ex nd instance_name =
     (case new_participant ex of
        None \<Rightarrow> Inr None
      | Some n \<Rightarrow> if n \<noteq> self_id ex then Inr None
          else and_then (map_err DbError (read_artifact (nd_storage nd) instance_name PEER_PUBLIC_KEYS
                   (Some (canton_id_display (proto_hex (nd_proto nd)) n)))) (\<lambda>row.
            and_then (ok_or NoNewMemberKeys row) (\<lambda>blob.
            and_then (map_err Undecodable (decode_keys_payload (nd_proto nd) blob)) (\<lambda>keys. case keys of
              [nk, dk] \<Rightarrow> Inr (Some (compute_fingerprint (nd_proto nd) nk, compute_fingerprint (nd_proto nd) dk))
            | _ \<Rightarrow> Inl (KeyBundleSize (length keys))))))"

definition check_on_chain_delta :: "peer_expectations \<Rightarrow> node \<Rightarrow> string \<Rightarrow> canton_id \<Rightarrow> nat \<times> namespace_definition
    \<Rightarrow> nat \<times> party_to_participant \<Rightarrow> val_error + unit" where
  "check_on_chain_delta ex nd instance_name d dns p2p =
     and_then (map_err SyncError (nd_sync nd)) (\<lambda>sync.
     and_then (new_member_fingerprints ex nd instance_name) (\<lambda>new_member.
       check_against_head nd sync (ex_kind ex) d dns p2p new_member))"

section \<open>The checks of each step\<close>

definition check_onboarding_dns :: "peer_expectations \<Rightarrow> node \<Rightarrow> string \<Rightarrow> bytes \<Rightarrow> val_error + string" where
  "check_onboarding_dns ex nd instance_name blob =
     and_then (map_err Undecodable (decode_namespace_definition (nd_proto nd) blob)) (\<lambda>d.
       let owners = set (dns_owners d) in
       if card owners \<noteq> length (dns_owners d) then Inl RepeatedOwner
       else if card owners \<noteq> card (members ex) then Inl (OwnerCount (card owners) (card (members ex)))
       else and_then (own_namespace ex nd instance_name) (\<lambda>own.
         and_then (ok_or OwnKeysUnrecorded own) (\<lambda>own_ns.
           if as_str own_ns \<notin> owners then Inl (OwnNamespaceMissing (as_str own_ns))
           else and_then (check_threshold ex (dns_threshold d) (card owners)) (\<lambda>_.
             if compute_decentralized_namespace (nd_proto nd) owners \<noteq> decentralized_namespace d
             then Inl (NamespaceNotHash (decentralized_namespace d))
             else Inr (decentralized_namespace d)))))"

definition check_onboarding_p2p :: "peer_expectations \<Rightarrow> node \<Rightarrow> string \<Rightarrow> bytes \<Rightarrow> string option \<Rightarrow> val_error + unit" where
  "check_onboarding_p2p ex nd instance_name blob dns_namespace =
     (let P = nd_proto nd in
      and_then (map_err Undecodable (decode_party_to_participant P blob)) (\<lambda>m.
      and_then (map_err BadId (canton_id_parse (proto_hex P) (p2p_party m))) (\<lambda>party.
      and_then (case ex_prefix ex of
          Some p \<Rightarrow> if p \<noteq> prefix party then Inl (PrefixMismatch (prefix party)) else Inr ()
        | None \<Rightarrow> Inl NoPrefix) (\<lambda>_.
      and_then (ok_or NoDnsNamespace dns_namespace) (\<lambda>n.
        if n \<noteq> namespace_to_hex (proto_hex P) (ns party) then Inl (NamespaceMismatch n)
        else and_then (check_p2p_membership P ex m) (\<lambda>_.
          and_then (check_onboarding_markers P ex (p2p_participants m)) (\<lambda>_.
          and_then (check_p2p_thresholds ex m) (\<lambda>_.
            check_own_daml_key ex nd instance_name m Fail))))))))"

definition check_party_proposals :: "peer_expectations \<Rightarrow> node \<Rightarrow> string \<Rightarrow> bytes \<Rightarrow> bytes \<Rightarrow> val_error + unit" where
  "check_party_proposals ex nd instance_name dns_payload p2p_payload =
     (let P = nd_proto nd in
      and_then (ok_or NoDecParty (dec_party_id ex)) (\<lambda>party.
      and_then (map_err Undecodable (decode_namespace_definition P dns_payload)) (\<lambda>d.
      and_then (ensure (decentralized_namespace d = namespace_to_hex (proto_hex P) (ns party))
          (NamespaceMismatch (decentralized_namespace d))) (\<lambda>_.
      and_then (ensure (card (set (dns_owners d)) = length (dns_owners d)) RepeatedOwner) (\<lambda>_.
      and_then (ensure (card (set (dns_owners d)) = card (members ex))
          (OwnerCount (card (set (dns_owners d))) (card (members ex)))) (\<lambda>_.
      and_then (check_threshold ex (dns_threshold d) (card (set (dns_owners d)))) (\<lambda>_.
      and_then (own_namespace ex nd instance_name) (\<lambda>own.
      and_then (case own of
          Some f \<Rightarrow> if as_str f \<notin> set (dns_owners d) then Inl (OwnNamespaceMissing (as_str f)) else Inr ()
        | None \<Rightarrow> Inr ()) (\<lambda>_.
      and_then (map_err Undecodable (decode_party_to_participant P p2p_payload)) (\<lambda>m.
      and_then (ensure (p2p_party m = canton_id_display (proto_hex P) party) (WrongParty (p2p_party m))) (\<lambda>_.
      and_then (check_p2p_membership P ex m) (\<lambda>_.
      and_then (check_onboarding_markers P ex (p2p_participants m)) (\<lambda>_.
      and_then (check_p2p_thresholds ex m) (\<lambda>_.
      and_then (check_own_daml_key ex nd instance_name m Skip) (\<lambda>_.
      and_then (map_err Undecodable (decode_proposal_serial P dns_payload)) (\<lambda>dns_serial.
      and_then (map_err Undecodable (decode_proposal_serial P p2p_payload)) (\<lambda>p2p_serial.
        check_on_chain_delta ex nd instance_name party (dns_serial, d) (p2p_serial, m))))))))))))))))))"

definition check_clear_onboarding :: "proto \<Rightarrow> peer_expectations \<Rightarrow> bytes \<Rightarrow> val_error + unit" where
  "check_clear_onboarding P ex blob =
     and_then (ok_or NoDecParty (dec_party_id ex)) (\<lambda>party.
     and_then (map_err Undecodable (decode_party_to_participant P blob)) (\<lambda>m.
     and_then (ensure (p2p_party m = canton_id_display (proto_hex P) party) (WrongParty (p2p_party m))) (\<lambda>_.
     and_then (check_p2p_membership P ex m) (\<lambda>_.
     and_then (check_p2p_thresholds ex m) (\<lambda>_.
       case find (\<lambda>p. onboarding p \<noteq> None) (p2p_participants m) of
         Some p \<Rightarrow> Inl (StillOnboarding (participant_uid p))
       | None \<Rightarrow> Inr ())))))"

definition hash_dar :: "proto \<Rightarrow> bytes \<Rightarrow> string" where
  "hash_dar P data = hex_encode (proto_hex P) (proto_sha256 P data)"

fun check_dar_hashes :: "proto \<Rightarrow> peer_expectations \<Rightarrow> (string \<times> bytes) list \<Rightarrow> val_error + unit" where
  "check_dar_hashes P ex [] = Inr ()"
| "check_dar_hashes P ex ((filename, data) # files) =
    and_then (ok_or (NoAcceptedHash filename)
        (find (\<lambda>(n, _). n = filename) (zip (dar_filenames ex) (dar_hashes ex)))) (\<lambda>(_, expected).
      if hash_dar P data \<noteq> expected then Inl (DarHashMismatch filename) else check_dar_hashes P ex files)"

definition check_dars :: "proto \<Rightarrow> peer_expectations \<Rightarrow> (string \<times> bytes) list \<Rightarrow> val_error + unit" where
  "check_dars P ex files =
     (if dar_filenames ex = [] then (if files = [] then Inr () else Inl (DarsNotNamed (length files)))
      else let accepted = set (dar_filenames ex); received = set (map fst files) in
        if card accepted \<noteq> length (dar_filenames ex) then Inl DarNamedTwice
        else if card received \<noteq> length files then Inl DarSentTwice
        else if received - accepted \<noteq> {} then Inl DarUnexpected
        else if accepted - received \<noteq> {} then Inl DarMissing
        else if dar_hashes ex = [] then Inr ()
        else if length (dar_hashes ex) \<noteq> length (dar_filenames ex)
        then Inl (DarHashCount (length (dar_hashes ex)) (length (dar_filenames ex)))
        else check_dar_hashes P ex files)"

definition check_dec_party :: "peer_expectations \<Rightarrow> canton_id \<Rightarrow> val_error + unit" where
  "check_dec_party ex party = (case dec_party_id ex of
     Some expected \<Rightarrow> if expected \<noteq> party then Inl (OtherDecParty party) else Inr ()
   | None \<Rightarrow> Inl NoDecParty)"

definition check_new_participant :: "peer_expectations \<Rightarrow> canton_id \<Rightarrow> val_error + unit" where
  "check_new_participant ex participant = (case new_participant ex of
     Some expected \<Rightarrow> if expected \<noteq> participant then Inl (OtherNewParticipant participant) else Inr ()
   | None \<Rightarrow> Inl NoNewParticipant)"

section \<open>What a check establishes\<close>

text \<open>The hosts of a mapping, as ids: all parse, none repeats, all at \<open>Confirmation\<close>.\<close>

definition hosts_are :: "proto \<Rightarrow> hosting_participant list \<Rightarrow> canton_id set \<Rightarrow> bool" where
  "hosts_are P ps I \<longleftrightarrow> (\<exists>ids. map (\<lambda>p. canton_id_parse (proto_hex P) (participant_uid p)) ps = map Inr ids \<and>
     distinct ids \<and> set ids = I \<and> (\<forall>p\<in>set ps. permission p = perm_confirmation P))"

definition membership_ok :: "proto \<Rightarrow> peer_expectations \<Rightarrow> party_to_participant \<Rightarrow> bool" where
  "membership_ok P ex m \<longleftrightarrow> hosts_are P (p2p_participants m) (members ex) \<and> self_id ex \<in> members ex \<and>
     (\<forall>k. kicked_participant ex = Some k \<longrightarrow> k \<notin> members ex) \<and>
     (\<forall>a. new_participant ex = Some a \<longrightarrow> a \<in> members ex)"

definition markers_ok :: "proto \<Rightarrow> peer_expectations \<Rightarrow> hosting_participant list \<Rightarrow> bool" where
  "markers_ok P ex ps \<longleftrightarrow> (\<forall>p\<in>set ps. \<exists>i. canton_id_parse (proto_hex P) (participant_uid p) = Inr i \<and>
     (onboarding p \<noteq> None \<longleftrightarrow> new_participant ex = Some i))"

text \<open>A threshold over \<open>n\<close> entries that the invitation answers for.\<close>

definition threshold_ok :: "peer_expectations \<Rightarrow> int option \<Rightarrow> nat \<Rightarrow> int \<Rightarrow> bool" where
  "threshold_ok ex expected n t \<longleftrightarrow> n \<le> i32_max \<and> 1 \<le> t \<and> t \<le> int n \<and>
     (expected = Some t \<or> expected = None \<and> ex_kind ex = Onboarding)"

definition accepted_confirmation :: "peer_expectations \<Rightarrow> int option" where
  "accepted_confirmation ex = (case confirmation_threshold ex of Some c \<Rightarrow> Some c | None \<Rightarrow> ex_threshold ex)"

definition thresholds_ok :: "peer_expectations \<Rightarrow> party_to_participant \<Rightarrow> bool" where
  "thresholds_ok ex m \<longleftrightarrow> threshold_ok ex (accepted_confirmation ex) (card (members ex)) (int (p2p_threshold m)) \<and>
     (\<exists>keys. p2p_signing_keys m = Some keys \<and> length (sk_keys keys) = card (members ex) \<and>
        threshold_ok ex (ex_threshold ex) (card (members ex)) (int (sk_threshold keys)))"

lemma i32_try_from_Some: "i32_try_from n = Some i \<longleftrightarrow> n \<le> i32_max \<and> i = int n"
  by (auto simp: i32_try_from_def)

lemma check_threshold_against_iff:
  "check_threshold_against ex t n e = Inr () \<longleftrightarrow> threshold_ok ex e n t"
  by (auto simp: check_threshold_against_def threshold_ok_def result_simps i32_try_from_Some
      split: option.splits if_splits)

lemma check_p2p_thresholds_iff: "check_p2p_thresholds ex m = Inr () \<longleftrightarrow> thresholds_ok ex m"
proof -
  have "threshold_ok ex e n (int t) \<Longrightarrow> t \<le> i32_max" for e n t by (auto simp: threshold_ok_def)
  then show ?thesis
    unfolding check_p2p_thresholds_def thresholds_ok_def accepted_confirmation_def check_threshold_def
    by (auto simp: result_simps i32_try_from_Some check_threshold_against_iff)
qed

lemma collect_hosts_iff:
  "collect_hosts P ps H = Inr I \<longleftrightarrow> (\<exists>J. hosts_are P ps J \<and> J \<inter> H = {} \<and> I = H \<union> J)"
proof (induction P ps H rule: collect_hosts.induct)
  case (1 P H)
  then show ?case by (auto simp: hosts_are_def)
next
  case (2 P p ps H)
  show ?case
  proof (cases "canton_id_parse (proto_hex P) (participant_uid p)")
    case (Inl e)
    then show ?thesis by (auto simp: hosts_are_def)
  next
    case (Inr i)
    have split: "hosts_are P (p # ps) J \<longleftrightarrow> permission p = perm_confirmation P \<and> i \<in> J \<and> hosts_are P ps (J - {i})" for J
    proof
      assume "hosts_are P (p # ps) J"
      then obtain ids where "map (\<lambda>p. canton_id_parse (proto_hex P) (participant_uid p)) ps = map Inr ids"
        "distinct (i # ids)" "J = insert i (set ids)" "\<forall>p\<in>set (p # ps). permission p = perm_confirmation P"
        by (auto simp: hosts_are_def Inr map_eq_Cons_conv)
      then show "permission p = perm_confirmation P \<and> i \<in> J \<and> hosts_are P ps (J - {i})"
        by (auto simp: hosts_are_def)
    next
      assume a: "permission p = perm_confirmation P \<and> i \<in> J \<and> hosts_are P ps (J - {i})"
      then obtain ids where "map (\<lambda>p. canton_id_parse (proto_hex P) (participant_uid p)) ps = map Inr ids"
        "distinct ids" "set ids = J - {i}" "\<forall>p\<in>set ps. permission p = perm_confirmation P"
        by (auto simp: hosts_are_def)
      then show "hosts_are P (p # ps) J"
        unfolding hosts_are_def using Inr a by (intro exI [of _ "i # ids"]) auto
    qed
    show ?thesis
    proof (cases "i \<in> H \<or> permission p \<noteq> perm_confirmation P")
      case True
      then show ?thesis using Inr split by auto
    next
      case False
      have IH: "collect_hosts P ps (insert i H) = Inr I \<longleftrightarrow> (\<exists>J. hosts_are P ps J \<and> J \<inter> insert i H = {} \<and> I = insert i H \<union> J)"
        using 2 Inr False by simp
      have "(\<exists>J. hosts_are P ps J \<and> J \<inter> insert i H = {} \<and> I = insert i H \<union> J) \<longleftrightarrow>
            (\<exists>J. hosts_are P (p # ps) J \<and> J \<inter> H = {} \<and> I = H \<union> J)"
      proof
        assume "\<exists>J. hosts_are P ps J \<and> J \<inter> insert i H = {} \<and> I = insert i H \<union> J"
        then obtain J where J: "hosts_are P ps J" "J \<inter> insert i H = {}" "I = insert i H \<union> J" by blast
        then have "insert i J - {i} = J" by auto
        then show "\<exists>J. hosts_are P (p # ps) J \<and> J \<inter> H = {} \<and> I = H \<union> J"
          using J False split by (intro exI [of _ "insert i J"]) auto
      next
        assume "\<exists>J. hosts_are P (p # ps) J \<and> J \<inter> H = {} \<and> I = H \<union> J"
        then obtain J where "hosts_are P (p # ps) J" "J \<inter> H = {}" "I = H \<union> J" by blast
        then show "\<exists>J. hosts_are P ps J \<and> J \<inter> insert i H = {} \<and> I = insert i H \<union> J"
          using split by (intro exI [of _ "J - {i}"]) auto
      qed
      then show ?thesis using IH Inr False by simp
    qed
  qed
qed

lemma check_p2p_membership_iff: "check_p2p_membership P ex m = Inr () \<longleftrightarrow> membership_ok P ex m"
  by (auto simp: check_p2p_membership_def membership_ok_def and_then_Inr_iff collect_hosts_iff split: option.splits)

lemma check_onboarding_markers_iff: "check_onboarding_markers P ex ps = Inr () \<longleftrightarrow> markers_ok P ex ps"
  by (induction P ex ps rule: check_onboarding_markers.induct)
     (auto simp: markers_ok_def and_then_Inr_iff map_err_Inr split: if_splits)

text \<open>A change of a set the run allows: what was added and removed, and who may be the one added.\<close>

definition delta_ok :: "workflow_kind \<Rightarrow> string set \<Rightarrow> string list \<Rightarrow> string option \<Rightarrow> bool \<Rightarrow> bool" where
  "delta_ok kind current proposed new_member legacy \<longleftrightarrow> distinct proposed \<and>
     kind \<in> {ChangeThreshold, Kick, AddParty} \<and>
     (kind \<noteq> AddParty \<longrightarrow> set proposed \<subseteq> current) \<and>
     (\<exists>a. set proposed \<subseteq> insert a current) \<and>
     (\<not> legacy \<longrightarrow> card (current - set proposed) = (if kind = Kick then 1 else 0)) \<and>
     (\<forall>f. new_member = Some f \<longrightarrow> f \<in> set proposed \<and> set proposed \<subseteq> insert f current)"

lemma card_le_1: "finite S \<Longrightarrow> card S \<le> 1 \<longleftrightarrow> (\<exists>a. S \<subseteq> {a})"
  by (cases "S = {}") (auto simp: card_le_Suc0_iff_eq)

lemma check_set_delta_iff:
  "check_set_delta kind current proposed nm legacy = Inr () \<longleftrightarrow> delta_ok kind current proposed nm legacy"
proof -
  let ?add = "set proposed - current"
  have a0: "0 < card ?add \<longleftrightarrow> \<not> set proposed \<subseteq> current" by (auto simp: card_gt_0_iff)
  have a1: "card ?add \<le> 1 \<longleftrightarrow> (\<exists>a. set proposed \<subseteq> insert a current)"
    using card_le_1 [of ?add] by (auto simp: subset_iff)
  have d: "card (set proposed) = length proposed \<longleftrightarrow> distinct proposed" using card_distinct distinct_card by blast
  have nm: "(case nm of None \<Rightarrow> Inr () | Some f \<Rightarrow> if ?add - {f} \<noteq> {} then Inl StrangerAdded
        else if f \<notin> set proposed then Inl NewMemberMissing else Inr ()) = (Inr () :: val_error + unit) \<longleftrightarrow>
      (\<forall>f. nm = Some f \<longrightarrow> f \<in> set proposed \<and> set proposed \<subseteq> insert f current)"
    by (auto split: option.splits)
  show ?thesis
    unfolding check_set_delta_def delta_ok_def Let_def d delta_bounds_def
    using a1 nm by (cases kind) (auto simp: not_less a0)
qed

text \<open>A proposal against the head: the head itself, or its next serial with an allowed change.\<close>

lemma already_applied_Inr:
  "already_applied p h = Inr b \<longleftrightarrow> (if b then p = h else fst p = fst h + 1 \<and> fst p \<le> u32_max)"
  by (cases p; cases h) (auto simp: already_applied_def u32_checked_add_def)

lemma check_dns_against_head_iff:
  "check_dns_against_head kind p h nm = Inr () \<longleftrightarrow>
     p = h \<or> fst p = fst h + 1 \<and> fst p \<le> u32_max \<and>
       delta_ok kind (set (dns_owners (snd h))) (dns_owners (snd p)) nm False"
proof -
  have "check_dns_against_head kind p h nm = Inr () \<longleftrightarrow> (\<exists>b. already_applied p h = Inr b \<and>
      (b \<or> delta_ok kind (set (dns_owners (snd h))) (dns_owners (snd p)) nm False))"
    unfolding check_dns_against_head_def and_then_Inr_iff ex_bool_eq by (simp add: check_set_delta_iff)
  then show ?thesis unfolding ex_bool_eq already_applied_Inr by simp
qed

text \<open>The keys the party has now, as a set of fingerprints.\<close>

lemma push_unseen_set:
  "compute_fingerprint P ` set (push_unseen P acc ks) = compute_fingerprint P ` (set acc \<union> set ks)"
  by (induction P acc ks rule: push_unseen.induct) auto

definition inline_keys :: "party_to_participant \<Rightarrow> signing_public_key list" where
  "inline_keys m = (case p2p_signing_keys m of Some k \<Rightarrow> sk_keys k | None \<Rightarrow> [])"

lemma key_baseline_Inr:
  assumes "key_baseline nd sync d cur = Inr (ks, legacy)"
  shows "\<exists>l. fetch_party_to_key_mapping (nd_proto nd) (nd_api nd) sync d = Inr l \<and> legacy \<and>
      compute_fingerprint (nd_proto nd) ` set ks = compute_fingerprint (nd_proto nd) `
        (set (inline_keys cur) \<union> set (case l of Some x \<Rightarrow> p2k_signing_keys x | None \<Rightarrow> []))
    \<or> \<not> legacy \<and> ks = inline_keys cur \<and> length (p2p_participants cur) \<le> length ks"
proof (cases "length (inline_keys cur) \<ge> length (p2p_participants cur) \<and> inline_keys cur \<noteq> []")
  case True
  then show ?thesis using assms by (auto simp: key_baseline_def inline_keys_def [symmetric] Let_def)
next
  case False
  then obtain l where l: "fetch_party_to_key_mapping (nd_proto nd) (nd_api nd) sync d = Inr l" "legacy"
    "ks = push_unseen (nd_proto nd) (case l of Some x \<Rightarrow> p2k_signing_keys x | None \<Rightarrow> []) (inline_keys cur)"
    using assms by (auto simp: key_baseline_def inline_keys_def [symmetric] Let_def and_then_Inr_iff map_err_Inr split: if_splits)
  then show ?thesis by (metis push_unseen_set Un_commute)
qed

lemma check_against_head_Inr:
  assumes "check_against_head nd sync kind d dns p2p nm = Inr ()"
  obtains hd_dns hd_p2p where
    "fetch_namespace_definition_at_head (nd_proto nd) (nd_api nd) sync (namespace_to_hex (proto_hex (nd_proto nd)) (ns d)) = Inr hd_dns"
    "fetch_p2p_mapping_at_head (nd_proto nd) (nd_api nd) sync d = Inr hd_p2p"
    "dns = hd_dns \<or> fst dns = fst hd_dns + 1 \<and>
       delta_ok kind (set (dns_owners (snd hd_dns))) (dns_owners (snd dns)) (map_option (\<lambda>x. as_str (fst x)) nm) False"
    "p2p = hd_p2p \<or> fst p2p = fst hd_p2p + 1 \<and> (\<exists>ks legacy keys. key_baseline nd sync d (snd hd_p2p) = Inr (ks, legacy) \<and>
       p2p_signing_keys (snd p2p) = Some keys \<and>
       delta_ok kind (set (map (\<lambda>k. as_str (compute_fingerprint (nd_proto nd) k)) ks))
         (map (\<lambda>k. as_str (compute_fingerprint (nd_proto nd) k)) (sk_keys keys))
         (map_option (\<lambda>x. as_str (snd x)) nm) legacy)"
proof -
  from assms obtain h1 h2 b where h:
    "fetch_namespace_definition_at_head (nd_proto nd) (nd_api nd) sync (namespace_to_hex (proto_hex (nd_proto nd)) (ns d)) = Inr h1"
    "fetch_p2p_mapping_at_head (nd_proto nd) (nd_api nd) sync d = Inr h2"
    "check_dns_against_head kind dns h1 (map_option (\<lambda>(n, _). as_str n) nm) = Inr ()"
    "already_applied p2p h2 = Inr b"
    "b \<or> (\<exists>ks legacy keys. key_baseline nd sync d (snd h2) = Inr (ks, legacy) \<and>
       p2p_signing_keys (snd p2p) = Some keys \<and>
       check_set_delta kind (set (map (\<lambda>k. as_str (compute_fingerprint (nd_proto nd) k)) ks))
         (map (\<lambda>k. as_str (compute_fingerprint (nd_proto nd) k)) (sk_keys keys))
         (map_option (\<lambda>(_, k). as_str k) nm) legacy = Inr ())"
    by (auto simp: check_against_head_def Let_def and_then_Inr_iff map_err_Inr ok_or_Inr split: if_splits)
  have sp: "(\<lambda>(n, _). as_str n) = (\<lambda>x :: fingerprint \<times> fingerprint. as_str (fst x))"
    "(\<lambda>(_, k). as_str k) = (\<lambda>x :: fingerprint \<times> fingerprint. as_str (snd x))" by auto
  show ?thesis
  proof (rule that [OF h(1) h(2)])
    show "dns = h1 \<or> fst dns = fst h1 + 1 \<and>
       delta_ok kind (set (dns_owners (snd h1))) (dns_owners (snd dns)) (map_option (\<lambda>x. as_str (fst x)) nm) False"
      using h(3) unfolding check_dns_against_head_iff sp by blast
    show "p2p = h2 \<or> fst p2p = fst h2 + 1 \<and> (\<exists>ks legacy keys. key_baseline nd sync d (snd h2) = Inr (ks, legacy) \<and>
       p2p_signing_keys (snd p2p) = Some keys \<and>
       delta_ok kind (set (map (\<lambda>k. as_str (compute_fingerprint (nd_proto nd) k)) ks))
         (map (\<lambda>k. as_str (compute_fingerprint (nd_proto nd) k)) (sk_keys keys))
         (map_option (\<lambda>x. as_str (snd x)) nm) legacy)"
      using h(4,5) unfolding already_applied_Inr check_set_delta_iff sp by (cases b) auto
  qed
qed

lemma check_party_proposals_Inr:
  assumes "check_party_proposals ex nd inst dns_b p2p_b = Inr ()"
  obtains party d m own sd sp where "dec_party_id ex = Some party"
    "decode_namespace_definition (nd_proto nd) dns_b = Inr d" "decode_party_to_participant (nd_proto nd) p2p_b = Inr m"
    "decentralized_namespace d = namespace_to_hex (proto_hex (nd_proto nd)) (ns party)"
    "card (set (dns_owners d)) = length (dns_owners d)" "card (set (dns_owners d)) = card (members ex)"
    "threshold_ok ex (ex_threshold ex) (card (set (dns_owners d))) (dns_threshold d)"
    "own_namespace ex nd inst = Inr own" "\<forall>f. own = Some f \<longrightarrow> as_str f \<in> set (dns_owners d)"
    "p2p_party m = canton_id_display (proto_hex (nd_proto nd)) party" "membership_ok (nd_proto nd) ex m"
    "markers_ok (nd_proto nd) ex (p2p_participants m)" "thresholds_ok ex m"
    "check_own_daml_key ex nd inst m Skip = Inr ()"
    "decode_proposal_serial (nd_proto nd) dns_b = Inr sd" "decode_proposal_serial (nd_proto nd) p2p_b = Inr sp"
    "check_on_chain_delta ex nd inst party (sd, d) (sp, m) = Inr ()"
proof -
  have own: "(case own of Some f \<Rightarrow> if as_str f \<notin> S then Inl (OwnNamespaceMissing (as_str f)) else Inr ()
      | None \<Rightarrow> Inr ()) = (Inr u :: val_error + unit) \<longleftrightarrow> (\<forall>f. own = Some f \<longrightarrow> as_str f \<in> S)" for own S u
    by (cases own) auto
  show ?thesis
    using assms unfolding check_party_proposals_def Let_def and_then_Inr_iff map_err_Inr ok_or_Inr ensure_Inr
      check_threshold_def check_threshold_against_iff own
      check_p2p_membership_iff check_onboarding_markers_iff check_p2p_thresholds_iff
    by (elim exE conjE) (auto simp: check_p2p_membership_iff check_onboarding_markers_iff check_p2p_thresholds_iff
        check_threshold_against_iff intro!: that)
qed

lemma own_daml_key_recorded:
  assumes "check_own_daml_key ex nd inst m w = Inr ()" "own_keys ex nd inst = Inr (Some ks)"
  shows "\<exists>keys. p2p_signing_keys m = Some keys \<and>
    compute_fingerprint (nd_proto nd) (ks ! 1) \<in> compute_fingerprint (nd_proto nd) ` set (sk_keys keys)"
proof -
  let ?fp = "compute_fingerprint (nd_proto nd)"
  obtain keys where "p2p_signing_keys m = Some keys" "list_ex (\<lambda>k. ?fp k = ?fp (ks ! 1)) (sk_keys keys)"
    using assms by (auto simp: check_own_daml_key_def Let_def and_then_Inr_iff ok_or_Inr split: if_splits)
  moreover then obtain k where k: "k \<in> set (sk_keys keys)" "?fp k = ?fp (ks ! 1)" by (auto simp: list_ex_iff)
  ultimately show ?thesis using imageI [OF k(1), of ?fp] by simp
qed

lemma own_daml_key_unrecorded:
  assumes "check_own_daml_key ex nd inst m w = Inr ()" "own_keys ex nd inst = Inr None"
  shows "w = Skip \<and> (\<exists>keys. p2p_signing_keys m = Some keys \<and>
    (\<exists>k\<in>set (sk_keys keys). vault_holds (nd_api nd) (compute_fingerprint (nd_proto nd) k) = Inr True))"
proof -
  have any: "vault_holds_any P A ks = Inr () \<Longrightarrow> \<exists>k\<in>set ks. vault_holds A (compute_fingerprint P k) = Inr True" for P A ks
    by (induction P A ks rule: vault_holds_any.induct) (auto simp: and_then_Inr_iff map_err_Inr split: if_splits)
  show ?thesis using assms any
    by (cases w) (auto simp: check_own_daml_key_def check_vault_holds_a_party_key_def and_then_Inr_iff ok_or_Inr)
qed

lemma new_member_fingerprints_None:
  assumes "new_member_fingerprints ex nd inst = Inr nm"
  shows "nm = None \<longleftrightarrow> new_participant ex \<noteq> Some (self_id ex)"
proof (cases "new_participant ex = Some (self_id ex)")
  case True
  have two: "(case keys of [nk, dk] \<Rightarrow> Inr (Some (f nk, f dk)) | _ \<Rightarrow> Inl e) = Inr r \<Longrightarrow> r \<noteq> None" for keys f e r
    by (auto split: list.splits)
  show ?thesis using assms True
    unfolding new_member_fingerprints_def by (auto simp: and_then_Inr_iff dest!: two)
next
  case False
  then show ?thesis using assms by (auto simp: new_member_fingerprints_def split: option.splits)
qed

text \<open>The hash pins of a DAR bundle.\<close>

lemma check_dar_hashes_iff:
  "check_dar_hashes P ex files = Inr () \<longleftrightarrow>
     (\<forall>(n, data)\<in>set files. \<exists>h. find (\<lambda>x. fst x = n) (zip (dar_filenames ex) (dar_hashes ex)) = Some (n, h) \<and> hash_dar P data = h)"
proof (induction P ex files rule: check_dar_hashes.induct)
  case (2 P ex n data files)
  have eq: "find (\<lambda>(x, _). x = n) zs = find (\<lambda>x. fst x = n) zs" for zs :: "(string \<times> string) list"
    by (rule arg_cong [of _ _ "\<lambda>f. find f zs"]) auto
  show ?case
  proof (cases "find (\<lambda>x. fst x = n) (zip (dar_filenames ex) (dar_hashes ex))")
    case None
    then show ?thesis by (simp add: eq)
  next
    case (Some r)
    then have "fst r = n" by (auto simp: find_Some_iff)
    then show ?thesis using 2 [of "snd r"] Some
      by (cases r) (auto simp: eq)
  qed
qed simp

lemma find_zip_distinct:
  assumes "distinct xs" "length xs = length ys" "i < length xs"
  shows "find (\<lambda>x. fst x = xs ! i) (zip xs ys) = Some (xs ! i, ys ! i)"
  using assms
proof (induction xs ys arbitrary: i rule: list_induct2')
  case (4 x xs y ys)
  then show ?case by (cases i) auto
qed auto

lemma dars_found:
  assumes "distinct (dar_filenames ex)" "length (dar_hashes ex) = length (dar_filenames ex)"
    and "set (map fst files) = set (dar_filenames ex)"
  shows "check_dar_hashes P ex files = Inr () \<longleftrightarrow>
    (\<forall>i<length (dar_filenames ex). \<forall>data. (dar_filenames ex ! i, data) \<in> set files \<longrightarrow> hash_dar P data = dar_hashes ex ! i)"
proof -
  have f: "find (\<lambda>x. fst x = dar_filenames ex ! i) (zip (dar_filenames ex) (dar_hashes ex)) = Some (dar_filenames ex ! i, dar_hashes ex ! i)"
    if "i < length (dar_filenames ex)" for i
    using find_zip_distinct [of "dar_filenames ex" "dar_hashes ex" i] assms that by simp
  have "\<exists>i<length (dar_filenames ex). n = dar_filenames ex ! i" if "(n, data) \<in> set files" for n data
    using assms(3) that by (metis (no_types, lifting) fst_conv imageI in_set_conv_nth list.set_map)
  then show ?thesis unfolding check_dar_hashes_iff using f by fastforce
qed

text \<open>A change-threshold run of a one-member party, as a concrete instance: the proposals sit at serial 8
  over a head at serial 7, and the member's only record of its key is the vault.\<close>

definition ex_me :: canton_id where "ex_me = CantonId ''me'' (Namespace (replicate 34 1))"
definition ex_party :: canton_id where "ex_party = CantonId ''p'' (Namespace (replicate 34 7))"

definition ex_dns :: namespace_definition where
  "ex_dns = \<lparr>decentralized_namespace = namespace_to_hex std_hex (ns ex_party), dns_threshold = 1,
     dns_owners = [as_str (compute_fingerprint (example_proto (\<lambda>_. None)) (example_key [1]))]\<rparr>"

definition ex_p2p :: "signing_public_key \<Rightarrow> party_to_participant" where
  "ex_p2p k = \<lparr>p2p_party = canton_id_display std_hex ex_party, p2p_threshold = 1,
     p2p_participants = [\<lparr>participant_uid = canton_id_display std_hex ex_me, permission = 2, onboarding = None\<rparr>],
     p2p_signing_keys = Some \<lparr>sk_keys = [k], sk_threshold = 1\<rparr>\<rparr>"

definition ex_txs :: "bytes \<Rightarrow> topology_transaction option" where
  "ex_txs bs = (if bs = [10] then Some \<lparr>operation = 1, tx_serial = 8, tx_mapping = Some (DecentralizedNamespaceDefinition ex_dns)\<rparr>
     else if bs = [20] then Some \<lparr>operation = 1, tx_serial = 8, tx_mapping = Some (PartyToParticipant (ex_p2p (example_key [1])))\<rparr>
     else if bs = [30] then Some \<lparr>operation = 1, tx_serial = 8, tx_mapping = Some (PartyToParticipant (ex_p2p (example_key [2])))\<rparr>
     else None)"

definition ex_node :: node where
  "ex_node = \<lparr>nd_proto = example_proto ex_txs,
     nd_api = \<lparr>list_party_to_participant = (\<lambda>_ _. Inr [(Some \<lparr>ctx_operation = 1, ctx_serial = 7\<rparr>, Some (P2pV30 (ex_p2p (example_key [1]))))]),
       list_namespace_definition = (\<lambda>_ _. Inr [(Some \<lparr>ctx_operation = 1, ctx_serial = 7\<rparr>, Some ex_dns)]),
       list_party_to_key_mapping = (\<lambda>_ _. Inr []), list_my_keys = (\<lambda>_ _ _. Inr [Some (example_key [1])])\<rparr>,
     nd_storage = \<lparr>read_artifact = (\<lambda>_ _ _. Inr None), read_identity = (\<lambda>_ _ _. Inr None),
       list_identity = (\<lambda>_ _. Inr []), dec_party_participants = (\<lambda>_. Inr [])\<rparr>,
     nd_sync = Inr ''sync''\<rparr>"

definition ex_expect :: peer_expectations where
  "ex_expect = \<lparr>ex_kind = ChangeThreshold, contract_intents = [], members = {ex_me}, dec_party_id = Some ex_party,
     ex_prefix = None, ex_threshold = Some 1, confirmation_threshold = None, kicked_participant = None,
     new_participant = None, dar_filenames = [''a.dar''], dar_hashes = [hash_dar (example_proto (\<lambda>_. None)) [5, 6]],
     self_id = ex_me\<rparr>"

lemma ex_parse [simp]: "canton_id_parse std_hex (canton_id_display std_hex ex_me) = Inr ex_me"
  by (rule std.parse_display_no_colon) (simp_all add: ex_me_def wf_id_def wf_namespace_def NAMESPACE_LENGTH_def)

lemma example_fingerprint_table:
  "compute_fingerprint (example_proto t) (example_key bs) = compute_fingerprint (example_proto (\<lambda>_. None)) (example_key bs)"
  by (simp add: example_fingerprint)

lemma ex_decode [simp]:
  "decode_add_replace (example_proto ex_txs) [1, b] =
     (case ex_txs [b] of None \<Rightarrow> Inl NoTransaction | Some tx \<Rightarrow> if operation tx = 1 then Inr tx else Inl (NotAddReplace (operation tx)))"
  by (simp add: decode_add_replace_def decode_versioned_def read_first_message_from_bytes_def example_proto_def leb128_def
      split: option.split)

lemmas ex_defs = ex_node_def ex_expect_def ex_dns_def ex_p2p_def ex_txs_def

lemmas ex_decode_defs = decode_namespace_definition_def decode_party_to_participant_def decode_topology_mapping_def
  decode_proposal_serial_def

lemma example_proto_sel [simp]:
  "proto_hex (example_proto t) = std_hex" "perm_confirmation (example_proto t) = 2" "op_add_replace (example_proto t) = 1"
  "usage_namespace (example_proto t) = 1"
  by (simp_all add: example_proto_def)

lemma ex_node_sel [simp]:
  "nd_proto ex_node = example_proto ex_txs" "nd_sync ex_node = Inr ''sync''"
  "list_my_keys (nd_api ex_node) f n u = Inr [Some (example_key [1])]"
  "list_party_to_participant (nd_api ex_node) s f = Inr [(Some \<lparr>ctx_operation = 1, ctx_serial = 7\<rparr>, Some (P2pV30 (ex_p2p (example_key [1]))))]"
  "list_namespace_definition (nd_api ex_node) s f = Inr [(Some \<lparr>ctx_operation = 1, ctx_serial = 7\<rparr>, Some ex_dns)]"
  "read_artifact (nd_storage ex_node) i k p = Inr None" "read_identity (nd_storage ex_node) d k n = Inr None"
  by (simp_all add: ex_node_def)

lemma ex_expect_sel [simp]:
  "ex_kind ex_expect = ChangeThreshold" "members ex_expect = {ex_me}" "dec_party_id ex_expect = Some ex_party"
  "ex_threshold ex_expect = Some 1" "confirmation_threshold ex_expect = None" "kicked_participant ex_expect = None"
  "new_participant ex_expect = None" "self_id ex_expect = ex_me"
  by (simp_all add: ex_expect_def)

lemma ex_p2p_sel [simp]:
  "p2p_party (ex_p2p k) = canton_id_display std_hex ex_party" "p2p_threshold (ex_p2p k) = 1"
  "p2p_participants (ex_p2p k) = [\<lparr>participant_uid = canton_id_display std_hex ex_me, permission = 2, onboarding = None\<rparr>]"
  "p2p_signing_keys (ex_p2p k) = Some \<lparr>sk_keys = [k], sk_threshold = 1\<rparr>"
  by (simp_all add: ex_p2p_def)

lemma ex_dns_sel [simp]:
  "decentralized_namespace ex_dns = namespace_to_hex std_hex (ns ex_party)" "dns_threshold ex_dns = 1"
  "dns_owners ex_dns = [as_str (compute_fingerprint (example_proto ex_txs) (example_key [1]))]"
  by (simp_all add: ex_dns_def example_fingerprint)

lemma ex_mapping [simp]:
  "decode_namespace_definition (example_proto ex_txs) [1, 10] = Inr ex_dns"
  "decode_proposal_serial (example_proto ex_txs) [1, 10] = Inr 8"
  "decode_party_to_participant (example_proto ex_txs) [1, 20] = Inr (ex_p2p (example_key [1]))"
  "decode_proposal_serial (example_proto ex_txs) [1, 20] = Inr 8"
  "decode_party_to_participant (example_proto ex_txs) [1, 30] = Inr (ex_p2p (example_key [2]))"
  by (simp_all add: ex_decode_defs ex_txs_def)

lemma ex_membership [simp]: "check_p2p_membership (example_proto ex_txs) ex_expect (ex_p2p k) = Inr ()"
  by (simp add: check_p2p_membership_def)

lemma ex_thresholds [simp]: "check_p2p_thresholds ex_expect (ex_p2p k) = Inr ()"
  by (simp add: check_p2p_thresholds_def check_threshold_def check_threshold_against_def i32_try_from_def i32_max_def)

lemma ex_own_keys [simp]: "own_keys ex_expect ex_node i = Inr None"
  by (simp add: own_keys_def)

lemma ex_own_namespace [simp]:
  "own_namespace ex_expect ex_node i = Inr (Some (compute_fingerprint (example_proto ex_txs) (example_key [1])))"
  by (simp add: own_namespace_def own_namespace_key_def fetch_namespace_definition_def List.map_filter_simps)

lemma ex_accepted: "check_party_proposals ex_expect ex_node ''run'' [1, 10] [1, 20] = Inr ()"
proof -
  have "check_own_daml_key ex_expect ex_node ''run'' (ex_p2p (example_key [1])) Skip = Inr ()"
    by (simp add: check_own_daml_key_def check_vault_holds_a_party_key_def vault_holds_def)
  moreover have "check_on_chain_delta ex_expect ex_node ''run'' ex_party (8, ex_dns) (8, ex_p2p (example_key [1])) = Inr ()"
    by (simp add: check_on_chain_delta_def new_member_fingerprints_def check_against_head_def
      fetch_namespace_definition_at_head_def fetch_p2p_mapping_at_head_def check_dns_against_head_def already_applied_def
      check_set_delta_def delta_bounds_def key_baseline_def p2p_v30_def u32_try_from_def u32_max_def u32_checked_add_def)
  ultimately show ?thesis
    by (simp add: check_party_proposals_def check_threshold_def check_threshold_against_def i32_try_from_def i32_max_def)
qed

text \<open>And an onboarding run of a one-member party, with a constant in place of the hash.\<close>

definition on_party :: canton_id where "on_party = CantonId ''p'' (Namespace (0x12 # 0x20 # replicate 32 0))"

definition on_dns :: namespace_definition where
  "on_dns = \<lparr>decentralized_namespace = namespace_to_hex std_hex (ns on_party), dns_threshold = 1,
     dns_owners = [MULTIHASH_SHA256_PREFIX @ std_encode (replicate 32 0)]\<rparr>"

definition on_proto :: proto where
  "on_proto = (example_proto (\<lambda>bs. Some \<lparr>operation = 1, tx_serial = 1, tx_mapping = Some
     (if bs = [10] then DecentralizedNamespaceDefinition on_dns
      else PartyToParticipant ((ex_p2p (example_key [2]))\<lparr>p2p_party := canton_id_display std_hex on_party\<rparr>))\<rparr>))
     \<lparr>proto_sha256 := (\<lambda>_. replicate 32 0)\<rparr>"

definition on_node :: node where
  "on_node = ex_node\<lparr>nd_proto := on_proto, nd_storage := (nd_storage ex_node)\<lparr>read_artifact := (\<lambda>_ _ _. Inr (Some [1, 1, 1, 2]))\<rparr>\<rparr>"

definition on_expect :: peer_expectations where
  "on_expect = ex_expect\<lparr>ex_kind := Onboarding, dec_party_id := None, ex_prefix := Some ''p''\<rparr>"

lemma on_fingerprint [simp]: "compute_fingerprint on_proto k = Fingerprint (MULTIHASH_SHA256_PREFIX @ std_encode (replicate 32 0))"
  by (simp add: compute_fingerprint_def fingerprint_from_public_key_def from_sha256_def on_proto_def std_hex_def example_proto_def)

lemma on_sel [simp]:
  "proto_hex on_proto = std_hex" "perm_confirmation on_proto = 2" "usage_namespace on_proto = 1" "proto_sha256 on_proto = (\<lambda>_. replicate 32 0)"
  "nd_proto on_node = on_proto" "read_artifact (nd_storage on_node) i k p = Inr (Some [1, 1, 1, 2])"
  "ex_kind on_expect = Onboarding" "members on_expect = {ex_me}" "dec_party_id on_expect = None" "ex_prefix on_expect = Some ''p''"
  "ex_threshold on_expect = Some 1" "confirmation_threshold on_expect = None" "kicked_participant on_expect = None"
  "new_participant on_expect = None" "self_id on_expect = ex_me"
  by (simp_all add: on_proto_def on_node_def on_expect_def)

lemma on_own_keys [simp]: "own_keys on_expect on_node i = Inr (Some [example_key [1], example_key [2]])"
  by (simp add: own_keys_def decode_keys_payload_def on_proto_def example_proto_def leb128_def)

lemma std_hex_encode [simp]: "hex_encode std_hex = std_encode"
  by (simp add: std_hex_def)

lemma on_namespace [simp]: "namespace_to_hex std_hex (ns on_party) = MULTIHASH_SHA256_PREFIX @ std_encode (replicate 32 0)"
  by (simp add: on_party_def namespace_to_hex_def MULTIHASH_SHA256_PREFIX_def hex_digits_def)

lemma on_parse [simp]: "canton_id_parse std_hex (canton_id_display std_hex on_party) = Inr on_party"
  by (rule std.parse_display_no_colon) (simp_all add: on_party_def wf_id_def wf_namespace_def NAMESPACE_LENGTH_def)

lemma on_decode [simp]:
  "decode_namespace_definition on_proto [1, 10] = Inr on_dns"
  "decode_party_to_participant on_proto [1, 20] = Inr ((ex_p2p (example_key [2]))\<lparr>p2p_party := canton_id_display std_hex on_party\<rparr>)"
  by (simp_all add: ex_decode_defs decode_add_replace_def decode_versioned_def read_first_message_from_bytes_def
      on_proto_def example_proto_def leb128_def)

lemma on_accepted:
  "check_onboarding_dns on_expect on_node ''run'' [1, 10] = Inr (decentralized_namespace on_dns)"
  "check_onboarding_p2p on_expect on_node ''run'' [1, 20] (Some (decentralized_namespace on_dns)) = Inr ()"
  by (simp add: check_onboarding_dns_def own_namespace_def namespace_fingerprint_def example_key_def on_dns_def
      check_threshold_def check_threshold_against_def i32_try_from_def i32_max_def compute_decentralized_namespace_def)
     (simp add: check_onboarding_p2p_def check_own_daml_key_def on_dns_def check_p2p_membership_def check_p2p_thresholds_def
      check_threshold_def check_threshold_against_def i32_try_from_def i32_max_def, simp add: on_party_def)

section \<open>Properties\<close>

text \<open>C19: a peer that accepts the proposals of a kick, add-party or
  change-threshold run knows them to be what its operator agreed to: both name the accepted party; the owners are
  distinct, one per member, at the accepted threshold; the hosts are exactly the accepted members at
  \<open>Confirmation\<close>, itself among them, the kicked one not; exactly the new participant is marked as onboarding;
  confirmation and signing thresholds are the accepted ones over one key per member; its own namespace is among the
  owners if it can resolve it, and a key of its own is among the party's keys.\<close>

theorem proposals_match_invitation:
  assumes "check_party_proposals ex nd inst dns_b p2p_b = Inr ()" "ex_kind ex \<noteq> Onboarding"
  shows "\<exists>party d m. dec_party_id ex = Some party \<and> decode_namespace_definition (nd_proto nd) dns_b = Inr d \<and>
    decode_party_to_participant (nd_proto nd) p2p_b = Inr m \<and>
    decentralized_namespace d = namespace_to_hex (proto_hex (nd_proto nd)) (ns party) \<and>
    p2p_party m = canton_id_display (proto_hex (nd_proto nd)) party \<and>
    distinct (dns_owners d) \<and> length (dns_owners d) = card (members ex) \<and> ex_threshold ex = Some (dns_threshold d) \<and>
    membership_ok (nd_proto nd) ex m \<and> markers_ok (nd_proto nd) ex (p2p_participants m) \<and> thresholds_ok ex m \<and>
    (\<exists>own. own_namespace ex nd inst = Inr own \<and> (\<forall>f. own = Some f \<longrightarrow> as_str f \<in> set (dns_owners d))) \<and>
    (\<exists>ks keys. own_keys ex nd inst = Inr ks \<and> p2p_signing_keys m = Some keys \<and>
      (\<exists>k\<in>set (sk_keys keys). case ks of
         Some own_pair \<Rightarrow> compute_fingerprint (nd_proto nd) k = compute_fingerprint (nd_proto nd) (own_pair ! 1)
       | None \<Rightarrow> vault_holds (nd_api nd) (compute_fingerprint (nd_proto nd) k) = Inr True))"
  using assms(1)
proof (cases rule: check_party_proposals_Inr)
  case (1 party d m own sd sp)
  have t: "ex_threshold ex = Some (dns_threshold d)" using 1(7) assms(2) by (auto simp: threshold_ok_def)
  obtain ks where ks: "own_keys ex nd inst = Inr ks"
    using 1(14) by (auto simp: check_own_daml_key_def and_then_Inr_iff)
  have keys: "\<exists>keys. p2p_signing_keys m = Some keys \<and> (\<exists>k\<in>set (sk_keys keys). case ks of
         Some own_pair \<Rightarrow> compute_fingerprint (nd_proto nd) k = compute_fingerprint (nd_proto nd) (own_pair ! 1)
       | None \<Rightarrow> vault_holds (nd_api nd) (compute_fingerprint (nd_proto nd) k) = Inr True)"
  proof (cases ks)
    case None
    then show ?thesis using own_daml_key_unrecorded [OF 1(14)] ks by simp
  next
    case (Some own_pair)
    then obtain keys where keys: "p2p_signing_keys m = Some keys"
      "compute_fingerprint (nd_proto nd) (own_pair ! 1) \<in> compute_fingerprint (nd_proto nd) ` set (sk_keys keys)"
      using own_daml_key_recorded [OF 1(14)] ks by blast
    then obtain k where "k \<in> set (sk_keys keys)"
      "compute_fingerprint (nd_proto nd) (own_pair ! 1) = compute_fingerprint (nd_proto nd) k" by blast
    then show ?thesis using keys Some by (intro exI [of _ keys]) auto
  qed
  have dist: "distinct (dns_owners d)" using 1(5) by (rule card_distinct)
  show ?thesis
    apply (rule exI [of _ party], rule exI [of _ d], rule exI [of _ m])
    using 1(1-6,8-13) t dist ks keys by simp
qed

theorem proposals_match_invitation_witness:
  "check_party_proposals ex_expect ex_node ''run'' [1, 10] [1, 20] = Inr () \<and> ex_kind ex_expect \<noteq> Onboarding \<and>
   ex_threshold ex_expect = Some (dns_threshold ex_dns)"
proof -
  have k: "ex_kind ex_expect \<noteq> Onboarding" by simp
  obtain d where "decode_namespace_definition (nd_proto ex_node) [1, 10] = Inr d" "ex_threshold ex_expect = Some (dns_threshold d)"
    using proposals_match_invitation [OF ex_accepted k] by blast
  then show ?thesis using ex_accepted by simp
qed



text \<open>C21: the two proposals of an onboarding run describe one party.  If the DNS
  check accepted and returned a namespace, and the P2P check accepted with that namespace, the party's id is the
  accepted prefix with that namespace, the namespace is the hash of exactly as many distinct owners as there are
  members, this node's namespace among them, the hosts are the members, and this node's own Daml key is one of the
  party's keys.  No P2P proposal is accepted before a DNS proposal was.\<close>

theorem onboarding_proposals_bound:
  assumes "check_onboarding_dns ex nd inst dns_b = Inr n" "check_onboarding_p2p ex nd inst p2p_b dns_ns = Inr ()"
    and "dns_ns = None \<or> dns_ns = Some n"
  shows "dns_ns = Some n \<and> (\<exists>d m party f ks keys. decode_namespace_definition (nd_proto nd) dns_b = Inr d \<and>
    decode_party_to_participant (nd_proto nd) p2p_b = Inr m \<and> canton_id_parse (proto_hex (nd_proto nd)) (p2p_party m) = Inr party \<and>
    ex_prefix ex = Some (prefix party) \<and> namespace_to_hex (proto_hex (nd_proto nd)) (ns party) = n \<and>
    n = compute_decentralized_namespace (nd_proto nd) (set (dns_owners d)) \<and>
    distinct (dns_owners d) \<and> length (dns_owners d) = card (members ex) \<and>
    own_namespace ex nd inst = Inr (Some f) \<and> as_str f \<in> set (dns_owners d) \<and>
    threshold_ok ex (ex_threshold ex) (card (members ex)) (dns_threshold d) \<and>
    membership_ok (nd_proto nd) ex m \<and> markers_ok (nd_proto nd) ex (p2p_participants m) \<and> thresholds_ok ex m \<and>
    own_keys ex nd inst = Inr (Some ks) \<and> p2p_signing_keys m = Some keys \<and>
    compute_fingerprint (nd_proto nd) (ks ! 1) \<in> compute_fingerprint (nd_proto nd) ` set (sk_keys keys))"
proof -
  from assms(1) obtain d f where d: "decode_namespace_definition (nd_proto nd) dns_b = Inr d"
    "card (set (dns_owners d)) = length (dns_owners d)" "card (set (dns_owners d)) = card (members ex)"
    "own_namespace ex nd inst = Inr (Some f)" "as_str f \<in> set (dns_owners d)"
    "threshold_ok ex (ex_threshold ex) (card (members ex)) (dns_threshold d)"
    "n = compute_decentralized_namespace (nd_proto nd) (set (dns_owners d))"
    by (auto simp: check_onboarding_dns_def Let_def and_then_Inr_iff map_err_Inr ok_or_Inr check_threshold_def
        check_threshold_against_iff split: if_splits)
  from assms(2) obtain m party where m: "decode_party_to_participant (nd_proto nd) p2p_b = Inr m"
    "canton_id_parse (proto_hex (nd_proto nd)) (p2p_party m) = Inr party" "ex_prefix ex = Some (prefix party)"
    "dns_ns = Some (namespace_to_hex (proto_hex (nd_proto nd)) (ns party))"
    "membership_ok (nd_proto nd) ex m" "markers_ok (nd_proto nd) ex (p2p_participants m)" "thresholds_ok ex m"
    "check_own_daml_key ex nd inst m Fail = Inr ()"
    by (auto simp: check_onboarding_p2p_def Let_def and_then_Inr_iff map_err_Inr ok_or_Inr check_p2p_membership_iff
        check_onboarding_markers_iff check_p2p_thresholds_iff split: if_splits option.splits)
  obtain ks where ks: "own_keys ex nd inst = Inr (Some ks)"
    using m(8) own_daml_key_unrecorded [OF m(8)]
    by (auto simp: check_own_daml_key_def and_then_Inr_iff split: option.splits)
  obtain keys where keys: "p2p_signing_keys m = Some keys"
    "compute_fingerprint (nd_proto nd) (ks ! 1) \<in> compute_fingerprint (nd_proto nd) ` set (sk_keys keys)"
    using own_daml_key_recorded [OF m(8) ks] by blast
  have dist: "distinct (dns_owners d)" using d(2) by (rule card_distinct)
  show ?thesis using assms(3) m(4)
    apply (intro conjI exI [of _ d] exI [of _ m] exI [of _ party] exI [of _ f] exI [of _ ks] exI [of _ keys])
    using d m keys ks dist by auto
qed

theorem onboarding_proposals_bound_witness:
  "check_onboarding_dns on_expect on_node ''run'' [1, 10] = Inr (decentralized_namespace on_dns) \<and>
   (\<exists>d. decode_namespace_definition on_proto [1, 10] = Inr d \<and>
     decentralized_namespace on_dns = compute_decentralized_namespace on_proto (set (dns_owners d)))"
proof -
  have o: "Some (decentralized_namespace on_dns) = None \<or> Some (decentralized_namespace on_dns) = Some (decentralized_namespace on_dns)"
    by simp
  obtain d where "decode_namespace_definition (nd_proto on_node) [1, 10] = Inr d"
    "decentralized_namespace on_dns = compute_decentralized_namespace (nd_proto on_node) (set (dns_owners d))"
    using onboarding_proposals_bound [OF on_accepted o] by blast
  then show ?thesis using on_accepted by auto
qed

lemma check_dars_iff:
  "check_dars P ex files = Inr () \<longleftrightarrow>
     distinct (dar_filenames ex) \<and> distinct (map fst files) \<and> set (map fst files) = set (dar_filenames ex) \<and>
     (dar_filenames ex = [] \<or> dar_hashes ex = [] \<or> length (dar_hashes ex) = length (dar_filenames ex) \<and>
       (\<forall>i<length (dar_filenames ex). \<forall>data. (dar_filenames ex ! i, data) \<in> set files \<longrightarrow> hash_dar P data = dar_hashes ex ! i))"
proof (cases "dar_filenames ex = []")
  case True
  then show ?thesis by (auto simp: check_dars_def)
next
  case False
  have a: "card (set xs) = length xs \<longleftrightarrow> distinct xs" for xs :: "string list"
    using card_distinct distinct_card by blast
  have b: "card (fst ` set files) = length files \<longleftrightarrow> distinct (map fst files)" using a [of "map fst files"] by simp
  have c: "fst ` set files - set (dar_filenames ex) = {} \<and> set (dar_filenames ex) - fst ` set files = {} \<longleftrightarrow>
      fst ` set files = set (dar_filenames ex)" by blast
  show ?thesis
  proof (cases "distinct (dar_filenames ex) \<and> distinct (map fst files) \<and> fst ` set files = set (dar_filenames ex)")
    case True
    then have "card (set (dar_filenames ex)) = length files" "length files = length (dar_filenames ex)"
      using b a [of "dar_filenames ex"] by simp_all
    then show ?thesis using True False dars_found [of ex files P] by (simp add: check_dars_def Let_def a)
  next
    case no: False
    then have "check_dars P ex files \<noteq> Inr ()" using False c by (auto simp: check_dars_def Let_def a b)
    then show ?thesis using no by auto
  qed
qed

text \<open>C22: a peer installs exactly the files its operator accepted.  The check accepts a bundle if and
  only if the names of the invitation are distinct, the files carry exactly these names, each once, and, when the
  invitation carries hashes, there is one per name and every file's content hashes to the one at its name's place.\<close>

theorem dars_pinned:
  "check_dars P ex files = Inr () \<longleftrightarrow>
     distinct (dar_filenames ex) \<and> distinct (map fst files) \<and> set (map fst files) = set (dar_filenames ex) \<and>
     (dar_filenames ex = [] \<or> dar_hashes ex = [] \<or> length (dar_hashes ex) = length (dar_filenames ex) \<and>
       (\<forall>i<length (dar_filenames ex). \<forall>data. (dar_filenames ex ! i, data) \<in> set files \<longrightarrow> hash_dar P data = dar_hashes ex ! i))"
  by (rule check_dars_iff)

theorem dars_pinned_witness:
  "check_dars (example_proto (\<lambda>_. None)) ex_expect [(''a.dar'', [5, 6])] = Inr () \<and>
   hash_dar (example_proto (\<lambda>_. None)) [5, 6] = dar_hashes ex_expect ! 0"
proof -
  have e: "dar_filenames ex_expect = [''a.dar'']" "dar_hashes ex_expect = [hash_dar (example_proto (\<lambda>_. None)) [5, 6]]"
    by (simp_all add: ex_expect_def)
  then have "check_dars (example_proto (\<lambda>_. None)) ex_expect [(''a.dar'', [5, 6])] = Inr ()"
    unfolding dars_pinned by simp
  then show ?thesis using e by simp
qed

text \<open>The check of the proposal that clears the onboarding flag does not look at
  which keys it carries, nor at its serial: two proposals for the same mapping but for the party's signing keys, equal
  only in number and threshold, get the same answer.\<close>

theorem clear_onboarding_key_blind:
  assumes "decode_party_to_participant P blob = Inr m" "p2p_signing_keys m = Some keys"
    and "decode_party_to_participant P blob' = Inr (m\<lparr>p2p_signing_keys := Some (keys\<lparr>sk_keys := other\<rparr>)\<rparr>)"
    and "length other = length (sk_keys keys)"
  shows "check_clear_onboarding P ex blob' = check_clear_onboarding P ex blob"
  using assms by (simp add: check_clear_onboarding_def check_p2p_membership_def check_p2p_thresholds_def)

theorem clear_onboarding_key_blind_witness:
  "check_clear_onboarding (example_proto ex_txs) ex_expect [1, 30] = check_clear_onboarding (example_proto ex_txs) ex_expect [1, 20] \<and>
   check_clear_onboarding (example_proto ex_txs) ex_expect [1, 20] = Inr () \<and>
   p2p_signing_keys (ex_p2p (example_key [1])) \<noteq> p2p_signing_keys (ex_p2p (example_key [2]))"
proof -
  have m: "ex_p2p (example_key [2]) = (ex_p2p (example_key [1]))\<lparr>p2p_signing_keys :=
      Some (\<lparr>sk_keys = [example_key [1]], sk_threshold = 1\<rparr>\<lparr>sk_keys := [example_key [2]]\<rparr>)\<rparr>" by (simp add: ex_p2p_def)
  have "check_clear_onboarding (example_proto ex_txs) ex_expect [1, 30] = check_clear_onboarding (example_proto ex_txs) ex_expect [1, 20]"
    by (rule clear_onboarding_key_blind [where m = "ex_p2p (example_key [1])" and other = "[example_key [2]]"
          and keys = "\<lparr>sk_keys = [example_key [1]], sk_threshold = 1\<rparr>"]) (simp_all add: m [symmetric])
  then show ?thesis by (simp add: check_clear_onboarding_def example_key_def)
qed

end
