(* ===== verification/Workflow_State.thy ===== *)
theory Workflow_State
  imports Workflow_Step Pipe
begin

text \<open>
  The coordinator's state machine of one workflow run, \<open>WorkflowState<S>\<close> of
  \<open>crates/decman/src/workflow/state.rs\<close>, and the row of \<open>workflow_runs\<close> it writes through to
  (\<open>db/sqlite.rs\<close>, \<open>server/handlers/workflows.rs\<close>).

  Every operation is a function on the state; the database is the row in the state together with
  an outcome of the transaction, so each failure the code logs and ignores is a branch.  The
  operations here run one at a time; \<open>Workflow_Locks\<close> interleaves them at their lock operations.
\<close>

section \<open>State\<close>

datatype workflow_progress = Idle | InProgress | Completed | Failed | Cancelled

text \<open>The columns of \<open>workflow_runs\<close> the state machine writes, and the artefacts kept for the
  run.\<close>

record run_row =
  row_status :: workflow_progress
  row_error :: "string option"
  row_step :: string
  row_index :: int
  row_completed :: "canton_id set"
  row_updated_at :: int
  row_artifacts :: "string \<rightharpoonup> bytes"

text \<open>How a transaction ends: it cannot begin, the statement fails, the commit fails, or it is
  committed.  A transaction that is not committed is rolled back.\<close>

datatype db_outcome = BeginFailed | UpdateFailed | CommitFailed | Committed

record 's wstate =
  db_row :: run_row
  instance_name :: string
  current_step :: 's
  expected_peers :: "canton_id set"
  peer_threshold :: "nat option"
  connected_peers :: "canton_id set"
  completed_peers :: "canton_id set"
  peer_data :: "canton_id \<rightharpoonup> bytes"
  command_payload :: bytes
  acs_export :: "(canton_id \<times> export_session) option"

definition wstate_new :: "run_row \<Rightarrow> string \<Rightarrow> 's \<Rightarrow> canton_id list \<Rightarrow> nat option \<Rightarrow> 's wstate" where
  "wstate_new row inst initial expected threshold = \<lparr>db_row = row, instance_name = inst, current_step = initial,
     expected_peers = set expected, peer_threshold = threshold, connected_peers = {}, completed_peers = {},
     peer_data = Map.empty, command_payload = [], acs_export = None\<rparr>"

definition from_persisted ::
    "run_row \<Rightarrow> string \<Rightarrow> 's \<Rightarrow> canton_id list \<Rightarrow> canton_id list \<Rightarrow> nat option \<Rightarrow> 's wstate" where
  "from_persisted row inst step expected completed threshold = \<lparr>db_row = row, instance_name = inst,
     current_step = step, expected_peers = set expected, peer_threshold = threshold, connected_peers = {},
     completed_peers = set completed, peer_data = Map.empty, command_payload = [], acs_export = None\<rparr>"

section \<open>Persistence\<close>

definition update_workflow_run_step ::
    "string \<Rightarrow> int \<Rightarrow> canton_id set \<Rightarrow> int \<Rightarrow> run_row \<Rightarrow> run_row" where
  "update_workflow_run_step name index completed now row =
     row\<lparr>row_step := name, row_index := index, row_completed := completed, row_updated_at := now\<rparr>"

definition persist_step_progress ::
    "'s step_ops \<Rightarrow> int \<Rightarrow> db_outcome \<Rightarrow> 's \<Rightarrow> canton_id set \<Rightarrow> 's wstate \<Rightarrow> 's wstate" where
  "persist_step_progress ops now db step completed s =
     (case db of
        BeginFailed \<Rightarrow> s
      | UpdateFailed \<Rightarrow> s
      | CommitFailed \<Rightarrow> s
      | Committed \<Rightarrow> s\<lparr>db_row := update_workflow_run_step (step_name ops step) (step_index ops step) completed now (db_row s)\<rparr>)"

text \<open>\<open>finish_workflow_run\<close>: only a row that is idle or in progress takes a terminal status; a
  clean end drops the artefacts.\<close>

definition finish_workflow_run ::
    "workflow_progress \<Rightarrow> string option \<Rightarrow> int \<Rightarrow> run_row \<Rightarrow> string + run_row \<times> bool" where
  "finish_workflow_run status err now row =
     (if status \<in> {Idle, InProgress} then Inl ''not a terminal workflow status''
      else if row_status row \<in> {Idle, InProgress} then
        Inr (let row' = row\<lparr>row_status := status, row_error := err, row_updated_at := now\<rparr> in
             if status \<in> {Completed, Cancelled} then row'\<lparr>row_artifacts := Map.empty\<rparr> else row', True)
      else Inr (row, False))"

definition finish_run ::
    "db_outcome \<Rightarrow> workflow_progress \<Rightarrow> string option \<Rightarrow> int \<Rightarrow> run_row \<Rightarrow> run_row \<times> (string + bool)" where
  "finish_run db status err now row =
     (case db of
        BeginFailed \<Rightarrow> (row, Inl ''begin'')
      | UpdateFailed \<Rightarrow> (row, Inl ''update'')
      | CommitFailed \<Rightarrow> (row, case finish_workflow_run status err now row of Inl e \<Rightarrow> Inl e | Inr _ \<Rightarrow> Inl ''commit'')
      | Committed \<Rightarrow> (case finish_workflow_run status err now row of
          Inl e \<Rightarrow> (row, Inl e) | Inr (row', moved) \<Rightarrow> (row', Inr moved)))"

definition mark_run_failed :: "db_outcome \<Rightarrow> string \<Rightarrow> int \<Rightarrow> run_row \<Rightarrow> run_row" where
  "mark_run_failed db err now row = fst (finish_run db Failed (Some err) now row)"

definition mark_run_completed :: "db_outcome \<Rightarrow> int \<Rightarrow> run_row \<Rightarrow> run_row" where
  "mark_run_completed db now row = fst (finish_run db Completed None now row)"

definition mark_run_cancelled :: "db_outcome \<Rightarrow> int \<Rightarrow> run_row \<Rightarrow> run_row \<times> (string + bool)" where
  "mark_run_cancelled db now row = finish_run db Cancelled None now row"

definition mark_failed :: "db_outcome \<Rightarrow> int \<Rightarrow> string \<Rightarrow> 's wstate \<Rightarrow> 's wstate" where
  "mark_failed db now err s = s\<lparr>db_row := mark_run_failed db err now (db_row s)\<rparr>"

section \<open>Advancing\<close>

definition peers_quorum :: "'s wstate \<Rightarrow> nat" where
  "peers_quorum s = (let total = card (expected_peers s) in
     case peer_threshold s of
       Some k \<Rightarrow> if total > 0 then clamp k 1 total else total
     | None \<Rightarrow> total)"

definition advance_locked :: "'s step_ops \<Rightarrow> int \<Rightarrow> db_outcome \<Rightarrow> 's wstate \<Rightarrow> 's wstate" where
  "advance_locked ops now db s =
     (case next_step ops (current_step s) of
        Some t \<Rightarrow> persist_step_progress ops now db t {} (s\<lparr>current_step := t, completed_peers := {}\<rparr>)
      | None \<Rightarrow> s)"

definition advance_step :: "'s step_ops \<Rightarrow> int \<Rightarrow> db_outcome \<Rightarrow> 's wstate \<Rightarrow> 's wstate" where
  "advance_step ops now db s = advance_locked ops now db s"

definition advance_step_if :: "'s step_ops \<Rightarrow> int \<Rightarrow> db_outcome \<Rightarrow> 's \<Rightarrow> 's wstate \<Rightarrow> 's wstate" where
  "advance_step_if ops now db expected s =
     (if current_step s \<noteq> expected then s else advance_locked ops now db s)"

text \<open>The gate of \<open>cur\<close>: \<open>WaitingForPeers\<close> counts connections, the other steps that need peers
  count completions.\<close>

definition gate_ready :: "'s step_ops \<Rightarrow> 's \<Rightarrow> 's wstate \<Rightarrow> bool" where
  "gate_ready ops cur s =
     (if is_waiting_for_peers ops cur then peers_quorum s \<le> card (connected_peers s)
      else if requires_peers ops cur then peers_quorum s \<le> card (completed_peers s)
      else False)"

definition maybe_advance :: "'s step_ops \<Rightarrow> int \<Rightarrow> db_outcome \<Rightarrow> 's wstate \<Rightarrow> 's wstate" where
  "maybe_advance ops now db s =
     (let cur = current_step s in
      if gate_ready ops cur s then advance_step_if ops now db cur s else s)"

section \<open>Peer events\<close>

definition peer_connected :: "'s step_ops \<Rightarrow> int \<Rightarrow> db_outcome \<Rightarrow> canton_id \<Rightarrow> 's wstate \<Rightarrow> 's wstate" where
  "peer_connected ops now db p s =
     (if p \<notin> expected_peers s then s
      else maybe_advance ops now db (s\<lparr>connected_peers := insert p (connected_peers s)\<rparr>))"

definition peer_completed ::
    "'s step_ops \<Rightarrow> int \<Rightarrow> db_outcome \<Rightarrow> db_outcome \<Rightarrow> canton_id \<Rightarrow> 's wstate \<Rightarrow> 's wstate" where
  "peer_completed ops now db1 db2 p s =
     (if p \<notin> expected_peers s then s
      else let s1 = s\<lparr>completed_peers := insert p (completed_peers s)\<rparr>;
               s2 = persist_step_progress ops now db1 (current_step s1) (completed_peers s1) s1
           in maybe_advance ops now db2 s2)"

definition has_peer_completed :: "canton_id \<Rightarrow> 's wstate \<Rightarrow> bool" where
  "has_peer_completed p s \<longleftrightarrow> p \<in> completed_peers s"

definition current_command :: "'s step_ops \<Rightarrow> 's wstate \<Rightarrow> message_type option" where
  "current_command ops s = to_command ops (current_step s)"

definition store_peer_data :: "canton_id \<Rightarrow> bytes \<Rightarrow> 's wstate \<Rightarrow> 's wstate" where
  "store_peer_data p d s = s\<lparr>peer_data := (peer_data s)(p \<mapsto> d)\<rparr>"

definition clear_peer_data :: "'s wstate \<Rightarrow> 's wstate" where
  "clear_peer_data s = s\<lparr>peer_data := Map.empty\<rparr>"

definition set_command_payload :: "bytes \<Rightarrow> 's wstate \<Rightarrow> 's wstate" where
  "set_command_payload p s = s\<lparr>command_payload := p\<rparr>"

definition clear_command_payload :: "'s wstate \<Rightarrow> 's wstate" where
  "clear_command_payload s = s\<lparr>command_payload := []\<rparr>"

text \<open>\<open>stranded_by\<close> reads the step, then the completed set, then the step again, and other tasks
  may run in between: \<open>s1\<close>, \<open>s2\<close> and \<open>s3\<close> are the states at the three reads.  The expected peers
  and the threshold never change.\<close>

definition stranded_by :: "'s step_ops \<Rightarrow> 's wstate \<Rightarrow> 's wstate \<Rightarrow> 's wstate
    \<Rightarrow> (canton_id \<rightharpoonup> string) \<Rightarrow> (string \<times> (canton_id \<times> string) list) option" where
  "stranded_by ops s1 s2 s3 unavailable =
     (let step = current_step s1 in
      if \<not> requires_peers ops step then None
      else let completed = completed_peers s2 in
        if current_step s3 \<noteq> step then None
        else let missing = map (\<lambda>p. (p, the (unavailable p)))
               (sorted_list_of_set {p \<in> expected_peers s1. p \<notin> completed \<and> unavailable p \<noteq> None}) in
          if peers_quorum s1 \<le> card (expected_peers s1) - length missing then None
          else Some (step_name ops step, missing))"

section \<open>The ACS export of a run\<close>

datatype acs_error =
    NotTheTarget canton_id
  | ExportRestarted nat
  | NoExportOpen
  | AcsPipe pipe_error

definition set_acs_export :: "canton_id \<Rightarrow> export_session \<Rightarrow> 's wstate \<Rightarrow> 's wstate" where
  "set_acs_export authorized session s = s\<lparr>acs_export := Some (authorized, session)\<rparr>"

definition has_acs_export :: "'s wstate \<Rightarrow> bool" where
  "has_acs_export s \<longleftrightarrow> acs_export s \<noteq> None"

definition clear_acs_export :: "'s wstate \<Rightarrow> 's wstate" where
  "clear_acs_export s = s\<lparr>acs_export := None\<rparr>"

definition next_acs_block :: "hexlib \<Rightarrow> (bytes \<Rightarrow> bytes) \<Rightarrow> int \<Rightarrow> canton_id \<Rightarrow> nat \<Rightarrow> nat
    \<Rightarrow> 's wstate \<Rightarrow> 's wstate \<times> (acs_error + pipe_block)" where
  "next_acs_block H sha256 now caller seq block_size s =
     (case acs_export s of
        Some (authorized, session) \<Rightarrow>
          if authorized \<noteq> caller then (s, Inl (NotTheTarget caller))
          else if seq \<le> 1 \<and> served_past_first session then (s\<lparr>acs_export := None\<rparr>, Inl (ExportRestarted seq))
          else (case export_block H sha256 now session seq block_size of
             (session', r) \<Rightarrow> (s\<lparr>acs_export := Some (authorized, session')\<rparr>, map_err AcsPipe r))
      | None \<Rightarrow> (s, Inl NoExportOpen))"

definition acs_export_served :: "'s wstate \<Rightarrow> nat" where
  "acs_export_served s = (case acs_export s of Some (_, session) \<Rightarrow> total_len session | None \<Rightarrow> 0)"

definition i64_clamp :: "nat \<Rightarrow> int" where
  "i64_clamp n = (if int n < 2 ^ 63 then int n else 2 ^ 63 - 1)"

record acs_progress =
  progress_bytes :: int
  progress_block :: int
  progress_started :: int
  progress_updated :: int

definition acs_export_progress :: "'s wstate \<Rightarrow> acs_progress option" where
  "acs_export_progress s = (case acs_export s of
     Some (_, session) \<Rightarrow> Some \<lparr>progress_bytes = i64_clamp (total_len session),
        progress_block = i64_clamp (served_seq session), progress_started = started_at_ms session,
        progress_updated = last_served_at_ms session\<rparr>
   | None \<Rightarrow> None)"

section \<open>Steps of a run\<close>

text \<open>What the code does to the state of a run: peer events, the coordinator loop's own advances,
  and the buffers.  \<open>D\<close> is the set of outcomes a transaction may have.\<close>

inductive wstep :: "'s step_ops \<Rightarrow> db_outcome set \<Rightarrow> 's wstate \<Rightarrow> 's wstate \<Rightarrow> bool"
  for ops :: "'s step_ops" and D :: "db_outcome set" where
  connected: "db \<in> D \<Longrightarrow> wstep ops D s (peer_connected ops now db p s)"
| completed: "db1 \<in> D \<Longrightarrow> db2 \<in> D \<Longrightarrow> wstep ops D s (peer_completed ops now db1 db2 p s)"
| advance: "db \<in> D \<Longrightarrow> wstep ops D s (advance_step ops now db s)"
| advance_if: "db \<in> D \<Longrightarrow> wstep ops D s (advance_step_if ops now db e s)"
| stored: "wstep ops D s (store_peer_data p d s)"
| data_cleared: "wstep ops D s (clear_peer_data s)"
| payload_set: "wstep ops D s (set_command_payload b s)"
| payload_cleared: "wstep ops D s (clear_command_payload s)"
| export_set: "wstep ops D s (set_acs_export a x s)"
| export_served: "wstep ops D s (fst (next_acs_block H sha256 t p q n s))"
| export_cleared: "wstep ops D s (clear_acs_export s)"
| failed: "wstep ops D s (mark_failed db now e s)"

definition wreach :: "'s step_ops \<Rightarrow> db_outcome set \<Rightarrow> 's wstate \<Rightarrow> 's wstate \<Rightarrow> bool" where
  "wreach ops D = (wstep ops D)\<^sup>*\<^sup>*"

section \<open>Lemmas\<close>

named_theorems wstate_defs
lemmas [wstate_defs] = persist_step_progress_def update_workflow_run_step_def advance_locked_def
  advance_step_def advance_step_if_def maybe_advance_def peer_connected_def peer_completed_def

text \<open>The operations on the buffers and the export.\<close>

lemmas buffer_defs = store_peer_data_def clear_peer_data_def set_command_payload_def
  clear_command_payload_def set_acs_export_def clear_acs_export_def mark_failed_def

text \<open>Fields the peer events and the advances leave alone.\<close>

lemma persist_frame [simp]:
  "current_step (persist_step_progress ops now db t c s) = current_step s"
  "completed_peers (persist_step_progress ops now db t c s) = completed_peers s"
  "connected_peers (persist_step_progress ops now db t c s) = connected_peers s"
  "expected_peers (persist_step_progress ops now db t c s) = expected_peers s"
  "peer_threshold (persist_step_progress ops now db t c s) = peer_threshold s"
  "peers_quorum (persist_step_progress ops now db t c s) = peers_quorum s"
  by (cases db; simp add: persist_step_progress_def peers_quorum_def)+

lemma advance_frame [simp]:
  "expected_peers (advance_locked ops now db s) = expected_peers s"
  "connected_peers (advance_locked ops now db s) = connected_peers s"
  "peer_threshold (advance_locked ops now db s) = peer_threshold s"
  by (simp_all add: advance_locked_def split: option.splits)

lemma maybe_advance_cases:
  "maybe_advance ops now db s =
     (if gate_ready ops (current_step s) s then advance_locked ops now db s else s)"
  by (simp add: maybe_advance_def advance_step_if_def Let_def)

lemma maybe_advance_frame [simp]:
  "expected_peers (maybe_advance ops now db s) = expected_peers s"
  "connected_peers (maybe_advance ops now db s) = connected_peers s"
  "peer_threshold (maybe_advance ops now db s) = peer_threshold s"
  by (simp_all add: maybe_advance_cases)

lemma peers_quorum_cong:
  "expected_peers s = expected_peers t \<Longrightarrow> peer_threshold s = peer_threshold t \<Longrightarrow> peers_quorum s = peers_quorum t"
  by (simp add: peers_quorum_def)

lemma peers_quorum_bounds:
  "peers_quorum s \<le> card (expected_peers s)" "0 < card (expected_peers s) \<Longrightarrow> 1 \<le> peers_quorum s"
  using clamp_bounds [of 1 "card (expected_peers s)"]
  by (auto simp: peers_quorum_def Let_def split: option.splits)

lemma next_acs_block_frame:
  "\<exists>x. fst (next_acs_block H sha256 t p q n s) = s\<lparr>acs_export := x\<rparr>"
proof (cases "acs_export s")
  case None
  then show ?thesis by (intro exI [of _ None]) (simp add: next_acs_block_def)
next
  case (Some x)
  then show ?thesis
    by (cases "export_block H sha256 t (snd x) q n")
      (auto simp: next_acs_block_def split: prod.splits intro: exI [of _ "Some x"])
qed

lemma mark_run_failed_frame [simp]:
  "row_step (mark_run_failed db e now row) = row_step row"
  "row_index (mark_run_failed db e now row) = row_index row"
  "row_completed (mark_run_failed db e now row) = row_completed row"
  by (cases db; simp add: mark_run_failed_def finish_run_def finish_workflow_run_def)+

text \<open>The row never runs ahead of the state: it names a step at or before the current one, and if
  it names the current one its completed peers have completed it.  The expected peers and the
  threshold are fixed.\<close>

definition row_behind :: "'s step_ops \<Rightarrow> 's wstate \<Rightarrow> bool" where
  "row_behind ops s \<longleftrightarrow> (\<exists>t. try_from_step_name ops (row_step (db_row s)) = Some t
     \<and> row_index (db_row s) = step_index ops t \<and> step_index ops t \<le> step_index ops (current_step s)
     \<and> (t = current_step s \<longrightarrow> row_completed (db_row s) \<subseteq> completed_peers s))"

definition row_exact :: "'s step_ops \<Rightarrow> 's wstate \<Rightarrow> bool" where
  "row_exact ops s \<longleftrightarrow> row_step (db_row s) = step_name ops (current_step s)
     \<and> row_completed (db_row s) = completed_peers s"

definition winv :: "'s step_ops \<Rightarrow> 's wstate \<Rightarrow> bool" where
  "winv ops s \<longleftrightarrow> finite (expected_peers s) \<and> connected_peers s \<subseteq> expected_peers s
     \<and> completed_peers s \<subseteq> expected_peers s \<and> row_behind ops s"

text \<open>The state of a run whose row was inserted for its first step.\<close>

definition winitial :: "'s step_ops \<Rightarrow> 's wstate \<Rightarrow> bool" where
  "winitial ops s \<longleftrightarrow> finite (expected_peers s) \<and> connected_peers s = {} \<and> completed_peers s = {}
     \<and> row_step (db_row s) = step_name ops (current_step s)
     \<and> row_index (db_row s) = step_index ops (current_step s) \<and> row_completed (db_row s) = {}"

context workflow_step
begin

lemma winitial_winv: "winitial ops s \<Longrightarrow> winv ops s \<and> row_exact ops s"
  by (simp add: winitial_def winv_def row_behind_def row_exact_def name_roundtrip)

lemma row_behind_persist:
  "row_behind ops (persist_step_progress ops now Committed (current_step s) (completed_peers s) s)"
  by (simp add: row_behind_def wstate_defs name_roundtrip)

lemma advance_index:
  "step_index ops (current_step (advance_locked ops now db s)) \<ge> step_index ops (current_step s)"
  by (auto simp: advance_locked_def index_next split: option.splits)

lemma winv_advance_locked: "winv ops s \<Longrightarrow> winv ops (advance_locked ops now db s)"
proof (cases "next_step ops (current_step s)")
  case (Some t)
  assume inv: "winv ops s"
  then obtain r where r: "try_from_step_name ops (row_step (db_row s)) = Some r"
    "row_index (db_row s) = step_index ops r" "step_index ops r \<le> step_index ops (current_step s)"
    by (auto simp: winv_def row_behind_def)
  have i: "step_index ops t = step_index ops (current_step s) + 1" by (rule index_next [OF Some])
  then have "r \<noteq> t" using r(3) by auto
  with Some inv r i show ?thesis
    by (cases db) (auto simp: advance_locked_def winv_def row_behind_def wstate_defs name_roundtrip)
qed (simp add: advance_locked_def)

lemma winv_maybe_advance: "winv ops s \<Longrightarrow> winv ops (maybe_advance ops now db s)"
  by (simp add: maybe_advance_cases winv_advance_locked)

lemma winv_wstep:
  assumes "wstep ops D s s'" and "winv ops s"
  shows "winv ops s'"
  using assms
proof (induction rule: wstep.induct)
  case (connected db s now p)
  then have "p \<in> expected_peers s \<Longrightarrow> winv ops (s\<lparr>connected_peers := insert p (connected_peers s)\<rparr>)"
    by (auto simp: winv_def row_behind_def)
  then show ?case using connected by (simp add: peer_connected_def winv_maybe_advance)
next
  case (completed db1 db2 s now p)
  let ?s1 = "s\<lparr>completed_peers := insert p (completed_peers s)\<rparr>"
  have "winv ops (persist_step_progress ops now db1 (current_step ?s1) (completed_peers ?s1) ?s1)"
    if "p \<in> expected_peers s"
    using completed that
    by (cases db1) (auto simp: winv_def row_behind_def wstate_defs name_roundtrip)
  then show ?case using completed by (simp add: peer_completed_def Let_def winv_maybe_advance)
next
  case (export_served s H sha256 t p q n)
  then show ?case using next_acs_block_frame [of H sha256 t p q n s]
    by (auto simp: winv_def row_behind_def)
next
  case (advance db s now)
  then show ?case by (simp add: advance_step_def winv_advance_locked)
next
  case (advance_if db s now e)
  then show ?case by (simp add: advance_step_if_def winv_advance_locked)
qed (auto simp: winv_def row_behind_def buffer_defs)

lemma winv_wreach: "wreach ops D s s' \<Longrightarrow> winv ops s \<Longrightarrow> winv ops s'"
  unfolding wreach_def by (induction rule: rtranclp_induct) (auto intro: winv_wstep)

text \<open>Steps are never undone, and the expected peers and the threshold are fixed.\<close>

lemma wstep_mono:
  assumes "wstep ops D s s'"
  shows "step_index ops (current_step s) \<le> step_index ops (current_step s') \<and>
    expected_peers s' = expected_peers s \<and> peer_threshold s' = peer_threshold s"
  using assms
proof (induction rule: wstep.induct)
  case (completed db1 db2 s now p)
  then show ?case
    using advance_index [of "persist_step_progress ops now db1 (current_step s) (insert p (completed_peers s)) (s\<lparr>completed_peers := insert p (completed_peers s)\<rparr>)" now db2]
    by (simp add: peer_completed_def Let_def maybe_advance_cases)
next
  case (connected db s now p)
  then show ?case using advance_index [of "s\<lparr>connected_peers := insert p (connected_peers s)\<rparr>" now db]
    by (simp add: peer_connected_def maybe_advance_cases)
next
  case (export_served s H sha256 t p q n)
  then show ?case using next_acs_block_frame [of H sha256 t p q n s] by auto
qed (auto simp: advance_step_def advance_step_if_def advance_index buffer_defs)

lemma wreach_mono:
  "wreach ops D s s' \<Longrightarrow> step_index ops (current_step s) \<le> step_index ops (current_step s') \<and>
    expected_peers s' = expected_peers s \<and> peer_threshold s' = peer_threshold s"
  unfolding wreach_def by (induction rule: rtranclp_induct) (auto dest: wstep_mono)

text \<open>When every write commits the row is exact.\<close>

lemma row_exact_advance_locked: "row_exact ops s \<Longrightarrow> row_exact ops (advance_locked ops now Committed s)"
  by (auto simp: advance_locked_def row_exact_def wstate_defs split: option.splits)

lemma row_exact_wstep:
  assumes "wstep ops {Committed} s s'" and "row_exact ops s"
  shows "row_exact ops s'"
  using assms
proof (induction rule: wstep.induct)
  case (connected db s now p)
  then have "row_exact ops (s\<lparr>connected_peers := insert p (connected_peers s)\<rparr>)" by (simp add: row_exact_def)
  then show ?case using connected by (simp add: peer_connected_def maybe_advance_cases row_exact_advance_locked)
next
  case (completed db1 db2 s now p)
  have "row_exact ops (persist_step_progress ops now Committed (current_step s) (insert p (completed_peers s))
      (s\<lparr>completed_peers := insert p (completed_peers s)\<rparr>))"
    by (simp add: row_exact_def wstate_defs)
  then show ?case using completed
    by (simp add: peer_completed_def Let_def maybe_advance_cases row_exact_advance_locked)
next
  case (export_served s H sha256 t p q n)
  then show ?case using next_acs_block_frame [of H sha256 t p q n s] by (auto simp: row_exact_def)
next
  case (advance db s now)
  then show ?case by (simp add: advance_step_def row_exact_advance_locked)
next
  case (advance_if db s now e)
  then show ?case by (simp add: advance_step_if_def row_exact_advance_locked)
qed (auto simp: row_exact_def buffer_defs)

lemma row_exact_wreach: "wreach ops {Committed} s s' \<Longrightarrow> row_exact ops s \<Longrightarrow> row_exact ops s'"
  unfolding wreach_def by (induction rule: rtranclp_induct) (auto intro: row_exact_wstep)

subsection \<open>Gates\<close>

lemma completed_gate:
  assumes "requires_peers ops (current_step s)" and "p \<in> expected_peers s"
  shows "current_step (peer_completed ops now db1 db2 p s) =
      (if peers_quorum s \<le> card (insert p (completed_peers s)) then the (next_step ops (current_step s)) else current_step s)"
    and "completed_peers (peer_completed ops now db1 db2 p s) =
      (if peers_quorum s \<le> card (insert p (completed_peers s)) then {} else insert p (completed_peers s))"
proof -
  let ?s1 = "s\<lparr>completed_peers := insert p (completed_peers s)\<rparr>"
  let ?s2 = "persist_step_progress ops now db1 (current_step s) (insert p (completed_peers s)) ?s1"
  have w: "\<not> is_waiting_for_peers ops (current_step s)" using assms(1) waiting_idle by blast
  have q: "peers_quorum ?s2 = peers_quorum s" by (simp add: peers_quorum_def)
  obtain t where t: "next_step ops (current_step s) = Some t" using gated_next [OF assms(1)] by blast
  have "gate_ready ops (current_step ?s2) ?s2 \<longleftrightarrow> peers_quorum s \<le> card (insert p (completed_peers s))"
    using w assms(1) q by (simp add: gate_ready_def)
  moreover have "peer_completed ops now db1 db2 p s = maybe_advance ops now db2 ?s2"
    using assms(2) by (simp add: peer_completed_def Let_def)
  ultimately show "current_step (peer_completed ops now db1 db2 p s) =
      (if peers_quorum s \<le> card (insert p (completed_peers s)) then the (next_step ops (current_step s)) else current_step s)"
    "completed_peers (peer_completed ops now db1 db2 p s) =
      (if peers_quorum s \<le> card (insert p (completed_peers s)) then {} else insert p (completed_peers s))"
    using t by (auto simp: maybe_advance_cases advance_locked_def)
qed

lemma completed_frame [simp]:
  "expected_peers (peer_completed ops now db1 db2 p s) = expected_peers s"
  "peer_threshold (peer_completed ops now db1 db2 p s) = peer_threshold s"
  "peers_quorum (peer_completed ops now db1 db2 p s) = peers_quorum s"
proof -
  show a: "expected_peers (peer_completed ops now db1 db2 p s) = expected_peers s"
    and b: "peer_threshold (peer_completed ops now db1 db2 p s) = peer_threshold s"
    by (simp_all add: peer_completed_def Let_def)
  show "peers_quorum (peer_completed ops now db1 db2 p s) = peers_quorum s"
    by (rule peers_quorum_cong [OF a b])
qed

end

text \<open>A sequence of completion reports, each with its time and the outcomes of its writes.\<close>

definition report :: "'s step_ops \<Rightarrow> (canton_id \<times> int \<times> db_outcome \<times> db_outcome) list \<Rightarrow> 's wstate \<Rightarrow> 's wstate" where
  "report ops rs s = fold (\<lambda>(p, now, db1, db2). peer_completed ops now db1 db2 p) rs s"

lemma report_simps [simp]:
  "report ops [] s = s"
  "report ops ((p, now, db1, db2) # rs) s = report ops rs (peer_completed ops now db1 db2 p s)"
  by (simp_all add: report_def)

context workflow_step
begin

lemma report_mono: "step_index ops (current_step s) \<le> step_index ops (current_step (report ops rs s))"
proof (induction rs arbitrary: s)
  case (Cons r rs)
  obtain p now db1 db2 where r: "r = (p, now, db1, db2)" by (metis prod_cases4)
  have "wstep ops UNIV s (peer_completed ops now db1 db2 p s)" by (rule wstep.completed) auto
  from wstep_mono [OF this] Cons [of "peer_completed ops now db1 db2 p s"] show ?case by (simp add: r)
qed simp

lemma report_trips:
  assumes "requires_peers ops (current_step s)" and "set (map fst rs) \<subseteq> expected_peers s"
    and "card (completed_peers s) < peers_quorum s" and "peers_quorum s \<le> card (completed_peers s \<union> set (map fst rs))"
  shows "step_index ops (current_step s) < step_index ops (current_step (report ops rs s))"
  using assms
proof (induction rs arbitrary: s)
  case (Cons r rs)
  obtain p now db1 db2 where r: "r = (p, now, db1, db2)" by (metis prod_cases4)
  let ?s' = "peer_completed ops now db1 db2 p s"
  have p: "p \<in> expected_peers s" using Cons.prems(2) by (simp add: r)
  note gate = completed_gate [OF Cons.prems(1) p, of now db1 db2]
  show ?case
  proof (cases "peers_quorum s \<le> card (insert p (completed_peers s))")
    case True
    obtain t where t: "next_step ops (current_step s) = Some t" using gated_next [OF Cons.prems(1)] by blast
    then have "step_index ops (current_step s) < step_index ops (current_step ?s')"
      using gate True index_next [OF t] by simp
    then show ?thesis using report_mono [of ?s' rs] by (simp add: r)
  next
    case False
    then have "current_step ?s' = current_step s" "completed_peers ?s' = insert p (completed_peers s)"
      using gate by auto
    then show ?thesis using Cons.IH [of ?s'] Cons.prems False by (simp add: r)
  qed
qed simp

lemma report_stays:
  assumes "requires_peers ops (current_step s)" and "finite (expected_peers s)" and "completed_peers s \<subseteq> expected_peers s"
    and "card (completed_peers s \<union> (set (map fst rs) \<inter> expected_peers s)) < peers_quorum s"
  shows "current_step (report ops rs s) = current_step s"
  using assms
proof (induction rs arbitrary: s)
  case (Cons r rs)
  obtain p now db1 db2 where r: "r = (p, now, db1, db2)" by (metis prod_cases4)
  let ?s' = "peer_completed ops now db1 db2 p s"
  show ?case
  proof (cases "p \<in> expected_peers s")
    case False
    then have "?s' = s" by (simp add: peer_completed_def)
    then show ?thesis using Cons False by (simp add: r)
  next
    case True
    let ?all = "completed_peers s \<union> (set (map fst (r # rs)) \<inter> expected_peers s)"
    have "card (insert p (completed_peers s)) \<le> card ?all"
      using Cons.prems(2,3) True by (intro card_mono finite_subset [OF _ Cons.prems(2)]) (auto simp: r)
    then have lt: "\<not> peers_quorum s \<le> card (insert p (completed_peers s))" using Cons.prems(4) by simp
    then have st: "current_step ?s' = current_step s" "completed_peers ?s' = insert p (completed_peers s)"
      using completed_gate [OF Cons.prems(1) True, of now db1 db2] by auto
    have "completed_peers ?s' \<union> (set (map fst rs) \<inter> expected_peers ?s') = ?all"
      using st True by (auto simp: r)
    then show ?thesis using Cons.IH [of ?s'] Cons.prems True st by (simp add: r)
  qed
qed simp

subsection \<open>Stranded runs\<close>

lemma stranded_iff:
  assumes "finite (expected_peers s)" and "completed_peers s \<subseteq> expected_peers s"
  shows "stranded_by ops s s s u \<noteq> None \<longleftrightarrow> requires_peers ops (current_step s)
    \<and> card (completed_peers s \<union> {p \<in> expected_peers s. u p = None}) < peers_quorum s"
proof -
  let ?m = "{p \<in> expected_peers s. p \<notin> completed_peers s \<and> u p \<noteq> None}"
  have "completed_peers s \<union> {p \<in> expected_peers s. u p = None} = expected_peers s - ?m"
    using assms(2) by auto
  moreover have "card (expected_peers s - ?m) = card (expected_peers s) - card ?m"
    using assms(1) by (intro card_Diff_subset) auto
  moreover have "length (sorted_list_of_set ?m) = card ?m" by (rule length_sorted_list_of_set)
  ultimately show ?thesis by (auto simp: stranded_by_def Let_def)
qed

lemma stranded_race:
  assumes "wreach ops D s1 s2" and "wreach ops D s2 s3" and "stranded_by ops s1 s2 s3 u = Some r"
  shows "stranded_by ops s2 s2 s2 u = Some r"
proof -
  have eq: "current_step s3 = current_step s1" using assms(3)
    by (auto simp: stranded_by_def Let_def split: if_splits)
  have "step_index ops (current_step s2) = step_index ops (current_step s1)"
    using wreach_mono [OF assms(1)] wreach_mono [OF assms(2)] eq by auto
  then have "current_step s2 = current_step s1" by (rule index_inj)
  moreover have "expected_peers s2 = expected_peers s1" "peer_threshold s2 = peer_threshold s1"
    using wreach_mono [OF assms(1)] by auto
  moreover from this have "peers_quorum s2 = peers_quorum s1" by (intro peers_quorum_cong)
  ultimately have "stranded_by ops s2 s2 s2 u = stranded_by ops s1 s2 s3 u"
    using eq unfolding stranded_by_def by (simp only:)
  then show ?thesis using assms(3) by simp
qed

end

section \<open>Properties\<close>

text \<open>A kick run with two peers, for the witnesses.\<close>

definition example_peer :: "string \<Rightarrow> canton_id" where
  "example_peer n = CantonId n (Namespace (replicate 34 0))"

definition example_row :: "run_row" where
  "example_row = \<lparr>row_status = InProgress, row_error = None, row_step = ''SignProposals'', row_index = 3,
     row_completed = {}, row_updated_at = 0, row_artifacts = Map.empty\<rparr>"

definition example_state :: "nat option \<Rightarrow> kick_step wstate" where
  "example_state th = wstate_new example_row ''kick-1'' kick_step.SignProposals
     [example_peer ''a'', example_peer ''b''] th"

lemma example_state_initial: "winitial kick_ops (example_state th)"
  by (simp add: winitial_def example_state_def wstate_new_def example_row_def kick_ops_def)

lemma example_peers_neq: "example_peer ''a'' \<noteq> example_peer ''b''"
  by (simp add: example_peer_def)

text \<open>C25: in every state a run can reach, whatever writes fail, only expected peers are
  counted, the step has only moved forward, and the row a restart reads back names a step at or
  before the current one, with completed peers of the current step only: resuming can repeat work
  but never skips a step or counts a peer that has not completed.\<close>

theorem resume_never_ahead:
  assumes "workflow_step ops" and "winitial ops s0" and "wreach ops UNIV s0 s"
  shows "connected_peers s \<subseteq> expected_peers s \<and> completed_peers s \<subseteq> expected_peers s \<and>
    expected_peers s = expected_peers s0 \<and> step_index ops (current_step s0) \<le> step_index ops (current_step s) \<and>
    (\<exists>t. try_from_step_name ops (row_step (db_row s)) = Some t \<and>
       step_index ops t \<le> step_index ops (current_step s) \<and>
       (t = current_step s \<longrightarrow> row_completed (db_row s) \<subseteq> completed_peers s))"
proof -
  have "winv ops s"
    using workflow_step.winv_wreach [OF assms(1,3)] workflow_step.winitial_winv [OF assms(1,2)] by blast
  moreover note workflow_step.wreach_mono [OF assms(1,3)]
  ultimately show ?thesis by (auto simp: winv_def row_behind_def)
qed

theorem resume_never_ahead_witness:
  "\<exists>t. try_from_step_name kick_ops (row_step (db_row
      (peer_completed kick_ops 7 BeginFailed CommitFailed (example_peer ''a'') (example_state (Some 1))))) = Some t
    \<and> step_index kick_ops t \<le> step_index kick_ops (current_step
      (peer_completed kick_ops 7 BeginFailed CommitFailed (example_peer ''a'') (example_state (Some 1))))"
proof -
  have "wreach kick_ops UNIV (example_state (Some 1))
      (peer_completed kick_ops 7 BeginFailed CommitFailed (example_peer ''a'') (example_state (Some 1)))"
    unfolding wreach_def by (rule r_into_rtranclp, rule wstep.completed) auto
  from resume_never_ahead [OF kick_wf.workflow_step_axioms example_state_initial this] show ?thesis by blast
qed

text \<open>As long as the writes commit, restarting loses no progress: the state rebuilt from the
  row is at the same step with the same completed peers.\<close>

theorem resume_exact:
  assumes "workflow_step ops" and "winitial ops s0" and "wreach ops {Committed} s0 s"
    and "set expected = expected_peers s" and "set done = row_completed (db_row s)"
  shows "\<exists>t. try_from_step_name ops (row_step (db_row s)) = Some t \<and>
    (let s' = from_persisted (db_row s) (instance_name s) t expected done (peer_threshold s) in
     current_step s' = current_step s \<and> completed_peers s' = completed_peers s \<and>
     expected_peers s' = expected_peers s \<and> peers_quorum s' = peers_quorum s)"
proof -
  have "row_exact ops s"
    using workflow_step.row_exact_wreach [OF assms(1,3)] workflow_step.winitial_winv [OF assms(1,2)] by blast
  then show ?thesis
    using assms(4,5) workflow_step.name_roundtrip [OF assms(1)]
    by (auto simp: row_exact_def from_persisted_def Let_def intro: peers_quorum_cong)
qed

theorem resume_exact_witness:
  "\<exists>t. try_from_step_name kick_ops (row_step (db_row (advance_step kick_ops 5 Committed (example_state None)))) = Some t \<and>
    (let s = advance_step kick_ops 5 Committed (example_state None);
         s' = from_persisted (db_row s) (instance_name s) t [example_peer ''a'', example_peer ''b''] [] (peer_threshold s) in
     current_step s' = current_step s \<and> completed_peers s' = completed_peers s \<and>
     expected_peers s' = expected_peers s \<and> peers_quorum s' = peers_quorum s)"
proof -
  let ?s = "advance_step kick_ops 5 Committed (example_state None)"
  have "wreach kick_ops {Committed} (example_state None) ?s"
    unfolding wreach_def by (rule r_into_rtranclp, rule wstep.advance) simp
  moreover have "set [example_peer ''a'', example_peer ''b''] = expected_peers ?s"
    by (simp add: advance_step_def) (simp add: example_state_def wstate_new_def)
  moreover have "set [] = row_completed (db_row ?s)"
    by (simp add: advance_step_def advance_locked_def wstate_defs example_state_def wstate_new_def kick_ops_def)
  ultimately show ?thesis
    using resume_exact [OF kick_wf.workflow_step_axioms example_state_initial] by metis
qed

text \<open>On a step that needs peers, a completion report of an expected peer advances the
  run by exactly one step when the completed peers, this one included, reach the quorum, and
  otherwise only records the peer; a report of a peer that is not expected changes nothing.  The
  quorum is at least one and never more than the expected peers.\<close>

theorem gate_counts_quorum:
  assumes "workflow_step ops" and "requires_peers ops (current_step s)"
  shows "(let s' = peer_completed ops now db1 db2 p s; done = insert p (completed_peers s) in
     if p \<notin> expected_peers s then s' = s
     else if peers_quorum s \<le> card done
     then next_step ops (current_step s) = Some (current_step s') \<and> completed_peers s' = {}
     else current_step s' = current_step s \<and> completed_peers s' = done)
   \<and> peers_quorum s \<le> card (expected_peers s) \<and> (0 < card (expected_peers s) \<longrightarrow> 1 \<le> peers_quorum s)"
proof -
  obtain t where t: "next_step ops (current_step s) = Some t"
    using workflow_step.gated_next [OF assms] by blast
  show ?thesis
    using workflow_step.completed_gate [OF assms, of p now db1 db2] t peers_quorum_bounds [of s]
    by (cases "p \<in> expected_peers s") (auto simp: Let_def peer_completed_def)
qed

theorem gate_counts_quorum_witness:
  "current_step (peer_completed kick_ops 0 Committed Committed (example_peer ''a'') (example_state (Some 1)))
     = kick_step.SubmitKick \<and>
   current_step (peer_completed kick_ops 0 Committed Committed (example_peer ''a'') (example_state None))
     = kick_step.SignProposals"
proof -
  have q: "peers_quorum (example_state (Some 1)) = 1" "peers_quorum (example_state None) = 2"
    using example_peers_neq by (simp_all add: peers_quorum_def example_state_def wstate_new_def clamp_def)
  have g: "requires_peers kick_ops (current_step (example_state th))" for th
    by (simp add: example_state_def wstate_new_def kick_ops_def kick_requires_peers_def)
  have "next_step kick_ops (current_step (example_state (Some 1)))
      = Some (current_step (peer_completed kick_ops 0 Committed Committed (example_peer ''a'') (example_state (Some 1))))"
    using gate_counts_quorum [OF kick_wf.workflow_step_axioms g [of "Some 1"], of 0 Committed Committed "example_peer ''a''"] q
    by (simp add: Let_def example_state_def wstate_new_def)
  moreover have "current_step (peer_completed kick_ops 0 Committed Committed (example_peer ''a'') (example_state None))
      = current_step (example_state None)"
    using gate_counts_quorum [OF kick_wf.workflow_step_axioms g [of None], of 0 Committed Committed "example_peer ''a''"] q
    by (simp add: Let_def example_state_def wstate_new_def)
  ultimately show ?thesis by (simp add: example_state_def wstate_new_def kick_ops_def)
qed

text \<open>A run is reported as stranded exactly when it is: on a step that waits for peers,
  \<open>stranded_by\<close> returns nothing if and only if some completion reports of peers that are not counted
  out would advance the run.\<close>

theorem stranded_exact:
  assumes "workflow_step ops" and "finite (expected_peers s)" and "completed_peers s \<subseteq> expected_peers s"
    and "requires_peers ops (current_step s)" and "card (completed_peers s) < peers_quorum s"
  shows "(stranded_by ops s s s u = None) =
    (\<exists>rs. (\<forall>p\<in>set (map fst rs). u p = None) \<and> current_step (report ops rs s) \<noteq> current_step s)"
proof
  let ?av = "{p \<in> expected_peers s. u p = None}"
  assume "stranded_by ops s s s u = None"
  then have "peers_quorum s \<le> card (completed_peers s \<union> ?av)"
    using workflow_step.stranded_iff [OF assms(1,2,3), of u] assms(4) by auto
  moreover obtain ps where ps: "set ps = ?av"
    using assms(2) finite_list [of ?av] by auto
  moreover define rs where "rs = map (\<lambda>p. (p, 0 :: int, Committed, Committed)) ps"
  ultimately have "set (map fst rs) = ?av" "peers_quorum s \<le> card (completed_peers s \<union> set (map fst rs))"
    by (simp_all add: rs_def o_def)
  then have "step_index ops (current_step s) < step_index ops (current_step (report ops rs s))"
    using assms(5) by (intro workflow_step.report_trips [OF assms(1,4)]) auto
  then show "\<exists>rs. (\<forall>p\<in>set (map fst rs). u p = None) \<and> current_step (report ops rs s) \<noteq> current_step s"
    using \<open>set (map fst rs) = ?av\<close> by (intro exI [of _ rs]) auto
next
  assume "\<exists>rs. (\<forall>p\<in>set (map fst rs). u p = None) \<and> current_step (report ops rs s) \<noteq> current_step s"
  then obtain rs where rs: "\<forall>p\<in>set (map fst rs). u p = None" "current_step (report ops rs s) \<noteq> current_step s" by blast
  have "\<not> card (completed_peers s \<union> (set (map fst rs) \<inter> expected_peers s)) < peers_quorum s"
    using workflow_step.report_stays [OF assms(1,4,2,3), of rs] rs(2) by blast
  moreover have "card (completed_peers s \<union> (set (map fst rs) \<inter> expected_peers s))
      \<le> card (completed_peers s \<union> {p \<in> expected_peers s. u p = None})"
    using assms(2,3) rs(1) by (intro card_mono) (auto intro: finite_subset)
  ultimately show "stranded_by ops s s s u = None"
    using workflow_step.stranded_iff [OF assms(1,2,3), of u] by fastforce
qed

theorem stranded_exact_witness:
  "stranded_by kick_ops (example_state None) (example_state None) (example_state None)
     (\<lambda>p. if p = example_peer ''b'' then Some ''gave up'' else None) \<noteq> None \<and>
   current_step (report kick_ops [(example_peer ''a'', 0, Committed, Committed)] (example_state None)) = current_step (example_state None)"
proof -
  let ?s = "example_state None" and ?u = "\<lambda>p. if p = example_peer ''b'' then Some ''gave up'' else None"
  have q: "peers_quorum ?s = 2" "expected_peers ?s = {example_peer ''a'', example_peer ''b''}"
    "completed_peers ?s = {}" "requires_peers kick_ops (current_step ?s)"
    using example_peers_neq
    by (simp_all add: peers_quorum_def example_state_def wstate_new_def kick_ops_def kick_requires_peers_def)
  have "{p \<in> expected_peers ?s. ?u p = None} = {example_peer ''a''}" using q example_peers_neq by auto
  then have st: "stranded_by kick_ops ?s ?s ?s ?u \<noteq> None"
    by (subst kick_wf.stranded_iff) (simp_all add: q)
  have "\<not> (\<exists>rs. (\<forall>p\<in>set (map fst rs). ?u p = None) \<and> current_step (report kick_ops rs ?s) \<noteq> current_step ?s)"
    using stranded_exact [OF kick_wf.workflow_step_axioms, of ?s ?u] q st by simp
  moreover have "\<forall>p\<in>set (map fst [(example_peer ''a'', 0 :: int, Committed, Committed)]). ?u p = None"
    using example_peers_neq by simp
  ultimately show ?thesis using st by blast
qed

text \<open>The check for stranded runs reads the step, the completed peers and the step
  again while other tasks run.  Whatever they do in between, a verdict is the verdict for the state
  at the moment the completed peers were read: a set read across an advance is never used.\<close>

theorem stranded_race_free:
  assumes "workflow_step ops" and "wreach ops D s1 s2" and "wreach ops D s2 s3"
    and "stranded_by ops s1 s2 s3 u = Some verdict"
  shows "stranded_by ops s2 s2 s2 u = Some verdict"
  by (rule workflow_step.stranded_race [OF assms])

theorem stranded_race_free_witness:
  "\<exists>v. stranded_by kick_ops (example_state None) (example_state None) (example_state None)
     (\<lambda>p. if p = example_peer ''b'' then Some ''gave up'' else None) = Some v"
proof -
  let ?s = "example_state None" and ?u = "\<lambda>p. if p = example_peer ''b'' then Some ''gave up'' else None"
  let ?s1 = "set_command_payload [1] ?s"
  have q: "peers_quorum ?s = 2" "expected_peers ?s = {example_peer ''a'', example_peer ''b''}"
    "completed_peers ?s = {}" "requires_peers kick_ops (current_step ?s)"
    using example_peers_neq
    by (simp_all add: peers_quorum_def example_state_def wstate_new_def kick_ops_def kick_requires_peers_def)
  have "{p \<in> expected_peers ?s. ?u p = None} = {example_peer ''a''}" using q example_peers_neq by auto
  then have "stranded_by kick_ops ?s ?s ?s ?u \<noteq> None"
    by (subst kick_wf.stranded_iff) (simp_all add: q)
  then obtain v where "stranded_by kick_ops ?s ?s ?s ?u = Some v" by blast
  from stranded_race_free [OF kick_wf.workflow_step_axioms _ _ this, of UNIV] show ?thesis
    unfolding wreach_def by blast
qed

text \<open>Only the participant an export was opened for reads it.  Any other caller gets an
  error and changes nothing; the target's request for the first block after the stream has moved on
  drops the session; and what the target is served comes from the session's own numbered blocks.\<close>

theorem acs_export_guarded:
  "(case acs_export s of
      None \<Rightarrow> next_acs_block H sha256 now caller seq n s = (s, Inl NoExportOpen)
    | Some (target, session) \<Rightarrow>
        if caller \<noteq> target then next_acs_block H sha256 now caller seq n s = (s, Inl (NotTheTarget caller))
        else if seq \<le> 1 \<and> 1 < served_seq session
        then next_acs_block H sha256 now caller seq n s = (s\<lparr>acs_export := None\<rparr>, Inl (ExportRestarted seq))
        else (case export_block H sha256 now session seq n of (session', r) \<Rightarrow>
          next_acs_block H sha256 now caller seq n s = (s\<lparr>acs_export := Some (target, session')\<rparr>, map_err AcsPipe r)))"
  by (auto simp: next_acs_block_def served_past_first_def split: option.splits prod.splits)

text \<open>A run ends once.  After a terminal status is recorded, no later attempt to
  finish the run, with any status and any outcome of its transaction, changes the row.\<close>

theorem first_terminal_wins:
  assumes "finish_run db1 st1 e1 t1 row = (row1, Inr True)"
  shows "row_status row1 = st1 \<and> st1 \<notin> {Idle, InProgress} \<and> fst (finish_run db2 st2 e2 t2 row1) = row1"
proof -
  have "db1 = Committed" "st1 \<notin> {Idle, InProgress}" "row_status row1 = st1"
    using assms by (auto simp: finish_run_def finish_workflow_run_def Let_def
        split: db_outcome.splits sum.splits if_splits)
  then show ?thesis
    by (auto simp: finish_run_def finish_workflow_run_def split: db_outcome.splits)
qed

theorem first_terminal_wins_witness:
  "row_status (mark_run_failed Committed ''declined'' 3 example_row) = Failed \<and>
   fst (finish_run Committed Completed None 4 (mark_run_failed Committed ''declined'' 3 example_row))
     = mark_run_failed Committed ''declined'' 3 example_row"
proof -
  have "finish_run Committed Failed (Some ''declined'') 3 example_row
      = (mark_run_failed Committed ''declined'' 3 example_row, Inr True)"
    by (simp add: mark_run_failed_def finish_run_def finish_workflow_run_def example_row_def)
  from first_terminal_wins [OF this] show ?thesis by blast
qed

end
