(* ===== verification/Peer_Loop.thy ===== *)
theory Peer_Loop
  imports Validation Workflow_State
begin

text \<open>
  The peer's side of a workflow: the command loop of \<open>crates/decman/src/workflow/mod.rs\<close>
  (\<open>run_peer\<close>), with the gate on the accepted workflow kind, the checks before each step and the three
  failure counters.

  What a step does outside the loop (a signature by the participant, a write to the node's database, a
  message to the coordinator) is an \<open>action\<close>; \<open>perform\<close> hands it to the environment \<open>exec\<close>, which
  may answer anything and change the world, and writes it to the log together with the world it was
  performed in.  \<open>view\<close> is what the checks read of a world.  One check reads one world: the model does not
  split it at its reads.
\<close>

section \<open>Commands and steps\<close>

definition MAX_CONSECUTIVE_STEP_FAILURES :: nat where "MAX_CONSECUTIVE_STEP_FAILURES = 6"
definition MAX_CONSECUTIVE_NO_WORKFLOW_POLLS :: nat where "MAX_CONSECUTIVE_NO_WORKFLOW_POLLS = 4"
definition SKIP_STATUS :: string where "SKIP_STATUS = ''skipped (not the new member)''"

definition step_progress :: "'s step_ops \<Rightarrow> 's \<Rightarrow> string \<times> int \<times> int" where
  "step_progress ops s = (step_name ops s, step_index ops s, step_total ops)"

definition peer_step_for_command :: "workflow_kind \<Rightarrow> message_type \<Rightarrow> (string \<times> int \<times> int) option" where
  "peer_step_for_command kind command = (case kind of
     Onboarding \<Rightarrow>
       map_option (step_progress onboarding_ops)
        (if command = message_type.GenerateKeys then Some onboarding_step.GenerateKeys
         else if command = message_type.SignDns then Some onboarding_step.SignDns
         else if command = message_type.SignP2p then Some onboarding_step.SignP2p
         else if command = Disconnect then Some onboarding_step.Complete else None)
   | Kick \<Rightarrow>
       map_option (step_progress kick_ops)
        (if command = SignKick then Some kick_step.SignProposals
         else if command = message_type.RetireLegacyKeys then Some kick_step.RetireLegacyKeys
         else if command = Disconnect then Some kick_step.Complete else None)
   | Contracts \<Rightarrow>
       map_option (step_progress contracts_ops)
        (if command = message_type.SignSubmissions then Some contracts_step.SignSubmissions
         else if command = Disconnect then Some contracts_step.Complete else None)
   | Dars \<Rightarrow>
       map_option (step_progress dars_ops)
        (if command = message_type.UploadDars then Some dars_step.UploadDars
         else if command = Disconnect then Some dars_step.Complete else None)
   | AddParty \<Rightarrow>
       map_option (step_progress add_party_ops)
        (if command = GenerateAddPartyKeys then Some add_party_step.GenerateNewMemberKeys
         else if command = SignAddParty then Some add_party_step.SignProposals
         else if command = message_type.RetireLegacyKeys then Some add_party_step.RetireLegacyKeys
         else if command = ImportAcs then Some add_party_step.SyncAcs
         else if command = ClearOnboardingFlag then Some add_party_step.ProposeClearOnboarding
         else if command = message_type.SignClearOnboarding then Some add_party_step.SignClearOnboarding
         else if command = Disconnect then Some add_party_step.Complete else None)
   | ChangeThreshold \<Rightarrow>
       map_option (step_progress change_threshold_ops)
        (if command = SignChangeThreshold then Some change_threshold_step.SignProposals
         else if command = message_type.RetireLegacyKeys then Some change_threshold_step.RetireLegacyKeys
         else if command = Disconnect then Some change_threshold_step.Complete else None))"

definition command_matches_kind :: "workflow_kind \<Rightarrow> message_type \<Rightarrow> bool" where
  "command_matches_kind kind command \<longleftrightarrow>
     command \<in> {Wait, Ping, Disconnect} \<or> peer_step_for_command kind command \<noteq> None"

text \<open>The party id a P2P proposal is for; unlike the checks this reads any operation.\<close>

definition extract_party_id_from_p2p_payload :: "proto \<Rightarrow> bytes \<Rightarrow> val_error + canton_id" where
  "extract_party_id_from_p2p_payload P blob =
     and_then (map_err (\<lambda>e. Undecodable (NotFramed e))
         (read_first_message_from_bytes (proto_varint P) (dec_signed P) blob)) (\<lambda>signed.
     and_then (map_err Undecodable (decode_versioned P (dec_transaction P) signed)) (\<lambda>tx.
     and_then (ok_or (Undecodable NoMapping) (tx_mapping tx)) (\<lambda>m. case m of
         PartyToParticipant p2p \<Rightarrow> map_err BadId (canton_id_parse (proto_hex P) (p2p_party p2p))
       | _ \<Rightarrow> Inl (Undecodable NotPartyToParticipant))))"

section \<open>Actions\<close>

datatype action =
    UploadDarsFromBytes "(string \<times> bytes) list"
  | OnboardingGenerateKeys string
  | WriteAcceptedNamespace string
  | SignDnsProposals bytes
  | SignP2pProposals bytes
  | WriteRunPartyId canton_id
  | CopySelfIdentity canton_id
  | WritePreparedSubmission string bytes
  | ContractsSignSubmissions canton_id "contract_deployment_intent list"
  | KickSignProposals bytes
  | ChangeThresholdSignProposals bytes
  | AddPartyGenerateKeys canton_id
  | CheckVettedPackagesHeld
  | AddPartySignProposals bytes
  | WaitForHostingProposal canton_id
  | OpenImportWindow canton_id
  | ImportPartyAcs canton_id "string list"
  | ClearOnboarding canton_id
  | AuthorClearProposal canton_id
  | SignClearProposal bytes
  | RetireLegacy canton_id
  | SendStatus string
  | SendClearProposal bytes
  | SendResult message_type
  | StepFailed message_type
  | PersistStep string int

datatype clear_outcome = Proposed | Cleared

text \<open>What the environment answers: most actions just succeed or fail.\<close>

datatype reply = Done | ClearReply clear_outcome | ClearProposal "bytes option"

type_synonym 'w executor = "action \<Rightarrow> 'w \<Rightarrow> (string + reply) \<times> 'w"

record 'w peer =
  world :: 'w
  alog :: "('w \<times> action) list"
  errors :: nat
  no_workflow :: nat
  failures :: nat

definition perform :: "'w executor \<Rightarrow> action \<Rightarrow> 'w peer \<Rightarrow> (string + reply) \<times> 'w peer" where
  "perform ex a s = (let (r, w) = ex a (world s) in (r, s\<lparr>world := w, alog := alog s @ [(world s, a)]\<rparr>))"

text \<open>A failed action whose error is only logged.\<close>

definition attempt_action :: "'w executor \<Rightarrow> action \<Rightarrow> 'w peer \<Rightarrow> 'w peer" where
  "attempt_action ex a s = snd (perform ex a s)"

text \<open>How an iteration ends: the loop goes on, the peer is disconnected, or it returns an error.\<close>

datatype flow = Go | Disconnected | Abort

definition retry_peer_step :: "'w executor \<Rightarrow> message_type \<Rightarrow> 'w peer \<Rightarrow> flow \<times> 'w peer" where
  "retry_peer_step ex command s =
     (let s1 = attempt_action ex (StepFailed command) (s\<lparr>failures := failures s + 1\<rparr>) in
      (if failures s1 \<ge> MAX_CONSECUTIVE_STEP_FAILURES then Abort else Go, s1))"

definition persist_peer_step :: "'w executor \<Rightarrow> workflow_kind \<Rightarrow> message_type \<Rightarrow> 'w peer \<Rightarrow> 'w peer" where
  "persist_peer_step ex kind command s = (case peer_step_for_command kind command of
     None \<Rightarrow> s
   | Some (name, index, _) \<Rightarrow> attempt_action ex (PersistStep name index) s)"

text \<open>An action of a step: its failure is a failure of the step, its success goes on with \<open>k\<close>.\<close>

definition try_action :: "'w executor \<Rightarrow> message_type \<Rightarrow> action \<Rightarrow> ('w peer \<Rightarrow> flow \<times> 'w peer) \<Rightarrow> 'w peer \<Rightarrow> flow \<times> 'w peer" where
  "try_action ex command a k s = (case perform ex a s of
     (Inr _, s1) \<Rightarrow> k s1
   | (Inl _, s1) \<Rightarrow> retry_peer_step ex command s1)"

text \<open>A check of a step, on what the world shows.\<close>

definition guard_step :: "'w executor \<Rightarrow> message_type \<Rightarrow> 'e + 'a \<Rightarrow> ('a \<Rightarrow> 'w peer \<Rightarrow> flow \<times> 'w peer) \<Rightarrow> 'w peer \<Rightarrow> flow \<times> 'w peer" where
  "guard_step ex command r k s = (case r of Inr x \<Rightarrow> k x s | Inl _ \<Rightarrow> retry_peer_step ex command s)"

text \<open>The end of a step: the failure counter is reset and the result is sent; a failed send is logged.\<close>

definition finish_step :: "'w executor \<Rightarrow> action \<Rightarrow> 'w peer \<Rightarrow> flow \<times> 'w peer" where
  "finish_step ex a s = (Go, attempt_action ex a (s\<lparr>failures := 0\<rparr>))"

definition send_skip_status :: "'w executor \<Rightarrow> 'w peer \<Rightarrow> flow \<times> 'w peer" where
  "send_skip_status ex s = finish_step ex (SendStatus SKIP_STATUS) s"

section \<open>The steps\<close>

text \<open>The JSON configs are decoded by serde; of each only what the loop reads is kept.\<close>

record peer_codecs =
  json_onboarding_prefix :: "bytes \<Rightarrow> string option"
  json_contracts_party :: "bytes \<Rightarrow> canton_id option"
  json_kick :: "bytes \<Rightarrow> unit option"
  json_change_threshold :: "bytes \<Rightarrow> unit option"
  json_add_party :: "bytes \<Rightarrow> (canton_id \<times> canton_id) option"

record 'w peer_ctx =
  pc_exec :: "'w executor"
  pc_view :: "'w \<Rightarrow> node"
  pc_codecs :: peer_codecs
  pc_expect :: peer_expectations
  pc_instance :: string
  pc_self :: canton_id

definition handle_upload_dars :: "'w peer_ctx \<Rightarrow> bytes \<Rightarrow> 'w peer \<Rightarrow> flow \<times> 'w peer" where
  "handle_upload_dars C blob s =
     (let cmd = message_type.UploadDars; ex = pc_exec C; P = nd_proto (pc_view C (world s)) in
      guard_step ex cmd (if blob = [] then Inr [] else decode_files blob) (\<lambda>dar_files.
      guard_step ex cmd (check_dars P (pc_expect C) dar_files) (\<lambda>_.
      try_action ex cmd (UploadDarsFromBytes dar_files)
        (finish_step ex (SendStatus ''UploadDars completed'')))) s)"

definition handle_generate_keys :: "'w peer_ctx \<Rightarrow> bytes \<Rightarrow> 'w peer \<Rightarrow> flow \<times> 'w peer" where
  "handle_generate_keys C blob s =
     (let cmd = message_type.GenerateKeys; ex = pc_exec C in
      guard_step ex cmd (ok_or () (json_onboarding_prefix (pc_codecs C) blob)) (\<lambda>p.
      guard_step ex cmd (check_onboarding_config (pc_expect C) p) (\<lambda>_.
      try_action ex cmd (OnboardingGenerateKeys p) (finish_step ex (SendResult cmd)))) s)"

definition handle_sign_dns :: "'w peer_ctx \<Rightarrow> bytes \<Rightarrow> 'w peer \<Rightarrow> flow \<times> 'w peer" where
  "handle_sign_dns C blob s =
     (let cmd = message_type.SignDns; ex = pc_exec C in
      guard_step ex cmd (ensure (blob \<noteq> []) ()) (\<lambda>_.
      guard_step ex cmd (check_onboarding_dns (pc_expect C) (pc_view C (world s)) (pc_instance C) blob) (\<lambda>n.
      try_action ex cmd (WriteAcceptedNamespace n)
      (try_action ex cmd (SignDnsProposals blob) (finish_step ex (SendResult cmd))))) s)"

definition ACCEPTED_DNS_NAMESPACE :: string where "ACCEPTED_DNS_NAMESPACE = ''accepted_dns_namespace''"

text \<open>The namespace recorded by the DNS step; a read error and bytes that are not UTF-8 fail the step.\<close>

definition signed_namespace :: "'w peer_ctx \<Rightarrow> 'w \<Rightarrow> unit + string option" where
  "signed_namespace C w =
     (case read_artifact (nd_storage (pc_view C w)) (pc_instance C) ACCEPTED_DNS_NAMESPACE None of
        Inl _ \<Rightarrow> Inl ()
      | Inr None \<Rightarrow> Inr None
      | Inr (Some bs) \<Rightarrow> (case from_utf8 bs of Some n \<Rightarrow> Inr (Some n) | None \<Rightarrow> Inl ()))"

definition identity_hook :: "'w executor \<Rightarrow> val_error + canton_id \<Rightarrow> 'w peer \<Rightarrow> 'w peer" where
  "identity_hook ex r s = (case r of
     Inl _ \<Rightarrow> s
   | Inr party \<Rightarrow> attempt_action ex (CopySelfIdentity party) (attempt_action ex (WriteRunPartyId party) s))"

definition handle_sign_p2p :: "'w peer_ctx \<Rightarrow> bytes \<Rightarrow> 'w peer \<Rightarrow> flow \<times> 'w peer" where
  "handle_sign_p2p C blob s =
     (let cmd = message_type.SignP2p; ex = pc_exec C; nd = pc_view C (world s) in
      guard_step ex cmd (ensure (blob \<noteq> []) ()) (\<lambda>_.
      guard_step ex cmd (signed_namespace C (world s)) (\<lambda>n.
      guard_step ex cmd (check_onboarding_p2p (pc_expect C) nd (pc_instance C) blob n) (\<lambda>_.
      try_action ex cmd (SignP2pProposals blob) (\<lambda>s1.
        let (f, s2) = finish_step ex (SendResult cmd) s1
        in (f, identity_hook ex (extract_party_id_from_p2p_payload (nd_proto nd) blob) s2))))) s)"

text \<open>The loop of \<open>save_prepared_submissions_from_payload\<close>: the first failed write ends it.\<close>

fun save_submissions :: "'w executor \<Rightarrow> (string \<times> bytes) list \<Rightarrow> 'w peer \<Rightarrow> (string + unit) \<times> 'w peer" where
  "save_submissions ex [] s = (Inr (), s)"
| "save_submissions ex ((ordinal, data) # files) s = (case perform ex (WritePreparedSubmission ordinal data) s of
     (Inr _, s1) \<Rightarrow> save_submissions ex files s1
   | (Inl e, s1) \<Rightarrow> (Inl e, s1))"

definition save_prepared_submissions_from_payload :: "'w executor \<Rightarrow> bytes \<Rightarrow> 'w peer \<Rightarrow> (string + unit) \<times> 'w peer" where
  "save_prepared_submissions_from_payload ex blob s = (case decode_files blob of
     Inl _ \<Rightarrow> (Inl ''decode'', s)
   | Inr files \<Rightarrow> save_submissions ex files s)"

definition handle_sign_submissions :: "'w peer_ctx \<Rightarrow> bytes \<Rightarrow> 'w peer \<Rightarrow> flow \<times> 'w peer" where
  "handle_sign_submissions C blob s =
     (let cmd = message_type.SignSubmissions; ex = pc_exec C in
      guard_step ex cmd (ensure (blob \<noteq> []) ()) (\<lambda>_.
      guard_step ex cmd (decode_length_prefixed blob 2) (\<lambda>items.
      guard_step ex cmd (ok_or () (json_contracts_party (pc_codecs C) (items ! 0))) (\<lambda>party.
      guard_step ex cmd (check_dec_party (pc_expect C) party) (\<lambda>_ s0.
        case save_prepared_submissions_from_payload ex (items ! 1) s0 of
          (Inl _, s1) \<Rightarrow> retry_peer_step ex cmd s1
        | (Inr _, s1) \<Rightarrow> try_action ex cmd (ContractsSignSubmissions party (contract_intents (pc_expect C)))
            (finish_step ex (SendResult cmd)) s1)))) s)"

text \<open>Kick and change-threshold: config, DNS proposal, P2P proposal.\<close>

definition handle_sign_party_proposals :: "message_type \<Rightarrow> (bytes \<Rightarrow> unit option) \<Rightarrow> (bytes \<Rightarrow> action) \<Rightarrow> 'w peer_ctx
    \<Rightarrow> bytes \<Rightarrow> 'w peer \<Rightarrow> flow \<times> 'w peer" where
  "handle_sign_party_proposals cmd json sign C blob s =
     (let ex = pc_exec C in
      guard_step ex cmd (ensure (blob \<noteq> []) ()) (\<lambda>_.
      guard_step ex cmd (decode_length_prefixed blob 3) (\<lambda>items.
      guard_step ex cmd (ok_or () (json (items ! 0))) (\<lambda>_.
      guard_step ex cmd (check_party_proposals (pc_expect C) (pc_view C (world s)) (pc_instance C) (items ! 1) (items ! 2)) (\<lambda>_.
      try_action ex cmd (sign (encode_length_prefixed [items ! 1, items ! 2])) (finish_step ex (SendResult cmd)))))) s)"

definition handle_sign_kick :: "'w peer_ctx \<Rightarrow> bytes \<Rightarrow> 'w peer \<Rightarrow> flow \<times> 'w peer" where
  "handle_sign_kick C = handle_sign_party_proposals SignKick (json_kick (pc_codecs C)) KickSignProposals C"

definition handle_sign_change_threshold :: "'w peer_ctx \<Rightarrow> bytes \<Rightarrow> 'w peer \<Rightarrow> flow \<times> 'w peer" where
  "handle_sign_change_threshold C =
     handle_sign_party_proposals SignChangeThreshold (json_change_threshold (pc_codecs C)) ChangeThresholdSignProposals C"

definition is_new_member :: "'w peer_ctx \<Rightarrow> canton_id \<times> canton_id \<Rightarrow> bool" where
  "is_new_member C config \<longleftrightarrow> pc_self C = snd config"

definition check_add_party_config :: "peer_expectations \<Rightarrow> canton_id \<times> canton_id \<Rightarrow> val_error + unit" where
  "check_add_party_config e config =
     and_then (check_dec_party e (fst config)) (\<lambda>_. check_new_participant e (snd config))"

text \<open>The opening of the add-party steps only the new member executes.\<close>

definition new_member_step :: "message_type \<Rightarrow> 'w peer_ctx \<Rightarrow> bytes \<Rightarrow> (canton_id \<times> canton_id \<Rightarrow> 'w peer \<Rightarrow> flow \<times> 'w peer)
    \<Rightarrow> 'w peer \<Rightarrow> flow \<times> 'w peer" where
  "new_member_step cmd C blob k s =
     (let ex = pc_exec C in
      guard_step ex cmd (ok_or () (json_add_party (pc_codecs C) blob)) (\<lambda>config.
      guard_step ex cmd (check_add_party_config (pc_expect C) config) (\<lambda>_ s0.
        if \<not> is_new_member C config then send_skip_status ex s0 else k config s0)) s)"

definition handle_generate_add_party_keys :: "'w peer_ctx \<Rightarrow> bytes \<Rightarrow> 'w peer \<Rightarrow> flow \<times> 'w peer" where
  "handle_generate_add_party_keys C blob =
     (let cmd = GenerateAddPartyKeys; ex = pc_exec C in
      new_member_step cmd C blob (\<lambda>config.
        try_action ex cmd (AddPartyGenerateKeys (fst config)) (finish_step ex (SendResult cmd))))"

definition handle_sign_add_party :: "'w peer_ctx \<Rightarrow> bytes \<Rightarrow> 'w peer \<Rightarrow> flow \<times> 'w peer" where
  "handle_sign_add_party C blob s =
     (let cmd = SignAddParty; ex = pc_exec C in
      guard_step ex cmd (ensure (blob \<noteq> []) ()) (\<lambda>_.
      guard_step ex cmd (decode_length_prefixed blob 3) (\<lambda>items.
      guard_step ex cmd (ok_or () (json_add_party (pc_codecs C) (items ! 0))) (\<lambda>config.
      guard_step ex cmd (and_then (check_add_party_config (pc_expect C) config) (\<lambda>_.
          check_party_proposals (pc_expect C) (pc_view C (world s)) (pc_instance C) (items ! 1) (items ! 2))) (\<lambda>_.
        let new = is_new_member C config;
            sign = AddPartySignProposals (encode_length_prefixed [items ! 1, items ! 2]);
            close = (\<lambda>s1. let (f, s2) = finish_step ex (SendResult cmd) s1
                     in (f, if new then attempt_action ex (CopySelfIdentity (fst config)) s2 else s2));
            window = (if new then try_action ex cmd (WaitForHostingProposal (fst config))
                                  (try_action ex cmd (OpenImportWindow (fst config)) close) else close);
            signed = try_action ex cmd sign window
        in if new then try_action ex cmd CheckVettedPackagesHeld signed else signed)))) s)"

text \<open>\<open>str::lines\<close>: split at line feeds, drop a carriage return before one and a last empty line.\<close>

fun split_lines :: "string \<Rightarrow> string \<Rightarrow> string list" where
  "split_lines acc [] = (if acc = [] then [] else [rev acc])"
| "split_lines acc (c # s) =
    (if c = CHR 0x0A then rev (case acc of CHR 0x0D # r \<Rightarrow> r | _ \<Rightarrow> acc) # split_lines [] s
     else split_lines (c # acc) s)"

definition required_package_ids :: "bytes \<Rightarrow> string list" where
  "required_package_ids bs = filter (\<lambda>l. l \<noteq> []) (split_lines [] (from_utf8_lossy bs))"

text \<open>A failed import ends the peer at once.\<close>

definition handle_import_acs :: "'w peer_ctx \<Rightarrow> bytes \<Rightarrow> 'w peer \<Rightarrow> flow \<times> 'w peer" where
  "handle_import_acs C blob s =
     (let cmd = ImportAcs; ex = pc_exec C in
      guard_step ex cmd (decode_length_prefixed blob 2) (\<lambda>items.
      new_member_step cmd C (items ! 0) (\<lambda>config s0.
        case perform ex (ImportPartyAcs (fst config) (required_package_ids (items ! 1))) s0 of
          (Inl _, s1) \<Rightarrow> (Abort, s1)
        | (Inr _, s1) \<Rightarrow> finish_step ex (SendStatus ''ImportAcs completed'') s1)) s)"

definition CLEARED_STATUS :: string where "CLEARED_STATUS = ''ClearOnboardingFlag: Cleared''"

definition handle_clear_onboarding_flag :: "'w peer_ctx \<Rightarrow> bytes \<Rightarrow> 'w peer \<Rightarrow> flow \<times> 'w peer" where
  "handle_clear_onboarding_flag C blob =
     (let cmd = ClearOnboardingFlag; ex = pc_exec C in
      new_member_step cmd C blob (\<lambda>config s0.
        case perform ex (ClearOnboarding (fst config)) s0 of
          (Inl _, s1) \<Rightarrow> retry_peer_step ex cmd s1
        | (Inr r, s1) \<Rightarrow>
            if r = ClearReply Proposed then
              (case perform ex (AuthorClearProposal (fst config)) s1 of
                 (Inl _, s2) \<Rightarrow> retry_peer_step ex cmd s2
               | (Inr (ClearProposal (Some proposal)), s2) \<Rightarrow> finish_step ex (SendClearProposal proposal) s2
               | (Inr _, s2) \<Rightarrow> finish_step ex (SendStatus CLEARED_STATUS) s2)
            else finish_step ex (SendStatus CLEARED_STATUS) s1))"

definition handle_sign_clear_onboarding :: "'w peer_ctx \<Rightarrow> bytes \<Rightarrow> 'w peer \<Rightarrow> flow \<times> 'w peer" where
  "handle_sign_clear_onboarding C blob s =
     (let cmd = message_type.SignClearOnboarding; ex = pc_exec C; P = nd_proto (pc_view C (world s)) in
      guard_step ex cmd (decode_length_prefixed blob 2) (\<lambda>items s0.
        if items ! 1 = [] then send_skip_status ex s0
        else guard_step ex cmd (check_clear_onboarding P (pc_expect C) (items ! 1)) (\<lambda>_.
          try_action ex cmd (SignClearProposal (items ! 1)) (finish_step ex (SendResult cmd))) s0) s)"

text \<open>This step does not go through the failure counter: any error ends the peer.\<close>

definition handle_retire_legacy_keys :: "'w peer_ctx \<Rightarrow> 'w peer \<Rightarrow> flow \<times> 'w peer" where
  "handle_retire_legacy_keys C s =
     (case dec_party_id (pc_expect C) of
        None \<Rightarrow> (Abort, s)
      | Some party \<Rightarrow> (case nd_sync (pc_view C (world s)) of
          Inl _ \<Rightarrow> (Abort, s)
        | Inr _ \<Rightarrow> (case perform (pc_exec C) (RetireLegacy party) s of
            (Inl _, s1) \<Rightarrow> (Abort, s1)
          | (Inr _, s1) \<Rightarrow> (case perform (pc_exec C) (SendStatus ''RetireLegacyKeys completed'') (s1\<lparr>failures := 0\<rparr>) of
              (Inl _, s2) \<Rightarrow> (Abort, s2)
            | (Inr _, s2) \<Rightarrow> (Go, s2)))))"

definition handle_peer_command :: "'w peer_ctx \<Rightarrow> message_type \<Rightarrow> bytes \<Rightarrow> 'w peer \<Rightarrow> flow \<times> 'w peer" where
  "handle_peer_command C command blob s =
     (if command = Wait then (Go, s)
      else if command = message_type.RetireLegacyKeys then handle_retire_legacy_keys C s
      else if command = Disconnect then (Disconnected, s)
      else if command = message_type.UploadDars then handle_upload_dars C blob s
      else if command = message_type.GenerateKeys then handle_generate_keys C blob s
      else if command = message_type.SignDns then handle_sign_dns C blob s
      else if command = message_type.SignP2p then handle_sign_p2p C blob s
      else if command = message_type.SignSubmissions then handle_sign_submissions C blob s
      else if command = SignKick then handle_sign_kick C blob s
      else if command = SignChangeThreshold then handle_sign_change_threshold C blob s
      else if command = GenerateAddPartyKeys then handle_generate_add_party_keys C blob s
      else if command = SignAddParty then handle_sign_add_party C blob s
      else if command = ImportAcs then handle_import_acs C blob s
      else if command = ClearOnboardingFlag then handle_clear_onboarding_flag C blob s
      else if command = message_type.SignClearOnboarding then handle_sign_clear_onboarding C blob s
      else (Go, s))"

section \<open>The loop\<close>

definition is_no_workflow :: "noise_error \<Rightarrow> bool" where
  "is_no_workflow e = (case e of BadStatusCode code _ \<Rightarrow> code = 503 | _ \<Rightarrow> False)"

text \<open>One iteration: a poll, then the command it brought.\<close>

definition peer_iteration :: "'w peer_ctx \<Rightarrow> ('w \<Rightarrow> (noise_error + message) \<times> 'w) \<Rightarrow> 'w peer \<Rightarrow> flow \<times> 'w peer" where
  "peer_iteration C poll s =
     (case poll (world s) of
        (Inl e, w) \<Rightarrow>
          let s1 = s\<lparr>world := w\<rparr> in
          if is_no_workflow e then
            (let s2 = s1\<lparr>errors := 0, no_workflow := no_workflow s + 1\<rparr>
             in (if no_workflow s2 \<ge> MAX_CONSECUTIVE_NO_WORKFLOW_POLLS then Abort else Go, s2))
          else
            (let s2 = s1\<lparr>errors := errors s + 1\<rparr> in (if errors s2 \<ge> 3 then Abort else Go, s2))
      | (Inr m, w) \<Rightarrow>
          let s1 = s\<lparr>world := w, errors := 0, no_workflow := 0\<rparr>; kind = ex_kind (pc_expect C) in
          if \<not> command_matches_kind kind (msg_type m) then retry_peer_step (pc_exec C) (msg_type m) s1
          else handle_peer_command C (msg_type m) (payload m) (persist_peer_step (pc_exec C) kind (msg_type m) s1))"

text \<open>The loop ends when the coordinator disconnects the peer or a failure ends the run.  It may also be
  told to wait for ever, so it takes the number of iterations to run; \<open>Go\<close> means it is still polling.\<close>

fun run_peer :: "nat \<Rightarrow> 'w peer_ctx \<Rightarrow> ('w \<Rightarrow> (noise_error + message) \<times> 'w) \<Rightarrow> 'w peer \<Rightarrow> flow \<times> 'w peer" where
  "run_peer 0 C poll s = (Go, s)"
| "run_peer (Suc n) C poll s = (case peer_iteration C poll s of
     (Go, s1) \<Rightarrow> run_peer n C poll s1
   | (f, s1) \<Rightarrow> (f, s1))"

definition peer_start :: "'w \<Rightarrow> 'w peer" where
  "peer_start w = \<lparr>world = w, alog = [], errors = 0, no_workflow = 0, failures = 0\<rparr>"

section \<open>Around the loop\<close>

record decline_payload =
  dp_kind :: workflow_kind
  dp_reason :: "string option"
  dp_instance :: "string option"
  dp_abandoned :: bool

text \<open>\<open>start_peer\<close>: no command is polled for before the accepted invitation was read back.  A peer that gives
  up reports so; \<open>render\<close> is the text of the error.\<close>

definition start_peer :: "nat \<Rightarrow> (string \<Rightarrow> string + peer_run option) \<Rightarrow> (string \<Rightarrow> peer_run_config option) \<Rightarrow> canton_id
    \<Rightarrow> canton_id \<Rightarrow> string \<Rightarrow> string \<Rightarrow> (peer_expectations \<Rightarrow> 'w peer_ctx) \<Rightarrow> ('w \<Rightarrow> (noise_error + message) \<times> 'w)
    \<Rightarrow> ('w peer \<Rightarrow> string) \<Rightarrow> 'w \<Rightarrow> val_error + flow \<times> 'w peer \<times> decline_payload option" where
  "start_peer n get_run from_json own coordinator run_name coordinator_instance ctx poll render w =
     and_then (load_expectations get_run from_json own run_name coordinator) (\<lambda>e.
       let (f, s) = run_peer n (ctx e) poll (peer_start w) in
       Inr (f, s, if f = Abort then Some \<lparr>dp_kind = ex_kind e, dp_reason = Some (render s),
             dp_instance = (if coordinator_instance = [] then None else Some coordinator_instance), dp_abandoned = True\<rparr>
           else None))"

text \<open>Durations and instants are in nanoseconds.\<close>

definition PEER_SILENCE_LIMIT :: nat where "PEER_SILENCE_LIMIT = 600 * 10 ^ 9"
definition FAILURE_REPORT_BACKOFF :: nat where "FAILURE_REPORT_BACKOFF = 10 * 10 ^ 9"

text \<open>The loop of \<open>report_departure\<close>, for at most \<open>n\<close> attempts; \<open>None\<close> means it is still trying.\<close>

fun report_loop :: "nat \<Rightarrow> ('w \<Rightarrow> (noise_error + unit) \<times> 'w) \<Rightarrow> ('w \<Rightarrow> nat) \<Rightarrow> (nat \<Rightarrow> 'w \<Rightarrow> 'w) \<Rightarrow> nat \<Rightarrow> 'w \<Rightarrow> 'w option" where
  "report_loop 0 tell clock sleep deadline w = None"
| "report_loop (Suc n) tell clock sleep deadline w = (case tell w of
     (Inr _, w1) \<Rightarrow> Some w1
   | (Inl e, w1) \<Rightarrow>
       if is_no_workflow e then Some w1
       else if is_transient e \<and> clock w1 + FAILURE_REPORT_BACKOFF < deadline
       then report_loop n tell clock sleep deadline (sleep FAILURE_REPORT_BACKOFF w1)
       else Some w1)"

definition report_departure :: "nat \<Rightarrow> ('w \<Rightarrow> (noise_error + unit) \<times> 'w) \<Rightarrow> ('w \<Rightarrow> nat) \<Rightarrow> (nat \<Rightarrow> 'w \<Rightarrow> 'w) \<Rightarrow> 'w \<Rightarrow> 'w option" where
  "report_departure n tell clock sleep w = report_loop n tell clock sleep (clock w + PEER_SILENCE_LIMIT) w"

section \<open>What the peer is entitled to do\<close>

text \<open>Whether the operator's consent covers an action in a world, given what was done before: the run is of
  the kind the action belongs to, and the check of that action's data accepted.\<close>

definition covers :: "'w peer_ctx \<Rightarrow> ('w \<times> action) list \<Rightarrow> 'w \<Rightarrow> action \<Rightarrow> bool" where
  "covers C prev w a = (let e = pc_expect C; kind = ex_kind e; I = pc_instance C; nd = pc_view C in case a of
     UploadDarsFromBytes files \<Rightarrow> kind = Dars \<and> check_dars (nd_proto (nd w)) e files = Inr ()
   | OnboardingGenerateKeys p \<Rightarrow> kind = Onboarding \<and> ex_prefix e = Some p
   | SignDnsProposals b \<Rightarrow> kind = Onboarding \<and> (\<exists>old w0 n. prev = old @ [(w0, WriteAcceptedNamespace n)] \<and>
       check_onboarding_dns e (nd w0) I b = Inr n)
   | SignP2pProposals b \<Rightarrow> kind = Onboarding \<and> (\<exists>n. signed_namespace C w = Inr (Some n) \<and>
       check_onboarding_p2p e (nd w) I b (Some n) = Inr ())
   | ContractsSignSubmissions party intents \<Rightarrow> kind = Contracts \<and> dec_party_id e = Some party \<and> intents = contract_intents e
   | KickSignProposals d \<Rightarrow> kind = Kick \<and> (\<exists>dns p2p. d = encode_length_prefixed [dns, p2p] \<and>
       check_party_proposals e (nd w) I dns p2p = Inr ())
   | ChangeThresholdSignProposals d \<Rightarrow> kind = ChangeThreshold \<and> (\<exists>dns p2p. d = encode_length_prefixed [dns, p2p] \<and>
       check_party_proposals e (nd w) I dns p2p = Inr ())
   | AddPartySignProposals d \<Rightarrow> kind = AddParty \<and> (\<exists>dns p2p w0. d = encode_length_prefixed [dns, p2p] \<and>
       check_party_proposals e (nd w0) I dns p2p = Inr () \<and>
       (if new_participant e = Some (pc_self C) then \<exists>old. prev = old @ [(w0, CheckVettedPackagesHeld)] else w0 = w))
   | SignClearProposal b \<Rightarrow> kind = AddParty \<and> check_clear_onboarding (nd_proto (nd w)) e b = Inr ()
   | AddPartyGenerateKeys p \<Rightarrow> kind = AddParty \<and> dec_party_id e = Some p \<and> new_participant e = Some (pc_self C)
   | OpenImportWindow p \<Rightarrow> kind = AddParty \<and> dec_party_id e = Some p \<and> new_participant e = Some (pc_self C)
   | ImportPartyAcs p _ \<Rightarrow> kind = AddParty \<and> dec_party_id e = Some p \<and> new_participant e = Some (pc_self C)
   | ClearOnboarding p \<Rightarrow> kind = AddParty \<and> dec_party_id e = Some p \<and> new_participant e = Some (pc_self C)
   | AuthorClearProposal p \<Rightarrow> kind = AddParty \<and> dec_party_id e = Some p \<and> new_participant e = Some (pc_self C)
   | RetireLegacy p \<Rightarrow> kind \<in> {Kick, AddParty, ChangeThreshold} \<and> dec_party_id e = Some p
   | _ \<Rightarrow> True)"

definition covered :: "'w peer_ctx \<Rightarrow> ('w \<times> action) list \<Rightarrow> bool" where
  "covered C l \<longleftrightarrow> (\<forall>i<length l. covers C (take i l) (fst (l ! i)) (snd (l ! i)))"

lemma covered_Nil [simp]: "covered C []"
  by (simp add: covered_def)

lemma covered_snoc [simp]: "covered C (l @ [x]) \<longleftrightarrow> covered C l \<and> covers C l (fst x) (snd x)"
  by (auto simp: covered_def less_Suc_eq nth_append)

lemma covered_append2 [simp]: "covered C (l @ [x, y]) \<longleftrightarrow> covered C (l @ [x]) \<and> covers C (l @ [x]) (fst y) (snd y)"
  using covered_snoc [of C "l @ [x]" y] by simp

lemma perform_frame:
  assumes "perform ex a s = (r, s1)"
  shows "alog s1 = alog s @ [(world s, a)]" "failures s1 = failures s" "errors s1 = errors s" "no_workflow s1 = no_workflow s"
  using assms by (auto simp: perform_def split: prod.splits)

lemma attempt_frame [simp]:
  "alog (attempt_action ex a s) = alog s @ [(world s, a)]" "failures (attempt_action ex a s) = failures s"
  "errors (attempt_action ex a s) = errors s" "no_workflow (attempt_action ex a s) = no_workflow s"
  by (simp_all add: attempt_action_def perform_def split: prod.splits)

text \<open>The property kept by every step: if the log was covered before, it is after.\<close>

definition keeps :: "'w peer_ctx \<Rightarrow> 'w peer \<Rightarrow> flow \<times> 'w peer \<Rightarrow> bool" where
  "keeps C s r \<longleftrightarrow> (covered C (alog s) \<longrightarrow> covered C (alog (snd r)))"

named_theorems keep_rules

lemma keeps_retry [keep_rules]: "keeps C s (retry_peer_step ex cmd s)"
  by (simp add: keeps_def retry_peer_step_def covers_def Let_def)

lemma keeps_try [keep_rules]:
  assumes "covers C (alog s) (world s) a"
    and "\<And>s1. alog s1 = alog s @ [(world s, a)] \<Longrightarrow> keeps C s1 (k s1)"
  shows "keeps C s (try_action ex cmd a k s)"
proof (cases "perform ex a s")
  case (Pair r s1)
  note f = perform_frame [OF Pair]
  then show ?thesis
    using assms(1) assms(2) [OF f(1)] keeps_retry [of C s1 ex cmd] Pair
    by (cases r) (simp_all add: keeps_def try_action_def)
qed

lemma keeps_guard [keep_rules]:
  assumes "\<And>x. r = Inr x \<Longrightarrow> keeps C s (k x s)"
  shows "keeps C s (guard_step ex cmd r k s)"
  using assms keeps_retry [of C s ex cmd] by (cases r) (simp_all add: guard_step_def)

lemma keeps_finish [keep_rules]:
  assumes "\<And>l w. covers C l w a"
  shows "keeps C s (finish_step ex a s)"
  using assms by (simp add: keeps_def finish_step_def)

lemma keeps_if [keep_rules]: "(b \<Longrightarrow> keeps C s x) \<Longrightarrow> (\<not> b \<Longrightarrow> keeps C s y) \<Longrightarrow> keeps C s (if b then x else y)"
  by simp

lemma keeps_Pair [keep_rules]: "keeps C s (f, s)"
  by (simp add: keeps_def)

text \<open>The same for an action whose failure is handled otherwise.\<close>

lemma keeps_perform:
  assumes "covers C (alog s) (world s) a"
    and "\<And>e s1. alog s1 = alog s @ [(world s, a)] \<Longrightarrow> keeps C s1 (f e s1)"
    and "\<And>r s1. alog s1 = alog s @ [(world s, a)] \<Longrightarrow> keeps C s1 (g r s1)"
  shows "keeps C s (case perform ex a s of (Inl e, s1) \<Rightarrow> f e s1 | (Inr r, s1) \<Rightarrow> g r s1)"
proof (cases "perform ex a s")
  case (Pair r s1)
  note f = perform_frame(1) [OF Pair]
  then show ?thesis using assms(1) assms(2) [OF f] assms(3) [OF f] Pair
    by (cases r) (simp_all add: keeps_def)
qed

lemma covers_free [simp]:
  "covers C l w (SendStatus st)" "covers C l w (SendResult m)" "covers C l w (SendClearProposal b)"
  "covers C l w (CopySelfIdentity p)" "covers C l w (WriteRunPartyId p)" "covers C l w (WriteAcceptedNamespace n)"
  "covers C l w (WritePreparedSubmission o' b)" "covers C l w (PersistStep nm i)" "covers C l w CheckVettedPackagesHeld"
  "covers C l w (StepFailed m)" "covers C l w (WaitForHostingProposal p)"
  by (simp_all add: covers_def)

lemma keeps_skip [keep_rules]: "keeps C s (send_skip_status ex s)"
  unfolding send_skip_status_def by (rule keeps_finish) simp

lemma kind_of_command:
  assumes "command_matches_kind kind c"
  shows "c = message_type.UploadDars \<Longrightarrow> kind = Dars"
    "c = message_type.GenerateKeys \<or> c = message_type.SignDns \<or> c = message_type.SignP2p \<Longrightarrow> kind = Onboarding"
    "c = message_type.SignSubmissions \<Longrightarrow> kind = Contracts" "c = SignKick \<Longrightarrow> kind = Kick"
    "c = SignChangeThreshold \<Longrightarrow> kind = ChangeThreshold"
    "c = GenerateAddPartyKeys \<or> c = SignAddParty \<or> c = ImportAcs \<or> c = ClearOnboardingFlag \<or> c = message_type.SignClearOnboarding \<Longrightarrow> kind = AddParty"
    "c = message_type.RetireLegacyKeys \<Longrightarrow> kind \<in> {Kick, AddParty, ChangeThreshold}"
  using assms by (cases kind; auto simp: command_matches_kind_def peer_step_for_command_def)+

subsection \<open>The steps stay within the consent\<close>

lemma keeps_upload_dars:
  "ex_kind (pc_expect C) = Dars \<Longrightarrow> keeps C s (handle_upload_dars C blob s)"
  unfolding handle_upload_dars_def Let_def by (intro keep_rules) (simp_all add: covers_def)

lemma keeps_generate_keys:
  "ex_kind (pc_expect C) = Onboarding \<Longrightarrow> keeps C s (handle_generate_keys C blob s)"
  unfolding handle_generate_keys_def Let_def
  by (intro keep_rules) (auto simp: covers_def check_onboarding_config_def split: option.splits if_splits)

lemma keeps_sign_dns:
  "ex_kind (pc_expect C) = Onboarding \<Longrightarrow> keeps C s (handle_sign_dns C blob s)"
  unfolding handle_sign_dns_def Let_def by (intro keep_rules) (auto simp: covers_def)

lemma keeps_hook:
  "keeps C s (f, s1) \<Longrightarrow> keeps C s (f, identity_hook ex r s1)"
  by (auto simp: keeps_def identity_hook_def split: sum.splits)

lemma p2p_none_refused: "check_onboarding_p2p e nd I b None \<noteq> Inr ()"
  by (simp add: check_onboarding_p2p_def Let_def and_then_Inr_iff)

lemma keeps_sign_p2p:
  "ex_kind (pc_expect C) = Onboarding \<Longrightarrow> keeps C s (handle_sign_p2p C blob s)"
  unfolding handle_sign_p2p_def Let_def
  apply (intro keep_rules)
   subgoal for u n v by (cases n) (simp_all add: covers_def p2p_none_refused)
  apply (simp add: split_beta)
  apply (rule keeps_hook, simp add: keeps_def finish_step_def)
  done

lemma save_submissions_covered:
  "covered C (alog s) \<Longrightarrow> covered C (alog (snd (save_submissions ex files s)))"
proof (induction ex files s rule: save_submissions.induct)
  case (2 ex ordinal data files s)
  obtain r s1 where p: "perform ex (WritePreparedSubmission ordinal data) s = (r, s1)"
    by (cases "perform ex (WritePreparedSubmission ordinal data) s")
  then have "covered C (alog s1)" using perform_frame(1) [OF p] 2(2) by simp
  then show ?case using 2(1) p by (cases r) simp_all
qed simp

lemma keeps_sign_submissions:
  "ex_kind (pc_expect C) = Contracts \<Longrightarrow> keeps C s (handle_sign_submissions C blob s)"
proof -
  assume kind: "ex_kind (pc_expect C) = Contracts"
  have save: "covered C (alog s) \<longrightarrow> covered C (alog (snd (save_prepared_submissions_from_payload ex b s)))" for ex b s
    using save_submissions_covered [of C s ex] by (simp add: save_prepared_submissions_from_payload_def split: sum.splits)
  have step: "keeps C s (case save_prepared_submissions_from_payload ex b s of
      (Inl e, s1) \<Rightarrow> retry_peer_step ex cmd s1 | (Inr u, s1) \<Rightarrow> try_action ex cmd a (finish_step ex (SendResult cmd)) s1)"
    if "\<And>l w. covers C l w a" for ex b s cmd a
  proof (cases "save_prepared_submissions_from_payload ex b s")
    case (Pair r s1)
    have t: "keeps C s1 (try_action ex cmd a (finish_step ex (SendResult cmd)) s1)"
      by (intro keep_rules) (simp_all add: that)
    show ?thesis using save [of s ex b] keeps_retry [of C s1 ex cmd] t Pair
      by (cases r) (simp_all add: keeps_def)
  qed
  show ?thesis
    unfolding handle_sign_submissions_def Let_def
    apply (rule keeps_guard)+
    apply (rule step)
    using kind by (auto simp: covers_def check_dec_party_def split: option.splits if_splits)
qed

lemma keeps_sign_party_proposals:
  assumes "\<And>l w dns p2p. check_party_proposals (pc_expect C) (pc_view C w) (pc_instance C) dns p2p = Inr () \<Longrightarrow>
      covers C l w (sign (encode_length_prefixed [dns, p2p]))"
  shows "keeps C s (handle_sign_party_proposals cmd json sign C blob s)"
  unfolding handle_sign_party_proposals_def Let_def by (intro keep_rules) (simp_all add: assms del: encode_length_prefixed_simps)

lemma keeps_sign_kick: "ex_kind (pc_expect C) = Kick \<Longrightarrow> keeps C s (handle_sign_kick C blob s)"
  unfolding handle_sign_kick_def
  by (rule keeps_sign_party_proposals) (auto simp: covers_def simp del: encode_length_prefixed_simps)

lemma keeps_sign_change_threshold:
  "ex_kind (pc_expect C) = ChangeThreshold \<Longrightarrow> keeps C s (handle_sign_change_threshold C blob s)"
  unfolding handle_sign_change_threshold_def
  by (rule keeps_sign_party_proposals) (auto simp: covers_def simp del: encode_length_prefixed_simps)

lemma add_party_config_pinned:
  "check_add_party_config e config = Inr () \<longleftrightarrow> dec_party_id e = Some (fst config) \<and> new_participant e = Some (snd config)"
  by (auto simp: check_add_party_config_def check_dec_party_def check_new_participant_def and_then_Inr_iff
      split: option.splits if_splits)

lemma keeps_new_member_step [keep_rules]:
  assumes "\<And>config. dec_party_id (pc_expect C) = Some (fst config) \<Longrightarrow> new_participant (pc_expect C) = Some (pc_self C) \<Longrightarrow>
      keeps C s (k config s)"
  shows "keeps C s (new_member_step cmd C blob k s)"
  unfolding new_member_step_def Let_def
  apply (intro keep_rules)
  using assms by (auto simp: add_party_config_pinned is_new_member_def)

lemma keeps_generate_add_party_keys:
  "ex_kind (pc_expect C) = AddParty \<Longrightarrow> keeps C s (handle_generate_add_party_keys C blob s)"
  unfolding handle_generate_add_party_keys_def Let_def
  by (intro keep_rules) (simp_all add: covers_def)

lemma keeps_import_acs:
  "ex_kind (pc_expect C) = AddParty \<Longrightarrow> keeps C s (handle_import_acs C blob s)"
  unfolding handle_import_acs_def Let_def
  apply (rule keeps_guard, rule keeps_new_member_step, rule keeps_perform)
    apply (simp add: covers_def)
   apply (rule keep_rules)
  apply (rule keep_rules, simp)
  done

lemma keeps_clear_onboarding_flag:
  "ex_kind (pc_expect C) = AddParty \<Longrightarrow> keeps C s (handle_clear_onboarding_flag C blob s)"
proof -
  assume kind: "ex_kind (pc_expect C) = AddParty"
  have author: "keeps C s1 (case perform ex (AuthorClearProposal p) s1 of
       (Inl e, s2) \<Rightarrow> retry_peer_step ex cmd s2
     | (Inr (ClearProposal (Some b)), s2) \<Rightarrow> finish_step ex (SendClearProposal b) s2
     | (Inr r, s2) \<Rightarrow> finish_step ex (SendStatus CLEARED_STATUS) s2)"
    if "dec_party_id (pc_expect C) = Some p" "new_participant (pc_expect C) = Some (pc_self C)" for s1 ex p cmd
  proof (cases "perform ex (AuthorClearProposal p) s1")
    case (Pair r s2)
    have "covered C (alog s1) \<longrightarrow> covered C (alog s2)"
      using perform_frame(1) [OF Pair] that kind by (simp add: covers_def)
    then show ?thesis using Pair keeps_retry [of C s2 ex cmd]
      by (auto simp: keeps_def finish_step_def split: sum.splits reply.splits option.splits)
  qed
  show ?thesis
    unfolding handle_clear_onboarding_flag_def Let_def
    apply (rule keeps_new_member_step, rule keeps_perform)
      apply (simp add: covers_def kind)
     apply (rule keep_rules)
    apply (rule keeps_if, rule author, assumption, assumption, rule keep_rules, simp)
    done
qed

lemma keeps_sign_clear_onboarding:
  "ex_kind (pc_expect C) = AddParty \<Longrightarrow> keeps C s (handle_sign_clear_onboarding C blob s)"
  unfolding handle_sign_clear_onboarding_def Let_def by (intro keep_rules) (simp_all add: covers_def)

lemma keeps_sign_add_party:
  "ex_kind (pc_expect C) = AddParty \<Longrightarrow> keeps C s (handle_sign_add_party C blob s)"
proof -
  assume kind: "ex_kind (pc_expect C) = AddParty"
  let ?ex = "pc_exec C"
  have close: "keeps C s (case finish_step ?ex (SendResult cmd) s of (f, s2) \<Rightarrow>
      (f, attempt_action ?ex (CopySelfIdentity p) s2))" for s cmd p
    by (simp add: keeps_def finish_step_def)
  have sign: "keeps C s ((let new = is_new_member C config;
            sign = AddPartySignProposals (encode_length_prefixed [dns, p2p]);
            close = (\<lambda>s1. let (f, s2) = finish_step ?ex (SendResult cmd) s1
                     in (f, if new then attempt_action ?ex (CopySelfIdentity (fst config)) s2 else s2));
            window = (if new then try_action ?ex cmd (WaitForHostingProposal (fst config))
                                  (try_action ?ex cmd (OpenImportWindow (fst config)) close) else close);
            signed = try_action ?ex cmd sign window
        in if new then try_action ?ex cmd CheckVettedPackagesHeld signed else signed) s)"
    if pin: "check_add_party_config (pc_expect C) config = Inr ()"
      and ok: "check_party_proposals (pc_expect C) (pc_view C (world s)) (pc_instance C) dns p2p = Inr ()" for config dns p2p cmd
  proof (cases "is_new_member C config")
    case True
    then have new: "new_participant (pc_expect C) = Some (pc_self C)" "dec_party_id (pc_expect C) = Some (fst config)"
      using pin by (auto simp: add_party_config_pinned is_new_member_def)
    have c1: "covers C (alog s @ [(world s, CheckVettedPackagesHeld)]) w (AddPartySignProposals (encode_length_prefixed [dns, p2p]))" for w
      using ok new kind unfolding covers_def Let_def by (simp del: encode_length_prefixed_simps) blast
    have c2: "covers C l w (OpenImportWindow (fst config))" for l w using new kind by (simp add: covers_def)
    show ?thesis
      unfolding Let_def using True
      by (simp only: if_True) (intro keeps_try covers_free c2, simp only: c1, rule close)
  next
    case False
    then have new: "new_participant (pc_expect C) \<noteq> Some (pc_self C)"
      using pin by (auto simp: add_party_config_pinned is_new_member_def)
    have c1: "covers C l (world s) (AddPartySignProposals (encode_length_prefixed [dns, p2p]))" for l
      using ok new kind unfolding covers_def Let_def by (simp del: encode_length_prefixed_simps) blast
    show ?thesis
      unfolding Let_def using False
      by (simp only: if_False) (intro keeps_try c1, simp add: keeps_def finish_step_def)
  qed
  show ?thesis
    unfolding handle_sign_add_party_def
    apply (simp only: Let_def [of SignAddParty] Let_def [of "pc_exec C"])
    apply (rule keeps_guard)+
    apply (rule sign)
    by (auto simp: and_then_Inr_iff)
qed

lemma keeps_retire_legacy_keys:
  assumes "ex_kind (pc_expect C) \<in> {Kick, AddParty, ChangeThreshold}"
  shows "keeps C s (handle_retire_legacy_keys C s)"
proof (cases "dec_party_id (pc_expect C)")
  case (Some p)
  have send: "keeps C s1 (case perform (pc_exec C) (SendStatus st) (s1\<lparr>failures := 0\<rparr>) of
      (Inl e, s2) \<Rightarrow> (Abort, s2) | (Inr r, s2) \<Rightarrow> (Go, s2))" for s1 st
    using keeps_perform [of C "s1\<lparr>failures := 0\<rparr>" "SendStatus st" "\<lambda>_ s. (Abort, s)" "\<lambda>_ s. (Go, s)" "pc_exec C"]
    by (simp add: keeps_def)
  show ?thesis
  proof (cases "nd_sync (pc_view C (world s))")
    case (Inr sync)
    have "covers C (alog s) (world s) (RetireLegacy p)" using Some assms by (simp add: covers_def)
    then have "keeps C s (case perform (pc_exec C) (RetireLegacy p) s of (Inl e, s1) \<Rightarrow> (Abort, s1)
        | (Inr r, s1) \<Rightarrow> (case perform (pc_exec C) (SendStatus ''RetireLegacyKeys completed'') (s1\<lparr>failures := 0\<rparr>) of
              (Inl e, s2) \<Rightarrow> (Abort, s2) | (Inr r, s2) \<Rightarrow> (Go, s2)))"
      by (rule keeps_perform) (rule keeps_Pair send)+
    then show ?thesis using Some Inr by (simp add: handle_retire_legacy_keys_def)
  qed (simp add: handle_retire_legacy_keys_def Some keeps_def)
qed (simp add: handle_retire_legacy_keys_def keeps_def)

lemma keeps_command:
  assumes m: "command_matches_kind (ex_kind (pc_expect C)) c"
  shows "keeps C s (handle_peer_command C c blob s)"
proof -
  note k = kind_of_command [OF m]
  show ?thesis
    unfolding handle_peer_command_def
    by (intro keeps_if keeps_Pair keeps_retire_legacy_keys keeps_upload_dars keeps_generate_keys keeps_sign_dns
        keeps_sign_p2p keeps_sign_submissions keeps_sign_kick keeps_sign_change_threshold keeps_generate_add_party_keys
        keeps_sign_add_party keeps_import_acs keeps_clear_onboarding_flag keeps_sign_clear_onboarding)
       (rule k; simp)+
qed

lemma persist_covered: "covered C (alog s) \<Longrightarrow> covered C (alog (persist_peer_step ex kind c s))"
  by (simp add: persist_peer_step_def split: option.splits)

lemma covered_iteration:
  assumes "covered C (alog s)"
  shows "covered C (alog (snd (peer_iteration C poll s)))"
proof (cases "poll (world s)")
  case (Pair r w)
  show ?thesis
  proof (cases r)
    case (Inl e)
    then show ?thesis using assms Pair by (simp add: peer_iteration_def Let_def)
  next
    case (Inr m)
    let ?s1 = "s\<lparr>world := w, errors := 0, no_workflow := 0\<rparr>" and ?k = "ex_kind (pc_expect C)"
    have c: "covered C (alog (persist_peer_step (pc_exec C) ?k (msg_type m) ?s1))"
      by (rule persist_covered) (simp add: assms)
    have r: "covered C (alog (snd (retry_peer_step (pc_exec C) (msg_type m) ?s1)))"
      using keeps_retry [of C ?s1 "pc_exec C" "msg_type m"] assms by (simp add: keeps_def)
    show ?thesis
      using keeps_command [of C "msg_type m" "persist_peer_step (pc_exec C) ?k (msg_type m) ?s1" "payload m"] c r Pair Inr
      by (simp add: peer_iteration_def Let_def keeps_def)
  qed
qed

lemma covered_run: "covered C (alog s) \<Longrightarrow> covered C (alog (snd (run_peer n C poll s)))"
proof (induction n arbitrary: s)
  case (Suc n)
  have i: "covered C (alog (snd (peer_iteration C poll s)))" using Suc.prems by (rule covered_iteration)
  obtain f s1 where p: "peer_iteration C poll s = (f, s1)" by (cases "peer_iteration C poll s")
  then show ?case using i Suc.IH [of s1] by (cases f) simp_all
qed simp

subsection \<open>Giving up\<close>

text \<open>How many more polls without a usable command the peer tolerates.\<close>

definition patience :: "'w peer \<Rightarrow> nat" where
  "patience s = 12 * (5 - failures s) + (3 * (4 - no_workflow s) - errors s)"

definition counters_ok :: "'w peer \<Rightarrow> bool" where
  "counters_ok s \<longleftrightarrow> errors s < 3 \<and> no_workflow s < 4 \<and> failures s < 6"

lemma useless_poll:
  assumes "counters_ok s" "case fst (poll (world s)) of Inl e \<Rightarrow> True | Inr m \<Rightarrow> \<not> command_matches_kind (ex_kind (pc_expect C)) (msg_type m)"
    and "peer_iteration C poll s = (f, s1)"
  shows "f = Abort \<or> f = Go \<and> counters_ok s1 \<and> patience s1 < patience s"
proof (cases "poll (world s)")
  case (Pair r w)
  show ?thesis
  proof (cases r)
    case (Inl e)
    then show ?thesis using assms Pair
      by (auto simp: peer_iteration_def Let_def counters_ok_def patience_def MAX_CONSECUTIVE_NO_WORKFLOW_POLLS_def split: if_splits)
  next
    case (Inr m)
    then have "(f, s1) = retry_peer_step (pc_exec C) (msg_type m) (s\<lparr>world := w, errors := 0, no_workflow := 0\<rparr>)"
      using assms Pair by (simp add: peer_iteration_def Let_def)
    then show ?thesis using assms(1)
      by (auto simp: retry_peer_step_def Let_def counters_ok_def patience_def MAX_CONSECUTIVE_STEP_FAILURES_def split: if_splits)
  qed
qed

lemma run_peer_gives_up:
  assumes "\<forall>w. case fst (poll w) of Inl e \<Rightarrow> True | Inr m \<Rightarrow> \<not> command_matches_kind (ex_kind (pc_expect C)) (msg_type m)"
  shows "counters_ok s \<Longrightarrow> patience s \<le> n \<Longrightarrow> fst (run_peer n C poll s) = Abort"
proof (induction n arbitrary: s)
  case 0
  then show ?case by (auto simp: counters_ok_def patience_def)
next
  case (Suc n)
  obtain f s1 where p: "peer_iteration C poll s = (f, s1)" by (cases "peer_iteration C poll s")
  have "f = Abort \<or> f = Go \<and> counters_ok s1 \<and> patience s1 < patience s"
    using assms by (intro useless_poll [OF Suc.prems(1) _ p]) blast
  then show ?case using p Suc.IH [of s1] Suc.prems(2) by auto
qed

lemma report_loop_ends:
  assumes "\<And>w. clock w \<le> clock (snd (tell w))" "\<And>d w. clock w + d \<le> clock (sleep d w)"
  shows "0 < n \<Longrightarrow> deadline \<le> clock w + n * FAILURE_REPORT_BACKOFF \<Longrightarrow> \<exists>w'. report_loop n tell clock sleep deadline w = Some w'"
proof (induction n arbitrary: w)
  case (Suc n)
  obtain r w1 where r: "tell w = (r, w1)" by (cases "tell w")
  have le: "clock w \<le> clock w1" using assms(1) [of w] r by simp
  show ?case
  proof (cases "\<exists>e. r = Inl e \<and> \<not> is_no_workflow e \<and> is_transient e \<and> clock w1 + FAILURE_REPORT_BACKOFF < deadline")
    case True
    then have again: "report_loop (Suc n) tell clock sleep deadline w =
        report_loop n tell clock sleep deadline (sleep FAILURE_REPORT_BACKOFF w1)" and lt: "clock w1 + FAILURE_REPORT_BACKOFF < deadline"
      using r by auto
    have late: "clock w + FAILURE_REPORT_BACKOFF \<le> clock (sleep FAILURE_REPORT_BACKOFF w1)"
      using assms(2) [of w1 FAILURE_REPORT_BACKOFF] le by linarith
    have "0 < n" using lt le Suc.prems(2) by (cases n) auto
    then show ?thesis using Suc.IH [of "sleep FAILURE_REPORT_BACKOFF w1"] late Suc.prems(2) again by simp
  next
    case False
    then show ?thesis using r by (cases r) auto
  qed
qed simp

definition example_ctx :: "unit peer_ctx" where
  "example_ctx = \<lparr>pc_exec = (\<lambda>_ w. (Inr Done, w)), pc_view = (\<lambda>_. ex_node),
     pc_codecs = \<lparr>json_onboarding_prefix = (\<lambda>_. None), json_contracts_party = (\<lambda>_. None), json_kick = (\<lambda>_. Some ()),
       json_change_threshold = (\<lambda>_. Some ()), json_add_party = (\<lambda>_. None)\<rparr>,
     pc_expect = ex_expect, pc_instance = ''run'', pc_self = ex_me\<rparr>"

section \<open>Properties\<close>

text \<open>Whatever the coordinator sends and whatever the participant, the database and the
  network answer, everything a peer does in a run is covered by the invitation its operator accepted: it signs, uploads,
  generates keys, imports or retires only in a run of the kind that does so, after the check of exactly that data
  accepted (for a DNS proposal: after recording the namespace the check returned; for the new member of an add-party
  run: after checking its vetted packages), for the accepted party, and takes the new member's part only if it is the
  accepted new member.\<close>

theorem peer_acts_within_consent: "covered C (alog (snd (run_peer n C poll (peer_start w))))"
  by (rule covered_run) (simp add: peer_start_def)

text \<open>A peer does not poll a coordinator for ever that has nothing it may do.  If every poll
  fails or brings a command that does not belong to the accepted kind, the loop ends with an error within 72 polls.\<close>

theorem peer_gives_up:
  assumes "\<forall>w. case fst (poll w) of Inl e \<Rightarrow> True | Inr m \<Rightarrow> \<not> command_matches_kind (ex_kind (pc_expect C)) (msg_type m)"
  shows "fst (run_peer 72 C poll (peer_start w)) = Abort"
  by (rule run_peer_gives_up [OF assms]) (simp_all add: peer_start_def counters_ok_def patience_def)

theorem peer_gives_up_witness:
  "fst (run_peer 72 example_ctx (\<lambda>w. (Inl RequestTimeout, w)) (peer_start ())) = Abort"
  by (rule peer_gives_up) simp

text \<open>A peer that gave up stops reporting it.  As long as the clock does not run backwards
  and a sleep lasts as long as asked, at most 60 attempts are made, all within the silence limit.\<close>

theorem departure_report_ends:
  assumes "\<And>w. clock w \<le> clock (snd (tell w))" "\<And>d w. clock w + d \<le> clock (sleep d w)"
  shows "\<exists>w'. report_departure 60 tell clock sleep w = Some w'"
  unfolding report_departure_def
  by (rule report_loop_ends [where clock = clock, OF assms]) (simp_all add: PEER_SILENCE_LIMIT_def FAILURE_REPORT_BACKOFF_def)

theorem departure_report_ends_witness:
  "\<exists>w'. report_departure 60 (\<lambda>w. (Inl RequestTimeout, w)) (\<lambda>t :: nat. t) (\<lambda>d t. t + d) 0 = Some w'"
  by (rule departure_report_ends) simp_all

end
