(* ===== verification/Noise_Server.thy ===== *)
theory Noise_Server
  imports Noise_Client Peer_Loop "HOL-Library.AList"
begin

text \<open>
  The coordinator's side of a run, \<open>NoiseServer<S>\<close> of \<open>crates/decman/src/noise/server.rs\<close>: how a
  run is opened or resumed and which quorum it needs, what a polling peer is told, how payloads
  are cut into chunks, what uploads, status updates and declines do to the run, and when the run
  is given up because its peers are gone.

  A handler is a function of the server's state; each runs without interleaving here (the
  interleavings of the run state itself are those of \<open>Workflow_Locks\<close>).  Instants are in
  nanoseconds.  What the process around the handlers supplies, clocks, transaction outcomes, the
  digest and the JSON decoder, is the record \<open>server_env\<close>.
\<close>

section \<open>Quorum\<close>

definition command_carries_payload :: "message_type \<Rightarrow> bool" where
  "command_carries_payload c \<longleftrightarrow> c \<notin> {Disconnect, message_type.RetireLegacyKeys}"

definition decline_matches_run :: "decline_payload \<Rightarrow> workflow_kind \<Rightarrow> string \<Rightarrow> bool" where
  "decline_matches_run d run_kind run_instance \<longleftrightarrow> dp_kind d = run_kind \<and>
     (case dp_instance d of Some i \<Rightarrow> i = run_instance | None \<Rightarrow> True)"

definition peers_for_party_threshold :: "nat \<Rightarrow> nat \<Rightarrow> nat" where
  "peers_for_party_threshold m n = (if n = 0 then 0 else clamp (m - 1) 1 n)"

text \<open>The rows of \<open>dec_parties\<close> under a prefix: party id and threshold.\<close>

type_synonym dec_party_rows = "string \<Rightarrow> string + (string \<times> int) list"

definition lookup_party_threshold :: "hexlib \<Rightarrow> dec_party_rows \<Rightarrow> canton_id \<Rightarrow> nat option" where
  "lookup_party_threshold H rows party =
     (case rows (prefix party) of
        Inl _ \<Rightarrow> None
      | Inr ps \<Rightarrow> (case find (\<lambda>(i, _). i = canton_id_display H party) ps of
          None \<Rightarrow> None
        | Some (_, t) \<Rightarrow> if 1 \<le> t then Some (nat t) else None))"

definition party_keys_are_legacy :: "proto \<Rightarrow> canton_api \<Rightarrow> string + string \<Rightarrow> canton_id \<Rightarrow> bool" where
  "party_keys_are_legacy P A synchronizer party =
     (case synchronizer of
        Inl _ \<Rightarrow> True
      | Inr sync \<Rightarrow> (case fetch_p2p_mapping P A sync party of
          Inl _ \<Rightarrow> True
        | Inr m \<Rightarrow> (case p2p_signing_keys m of None \<Rightarrow> True | Some ks \<Rightarrow> sk_keys ks = [])))"

definition resolve_peer_threshold :: "hexlib \<Rightarrow> proto \<Rightarrow> canton_api \<Rightarrow> string + string \<Rightarrow> dec_party_rows
    \<Rightarrow> workflow_kind \<Rightarrow> canton_id option \<Rightarrow> nat \<Rightarrow> nat option" where
  "resolve_peer_threshold H P A synchronizer rows kind dec_party n =
     (if n = 0 then None
      else if kind \<in> {Onboarding, Dars, AddParty, ChangeThreshold} then None
      else case dec_party of
        None \<Rightarrow> None
      | Some party \<Rightarrow>
          if kind = Kick \<and> party_keys_are_legacy P A synchronizer party then None
          else map_option (\<lambda>m. peers_for_party_threshold m n) (lookup_party_threshold H rows party))"

section \<open>Opening a run\<close>

record net_peer =
  np_id :: canton_id
  np_address :: string
  np_port :: nat
  np_public_key :: string

text \<open>\<open>departed\<close> is a hash map (an association list updated by key), and \<open>sent\<close> the messages the
  server sent on its own account.\<close>

record 's server =
  srv_state :: "'s wstate"
  srv_peers :: "net_peer list"
  departed :: "(canton_id \<times> string) list"
  serving_since :: nat
  sent :: "(net_peer \<times> message) list"

text \<open>A row of \<open>workflow_runs\<close> as the server reads it; \<open>row_of\<close> are the columns the run writes.\<close>

record workflow_run =
  wr_row :: run_row
  wr_expected :: "canton_id list"
  wr_completed :: "canton_id list"
  wr_dec_party :: "canton_id option"

definition row_of :: "workflow_run \<Rightarrow> run_row" where
  "row_of run = (wr_row run)\<lparr>row_completed := set (wr_completed run)\<rparr>"

text \<open>\<open>NoiseServer::new\<close>.  \<open>absent\<close> is the row of a run the database has no row for, which no
  statement changes or returns; \<open>resolve\<close> is \<open>resolve_peer_threshold\<close> for the kind of the run.\<close>

definition server_new :: "hexlib \<Rightarrow> 's step_ops \<Rightarrow> noise_error + unit \<Rightarrow> run_row \<Rightarrow> string + workflow_run option
    \<Rightarrow> canton_id \<Rightarrow> net_peer list \<Rightarrow> string list option \<Rightarrow> (canton_id option \<Rightarrow> nat \<Rightarrow> nat option)
    \<Rightarrow> nat \<Rightarrow> string \<Rightarrow> 's \<Rightarrow> noise_error + 's server" where
  "server_new H ops keypair absent get_run own network exclude resolve now inst initial =
     and_then keypair (\<lambda>_.
       let excluded = (case exclude of None \<Rightarrow> [] | Some xs \<Rightarrow> xs);
           persisted = (case get_run of Inr run \<Rightarrow> run | Inl _ \<Rightarrow> None);
           expected = (case persisted of
              Some run \<Rightarrow> wr_expected run
            | None \<Rightarrow> map np_id (filter (\<lambda>p. np_id p \<noteq> own \<and> canton_id_display H (np_id p) \<notin> set excluded) network));
           peers = filter (\<lambda>p. np_id p \<in> set expected) network;
           threshold = resolve (Option.bind persisted wr_dec_party) (length expected);
           row = (case persisted of Some run \<Rightarrow> row_of run | None \<Rightarrow> absent);
           state = (case persisted of
              Some run \<Rightarrow>
                if row_status (wr_row run) = InProgress then
                  (case try_from_step_name ops (row_step (wr_row run)) of
                     Some step \<Rightarrow> from_persisted row inst step expected (wr_completed run) threshold
                   | None \<Rightarrow> wstate_new row inst initial expected threshold)
                else wstate_new row inst initial expected threshold
            | None \<Rightarrow> wstate_new row inst initial expected threshold)
       in Inr \<lparr>srv_state = state, srv_peers = peers, departed = [], serving_since = now, sent = []\<rparr>)"

section \<open>Giving up on peers\<close>

definition bump :: "(string \<rightharpoonup> nat) \<Rightarrow> string \<Rightarrow> nat \<Rightarrow> (string \<rightharpoonup> nat)" where
  "bump seen i now = (case seen i of
     None \<Rightarrow> seen(i \<mapsto> now)
   | Some t \<Rightarrow> if now > t then seen(i \<mapsto> now) else seen)"

definition silence :: "hexlib \<Rightarrow> (string \<rightharpoonup> nat) \<Rightarrow> nat \<Rightarrow> 's server \<Rightarrow> canton_id \<Rightarrow> nat" where
  "silence H seen now S p = now - (case seen (canton_id_display H p) of
     None \<Rightarrow> serving_since S | Some t \<Rightarrow> max t (serving_since S))"

text \<open>\<open>text_secs\<close> prints a number of seconds.\<close>

definition unavailable_peers :: "hexlib \<Rightarrow> (nat \<Rightarrow> string) \<Rightarrow> (string \<rightharpoonup> nat) \<Rightarrow> nat \<Rightarrow> 's server \<Rightarrow> (canton_id \<times> string) list" where
  "unavailable_peers H text_secs seen now S = departed S @
     map (\<lambda>p. (p, ''has been unreachable for '' @ text_secs (silence H seen now S p div 10 ^ 9) @ ''s''))
       (filter (\<lambda>p. p \<notin> fst ` set (departed S) \<and> PEER_SILENCE_LIMIT \<le> silence H seen now S p)
          (sorted_list_of_set (expected_peers (srv_state S))))"

fun join_with :: "string \<Rightarrow> string list \<Rightarrow> string" where
  "join_with sep [] = []"
| "join_with sep [x] = x"
| "join_with sep (x # y # xs) = x @ sep @ join_with sep (y # xs)"

definition stranded_reason :: "hexlib \<Rightarrow> 's step_ops \<Rightarrow> (nat \<Rightarrow> string) \<Rightarrow> (string \<rightharpoonup> nat) \<Rightarrow> nat \<Rightarrow> 's server \<Rightarrow> string option" where
  "stranded_reason H ops text_secs seen now S =
     (let unavailable = unavailable_peers H text_secs seen now S in
      if unavailable = [] then None
      else case stranded_by ops (srv_state S) (srv_state S) (srv_state S) (map_of unavailable) of
        None \<Rightarrow> None
      | Some (step, missing) \<Rightarrow> Some (step @ '' cannot complete: '' @
          join_with ''; '' (map (\<lambda>(p, why). ''peer '' @ canton_id_display H p @ '' '' @ why) missing)))"

section \<open>Requests\<close>

record server_env =
  se_hex :: hexlib
  se_sha256 :: "bytes \<Rightarrow> bytes"
  se_instant :: nat
  se_now :: int
  se_db1 :: db_outcome
  se_db2 :: db_outcome
  se_block_size :: "nat option"
  se_decline :: "bytes \<Rightarrow> decline_payload option"
  se_key_ok :: "string \<Rightarrow> bool"
  se_acs_text :: "acs_error \<Rightarrow> string"

definition chunked_announcement :: "message_type \<Rightarrow> bytes \<Rightarrow> message" where
  "chunked_announcement command p = message_new ChunkedCommand
     (be_bytes 2 (to_u16 command) @ be_bytes 4 (length p) @ be_bytes 4 (div_ceil (length p) CHUNK_SIZE))"

definition handle_get_next_command :: "'s step_ops \<Rightarrow> server_env \<Rightarrow> canton_id \<Rightarrow> 's server
    \<Rightarrow> (noise_error + message) \<times> 's server" where
  "handle_get_next_command ops E peer S0 =
     (let S = S0\<lparr>srv_state := peer_connected ops (se_now E) (se_db1 E) peer (srv_state S0)\<rparr>; s = srv_state S in
      (Inr (if has_peer_completed peer s then message_new_empty Wait
            else case current_command ops s of
              None \<Rightarrow> message_new_empty Wait
            | Some command \<Rightarrow>
                let p = (if command_carries_payload command then command_payload s else []) in
                if p = [] then message_new_empty command
                else if length p \<le> MAX_PAYLOAD_SIZE then message_new command p
                else chunked_announcement command p), S))"

definition handle_get_chunk :: "bytes \<Rightarrow> 's server \<Rightarrow> (noise_error + message) \<times> 's server" where
  "handle_get_chunk request S =
     (if length request < 4 then (Inl InvalidMessage, S)
      else let chunk_index = be_nat [request ! 0, request ! 1, request ! 2, request ! 3];
               p = command_payload (srv_state S); start = chunk_index * CHUNK_SIZE in
        if start \<ge> length p then (Inl InvalidMessage, S)
        else let stop = min (start + CHUNK_SIZE) (length p) in
          (Inr (message_new Chunk (be_bytes 4 chunk_index @ take (stop - start) (drop start p))), S))"

definition handle_get_next_acs_block :: "server_env \<Rightarrow> canton_id \<Rightarrow> bytes \<Rightarrow> 's server
    \<Rightarrow> (noise_error + message) \<times> 's server" where
  "handle_get_next_acs_block E peer request S =
     (if length request < 8 then (Inl InvalidMessage, S)
      else case next_acs_block (se_hex E) (se_sha256 E) (se_now E) peer (be_nat (take 8 request))
                  (acs_block_size (se_block_size E)) (srv_state S) of
        (s, r) \<Rightarrow> (and_then (map_err (\<lambda>e. Anyhow (se_acs_text E e)) r) (\<lambda>block.
            let (is_end, p) = encode_block block in
            Inr (message_new (if is_end then AcsBlockEnd else AcsBlock) p)), S\<lparr>srv_state := s\<rparr>))"

definition handle_peer_data :: "'s step_ops \<Rightarrow> server_env \<Rightarrow> canton_id \<Rightarrow> bytes \<Rightarrow> 's server
    \<Rightarrow> (noise_error + message) \<times> 's server" where
  "handle_peer_data ops E peer d S =
     (Inr (message_new_empty Ack),
      S\<lparr>srv_state := peer_completed ops (se_now E) (se_db1 E) (se_db2 E) peer (store_peer_data peer d (srv_state S))\<rparr>)"

definition handle_status_update :: "'s step_ops \<Rightarrow> server_env \<Rightarrow> canton_id \<Rightarrow> 's server
    \<Rightarrow> (noise_error + message) \<times> 's server" where
  "handle_status_update ops E peer S =
     (Inr (message_new_empty Ack),
      S\<lparr>srv_state := peer_completed ops (se_now E) (se_db1 E) (se_db2 E) peer (srv_state S)\<rparr>)"

text \<open>The loop of \<open>broadcast_cancel_to_others\<close>; whether a send succeeds is only logged.\<close>

definition broadcast_cancel_to_others :: "server_env \<Rightarrow> canton_id \<Rightarrow> 's server \<Rightarrow> 's server" where
  "broadcast_cancel_to_others E declining S =
     (let m = with_instance (message_new_empty CancelInvite) (instance_name (srv_state S)) in
      S\<lparr>sent := sent S @ map (\<lambda>p. (p, m)) (filter (\<lambda>p. np_id p \<noteq> declining \<and> np_public_key p \<noteq> [] \<and>
          se_key_ok E (np_public_key p)) (srv_peers S))\<rparr>)"

definition handle_decline_invitation :: "workflow_kind \<Rightarrow> server_env \<Rightarrow> canton_id \<Rightarrow> bytes \<Rightarrow> 's server \<Rightarrow> message \<times> 's server" where
  "handle_decline_invitation kind E peer request S =
     (message_new_empty Ack,
      if peer \<notin> np_id ` set (srv_peers S) then S
      else case se_decline E request of
        None \<Rightarrow> S
      | Some d \<Rightarrow>
          if \<not> decline_matches_run d kind (instance_name (srv_state S)) then S
          else if dp_abandoned d then
            S\<lparr>departed := AList.update peer (''gave up: '' @ (case dp_reason d of Some r \<Rightarrow> r | None \<Rightarrow> ''no reason given'')) (departed S)\<rparr>
          else let why = ''Peer '' @ canton_id_display (se_hex E) peer @ '' declined the invitation'' @
                     (case dp_reason d of Some r \<Rightarrow> '': '' @ r | None \<Rightarrow> []) in
            broadcast_cancel_to_others E peer (S\<lparr>srv_state := mark_failed (se_db1 E) (se_now E) why (srv_state S)\<rparr>))"

text \<open>The message types that carry data of a step, by the arms of \<open>handle_command\<close>.\<close>

definition peer_data_types :: "message_type list" where
  "peer_data_types = [KeysUpload, DnsSignature, P2pSignatures, SubmissionSignatures, KickSignatures,
     AddPartyKeysUpload, AddPartySignatures, AddPartyClearSignatures, AddPartyClearProposal, ChangeThresholdSignatures]"

definition handle_command :: "workflow_kind \<Rightarrow> 's step_ops \<Rightarrow> server_env \<Rightarrow> canton_id \<Rightarrow> message
    \<Rightarrow> (string \<rightharpoonup> nat) \<times> 's server \<Rightarrow> (noise_error + message) \<times> (string \<rightharpoonup> nat) \<times> 's server" where
  "handle_command kind ops E peer m x =
     (let seen = bump (fst x) (canton_id_display (se_hex E) peer) (se_instant E); S = snd x;
          (r, S') =
            (if msg_type m = GetNextCommand then handle_get_next_command ops E peer S
             else if msg_type m = GetChunk then handle_get_chunk (payload m) S
             else if msg_type m = GetNextAcsBlock then handle_get_next_acs_block E peer (payload m) S
             else if msg_type m \<in> set peer_data_types then handle_peer_data ops E peer (payload m) S
             else if msg_type m = StatusUpdate then handle_status_update ops E peer S
             else if msg_type m = DeclineInvitation then
               (let (ack, S1) = handle_decline_invitation kind E peer (payload m) S in (Inr ack, S1))
             else (Inr (message_new Error (str_bytes ''Unsupported message type'')), S))
      in (r, seen, S'))"

section \<open>Lemmas\<close>

lemma be_nat_nth4: "length r = 4 \<Longrightarrow> be_nat [r ! 0, r ! 1, r ! 2, r ! 3] = be_nat r"
  using nth4_take_drop [of 0 r 1 2 3] by simp

text \<open>The chunk at an index within the payload is served, and nothing changes.\<close>

lemma get_chunk_serves:
  assumes "i * CHUNK_SIZE < length (command_payload (srv_state S))" and "i < 2 ^ 32"
  shows "handle_get_chunk (be_bytes 4 i) S =
    (Inr (message_new Chunk (be_bytes 4 i @ take CHUNK_SIZE (drop (i * CHUNK_SIZE) (command_payload (srv_state S))))), S)"
proof -
  let ?p = "command_payload (srv_state S)" and ?b = "be_bytes 4 i"
  have i: "be_nat [?b ! 0, ?b ! 1, ?b ! 2, ?b ! 3] = i"
    using be_nat_nth4 [of ?b] assms(2) by (simp add: be_nat_be_bytes)
  have "take (min (i * CHUNK_SIZE + CHUNK_SIZE) (length ?p) - i * CHUNK_SIZE) (drop (i * CHUNK_SIZE) ?p)
      = take CHUNK_SIZE (drop (i * CHUNK_SIZE) ?p)"
    by (cases "i * CHUNK_SIZE + CHUNK_SIZE \<le> length ?p") simp_all
  then show ?thesis using assms i by (simp add: handle_get_chunk_def Let_def)
qed

lemma chunked_announcement_parses:
  assumes "length p < 2 ^ 32"
  shows "parse_chunked_command_metadata (payload (chunked_announcement c p)) = Inr (c, length p, div_ceil (length p) CHUNK_SIZE)"
proof -
  let ?a = "be_bytes 2 (to_u16 c)" and ?b = "be_bytes 4 (length p)" and ?d = "be_bytes 4 (div_ceil (length p) CHUNK_SIZE)"
  let ?m = "?a @ ?b @ ?d"
  have pos: "0 < CHUNK_SIZE" by (simp add: CHUNK_SIZE_def)
  have "div_ceil (length p) CHUNK_SIZE \<le> length p"
    using div_ceil_pred [OF pos, of "length p"] by (cases "div_ceil (length p) CHUNK_SIZE") (auto simp: CHUNK_SIZE_def div_ceil_def)
  then have d: "be_nat ?d = div_ceil (length p) CHUNK_SIZE" using assms by (simp add: be_nat_be_bytes)
  have a: "be_nat ?a = to_u16 c" using to_u16_bound [of c] by (simp add: be_nat_be_bytes)
  have b: "be_nat ?b = length p" using assms by (simp add: be_nat_be_bytes)
  have "[?m ! 0, ?m ! 1] = take 2 (drop 0 ?m)" by (rule nth2_take_drop) simp_all
  moreover have "[?m ! 2, ?m ! 3, ?m ! 4, ?m ! 5] = take 4 (drop 2 ?m)" by (rule nth4_take_drop) simp_all
  moreover have "[?m ! 6, ?m ! 7, ?m ! 8, ?m ! 9] = take 4 (drop 6 ?m)" by (rule nth4_take_drop) simp_all
  ultimately have f: "be_nat [?m ! 0, ?m ! 1] = to_u16 c" "be_nat [?m ! 2, ?m ! 3, ?m ! 4, ?m ! 5] = length p"
    "be_nat [?m ! 6, ?m ! 7, ?m ! 8, ?m ! 9] = div_ceil (length p) CHUNK_SIZE"
    using a b d by simp_all
  have "payload (chunked_announcement c p) = ?m" by (simp add: chunked_announcement_def message_new_def)
  moreover have "\<not> length ?m < 10" by simp
  ultimately show ?thesis
    by (simp only: parse_chunked_command_metadata_def Let_def if_False f try_from_to_u16 map_err_def
        sum.case and_then.simps)
qed

lemma unavailable_iff:
  assumes "finite (expected_peers (srv_state S))" and "p \<in> expected_peers (srv_state S)"
  shows "map_of (unavailable_peers H t seen now S) p = None \<longleftrightarrow>
    p \<notin> fst ` set (departed S) \<and> silence H seen now S p < PEER_SILENCE_LIMIT"
  using assms by (auto simp: unavailable_peers_def map_of_eq_None_iff image_Un image_image)

lemma stranded_reason_iff:
  assumes "workflow_step ops" and fin: "finite (expected_peers (srv_state S))"
    and sub: "completed_peers (srv_state S) \<subseteq> expected_peers (srv_state S)"
  shows "stranded_reason H ops t seen now S \<noteq> None \<longleftrightarrow> requires_peers ops (current_step (srv_state S)) \<and>
    card (completed_peers (srv_state S) \<union> {p \<in> expected_peers (srv_state S).
       p \<notin> fst ` set (departed S) \<and> silence H seen now S p < PEER_SILENCE_LIMIT}) < peers_quorum (srv_state S)"
proof -
  let ?s = "srv_state S" and ?u = "unavailable_peers H t seen now S"
  have eq: "{p \<in> expected_peers ?s. map_of ?u p = None} = {p \<in> expected_peers ?s.
       p \<notin> fst ` set (departed S) \<and> silence H seen now S p < PEER_SILENCE_LIMIT}"
    using unavailable_iff [OF fin] by blast
  note iff = workflow_step.stranded_iff [OF assms(1) fin sub, of "map_of ?u", unfolded eq]
  show ?thesis
  proof (cases "?u = []")
    case True
    then have "\<not> (stranded_by ops ?s ?s ?s (map_of ?u) \<noteq> None)"
      using peers_quorum_bounds(1) [of ?s] by (auto simp: stranded_by_def Let_def split: if_splits)
    then show ?thesis using True iff by (auto simp: stranded_reason_def Let_def)
  next
    case False
    then have "stranded_reason H ops t seen now S \<noteq> None \<longleftrightarrow> stranded_by ops ?s ?s ?s (map_of ?u) \<noteq> None"
      by (auto simp: stranded_reason_def Let_def split: option.splits)
    then show ?thesis using iff by blast
  qed
qed

text \<open>Every request moves the run by steps of its state machine.\<close>

lemma wreach_refl [simp]: "wreach ops D s s"
  by (simp add: wreach_def)

lemma wreach_step: "wstep ops D s t \<Longrightarrow> wreach ops D s t"
  by (simp add: wreach_def)

lemma wreach_trans: "wreach ops D s t \<Longrightarrow> wreach ops D t u \<Longrightarrow> wreach ops D s u"
  by (simp add: wreach_def)

lemma get_next_command_wreach:
  "wreach ops UNIV (srv_state S) (srv_state (snd (handle_get_next_command ops E peer S)))"
  by (simp add: handle_get_next_command_def Let_def wreach_step wstep.connected)

lemma get_chunk_frame [simp]: "snd (handle_get_chunk r S) = S"
  by (simp add: handle_get_chunk_def Let_def)

lemma acs_block_wreach:
  "wreach ops UNIV (srv_state S) (srv_state (snd (handle_get_next_acs_block E peer r S)))"
proof (cases "length r < 8")
  case False
  let ?n = "next_acs_block (se_hex E) (se_sha256 E) (se_now E) peer (be_nat (take 8 r)) (acs_block_size (se_block_size E)) (srv_state S)"
  have "srv_state (snd (handle_get_next_acs_block E peer r S)) = fst ?n"
    using False by (simp add: handle_get_next_acs_block_def split: prod.splits)
  then show ?thesis by (simp only: wreach_step wstep.export_served)
qed (simp add: handle_get_next_acs_block_def)

lemma peer_data_wreach: "wreach ops UNIV (srv_state S) (srv_state (snd (handle_peer_data ops E peer d S)))"
  by (rule wreach_trans [OF wreach_step [OF wstep.stored [of _ _ _ peer d]] wreach_step])
    (simp add: handle_peer_data_def wstep.completed)

lemma status_wreach: "wreach ops UNIV (srv_state S) (srv_state (snd (handle_status_update ops E peer S)))"
  by (simp add: handle_status_update_def wreach_step wstep.completed)

lemma broadcast_frame [simp]:
  "srv_state (broadcast_cancel_to_others E p S) = srv_state S"
  "srv_peers (broadcast_cancel_to_others E p S) = srv_peers S"
  "serving_since (broadcast_cancel_to_others E p S) = serving_since S"
  "departed (broadcast_cancel_to_others E p S) = departed S"
  by (simp_all add: broadcast_cancel_to_others_def Let_def)

lemma decline_wreach: "wreach ops UNIV (srv_state S) (srv_state (snd (handle_decline_invitation kind E peer r S)))"
  by (auto simp: handle_decline_invitation_def Let_def wreach_step wstep.failed split: option.splits)

lemma handlers_frame:
  "srv_peers (snd (handle_get_next_command ops E peer S)) = srv_peers S"
  "srv_peers (snd (handle_get_next_acs_block E peer r S)) = srv_peers S"
  "srv_peers (snd (handle_peer_data ops E peer r S)) = srv_peers S"
  "srv_peers (snd (handle_status_update ops E peer S)) = srv_peers S"
  "srv_peers (snd (handle_decline_invitation kind E peer r S)) = srv_peers S"
  "serving_since (snd (handle_get_next_command ops E peer S)) = serving_since S"
  "serving_since (snd (handle_get_next_acs_block E peer r S)) = serving_since S"
  "serving_since (snd (handle_peer_data ops E peer r S)) = serving_since S"
  "serving_since (snd (handle_status_update ops E peer S)) = serving_since S"
  "serving_since (snd (handle_decline_invitation kind E peer r S)) = serving_since S"
  by (auto simp: handle_get_next_command_def handle_get_next_acs_block_def handle_peer_data_def
      handle_status_update_def handle_decline_invitation_def Let_def split: prod.splits option.splits)

lemmas handlers_wreach = get_next_command_wreach acs_block_wreach peer_data_wreach status_wreach decline_wreach

lemma bump_mono: "seen j = Some t \<Longrightarrow> \<exists>t'. bump seen i now j = Some t' \<and> t \<le> t'"
  by (auto simp: bump_def split: option.splits)

lemma handle_command_cases:
  "snd (snd (handle_command kind ops E peer m (seen, S))) \<in>
    {S, snd (handle_get_next_command ops E peer S), snd (handle_get_next_acs_block E peer (payload m) S),
     snd (handle_peer_data ops E peer (payload m) S), snd (handle_status_update ops E peer S),
     snd (handle_decline_invitation kind E peer (payload m) S)}"
  unfolding handle_command_def Let_def by (simp add: split_beta)

section \<open>Properties\<close>

text \<open>C35: the quorum a run is opened with.  Whatever the database and the topology
  answer, it asks for at most the invited peers; it asks for all of them unless the run is a kick or a contracts
  run on a party whose threshold \<open>m\<close> is known and, for a kick, whose keys are not legacy.  In that case the
  quorum together with the coordinator's own signature reaches \<open>m\<close>, or everybody signs.\<close>

theorem quorum_meets_threshold:
  "(let t = resolve_peer_threshold H P A sync rows kind dec (length expected);
        q = peers_quorum (wstate_new row inst step expected t) in
     q = card (set expected) \<or> q < card (set expected) \<and> (\<exists>party m. dec = Some party \<and>
        lookup_party_threshold H rows party = Some m \<and> m \<le> q + 1 \<and>
        (kind = Contracts \<or> kind = Kick \<and> party_keys_are_legacy P A sync party = False)))"
proof -
  let ?n = "length expected"
  let ?t = "resolve_peer_threshold H P A sync rows kind dec ?n"
  let ?s = "wstate_new row inst step expected ?t"
  have le: "peers_quorum ?s \<le> card (set expected)" using peers_quorum_bounds(1) [of ?s] by (simp add: wstate_new_def)
  show ?thesis
  proof (cases "peers_quorum ?s = card (set expected)")
    case False
    then obtain k where k: "?t = Some k"
      by (auto simp: peers_quorum_def wstate_new_def Let_def split: option.splits)
    then obtain party m where party: "dec = Some party" "lookup_party_threshold H rows party = Some m"
      and kind: "kind = Contracts \<or> kind = Kick \<and> party_keys_are_legacy P A sync party = False"
      by (cases kind) (auto simp: resolve_peer_threshold_def split: if_splits option.splits)
    have "peers_quorum ?s = clamp (clamp (m - 1) 1 ?n) 1 (card (set expected))" "0 < card (set expected)"
      using False k party by (auto simp: peers_quorum_def wstate_new_def Let_def resolve_peer_threshold_def
          peers_for_party_threshold_def split: if_splits)
    then have "m \<le> peers_quorum ?s + 1"
      using False card_length [of expected] by (auto simp: clamp_def split: if_splits)
    then show ?thesis using party kind le False by (simp add: Let_def)
  qed (simp add: Let_def)
qed

text \<open>The watcher gives a run up exactly when its step waits for peers and the peers
  that completed it, together with those that have neither reported giving up nor been silent for ten minutes,
  are fewer than the quorum; a peer heard from within the limit never strands a run.\<close>

theorem stranded_reason_exact:
  assumes "workflow_step ops" and "finite (expected_peers (srv_state S))"
    and "completed_peers (srv_state S) \<subseteq> expected_peers (srv_state S)"
  shows "(stranded_reason H ops secs seen now S \<noteq> None) = (requires_peers ops (current_step (srv_state S)) \<and>
    card (completed_peers (srv_state S) \<union> {p \<in> expected_peers (srv_state S).
       p \<notin> fst ` set (departed S) \<and> silence H seen now S p < 600 * 10 ^ 9}) < peers_quorum (srv_state S))"
  using stranded_reason_iff [OF assms, of H secs seen now] by (simp add: PEER_SILENCE_LIMIT_def)

definition example_server :: "kick_step server" where
  "example_server = \<lparr>srv_state = example_state None, srv_peers = [], departed = [(example_peer ''b'', ''gave up: disk full'')],
     serving_since = 0, sent = []\<rparr>"

theorem stranded_reason_exact_witness:
  "stranded_reason std_hex kick_ops (\<lambda>_. ''600'') (\<lambda>_. None) 5 example_server \<noteq> None"
proof -
  have q: "peers_quorum (example_state None) = 2" "expected_peers (example_state None) = {example_peer ''a'', example_peer ''b''}"
    "completed_peers (example_state None) = {}" "requires_peers kick_ops (current_step (example_state None))"
    using example_peers_neq
    by (simp_all add: peers_quorum_def example_state_def wstate_new_def kick_ops_def kick_requires_peers_def)
  have "{p \<in> expected_peers (srv_state example_server). p \<notin> fst ` set (departed example_server) \<and>
      silence std_hex (\<lambda>_. None) 5 example_server p < 600 * 10 ^ 9} = {example_peer ''a''}"
    using q example_peers_neq by (auto simp: example_server_def silence_def)
  then show ?thesis
    using stranded_reason_exact [OF kick_wf.workflow_step_axioms, of example_server std_hex "\<lambda>_. ''600''" "\<lambda>_. None" 5] q
    by (simp add: example_server_def)
qed


text \<open>A decline is answered with an acknowledgement and has an effect only if it comes from a
  peer of this run and names this run.  A peer that gave up later is only counted out.  Otherwise nothing of the
  run but its row changes, and only the other peers of the run are told to cancel, and only this run.\<close>

theorem decline_guarded:
  "case handle_decline_invitation kind E peer request S of (ack, S') \<Rightarrow>
     ack = message_new_empty Ack \<and>
     (S' = S \<or> peer \<in> np_id ` set (srv_peers S) \<and> (\<exists>d. se_decline E request = Some d \<and> dp_kind d = kind \<and>
        dp_instance d \<in> {None, Some (instance_name (srv_state S))} \<and>
        (if dp_abandoned d then srv_state S' = srv_state S \<and> sent S' = sent S \<and>
           (\<exists>why. map_of (departed S') = (map_of (departed S))(peer \<mapsto> why))
         else departed S' = departed S \<and>
           (\<exists>why. srv_state S' = (srv_state S)\<lparr>db_row := mark_run_failed (se_db1 E) why (se_now E) (db_row (srv_state S))\<rparr>) \<and>
           (\<exists>ps. set ps \<subseteq> set (srv_peers S) \<and> peer \<notin> np_id ` set ps \<and>
              sent S' = sent S @ map (\<lambda>p. (p, \<lparr>msg_type = CancelInvite, msg_instance = instance_name (srv_state S), payload = []\<rparr>)) ps))))"
proof (cases "peer \<in> np_id ` set (srv_peers S)")
  case True
  show ?thesis
  proof (cases "se_decline E request")
    case None
    then show ?thesis by (simp add: handle_decline_invitation_def)
  next
    case (Some d)
    show ?thesis
    proof (cases "decline_matches_run d kind (instance_name (srv_state S))")
      case False
      then show ?thesis using Some by (simp add: handle_decline_invitation_def)
    next
      case match: True
      then have d: "dp_kind d = kind" "dp_instance d \<in> {None, Some (instance_name (srv_state S))}"
        by (auto simp: decline_matches_run_def split: option.splits)
      show ?thesis
      proof (cases "dp_abandoned d")
        case abandoned: True
        then show ?thesis using True Some match d
          by (auto simp: handle_decline_invitation_def update_conv')
      next
        case False
        let ?ps = "filter (\<lambda>p. np_id p \<noteq> peer \<and> np_public_key p \<noteq> [] \<and> se_key_ok E (np_public_key p)) (srv_peers S)"
        obtain why where eq: "handle_decline_invitation kind E peer request S = (message_new_empty Ack,
            broadcast_cancel_to_others E peer (S\<lparr>srv_state := mark_failed (se_db1 E) (se_now E) why (srv_state S)\<rparr>))"
          using True Some match False by (simp add: handle_decline_invitation_def Let_def)
        have "sent (broadcast_cancel_to_others E peer (S\<lparr>srv_state := mark_failed (se_db1 E) (se_now E) why (srv_state S)\<rparr>))
            = sent S @ map (\<lambda>p. (p, \<lparr>msg_type = CancelInvite, msg_instance = instance_name (srv_state S), payload = []\<rparr>)) ?ps"
          by (simp add: broadcast_cancel_to_others_def mark_failed_def Let_def with_instance_def message_new_empty_def)
        moreover have "set ?ps \<subseteq> set (srv_peers S)" "peer \<notin> np_id ` set ?ps" by auto
        ultimately have sent: "\<exists>ps. set ps \<subseteq> set (srv_peers S) \<and> peer \<notin> np_id ` set ps \<and>
          sent (broadcast_cancel_to_others E peer (S\<lparr>srv_state := mark_failed (se_db1 E) (se_now E) why (srv_state S)\<rparr>))
            = sent S @ map (\<lambda>p. (p, \<lparr>msg_type = CancelInvite, msg_instance = instance_name (srv_state S), payload = []\<rparr>)) ps"
          by blast
        show ?thesis unfolding eq prod.case
          using True d Some False sent by (simp add: mark_failed_def) blast
      qed
    qed
  qed
qed (simp add: handle_decline_invitation_def)

end
