(* ===== verification/Coordinator.thy ===== *)
theory Coordinator
  imports Noise_Server
begin

text \<open>
  The coordinator loops of the six workflows (\<open>workflow/*/coordinator.rs\<close>): what the coordinator
  does on each step, which payload it hands to its peers with the next command, and how it turns
  the peers' uploads into artefacts.

  A loop reads the current step and runs the arm of that step; between two rounds the listener
  serves peers, so a round starts from a state on which any number of requests have acted.  The
  work on the participant, the ledger and the database is the record \<open>coord_env\<close>: each operation
  takes the world \<open>'w\<close> to a result and a new world, and may fail.
\<close>

section \<open>Programs of a coordinator\<close>

record ('s, 'w) coord =
  c_state :: "'s wstate"
  c_world :: 'w
  c_done :: "'s list"

type_synonym ('w, 'a) op = "'w \<Rightarrow> (string + 'a) \<times> 'w"
type_synonym ('s, 'w, 'a) cprog = "('s, 'w) coord \<Rightarrow> (string + 'a) \<times> ('s, 'w) coord"

definition cret :: "'a \<Rightarrow> ('s, 'w, 'a) cprog" where
  "cret x s = (Inr x, s)"

definition cfail :: "string \<Rightarrow> ('s, 'w, 'a) cprog" where
  "cfail e s = (Inl e, s)"

definition cbind :: "('s, 'w, 'a) cprog \<Rightarrow> ('a \<Rightarrow> ('s, 'w, 'b) cprog) \<Rightarrow> ('s, 'w, 'b) cprog" where
  "cbind m f s = (case m s of (Inl e, s') \<Rightarrow> (Inl e, s') | (Inr x, s') \<Rightarrow> f x s')"

definition run_op :: "('w, 'a) op \<Rightarrow> ('s, 'w, 'a) cprog" where
  "run_op f s = (case f (c_world s) of (r, w) \<Rightarrow> (r, s\<lparr>c_world := w\<rparr>))"

definition lift_result :: "string + 'a \<Rightarrow> ('s, 'w, 'a) cprog" where
  "lift_result r s = (r, s)"

definition upd_state :: "('s wstate \<Rightarrow> 's wstate) \<Rightarrow> ('s, 'w, unit) cprog" where
  "upd_state f s = (Inr (), s\<lparr>c_state := f (c_state s)\<rparr>)"

definition mark_done :: "'s \<Rightarrow> ('s, 'w, unit) cprog" where
  "mark_done step s = (Inr (), s\<lparr>c_done := step # c_done s\<rparr>)"

fun each :: "('a \<Rightarrow> ('s, 'w, unit) cprog) \<Rightarrow> 'a list \<Rightarrow> ('s, 'w, unit) cprog" where
  "each f [] = cret ()"
| "each f (x # xs) = cbind (f x) (\<lambda>_. each f xs)"

text \<open>The steps of the six workflows that call into the participant or the ledger.\<close>

datatype coord_action =
    OnboardingGenerateOwnKeys
  | CreateProposalsStep
  | SubmitDnsProposals
  | SubmitFinalProposals
  | ExportStateStep "string option"
  | SubmitKickStep
  | PruneCachedMembership canton_id canton_id
  | RetireLegacyKeysAndWait canton_id
  | PrepareSubmissionsStep string string
  | SignSubmissionsStep "contract_deployment_intent list"
  | ExecuteSubmissionsStep string string
  | SubmitProposalsStep
  | WaitForFlagCleared string canton_id canton_id
  | SubmitClearProposal
  | SubmitChangeStep
  | UploadOwnDars
  | WriteIdentity canton_id string string bytes

record 'w coord_env =
  ce_hex :: hexlib
  ce_act :: "coord_action \<Rightarrow> ('w, unit) op"
  ce_read :: "string \<Rightarrow> string option \<Rightarrow> ('w, bytes option) op"
  ce_list :: "string \<Rightarrow> ('w, (string \<times> bytes) list) op"
  ce_write :: "string \<Rightarrow> string option \<Rightarrow> bytes \<Rightarrow> ('w, unit) op"
  ce_open_export :: "('w, export_session) op"
  ce_packages :: "string option \<Rightarrow> ('w, string list) op"
  ce_credentials :: "canton_id \<Rightarrow> ('w, string \<times> string) op"
  ce_synchronizer :: "('w, string) op"
  ce_persist :: "'w \<Rightarrow> (int \<times> db_outcome) \<times> 'w"
  ce_order :: "canton_id set \<Rightarrow> canton_id list"
  ce_varint :: varint

text \<open>\<open>ce_order\<close> is the order in which a hash map of uploads is walked, \<open>ce_persist\<close> the time and the
  outcome of the transaction that records an advance.\<close>

definition do_act :: "'w coord_env \<Rightarrow> coord_action \<Rightarrow> ('s, 'w, unit) cprog" where
  "do_act X a = run_op (ce_act X a)"

definition require_artifact :: "'w coord_env \<Rightarrow> string \<Rightarrow> ('s, 'w, bytes) cprog" where
  "require_artifact X kind = cbind (run_op (ce_read X kind None)) (\<lambda>r.
     case r of None \<Rightarrow> cfail (kind @ '' artifact missing'') | Some b \<Rightarrow> cret b)"

definition advance_now :: "'w coord_env \<Rightarrow> 's step_ops \<Rightarrow> ('s, 'w, unit) cprog" where
  "advance_now X ops s = (case ce_persist X (c_world s) of ((now, db), w) \<Rightarrow>
     (Inr (), s\<lparr>c_world := w, c_state := advance_step ops now db (c_state s)\<rparr>))"

definition advance_from :: "'w coord_env \<Rightarrow> 's step_ops \<Rightarrow> 's \<Rightarrow> ('s, 'w, unit) cprog" where
  "advance_from X ops step s = (case ce_persist X (c_world s) of ((now, db), w) \<Rightarrow>
     (Inr (), s\<lparr>c_world := w, c_state := advance_step_if ops now db step (c_state s)\<rparr>))"

text \<open>\<open>get_all_peer_data\<close>: a copy of the buffered uploads.\<close>

definition peer_uploads :: "'w coord_env \<Rightarrow> 's wstate \<Rightarrow> (canton_id \<times> bytes) list" where
  "peer_uploads X s = map (\<lambda>p. (p, the (peer_data s p))) (ce_order X (dom (peer_data s)))"

definition get_all_peer_data :: "'w coord_env \<Rightarrow> ('s, 'w, (canton_id \<times> bytes) list) cprog" where
  "get_all_peer_data X s = (Inr (peer_uploads X (c_state s)), s)"

text \<open>How a round ends: the loop goes on, or the workflow is complete.\<close>

datatype round = Again | Finished

section \<open>Signed pairs\<close>

definition encode_length_prefixed_bytes :: "varint \<Rightarrow> bytes \<Rightarrow> bytes" where
  "encode_length_prefixed_bytes V proto = encode_varint V (length proto) @ proto"

text \<open>One message off the cursor.\<close>

definition split_one :: "varint \<Rightarrow> bytes \<Rightarrow> string + bytes \<times> bytes" where
  "split_one V cursor = and_then (ok_or ''invalid varint'' (decode_varint V cursor)) (\<lambda>(n, rest).
     if length rest < n then Inl ''Truncated combined kick signatures''
     else Inr (encode_length_prefixed_bytes V (take n rest), drop n rest))"

definition split_signed_kick_pair :: "varint \<Rightarrow> bytes \<Rightarrow> string + bytes \<times> bytes" where
  "split_signed_kick_pair V combined =
     and_then (split_one V combined) (\<lambda>(dns_blob, cursor).
     and_then (split_one V cursor) (\<lambda>(p2p_blob, rest).
       if rest \<noteq> [] then Inl ''Trailing bytes after parsing combined kick signatures''
       else Inr (dns_blob, p2p_blob)))"

text \<open>The loop that turns each peer's pair into two artefacts, shared by three workflows.\<close>

definition save_pairs :: "'w coord_env \<Rightarrow> string \<Rightarrow> string \<Rightarrow> (canton_id \<times> bytes) list \<Rightarrow> ('s, 'w, unit) cprog" where
  "save_pairs X dns_kind p2p_kind uploads = each (\<lambda>(peer, combined).
     cbind (lift_result (split_signed_kick_pair (ce_varint X) combined)) (\<lambda>(dns_blob, p2p_blob).
     let key = canton_id_display (ce_hex X) peer in
     cbind (run_op (ce_write X dns_kind (Some key) dns_blob)) (\<lambda>_.
       run_op (ce_write X p2p_kind (Some key) p2p_blob)))) uploads"

section \<open>Onboarding\<close>

definition save_keys_and_ids :: "'w coord_env \<Rightarrow> ('s, 'w, unit) cprog" where
  "save_keys_and_ids X = cbind (get_all_peer_data X) (\<lambda>uploads.
     cbind (each (\<lambda>(peer, d).
       cbind (lift_result (map_err (\<lambda>_. ''Invalid payload'') (decode_length_prefixed d 2))) (\<lambda>items.
       let key = canton_id_display (ce_hex X) peer in
       cbind (run_op (ce_write X ''peer_public_keys'' (Some key) (items ! 0))) (\<lambda>_.
         run_op (ce_write X ''participant_id'' (Some key) (items ! 1))))) uploads)
     (\<lambda>_. upd_state clear_peer_data))"

definition save_signed_proposals :: "'w coord_env \<Rightarrow> string \<Rightarrow> ('s, 'w, unit) cprog" where
  "save_signed_proposals X kind = cbind (get_all_peer_data X) (\<lambda>uploads.
     cbind (each (\<lambda>(peer, d). run_op (ce_write X kind (Some (canton_id_display (ce_hex X) peer)) d)) uploads)
     (\<lambda>_. upd_state clear_peer_data))"

definition ensure_coordinator_keys :: "'w coord_env \<Rightarrow> (onboarding_step, 'w, unit) cprog" where
  "ensure_coordinator_keys X s =
     (if onboarding_step.GenerateKeys \<in> set (c_done s) then (Inr (), s)
      else cbind (do_act X OnboardingGenerateOwnKeys) (\<lambda>_. mark_done onboarding_step.GenerateKeys) s)"

fun onboarding_arm :: "'w coord_env \<Rightarrow> onboarding_step \<Rightarrow> (onboarding_step, 'w, round) cprog" where
  "onboarding_arm X onboarding_step.WaitingForPeers = cret Again"
| "onboarding_arm X onboarding_step.GenerateKeys = cbind (ensure_coordinator_keys X) (\<lambda>_. cret Again)"
| "onboarding_arm X onboarding_step.CreateProposals =
    cbind (ensure_coordinator_keys X) (\<lambda>_.
    cbind (save_keys_and_ids X) (\<lambda>_.
    cbind (do_act X CreateProposalsStep) (\<lambda>_.
    cbind (require_artifact X ''dns_proto'') (\<lambda>dns_proposal_data.
    cbind (upd_state (set_command_payload dns_proposal_data)) (\<lambda>_.
    cbind (advance_now X onboarding_ops) (\<lambda>_. cret Again))))))"
| "onboarding_arm X onboarding_step.SignDns = cret Again"
| "onboarding_arm X onboarding_step.SubmitDns =
    cbind (save_signed_proposals X ''signed_dns_proposal'') (\<lambda>_.
    cbind (do_act X SubmitDnsProposals) (\<lambda>_.
    cbind (require_artifact X ''p2p_proto'') (\<lambda>p2p_proposal_data.
    cbind (upd_state (set_command_payload p2p_proposal_data)) (\<lambda>_.
    cbind (advance_now X onboarding_ops) (\<lambda>_. cret Again)))))"
| "onboarding_arm X onboarding_step.SignP2p = cret Again"
| "onboarding_arm X onboarding_step.SubmitFinal =
    cbind (save_signed_proposals X ''signed_p2p_proposal'') (\<lambda>_.
    cbind (do_act X SubmitFinalProposals) (\<lambda>_.
    cbind (advance_now X onboarding_ops) (\<lambda>_. cret Again)))"
| "onboarding_arm X onboarding_step.Complete = cret Finished"

text \<open>Before its loop the workflow hands out the config; \<open>config\<close> is its JSON, or why it has none.\<close>

definition onboarding_prologue :: "string + bytes \<Rightarrow> (onboarding_step, 'w, unit) cprog" where
  "onboarding_prologue config = cbind (lift_result config) (\<lambda>c. upd_state (set_command_payload c))"

section \<open>Kick and change-threshold\<close>

fun kick_arm :: "'w coord_env \<Rightarrow> string + bytes \<Rightarrow> canton_id \<Rightarrow> canton_id \<Rightarrow> kick_step \<Rightarrow> (kick_step, 'w, round) cprog" where
  "kick_arm X config party kicked kick_step.WaitingForPeers = cret Again"
| "kick_arm X config party kicked kick_step.ExportState =
    (\<lambda>s. if kick_step.ExportState \<in> set (c_done s) then (Inr Again, s)
     else cbind (do_act X (ExportStateStep None)) (\<lambda>_.
          cbind (mark_done kick_step.ExportState) (\<lambda>_.
          cbind (advance_now X kick_ops) (\<lambda>_. cret Again))) s)"
| "kick_arm X config party kicked kick_step.CreateProposals =
    cbind (do_act X CreateProposalsStep) (\<lambda>_.
    cbind (require_artifact X ''kick_dns_proposal'') (\<lambda>dns_data.
    cbind (require_artifact X ''kick_p2p_proposal'') (\<lambda>p2p_data.
    cbind (lift_result config) (\<lambda>config_data.
    cbind (upd_state (set_command_payload (encode_length_prefixed [config_data, dns_data, p2p_data]))) (\<lambda>_.
    cbind (advance_now X kick_ops) (\<lambda>_. cret Again))))))"
| "kick_arm X config party kicked kick_step.SignProposals = cret Again"
| "kick_arm X config party kicked kick_step.SubmitKick =
    cbind (get_all_peer_data X) (\<lambda>uploads.
    cbind (save_pairs X ''signed_kick_dns'' ''signed_kick_p2p'' uploads) (\<lambda>_.
    cbind (upd_state clear_peer_data) (\<lambda>_.
    cbind (do_act X SubmitKickStep) (\<lambda>_.
    cbind (\<lambda>s. (Inr (), snd (do_act X (PruneCachedMembership party kicked) s))) (\<lambda>_.
    cbind (advance_now X kick_ops) (\<lambda>_. cret Again))))))"
| "kick_arm X config party kicked kick_step.RetireLegacyKeys =
    cbind (do_act X (RetireLegacyKeysAndWait party)) (\<lambda>_.
    cbind (advance_now X kick_ops) (\<lambda>_. cret Again))"
| "kick_arm X config party kicked kick_step.Complete = cret Finished"

fun change_threshold_arm :: "'w coord_env \<Rightarrow> string + bytes \<Rightarrow> canton_id \<Rightarrow> change_threshold_step
    \<Rightarrow> (change_threshold_step, 'w, round) cprog" where
  "change_threshold_arm X config party change_threshold_step.WaitingForPeers = cret Again"
| "change_threshold_arm X config party change_threshold_step.ExportState =
    (\<lambda>s. if change_threshold_step.ExportState \<in> set (c_done s) then (Inr Again, s)
     else cbind (do_act X (ExportStateStep None)) (\<lambda>_.
          cbind (mark_done change_threshold_step.ExportState) (\<lambda>_.
          cbind (advance_now X change_threshold_ops) (\<lambda>_. cret Again))) s)"
| "change_threshold_arm X config party change_threshold_step.CreateProposals =
    cbind (do_act X CreateProposalsStep) (\<lambda>_.
    cbind (require_artifact X ''change_threshold_dns_proposal'') (\<lambda>dns_data.
    cbind (require_artifact X ''change_threshold_p2p_proposal'') (\<lambda>p2p_data.
    cbind (lift_result config) (\<lambda>config_data.
    cbind (upd_state (set_command_payload (encode_length_prefixed [config_data, dns_data, p2p_data]))) (\<lambda>_.
    cbind (advance_now X change_threshold_ops) (\<lambda>_. cret Again))))))"
| "change_threshold_arm X config party change_threshold_step.SignProposals = cret Again"
| "change_threshold_arm X config party change_threshold_step.Submit =
    cbind (get_all_peer_data X) (\<lambda>uploads.
    cbind (save_pairs X ''signed_change_threshold_dns'' ''signed_change_threshold_p2p'' uploads) (\<lambda>_.
    cbind (upd_state clear_peer_data) (\<lambda>_.
    cbind (do_act X SubmitChangeStep) (\<lambda>_.
    cbind (advance_now X change_threshold_ops) (\<lambda>_. cret Again)))))"
| "change_threshold_arm X config party change_threshold_step.RetireLegacyKeys =
    cbind (do_act X (RetireLegacyKeysAndWait party)) (\<lambda>_.
    cbind (advance_now X change_threshold_ops) (\<lambda>_. cret Again))"
| "change_threshold_arm X config party change_threshold_step.Complete = cret Finished"

section \<open>Contracts\<close>

text \<open>\<open>committed\<close> are the committed intents of the config, or why it has none; \<open>auth\<close> says whether
  credentials are configured, \<open>solo\<close> whether the coordinator's signature alone meets the threshold
  (\<open>lookup_party_threshold\<close> is 1).\<close>

definition load_prepared_submissions_payload :: "'w coord_env \<Rightarrow> string + bytes \<Rightarrow> ('s, 'w, bytes) cprog" where
  "load_prepared_submissions_payload X config =
     cbind (run_op (ce_list X ''prepared_submission'')) (\<lambda>rows.
       if rows = [] then cfail ''No PREPARED_SUBMISSION artifacts found''
       else cbind (lift_result config) (\<lambda>config_data.
         cret (encode_length_prefixed [config_data, encode_files rows])))"

fun contracts_arm :: "'w coord_env \<Rightarrow> string + bytes \<Rightarrow> string + contract_deployment_intent list \<Rightarrow> canton_id \<Rightarrow> bool
    \<Rightarrow> contracts_step \<Rightarrow> (contracts_step, 'w, round) cprog" where
  "contracts_arm X config committed party solo contracts_step.WaitingForPeers =
    cbind (if solo then advance_from X contracts_ops contracts_step.WaitingForPeers else cret ()) (\<lambda>_. cret Again)"
| "contracts_arm X config committed party solo contracts_step.PrepareSubmissions =
    cbind (run_op (ce_credentials X party)) (\<lambda>(token, user).
    cbind (do_act X (PrepareSubmissionsStep token user)) (\<lambda>_.
    cbind (load_prepared_submissions_payload X config) (\<lambda>submissions_payload.
    cbind (upd_state (set_command_payload submissions_payload)) (\<lambda>_.
    cbind (advance_now X contracts_ops) (\<lambda>_. cret Again)))))"
| "contracts_arm X config committed party solo contracts_step.SignSubmissions =
    cbind (lift_result committed) (\<lambda>intents.
    cbind (do_act X (SignSubmissionsStep intents)) (\<lambda>_.
    cbind (if solo then advance_from X contracts_ops contracts_step.SignSubmissions else cret ()) (\<lambda>_. cret Again)))"
| "contracts_arm X config committed party solo contracts_step.ExecuteSubmissions =
    cbind (get_all_peer_data X) (\<lambda>uploads.
    cbind (each (\<lambda>(peer, d). run_op (ce_write X ''submission_signatures''
        (Some (canton_id_display (ce_hex X) peer)) d)) uploads) (\<lambda>_.
    cbind (upd_state clear_peer_data) (\<lambda>_.
    cbind (run_op (ce_credentials X party)) (\<lambda>(token, user).
    cbind (do_act X (ExecuteSubmissionsStep token user)) (\<lambda>_.
    cbind (advance_now X contracts_ops) (\<lambda>_. cret Again))))))"
| "contracts_arm X config committed party solo contracts_step.Complete = cret Finished"

definition contracts_prologue :: "bool \<Rightarrow> (contracts_step, 'w, unit) cprog" where
  "contracts_prologue auth = (if auth then cret () else cfail ''Auth not configured, cannot run contracts workflow'')"

section \<open>DARs\<close>

text \<open>\<open>base64\<close> is the decoder of the \<open>base64\<close> crate; the files are name and encoded contents.\<close>

definition encode_dars_payload :: "(string \<Rightarrow> bytes option) \<Rightarrow> (string \<times> string) list \<Rightarrow> string + bytes" where
  "encode_dars_payload base64 dar_files =
     (if dar_files = [] then Inr []
      else and_then (collect_results (map (\<lambda>(name, d).
             and_then (ok_or (''Failed to decode base64 DAR data for '' @ name) (base64 d)) (\<lambda>b. Inr (name, b))) dar_files))
        (\<lambda>files. Inr (encode_files (sort_key fst files))))"

fun dars_arm :: "'w coord_env \<Rightarrow> dars_step \<Rightarrow> (dars_step, 'w, round) cprog" where
  "dars_arm X dars_step.WaitingForPeers = cret Again"
| "dars_arm X dars_step.UploadDars = cret Again"
| "dars_arm X dars_step.Complete = cbind (do_act X UploadOwnDars) (\<lambda>_. cret Finished)"

definition dars_prologue :: "(string \<Rightarrow> bytes option) \<Rightarrow> (string \<times> string) list \<Rightarrow> (dars_step, 'w, unit) cprog" where
  "dars_prologue base64 dar_files =
     cbind (lift_result (encode_dars_payload base64 dar_files)) (\<lambda>p. upd_state (set_command_payload p))"

section \<open>Add-party\<close>

definition save_new_member_keys :: "'w coord_env \<Rightarrow> canton_id \<Rightarrow> ('s, 'w, unit) cprog" where
  "save_new_member_keys X expected = cbind (get_all_peer_data X) (\<lambda>uploads.
     cbind (each (\<lambda>(peer, d).
       if peer \<noteq> expected then cfail ''Unexpected key upload''
       else cbind (lift_result (map_err (\<lambda>_. ''Invalid key payload from new member'') (decode_length_prefixed d 2))) (\<lambda>items.
         let key = canton_id_display (ce_hex X) peer in
         cbind (run_op (ce_write X ''peer_public_keys'' (Some key) (items ! 0))) (\<lambda>_.
           run_op (ce_write X ''participant_id'' (Some key) (items ! 1))))) uploads) (\<lambda>_.
     cbind (if uploads \<noteq> [] then cret ()
            else cbind (run_op (ce_read X ''peer_public_keys'' (Some (canton_id_display (ce_hex X) expected)))) (\<lambda>saved.
              if saved = None then cfail ''New member completed GenerateNewMemberKeys without uploading keys'' else cret ())) (\<lambda>_.
     upd_state clear_peer_data)))"

definition require_complete_or_uploaded :: "'w coord_env \<Rightarrow> string \<Rightarrow> ('s, 'w, unit) cprog" where
  "require_complete_or_uploaded X kind s =
     cbind (run_op (ce_list X kind)) (\<lambda>rows.
       if \<exists>p\<in>completed_peers (c_state s). canton_id_display (ce_hex X) p \<notin> fst ` set rows
       then cfail ''peers are marked complete but have no artefact and no buffered upload''
       else cret ()) s"

definition save_signature_pairs :: "'w coord_env \<Rightarrow> ('s, 'w, unit) cprog" where
  "save_signature_pairs X = cbind (get_all_peer_data X) (\<lambda>uploads.
     cbind (if uploads = [] then cbind (require_complete_or_uploaded X ''signed_add_party_dns'')
              (\<lambda>_. require_complete_or_uploaded X ''signed_add_party_p2p'') else cret ()) (\<lambda>_.
     cbind (save_pairs X ''signed_add_party_dns'' ''signed_add_party_p2p'' uploads) (\<lambda>_.
     upd_state clear_peer_data)))"

definition save_clear_signatures :: "'w coord_env \<Rightarrow> ('s, 'w, unit) cprog" where
  "save_clear_signatures X = cbind (get_all_peer_data X) (\<lambda>uploads.
     cbind (if uploads = [] then require_complete_or_uploaded X ''signed_add_party_clear'' else cret ()) (\<lambda>_.
     cbind (each (\<lambda>(peer, d). run_op (ce_write X ''signed_add_party_clear''
        (Some (canton_id_display (ce_hex X) peer)) d)) uploads) (\<lambda>_.
     upd_state clear_peer_data)))"

definition copy_new_member_identity :: "'w coord_env \<Rightarrow> canton_id \<Rightarrow> canton_id \<Rightarrow> ('s, 'w, unit) cprog" where
  "copy_new_member_identity X party new_member = each (\<lambda>kind.
     let key = canton_id_display (ce_hex X) new_member in
     cbind (run_op (ce_read X kind (Some key))) (\<lambda>r. case r of
       None \<Rightarrow> cret ()
     | Some b \<Rightarrow> do_act X (WriteIdentity party kind key b))) [''peer_public_keys'', ''participant_id'']"

definition resolve_ledger_token :: "'w coord_env \<Rightarrow> bool \<Rightarrow> canton_id \<Rightarrow> ('s, 'w, string option) cprog" where
  "resolve_ledger_token X auth party s =
     (if \<not> auth then (Inr None, s)
      else case run_op (ce_credentials X party) s of
        (Inr (token, _), s') \<Rightarrow> (Inr (Some token), s')
      | (Inl _, s') \<Rightarrow> (Inr None, s'))"

definition reopen_export :: "'w coord_env \<Rightarrow> canton_id \<Rightarrow> ('s, 'w, unit) cprog" where
  "reopen_export X target = cbind (run_op (ce_open_export X)) (\<lambda>session. upd_state (set_acs_export target session))"

fun collect_clear_proposal :: "canton_id \<Rightarrow> bytes \<Rightarrow> (canton_id \<times> bytes) list \<Rightarrow> string + bytes" where
  "collect_clear_proposal new_member blob [] = Inr blob"
| "collect_clear_proposal new_member blob ((peer, d) # rest) =
    (if peer \<noteq> new_member then Inl ''Unexpected clearing-proposal upload'' else collect_clear_proposal new_member d rest)"

fun add_party_arm :: "'w coord_env \<Rightarrow> bytes \<Rightarrow> bool \<Rightarrow> canton_id \<Rightarrow> canton_id \<Rightarrow> add_party_step \<Rightarrow> (add_party_step, 'w, round) cprog" where
  "add_party_arm X config auth party new_member add_party_step.WaitingForPeers = cret Again"
| "add_party_arm X config auth party new_member add_party_step.GenerateNewMemberKeys = cret Again"
| "add_party_arm X config auth party new_member add_party_step.SignProposals = cret Again"
| "add_party_arm X config auth party new_member add_party_step.ProposeClearOnboarding = cret Again"
| "add_party_arm X config auth party new_member add_party_step.SignClearOnboarding = cret Again"
| "add_party_arm X config auth party new_member add_party_step.SyncAcs =
    cbind (run_op (ce_read X ''add_party_sync_acs_command'' None)) (\<lambda>r.
    cbind (\<lambda>s. case r of
        Some saved \<Rightarrow> if command_payload (c_state s) \<noteq> saved then upd_state (set_command_payload saved) s else (Inr (), s)
      | None \<Rightarrow> (Inr (), s)) (\<lambda>_.
    cbind (\<lambda>s. if has_acs_export (c_state s) then (Inr (), s) else reopen_export X new_member s) (\<lambda>_. cret Again)))"
| "add_party_arm X config auth party new_member add_party_step.ExportState =
    cbind (save_new_member_keys X new_member) (\<lambda>_.
    cbind (resolve_ledger_token X auth party) (\<lambda>token.
    cbind (do_act X (ExportStateStep token)) (\<lambda>_.
    cbind (advance_now X add_party_ops) (\<lambda>_. cret Again))))"
| "add_party_arm X config auth party new_member add_party_step.CreateProposals =
    cbind (do_act X CreateProposalsStep) (\<lambda>_.
    cbind (require_artifact X ''add_party_dns_proposal'') (\<lambda>dns_data.
    cbind (require_artifact X ''add_party_p2p_proposal'') (\<lambda>p2p_data.
    cbind (upd_state (set_command_payload (encode_length_prefixed [config, dns_data, p2p_data]))) (\<lambda>_.
    cbind (advance_now X add_party_ops) (\<lambda>_. cret Again)))))"
| "add_party_arm X config auth party new_member add_party_step.SubmitProposals =
    cbind (save_signature_pairs X) (\<lambda>_.
    cbind (do_act X SubmitProposalsStep) (\<lambda>_.
    cbind (copy_new_member_identity X party new_member) (\<lambda>_.
    cbind (reopen_export X new_member) (\<lambda>_.
    cbind (resolve_ledger_token X auth party) (\<lambda>token.
    cbind (run_op (ce_packages X token)) (\<lambda>package_ids.
    let p = encode_length_prefixed [config, str_bytes (join_with [CHR 0x0A] package_ids)] in
    cbind (run_op (ce_write X ''add_party_sync_acs_command'' None p)) (\<lambda>_.
    cbind (upd_state (set_command_payload p)) (\<lambda>_.
    cbind (advance_now X add_party_ops) (\<lambda>_. cret Again)))))))))"
| "add_party_arm X config auth party new_member add_party_step.PrepareClearOnboarding =
    cbind (upd_state clear_acs_export) (\<lambda>_.
    cbind (upd_state (set_command_payload config)) (\<lambda>_.
    cbind (advance_now X add_party_ops) (\<lambda>_. cret Again)))"
| "add_party_arm X config auth party new_member add_party_step.PrepareClearSign =
    cbind (get_all_peer_data X) (\<lambda>uploads.
    cbind (lift_result (collect_clear_proposal new_member [] uploads)) (\<lambda>proposal_blob.
    cbind (upd_state clear_peer_data) (\<lambda>_.
    cbind (if proposal_blob = [] then cbind (run_op (ce_synchronizer X)) (\<lambda>sync.
             do_act X (WaitForFlagCleared sync party new_member)) else cret ()) (\<lambda>_.
    cbind (run_op (ce_write X ''add_party_clear_proposal'' None proposal_blob)) (\<lambda>_.
    cbind (upd_state (set_command_payload (encode_length_prefixed [config, proposal_blob]))) (\<lambda>_.
    cbind (advance_now X add_party_ops) (\<lambda>_. cret Again)))))))"
| "add_party_arm X config auth party new_member add_party_step.SubmitClearOnboarding =
    cbind (run_op (ce_read X ''add_party_clear_proposal'' None)) (\<lambda>r.
    cbind (if (case r of None \<Rightarrow> True | Some b \<Rightarrow> b = []) then upd_state clear_peer_data
           else cbind (save_clear_signatures X) (\<lambda>_. do_act X SubmitClearProposal)) (\<lambda>_.
    cbind (advance_now X add_party_ops) (\<lambda>_. cret Again)))"
| "add_party_arm X config auth party new_member add_party_step.RetireLegacyKeys =
    cbind (do_act X (RetireLegacyKeysAndWait party)) (\<lambda>_.
    cbind (advance_now X add_party_ops) (\<lambda>_. cret Again))"
| "add_party_arm X config auth party new_member add_party_step.Complete = cret Finished"

definition add_party_prologue :: "bytes \<Rightarrow> (add_party_step, 'w, unit) cprog" where
  "add_party_prologue config = upd_state (set_command_payload config)"

section \<open>The loop\<close>

text \<open>A round of the loop, after the listener has served the requests \<open>reqs\<close> of peers; \<open>seen\<close> of the
  listener is not part of the run.  \<open>n\<close> bounds the rounds: \<open>Again\<close> means the loop is still going.\<close>

type_synonym request = "server_env \<times> canton_id \<times> message"

definition serve_one :: "workflow_kind \<Rightarrow> 's step_ops \<Rightarrow> request \<Rightarrow> 's server \<Rightarrow> 's server" where
  "serve_one kind ops q S = (case q of (E, peer, m) \<Rightarrow> snd (snd (handle_command kind ops E peer m (Map.empty, S))))"

definition serve_requests :: "workflow_kind \<Rightarrow> 's step_ops \<Rightarrow> net_peer list \<Rightarrow> request list \<Rightarrow> 's wstate \<Rightarrow> 's wstate" where
  "serve_requests kind ops peers reqs s =
     srv_state (fold (serve_one kind ops) reqs \<lparr>srv_state = s, srv_peers = peers, departed = [], serving_since = 0, sent = []\<rparr>)"

fun coord_loop :: "nat \<Rightarrow> ('s wstate \<Rightarrow> 's wstate) list \<Rightarrow> ('s \<Rightarrow> ('s, 'w, round) cprog) \<Rightarrow> ('s, 'w, round) cprog" where
  "coord_loop 0 others arm s = (Inr Again, s)"
| "coord_loop (Suc n) others arm s =
    (let s1 = (case others of [] \<Rightarrow> s | f # _ \<Rightarrow> s\<lparr>c_state := f (c_state s)\<rparr>) in
     case arm (current_step (c_state s1)) s1 of
       (Inr Again, s2) \<Rightarrow> coord_loop n (tl others) arm s2
     | r \<Rightarrow> r)"

section \<open>Lemmas\<close>

subsection \<open>Signed pairs\<close>

context varint_codec
begin

lemma split_one_frame:
  "length proto < 2 ^ 64 \<Longrightarrow>
     split_one V (encode_length_prefixed_bytes V proto @ rest) = Inr (encode_length_prefixed_bytes V proto, rest)"
  by (simp add: split_one_def encode_length_prefixed_bytes_def decode_encode ok_or_def)

lemma split_pair_frames:
  assumes "length dns < 2 ^ 64" and "length p2p < 2 ^ 64"
  shows "split_signed_kick_pair V (encode_length_prefixed_bytes V dns @ encode_length_prefixed_bytes V p2p @ rest) =
    (if rest = [] then Inr (encode_length_prefixed_bytes V dns, encode_length_prefixed_bytes V p2p)
     else Inl ''Trailing bytes after parsing combined kick signatures'')"
  using split_one_frame [OF assms(1), of "encode_length_prefixed_bytes V p2p @ rest"] split_one_frame [OF assms(2), of rest]
  by (simp add: split_signed_kick_pair_def)

end

subsection \<open>Moves of a program\<close>

named_theorems move_rules

definition moves :: "'s step_ops \<Rightarrow> ('s, 'w, 'a) cprog \<Rightarrow> bool" where
  "moves ops m \<longleftrightarrow> (\<forall>s. wreach ops UNIV (c_state s) (c_state (snd (m s))))"

lemma movesD: "moves ops m \<Longrightarrow> wreach ops UNIV (c_state s) (c_state (snd (m s)))"
  by (simp add: moves_def)

lemma moves_still [move_rules]:
  "moves ops (cret x)" "moves ops (cfail e)" "moves ops (lift_result r)" "moves ops (run_op f)" "moves ops (mark_done t)"
  "moves ops (do_act X a)" "moves ops (get_all_peer_data X)"
  by (simp_all add: moves_def cret_def cfail_def lift_result_def run_op_def mark_done_def do_act_def
      get_all_peer_data_def split: prod.splits)

lemma moves_state [move_rules]:
  "moves ops (upd_state clear_peer_data)" "moves ops (upd_state (set_command_payload b))"
  "moves ops (upd_state clear_acs_export)" "moves ops (upd_state (set_acs_export a x))"
  unfolding moves_def upd_state_def
  by (auto intro!: wreach_step wstep.data_cleared wstep.payload_set wstep.export_cleared wstep.export_set)

lemma moves_advance [move_rules]: "moves ops (advance_now X ops)" "moves ops (advance_from X ops t)"
  unfolding moves_def advance_now_def advance_from_def
  by (auto intro!: wreach_step wstep.advance wstep.advance_if split: prod.splits)

lemma moves_bind [move_rules]: "moves ops m \<Longrightarrow> (\<And>x. moves ops (f x)) \<Longrightarrow> moves ops (cbind m f)"
  unfolding moves_def cbind_def
  by (auto split: prod.splits sum.splits) (metis snd_conv wreach_trans)+

lemma moves_each [move_rules]: "(\<And>x. moves ops (f x)) \<Longrightarrow> moves ops (each f xs)"
  by (induction xs) (auto intro: move_rules)

lemma moves_if [move_rules]: "moves ops m \<Longrightarrow> moves ops m' \<Longrightarrow> moves ops (if b then m else m')"
  by simp

lemma moves_fun_if [move_rules]: "moves ops m \<Longrightarrow> moves ops m' \<Longrightarrow> moves ops (\<lambda>s. if b s then m s else m' s)"
  by (simp add: moves_def)

lemma moves_Pair [move_rules]: "moves ops (\<lambda>s. (r, s))" "moves ops m \<Longrightarrow> moves ops (\<lambda>s. (r, snd (m s)))"
  by (simp_all add: moves_def)

lemma moves_option [move_rules]: "moves ops m \<Longrightarrow> (\<And>y. moves ops (f y)) \<Longrightarrow> moves ops (case x of None \<Rightarrow> m | Some y \<Rightarrow> f y)"
  by (cases x) simp_all

lemma moves_option_fun [move_rules]:
  "moves ops m \<Longrightarrow> (\<And>y. moves ops (f y)) \<Longrightarrow> moves ops (\<lambda>s. case x of Some y \<Rightarrow> f y s | None \<Rightarrow> m s)"
  by (cases x) simp_all

lemma moves_prod [move_rules]: "(\<And>y z. moves ops (f y z)) \<Longrightarrow> moves ops (case x of (y, z) \<Rightarrow> f y z)"
  by (cases x) simp

lemma moves_let [move_rules]: "(\<And>y. moves ops (f y)) \<Longrightarrow> moves ops (let y = x in f y)"
  by (simp add: Let_def)

lemma moves_eta: "moves ops (\<lambda>s. m s) \<Longrightarrow> moves ops m" .

lemma moves_token [move_rules]: "moves ops (resolve_ledger_token X auth party)"
  by (auto simp: moves_def resolve_ledger_token_def run_op_def split: prod.splits sum.splits)

lemma moves_required [move_rules]: "moves ops (require_artifact X kind)"
  unfolding require_artifact_def by (intro move_rules)

lemma moves_guard [move_rules]: "moves ops (require_complete_or_uploaded X kind)"
  unfolding moves_def require_complete_or_uploaded_def
  by (intro allI movesD) (intro move_rules)

lemma moves_save [move_rules]:
  "moves ops (save_pairs X k1 k2 us)" "moves ops (save_keys_and_ids X)" "moves ops (save_signed_proposals X k)"
  "moves ops (save_new_member_keys X p)" "moves ops (save_signature_pairs X)" "moves ops (save_clear_signatures X)"
  "moves ops (copy_new_member_identity X p q)" "moves ops (reopen_export X p)"
  "moves ops (load_prepared_submissions_payload X config)"
  unfolding save_pairs_def save_keys_and_ids_def save_signed_proposals_def save_new_member_keys_def
    save_signature_pairs_def save_clear_signatures_def copy_new_member_identity_def reopen_export_def
    load_prepared_submissions_payload_def
  by (intro move_rules)+

lemma moves_own_keys [move_rules]: "moves onboarding_ops (ensure_coordinator_keys X)"
  unfolding moves_def ensure_coordinator_keys_def
  by (auto intro!: movesD move_rules)

lemma moves_onboarding: "moves onboarding_ops (onboarding_arm X t)"
  by (cases t; simp only: onboarding_arm.simps; intro move_rules)

lemma moves_kick: "moves kick_ops (kick_arm X config party kicked t)"
  by (cases t; simp only: kick_arm.simps; intro move_rules)

lemma moves_change_threshold: "moves change_threshold_ops (change_threshold_arm X config party t)"
  by (cases t; simp only: change_threshold_arm.simps; intro move_rules)

lemma moves_contracts: "moves contracts_ops (contracts_arm X config committed party solo t)"
  by (cases t; simp only: contracts_arm.simps; intro move_rules)

lemma moves_dars: "moves dars_ops (dars_arm X t)"
  by (cases t; simp only: dars_arm.simps; intro move_rules)

lemma moves_add_party: "moves add_party_ops (add_party_arm X cfg auth party new_member t)"
  by (cases t; simp only: add_party_arm.simps; intro move_rules)

text \<open>What every request respects, any sequence of requests does.\<close>

lemma serve_requests_rel:
  assumes refl: "\<And>s. R s s" and trans: "\<And>s t u. R s t \<Longrightarrow> R t u \<Longrightarrow> R s u"
    and handlers: "\<And>S E peer. R (srv_state S) (srv_state (snd (handle_get_next_command ops E peer S)))"
      "\<And>S E peer r. R (srv_state S) (srv_state (snd (handle_get_next_acs_block E peer r S)))"
      "\<And>S E peer r. R (srv_state S) (srv_state (snd (handle_peer_data ops E peer r S)))"
      "\<And>S E peer. R (srv_state S) (srv_state (snd (handle_status_update ops E peer S)))"
      "\<And>S E peer r. R (srv_state S) (srv_state (snd (handle_decline_invitation kind E peer r S)))"
  shows "R s (serve_requests kind ops peers reqs s)"
proof -
  have one: "R (srv_state S) (srv_state (serve_one kind ops q S))" for q S
  proof -
    obtain E peer m where q: "q = (E, peer, m)" by (cases q)
    have "serve_one kind ops q S \<in> {S, snd (handle_get_next_command ops E peer S), snd (handle_get_next_acs_block E peer (payload m) S),
       snd (handle_peer_data ops E peer (payload m) S), snd (handle_status_update ops E peer S),
       snd (handle_decline_invitation kind E peer (payload m) S)}"
      using handle_command_cases [of kind ops E peer m Map.empty S] by (simp only: serve_one_def q prod.case)
    then show ?thesis by (elim insertE emptyE) (simp_all add: refl handlers)
  qed
  have "R (srv_state S) (srv_state (fold (serve_one kind ops) reqs S))" for S
  proof (induction reqs arbitrary: S)
    case (Cons q reqs)
    show ?case using trans [OF one Cons.IH] by simp
  qed (simp add: refl)
  from this [of "\<lparr>srv_state = s, srv_peers = peers, departed = [], serving_since = 0, sent = []\<rparr>"]
  show ?thesis by (simp add: serve_requests_def)
qed

lemma serve_requests_wreach: "wreach ops UNIV s (serve_requests kind ops peers reqs s)"
  by (rule serve_requests_rel [where R = "wreach ops UNIV"]) (auto intro: wreach_trans handlers_wreach)

text \<open>What a round preserves the loop preserves.\<close>

lemma coord_loop_invariant:
  assumes "\<And>f s. f \<in> set others \<Longrightarrow> I s \<Longrightarrow> I (s\<lparr>c_state := f (c_state s)\<rparr>)"
    and "\<And>s. I s \<Longrightarrow> I (snd (arm (current_step (c_state s)) s))" and "I s"
  shows "I (snd (coord_loop n others arm s))"
  using assms(1,3)
proof (induction n arbitrary: others s)
  case (Suc n)
  let ?s1 = "case others of [] \<Rightarrow> s | f # _ \<Rightarrow> s\<lparr>c_state := f (c_state s)\<rparr>"
  have "I ?s1" using Suc.prems by (cases others) auto
  moreover obtain r s2 where a: "arm (current_step (c_state ?s1)) ?s1 = (r, s2)" by fastforce
  ultimately have s2: "I s2" using assms(2) [of ?s1] by simp
  have "I (s\<lparr>c_state := f (c_state s)\<rparr>)" if "f \<in> set (tl others)" "I s" for f s
    using Suc.prems(1) that by (cases others) auto
  then have "I (snd (coord_loop n (tl others) arm s2))" using s2 by (rule Suc.IH)
  then show ?case using a s2 by (simp add: Let_def split: sum.splits round.splits)
qed simp

lemma coord_loop_wreach:
  assumes "\<And>t. moves ops (arm t)" and "others = map (serve_requests kind ops peers) reqs"
  shows "wreach ops UNIV (c_state s) (c_state (snd (coord_loop n others arm s)))"
  by (rule coord_loop_invariant [where I = "\<lambda>x. wreach ops UNIV (c_state s) (c_state x)"])
    (auto simp: assms(2) intro: wreach_trans serve_requests_wreach movesD [OF assms(1)])

subsection \<open>What the listener leaves alone\<close>

text \<open>No request changes the payload of the current command, and none moves the run out of a step
  that neither waits for connections nor for reports.\<close>

definition gated :: "'s step_ops \<Rightarrow> 's \<Rightarrow> bool" where
  "gated ops t \<longleftrightarrow> is_waiting_for_peers ops t \<or> requires_peers ops t"

definition passed_gate :: "'s step_ops \<Rightarrow> 's \<Rightarrow> bool" where
  "passed_gate ops t \<longleftrightarrow> (\<exists>u. gated ops u \<and> next_step ops u = Some t)"

definition served :: "'s step_ops \<Rightarrow> 's wstate \<Rightarrow> 's wstate \<Rightarrow> bool" where
  "served ops s s' \<longleftrightarrow> command_payload s' = command_payload s \<and>
     (current_step s' = current_step s \<or> passed_gate ops (current_step s'))"

lemma served_refl [simp]: "served ops s s"
  by (simp add: served_def)

lemma served_trans: "served ops s t \<Longrightarrow> served ops t u \<Longrightarrow> served ops s u"
  by (auto simp: served_def)

lemma persist_payload [simp]: "command_payload (persist_step_progress ops now db t c s) = command_payload s"
  "peer_data (persist_step_progress ops now db t c s) = peer_data s"
  by (cases db; simp add: persist_step_progress_def)+

lemma advance_payload [simp]: "command_payload (advance_locked ops now db s) = command_payload s"
  "peer_data (advance_locked ops now db s) = peer_data s"
  by (simp_all add: advance_locked_def split: option.splits)

lemma maybe_advance_served: "served ops s (maybe_advance ops now db s)"
proof (cases "gate_ready ops (current_step s) s")
  case True
  then have "gated ops (current_step s)" by (auto simp: gate_ready_def gated_def split: if_splits)
  then show ?thesis
    using True by (auto simp: maybe_advance_cases served_def advance_locked_def passed_gate_def split: option.splits)
qed (simp add: maybe_advance_cases)

lemma peer_events_served:
  "served ops s (peer_connected ops now db p s)" "served ops s (peer_completed ops now db1 db2 p s)"
proof -
  let ?c = "s\<lparr>connected_peers := insert p (connected_peers s)\<rparr>"
  have "served ops s ?c" by (simp add: served_def)
  from served_trans [OF this maybe_advance_served] show "served ops s (peer_connected ops now db p s)"
    by (simp add: peer_connected_def)
next
  let ?s1 = "s\<lparr>completed_peers := insert p (completed_peers s)\<rparr>"
  have "served ops s (persist_step_progress ops now db1 (current_step ?s1) (completed_peers ?s1) ?s1)"
    by (simp add: served_def)
  from served_trans [OF this maybe_advance_served] show "served ops s (peer_completed ops now db1 db2 p s)"
    by (simp add: peer_completed_def Let_def)
qed

lemma handlers_served:
  "served ops (srv_state S) (srv_state (snd (handle_get_next_command ops E peer S)))"
  "served ops (srv_state S) (srv_state (snd (handle_get_next_acs_block E peer r S)))"
  "served ops (srv_state S) (srv_state (snd (handle_peer_data ops E peer r S)))"
  "served ops (srv_state S) (srv_state (snd (handle_status_update ops E peer S)))"
  "served ops (srv_state S) (srv_state (snd (handle_decline_invitation kind E peer r S)))"
proof -
  show "served ops (srv_state S) (srv_state (snd (handle_get_next_command ops E peer S)))"
    by (simp add: handle_get_next_command_def Let_def peer_events_served)
  show "served ops (srv_state S) (srv_state (snd (handle_status_update ops E peer S)))"
    by (simp add: handle_status_update_def peer_events_served)
  have "served ops (srv_state S) (store_peer_data peer r (srv_state S))"
    by (simp add: served_def store_peer_data_def)
  from served_trans [OF this peer_events_served(2)]
  show "served ops (srv_state S) (srv_state (snd (handle_peer_data ops E peer r S)))"
    by (simp add: handle_peer_data_def)
  obtain x where "fst (next_acs_block (se_hex E) (se_sha256 E) (se_now E) peer (be_nat (take 8 r))
      (acs_block_size (se_block_size E)) (srv_state S)) = (srv_state S)\<lparr>acs_export := x\<rparr>"
    using next_acs_block_frame by blast
  then show "served ops (srv_state S) (srv_state (snd (handle_get_next_acs_block E peer r S)))"
    by (auto simp: handle_get_next_acs_block_def served_def split: prod.splits)
  show "served ops (srv_state S) (srv_state (snd (handle_decline_invitation kind E peer r S)))"
    by (auto simp: handle_decline_invitation_def served_def mark_failed_def Let_def split: option.splits)
qed

lemma serve_requests_served: "served ops s (serve_requests kind ops peers reqs s)"
  by (rule serve_requests_rel [where R = "served ops"]) (auto intro: served_trans handlers_served)

subsection \<open>Payloads across the loop\<close>

text \<open>While a run stays on the step its loop was entered at, the payload is the one it was entered with,
  unless the arm of that step sets one.\<close>

lemma held_payload:
  assumes wf: "workflow_step ops" and arms: "\<And>t. moves ops (arm t)"
    and keep: "\<And>s. current_step (c_state s) = t0 \<Longrightarrow> command_payload (c_state (snd (arm t0 s))) = command_payload (c_state s)"
    and start: "current_step (c_state s0) = t0"
    and stop: "current_step (c_state (snd (coord_loop n (map (serve_requests kind ops peers) reqs) arm s0))) = t0"
  shows "command_payload (c_state (snd (coord_loop n (map (serve_requests kind ops peers) reqs) arm s0))) = command_payload (c_state s0)"
proof -
  let ?I = "\<lambda>x. step_index ops t0 \<le> step_index ops (current_step (c_state x)) \<and>
    (current_step (c_state x) = t0 \<longrightarrow> command_payload (c_state x) = command_payload (c_state s0))"
  have "?I (snd (coord_loop n (map (serve_requests kind ops peers) reqs) arm s0))"
  proof (rule coord_loop_invariant [where I = ?I])
    fix f and s :: "('a, 'b) coord"
    assume "f \<in> set (map (serve_requests kind ops peers) reqs)" and I: "?I s"
    then obtain r where f: "f = serve_requests kind ops peers r" by auto
    have le: "step_index ops (current_step (c_state s)) \<le> step_index ops (current_step (f (c_state s)))"
      using workflow_step.wreach_mono [OF wf serve_requests_wreach] unfolding f by blast
    have same: "command_payload (f (c_state s)) = command_payload (c_state s)"
      using serve_requests_served [of ops "c_state s"] unfolding f served_def by blast
    have eq: "current_step (c_state s) = t0" if "current_step (f (c_state s)) = t0"
      by (rule workflow_step.index_inj [OF wf antisym [OF le [unfolded that] conjunct1 [OF I]]])
    have "step_index ops t0 \<le> step_index ops (current_step (f (c_state s)))"
      by (rule order_trans [OF conjunct1 [OF I] le])
    moreover have "command_payload (f (c_state s)) = command_payload (c_state s0)" if "current_step (f (c_state s)) = t0"
      using same eq [OF that] I by (simp only: simp_thms)
    moreover have u: "c_state (s\<lparr>c_state := f (c_state s)\<rparr>) = f (c_state s)" by simp
    ultimately show "?I (s\<lparr>c_state := f (c_state s)\<rparr>)" unfolding u by blast
  next
    fix s :: "('a, 'b) coord" assume I: "?I s"
    let ?t = "current_step (c_state (snd (arm (current_step (c_state s)) s)))"
    have le: "step_index ops (current_step (c_state s)) \<le> step_index ops ?t"
      using workflow_step.wreach_mono [OF wf movesD [OF arms]] by blast
    show "?I (snd (arm (current_step (c_state s)) s))"
    proof (cases "?t = t0")
      case True
      have eq: "current_step (c_state s) = t0"
        by (rule workflow_step.index_inj [OF wf antisym [OF le [unfolded True] conjunct1 [OF I]]])
      show ?thesis using I keep [OF eq] order_trans [OF conjunct1 [OF I] le] by (simp only: eq simp_thms)
    next
      case False
      then show ?thesis using order_trans [OF conjunct1 [OF I] le] by (simp only: simp_thms)
    qed
  qed (simp add: start)
  then show ?thesis using stop by simp
qed

lemma kick_sign_keeps: "command_payload (c_state (snd (kick_arm X config party kicked kick_step.SignProposals s))) = command_payload (c_state s)"
  by (simp add: cret_def)

lemma change_threshold_sign_keeps:
  "command_payload (c_state (snd (change_threshold_arm X config party change_threshold_step.SignProposals s))) = command_payload (c_state s)"
  by (simp add: cret_def)

lemma contracts_sign_keeps:
  "command_payload (c_state (snd (contracts_arm X config committed party solo contracts_step.SignSubmissions s))) = command_payload (c_state s)"
  by (auto simp: cbind_def cret_def lift_result_def do_act_def run_op_def advance_from_def advance_step_if_def
      split: prod.splits sum.splits)

lemma empty_payload_refused:
  "handle_sign_kick C [] p = retry_peer_step (pc_exec C) SignKick p"
  "handle_sign_change_threshold C [] p = retry_peer_step (pc_exec C) SignChangeThreshold p"
  "handle_sign_submissions C [] p = retry_peer_step (pc_exec C) message_type.SignSubmissions p"
  by (simp_all add: handle_sign_kick_def handle_sign_change_threshold_def handle_sign_party_proposals_def
      handle_sign_submissions_def guard_step_def ensure_def Let_def)

text \<open>A run that reached the step after its signing gate has forgotten who completed the gate.\<close>

lemma gate_clears:
  "current_step (peer_completed ops now db1 db2 p s) \<noteq> current_step s \<Longrightarrow>
     completed_peers (peer_completed ops now db1 db2 p s) = {}"
  by (auto simp: peer_completed_def maybe_advance_cases advance_locked_def Let_def split: if_splits option.splits)

lemma gate_clears_row:
  assumes "current_step (peer_completed ops now db1 Committed p s) \<noteq> current_step s"
  shows "row_completed (db_row (peer_completed ops now db1 Committed p s)) = {}"
proof -
  let ?s1 = "s\<lparr>completed_peers := insert p (completed_peers s)\<rparr>"
  let ?s2 = "persist_step_progress ops now db1 (current_step ?s1) (completed_peers ?s1) ?s1"
  have "p \<in> expected_peers s" using assms by (auto simp: peer_completed_def split: if_splits)
  then have eq: "peer_completed ops now db1 Committed p s = maybe_advance ops now Committed ?s2"
    by (simp add: peer_completed_def Let_def)
  have step: "current_step ?s2 = current_step s" by simp
  obtain t where "maybe_advance ops now Committed ?s2 =
      persist_step_progress ops now Committed t {} (?s2\<lparr>current_step := t, completed_peers := {}\<rparr>)"
    using assms unfolding eq maybe_advance_cases advance_locked_def by (auto split: if_splits option.splits)
  then show ?thesis unfolding eq by (simp add: persist_step_progress_def update_workflow_run_step_def)
qed

text \<open>A fresh kick reaches its signing step only through the arm that sets the payload.\<close>

definition pair_payload :: "string + bytes \<Rightarrow> bytes \<Rightarrow> bool" where
  "pair_payload config p \<longleftrightarrow> (\<exists>c dns p2p. config = Inr c \<and> p = encode_length_prefixed [c, dns, p2p])"

definition kick_ready :: "string + bytes \<Rightarrow> kick_step wstate \<Rightarrow> bool" where
  "kick_ready config s \<longleftrightarrow> current_step s \<noteq> kick_step.SignProposals \<or> pair_payload config (command_payload s)"

lemma kick_ready_served: "kick_ready config s \<Longrightarrow> served kick_ops s s' \<Longrightarrow> kick_ready config s'"
proof -
  have "\<not> passed_gate kick_ops kick_step.SignProposals"
  proof -
    have "kick_next u = Some kick_step.SignProposals \<Longrightarrow> u = kick_step.CreateProposals" for u by (cases u) simp_all
    then show ?thesis by (auto simp: passed_gate_def gated_def kick_ops_def kick_requires_peers_def)
  qed
  then show "kick_ready config s \<Longrightarrow> served kick_ops s s' \<Longrightarrow> kick_ready config s'"
    by (auto simp: kick_ready_def served_def)
qed

lemma advance_now_step:
  "current_step (c_state (snd (advance_now X ops s))) =
    (case next_step ops (current_step (c_state s)) of Some t \<Rightarrow> t | None \<Rightarrow> current_step (c_state s))"
  "command_payload (c_state (snd (advance_now X ops s))) = command_payload (c_state s)"
  by (auto simp: advance_now_def advance_step_def advance_locked_def split: prod.splits option.splits)

lemma kick_ready_arm:
  assumes "kick_ready config (c_state s)"
  shows "kick_ready config (c_state (snd (kick_arm X config party kicked (current_step (c_state s)) s)))"
proof (cases "current_step (c_state s)")
  case CreateProposals
  then show ?thesis
    by (auto simp: kick_ready_def pair_payload_def cbind_def cret_def cfail_def lift_result_def do_act_def run_op_def
        require_artifact_def upd_state_def advance_now_def set_command_payload_def advance_step_def advance_locked_def
        split: prod.splits sum.splits option.splits)
next
  case ExportState
  then show ?thesis
    by (auto simp: kick_ready_def cbind_def cret_def do_act_def run_op_def mark_done_def advance_now_def advance_step_def
        advance_locked_def kick_ops_def split: prod.splits sum.splits option.splits)
next
  case SubmitKick
  have "step_index kick_ops (current_step (c_state s)) \<le>
      step_index kick_ops (current_step (c_state (snd (kick_arm X config party kicked (current_step (c_state s)) s))))"
    using kick_wf.wreach_mono [OF movesD [OF moves_kick]] by blast
  then show ?thesis using SubmitKick by (auto simp: kick_ready_def kick_ops_def)
next
  case RetireLegacyKeys
  have "step_index kick_ops (current_step (c_state s)) \<le>
      step_index kick_ops (current_step (c_state (snd (kick_arm X config party kicked (current_step (c_state s)) s))))"
    using kick_wf.wreach_mono [OF movesD [OF moves_kick]] by blast
  then show ?thesis using RetireLegacyKeys by (auto simp: kick_ready_def kick_ops_def)
qed (insert assms, simp_all add: cret_def)

lemma kick_ready_loop:
  assumes "kick_ready config (c_state s)"
  shows "kick_ready config (c_state (snd (coord_loop n (map (serve_requests Kick kick_ops peers) reqs) (kick_arm X config party kicked) s)))"
  by (rule coord_loop_invariant [where I = "\<lambda>x. kick_ready config (c_state x)"])
    (auto intro: kick_ready_served [OF _ serve_requests_served] kick_ready_arm assms)

definition example_coord :: "unit coord_env" where
  "example_coord = \<lparr>ce_hex = std_hex, ce_act = (\<lambda>_ w. (Inr (), w)), ce_read = (\<lambda>_ _ w. (Inr (Some [7]), w)),
     ce_list = (\<lambda>_ w. (Inr [], w)), ce_write = (\<lambda>_ _ _ w. (Inr (), w)), ce_open_export = (\<lambda>w. (Inl ''none'', w)),
     ce_packages = (\<lambda>_ w. (Inr [], w)), ce_credentials = (\<lambda>_ w. (Inr (''t'', ''u''), w)), ce_synchronizer = (\<lambda>w. (Inr ''sync'', w)),
     ce_persist = (\<lambda>w. ((0, Committed), w)), ce_order = sorted_list_of_set, ce_varint = leb128\<rparr>"

section \<open>Properties\<close>


text \<open>C23: a coordinator that restarts while its peers are signing never hands out
  the proposals again.  In a kick, a change-threshold or a contracts run resumed on its signing step the command
  payload stays empty for as long as the run is on that step, whatever the loop and the peers do; and a peer that
  gets the signing command without payload counts a failed step.\<close>

theorem resumed_signing_serves_nothing:
  "(let s = c_state (snd (coord_loop n (map (serve_requests Kick kick_ops peers) reqs) (kick_arm X config party kicked)
        \<lparr>c_state = from_persisted row inst kick_step.SignProposals expected done th, c_world = w, c_done = []\<rparr>)) in
     current_step s = kick_step.SignProposals \<longrightarrow> command_payload s = []) \<and>
   (let s = c_state (snd (coord_loop n (map (serve_requests ChangeThreshold change_threshold_ops peers) reqs) (change_threshold_arm X config party)
        \<lparr>c_state = from_persisted row inst change_threshold_step.SignProposals expected done th, c_world = w, c_done = []\<rparr>)) in
     current_step s = change_threshold_step.SignProposals \<longrightarrow> command_payload s = []) \<and>
   (let s = c_state (snd (coord_loop n (map (serve_requests Contracts contracts_ops peers) reqs) (contracts_arm X config committed party solo)
        \<lparr>c_state = from_persisted row inst contracts_step.SignSubmissions expected done th, c_world = w, c_done = []\<rparr>)) in
     current_step s = contracts_step.SignSubmissions \<longrightarrow> command_payload s = []) \<and>
   handle_sign_kick C [] p = retry_peer_step (pc_exec C) SignKick p \<and>
   handle_sign_change_threshold C [] p = retry_peer_step (pc_exec C) SignChangeThreshold p \<and>
   handle_sign_submissions C [] p = retry_peer_step (pc_exec C) message_type.SignSubmissions p"
  unfolding Let_def
proof (intro conjI impI, goal_cases)
  case 1
  then show ?case
    using held_payload [where arm = "kick_arm X config party kicked", OF kick_wf.workflow_step_axioms moves_kick kick_sign_keeps]
    by (simp add: from_persisted_def)
next
  case 2
  then show ?case
    using held_payload [where arm = "change_threshold_arm X config party", OF change_threshold_wf.workflow_step_axioms
        moves_change_threshold change_threshold_sign_keeps]
    by (simp add: from_persisted_def)
next
  case 3
  then show ?case
    using held_payload [where arm = "contracts_arm X config committed party solo", OF contracts_wf.workflow_step_axioms
        moves_contracts contracts_sign_keeps]
    by (simp add: from_persisted_def)
qed (rule empty_payload_refused)+

theorem resumed_signing_serves_nothing_witness:
  "command_payload (c_state (snd (coord_loop 2 [] (kick_arm example_coord (Inr [1]) (example_peer ''d'') (example_peer ''x''))
     \<lparr>c_state = from_persisted example_row ''kick-1'' kick_step.SignProposals [example_peer ''a''] [] None, c_world = (), c_done = []\<rparr>))) = []"
  using resumed_signing_serves_nothing [of 2 "[]" "[]" example_coord "Inr [1]" "example_peer ''d''" "example_peer ''x''"
      example_row "''kick-1''" "[example_peer ''a'']" "[]" None "()"]
  by (simp add: numeral_2_eq_2 cret_def from_persisted_def)

text \<open>In a kick that is not resumed on its signing step, peers are never asked to sign before
  the proposals are there: whatever happened before, on that step the payload is the config with the two proposals,
  and (below 4 GiB) the peer's decoder returns exactly these three items.\<close>

theorem kick_payload_ready:
  assumes "current_step (c_state s0) \<noteq> kick_step.SignProposals"
    and "s = c_state (snd (coord_loop n (map (serve_requests Kick kick_ops peers) reqs) (kick_arm X config party kicked) s0))"
    and "current_step s = kick_step.SignProposals"
  shows "\<exists>c dns p2p. config = Inr c \<and> command_payload s = encode_length_prefixed [c, dns, p2p] \<and>
    (max (length c) (max (length dns) (length p2p)) < 2 ^ 32 \<longrightarrow> decode_length_prefixed (command_payload s) 3 = Inr [c, dns, p2p])"
proof -
  have "kick_ready config s" unfolding assms(2)
    by (rule kick_ready_loop) (simp add: kick_ready_def assms(1))
  then obtain c dns p2p where eq: "config = Inr c" "command_payload s = encode_length_prefixed [c, dns, p2p]"
    using assms(3) by (auto simp: kick_ready_def pair_payload_def)
  have "decode_length_prefixed (command_payload s) 3 = Inr [c, dns, p2p]"
    if "max (length c) (max (length dns) (length p2p)) < 2 ^ 32"
    using that decode_length_prefixed_encode [of "[c, dns, p2p]" "[]"] by (simp add: eq numeral_3_eq_3)
  then show ?thesis using eq by blast
qed

theorem kick_payload_ready_witness:
  "\<exists>c dns p2p. (Inr [1] :: string + bytes) = Inr c \<and> command_payload (c_state (snd (coord_loop 1 []
       (kick_arm example_coord (Inr [1]) (example_peer ''d'') (example_peer ''x''))
     \<lparr>c_state = wstate_new example_row ''kick-1'' kick_step.CreateProposals [example_peer ''a''] None, c_world = (), c_done = []\<rparr>)))
     = encode_length_prefixed [c, dns, p2p]"
proof -
  let ?ini = "\<lparr>c_state = wstate_new example_row ''kick-1'' kick_step.CreateProposals [example_peer ''a''] None, c_world = (), c_done = []\<rparr>"
  let ?s = "c_state (snd (coord_loop 1 [] (kick_arm example_coord (Inr [1]) (example_peer ''d'') (example_peer ''x'')) ?ini))"
  have step: "current_step ?s = kick_step.SignProposals"
    by (simp add: example_coord_def cbind_def cret_def lift_result_def do_act_def run_op_def require_artifact_def
        upd_state_def advance_now_def advance_step_def advance_locked_def wstate_new_def set_command_payload_def kick_ops_def)
  have "current_step (c_state ?ini) \<noteq> kick_step.SignProposals" by (simp add: wstate_new_def)
  from kick_payload_ready [where n = 1 and reqs = "[]" and X = example_coord and config = "Inr [1]"
      and party = "example_peer ''d''" and kicked = "example_peer ''x''", OF this _ step]
  show ?thesis by (simp only: list.map simp_thms) blast
qed

text \<open>A coordinator that restarts right after the last signature of an add-party
  run arrived goes on to submit without any of them.  The advance that opens the gate empties the set of completed
  peers, in memory and in the row, so the guard that is to notice lost uploads has nobody to miss: it accepts, even
  if no artefact was ever written, and writes none.\<close>

theorem restart_loses_signatures:
  assumes "current_step s = add_party_step.SignProposals"
    and "s' = peer_completed add_party_ops now db Committed p s" and "current_step s' = add_party_step.SubmitProposals"
    and "set done = row_completed (db_row s')"
    and "\<And>kind w. ce_list X kind w = (Inr (rows kind), w)" and "ce_order X {} = []"
  shows "save_signature_pairs X \<lparr>c_state = from_persisted (db_row s') inst add_party_step.SubmitProposals expected done th,
        c_world = w, c_done = []\<rparr> =
    (Inr (), \<lparr>c_state = from_persisted (db_row s') inst add_party_step.SubmitProposals expected done th, c_world = w, c_done = []\<rparr>)"
proof -
  have "done = []" using gate_clears_row [of add_party_ops now db p s] assms(1-4) by simp
  then show ?thesis using assms(5,6)
    by (simp add: save_signature_pairs_def get_all_peer_data_def peer_uploads_def require_complete_or_uploaded_def
        cbind_def run_op_def cret_def save_pairs_def upd_state_def clear_peer_data_def from_persisted_def)
qed

theorem restart_loses_signatures_witness:
  "let s' = peer_completed add_party_ops 0 Committed Committed (example_peer ''a'')
       (store_peer_data (example_peer ''a'') [1, 2] (wstate_new example_row ''add-1'' add_party_step.SignProposals [example_peer ''a''] None));
     c = \<lparr>c_state = from_persisted (db_row s') ''add-1'' add_party_step.SubmitProposals [example_peer ''a''] [] None, c_world = (), c_done = []\<rparr>
   in peer_data s' (example_peer ''a'') = Some [1, 2] \<and> save_signature_pairs example_coord c = (Inr (), c)"
proof -
  let ?t = "store_peer_data (example_peer ''a'') [1, 2] (wstate_new example_row ''add-1'' add_party_step.SignProposals [example_peer ''a''] None)"
  let ?u = "peer_completed add_party_ops 0 Committed Committed (example_peer ''a'') ?t"
  have step: "current_step ?t = add_party_step.SignProposals" by (simp add: store_peer_data_def wstate_new_def)
  have next_step: "current_step ?u = add_party_step.SubmitProposals"
    by (simp add: peer_completed_def maybe_advance_cases advance_locked_def gate_ready_def peers_quorum_def
        persist_step_progress_def store_peer_data_def wstate_new_def add_party_ops_def add_party_requires_peers_def)
  have row: "set [] = row_completed (db_row ?u)"
    using gate_clears_row [of add_party_ops 0 Committed "example_peer ''a''" ?t] step next_step by simp
  have env: "\<And>kind w. ce_list example_coord kind w = (Inr [], w)" "ce_order example_coord {} = []"
    by (simp_all add: example_coord_def)
  have "peer_data ?u (example_peer ''a'') = Some [1, 2]"
    by (simp add: peer_completed_def maybe_advance_cases store_peer_data_def Let_def)
  then show ?thesis
    using restart_loses_signatures [OF step refl next_step row env, of "''add-1''" "[example_peer ''a'']" None "()"]
    by (simp add: Let_def)
qed

text \<open>The coordinator takes a peer's pair of signed proposals apart exactly as the peer framed
  it, and refuses a pair followed by anything else.\<close>

theorem pair_split_roundtrip:
  assumes "varint_codec V" and "length dns < 2 ^ 64" and "length p2p < 2 ^ 64"
  shows "split_signed_kick_pair V (encode_length_prefixed_bytes V dns @ encode_length_prefixed_bytes V p2p) =
      Inr (encode_length_prefixed_bytes V dns, encode_length_prefixed_bytes V p2p) \<and>
    is_ok (split_signed_kick_pair V (encode_length_prefixed_bytes V dns @ encode_length_prefixed_bytes V p2p @ x # rest)) = False"
  using varint_codec.split_pair_frames [OF assms, of "[]"] varint_codec.split_pair_frames [OF assms, of "x # rest"]
  by (simp add: is_ok_def)

theorem pair_split_roundtrip_witness:
  "split_signed_kick_pair leb128 (encode_length_prefixed_bytes leb128 [1, 2] @ encode_length_prefixed_bytes leb128 [3]) =
     Inr (encode_length_prefixed_bytes leb128 [1, 2], encode_length_prefixed_bytes leb128 [3])"
  using pair_split_roundtrip [OF leb.varint_codec_axioms, of "[1, 2]" "[3]"] by simp

end
