(* ===== verification/Listener.thy ===== *)
theory Listener
  imports Coordinator
begin

text \<open>
  The always-on Noise listener (\<open>handle_incoming_connection\<close> of \<open>server/mod.rs\<close>) and the registry
  it routes by (\<open>WorkflowRegistry\<close> of \<open>server/types.rs\<close>): which run a command of a peer reaches, and
  what the peer gets back as an HTTP response.
\<close>

section \<open>Active runs\<close>

datatype active_workflow =
    ActiveOnboarding "onboarding_step server"
  | ActiveKick "kick_step server"
  | ActiveContracts "contracts_step server"
  | ActiveDars "dars_step server"
  | ActiveAddParty "add_party_step server"
  | ActiveChangeThreshold "change_threshold_step server"

text \<open>The result of a typed server's handler, with the server put back into its constructor.\<close>

definition wrap :: "('s server \<Rightarrow> active_workflow) \<Rightarrow> (noise_error + message) \<times> (string \<rightharpoonup> nat) \<times> 's server
    \<Rightarrow> (noise_error + message) \<times> (string \<rightharpoonup> nat) \<times> active_workflow" where
  "wrap c x = (case x of (r, seen, S) \<Rightarrow> (r, seen, c S))"

definition active_handle_command :: "server_env \<Rightarrow> canton_id \<Rightarrow> message \<Rightarrow> (string \<rightharpoonup> nat) \<times> active_workflow
    \<Rightarrow> (noise_error + message) \<times> (string \<rightharpoonup> nat) \<times> active_workflow" where
  "active_handle_command E peer m x = (case x of (seen, a) \<Rightarrow> (case a of
     ActiveOnboarding S \<Rightarrow> wrap ActiveOnboarding (handle_command Onboarding onboarding_ops E peer m (seen, S))
   | ActiveKick S \<Rightarrow> wrap ActiveKick (handle_command Kick kick_ops E peer m (seen, S))
   | ActiveContracts S \<Rightarrow> wrap ActiveContracts (handle_command Contracts contracts_ops E peer m (seen, S))
   | ActiveDars S \<Rightarrow> wrap ActiveDars (handle_command Dars dars_ops E peer m (seen, S))
   | ActiveAddParty S \<Rightarrow> wrap ActiveAddParty (handle_command AddParty add_party_ops E peer m (seen, S))
   | ActiveChangeThreshold S \<Rightarrow> wrap ActiveChangeThreshold (handle_command ChangeThreshold change_threshold_ops E peer m (seen, S))))"

section \<open>The registry\<close>

text \<open>Registered instances by name; an instance has a handle once its server is up.  The names are
  distinct (\<open>registry_insert\<close>), so the order of the hash map shows nowhere.\<close>

type_synonym 'a registry = "(string \<times> 'a option) list"

definition registry_insert :: "string \<Rightarrow> 'a registry \<Rightarrow> bool \<times> 'a registry" where
  "registry_insert i runs = (if map_of runs i \<noteq> None then (False, runs) else (True, (i, None) # runs))"

definition registry_remove :: "string \<Rightarrow> 'a registry \<Rightarrow> 'a registry" where
  "registry_remove i runs = filter (\<lambda>(k, _). k \<noteq> i) runs"

definition set_active :: "string \<Rightarrow> 'a \<Rightarrow> 'a registry \<Rightarrow> 'a registry" where
  "set_active i a runs = map (\<lambda>(k, x). if k = i then (k, Some a) else (k, x)) runs"

definition actives :: "'a registry \<Rightarrow> (string \<times> 'a) list" where
  "actives runs = List.map_filter (\<lambda>(k, x). map_option (Pair k) x) runs"

text \<open>\<open>route\<close> also names the run, so that the model can put its new state back.\<close>

definition route :: "string \<Rightarrow> 'a registry \<Rightarrow> (string \<times> 'a) option" where
  "route i runs =
     (if i \<noteq> [] then (case map_of runs i of Some (Some a) \<Rightarrow> Some (i, a) | _ \<Rightarrow> None)
      else case actives runs of [x] \<Rightarrow> Some x | _ \<Rightarrow> None)"

section \<open>Routed requests\<close>

record listener =
  runs :: "active_workflow registry"
  last_seen :: "string \<rightharpoonup> nat"

text \<open>What surrounds one request: the handlers' environment, the text of an error, the id the handshake
  authenticated the sender as, and the ids in the allowlist.\<close>

record listener_env =
  le_env :: server_env
  le_error :: "noise_error \<Rightarrow> string"
  le_wire_error :: "wire_error \<Rightarrow> string"
  le_sender :: "string option"
  le_known :: "string \<Rightarrow> bool"

definition workflow_types :: "message_type list" where
  "workflow_types = [GetNextCommand, GetNextAcsBlock] @ peer_data_types @ [StatusUpdate, DeclineInvitation]"

definition ok_response :: "message \<Rightarrow> http_outcome" where
  "ok_response m = HttpResponse 200 False (Inr (to_bytes m))"

text \<open>A request routed to a run.  \<open>gone\<close> is the body of the 503 sent when there is no such run.\<close>

definition route_request :: "listener_env \<Rightarrow> bytes \<Rightarrow> message \<Rightarrow> 'a listener_scheme \<Rightarrow> http_outcome \<times> 'a listener_scheme" where
  "route_request L gone m s =
     (case route (msg_instance m) (runs s) of
        None \<Rightarrow> (HttpResponse 503 False (Inr gone), s)
      | Some (i, a) \<Rightarrow>
          (case Option.bind (le_sender L) (\<lambda>who. case canton_id_parse (se_hex (le_env L)) who of Inr p \<Rightarrow> Some p | Inl _ \<Rightarrow> None) of
             None \<Rightarrow> (ok_response (message_new_empty Wait), s)
           | Some peer \<Rightarrow>
               (case active_handle_command (le_env L) peer m (last_seen s, a) of
                  (r, seen, a') \<Rightarrow>
                    (ok_response (case r of Inr resp \<Rightarrow> resp | Inl e \<Rightarrow> message_new Error (str_bytes (le_error L e))),
                     s\<lparr>runs := set_active i a' (runs s), last_seen := seen\<rparr>))))"

definition no_such_run :: bytes where
  "no_such_run = to_bytes (message_new Error
     (str_bytes ''no such workflow run on this peer: it was cancelled or already finished''))"

text \<open>The listener's handling of a frame, for the messages it routes to a run: all workflow commands, and
  requests for chunks that name a run.  \<open>local_request\<close> answers the others.\<close>

definition handle_frame :: "listener_env \<Rightarrow> (message \<Rightarrow> 'a listener_scheme \<Rightarrow> http_outcome \<times> 'a listener_scheme) \<Rightarrow> bytes \<Rightarrow> 'a listener_scheme
    \<Rightarrow> http_outcome \<times> 'a listener_scheme" where
  "handle_frame L local_request body s0 =
     (let s = (case le_sender L of
          Some who \<Rightarrow> if le_known L who then s0\<lparr>last_seen := bump (last_seen s0) who (se_instant (le_env L))\<rparr> else s0
        | None \<Rightarrow> s0) in
      if length body < 6 then (HttpResponse 200 False (Inr []), s)
      else case from_bytes body of
        Inl e \<Rightarrow> (HttpResponse 503 False (Inr (to_bytes (message_new Error
                   (str_bytes (''request rejected: '' @ le_wire_error L e))))), s)
      | Inr m \<Rightarrow>
          if msg_type m = GetChunk \<and> msg_instance m \<noteq> [] then route_request L no_such_run m s
          else if msg_type m \<in> set workflow_types then route_request L [] m s
          else local_request m s)"

section \<open>Lemmas\<close>

subsection \<open>Routing\<close>

lemma map_of_set_active:
  "map_of (set_active i a rs) k = (if k = i \<and> map_of rs i \<noteq> None then Some (Some a) else map_of rs k)"
  by (induction rs) (auto simp: set_active_def)

lemma map_of_registry_remove: "map_of (registry_remove i rs) k = (if k = i then None else map_of rs k)"
  by (induction rs) (auto simp: registry_remove_def)

lemma actives_iff:
  "distinct (map fst rs) \<Longrightarrow> (k, a) \<in> set (actives rs) \<longleftrightarrow> map_of rs k = Some (Some a)"
  by (induction rs) (auto simp: actives_def List.map_filter_def split: option.splits if_splits dest: weak_map_of_SomeI
      intro: rev_image_eqI)

subsection \<open>What a poll is due\<close>

text \<open>What the state machine of a run has for a peer: the command of the step and its payload.\<close>

definition due :: "'s step_ops \<Rightarrow> canton_id \<Rightarrow> 's wstate \<Rightarrow> message_type \<times> bytes" where
  "due ops peer s =
     (if peer \<in> completed_peers s then (Wait, [])
      else case to_command ops (current_step s) of
        None \<Rightarrow> (Wait, [])
      | Some c \<Rightarrow> (c, if command_carries_payload c then command_payload s else []))"

definition active_due :: "server_env \<Rightarrow> canton_id \<Rightarrow> active_workflow \<Rightarrow> message_type \<times> bytes" where
  "active_due E peer a = (case a of
     ActiveOnboarding S \<Rightarrow> due onboarding_ops peer (peer_connected onboarding_ops (se_now E) (se_db1 E) peer (srv_state S))
   | ActiveKick S \<Rightarrow> due kick_ops peer (peer_connected kick_ops (se_now E) (se_db1 E) peer (srv_state S))
   | ActiveContracts S \<Rightarrow> due contracts_ops peer (peer_connected contracts_ops (se_now E) (se_db1 E) peer (srv_state S))
   | ActiveDars S \<Rightarrow> due dars_ops peer (peer_connected dars_ops (se_now E) (se_db1 E) peer (srv_state S))
   | ActiveAddParty S \<Rightarrow> due add_party_ops peer (peer_connected add_party_ops (se_now E) (se_db1 E) peer (srv_state S))
   | ActiveChangeThreshold S \<Rightarrow>
       due change_threshold_ops peer (peer_connected change_threshold_ops (se_now E) (se_db1 E) peer (srv_state S)))"

definition active_payload :: "active_workflow \<Rightarrow> bytes" where
  "active_payload a = (case a of
     ActiveOnboarding S \<Rightarrow> command_payload (srv_state S)
   | ActiveKick S \<Rightarrow> command_payload (srv_state S)
   | ActiveContracts S \<Rightarrow> command_payload (srv_state S)
   | ActiveDars S \<Rightarrow> command_payload (srv_state S)
   | ActiveAddParty S \<Rightarrow> command_payload (srv_state S)
   | ActiveChangeThreshold S \<Rightarrow> command_payload (srv_state S))"

text \<open>The reply to a poll: inline up to 1 MiB, else an announcement.\<close>

definition poll_reply :: "message_type \<times> bytes \<Rightarrow> message" where
  "poll_reply d = (case d of (c, p) \<Rightarrow> if length p \<le> MAX_PAYLOAD_SIZE then message_new c p else chunked_announcement c p)"

lemma message_new_Nil: "message_new_empty c = message_new c []"
  by (simp add: message_new_def message_new_empty_def)

lemma get_next_command_reply:
  "fst (handle_get_next_command ops E peer S) =
    Inr (poll_reply (due ops peer (peer_connected ops (se_now E) (se_db1 E) peer (srv_state S))))"
  by (auto simp: handle_get_next_command_def due_def poll_reply_def has_peer_completed_def current_command_def
      message_new_Nil Let_def split: option.splits)

lemma typed_poll:
  assumes "msg_type m = GetNextCommand"
  shows "handle_command kind ops E peer m (seen, S) =
    (Inr (poll_reply (due ops peer (peer_connected ops (se_now E) (se_db1 E) peer (srv_state S)))),
     bump seen (canton_id_display (se_hex E) peer) (se_instant E), snd (handle_get_next_command ops E peer S))"
  using assms get_next_command_reply [of ops E peer S] by (auto simp: handle_command_def Let_def split: prod.splits)

lemma poll_keeps_payload:
  "command_payload (srv_state (snd (handle_get_next_command ops E peer S))) = command_payload (srv_state S)"
  using handlers_served(1) [of ops S E peer] by (simp add: served_def)

lemma typed_chunk:
  assumes "msg_type m = GetChunk"
  shows "handle_command kind ops E peer m (seen, S) =
    (fst (handle_get_chunk (payload m) S), bump seen (canton_id_display (se_hex E) peer) (se_instant E), S)"
  using assms get_chunk_frame [of "payload m" S] by (simp add: handle_command_def Let_def split_beta)

lemma active_poll:
  assumes "msg_type m = GetNextCommand"
  shows "\<exists>seen' a'. active_handle_command E peer m (seen, a) = (Inr (poll_reply (active_due E peer a)), seen', a') \<and>
    active_payload a' = active_payload a"
  by (cases a) (simp_all add: active_handle_command_def active_due_def active_payload_def wrap_def
      typed_poll [OF assms] poll_keeps_payload)

lemma active_chunk:
  assumes "msg_type m = GetChunk" and "payload m = be_bytes 4 i" and "i * CHUNK_SIZE < length (active_payload a)" and "i < 2 ^ 32"
  shows "\<exists>seen'. active_handle_command E peer m (seen, a) =
    (Inr (message_new Chunk (be_bytes 4 i @ take CHUNK_SIZE (drop (i * CHUNK_SIZE) (active_payload a)))), seen', a)"
  using assms by (cases a) (simp_all add: active_handle_command_def typed_chunk wrap_def get_chunk_serves active_payload_def)

subsection \<open>Polling through the listener\<close>

text \<open>The network between a peer and the listener, when it works: before each request other tasks may act
  on the listener (\<open>other\<close>), then the request is handled in the environment of that moment (\<open>L\<close>).\<close>

definition listen :: "(nat \<Rightarrow> listener_env) \<Rightarrow> (nat \<Rightarrow> 'a listener_scheme \<Rightarrow> 'a listener_scheme) \<Rightarrow> (message \<Rightarrow> 'a listener_scheme \<Rightarrow> http_outcome \<times> 'a listener_scheme)
    \<Rightarrow> (nat \<times> 'a listener_scheme) exchange" where
  "listen L other local_request w body = (case w of (n, s) \<Rightarrow>
     (case handle_frame (L n) local_request body (other n s) of (r, s') \<Rightarrow> (r, (Suc n, s'))))"

text \<open>The sender is a peer the handshake identified.\<close>

definition identified :: "canton_id \<Rightarrow> listener_env \<Rightarrow> bool" where
  "identified peer L \<longleftrightarrow> (case le_sender L of None \<Rightarrow> False | Some who \<Rightarrow> canton_id_parse (se_hex (le_env L)) who = Inr peer)"

definition serving :: "string \<Rightarrow> bytes \<Rightarrow> 'a listener_scheme \<Rightarrow> bool" where
  "serving i p s \<longleftrightarrow> (case map_of (runs s) i of Some (Some a) \<Rightarrow> active_payload a = p | _ \<Rightarrow> False)"

lemma frame_length: "9 \<le> length (encode_with_instance m i)"
  by (simp add: encode_with_instance_def Let_def)

lemma route_named: "i \<noteq> [] \<Longrightarrow> map_of rs i = Some (Some a) \<Longrightarrow> route i rs = Some (i, a)"
  by (simp add: route_def)

lemma request_reaches_run:
  assumes "identified peer L" and "i \<noteq> []" "rust_str i" "length i \<le> 65535" and "length p < 256 ^ 4"
    and run: "map_of (runs s) i = Some (Some a)" and t: "t = GetChunk \<or> t \<in> set workflow_types"
  shows "\<exists>seen. handle_frame L local_request (encode_with_instance (message_new t p) i) s =
    (case active_handle_command (le_env L) peer \<lparr>msg_type = t, msg_instance = i, payload = p\<rparr> (seen, a) of
       (r, seen', a') \<Rightarrow> (ok_response (case r of Inr resp \<Rightarrow> resp | Inl e \<Rightarrow> message_new Error (str_bytes (le_error L e))),
          s\<lparr>runs := set_active i a' (runs s), last_seen := seen'\<rparr>))"
proof -
  let ?m = "\<lparr>msg_type = t, msg_instance = i, payload = p\<rparr>"
  have "from_bytes (encode_with_instance (message_new t p) i) = Inr ?m"
    using from_bytes_encode [of i "message_new t p" "[]"] assms(3-5) by (simp add: message_new_def)
  moreover have "\<not> length (encode_with_instance (message_new t p) i) < 6"
    using frame_length [of "message_new t p" i] by simp
  moreover have "GetChunk \<notin> set workflow_types" by (simp add: workflow_types_def peer_data_types_def)
  moreover obtain who where who: "le_sender L = Some who" "canton_id_parse (se_hex (le_env L)) who = Inr peer"
    using assms(1) by (auto simp: identified_def split: option.splits)
  ultimately show ?thesis
    using assms(2) run t route_named [OF assms(2) run]
    by (intro exI [of _ "if le_known L who then bump (last_seen s) who (se_instant (le_env L)) else last_seen s"])
      (auto simp: handle_frame_def route_request_def Let_def split_beta)
qed

text \<open>One request of the client and the reply it reads.\<close>

lemma client_send_listen:
  assumes "handle_frame (L n) local_request (encode_with_instance m i) (other n s) = (ok_response resp, s')"
    and "msg_instance m = []" and "i \<noteq> []"
  shows "client_send i (listen L other local_request) m (n, s) = (Inr (to_bytes resp), (Suc n, s'))"
  using assms by (simp add: client_send_def listen_def ok_response_def)

lemma reply_readable: "length (payload m) < 256 ^ 4 \<Longrightarrow> msg_instance m = [] \<Longrightarrow> from_bytes (to_bytes m) = Inr m"
  using from_bytes_to_bytes [of m "[]"] by (simp add: rust_str_def str_bytes_def)

lemma chunk_readable:
  assumes "i < 2 ^ 32" and "length d \<le> CHUNK_SIZE"
  shows "parse_chunk i (to_bytes (message_new Chunk (be_bytes 4 i @ d))) = Inr d"
proof -
  let ?p = "be_bytes 4 i @ d"
  have "[?p ! 0, ?p ! 1, ?p ! 2, ?p ! 3] = take 4 ?p" using nth4_take_drop [of 0 ?p 1 2 3] by simp
  then have "be_nat [?p ! 0, ?p ! 1, ?p ! 2, ?p ! 3] = i" using assms(1) by (simp del: be_nat.simps)
  moreover have "from_bytes (to_bytes (message_new Chunk ?p)) = Inr (message_new Chunk ?p)"
    using assms(2) by (intro reply_readable) (simp_all add: message_new_def CHUNK_SIZE_def)
  ultimately show ?thesis by (simp add: parse_chunk_def message_new_def del: be_nat.simps)
qed

lemma serving_set_active:
  "map_of (runs s) i \<noteq> None \<Longrightarrow> serving i p (s\<lparr>runs := set_active i a (runs s), last_seen := seen\<rparr>) \<longleftrightarrow> active_payload a = p"
  by (simp add: serving_def map_of_set_active)

text \<open>A chunk request through the listener, while the run keeps its payload.\<close>

lemma chunk_through_listener:
  assumes ids: "\<And>n. identified peer (L n)" and name: "i \<noteq> []" "rust_str i" "length i \<le> 65535"
    and others: "\<And>n s. serving i p s \<Longrightarrow> serving i p (other n s)"
    and k: "k * CHUNK_SIZE < length p" "length p \<le> MAX_CHUNKED_TOTAL_SIZE" and s: "serving i p (snd w)"
  shows "\<exists>w'. request_chunk_with_retry i (listen L other local_request) k w =
    (Inr (take CHUNK_SIZE (drop (k * CHUNK_SIZE) p)), w') \<and> serving i p (snd w')"
proof -
  obtain n s where w: "w = (n, s)" by (cases w)
  have "serving i p (other n s)" using others s w by simp
  then obtain a where a: "map_of (runs (other n s)) i = Some (Some a)" "active_payload a = p"
    by (auto simp: serving_def split: option.splits)
  have small: "k < 2 ^ 32" using k by (simp add: CHUNK_SIZE_def MAX_CHUNKED_TOTAL_SIZE_def)
  let ?d = "take CHUNK_SIZE (drop (k * CHUNK_SIZE) p)"
  let ?m = "\<lparr>msg_type = GetChunk, msg_instance = i, payload = be_bytes 4 k\<rparr>"
  obtain seen where f: "handle_frame (L n) local_request (encode_with_instance (message_new GetChunk (be_bytes 4 k)) i) (other n s) =
    (case active_handle_command (le_env (L n)) peer ?m (seen, a) of
       (r, seen', a') \<Rightarrow> (ok_response (case r of Inr resp \<Rightarrow> resp | Inl e \<Rightarrow> message_new Error (str_bytes (le_error (L n) e))),
          (other n s)\<lparr>runs := set_active i a' (runs (other n s)), last_seen := seen'\<rparr>))"
    using request_reaches_run [OF ids name _ a(1), of "be_bytes 4 k" GetChunk n local_request] by auto
  obtain seen' where "active_handle_command (le_env (L n)) peer ?m (seen, a) = (Inr (message_new Chunk (be_bytes 4 k @ ?d)), seen', a)"
    using active_chunk [of ?m k a "le_env (L n)" peer seen] a(2) k(1) small by auto
  with f obtain s' where h: "handle_frame (L n) local_request (encode_with_instance (message_new GetChunk (be_bytes 4 k)) i) (other n s) =
      (ok_response (message_new Chunk (be_bytes 4 k @ ?d)), s')" and s': "serving i p s'"
    using a by (auto simp: serving_set_active)
  have "client_send i (listen L other local_request) (message_new GetChunk (be_bytes 4 k)) (n, s) =
      (Inr (to_bytes (message_new Chunk (be_bytes 4 k @ ?d))), (Suc n, s'))"
    by (rule client_send_listen [where L = L and n = n and other = other and s = s, OF h]) (simp_all add: message_new_def name)
  moreover have "parse_chunk k (to_bytes (message_new Chunk (be_bytes 4 k @ ?d))) = Inr ?d"
    by (rule chunk_readable [OF small]) simp
  ultimately have "request_chunk i (listen L other local_request) k w = (Inr ?d, (Suc n, s'))"
    by (simp add: request_chunk_def w)
  then show ?thesis using s' by (simp add: request_chunk_with_retry_def CHUNK_FETCH_MAX_ATTEMPTS_def numeral_3_eq_3)
qed

text \<open>The first request of a poll.\<close>

lemma poll_through_listener:
  assumes ids: "\<And>n. identified peer (L n)" and name: "i \<noteq> []" "rust_str i" "length i \<le> 65535"
    and a: "map_of (runs (other n s)) i = Some (Some a)"
  shows "\<exists>s'. client_send i (listen L other local_request) (message_new_empty GetNextCommand) (n, s) =
      (Inr (to_bytes (poll_reply (active_due (le_env (L n)) peer a))), (Suc n, s')) \<and> serving i (active_payload a) s'"
proof -
  let ?m = "\<lparr>msg_type = GetNextCommand, msg_instance = i, payload = []\<rparr>"
  have "GetNextCommand \<in> set workflow_types" by (simp add: workflow_types_def)
  then obtain seen where f: "handle_frame (L n) local_request (encode_with_instance (message_new GetNextCommand []) i) (other n s) =
    (case active_handle_command (le_env (L n)) peer ?m (seen, a) of
       (r, seen', a') \<Rightarrow> (ok_response (case r of Inr resp \<Rightarrow> resp | Inl e \<Rightarrow> message_new Error (str_bytes (le_error (L n) e))),
          (other n s)\<lparr>runs := set_active i a' (runs (other n s)), last_seen := seen'\<rparr>))"
    using request_reaches_run [OF ids name _ a, of "[]" GetNextCommand n local_request] by auto
  obtain seen' a' where "active_handle_command (le_env (L n)) peer ?m (seen, a) = (Inr (poll_reply (active_due (le_env (L n)) peer a)), seen', a')"
    and "active_payload a' = active_payload a"
    using active_poll [of ?m "le_env (L n)" peer seen a] by auto
  with f obtain s' where h: "handle_frame (L n) local_request (encode_with_instance (message_new GetNextCommand []) i) (other n s) =
      (ok_response (poll_reply (active_due (le_env (L n)) peer a)), s')" and s': "serving i (active_payload a) s'"
    using a by (auto simp: serving_set_active)
  have "client_send i (listen L other local_request) (message_new GetNextCommand []) (n, s) =
      (Inr (to_bytes (poll_reply (active_due (le_env (L n)) peer a))), (Suc n, s'))"
    by (rule client_send_listen [where L = L and n = n and other = other and s = s, OF h]) (simp_all add: message_new_def name)
  then show ?thesis using s' by (auto simp: message_new_Nil)
qed

lemma poll_reply_readable:
  "length (snd d) < 2 ^ 32 \<Longrightarrow> from_bytes (to_bytes (poll_reply d)) = Inr (poll_reply d)"
  by (rule reply_readable) (simp_all add: poll_reply_def chunked_announcement_def message_new_def MAX_PAYLOAD_SIZE_def split: prod.splits)

text \<open>No step tells its peers to expect a chunked command.\<close>

lemma due_command: "(\<And>t. to_command ops t \<noteq> Some c) \<Longrightarrow> c \<noteq> Wait \<Longrightarrow> fst (due ops peer s) \<noteq> c"
  by (auto simp: due_def split: option.splits)

lemma step_commands:
  "to_command onboarding_ops t \<noteq> Some ChunkedCommand" by (cases t) (simp_all add: onboarding_ops_def)

lemma step_commands_kick: "to_command kick_ops t \<noteq> Some ChunkedCommand" by (cases t) (simp_all add: kick_ops_def)
lemma step_commands_contracts: "to_command contracts_ops t \<noteq> Some ChunkedCommand" by (cases t) (simp_all add: contracts_ops_def)
lemma step_commands_dars: "to_command dars_ops t \<noteq> Some ChunkedCommand" by (cases t) (simp_all add: dars_ops_def)
lemma step_commands_add_party: "to_command add_party_ops t \<noteq> Some ChunkedCommand" by (cases t) (simp_all add: add_party_ops_def)
lemma step_commands_change_threshold: "to_command change_threshold_ops t \<noteq> Some ChunkedCommand"
  by (cases t) (simp_all add: change_threshold_ops_def)

lemma due_not_chunked: "fst (active_due E peer a) \<noteq> ChunkedCommand"
  by (cases a) (simp_all add: active_due_def due_command step_commands step_commands_kick step_commands_contracts
      step_commands_dars step_commands_add_party step_commands_change_threshold)

lemma due_payload_typed: "snd (due ops peer (peer_connected ops now db peer s)) \<in> {[], command_payload s}"
  using peer_events_served(1) [of ops s now db peer] by (auto simp: due_def served_def split: option.splits)

lemma due_payload: "snd (active_due E peer a) \<in> {[], active_payload a}"
  unfolding active_due_def active_payload_def by (cases a) (simp_all only: active_workflow.case due_payload_typed)

section \<open>Properties\<close>

definition example_env :: listener_env where
  "example_env = \<lparr>le_env = \<lparr>se_hex = std_hex, se_sha256 = (\<lambda>_. []), se_instant = 0, se_now = 0, se_db1 = Committed, se_db2 = Committed,
      se_block_size = None, se_decline = (\<lambda>_. None), se_key_ok = (\<lambda>_. True), se_acs_text = (\<lambda>_. [])\<rparr>,
     le_error = (\<lambda>_. []), le_wire_error = (\<lambda>_. []),
     le_sender = Some (canton_id_display std_hex (example_peer ''a'')), le_known = (\<lambda>_. True)\<rparr>"

definition example_listener :: "bytes \<Rightarrow> listener" where
  "example_listener p = \<lparr>runs = [(''kick-1'', Some (ActiveKick (example_server\<lparr>srv_state := set_command_payload p (example_state None)\<rparr>)))],
     last_seen = Map.empty\<rparr>"

lemma example_identified: "identified (example_peer ''a'') example_env"
proof -
  have "wf_id (example_peer ''a'')" "CHR '':'' \<notin> set (prefix (example_peer ''a''))"
    by (simp_all add: example_peer_def wf_id_def wf_namespace_def NAMESPACE_LENGTH_def)
  from std.parse_display_no_colon [OF this] show ?thesis by (simp add: identified_def example_env_def)
qed

lemma example_payload:
  "active_payload (ActiveKick (example_server\<lparr>srv_state := set_command_payload p (example_state None)\<rparr>)) = p"
  by (simp add: active_payload_def set_command_payload_def)

lemma example_due:
  "active_due (le_env example_env) (example_peer ''a'') (ActiveKick (example_server\<lparr>srv_state := set_command_payload p (example_state None)\<rparr>)) = (SignKick, p)"
proof -
  let ?s = "set_command_payload p (example_state None)"
  have "peers_quorum (?s\<lparr>connected_peers := insert (example_peer ''a'') (connected_peers ?s)\<rparr>) = 2"
    using example_peers_neq by (simp add: peers_quorum_def example_state_def wstate_new_def set_command_payload_def)
  then show ?thesis
    by (simp add: active_due_def due_def peer_connected_def maybe_advance_cases gate_ready_def example_env_def
        example_state_def wstate_new_def set_command_payload_def kick_ops_def kick_requires_peers_def command_carries_payload_def)
qed

text \<open>C24: polling works end to end.  A peer that names a registered run and polls through the
  listener gets exactly the command the state machine of that run has for it, with exactly its payload: inline, or put
  together from chunks while other tasks act on the listener between the requests, as long as they leave the run's
  payload in place.  This holds for every payload of at most 16 MiB.\<close>

theorem command_delivered:
  assumes "\<And>n. identified peer (L n)" and "i \<noteq> []" "rust_str i" "length i \<le> 65535"
    and "map_of (runs (other 0 s)) i = Some (Some a)"
    and "\<And>n s. serving i (active_payload a) s \<Longrightarrow> serving i (active_payload a) (other n s)"
    and "length (active_payload a) \<le> 16 * 1024 * 1024"
  shows "\<exists>w. get_next_command_with_payload i (listen L other local_request) (0, s) =
    (Inr (case active_due (le_env (L 0)) peer a of (c, p) \<Rightarrow> message_new c p), w)"
proof -
  let ?p = "active_payload a" and ?ex = "listen L other local_request"
  obtain c p where d: "active_due (le_env (L 0)) peer a = (c, p)" by fastforce
  have p: "p = [] \<or> p = ?p" using due_payload [of "le_env (L 0)" peer a] d by simp
  have len: "length p \<le> MAX_CHUNKED_TOTAL_SIZE" using p assms(7) by (auto simp: MAX_CHUNKED_TOTAL_SIZE_def)
  obtain s' where first: "client_send i ?ex (message_new_empty GetNextCommand) (0, s) =
      (Inr (to_bytes (poll_reply (c, p))), (1, s'))" and s': "serving i ?p s'"
    using poll_through_listener [where L = L and other = other and n = 0 and s = s and i = i and a = a and local_request = local_request,
        OF assms(1-5)] d by auto
  have read: "from_bytes (to_bytes (poll_reply (c, p))) = Inr (poll_reply (c, p))"
    using len by (intro poll_reply_readable) (simp add: MAX_CHUNKED_TOTAL_SIZE_def)
  show ?thesis
  proof (cases "length p \<le> MAX_PAYLOAD_SIZE")
    case True
    then have "poll_reply (c, p) = message_new c p" by (simp add: poll_reply_def)
    then show ?thesis using first read d due_not_chunked [of "le_env (L 0)" peer a]
      by (simp add: get_next_command_with_payload_def message_new_def)
  next
    case False
    then have eq: "p = ?p" "poll_reply (c, p) = chunked_announcement c p" using p by (auto simp: poll_reply_def)
    have meta: "parse_chunked_command_metadata (payload (chunked_announcement c p)) = Inr (c, length p, div_ceil (length p) CHUNK_SIZE)"
      using len by (intro chunked_announcement_parses) (simp add: MAX_CHUNKED_TOTAL_SIZE_def)
    have "\<exists>w'. assemble (request_chunk_with_retry i ?ex) (length p) (div_ceil (length p) CHUNK_SIZE) (1, s') = (Inr p, w') \<and>
        serving i p (snd w')"
    proof (rule assemble_correct [where I = "\<lambda>w :: nat \<times> 'a listener_scheme. serving i p (snd w)"])
      fix k and w :: "nat \<times> 'a listener_scheme" assume "k * CHUNK_SIZE < length p" "serving i p (snd w)"
      then show "\<exists>w'. request_chunk_with_retry i ?ex k w = (Inr (take CHUNK_SIZE (drop (k * CHUNK_SIZE) p)), w') \<and> serving i p (snd w')"
        using assms(6) len eq(1) by (intro chunk_through_listener [OF assms(1-4)]) simp_all
    qed (insert len s' eq(1), simp_all)
    then obtain w' where "assemble (request_chunk_with_retry i ?ex) (length p) (div_ceil (length p) CHUNK_SIZE) (1, s') = (Inr p, w')" by blast
    then show ?thesis using first read meta d eq(2)
      by (simp add: get_next_command_with_payload_def receive_chunked_payload_def chunked_announcement_def message_new_def)
  qed
qed

theorem command_delivered_witness:
  "\<exists>w. get_next_command_with_payload ''kick-1'' (listen (\<lambda>_. example_env) (\<lambda>_ s. s) (\<lambda>_ s. (HttpResponse 200 False (Inr []), s)))
     (0, example_listener (replicate 3000000 7)) = (Inr (message_new SignKick (replicate 3000000 7)), w)"
  using command_delivered [where L = "\<lambda>_. example_env" and other = "\<lambda>_ s. s" and i = "''kick-1''" and s = "example_listener (replicate 3000000 7)",
      OF example_identified, of "ActiveKick (example_server\<lparr>srv_state := set_command_payload (replicate 3000000 7) (example_state None)\<rparr>)"]
  by (simp add: example_due example_listener_def rust_str_def str_bytes_def example_payload)

text \<open>A payload of more than 16 MiB cannot be delivered.  The coordinator announces it like
  any other, the peer's poll fails on the announcement before it fetches a chunk, and the peer takes it for a broken
  connection.\<close>

theorem oversized_undeliverable:
  assumes "\<And>n. identified peer (L n)" and "i \<noteq> []" "rust_str i" "length i \<le> 65535"
    and "map_of (runs (other 0 s)) i = Some (Some a)"
    and "16 * 1024 * 1024 < length (snd (active_due (le_env (L 0)) peer a))"
    and "length (snd (active_due (le_env (L 0)) peer a)) < 2 ^ 32"
  shows "\<exists>s'. get_next_command_with_payload i (listen L other local_request) (0, s) = (Inl InvalidMessage, (1, s'))"
proof -
  obtain c p where d: "active_due (le_env (L 0)) peer a = (c, p)" by fastforce
  obtain s' where first: "client_send i (listen L other local_request) (message_new_empty GetNextCommand) (0, s) =
      (Inr (to_bytes (poll_reply (c, p))), (1, s'))"
    using poll_through_listener [where L = L and other = other and n = 0 and s = s and i = i and a = a and local_request = local_request,
        OF assms(1-5)] d by auto
  have eq: "poll_reply (c, p) = chunked_announcement c p" using assms(6) d by (simp add: poll_reply_def MAX_PAYLOAD_SIZE_def)
  have read: "from_bytes (to_bytes (chunked_announcement c p)) = Inr (chunked_announcement c p)"
    using poll_reply_readable [of "(c, p)"] assms(7) d eq by simp
  have meta: "parse_chunked_command_metadata (payload (chunked_announcement c p)) = Inr (c, length p, div_ceil (length p) CHUNK_SIZE)"
    using assms(7) d by (intro chunked_announcement_parses) simp
  have big: "check_chunk_metadata (length p) (div_ceil (length p) CHUNK_SIZE) = Inl InvalidMessage"
    using assms(6) d by (simp add: check_chunk_metadata_def MAX_CHUNKED_TOTAL_SIZE_def)
  have t: "msg_type (chunked_announcement c p) = ChunkedCommand" by (simp add: chunked_announcement_def message_new_def)
  show ?thesis using first read meta big eq t
    by (simp add: get_next_command_with_payload_def receive_chunked_payload_def assemble_def)
qed

theorem oversized_undeliverable_witness:
  "\<exists>s'. get_next_command_with_payload ''kick-1'' (listen (\<lambda>_. example_env) (\<lambda>_ s. s) (\<lambda>_ s. (HttpResponse 200 False (Inr []), s)))
     (0, example_listener (replicate 20000000 7)) = (Inl InvalidMessage, (1, s'))"
  using oversized_undeliverable [where L = "\<lambda>_. example_env" and other = "\<lambda>_ s. s" and i = "''kick-1''" and s = "example_listener (replicate 20000000 7)",
      OF example_identified, of "ActiveKick (example_server\<lparr>srv_state := set_command_payload (replicate 20000000 7) (example_state None)\<rparr>)"]
  by (simp add: example_due example_listener_def rust_str_def str_bytes_def)

end
