(* ===== verification/Run_Store.thy ===== *)
theory Run_Store
  imports Peer_Loop "HOL-Library.Product_Lexorder"
begin

text \<open>
  The table of workflow runs: \<open>WorkflowRun\<close> of \<open>crates/common/src/types.rs\<close>, its row format
  (\<open>WorkflowRunRow\<close> of \<open>db/rows.rs\<close>), and the statements of \<open>db/sqlite.rs\<close> the peer side of a
  workflow reads and writes it with.

  \<open>serde_json\<close> is a parameter: \<open>jsonlib\<close> prints and parses documents.  What a document says about a
  struct, which is the derived code of the sources, is modelled: which keys are written and read, which may
  be missing, and what their values must be.
\<close>

section \<open>JSON\<close>

datatype json = JNull | JBool bool | JNum int | JStr string | JArr "json list" | JObj "(string \<times> json) list"

record jsonlib =
  json_print :: "json \<Rightarrow> string"
  json_parse :: "string \<Rightarrow> json option"

text \<open>Writing: an \<open>Option\<close> is its value or \<open>null\<close>, a \<open>CantonId\<close> its text.\<close>

definition j_option :: "('a \<Rightarrow> json) \<Rightarrow> 'a option \<Rightarrow> json" where
  "j_option f x = (case x of None \<Rightarrow> JNull | Some v \<Rightarrow> f v)"

definition j_list :: "('a \<Rightarrow> json) \<Rightarrow> 'a list \<Rightarrow> json" where
  "j_list f xs = JArr (map f xs)"

definition j_id :: "hexlib \<Rightarrow> canton_id \<Rightarrow> json" where
  "j_id H i = JStr (canton_id_display H i)"

definition j_intent :: "contract_deployment_intent \<Rightarrow> json" where
  "j_intent c = JObj [(''package_id'', JStr (intent_package_id c)), (''module_name'', JStr (intent_module_name c)),
     (''entity_name'', JStr (intent_entity_name c)), (''argument_hash'', JStr (intent_argument_hash c))]"

text \<open>Reading, as the derived \<open>Deserialize\<close> does: a key that is given twice is an error, one that is not
  given is \<open>None\<close> here and left to the caller, and keys that are not asked for are ignored.\<close>

definition u_field :: "string \<Rightarrow> (string \<times> json) list \<Rightarrow> json option option" where
  "u_field k kvs = (case filter (\<lambda>(k', _). k' = k) kvs of [] \<Rightarrow> Some None | [(_, v)] \<Rightarrow> Some (Some v) | _ \<Rightarrow> None)"

definition u_str :: "json \<Rightarrow> string option" where
  "u_str j = (case j of JStr s \<Rightarrow> Some s | _ \<Rightarrow> None)"

definition u_i32 :: "json \<Rightarrow> int option" where
  "u_i32 j = (case j of JNum n \<Rightarrow> if - (2 ^ 31) \<le> n \<and> n < 2 ^ 31 then Some n else None | _ \<Rightarrow> None)"

definition u_id :: "hexlib \<Rightarrow> json \<Rightarrow> canton_id option" where
  "u_id H j = Option.bind (u_str j) (\<lambda>s. case canton_id_parse H s of Inr i \<Rightarrow> Some i | Inl _ \<Rightarrow> None)"

fun u_all :: "(json \<Rightarrow> 'a option) \<Rightarrow> json list \<Rightarrow> 'a list option" where
  "u_all f [] = Some []"
| "u_all f (j # js) = Option.bind (f j) (\<lambda>x. Option.bind (u_all f js) (\<lambda>xs. Some (x # xs)))"

definition u_list :: "(json \<Rightarrow> 'a option) \<Rightarrow> json \<Rightarrow> 'a list option" where
  "u_list f j = (case j of JArr js \<Rightarrow> u_all f js | _ \<Rightarrow> None)"

definition u_option :: "(json \<Rightarrow> 'a option) \<Rightarrow> json \<Rightarrow> 'a option option" where
  "u_option f j = (case j of JNull \<Rightarrow> Some None | _ \<Rightarrow> map_option Some (f j))"

text \<open>A required field, and one with \<open>#[serde(default)]\<close>.\<close>

definition u_required :: "string \<Rightarrow> (json \<Rightarrow> 'a option) \<Rightarrow> (string \<times> json) list \<Rightarrow> 'a option" where
  "u_required k f kvs = Option.bind (u_field k kvs) (\<lambda>v. Option.bind v f)"

definition u_default :: "string \<Rightarrow> (json \<Rightarrow> 'a option) \<Rightarrow> 'a \<Rightarrow> (string \<times> json) list \<Rightarrow> 'a option" where
  "u_default k f d kvs = Option.bind (u_field k kvs) (\<lambda>v. case v of None \<Rightarrow> Some d | Some j \<Rightarrow> f j)"

definition u_intent :: "json \<Rightarrow> contract_deployment_intent option" where
  "u_intent j = (case j of JObj kvs \<Rightarrow>
     Option.bind (u_required ''package_id'' u_str kvs) (\<lambda>p.
     Option.bind (u_required ''module_name'' u_str kvs) (\<lambda>m.
     Option.bind (u_required ''entity_name'' u_str kvs) (\<lambda>e.
     Option.bind (u_required ''argument_hash'' u_str kvs) (\<lambda>a.
       Some \<lparr>intent_package_id = p, intent_module_name = m, intent_entity_name = e, intent_argument_hash = a\<rparr>))))
   | _ \<Rightarrow> None)"

text \<open>\<open>PeerRunConfig\<close>, as \<open>PeerExpectations::load\<close> reads it back from the row.\<close>

definition peer_run_config_from :: "hexlib \<Rightarrow> json \<Rightarrow> peer_run_config option" where
  "peer_run_config_from H j = (case j of JObj kvs \<Rightarrow>
     Option.bind (u_default ''contract_intents'' (u_list u_intent) [] kvs) (\<lambda>ci.
     Option.bind (u_default ''prefix'' (u_option u_str) None kvs) (\<lambda>p.
     Option.bind (u_default ''participants'' (u_list (u_id H)) [] kvs) (\<lambda>ps.
     Option.bind (u_default ''dar_filenames'' (u_list u_str) [] kvs) (\<lambda>fs.
     Option.bind (u_default ''dar_hashes'' (u_list u_str) [] kvs) (\<lambda>hs.
     Option.bind (u_default ''participant_id'' (u_option (u_id H)) None kvs) (\<lambda>k.
     Option.bind (u_default ''new_participant_id'' (u_option (u_id H)) None kvs) (\<lambda>n.
     Option.bind (u_default ''new_threshold'' (u_option u_i32) None kvs) (\<lambda>t.
     Option.bind (u_default ''confirmation_threshold'' (u_option u_i32) None kvs) (\<lambda>c.
       Some \<lparr>cfg_contract_intents = ci, cfg_prefix = p, cfg_participants = ps, cfg_dar_filenames = fs,
         cfg_dar_hashes = hs, cfg_participant_id = k, cfg_new_participant_id = n, cfg_new_threshold = t,
         cfg_confirmation_threshold = c\<rparr>)))))))))
   | _ \<Rightarrow> None)"

section \<open>Runs\<close>

datatype workflow_role = Coordinator | Peer

definition kind_str :: "workflow_kind \<Rightarrow> string" where
  "kind_str k = (case k of Onboarding \<Rightarrow> ''Onboarding'' | Kick \<Rightarrow> ''Kick'' | Contracts \<Rightarrow> ''Contracts'' | Dars \<Rightarrow> ''Dars''
     | AddParty \<Rightarrow> ''AddParty'' | ChangeThreshold \<Rightarrow> ''ChangeThreshold'')"

definition kind_from_str :: "string \<Rightarrow> workflow_kind option" where
  "kind_from_str s = (if s = ''Onboarding'' then Some Onboarding else if s = ''Kick'' then Some Kick
     else if s = ''Contracts'' then Some Contracts else if s = ''Dars'' then Some Dars
     else if s = ''AddParty'' then Some AddParty else if s = ''ChangeThreshold'' then Some ChangeThreshold else None)"

definition role_str :: "workflow_role \<Rightarrow> string" where
  "role_str r = (case r of Coordinator \<Rightarrow> ''Coordinator'' | Peer \<Rightarrow> ''Peer'')"

definition role_from_str :: "string \<Rightarrow> workflow_role option" where
  "role_from_str s = (if s = ''Coordinator'' then Some Coordinator else if s = ''Peer'' then Some Peer else None)"

definition workflow_progress_str :: "workflow_progress \<Rightarrow> string" where
  "workflow_progress_str p = (case p of Idle \<Rightarrow> ''idle'' | InProgress \<Rightarrow> ''inprogress'' | Completed \<Rightarrow> ''completed''
     | Failed \<Rightarrow> ''failed'' | Cancelled \<Rightarrow> ''cancelled'')"

definition parse_workflow_progress :: "string \<Rightarrow> workflow_progress option" where
  "parse_workflow_progress s = (if s = ''idle'' then Some Idle else if s = ''inprogress'' then Some InProgress
     else if s = ''completed'' then Some Completed else if s = ''failed'' then Some Failed
     else if s = ''cancelled'' then Some Cancelled else None)"

text \<open>The persisted part of \<open>WorkflowRun\<close>; the fields that are not columns are filled in by the API layer
  and are empty here.\<close>

record workflow_run =
  wr_name :: string
  wr_kind :: workflow_kind
  wr_role :: workflow_role
  wr_status :: workflow_progress
  wr_step :: string
  wr_index :: int
  wr_total :: int
  wr_config_json :: string
  wr_coordinator_pubkey :: "string option"
  wr_coordinator_instance :: "string option"
  wr_expected_peers :: "canton_id list"
  wr_completed_peers :: "canton_id list"
  wr_dec_party_id :: "canton_id option"
  wr_error :: "string option"
  wr_dismissed :: bool
  wr_created_at :: int
  wr_updated_at :: int

record workflow_run_row =
  rr_name :: string
  rr_kind :: string
  rr_role :: string
  rr_status :: string
  rr_step :: string
  rr_index :: int
  rr_total :: int
  rr_config_json :: string
  rr_coordinator_pubkey :: "string option"
  rr_coordinator_instance :: "string option"
  rr_expected_peers_json :: string
  rr_completed_peers_json :: string
  rr_dec_party_id :: "string option"
  rr_error :: "string option"
  rr_dismissed :: int
  rr_created_at :: int
  rr_updated_at :: int

definition row_from_domain :: "hexlib \<Rightarrow> jsonlib \<Rightarrow> workflow_run \<Rightarrow> workflow_run_row" where
  "row_from_domain H J r = \<lparr>rr_name = wr_name r, rr_kind = kind_str (wr_kind r), rr_role = role_str (wr_role r),
     rr_status = workflow_progress_str (wr_status r), rr_step = wr_step r, rr_index = wr_index r, rr_total = wr_total r,
     rr_config_json = wr_config_json r, rr_coordinator_pubkey = wr_coordinator_pubkey r,
     rr_coordinator_instance = wr_coordinator_instance r,
     rr_expected_peers_json = json_print J (j_list (j_id H) (wr_expected_peers r)),
     rr_completed_peers_json = json_print J (j_list (j_id H) (wr_completed_peers r)),
     rr_dec_party_id = map_option (canton_id_display H) (wr_dec_party_id r), rr_error = wr_error r,
     rr_dismissed = (if wr_dismissed r then 1 else 0), rr_created_at = wr_created_at r, rr_updated_at = wr_updated_at r\<rparr>"

definition row_into_domain :: "hexlib \<Rightarrow> jsonlib \<Rightarrow> workflow_run_row \<Rightarrow> workflow_run option" where
  "row_into_domain H J r =
     Option.bind (kind_from_str (rr_kind r)) (\<lambda>kind.
     Option.bind (role_from_str (rr_role r)) (\<lambda>role.
     Option.bind (parse_workflow_progress (rr_status r)) (\<lambda>status.
     Option.bind (Option.bind (json_parse J (rr_expected_peers_json r)) (u_list (u_id H))) (\<lambda>expected.
     Option.bind (Option.bind (json_parse J (rr_completed_peers_json r)) (u_list (u_id H))) (\<lambda>completed.
     Option.bind (case rr_dec_party_id r of None \<Rightarrow> Some None | Some s \<Rightarrow> map_option Some (u_id H (JStr s))) (\<lambda>party.
       Some \<lparr>wr_name = rr_name r, wr_kind = kind, wr_role = role, wr_status = status, wr_step = rr_step r,
         wr_index = rr_index r, wr_total = rr_total r, wr_config_json = rr_config_json r,
         wr_coordinator_pubkey = rr_coordinator_pubkey r, wr_coordinator_instance = rr_coordinator_instance r,
         wr_expected_peers = expected, wr_completed_peers = completed, wr_dec_party_id = party, wr_error = rr_error r,
         wr_dismissed = (rr_dismissed r \<noteq> 0), wr_created_at = rr_created_at r, wr_updated_at = rr_updated_at r\<rparr>))))))"

section \<open>Statements\<close>

text \<open>The tables the statements below touch: the runs, with distinct names; the artefacts of each run; and
  whether a row of \<open>former_dec_party\<close> says that a purge runs.  The runs are kept as the values the row
  format stands for (\<open>row_roundtrip\<close>).\<close>

record store =
  workflow_runs :: "workflow_run list"
  artifacts :: "string \<Rightarrow> (string \<rightharpoonup> bytes)"
  purging :: bool

definition get_workflow_run :: "string \<Rightarrow> 'a store_scheme \<Rightarrow> workflow_run option" where
  "get_workflow_run name s = find (\<lambda>r. wr_name r = name) (workflow_runs s)"

definition get_in_progress_workflow_runs :: "'a store_scheme \<Rightarrow> workflow_run list" where
  "get_in_progress_workflow_runs s = sort_key wr_created_at (filter (\<lambda>r. wr_status r = InProgress) (workflow_runs s))"

definition get_visible_workflow_runs :: "'a store_scheme \<Rightarrow> workflow_run list" where
  "get_visible_workflow_runs s =
     sort_key (\<lambda>r. - wr_updated_at r) (filter (\<lambda>r. wr_status r = InProgress \<or> \<not> wr_dismissed r) (workflow_runs s))"

definition get_active_workflow_run :: "workflow_kind \<Rightarrow> workflow_role \<Rightarrow> 'a store_scheme \<Rightarrow> workflow_run option" where
  "get_active_workflow_run kind role s =
     (case sort_key wr_name (filter (\<lambda>r. wr_kind r = kind \<and> wr_role r = role \<and> wr_status r = InProgress) (workflow_runs s)) of
        [] \<Rightarrow> None | r # _ \<Rightarrow> Some r)"

text \<open>\<open>INSERT \<dots> ON CONFLICT DO UPDATE\<close>: a row of that name is replaced in place and keeps its
  \<open>created_at\<close>.  \<open>None\<close>: refused, a purge runs.\<close>

definition upsert_workflow_run :: "workflow_run \<Rightarrow> 'a store_scheme \<Rightarrow> 'a store_scheme option" where
  "upsert_workflow_run run s =
     (if wr_status run = InProgress \<and> purging s then None
      else Some (s\<lparr>workflow_runs :=
        (if \<exists>r \<in> set (workflow_runs s). wr_name r = wr_name run
         then map (\<lambda>r. if wr_name r = wr_name run then run\<lparr>wr_created_at := wr_created_at r\<rparr> else r) (workflow_runs s)
         else workflow_runs s @ [run])\<rparr>))"

definition set_workflow_run_status :: "string \<Rightarrow> workflow_progress \<Rightarrow> string option \<Rightarrow> int \<Rightarrow> 'a store_scheme
    \<Rightarrow> 'a store_scheme option" where
  "set_workflow_run_status name status err now s =
     (if status = InProgress \<and> purging s then None
      else let s' = s\<lparr>workflow_runs := map (\<lambda>r. if wr_name r = name
               then r\<lparr>wr_status := status, wr_error := err, wr_updated_at := now\<rparr> else r) (workflow_runs s)\<rparr> in
        Some (if status \<in> {Completed, Cancelled} then s'\<lparr>artifacts := (artifacts s')(name := Map.empty)\<rparr> else s'))"

definition set_workflow_run_dec_party_id :: "string \<Rightarrow> canton_id \<Rightarrow> 'a store_scheme \<Rightarrow> 'a store_scheme" where
  "set_workflow_run_dec_party_id name party s = s\<lparr>workflow_runs :=
     map (\<lambda>r. if wr_name r = name then r\<lparr>wr_dec_party_id := Some party\<rparr> else r) (workflow_runs s)\<rparr>"

definition dismiss_workflow_run :: "string \<Rightarrow> 'a store_scheme \<Rightarrow> 'a store_scheme" where
  "dismiss_workflow_run name s = s\<lparr>workflow_runs :=
       map (\<lambda>r. if wr_name r = name \<and> wr_status r \<noteq> InProgress then r\<lparr>wr_dismissed := True\<rparr> else r) (workflow_runs s),
     artifacts := (artifacts s)(name := Map.empty)\<rparr>"

text \<open>A transaction of one statement: what is not committed is not done.\<close>

definition transact :: "db_outcome \<Rightarrow> ('s \<Rightarrow> 's option) \<Rightarrow> 's \<Rightarrow> bool \<times> 's" where
  "transact db f s = (case db of Committed \<Rightarrow> (case f s of Some s' \<Rightarrow> (True, s') | None \<Rightarrow> (False, s)) | _ \<Rightarrow> (False, s))"

section \<open>Lemmas\<close>

text \<open>Reading what was written.\<close>

named_theorems json_simps

lemma u_str_JStr [json_simps]: "u_str (JStr s) = Some s"
  by (simp add: u_str_def)

lemma u_i32_JNum [json_simps]: "- (2 ^ 31) \<le> n \<Longrightarrow> n < 2 ^ 31 \<Longrightarrow> u_i32 (JNum n) = Some n"
  by (simp add: u_i32_def)

lemma u_option_j_option [json_simps]:
  "(\<And>v. x = Some v \<Longrightarrow> f (g v) = Some v \<and> g v \<noteq> JNull) \<Longrightarrow> u_option f (j_option g x) = Some x"
  by (cases x) (auto simp: u_option_def j_option_def split: json.splits)

lemma u_all_map: "(\<And>x. x \<in> set xs \<Longrightarrow> f (g x) = Some x) \<Longrightarrow> u_all f (map g xs) = Some xs"
  by (induction xs) auto

lemma u_list_j_list [json_simps]: "(\<And>x. x \<in> set xs \<Longrightarrow> f (g x) = Some x) \<Longrightarrow> u_list f (j_list g xs) = Some xs"
  by (simp add: u_list_def j_list_def u_all_map)

lemma u_intent_j_intent [json_simps]: "u_intent (j_intent c) = Some c"
  by (simp add: u_intent_def j_intent_def u_required_def u_field_def u_str_def)

lemma j_id_not_null [json_simps]: "j_id H i \<noteq> JNull"
  by (simp add: j_id_def)

text \<open>An id that came from a text: the ids of every document that was read are such.\<close>

definition parsed_id :: "hexlib \<Rightarrow> canton_id \<Rightarrow> bool" where
  "parsed_id H i \<longleftrightarrow> (\<exists>s. canton_id_parse H s = Inr i)"

definition i32_range :: "int \<Rightarrow> bool" where
  "i32_range n \<longleftrightarrow> - (2 ^ 31) \<le> n \<and> n < 2 ^ 31"

lemma u_id_parsed: "u_id H j = Some i \<Longrightarrow> parsed_id H i"
  by (cases "u_str j") (auto simp: u_id_def parsed_id_def split: sum.split_asm)

lemma u_i32_range: "u_i32 j = Some n \<Longrightarrow> i32_range n"
  by (auto simp: u_i32_def i32_range_def split: json.splits if_splits)

lemma u_all_ran: "u_all f js = Some xs \<Longrightarrow> x \<in> set xs \<Longrightarrow> \<exists>j. f j = Some x"
  by (induction js arbitrary: xs) (auto simp: bind_eq_Some_conv)

lemma u_list_parsed: "u_list (u_id H) j = Some xs \<Longrightarrow> x \<in> set xs \<Longrightarrow> parsed_id H x"
  by (auto simp: u_list_def split: json.splits dest!: u_all_ran u_id_parsed)

lemma u_option_parsed: "u_option (u_id H) j = Some (Some x) \<Longrightarrow> parsed_id H x"
  by (auto simp: u_option_def split: json.splits dest!: u_id_parsed)

lemma u_option_i32: "u_option u_i32 j = Some (Some x) \<Longrightarrow> i32_range x"
  by (auto simp: u_option_def split: json.splits dest!: u_i32_range)

lemma u_required_Some: "u_required k f kvs = Some x \<Longrightarrow> \<exists>j. f j = Some x"
  by (auto simp: u_required_def bind_eq_Some_conv)

lemma u_default_Some: "u_default k f d kvs = Some x \<Longrightarrow> x = d \<or> (\<exists>j. f j = Some x)"
  by (auto simp: u_default_def bind_eq_Some_conv split: option.splits)

lemmas u_dests = u_required_Some u_default_Some

context hex_codec
begin

lemma u_id_j_id: "parsed_id H i \<Longrightarrow> u_id H (j_id H i) = Some i"
  by (auto simp: parsed_id_def u_id_def j_id_def u_str_def dest: parse_sound(2))

text \<open>A row holds the run it was made from.\<close>

lemma row_roundtrip:
  assumes "\<And>i. i \<in> set (wr_expected_peers r) \<union> set (wr_completed_peers r) \<union> set_option (wr_dec_party_id r) \<Longrightarrow> parsed_id H i"
    and "\<And>xs. xs \<in> {wr_expected_peers r, wr_completed_peers r} \<Longrightarrow>
      json_parse J (json_print J (j_list (j_id H) xs)) = Some (j_list (j_id H) xs)"
  shows "row_into_domain H J (row_from_domain H J r) = Some r"
proof -
  have k: "kind_from_str (kind_str (wr_kind r)) = Some (wr_kind r)"
    by (cases "wr_kind r") (simp_all add: kind_from_str_def kind_str_def)
  have o': "role_from_str (role_str (wr_role r)) = Some (wr_role r)"
    by (cases "wr_role r") (simp_all add: role_from_str_def role_str_def)
  have p: "parse_workflow_progress (workflow_progress_str (wr_status r)) = Some (wr_status r)"
    by (cases "wr_status r") (simp_all add: parse_workflow_progress_def workflow_progress_str_def)
  have e: "u_list (u_id H) (j_list (j_id H) xs) = Some xs" if "xs \<in> {wr_expected_peers r, wr_completed_peers r}" for xs
    using that assms(1) by (auto intro!: u_list_j_list u_id_j_id)
  have d: "(case map_option (canton_id_display H) (wr_dec_party_id r) of None \<Rightarrow> Some None
      | Some s \<Rightarrow> map_option Some (u_id H (JStr s))) = Some (wr_dec_party_id r)"
    using assms(1) u_id_j_id by (cases "wr_dec_party_id r") (auto simp: j_id_def)
  show ?thesis
    using k o' p d e assms(2) by (cases r) (simp add: row_into_domain_def row_from_domain_def)
qed

end

end
