(* ===== verification/Invitations.thy ===== *)
theory Invitations
  imports Run_Store
begin

text \<open>
  Invitations, from the message that brings one to the loop that acts on it: \<open>record_invitation\<close>,
  \<open>drop_invitations_from\<close>, \<open>cancel_peer_runs_from\<close>, \<open>retry_peer_runs_from\<close>, \<open>refire_peer\<close>,
  \<open>finalize_peer_run\<close> and \<open>run_peer_listener\<close> of \<open>server/mod.rs\<close>, the handlers of
  \<open>server/handlers/invitations.rs\<close>, and their statements of \<open>db/sqlite.rs\<close>.

  The state is the cards in memory, the two tables, the queue of peer jobs, and the tasks that drive one.
  Each handler is one step here; in the program two handlers may interleave at their \<open>await\<close>s.  The end of
  every transaction (\<open>db_outcome\<close>), whether a read succeeds and the clock are arguments.
\<close>

section \<open>Data\<close>

datatype invitation_type = InvOnboarding | InvKick | InvContracts | InvDars | InvAddParty | InvChangeThreshold

definition invitation_type_str :: "invitation_type \<Rightarrow> string" where
  "invitation_type_str t = (case t of InvOnboarding \<Rightarrow> ''Onboarding'' | InvKick \<Rightarrow> ''Kick'' | InvContracts \<Rightarrow> ''Contracts''
     | InvDars \<Rightarrow> ''Dars'' | InvAddParty \<Rightarrow> ''AddParty'' | InvChangeThreshold \<Rightarrow> ''ChangeThreshold'')"

definition kind_of_invitation :: "invitation_type \<Rightarrow> workflow_kind" where
  "kind_of_invitation t = (case t of InvOnboarding \<Rightarrow> Onboarding | InvKick \<Rightarrow> Kick | InvContracts \<Rightarrow> Contracts
     | InvDars \<Rightarrow> Dars | InvAddParty \<Rightarrow> AddParty | InvChangeThreshold \<Rightarrow> ChangeThreshold)"

record pending_invitation =
  inv_id :: string
  inv_type :: invitation_type
  inv_pubkey :: string
  inv_coordinator_name :: "string option"
  inv_received_at :: int
  inv_prefix :: "string option"
  inv_participants :: "canton_id list"
  inv_dar_filenames :: "string list"
  inv_dar_hashes :: "string list"
  inv_kicked :: "canton_id option"
  inv_new_threshold :: "int option"
  inv_previous_threshold :: "int option"
  inv_confirmation :: "int option"
  inv_dec_party :: "canton_id option"
  inv_new_participant :: "canton_id option"
  inv_package_names :: "string list"
  inv_contract_intents :: "contract_deployment_intent list"
  inv_instance :: "string option"

datatype invitation_outcome = Accepted | Declined

text \<open>The columns \<open>status\<close> and \<open>handled_at\<close>: a pending row has no time, an answered one has one.\<close>

datatype invitation_status = Pending | Handled invitation_outcome int

record invitation_row =
  ir_inv :: pending_invitation
  ir_status :: invitation_status

text \<open>The payloads an invitation carries.\<close>

record onboarding_payload =
  op_prefix :: string
  op_participants :: "canton_id list"
  op_threshold :: "int option"
  op_confirmation :: "int option"
  op_instance :: "string option"

record dars_payload =
  dq_filenames :: "string list"
  dq_hashes :: "string list"
  dq_participants :: "canton_id list"
  dq_instance :: "string option"

text \<open>\<open>KickInvitePayload\<close>, \<open>AddPartyInvitePayload\<close> and \<open>ChangeThresholdInvitePayload\<close>; \<open>who\<close> is the
  kicked or the new participant, and nothing for a change of threshold.\<close>

record 'p party_payload =
  pp_dec_party :: canton_id
  pp_who :: 'p
  pp_new_threshold :: int
  pp_previous_threshold :: int
  pp_confirmation :: "int option"
  pp_participants :: "canton_id list"
  pp_instance :: "string option"

record contracts_payload =
  cp_dec_party :: canton_id
  cp_participants :: "canton_id list"
  cp_package_names :: "string list"
  cp_contract_intents :: "contract_deployment_intent list"
  cp_instance :: "string option"

datatype invitation_meta =
    MetaNone
  | MetaOnboarding onboarding_payload
  | MetaDars dars_payload
  | MetaKick "canton_id party_payload"
  | MetaContracts contracts_payload
  | MetaAddParty "canton_id party_payload"
  | MetaChangeThreshold "unit party_payload"

text \<open>Reading the payload of an invitation message.  One that does not parse counts as none.\<close>

definition onboarding_payload_from :: "hexlib \<Rightarrow> json \<Rightarrow> onboarding_payload option" where
  "onboarding_payload_from H j = (case j of JObj kvs \<Rightarrow>
     Option.bind (u_required ''prefix'' u_str kvs) (\<lambda>p.
     Option.bind (u_required ''participants'' (u_list (u_id H)) kvs) (\<lambda>ps.
     Option.bind (u_default ''threshold'' (u_option u_i32) None kvs) (\<lambda>t.
     Option.bind (u_default ''confirmation_threshold'' (u_option u_i32) None kvs) (\<lambda>c.
     Option.bind (u_default ''workflow_instance'' (u_option u_str) None kvs) (\<lambda>i.
       Some \<lparr>op_prefix = p, op_participants = ps, op_threshold = t, op_confirmation = c, op_instance = i\<rparr>)))))
   | _ \<Rightarrow> None)"

definition dars_payload_from :: "hexlib \<Rightarrow> json \<Rightarrow> dars_payload option" where
  "dars_payload_from H j = (case j of JObj kvs \<Rightarrow>
     Option.bind (u_required ''dar_filenames'' (u_list u_str) kvs) (\<lambda>fs.
     Option.bind (u_default ''dar_hashes'' (u_list u_str) [] kvs) (\<lambda>hs.
     Option.bind (u_default ''participants'' (u_list (u_id H)) [] kvs) (\<lambda>ps.
     Option.bind (u_default ''workflow_instance'' (u_option u_str) None kvs) (\<lambda>i.
       Some \<lparr>dq_filenames = fs, dq_hashes = hs, dq_participants = ps, dq_instance = i\<rparr>))))
   | _ \<Rightarrow> None)"

definition party_payload_from :: "hexlib \<Rightarrow> ((string \<times> json) list \<Rightarrow> 'p option) \<Rightarrow> json \<Rightarrow> 'p party_payload option" where
  "party_payload_from H who j = (case j of JObj kvs \<Rightarrow>
     Option.bind (u_required ''dec_party_id'' (u_id H) kvs) (\<lambda>d.
     Option.bind (who kvs) (\<lambda>w.
     Option.bind (u_required ''new_threshold'' u_i32 kvs) (\<lambda>n.
     Option.bind (u_required ''previous_threshold'' u_i32 kvs) (\<lambda>o'.
     Option.bind (u_default ''confirmation_threshold'' (u_option u_i32) None kvs) (\<lambda>c.
     Option.bind (u_default ''participants'' (u_list (u_id H)) [] kvs) (\<lambda>ps.
     Option.bind (u_default ''workflow_instance'' (u_option u_str) None kvs) (\<lambda>i.
       Some \<lparr>pp_dec_party = d, pp_who = w, pp_new_threshold = n, pp_previous_threshold = o', pp_confirmation = c,
         pp_participants = ps, pp_instance = i\<rparr>)))))))
   | _ \<Rightarrow> None)"

definition contracts_payload_from :: "hexlib \<Rightarrow> json \<Rightarrow> contracts_payload option" where
  "contracts_payload_from H j = (case j of JObj kvs \<Rightarrow>
     Option.bind (u_required ''dec_party_id'' (u_id H) kvs) (\<lambda>d.
     Option.bind (u_default ''participants'' (u_list (u_id H)) [] kvs) (\<lambda>ps.
     Option.bind (u_default ''package_names'' (u_list u_str) [] kvs) (\<lambda>ns.
     Option.bind (u_default ''contract_intents'' (u_list u_intent) [] kvs) (\<lambda>cs.
     Option.bind (u_default ''workflow_instance'' (u_option u_str) None kvs) (\<lambda>i.
       Some \<lparr>cp_dec_party = d, cp_participants = ps, cp_package_names = ns, cp_contract_intents = cs, cp_instance = i\<rparr>)))))
   | _ \<Rightarrow> None)"

definition invitation_meta_from :: "hexlib \<Rightarrow> jsonlib \<Rightarrow> invitation_type \<Rightarrow> bytes \<Rightarrow> invitation_meta" where
  "invitation_meta_from H J t p =
     (if p = [] then MetaNone else case t of
        InvOnboarding \<Rightarrow> (case Option.bind (json_parse J (bytes_str p)) (onboarding_payload_from H) of
          Some x \<Rightarrow> MetaOnboarding x | None \<Rightarrow> MetaNone)
      | InvDars \<Rightarrow> (case Option.bind (json_parse J (bytes_str p)) (dars_payload_from H) of
          Some x \<Rightarrow> MetaDars x | None \<Rightarrow> MetaNone)
      | InvKick \<Rightarrow> (case Option.bind (json_parse J (bytes_str p)) (party_payload_from H (u_required ''kicked_participant'' (u_id H))) of
          Some x \<Rightarrow> MetaKick x | None \<Rightarrow> MetaNone)
      | InvContracts \<Rightarrow> (case Option.bind (json_parse J (bytes_str p)) (contracts_payload_from H) of
          Some x \<Rightarrow> MetaContracts x | None \<Rightarrow> MetaNone)
      | InvAddParty \<Rightarrow> (case Option.bind (json_parse J (bytes_str p)) (party_payload_from H (u_required ''new_participant'' (u_id H))) of
          Some x \<Rightarrow> MetaAddParty x | None \<Rightarrow> MetaNone)
      | InvChangeThreshold \<Rightarrow> (case Option.bind (json_parse J (bytes_str p)) (party_payload_from H (\<lambda>_. Some ())) of
          Some x \<Rightarrow> MetaChangeThreshold x | None \<Rightarrow> MetaNone))"

record peer_job =
  pj_kind :: workflow_kind
  pj_name :: string
  pj_coordinator_instance :: string
  pj_coordinator_pubkey :: string

text \<open>\<open>pending_invitations\<close> are the cards in memory, \<open>invitation_rows\<close> the table, \<open>peer_jobs\<close> the queue of
  the peer listener and \<open>driving\<close> the tasks it spawned that have not ended.\<close>

record inbox = store +
  pending_invitations :: "pending_invitation list"
  invitation_rows :: "invitation_row list"
  peer_jobs :: "peer_job list"
  driving :: "peer_job list"

section \<open>Statements\<close>

definition write_invitation :: "pending_invitation \<Rightarrow> invitation_status \<Rightarrow> inbox \<Rightarrow> inbox" where
  "write_invitation invite st s = s\<lparr>invitation_rows :=
     filter (\<lambda>r. inv_id (ir_inv r) \<noteq> inv_id invite) (invitation_rows s) @ [\<lparr>ir_inv = invite, ir_status = st\<rparr>]\<rparr>"

definition upsert_pending_invitation :: "pending_invitation \<Rightarrow> inbox \<Rightarrow> inbox" where
  "upsert_pending_invitation invite s = write_invitation invite Pending s"

definition insert_handled_invitation :: "pending_invitation \<Rightarrow> invitation_outcome \<Rightarrow> int \<Rightarrow> inbox \<Rightarrow> inbox" where
  "insert_handled_invitation invite outcome handled_at s = write_invitation invite (Handled outcome handled_at) s"

definition delete_pending_invitation :: "string \<Rightarrow> inbox \<Rightarrow> inbox" where
  "delete_pending_invitation i s = s\<lparr>invitation_rows :=
     filter (\<lambda>r. \<not> (inv_id (ir_inv r) = i \<and> ir_status r = Pending)) (invitation_rows s)\<rparr>"

definition delete_pending_invitations_by_coordinator :: "string \<Rightarrow> inbox \<Rightarrow> inbox" where
  "delete_pending_invitations_by_coordinator pk s = s\<lparr>invitation_rows :=
     filter (\<lambda>r. \<not> (inv_pubkey (ir_inv r) = pk \<and> ir_status r = Pending)) (invitation_rows s)\<rparr>"

definition mark_invitation_handled :: "string \<Rightarrow> invitation_outcome \<Rightarrow> int \<Rightarrow> inbox \<Rightarrow> bool \<times> inbox" where
  "mark_invitation_handled i outcome handled_at s =
     (\<exists>r \<in> set (invitation_rows s). inv_id (ir_inv r) = i \<and> ir_status r = Pending,
      s\<lparr>invitation_rows := map (\<lambda>r. if inv_id (ir_inv r) = i \<and> ir_status r = Pending
        then r\<lparr>ir_status := Handled outcome handled_at\<rparr> else r) (invitation_rows s)\<rparr>)"

definition handled :: "invitation_row \<Rightarrow> bool" where
  "handled r \<longleftrightarrow> ir_status r \<noteq> Pending"

definition handled_at :: "invitation_row \<Rightarrow> int" where
  "handled_at r = (case ir_status r of Handled _ t \<Rightarrow> t | Pending \<Rightarrow> 0)"

text \<open>\<open>ORDER BY handled_at DESC, id ASC\<close>.\<close>

definition history :: "invitation_row list \<Rightarrow> invitation_row list" where
  "history rows = sort_key (\<lambda>r. (- handled_at r, inv_id (ir_inv r))) (filter handled rows)"

definition get_handled_invitations :: "nat \<Rightarrow> inbox \<Rightarrow> invitation_row list" where
  "get_handled_invitations limit s = take limit (history (invitation_rows s))"

definition prune_handled_invitations :: "int \<Rightarrow> inbox \<Rightarrow> inbox" where
  "prune_handled_invitations keep s =
     (let kept = map (\<lambda>r. inv_id (ir_inv r)) (take (nat (max keep 0)) (history (invitation_rows s))) in
      s\<lparr>invitation_rows := filter (\<lambda>r. \<not> handled r \<or> inv_id (ir_inv r) \<in> set kept) (invitation_rows s)\<rparr>)"

section \<open>Receiving\<close>

definition MAX_PENDING_INVITES_PER_COORDINATOR :: nat where "MAX_PENDING_INVITES_PER_COORDINATOR = 16"

text \<open>A card with nothing of the payload, and the fields each kind of payload fills in.\<close>

definition blank_invitation :: "invitation_type \<Rightarrow> string \<Rightarrow> int \<Rightarrow> pending_invitation" where
  "blank_invitation t pk now = \<lparr>inv_id = [], inv_type = t, inv_pubkey = pk, inv_coordinator_name = None,
     inv_received_at = now, inv_prefix = None, inv_participants = [], inv_dar_filenames = [], inv_dar_hashes = [],
     inv_kicked = None, inv_new_threshold = None, inv_previous_threshold = None, inv_confirmation = None,
     inv_dec_party = None, inv_new_participant = None, inv_package_names = [], inv_contract_intents = [],
     inv_instance = None\<rparr>"

definition party_fields :: "'p party_payload \<Rightarrow> pending_invitation \<Rightarrow> pending_invitation" where
  "party_fields p i = i\<lparr>inv_new_threshold := Some (pp_new_threshold p), inv_previous_threshold := Some (pp_previous_threshold p),
     inv_confirmation := pp_confirmation p, inv_dec_party := Some (pp_dec_party p), inv_participants := pp_participants p,
     inv_instance := pp_instance p\<rparr>"

definition apply_meta :: "invitation_meta \<Rightarrow> pending_invitation \<Rightarrow> pending_invitation" where
  "apply_meta m i = (case m of
     MetaNone \<Rightarrow> i
   | MetaOnboarding p \<Rightarrow> i\<lparr>inv_prefix := Some (op_prefix p), inv_participants := op_participants p,
       inv_new_threshold := op_threshold p, inv_confirmation := op_confirmation p, inv_instance := op_instance p\<rparr>
   | MetaDars p \<Rightarrow> i\<lparr>inv_dar_filenames := dq_filenames p, inv_dar_hashes := dq_hashes p,
       inv_participants := dq_participants p, inv_instance := dq_instance p\<rparr>
   | MetaKick p \<Rightarrow> (party_fields p i)\<lparr>inv_kicked := Some (pp_who p)\<rparr>
   | MetaContracts p \<Rightarrow> i\<lparr>inv_dec_party := Some (cp_dec_party p), inv_participants := cp_participants p,
       inv_package_names := cp_package_names p, inv_contract_intents := cp_contract_intents p, inv_instance := cp_instance p\<rparr>
   | MetaAddParty p \<Rightarrow> (party_fields p i)\<lparr>inv_new_participant := Some (pp_who p)\<rparr>
   | MetaChangeThreshold p \<Rightarrow> party_fields p i)"

definition invitation_id :: "invitation_type \<Rightarrow> string \<Rightarrow> string option \<Rightarrow> string" where
  "invitation_id t pk inst = map lower_char (invitation_type_str t) @ ''-'' @ take 16 pk @
     (case inst of Some i \<Rightarrow> ''-'' @ i | None \<Rightarrow> [])"

definition make_invitation :: "int \<Rightarrow> invitation_type \<Rightarrow> string \<Rightarrow> invitation_meta \<Rightarrow> pending_invitation" where
  "make_invitation now t pk meta = (let i = apply_meta meta (blank_invitation t pk now) in
     i\<lparr>inv_id := invitation_id t pk (inv_instance i)\<rparr>)"

text \<open>The cards to evict: the oldest of the sender's, down to the cap.\<close>

definition evicted :: "string \<Rightarrow> pending_invitation list \<Rightarrow> string list" where
  "evicted pk invs =
     (let from_sender = map (\<lambda>i. (inv_received_at i, inv_id i)) (filter (\<lambda>i. inv_pubkey i = pk) invs) in
      if length from_sender > MAX_PENDING_INVITES_PER_COORDINATOR
      then map snd (take (length from_sender - MAX_PENDING_INVITES_PER_COORDINATOR) (sort_key fst from_sender)) else [])"

definition record_invitation :: "db_outcome \<Rightarrow> db_outcome \<Rightarrow> int \<Rightarrow> invitation_type \<Rightarrow> string \<Rightarrow> invitation_meta
    \<Rightarrow> inbox \<Rightarrow> inbox" where
  "record_invitation db1 db2 now t pk meta s =
     (let invite = make_invitation now t pk meta;
          s1 = snd (transact db1 (\<lambda>s. Some (upsert_pending_invitation invite s)) s);
          invs = filter (\<lambda>i. inv_id i \<noteq> inv_id invite) (pending_invitations s1) @ [invite];
          out = evicted pk invs;
          s2 = s1\<lparr>pending_invitations := filter (\<lambda>i. inv_id i \<notin> set out) invs\<rparr> in
      if out = [] then s2 else snd (transact db2 (\<lambda>s. Some (fold delete_pending_invitation out s)) s2))"

section \<open>Cancelling and retrying\<close>

definition invitation_matches :: "string \<Rightarrow> string \<Rightarrow> pending_invitation \<Rightarrow> bool" where
  "invitation_matches pk inst i \<longleftrightarrow> inv_pubkey i = pk \<and> (inst = [] \<or> inv_instance i = Some inst)"

definition drop_invitations_from :: "db_outcome \<Rightarrow> string \<Rightarrow> string \<Rightarrow> inbox \<Rightarrow> inbox" where
  "drop_invitations_from db pk inst s =
     (let dropped = map inv_id (filter (invitation_matches pk inst) (pending_invitations s));
          s1 = s\<lparr>pending_invitations := filter (\<lambda>i. \<not> invitation_matches pk inst i) (pending_invitations s)\<rparr> in
      snd (transact db (\<lambda>s. Some (if inst = [] then delete_pending_invitations_by_coordinator pk s
                                  else fold delete_pending_invitation dropped s)) s1))"

definition run_matches :: "string \<Rightarrow> string \<Rightarrow> workflow_run \<Rightarrow> bool" where
  "run_matches pk inst r \<longleftrightarrow> wr_role r = Peer \<and> wr_coordinator_pubkey r = Some pk \<and>
     (inst = [] \<or> wr_coordinator_instance r = Some inst)"

text \<open>One transaction per run; \<open>db\<close> gives its end by the run's name.  \<open>loaded\<close>: the read succeeds.\<close>

definition cancel_peer_run :: "(string \<Rightarrow> db_outcome) \<Rightarrow> int \<Rightarrow> workflow_run \<Rightarrow> inbox \<Rightarrow> inbox" where
  "cancel_peer_run db now r s = snd (transact (db (wr_name r))
     (set_workflow_run_status (wr_name r) Cancelled (Some ''Coordinator cancelled the workflow'') now) s)"

definition cancel_peer_runs_from :: "bool \<Rightarrow> (string \<Rightarrow> db_outcome) \<Rightarrow> int \<Rightarrow> string \<Rightarrow> string \<Rightarrow> inbox \<Rightarrow> inbox" where
  "cancel_peer_runs_from loaded db now pk inst s =
     (if \<not> loaded then s
      else fold (cancel_peer_run db now)
             (filter (run_matches pk inst) (get_in_progress_workflow_runs s)) s)"

definition send_job :: "bool \<Rightarrow> peer_job \<Rightarrow> inbox \<Rightarrow> inbox" where
  "send_job listening j s = (if listening then s\<lparr>peer_jobs := peer_jobs s @ [j]\<rparr> else s)"

definition refire_peer :: "bool \<Rightarrow> workflow_run \<Rightarrow> inbox \<Rightarrow> inbox" where
  "refire_peer listening r s = (case wr_coordinator_pubkey r of
     None \<Rightarrow> s
   | Some pk \<Rightarrow> send_job listening \<lparr>pj_kind = wr_kind r, pj_name = wr_name r,
       pj_coordinator_instance = (case wr_coordinator_instance r of Some i \<Rightarrow> i | None \<Rightarrow> []), pj_coordinator_pubkey = pk\<rparr> s)"

definition retry_peer_run :: "bool \<Rightarrow> (string \<Rightarrow> db_outcome) \<Rightarrow> int \<Rightarrow> workflow_run \<Rightarrow> inbox \<Rightarrow> inbox" where
  "retry_peer_run listening db now r s =
     (case transact (db (wr_name r)) (set_workflow_run_status (wr_name r) InProgress None now) s of
        (True, s') \<Rightarrow> refire_peer listening r s' | (False, s') \<Rightarrow> s')"

definition retry_peer_runs_from :: "bool \<Rightarrow> bool \<Rightarrow> (string \<Rightarrow> db_outcome) \<Rightarrow> int \<Rightarrow> string \<Rightarrow> string \<Rightarrow> inbox \<Rightarrow> inbox" where
  "retry_peer_runs_from loaded listening db now pk inst s =
     (if \<not> loaded then s
      else fold (retry_peer_run listening db now)
             (filter (\<lambda>r. wr_status r = Failed \<and> run_matches pk inst r) (get_visible_workflow_runs s)) s)"

definition set_run_status :: "db_outcome \<Rightarrow> string \<Rightarrow> workflow_progress \<Rightarrow> string option \<Rightarrow> int \<Rightarrow> inbox \<Rightarrow> bool \<times> inbox" where
  "set_run_status db name status err now s = transact db (set_workflow_run_status name status err now) s"

definition mark_failed_via_pool :: "db_outcome \<Rightarrow> string \<Rightarrow> string \<Rightarrow> int \<Rightarrow> inbox \<Rightarrow> inbox" where
  "mark_failed_via_pool db name err now s = snd (set_run_status db name Failed (Some err) now s)"

text \<open>At the start of the node the runs that were in progress are taken up again: the peer-side ones here,
  the others by \<open>respawn_coordinator\<close>.\<close>

definition recover_in_progress_workflows :: "bool \<Rightarrow> bool \<Rightarrow> inbox \<Rightarrow> inbox" where
  "recover_in_progress_workflows loaded listening s =
     (if \<not> loaded then s
      else fold (\<lambda>r s. case wr_role r of Coordinator \<Rightarrow> s | Peer \<Rightarrow> refire_peer listening r s)
             (get_in_progress_workflow_runs s) s)"

section \<open>Answering\<close>

definition MAX_HANDLED_INVITATIONS :: int where "MAX_HANDLED_INVITATIONS = 200"

definition persist_handled_invitation :: "db_outcome \<Rightarrow> pending_invitation \<Rightarrow> invitation_outcome \<Rightarrow> int \<Rightarrow> inbox \<Rightarrow> inbox" where
  "persist_handled_invitation db invite outcome now s = snd (transact db (\<lambda>s.
     case mark_invitation_handled (inv_id invite) outcome now s of (marked, s1) \<Rightarrow>
       Some (prune_handled_invitations MAX_HANDLED_INVITATIONS
         (if marked then s1 else insert_handled_invitation invite outcome now s1))) s)"

definition restore_invitation :: "db_outcome \<Rightarrow> pending_invitation \<Rightarrow> inbox \<Rightarrow> inbox" where
  "restore_invitation db invite s =
     (let s1 = snd (transact db (\<lambda>s. Some (upsert_pending_invitation invite s)) s) in
      if \<exists>i \<in> set (pending_invitations s1). inv_id i = inv_id invite then s1
      else s1\<lparr>pending_invitations := pending_invitations s1 @ [invite]\<rparr>)"

definition step_total_for :: "workflow_kind \<Rightarrow> int" where
  "step_total_for k = (case k of Onboarding \<Rightarrow> step_total onboarding_ops | Kick \<Rightarrow> step_total kick_ops
     | Contracts \<Rightarrow> step_total contracts_ops | Dars \<Rightarrow> step_total dars_ops | AddParty \<Rightarrow> step_total add_party_ops
     | ChangeThreshold \<Rightarrow> step_total change_threshold_ops)"

text \<open>\<open>to_string\<close> of an \<open>i64\<close>.\<close>

fun nat_str :: "nat \<Rightarrow> string" where
  "nat_str n = (if n < 10 then [char_of (48 + n)] else nat_str (n div 10) @ [char_of (48 + n mod 10)])"

declare nat_str.simps [simp del]

definition i64_str :: "int \<Rightarrow> string" where
  "i64_str n = (if n < 0 then ''-'' @ nat_str (nat (- n)) else nat_str (nat n))"

definition peer_run_name :: "workflow_kind \<Rightarrow> string \<Rightarrow> string \<Rightarrow> string" where
  "peer_run_name k pk suffix = ''peer-'' @ map lower_char (kind_str k) @ ''-'' @ take 16 pk @ ''-'' @ suffix"

definition run_suffix :: "int \<Rightarrow> string option \<Rightarrow> string" where
  "run_suffix now inst = (case inst of Some i \<Rightarrow> if i \<noteq> [] then i else i64_str now | None \<Rightarrow> i64_str now)"

text \<open>The document stored with the run.\<close>

definition invitation_json :: "hexlib \<Rightarrow> pending_invitation \<Rightarrow> json" where
  "invitation_json H i = JObj
    [(''prefix'', j_option JStr (inv_prefix i)),
     (''participants'', j_list (j_id H) (inv_participants i)),
     (''dar_filenames'', j_list JStr (inv_dar_filenames i)),
     (''dar_hashes'', j_list JStr (inv_dar_hashes i)),
     (''participant_id'', j_option (j_id H) (inv_kicked i)),
     (''new_participant_id'', j_option (j_id H) (inv_new_participant i)),
     (''new_threshold'', j_option JNum (inv_new_threshold i)),
     (''confirmation_threshold'', j_option JNum (inv_confirmation i)),
     (''previous_threshold'', j_option JNum (inv_previous_threshold i)),
     (''package_names'', j_list JStr (inv_package_names i)),
     (''contract_intents'', j_list j_intent (inv_contract_intents i))]"

definition peer_workflow_run :: "hexlib \<Rightarrow> jsonlib \<Rightarrow> int \<Rightarrow> pending_invitation \<Rightarrow> workflow_run" where
  "peer_workflow_run H J now i = (let kind = kind_of_invitation (inv_type i) in
     \<lparr>wr_name = peer_run_name kind (inv_pubkey i) (run_suffix now (inv_instance i)), wr_kind = kind, wr_role = Peer,
      wr_status = InProgress, wr_step = ''Active'', wr_index = 0, wr_total = step_total_for kind,
      wr_config_json = json_print J (invitation_json H i), wr_coordinator_pubkey = Some (inv_pubkey i),
      wr_coordinator_instance = inv_instance i, wr_expected_peers = inv_participants i, wr_completed_peers = [],
      wr_dec_party_id = inv_dec_party i, wr_error = None, wr_dismissed = False, wr_created_at = now, wr_updated_at = now\<rparr>)"

definition insert_peer_run :: "hexlib \<Rightarrow> jsonlib \<Rightarrow> db_outcome \<Rightarrow> int \<Rightarrow> pending_invitation \<Rightarrow> inbox \<Rightarrow> string option \<times> inbox" where
  "insert_peer_run H J db now i s = (let run = peer_workflow_run H J now i in
     case transact db (upsert_workflow_run run) s of
       (True, s') \<Rightarrow> (Some (wr_name run), s') | (False, s') \<Rightarrow> (None, s'))"

text \<open>What surrounds an accept: the time of each clock read, the end of each transaction,
  whether the runs could be read and whether the peer listener takes jobs.\<close>

record accept_env =
  ae_handled_at :: int
  ae_handled_db :: db_outcome
  ae_loaded :: bool
  ae_now :: int
  ae_insert_db :: db_outcome
  ae_listening :: bool
  ae_failed_at :: int
  ae_failed_db :: db_outcome
  ae_restore_db :: db_outcome

definition take_card :: "string \<Rightarrow> inbox \<Rightarrow> (pending_invitation \<times> inbox) option" where
  "take_card i s = (case List.extract (\<lambda>c. inv_id c = i) (pending_invitations s) of
     None \<Rightarrow> None | Some (before, c, after) \<Rightarrow> Some (c, s\<lparr>pending_invitations := before @ after\<rparr>))"

definition already_running :: "string \<Rightarrow> string \<Rightarrow> workflow_run list \<Rightarrow> bool" where
  "already_running pk inst rs \<longleftrightarrow> list_ex (\<lambda>r. wr_role r = Peer \<and> wr_coordinator_instance r = Some inst \<and>
     wr_coordinator_pubkey r = Some pk) rs"

definition accept_card :: "hexlib \<Rightarrow> jsonlib \<Rightarrow> accept_env \<Rightarrow> pending_invitation \<Rightarrow> inbox \<Rightarrow> nat \<times> inbox" where
  "accept_card H J E invite s0 =
     (let s = persist_handled_invitation (ae_handled_db E) invite Accepted (ae_handled_at E) s0 in
      if (case inv_instance invite of Some i \<Rightarrow> i \<noteq> [] \<and>
            already_running (inv_pubkey invite) i (if ae_loaded E then get_in_progress_workflow_runs s else []) | None \<Rightarrow> False)
      then (409, s)
      else case insert_peer_run H J (ae_insert_db E) (ae_now E) invite s of
        (None, s1) \<Rightarrow> (500, restore_invitation (ae_restore_db E) invite s1)
      | (Some name, s1) \<Rightarrow>
          if ae_listening E
          then (200, send_job True \<lparr>pj_kind = kind_of_invitation (inv_type invite), pj_name = name,
                  pj_coordinator_instance = (case inv_instance invite of Some i \<Rightarrow> i | None \<Rightarrow> []),
                  pj_coordinator_pubkey = inv_pubkey invite\<rparr> s1)
          else (500, restore_invitation (ae_restore_db E) invite
                  (mark_failed_via_pool (ae_failed_db E) name ''Peer workflow listener unavailable'' (ae_failed_at E) s1)))"

text \<open>\<open>refusal\<close> is what \<open>require_admin\<close> answers a caller that is not an administrator.\<close>

definition accept_invitation :: "hexlib \<Rightarrow> jsonlib \<Rightarrow> accept_env \<Rightarrow> nat option \<Rightarrow> string \<Rightarrow> inbox \<Rightarrow> nat \<times> inbox" where
  "accept_invitation H J E refusal i s = (case refusal of
     Some status \<Rightarrow> (status, s)
   | None \<Rightarrow> (case take_card i s of None \<Rightarrow> (404, s) | Some (invite, s1) \<Rightarrow> accept_card H J E invite s1))"

text \<open>The message \<open>notify_coordinator_of_decline\<close> sends, if the coordinator is a known peer (\<open>known\<close>).\<close>

definition decline_notice :: "(string \<Rightarrow> bool) \<Rightarrow> pending_invitation \<Rightarrow> (string \<times> string \<times> decline_payload) option" where
  "decline_notice known invite = (if known (inv_pubkey invite)
     then Some (inv_pubkey invite, (case inv_instance invite of Some i \<Rightarrow> i | None \<Rightarrow> []),
       \<lparr>dp_kind = kind_of_invitation (inv_type invite), dp_reason = None, dp_instance = inv_instance invite, dp_abandoned = False\<rparr>)
     else None)"

definition decline_invitation :: "(string \<Rightarrow> bool) \<Rightarrow> db_outcome \<Rightarrow> int \<Rightarrow> nat option \<Rightarrow> string \<Rightarrow> inbox
    \<Rightarrow> nat \<times> inbox \<times> (string \<times> string \<times> decline_payload) option" where
  "decline_invitation known db now refusal i s = (case refusal of
     Some status \<Rightarrow> (status, s, None)
   | None \<Rightarrow> (case take_card i s of
        None \<Rightarrow> (404, s, None)
      | Some (invite, s1) \<Rightarrow> (200, persist_handled_invitation db invite Declined now s1, decline_notice known invite)))"

section \<open>The peer listener\<close>

definition finalize_peer_run :: "db_outcome \<Rightarrow> string \<Rightarrow> bool \<Rightarrow> string option \<Rightarrow> int \<Rightarrow> inbox \<Rightarrow> inbox" where
  "finalize_peer_run db name success err now s =
     snd (transact db (set_workflow_run_status name (if success then Completed else Failed) err now) s)"

text \<open>The body of a spawned task: the coordinator's peer record is looked up, then \<open>start_peer\<close> runs (\<open>run\<close>).\<close>

definition peer_task :: "string + 'p option \<Rightarrow> ('p \<Rightarrow> string + unit) \<Rightarrow> bool \<times> string option" where
  "peer_task found run = (case found of
     Inl e \<Rightarrow> (False, Some e)
   | Inr None \<Rightarrow> (False, Some ''Coordinator not found in peer database'')
   | Inr (Some p) \<Rightarrow> (case run p of Inr _ \<Rightarrow> (True, None) | Inl e \<Rightarrow> (False, Some e)))"

definition spawn_peer :: "inbox \<Rightarrow> inbox" where
  "spawn_peer s = (case peer_jobs s of [] \<Rightarrow> s | j # js \<Rightarrow> s\<lparr>peer_jobs := js, driving := driving s @ [j]\<rparr>)"

definition end_peer :: "db_outcome \<Rightarrow> peer_job \<Rightarrow> bool \<times> string option \<Rightarrow> int \<Rightarrow> inbox \<Rightarrow> inbox" where
  "end_peer db j result now s =
     finalize_peer_run db (pj_name j) (fst result) (snd result) now (s\<lparr>driving := remove1 j (driving s)\<rparr>)"

section \<open>Reading a DAR before accepting\<close>

text \<open>\<open>pinned_dar_hash\<close>: \<open>Inr None\<close> when the invitation pins none.\<close>

definition pinned_dar_hash :: "string list \<Rightarrow> string list \<Rightarrow> nat \<Rightarrow> unit + string option" where
  "pinned_dar_hash names hashes index =
     (if hashes = [] then Inr None
      else if length hashes \<noteq> length names then Inl ()
      else if index < length hashes then Inr (Some (hashes ! index)) else Inl ())"

text \<open>\<open>get_invitation_dar\<close>: \<open>fetch\<close> is the request over Noise to the coordinator found under its key; the
  answer is the status, the file and whether it is served unpinned.\<close>

definition get_invitation_dar :: "(bytes \<Rightarrow> string) \<Rightarrow> (string \<Rightarrow> 'p option) \<Rightarrow> ('p \<Rightarrow> string \<times> nat \<times> string \<Rightarrow> string + bytes)
    \<Rightarrow> nat option \<Rightarrow> string \<Rightarrow> nat \<Rightarrow> inbox \<Rightarrow> nat + string \<times> bytes \<times> bool" where
  "get_invitation_dar hash coordinator fetch refusal i index s = (case refusal of Some status \<Rightarrow> Inl status | None \<Rightarrow>
     (case find (\<lambda>c. inv_id c = i) (pending_invitations s) of None \<Rightarrow> Inl 404 | Some invite \<Rightarrow>
       if \<not> index < length (inv_dar_filenames invite) then Inl 404 else
       let filename = inv_dar_filenames invite ! index in
       (case pinned_dar_hash (inv_dar_filenames invite) (inv_dar_hashes invite) index of Inl _ \<Rightarrow> Inl 422 | Inr expected \<Rightarrow>
         (case inv_instance invite of None \<Rightarrow> Inl 404 | Some inst \<Rightarrow>
           (case coordinator (inv_pubkey invite) of None \<Rightarrow> Inl 502 | Some p \<Rightarrow>
             (case fetch p (inst, index, filename) of Inl _ \<Rightarrow> Inl 502 | Inr dar \<Rightarrow>
               (case expected of
                  None \<Rightarrow> Inr (filename, dar, True)
                | Some h \<Rightarrow> if hash dar \<noteq> h then Inl 502 else Inr (filename, dar, False))))))))"

section \<open>Histories\<close>

definition get_all_pending_invitations :: "inbox \<Rightarrow> pending_invitation list" where
  "get_all_pending_invitations s =
     sort_key inv_received_at (map ir_inv (filter (\<lambda>r. ir_status r = Pending) (invitation_rows s)))"

text \<open>A start of the node: what was only in memory is gone, the cards and the peer runs are read back.\<close>

definition boot :: "bool \<Rightarrow> bool \<Rightarrow> bool \<Rightarrow> inbox \<Rightarrow> inbox" where
  "boot cards_loaded loaded listening s =
     recover_in_progress_workflows loaded listening
       (s\<lparr>pending_invitations := (if cards_loaded then get_all_pending_invitations s else []), peer_jobs := [], driving := []\<rparr>)"

text \<open>What can happen to the peer side of a node.  \<open>Cancelled_by\<close> and \<open>Retried_by\<close> are the arms of the listener
  for \<open>CancelInvite\<close> and \<open>RetryWorkflow\<close>.\<close>

datatype event =
    Invited db_outcome db_outcome int invitation_type string bytes
  | Cancelled_by db_outcome bool "string \<Rightarrow> db_outcome" int string string
  | Retried_by bool bool "string \<Rightarrow> db_outcome" int string string
  | Accepts accept_env "nat option" string
  | Declines "string \<Rightarrow> bool" db_outcome int "nat option" string
  | Spawns
  | Ends db_outcome peer_job "bool \<times> string option" int
  | Purge bool
  | Boots bool bool bool

definition happen :: "hexlib \<Rightarrow> jsonlib \<Rightarrow> event \<Rightarrow> inbox \<Rightarrow> inbox" where
  "happen H J e s = (case e of
     Invited db1 db2 now t pk p \<Rightarrow> record_invitation db1 db2 now t pk (invitation_meta_from H J t p) s
   | Cancelled_by db loaded dbs now pk inst \<Rightarrow> cancel_peer_runs_from loaded dbs now pk inst (drop_invitations_from db pk inst s)
   | Retried_by loaded listening dbs now pk inst \<Rightarrow> retry_peer_runs_from loaded listening dbs now pk inst s
   | Accepts E refusal i \<Rightarrow> snd (accept_invitation H J E refusal i s)
   | Declines known db now refusal i \<Rightarrow> fst (snd (decline_invitation known db now refusal i s))
   | Spawns \<Rightarrow> spawn_peer s
   | Ends db j result now \<Rightarrow> if j \<in> set (driving s) then end_peer db j result now s else s
   | Purge b \<Rightarrow> s\<lparr>purging := b\<rparr>
   | Boots cards_loaded loaded listening \<Rightarrow> boot cards_loaded loaded listening s)"

definition inbox_empty :: inbox where
  "inbox_empty = \<lparr>workflow_runs = [], artifacts = (\<lambda>_. Map.empty), purging = False, pending_invitations = [],
     invitation_rows = [], peer_jobs = [], driving = []\<rparr>"

section \<open>Consent\<close>

text \<open>What is true of a card whose payload was read from a message.\<close>

definition good_card :: "hexlib \<Rightarrow> pending_invitation \<Rightarrow> bool" where
  "good_card H c \<longleftrightarrow> (\<forall>i \<in> set (inv_participants c) \<union> set_option (inv_kicked c) \<union> set_option (inv_new_participant c)
       \<union> set_option (inv_dec_party c). parsed_id H i) \<and>
     (\<forall>n \<in> set_option (inv_new_threshold c) \<union> set_option (inv_confirmation c). i32_range n)"

lemmas reader_defs = onboarding_payload_from_def dars_payload_from_def party_payload_from_def contracts_payload_from_def

lemma read_ids:
  "u_required k (u_id H) kvs = Some i \<Longrightarrow> parsed_id H i"
  "u_required k (u_list (u_id H)) kvs = Some ps \<Longrightarrow> x \<in> set ps \<Longrightarrow> parsed_id H x"
  "u_default k (u_list (u_id H)) [] kvs = Some ps \<Longrightarrow> x \<in> set ps \<Longrightarrow> parsed_id H x"
  "u_required k u_i32 kvs = Some n \<Longrightarrow> i32_range n"
  "u_default k (u_option u_i32) None kvs = Some (Some n) \<Longrightarrow> i32_range n"
  by (auto dest!: u_dests dest: u_id_parsed u_list_parsed u_i32_range u_option_i32)

lemma onboarding_payload_good:
  "onboarding_payload_from H j = Some p \<Longrightarrow> (\<forall>i \<in> set (op_participants p). parsed_id H i) \<and>
     (\<forall>n \<in> set_option (op_threshold p) \<union> set_option (op_confirmation p). i32_range n)"
  by (auto simp: onboarding_payload_from_def bind_eq_Some_conv dest: read_ids split: json.splits)

lemma dars_payload_good: "dars_payload_from H j = Some p \<Longrightarrow> (\<forall>i \<in> set (dq_participants p). parsed_id H i)"
  by (auto simp: dars_payload_from_def bind_eq_Some_conv dest: read_ids split: json.splits)

lemma contracts_payload_good:
  "contracts_payload_from H j = Some p \<Longrightarrow> parsed_id H (cp_dec_party p) \<and> (\<forall>i \<in> set (cp_participants p). parsed_id H i)"
  by (auto simp: contracts_payload_from_def bind_eq_Some_conv dest: read_ids split: json.splits)

lemma party_payload_good:
  "party_payload_from H w j = Some p \<Longrightarrow> parsed_id H (pp_dec_party p) \<and> (\<forall>i \<in> set (pp_participants p). parsed_id H i) \<and>
     i32_range (pp_new_threshold p) \<and> (\<forall>n \<in> set_option (pp_confirmation p). i32_range n) \<and> (\<exists>kvs. w kvs = Some (pp_who p))"
  by (auto simp: party_payload_from_def bind_eq_Some_conv dest: read_ids split: json.splits)

lemma received_good: "good_card H (make_invitation now t pk (invitation_meta_from H J t p))"
  by (cases t) (auto simp: good_card_def make_invitation_def Let_def invitation_meta_from_def apply_meta_def
      blank_invitation_def party_fields_def bind_eq_Some_conv split: option.splits
      dest!: onboarding_payload_good dars_payload_good contracts_payload_good party_payload_good dest: read_ids)

context hex_codec
begin

text \<open>The document stored with the run says what the card said.\<close>

lemma config_readback:
  assumes "good_card H c"
  shows "peer_run_config_from H (invitation_json H c) = Some \<lparr>cfg_contract_intents = inv_contract_intents c,
    cfg_prefix = inv_prefix c, cfg_participants = inv_participants c, cfg_dar_filenames = inv_dar_filenames c,
    cfg_dar_hashes = inv_dar_hashes c, cfg_participant_id = inv_kicked c, cfg_new_participant_id = inv_new_participant c,
    cfg_new_threshold = inv_new_threshold c, cfg_confirmation_threshold = inv_confirmation c\<rparr>"
  using assms
  by (simp add: peer_run_config_from_def invitation_json_def u_default_def u_field_def json_simps u_id_j_id
      good_card_def i32_range_def)

end

subsection \<open>What the operations leave alone\<close>

lemma transact_snd: "(\<And>s'. f s = Some s' \<Longrightarrow> g s' = g s) \<Longrightarrow> g (snd (transact db f s)) = g s"
  by (cases db) (auto simp: transact_def split: option.splits)

lemma transact_True: "transact db f s = (True, s') \<longleftrightarrow> db = Committed \<and> f s = Some s'"
  by (cases db) (auto simp: transact_def split: option.splits)

lemma transact_False: "transact db f s = (False, s') \<Longrightarrow> s' = s"
  by (cases db) (auto simp: transact_def split: option.splits)

lemma snd_transact: "snd (transact db f s) = (if db = Committed then (case f s of Some s' \<Rightarrow> s' | None \<Rightarrow> s) else s)"
  by (cases db) (auto simp: transact_def split: option.splits)

lemmas card_statement_defs = write_invitation_def upsert_pending_invitation_def insert_handled_invitation_def
  delete_pending_invitation_def delete_pending_invitations_by_coordinator_def mark_invitation_handled_def
  prune_handled_invitations_def

lemma rows_only:
  "\<exists>xs. upsert_pending_invitation c s = s\<lparr>invitation_rows := xs\<rparr>"
  "\<exists>xs. insert_handled_invitation c out now s = s\<lparr>invitation_rows := xs\<rparr>"
  "\<exists>xs. delete_pending_invitation i s = s\<lparr>invitation_rows := xs\<rparr>"
  "\<exists>xs. delete_pending_invitations_by_coordinator pk s = s\<lparr>invitation_rows := xs\<rparr>"
  "\<exists>xs. snd (mark_invitation_handled i out now s) = s\<lparr>invitation_rows := xs\<rparr>"
  "\<exists>xs. prune_handled_invitations k s = s\<lparr>invitation_rows := xs\<rparr>"
  unfolding card_statement_defs Let_def snd_conv by blast+

lemma persist_handled_rows_only: "\<exists>xs. persist_handled_invitation db c out now s = s\<lparr>invitation_rows := xs\<rparr>"
proof -
  obtain m s1 where m: "mark_invitation_handled (inv_id c) out now s = (m, s1)" by (rule prod.exhaust)
  obtain xs where "s1 = s\<lparr>invitation_rows := xs\<rparr>" using rows_only(5) [of "inv_id c" out now s] m by auto
  moreover obtain ys where "(if m then s1 else insert_handled_invitation c out now s1) = s1\<lparr>invitation_rows := ys\<rparr>"
    using rows_only(2) [of c out now s1] by (cases m) (auto intro: that [of "invitation_rows s1"])
  moreover obtain zs where "prune_handled_invitations MAX_HANDLED_INVITATIONS (s1\<lparr>invitation_rows := ys\<rparr>) = s1\<lparr>invitation_rows := zs\<rparr>"
    using rows_only(6) [of MAX_HANDLED_INVITATIONS "s1\<lparr>invitation_rows := ys\<rparr>"] by auto
  ultimately have e: "prune_handled_invitations MAX_HANDLED_INVITATIONS (if m then s1 else insert_handled_invitation c out now s1)
      = s\<lparr>invitation_rows := zs\<rparr>" by simp
  show ?thesis
  proof (cases "db = Committed")
    case True
    then show ?thesis by (simp add: persist_handled_invitation_def snd_transact m e) blast
  next
    case False
    then have "persist_handled_invitation db c out now s = s\<lparr>invitation_rows := invitation_rows s\<rparr>"
      by (simp add: persist_handled_invitation_def snd_transact)
    then show ?thesis by (rule exI)
  qed
qed

lemma persist_handled_keeps [simp]:
  "workflow_runs (persist_handled_invitation db c out now s) = workflow_runs s"
  "purging (persist_handled_invitation db c out now s) = purging s"
  "pending_invitations (persist_handled_invitation db c out now s) = pending_invitations s"
  "peer_jobs (persist_handled_invitation db c out now s) = peer_jobs s"
  "driving (persist_handled_invitation db c out now s) = driving s"
  using persist_handled_rows_only [of db c out now s] by auto

lemma take_card_Some:
  assumes "take_card i s = Some (c, s')"
  shows "c \<in> set (pending_invitations s)" "inv_id c = i" "set (pending_invitations s') \<subseteq> set (pending_invitations s)"
    "\<exists>xs. s' = s\<lparr>pending_invitations := xs\<rparr>"
  using assms by (auto simp: take_card_def extract_Some_iff split: option.splits)

lemma find_map_replaced:
  "(\<And>r. P (f r)) \<Longrightarrow> \<exists>r \<in> set rs. P r \<Longrightarrow> \<exists>r. find P (map (\<lambda>r. if P r then f r else r) rs) = Some (f r)"
  by (induction rs) auto

lemma find_append_hit: "\<not> (\<exists>r \<in> set xs. P r) \<Longrightarrow> P x \<Longrightarrow> find P (xs @ x # ys) = Some x"
  by (induction xs) auto

lemma find_append_new: "\<not> (\<exists>r \<in> set rs. P r) \<Longrightarrow> P x \<Longrightarrow> find P (rs @ [x]) = Some x"
  by (induction rs) auto

lemma upsert_workflow_run_Some:
  assumes "upsert_workflow_run run s = Some s'"
  shows "\<exists>rs r. s' = s\<lparr>workflow_runs := rs\<rparr> \<and> find (\<lambda>r. wr_name r = wr_name run) rs = Some r \<and>
    r \<in> insert run (range (\<lambda>t. run\<lparr>wr_created_at := t\<rparr>))"
proof (cases "\<exists>r \<in> set (workflow_runs s). wr_name r = wr_name run")
  case True
  let ?f = "\<lambda>r :: workflow_run. run\<lparr>wr_created_at := wr_created_at r\<rparr>"
  have "\<exists>r. find (\<lambda>r. wr_name r = wr_name run) (map (\<lambda>r. if wr_name r = wr_name run then ?f r else r) (workflow_runs s))
      = Some (?f r)"
    by (rule find_map_replaced [OF _ True]) simp
  then obtain r where "find (\<lambda>r. wr_name r = wr_name run) (map (\<lambda>r. if wr_name r = wr_name run then ?f r else r) (workflow_runs s))
      = Some (?f r)" ..
  moreover have "s' = s\<lparr>workflow_runs := map (\<lambda>r. if wr_name r = wr_name run then ?f r else r) (workflow_runs s)\<rparr>"
    using assms True by (simp add: upsert_workflow_run_def split: if_splits)
  ultimately show ?thesis by blast
next
  case False
  have "find (\<lambda>r. wr_name r = wr_name run) (workflow_runs s @ [run]) = Some run"
    using False by (rule find_append_new) simp
  moreover have "s' = s\<lparr>workflow_runs := workflow_runs s @ [run]\<rparr>"
    using assms False unfolding upsert_workflow_run_def by (simp split: if_splits)
  ultimately show ?thesis by blast
qed

text \<open>The row of a run as \<open>PeerExpectations::load\<close> sees it.\<close>

definition stored_run :: "inbox \<Rightarrow> string \<Rightarrow> string + peer_run option" where
  "stored_run s name = Inr (map_option (\<lambda>r. \<lparr>pr_kind = wr_kind r, pr_dec_party_id = wr_dec_party_id r,
     pr_config_json = wr_config_json r\<rparr>) (get_workflow_run name s))"

definition stored_config :: "hexlib \<Rightarrow> jsonlib \<Rightarrow> string \<Rightarrow> peer_run_config option" where
  "stored_config H J doc = Option.bind (json_parse J doc) (peer_run_config_from H)"

lemma insert_peer_run_Some:
  assumes "insert_peer_run H J db now c s = (Some name, s')"
  shows "name = peer_run_name (kind_of_invitation (inv_type c)) (inv_pubkey c) (run_suffix now (inv_instance c))"
    "stored_run s' name = Inr (Some \<lparr>pr_kind = kind_of_invitation (inv_type c), pr_dec_party_id = inv_dec_party c,
       pr_config_json = json_print J (invitation_json H c)\<rparr>)"
    "\<exists>rs. s' = s\<lparr>workflow_runs := rs\<rparr>"
proof -
  obtain b s1 where tr: "transact db (upsert_workflow_run (peer_workflow_run H J now c)) s = (b, s1)" by (rule prod.exhaust)
  with assms have n: "name = wr_name (peer_workflow_run H J now c)" and "s1 = s'" "b"
    by (simp_all add: insert_peer_run_def Let_def split: bool.splits)
  with tr have u: "upsert_workflow_run (peer_workflow_run H J now c) s = Some s'"
    by (simp add: transact_True)
  from upsert_workflow_run_Some [OF u] n
  show "stored_run s' name = Inr (Some \<lparr>pr_kind = kind_of_invitation (inv_type c), pr_dec_party_id = inv_dec_party c,
       pr_config_json = json_print J (invitation_json H c)\<rparr>)" "\<exists>rs. s' = s\<lparr>workflow_runs := rs\<rparr>"
    by (auto simp: stored_run_def get_workflow_run_def peer_workflow_run_def Let_def)
  show "name = peer_run_name (kind_of_invitation (inv_type c)) (inv_pubkey c) (run_suffix now (inv_instance c))"
    by (simp add: n peer_workflow_run_def Let_def)
qed

lemma accept_card_200:
  assumes "accept_card H J E c s = (200, s')"
  obtains s1 name where "insert_peer_run H J (ae_insert_db E) (ae_now E) c
      (persist_handled_invitation (ae_handled_db E) c Accepted (ae_handled_at E) s) = (Some name, s1)"
    and "s' = send_job True \<lparr>pj_kind = kind_of_invitation (inv_type c), pj_name = name,
      pj_coordinator_instance = (case inv_instance c of Some i \<Rightarrow> i | None \<Rightarrow> []), pj_coordinator_pubkey = inv_pubkey c\<rparr> s1"
proof -
  let ?s = "persist_handled_invitation (ae_handled_db E) c Accepted (ae_handled_at E) s"
  obtain x s1 where i: "insert_peer_run H J (ae_insert_db E) (ae_now E) c ?s = (x, s1)" by (rule prod.exhaust)
  show thesis
    using assms i that [of _ s1] unfolding accept_card_def Let_def
    by (cases x) (simp_all split: if_splits)
qed

lemma stored_run_send_job [simp]: "stored_run (send_job b j s) n = stored_run s n"
  by (simp add: stored_run_def get_workflow_run_def send_job_def)

definition expectations_of :: "canton_id \<Rightarrow> canton_id \<Rightarrow> pending_invitation \<Rightarrow> peer_expectations" where
  "expectations_of own coordinator c = \<lparr>ex_kind = kind_of_invitation (inv_type c), contract_intents = inv_contract_intents c,
     members = insert coordinator (set (inv_participants c)), dec_party_id = inv_dec_party c, ex_prefix = inv_prefix c,
     ex_threshold = inv_new_threshold c, confirmation_threshold = inv_confirmation c, kicked_participant = inv_kicked c,
     new_participant = inv_new_participant c, dar_filenames = inv_dar_filenames c, dar_hashes = inv_dar_hashes c, self_id = own\<rparr>"

context hex_codec
begin

lemma load_accepted:
  assumes "stored_run s name = Inr (Some \<lparr>pr_kind = kind_of_invitation (inv_type c), pr_dec_party_id = inv_dec_party c,
       pr_config_json = json_print J (invitation_json H c)\<rparr>)"
    and "json_parse J (json_print J (invitation_json H c)) = Some (invitation_json H c)" and "good_card H c"
  shows "load_expectations (stored_run s) (stored_config H J) own name coordinator = Inr (expectations_of own coordinator c)"
  using assms by (simp add: load_expectations_def stored_config_def config_readback expectations_of_def)

end

section \<open>One loop per run\<close>

text \<open>The keys of the coordinators: the first sixteen characters, which the names of the runs carry, tell them apart.\<close>

definition keys_ok :: "string set \<Rightarrow> bool" where
  "keys_ok K \<longleftrightarrow> inj_on (take 16) K \<and> (\<forall>pk \<in> K. 16 \<le> length pk)"

lemma kind_lower: "map lower_char (kind_str k) = (case k of Onboarding \<Rightarrow> ''onboarding'' | Kick \<Rightarrow> ''kick'' | Contracts \<Rightarrow> ''contracts''
     | Dars \<Rightarrow> ''dars'' | AddParty \<Rightarrow> ''addparty'' | ChangeThreshold \<Rightarrow> ''changethreshold'')"
  by (cases k) (simp_all add: kind_str_def lower_char_def char_of_eq_iff)

lemma kind_str_no_dash: "CHR ''-'' \<notin> set (map lower_char (kind_str k))"
  unfolding kind_lower by (cases k) simp_all

lemma split_at_dash: "CHR ''-'' \<notin> set a \<Longrightarrow> CHR ''-'' \<notin> set b \<Longrightarrow> a @ CHR ''-'' # x = b @ CHR ''-'' # y \<Longrightarrow> a = b \<and> x = y"
proof (induction a arbitrary: b)
  case Nil then show ?case by (cases b) auto
next
  case (Cons c a) then show ?case by (cases b) auto
qed

lemma kind_str_inj: "map lower_char (kind_str k) = map lower_char (kind_str k') \<Longrightarrow> k = k'"
  unfolding kind_lower by (cases k; cases k') simp_all

lemma peer_run_name_inj:
  assumes "keys_ok K" "pk \<in> K" "pk' \<in> K" and "peer_run_name k pk i = peer_run_name k' pk' i'"
  shows "k = k' \<and> pk = pk' \<and> i = i'"
proof -
  from assms(4) have "map lower_char (kind_str k) @ CHR ''-'' # take 16 pk @ CHR ''-'' # i =
      map lower_char (kind_str k') @ CHR ''-'' # take 16 pk' @ CHR ''-'' # i'"
    by (simp add: peer_run_name_def)
  from split_at_dash [OF kind_str_no_dash kind_str_no_dash this]
  have k: "k = k'" and r: "take 16 pk @ CHR ''-'' # i = take 16 pk' @ CHR ''-'' # i'" by (auto dest: kind_str_inj)
  have "length (take 16 pk) = length (take 16 pk')" using assms(1-3) by (fastforce simp: keys_ok_def)
  with r have "take 16 pk = take 16 pk'" "i = i'" by simp_all
  with k assms(1-3) show ?thesis by (auto simp: keys_ok_def dest: inj_onD)
qed

text \<open>The names of the runs that a queued job or a task acts for, and the invariant: each of them once, and its row
  is in progress.\<close>

definition loops :: "inbox \<Rightarrow> string list" where
  "loops s = map pj_name (peer_jobs s @ driving s)"

definition in_progress :: "workflow_run list \<Rightarrow> string \<Rightarrow> bool" where
  "in_progress rs n \<longleftrightarrow> (\<exists>r \<in> set rs. wr_name r = n \<and> wr_role r = Peer \<and> wr_status r = InProgress)"

definition card_ok :: "string set \<Rightarrow> pending_invitation \<Rightarrow> bool" where
  "card_ok K c \<longleftrightarrow> inv_pubkey c \<in> K \<and> inv_instance c \<noteq> None \<and> inv_instance c \<noteq> Some []"

definition run_ok :: "string set \<Rightarrow> workflow_run \<Rightarrow> bool" where
  "run_ok K r \<longleftrightarrow> wr_role r = Peer \<and> (\<exists>pk i. wr_coordinator_pubkey r = Some pk \<and> pk \<in> K \<and> i \<noteq> [] \<and>
     wr_coordinator_instance r = Some i \<and> wr_name r = peer_run_name (wr_kind r) pk i)"

definition cards_inv :: "string set \<Rightarrow> inbox \<Rightarrow> bool" where
  "cards_inv K s \<longleftrightarrow> list_all (card_ok K) (pending_invitations s) \<and> list_all (card_ok K \<circ> ir_inv) (invitation_rows s)"

definition runs_inv :: "string set \<Rightarrow> workflow_run list \<Rightarrow> bool" where
  "runs_inv K rs \<longleftrightarrow> distinct (map wr_name rs) \<and> list_all (run_ok K) rs"

definition loop_inv :: "string set \<Rightarrow> inbox \<Rightarrow> bool" where
  "loop_inv K s \<longleftrightarrow> cards_inv K s \<and> runs_inv K (workflow_runs s) \<and> distinct (loops s) \<and>
     list_all (in_progress (workflow_runs s)) (loops s)"

subsection \<open>Cards\<close>

lemma cards_inv_rows:
  "cards_inv K s \<Longrightarrow> list_all (card_ok K \<circ> ir_inv) xs \<Longrightarrow> cards_inv K (s\<lparr>invitation_rows := xs\<rparr>)"
  by (simp add: cards_inv_def)

lemma cards_inv_upsert: "cards_inv K s \<Longrightarrow> card_ok K c \<Longrightarrow> cards_inv K (upsert_pending_invitation c s)"
  "cards_inv K s \<Longrightarrow> card_ok K c \<Longrightarrow> cards_inv K (insert_handled_invitation c out now s)"
  by (auto simp: upsert_pending_invitation_def insert_handled_invitation_def write_invitation_def cards_inv_def list_all_iff)

lemma cards_inv_delete: "cards_inv K s \<Longrightarrow> cards_inv K (delete_pending_invitation i s)"
  by (auto simp: delete_pending_invitation_def cards_inv_def list_all_iff)

lemma cards_inv_prune: "cards_inv K s \<Longrightarrow> cards_inv K (prune_handled_invitations k s)"
  by (auto simp: prune_handled_invitations_def cards_inv_def list_all_iff Let_def)

lemma cards_inv_mark: "cards_inv K s \<Longrightarrow> cards_inv K (snd (mark_invitation_handled i out now s))"
  by (auto simp: mark_invitation_handled_def cards_inv_def list_all_iff)

lemma cards_inv_fold_delete: "cards_inv K s \<Longrightarrow> cards_inv K (fold delete_pending_invitation is s)"
  by (induction "is" arbitrary: s) (simp_all add: cards_inv_delete)

lemma cards_inv_persist:
  assumes "cards_inv K s" and "card_ok K c"
  shows "cards_inv K (persist_handled_invitation db c out now s)"
proof -
  obtain m s1 where m: "mark_invitation_handled (inv_id c) out now s = (m, s1)" by (rule prod.exhaust)
  with cards_inv_mark [OF assms(1), of "inv_id c" out now] have "cards_inv K s1" by simp
  with assms m show ?thesis
    by (auto simp: persist_handled_invitation_def snd_transact intro!: cards_inv_prune cards_inv_upsert)
qed

lemma cards_inv_restore:
  assumes "cards_inv K s" and "card_ok K c"
  shows "cards_inv K (restore_invitation db c s)"
proof -
  let ?s = "snd (transact db (\<lambda>s. Some (upsert_pending_invitation c s)) s)"
  have "cards_inv K ?s" using assms by (simp add: snd_transact cards_inv_upsert)
  with assms(2) show ?thesis by (simp add: restore_invitation_def Let_def cards_inv_def)
qed

lemma cards_inv_pending:
  "cards_inv K s \<Longrightarrow> list_all (card_ok K) xs \<Longrightarrow> cards_inv K (s\<lparr>pending_invitations := xs\<rparr>)"
  by (simp add: cards_inv_def)

lemma cards_inv_evict:
  "cards_inv K s \<Longrightarrow> cards_inv K (if out = [] then s else snd (transact db (\<lambda>s. Some (fold delete_pending_invitation out s)) s))"
  by (simp add: snd_transact cards_inv_fold_delete)

lemma cards_inv_record:
  assumes "cards_inv K s" and c: "card_ok K (make_invitation now t pk m)"
  shows "cards_inv K (record_invitation db1 db2 now t pk m s)"
  unfolding record_invitation_def Let_def
proof (rule cards_inv_evict, rule cards_inv_pending)
  let ?s = "snd (transact db1 (\<lambda>s. Some (upsert_pending_invitation (make_invitation now t pk m) s)) s)"
  show s: "cards_inv K ?s" using assms by (simp add: snd_transact cards_inv_upsert)
  show "list_all (card_ok K) (filter P (filter Q (pending_invitations ?s) @ [make_invitation now t pk m]))" for P Q
    using s c unfolding cards_inv_def by (auto simp: list_all_iff)
qed

lemma fold_delete_rows_only: "\<exists>xs. fold delete_pending_invitation is s = s\<lparr>invitation_rows := xs\<rparr>"
proof (induction "is" arbitrary: s)
  case Nil
  have "fold delete_pending_invitation [] s = s\<lparr>invitation_rows := invitation_rows s\<rparr>" by simp
  then show ?case by (rule exI)
next
  case (Cons i "is")
  obtain xs where "delete_pending_invitation i s = s\<lparr>invitation_rows := xs\<rparr>" using rows_only(3) by blast
  moreover obtain ys where "fold delete_pending_invitation is (s\<lparr>invitation_rows := xs\<rparr>) = s\<lparr>invitation_rows := xs\<rparr>\<lparr>invitation_rows := ys\<rparr>"
    using Cons.IH by blast
  ultimately have "fold delete_pending_invitation (i # is) s = s\<lparr>invitation_rows := ys\<rparr>" by simp
  then show ?case by (rule exI)
qed

subsection \<open>Runs\<close>

definition with_status :: "string \<Rightarrow> workflow_progress \<Rightarrow> string option \<Rightarrow> int \<Rightarrow> workflow_run \<Rightarrow> workflow_run" where
  "with_status n st err now r = (if wr_name r = n then r\<lparr>wr_status := st, wr_error := err, wr_updated_at := now\<rparr> else r)"

lemma with_status_keeps [simp]:
  "wr_name (with_status n st err now r) = wr_name r" "wr_role (with_status n st err now r) = wr_role r"
  "wr_kind (with_status n st err now r) = wr_kind r" "wr_coordinator_pubkey (with_status n st err now r) = wr_coordinator_pubkey r"
  "wr_coordinator_instance (with_status n st err now r) = wr_coordinator_instance r"
  "wr_status (with_status n st err now r) = (if wr_name r = n then st else wr_status r)"
  by (simp_all add: with_status_def)

lemma set_status_Some:
  assumes "set_workflow_run_status n st err now s = Some (s' :: inbox)"
  shows "workflow_runs s' = map (with_status n st err now) (workflow_runs s)"
    "pending_invitations s' = pending_invitations s" "invitation_rows s' = invitation_rows s"
    "peer_jobs s' = peer_jobs s" "driving s' = driving s" "loops s' = loops s"
proof -
  have "\<exists>a. s' = s\<lparr>workflow_runs := map (with_status n st err now) (workflow_runs s), artifacts := a\<rparr>"
  proof -
    have "(\<lambda>r. if wr_name r = n then r\<lparr>wr_status := st, wr_error := err, wr_updated_at := now\<rparr> else r) = with_status n st err now"
      by (simp add: with_status_def fun_eq_iff)
    then have "s' \<in> range (\<lambda>a. s\<lparr>workflow_runs := map (with_status n st err now) (workflow_runs s), artifacts := a\<rparr>)"
      using assms unfolding set_workflow_run_status_def Let_def
      by (auto split: if_splits intro: rev_image_eqI [of "artifacts s"])
    then show ?thesis by blast
  qed
  then show "workflow_runs s' = map (with_status n st err now) (workflow_runs s)"
    "pending_invitations s' = pending_invitations s" "invitation_rows s' = invitation_rows s"
    "peer_jobs s' = peer_jobs s" "driving s' = driving s" "loops s' = loops s"
    by (auto simp: loops_def)
qed

lemma runs_inv_status: "runs_inv K rs \<Longrightarrow> runs_inv K (map (with_status n st err now) rs)"
  by (auto simp: runs_inv_def list_all_iff run_ok_def comp_def)

lemma in_progress_status:
  "in_progress (map (with_status n st err now) rs) m \<longleftrightarrow>
     (if m = n then st = InProgress \<and> (\<exists>r \<in> set rs. wr_name r = n \<and> wr_role r = Peer) else in_progress rs m)"
  by (auto simp: in_progress_def)

text \<open>A status written to a run no loop acts for keeps the invariant.\<close>

lemma loop_inv_status:
  assumes "loop_inv K s" and "n \<notin> set (loops s)" and "set_workflow_run_status n st err now s = Some s'"
  shows "loop_inv K s'"
  using assms(1,2) set_status_Some [OF assms(3)] runs_inv_status [of K "workflow_runs s" n st err now]
  by (auto simp: loop_inv_def cards_inv_def list_all_iff in_progress_status)

lemma loop_inv_transact_status:
  "loop_inv K s \<Longrightarrow> n \<notin> set (loops s) \<Longrightarrow> loop_inv K (snd (transact db (set_workflow_run_status n st err now) s))"
  by (auto simp: snd_transact loop_inv_status split: option.splits)

lemma runs_inv_unique: "runs_inv K rs \<Longrightarrow> r \<in> set rs \<Longrightarrow> r' \<in> set rs \<Longrightarrow> wr_name r = wr_name r' \<Longrightarrow> r = r'"
  by (auto simp: runs_inv_def distinct_map dest: inj_onD)

lemma not_driven:
  assumes "loop_inv K s" and "r \<in> set (workflow_runs s)" and "wr_status r \<noteq> InProgress"
  shows "wr_name r \<notin> set (loops s)"
proof
  assume "wr_name r \<in> set (loops s)"
  with assms(1) obtain r' where "r' \<in> set (workflow_runs s)" "wr_name r' = wr_name r" "wr_status r' = InProgress"
    by (auto simp: loop_inv_def list_all_iff in_progress_def)
  with assms runs_inv_unique [of K "workflow_runs s" r r'] show False by (simp add: loop_inv_def)
qed

lemma loop_inv_send_job:
  assumes "loop_inv K s" and "pj_name j \<notin> set (loops s)" and "in_progress (workflow_runs s) (pj_name j)"
  shows "loop_inv K (send_job listening j s)"
  using assms by (auto simp: loop_inv_def cards_inv_def send_job_def loops_def list_all_iff)

lemma send_job_keeps:
  "set (loops (send_job listening j s)) \<subseteq> insert (pj_name j) (set (loops s))"
  "workflow_runs (send_job listening j s) = workflow_runs s"
  by (auto simp: send_job_def loops_def)

lemma refire_peer_keeps:
  "set (loops (refire_peer listening r s)) \<subseteq> insert (wr_name r) (set (loops s))"
  "workflow_runs (refire_peer listening r s) = workflow_runs s"
  by (auto simp: refire_peer_def send_job_def loops_def split: option.splits)

lemma loop_inv_refire:
  "loop_inv K s \<Longrightarrow> wr_name r \<notin> set (loops s) \<Longrightarrow> in_progress (workflow_runs s) (wr_name r) \<Longrightarrow>
     loop_inv K (refire_peer listening r s)"
  by (simp add: refire_peer_def loop_inv_send_job split: option.splits)

subsection \<open>Retries\<close>

lemma loop_inv_retry_run:
  assumes inv: "loop_inv K s" and r: "\<exists>r' \<in> set (workflow_runs s). wr_name r' = wr_name r \<and> wr_role r' = Peer"
    and n: "wr_name r \<notin> set (loops s)"
  shows "loop_inv K (retry_peer_run listening db now r s)"
    and "set (loops (retry_peer_run listening db now r s)) \<subseteq> insert (wr_name r) (set (loops s))"
    and "\<exists>f. workflow_runs (retry_peer_run listening db now r s) = map f (workflow_runs s) \<and>
      (\<forall>r'. wr_name (f r') = wr_name r' \<and> wr_role (f r') = wr_role r')"
proof -
  let ?tr = "transact (db (wr_name r)) (set_workflow_run_status (wr_name r) InProgress None now) s"
  obtain b s1 where tr: "?tr = (b, s1)" by (rule prod.exhaust)
  have "loop_inv K (retry_peer_run listening db now r s) \<and>
    set (loops (retry_peer_run listening db now r s)) \<subseteq> insert (wr_name r) (set (loops s)) \<and>
    (\<exists>f. workflow_runs (retry_peer_run listening db now r s) = map f (workflow_runs s) \<and>
      (\<forall>r'. wr_name (f r') = wr_name r' \<and> wr_role (f r') = wr_role r'))"
  proof (cases b)
    case False
    with tr have s1: "s1 = s" by (auto dest: transact_False)
    have "workflow_runs s = map (\<lambda>r. r) (workflow_runs s)" by simp
    then have "\<exists>f. workflow_runs s = map f (workflow_runs s) \<and> (\<forall>r'. wr_name (f r') = wr_name r' \<and> wr_role (f r') = wr_role r')"
      by (intro exI [of _ "\<lambda>r. r"]) simp
    with False tr inv s1 show ?thesis by (auto simp: retry_peer_run_def)
  next
    case True
    with tr have st: "set_workflow_run_status (wr_name r) InProgress None now s = Some s1" by (simp add: transact_True)
    note k = set_status_Some [OF st]
    have i1: "loop_inv K s1" by (rule loop_inv_status [OF inv n st])
    have p: "in_progress (workflow_runs s1) (wr_name r)" using r by (simp add: k in_progress_status)
    have res: "retry_peer_run listening db now r s = refire_peer listening r s1" using tr True by (simp add: retry_peer_run_def)
    have "loop_inv K (refire_peer listening r s1)" using i1 n p by (simp add: loop_inv_refire k(6))
    moreover have "set (loops (refire_peer listening r s1)) \<subseteq> insert (wr_name r) (set (loops s))"
      using refire_peer_keeps(1) [of listening r s1] by (simp add: k(6))
    moreover have "\<exists>f. workflow_runs (refire_peer listening r s1) = map f (workflow_runs s) \<and>
        (\<forall>r'. wr_name (f r') = wr_name r' \<and> wr_role (f r') = wr_role r')"
      unfolding refire_peer_keeps(2) k(1) by (rule exI [of _ "with_status (wr_name r) InProgress None now"]) simp
    ultimately show ?thesis unfolding res by blast
  qed
  then show "loop_inv K (retry_peer_run listening db now r s)"
    "set (loops (retry_peer_run listening db now r s)) \<subseteq> insert (wr_name r) (set (loops s))"
    "\<exists>f. workflow_runs (retry_peer_run listening db now r s) = map f (workflow_runs s) \<and>
      (\<forall>r'. wr_name (f r') = wr_name r' \<and> wr_role (f r') = wr_role r')" by blast+
qed

lemma loop_inv_retry_fold:
  assumes "loop_inv K s" and "distinct (map wr_name rs)"
    and "\<And>r. r \<in> set rs \<Longrightarrow> wr_name r \<notin> set (loops s) \<and> (\<exists>r' \<in> set (workflow_runs s). wr_name r' = wr_name r \<and> wr_role r' = Peer)"
  shows "loop_inv K (fold (retry_peer_run listening db now) rs s)"
  using assms
proof (induction rs arbitrary: s)
  case (Cons r rs)
  let ?s = "retry_peer_run listening db now r s"
  have r: "\<exists>r' \<in> set (workflow_runs s). wr_name r' = wr_name r \<and> wr_role r' = Peer" and n: "wr_name r \<notin> set (loops s)"
    using Cons.prems(3) [of r] by auto
  note k = loop_inv_retry_run [OF Cons.prems(1) r n, of listening db now]
  from k(3) obtain f where f: "workflow_runs ?s = map f (workflow_runs s)"
    "\<And>r'. wr_name (f r') = wr_name r' \<and> wr_role (f r') = wr_role r'" by blast
  have "loop_inv K (fold (retry_peer_run listening db now) rs ?s)"
  proof (rule Cons.IH)
    show "wr_name r1 \<notin> set (loops ?s) \<and> (\<exists>r' \<in> set (workflow_runs ?s). wr_name r' = wr_name r1 \<and> wr_role r' = Peer)"
      if "r1 \<in> set rs" for r1
    proof -
      have "wr_name r1 \<noteq> wr_name r" using Cons.prems(2) that by (metis distinct.simps(2) image_eqI list.set_map list.simps(9))
      with Cons.prems(3) [of r1] that k(2) have "wr_name r1 \<notin> set (loops ?s)" by auto
      moreover from Cons.prems(3) [of r1] that obtain r' where "r' \<in> set (workflow_runs s)" "wr_name r' = wr_name r1" "wr_role r' = Peer" by auto
      ultimately show ?thesis using f(2) by (auto simp: f(1))
    qed
    show "loop_inv K ?s" by (rule k(1))
    show "distinct (map wr_name rs)" using Cons.prems(2) by simp
  qed
  then show ?case by simp
qed simp

lemma loop_inv_retry:
  assumes "loop_inv K s"
  shows "loop_inv K (retry_peer_runs_from loaded listening db now pk inst s)"
proof -
  let ?rs = "filter (\<lambda>r. wr_status r = Failed \<and> run_matches pk inst r) (get_visible_workflow_runs s)"
  have "distinct (map wr_name (workflow_runs s))" using assms by (simp add: loop_inv_def runs_inv_def)
  then have "distinct (map wr_name ?rs)"
    by (simp add: get_visible_workflow_runs_def distinct_map inj_on_def)
  moreover have "wr_name r \<notin> set (loops s) \<and> (\<exists>r' \<in> set (workflow_runs s). wr_name r' = wr_name r \<and> wr_role r' = Peer)"
    if "r \<in> set ?rs" for r
    using that not_driven [OF assms, of r] by (auto simp: get_visible_workflow_runs_def run_matches_def)
  ultimately show ?thesis
    using assms by (auto simp: retry_peer_runs_from_def intro!: loop_inv_retry_fold)
qed

subsection \<open>Accepting\<close>

lemma run_ok_peer_run: "card_ok K c \<Longrightarrow> run_ok K (peer_workflow_run H J now c)"
  by (auto simp: card_ok_def run_ok_def peer_workflow_run_def Let_def run_suffix_def)

lemma upsert_runs:
  assumes "upsert_workflow_run run s = Some (s' :: inbox)"
  shows "workflow_runs s' = (if wr_name run \<in> wr_name ` set (workflow_runs s)
      then map (\<lambda>r. if wr_name r = wr_name run then run\<lparr>wr_created_at := wr_created_at r\<rparr> else r) (workflow_runs s)
      else workflow_runs s @ [run])"
    "loops s' = loops s" "pending_invitations s' = pending_invitations s" "invitation_rows s' = invitation_rows s"
proof -
  have "s' = s\<lparr>workflow_runs := (if wr_name run \<in> wr_name ` set (workflow_runs s)
      then map (\<lambda>r. if wr_name r = wr_name run then run\<lparr>wr_created_at := wr_created_at r\<rparr> else r) (workflow_runs s)
      else workflow_runs s @ [run])\<rparr>"
    using assms by (simp add: upsert_workflow_run_def image_iff eq_commute split: if_splits)
  then show "workflow_runs s' = (if wr_name run \<in> wr_name ` set (workflow_runs s)
      then map (\<lambda>r. if wr_name r = wr_name run then run\<lparr>wr_created_at := wr_created_at r\<rparr> else r) (workflow_runs s)
      else workflow_runs s @ [run])"
    "loops s' = loops s" "pending_invitations s' = pending_invitations s" "invitation_rows s' = invitation_rows s"
    by (simp_all add: loops_def)
qed

lemma map_name_upsert: "map wr_name (map (\<lambda>r. if wr_name r = wr_name run then run\<lparr>wr_created_at := wr_created_at r\<rparr> else r) rs) = map wr_name rs"
  by (induction rs) simp_all

lemma loop_inv_upsert:
  assumes inv: "loop_inv K s" and up: "upsert_workflow_run run s = Some s'" and "run_ok K run"
    and n: "wr_name run \<notin> set (loops s)"
  shows "loop_inv K s'"
proof -
  note u = upsert_runs [OF up]
  have "distinct (map wr_name (workflow_runs s'))"
    using inv by (simp add: u(1) loop_inv_def runs_inv_def map_name_upsert del: map_map)
  moreover have "list_all (run_ok K) (workflow_runs s')"
    using inv assms(3) by (auto simp: u(1) loop_inv_def runs_inv_def list_all_iff run_ok_def)
  moreover have "in_progress (workflow_runs s') m" if "in_progress (workflow_runs s) m" "m \<noteq> wr_name run" for m
    using that by (force simp: u(1) in_progress_def)
  then have "list_all (in_progress (workflow_runs s')) (loops s')"
    using inv n by (auto simp: loop_inv_def list_all_iff u(2))
  ultimately show ?thesis
    using inv by (simp add: loop_inv_def runs_inv_def cards_inv_def u)
qed

lemma in_progress_upsert:
  assumes "upsert_workflow_run run s = Some (s' :: inbox)" and "wr_role run = Peer" "wr_status run = InProgress"
  shows "in_progress (workflow_runs s') (wr_name run)"
proof -
  from upsert_workflow_run_Some [OF assms(1)] obtain rs r where "s' = s\<lparr>workflow_runs := rs\<rparr>"
    and f: "find (\<lambda>r. wr_name r = wr_name run) rs = Some r" and r: "r \<in> insert run (range (\<lambda>t. run\<lparr>wr_created_at := t\<rparr>))" by blast
  moreover from f have "r \<in> set rs" by (metis find_Some_iff nth_mem)
  moreover from r assms(2,3) have "wr_name r = wr_name run" "wr_role r = Peer" "wr_status r = InProgress" by auto
  ultimately show ?thesis by (auto simp: in_progress_def)
qed

lemma loop_inv_cards: "loop_inv K s \<Longrightarrow> cards_inv K s"
  by (simp add: loop_inv_def)

lemma loop_inv_same:
  assumes "loop_inv K s" and "cards_inv K s'" and "workflow_runs s' = workflow_runs s" "loops s' = loops s"
  shows "loop_inv K s'"
  using assms by (simp add: loop_inv_def)

lemma restore_keeps: "workflow_runs (restore_invitation db c s) = workflow_runs s" "loops (restore_invitation db c s) = loops s"
  by (simp_all add: restore_invitation_def Let_def snd_transact loops_def upsert_pending_invitation_def write_invitation_def)

lemma loop_inv_restore: "loop_inv K s \<Longrightarrow> card_ok K c \<Longrightarrow> loop_inv K (restore_invitation db c s)"
  by (rule loop_inv_same) (simp_all add: cards_inv_restore loop_inv_cards restore_keeps)

text \<open>A run that is not yet in progress from this coordinator has no loop.\<close>

lemma guard_not_driven:
  assumes inv: "loop_inv K s" and K: "keys_ok K" and c: "card_ok K c" "inv_instance c = Some i"
    and g: "\<not> already_running (inv_pubkey c) i (get_in_progress_workflow_runs s)"
  shows "peer_run_name k (inv_pubkey c) i \<notin> set (loops s)"
proof
  assume "peer_run_name k (inv_pubkey c) i \<in> set (loops s)"
  with inv obtain r where r: "r \<in> set (workflow_runs s)" "wr_name r = peer_run_name k (inv_pubkey c) i" "wr_role r = Peer"
      "wr_status r = InProgress"
    by (auto simp: loop_inv_def list_all_iff in_progress_def)
  with inv obtain pk i' where ok: "wr_coordinator_pubkey r = Some pk" "pk \<in> K" "wr_coordinator_instance r = Some i'"
      "wr_name r = peer_run_name (wr_kind r) pk i'"
    by (auto simp: loop_inv_def runs_inv_def list_all_iff run_ok_def)
  with r c peer_run_name_inj [OF K ok(2), of "inv_pubkey c"] have "pk = inv_pubkey c \<and> i' = i" by (auto simp: card_ok_def)
  with g r ok show False by (auto simp: already_running_def list_ex_iff get_in_progress_workflow_runs_def)
qed

lemma loop_inv_persist:
  assumes "loop_inv K s" and "card_ok K c"
  shows "loop_inv K (persist_handled_invitation db c out now s)"
  by (rule loop_inv_same [OF assms(1)]) (simp_all add: cards_inv_persist loop_inv_cards assms loops_def)

lemma loop_inv_accept_card:
  assumes inv: "loop_inv K s0" and K: "keys_ok K" and c: "card_ok K c" and E: "ae_loaded E"
  shows "loop_inv K (snd (accept_card H J E c s0))"
proof -
  let ?s = "persist_handled_invitation (ae_handled_db E) c Accepted (ae_handled_at E) s0"
  let ?run = "peer_workflow_run H J (ae_now E) c"
  obtain i where i: "inv_instance c = Some i" "i \<noteq> []" using c by (auto simp: card_ok_def)
  have s: "loop_inv K ?s" by (rule loop_inv_persist [OF inv c])
  show ?thesis
  proof (cases "already_running (inv_pubkey c) i (get_in_progress_workflow_runs ?s)")
    case True
    with s i E show ?thesis by (simp add: accept_card_def Let_def)
  next
    case False
    have name: "wr_name ?run = peer_run_name (kind_of_invitation (inv_type c)) (inv_pubkey c) i"
      using i by (simp add: peer_workflow_run_def Let_def run_suffix_def)
    have n: "wr_name ?run \<notin> set (loops ?s)"
      unfolding name by (rule guard_not_driven [OF s K c i(1) False])
    obtain b s1 where tr: "transact (ae_insert_db E) (upsert_workflow_run ?run) ?s = (b, s1)" by (rule prod.exhaust)
    show ?thesis
    proof (cases b)
      case b: False
      with tr have "s1 = ?s" by (auto dest: transact_False)
      with False b tr s c i E show ?thesis by (simp add: accept_card_def Let_def insert_peer_run_def loop_inv_restore)
    next
      case b: True
      with tr have up: "upsert_workflow_run ?run ?s = Some s1" by (simp add: transact_True)
      have i1: "loop_inv K s1" by (rule loop_inv_upsert [OF s up run_ok_peer_run [OF c] n])
      have n1: "wr_name ?run \<notin> set (loops s1)" using n by (simp add: upsert_runs(2) [OF up])
      have p: "in_progress (workflow_runs s1) (wr_name ?run)"
        by (rule in_progress_upsert [OF up]) (simp_all add: peer_workflow_run_def Let_def)
      have "loop_inv K (send_job True \<lparr>pj_kind = x, pj_name = wr_name ?run, pj_coordinator_instance = y, pj_coordinator_pubkey = z\<rparr> s1)" for x y z
        using i1 n1 p by (intro loop_inv_send_job) simp_all
      moreover have "loop_inv K (restore_invitation d c (mark_failed_via_pool d' (wr_name ?run) e t s1))" for d d' e t
        using i1 n1 c by (simp add: mark_failed_via_pool_def set_run_status_def loop_inv_restore loop_inv_transact_status)
      ultimately show ?thesis
        using False b tr i E by (simp add: accept_card_def Let_def insert_peer_run_def)
    qed
  qed
qed

subsection \<open>Histories\<close>

lemma loop_inv_record:
  assumes "loop_inv K s" and "card_ok K (make_invitation now t pk m)"
  shows "loop_inv K (record_invitation db1 db2 now t pk m s)"
proof (rule loop_inv_same [OF assms(1)])
  let ?u = "snd (transact db1 (\<lambda>s. Some (upsert_pending_invitation (make_invitation now t pk m) s)) s)"
  have u: "workflow_runs ?u = workflow_runs s" "loops ?u = loops s"
    by (simp_all add: snd_transact upsert_pending_invitation_def write_invitation_def loops_def)
  have d: "workflow_runs (snd (transact db2 (\<lambda>s. Some (fold delete_pending_invitation out s)) (?u\<lparr>pending_invitations := xs\<rparr>))) = workflow_runs s"
    "loops (snd (transact db2 (\<lambda>s. Some (fold delete_pending_invitation out s)) (?u\<lparr>pending_invitations := xs\<rparr>))) = loops s" for out xs
    using fold_delete_rows_only [of out "?u\<lparr>pending_invitations := xs\<rparr>"] u by (auto simp: snd_transact loops_def)
  show "cards_inv K (record_invitation db1 db2 now t pk m s)" using assms by (simp add: cards_inv_record loop_inv_cards)
  show "workflow_runs (record_invitation db1 db2 now t pk m s) = workflow_runs s"
    unfolding record_invitation_def Let_def using d(1) u(1) by simp
  show "loops (record_invitation db1 db2 now t pk m s) = loops s"
    unfolding record_invitation_def Let_def using d(2) u(2) by (simp add: loops_def)
qed

lemma loop_inv_take: "loop_inv K s \<Longrightarrow> take_card i s = Some (c, s') \<Longrightarrow> loop_inv K s' \<and> card_ok K c"
proof -
  assume inv: "loop_inv K s" and t: "take_card i s = Some (c, s')"
  from take_card_Some(4) [OF t] obtain xs where xs: "s' = s\<lparr>pending_invitations := xs\<rparr>" by blast
  with inv take_card_Some(1,3) [OF t] show ?thesis
    by (auto simp: loop_inv_def cards_inv_def loops_def list_all_iff)
qed

lemma loop_inv_accept:
  assumes "loop_inv K s" "keys_ok K" "ae_loaded E"
  shows "loop_inv K (snd (accept_invitation H J E refusal i s))"
proof (cases "refusal = None")
  case True
  show ?thesis
  proof (cases "take_card i s")
    case (Some x)
    obtain c s1 where x: "x = (c, s1)" by (rule prod.exhaust)
    with loop_inv_take [OF assms(1), of i c s1] Some have "loop_inv K s1" "card_ok K c" by simp_all
    then have "loop_inv K (snd (accept_card H J E c s1))" by (rule loop_inv_accept_card [OF _ assms(2) _ assms(3)])
    with True Some x show ?thesis by (simp add: accept_invitation_def)
  qed (simp add: accept_invitation_def True assms(1))
next
  case False
  with assms(1) show ?thesis by (auto simp: accept_invitation_def)
qed

lemma loop_inv_decline:
  assumes "loop_inv K s"
  shows "loop_inv K (fst (snd (decline_invitation known db now refusal i s)))"
proof (cases "refusal = None")
  case True
  show ?thesis
  proof (cases "take_card i s")
    case (Some x)
    obtain c s1 where x: "x = (c, s1)" by (rule prod.exhaust)
    with loop_inv_take [OF assms, of i c s1] Some have "loop_inv K s1" "card_ok K c" by simp_all
    then have "loop_inv K (persist_handled_invitation db c Declined now s1)" by (rule loop_inv_persist)
    with True Some x show ?thesis by (simp add: decline_invitation_def)
  qed (simp add: decline_invitation_def True assms)
next
  case False
  with assms show ?thesis by (auto simp: decline_invitation_def)
qed

lemma loops_spawn: "loops (spawn_peer s) = (if peer_jobs s = [] then loops s else rotate1 (loops s))"
  by (cases "peer_jobs s") (simp_all add: spawn_peer_def loops_def)

lemma loop_inv_spawn:
  assumes "loop_inv K s"
  shows "loop_inv K (spawn_peer s)"
proof -
  have "cards_inv K (spawn_peer s)" "workflow_runs (spawn_peer s) = workflow_runs s"
    using loop_inv_cards [OF assms] by (auto simp: spawn_peer_def cards_inv_def split: list.splits)
  with assms show ?thesis by (simp add: loop_inv_def loops_spawn list_all_iff)
qed

lemma loop_inv_end:
  assumes "loop_inv K s" and "j \<in> set (driving s)"
  shows "loop_inv K (end_peer db j result now s)"
proof -
  let ?s = "s\<lparr>driving := remove1 j (driving s)\<rparr>"
  have d: "distinct (map pj_name (peer_jobs s @ driving s))" using assms(1) by (simp add: loop_inv_def loops_def)
  have "set (remove1 j (driving s)) \<subseteq> set (driving s)" by (rule set_remove1_subset)
  moreover have "distinct (map pj_name (remove1 j (driving s)))" using d by (auto simp: distinct_map intro: inj_on_subset)
  ultimately have "loop_inv K ?s"
    using assms(1) d by (fastforce simp: loop_inv_def cards_inv_def loops_def list_all_iff)
  moreover have "pj_name j \<notin> set (loops ?s)"
  proof
    assume "pj_name j \<in> set (loops ?s)"
    then have "\<exists>j' \<in> set (peer_jobs s) \<union> set (remove1 j (driving s)). pj_name j' = pj_name j"
      unfolding loops_def by (simp add: image_iff bex_Un) metis
    then obtain j' where j': "j' \<in> set (peer_jobs s) \<union> set (remove1 j (driving s))" "pj_name j' = pj_name j" ..
    moreover have "j \<notin> set (remove1 j (driving s))" using d by (simp add: distinct_map)
    ultimately show False
      using d assms(2) \<open>set (remove1 j (driving s)) \<subseteq> set (driving s)\<close>
      by (auto simp: distinct_map inj_on_def)
  qed
  ultimately show ?thesis unfolding end_peer_def finalize_peer_run_def by (rule loop_inv_transact_status)
qed

lemma loop_inv_recover_fold:
  assumes "loop_inv K s" and "distinct (map wr_name rs)"
    and "\<And>r. r \<in> set rs \<Longrightarrow> wr_name r \<notin> set (loops s) \<and> r \<in> set (workflow_runs s) \<and> wr_status r = InProgress"
  shows "loop_inv K (fold (\<lambda>r s. case wr_role r of Coordinator \<Rightarrow> s | Peer \<Rightarrow> refire_peer listening r s) rs s)"
  using assms
proof (induction rs arbitrary: s)
  case (Cons r rs)
  let ?s = "case wr_role r of Coordinator \<Rightarrow> s | Peer \<Rightarrow> refire_peer listening r s"
  have "wr_role r = Peer" using Cons.prems(1) Cons.prems(3) [of r] by (auto simp: loop_inv_def runs_inv_def list_all_iff run_ok_def)
  then have s: "?s = refire_peer listening r s" by simp
  have p: "in_progress (workflow_runs s) (wr_name r)" using Cons.prems(3) [of r] \<open>wr_role r = Peer\<close> by (auto simp: in_progress_def)
  have "loop_inv K ?s" unfolding s using Cons.prems(1) Cons.prems(3) [of r] p by (intro loop_inv_refire) auto
  then have "loop_inv K (fold (\<lambda>r s. case wr_role r of Coordinator \<Rightarrow> s | Peer \<Rightarrow> refire_peer listening r s) rs ?s)"
  proof (rule Cons.IH)
    show "distinct (map wr_name rs)" using Cons.prems(2) by simp
    show "wr_name r1 \<notin> set (loops ?s) \<and> r1 \<in> set (workflow_runs ?s) \<and> wr_status r1 = InProgress" if "r1 \<in> set rs" for r1
    proof -
      have "wr_name r1 \<noteq> wr_name r" using Cons.prems(2) that by (metis distinct.simps(2) image_eqI list.set_map list.simps(9))
      with Cons.prems(3) [of r1] that refire_peer_keeps [of listening r s] show ?thesis unfolding s by auto
    qed
  qed
  then show ?case by simp
qed simp

lemma loop_inv_boot:
  assumes "loop_inv K s"
  shows "loop_inv K (boot cards_loaded loaded listening s)"
proof -
  let ?s = "s\<lparr>pending_invitations := (if cards_loaded then get_all_pending_invitations s else []), peer_jobs := [], driving := []\<rparr>"
  have s: "loop_inv K ?s"
    using assms by (auto simp: loop_inv_def cards_inv_def loops_def list_all_iff get_all_pending_invitations_def)
  have "distinct (map wr_name (workflow_runs s))" using assms by (simp add: loop_inv_def runs_inv_def)
  then have "distinct (map wr_name (get_in_progress_workflow_runs ?s))"
    by (simp add: get_in_progress_workflow_runs_def distinct_map inj_on_def)
  then have "loop_inv K (fold (\<lambda>r s. case wr_role r of Coordinator \<Rightarrow> s | Peer \<Rightarrow> refire_peer listening r s) (get_in_progress_workflow_runs ?s) ?s)"
    by (rule loop_inv_recover_fold [OF s]) (auto simp: get_in_progress_workflow_runs_def loops_def)
  with s show ?thesis by (simp add: boot_def recover_in_progress_workflows_def)
qed

text \<open>The events of a history without cancellations, in which every invitation names its run and comes from a
  key of \<open>K\<close>, and the runs can be read when an invitation is accepted.\<close>

definition orderly :: "hexlib \<Rightarrow> jsonlib \<Rightarrow> string set \<Rightarrow> event \<Rightarrow> bool" where
  "orderly H J K e = (case e of
     Invited _ _ now t pk p \<Rightarrow> card_ok K (make_invitation now t pk (invitation_meta_from H J t p))
   | Cancelled_by _ _ _ _ _ _ \<Rightarrow> False
   | Accepts E _ _ \<Rightarrow> ae_loaded E
   | _ \<Rightarrow> True)"

lemma loop_inv_happen: "keys_ok K \<Longrightarrow> orderly H J K e \<Longrightarrow> loop_inv K s \<Longrightarrow> loop_inv K (happen H J e s)"
  by (cases e) (auto simp: happen_def orderly_def loop_inv_record loop_inv_retry loop_inv_accept loop_inv_decline
      loop_inv_spawn loop_inv_end loop_inv_boot, auto simp: loop_inv_def cards_inv_def loops_def)

lemma loop_inv_history:
  "keys_ok K \<Longrightarrow> list_all (orderly H J K) es \<Longrightarrow> loop_inv K s \<Longrightarrow> loop_inv K (fold (happen H J) es s)"
  by (induction es arbitrary: s) (simp_all add: loop_inv_happen)

lemma loop_inv_empty: "loop_inv K inbox_empty"
  by (simp add: loop_inv_def cards_inv_def runs_inv_def loops_def inbox_empty_def)

section \<open>The backlog\<close>

lemma record_pending:
  "pending_invitations (record_invitation db1 db2 now t pk m s) =
     (let c = make_invitation now t pk m; invs = filter (\<lambda>i. inv_id i \<noteq> inv_id c) (pending_invitations s) @ [c] in
      filter (\<lambda>i. inv_id i \<notin> set (evicted pk invs)) invs)"
proof -
  let ?c = "make_invitation now t pk m"
  let ?u = "snd (transact db1 (\<lambda>s. Some (upsert_pending_invitation ?c s)) s)"
  have u: "pending_invitations ?u = pending_invitations s"
    by (simp add: snd_transact upsert_pending_invitation_def write_invitation_def)
  have d: "pending_invitations (snd (transact db2 (\<lambda>s. Some (fold delete_pending_invitation out s)) (?u\<lparr>pending_invitations := xs\<rparr>))) = xs" for out xs
    using fold_delete_rows_only [of out "?u\<lparr>pending_invitations := xs\<rparr>"] by (auto simp: snd_transact)
  have e: "pending_invitations (if out = [] then ?u\<lparr>pending_invitations := xs\<rparr>
      else snd (transact db2 (\<lambda>s. Some (fold delete_pending_invitation out s)) (?u\<lparr>pending_invitations := xs\<rparr>))) = xs" for out xs
    using d by simp
  show ?thesis unfolding record_invitation_def Let_def e u by (rule refl)
qed

text \<open>A list with distinct keys: what \<open>evicted\<close> takes off it.\<close>

lemma evicted_props:
  assumes "distinct (map inv_id invs)" and F_def: "F = filter (\<lambda>i. inv_pubkey i = pk) invs"
  shows "length (filter (\<lambda>i. inv_id i \<notin> set (evicted pk invs)) F) \<le> MAX_PENDING_INVITES_PER_COORDINATOR" (is ?bound)
    and "set (evicted pk invs) \<subseteq> inv_id ` set F" (is ?ids)
    and "\<And>c c'. c \<in> set F \<Longrightarrow> c' \<in> set F \<Longrightarrow> inv_id c \<in> set (evicted pk invs) \<Longrightarrow> inv_id c' \<notin> set (evicted pk invs) \<Longrightarrow>
      inv_received_at c \<le> inv_received_at c'"
proof -
  let ?L = "map (\<lambda>i. (inv_received_at i, inv_id i)) F" and ?k = "length F - MAX_PENDING_INVITES_PER_COORDINATOR"
  let ?S = "sort_key fst ?L"
  have out: "evicted pk invs = map snd (take ?k ?S)"
    by (simp add: evicted_def F_def Let_def)
  have dF: "distinct (map inv_id F)" using assms by (simp add: distinct_map_filter)
  have "distinct (map snd ?S)" using dF by (auto simp: distinct_map inj_on_def)
  then have dout: "distinct (evicted pk invs)" unfolding out by (simp add: take_map [symmetric])
  show ids: ?ids unfolding out by (auto dest!: in_set_takeD)
  have "map inv_id (filter (\<lambda>i. inv_id i \<in> set (evicted pk invs)) F) = filter (\<lambda>i. i \<in> set (evicted pk invs)) (map inv_id F)"
    by (simp add: filter_map comp_def)
  then have "set (map inv_id (filter (\<lambda>i. inv_id i \<in> set (evicted pk invs)) F)) = set (evicted pk invs)" using ids by auto
  then have "length (filter (\<lambda>i. inv_id i \<in> set (evicted pk invs)) F) = length (evicted pk invs)"
    using dF dout by (metis distinct_card distinct_map_filter length_map)
  moreover have "length (evicted pk invs) = ?k" unfolding out by simp
  ultimately show ?bound using sum_length_filter_compl [of "\<lambda>i. inv_id i \<in> set (evicted pk invs)" F] by linarith
  fix c c' assume c: "c \<in> set F" "c' \<in> set F" "inv_id c \<in> set (evicted pk invs)" "inv_id c' \<notin> set (evicted pk invs)"
  from c(3) obtain at where at: "(at, inv_id c) \<in> set (take ?k ?S)" unfolding out by auto
  then have "(at, inv_id c) \<in> set ?L" by (metis in_set_takeD set_sort)
  with c(1) dF have "at = inv_received_at c" by (auto simp: distinct_map inj_on_def)
  moreover have "(inv_received_at c', inv_id c') \<in> set (take ?k ?S) \<union> set (drop ?k ?S)"
    using c(2) by (simp flip: set_append)
  then have "(inv_received_at c', inv_id c') \<in> set (drop ?k ?S)" using c(4) unfolding out by force
  moreover have "sorted (map fst (take ?k ?S @ drop ?k ?S))" by simp
  ultimately show "inv_received_at c \<le> inv_received_at c'"
    using at unfolding map_append sorted_append by force
qed

section \<open>Cancelling\<close>

lemma set_status_Cancelled:
  "set_workflow_run_status n Cancelled e now s = Some (s\<lparr>workflow_runs := map (with_status n Cancelled e now) (workflow_runs s),
     artifacts := (artifacts s)(n := Map.empty)\<rparr> :: inbox)"
proof -
  have "(\<lambda>r. if wr_name r = n then r\<lparr>wr_status := Cancelled, wr_error := e, wr_updated_at := now\<rparr> else r) = with_status n Cancelled e now"
    by (simp add: with_status_def fun_eq_iff)
  then show ?thesis by (simp add: set_workflow_run_status_def)
qed

lemma with_status_twice: "with_status n st e now (with_status n st e now r) = with_status n st e now r"
  by (simp add: with_status_def)

lemma cancel_run_keeps:
  "pending_invitations (cancel_peer_run db now r s) = pending_invitations s"
  "invitation_rows (cancel_peer_run db now r s) = invitation_rows s"
  "peer_jobs (cancel_peer_run db now r s) = peer_jobs s" "driving (cancel_peer_run db now r s) = driving s"
  "workflow_runs (cancel_peer_run db now r s) = map (\<lambda>x. if wr_name x = wr_name r \<and> db (wr_name x) = Committed
     then with_status (wr_name x) Cancelled (Some ''Coordinator cancelled the workflow'') now x else x) (workflow_runs s)"
  by (auto simp: cancel_peer_run_def snd_transact set_status_Cancelled with_status_def intro!: map_idI [symmetric])

lemma cancel_fold_keeps:
  "pending_invitations (fold (cancel_peer_run db now) rs s) = pending_invitations s"
  "invitation_rows (fold (cancel_peer_run db now) rs s) = invitation_rows s"
  "peer_jobs (fold (cancel_peer_run db now) rs s) = peer_jobs s" "driving (fold (cancel_peer_run db now) rs s) = driving s"
  by (induction rs arbitrary: s) (simp_all add: cancel_run_keeps)

lemma cancel_fold:
  "workflow_runs (fold (cancel_peer_run db now) rs s) = map (\<lambda>x. if wr_name x \<in> wr_name ` set rs \<and> db (wr_name x) = Committed
     then with_status (wr_name x) Cancelled (Some ''Coordinator cancelled the workflow'') now x else x) (workflow_runs s)"
  by (induction rs arbitrary: s) (auto simp: cancel_run_keeps with_status_twice)

lemma drop_invitations_keeps:
  "workflow_runs (drop_invitations_from db pk inst s) = workflow_runs s"
  "peer_jobs (drop_invitations_from db pk inst s) = peer_jobs s" "driving (drop_invitations_from db pk inst s) = driving s"
  "pending_invitations (drop_invitations_from db pk inst s) = filter (\<lambda>i. \<not> invitation_matches pk inst i) (pending_invitations s)"
proof -
  let ?s = "s\<lparr>pending_invitations := filter (\<lambda>i. \<not> invitation_matches pk inst i) (pending_invitations s)\<rparr>"
  have "\<exists>xs. drop_invitations_from db pk inst s = ?s\<lparr>invitation_rows := xs\<rparr>"
  proof (cases "db = Committed")
    case True
    then show ?thesis
      using rows_only(4) [of pk ?s] fold_delete_rows_only [of "map inv_id (filter (invitation_matches pk inst) (pending_invitations s))" ?s]
      by (cases "inst = []") (simp_all add: drop_invitations_from_def Let_def snd_transact)
  next
    case False
    then have "drop_invitations_from db pk inst s = ?s\<lparr>invitation_rows := invitation_rows s\<rparr>"
      by (simp add: drop_invitations_from_def Let_def snd_transact)
    then show ?thesis by (rule exI)
  qed
  then show "workflow_runs (drop_invitations_from db pk inst s) = workflow_runs s"
    "peer_jobs (drop_invitations_from db pk inst s) = peer_jobs s" "driving (drop_invitations_from db pk inst s) = driving s"
    "pending_invitations (drop_invitations_from db pk inst s) = filter (\<lambda>i. \<not> invitation_matches pk inst i) (pending_invitations s)"
    by auto
qed

lemma cancel_runs:
  assumes "distinct (map wr_name (workflow_runs s))"
  shows "workflow_runs (cancel_peer_runs_from loaded db now pk inst s) =
    map (\<lambda>r. if loaded \<and> wr_status r = InProgress \<and> run_matches pk inst r \<and> db (wr_name r) = Committed
      then with_status (wr_name r) Cancelled (Some ''Coordinator cancelled the workflow'') now r else r) (workflow_runs s)"
proof -
  let ?rs = "filter (run_matches pk inst) (get_in_progress_workflow_runs s)"
  have "wr_name r \<in> wr_name ` set ?rs \<longleftrightarrow> wr_status r = InProgress \<and> run_matches pk inst r" if "r \<in> set (workflow_runs s)" for r
    using that assms by (auto simp: get_in_progress_workflow_runs_def distinct_map dest: inj_onD)
  then show ?thesis
    by (auto simp: cancel_peer_runs_from_def cancel_fold intro: map_idI)
qed

lemma cancel_keeps:
  "pending_invitations (cancel_peer_runs_from loaded db now pk inst s) = pending_invitations s"
  "peer_jobs (cancel_peer_runs_from loaded db now pk inst s) = peer_jobs s"
  "driving (cancel_peer_runs_from loaded db now pk inst s) = driving s"
  by (simp_all add: cancel_peer_runs_from_def cancel_fold_keeps)

section \<open>Properties\<close>

definition example_sender :: string where "example_sender = ''02aaaaaaaaaaaaaaaa''"

definition example_dars :: dars_payload where
  "example_dars = \<lparr>dq_filenames = [''a.dar''], dq_hashes = [], dq_participants = [], dq_instance = Some ''dars-1''\<rparr>"

definition example_card :: pending_invitation where
  "example_card = make_invitation 7 InvDars example_sender (MetaDars example_dars)"

definition example_json :: jsonlib where
  "example_json = \<lparr>json_print = (\<lambda>_. ''doc''), json_parse = (\<lambda>s. Some (if s = ''doc'' then invitation_json std_hex example_card
     else JObj [(''dar_filenames'', JArr [JStr ''a.dar'']), (''workflow_instance'', JStr ''dars-1'')]))\<rparr>"

definition example_accept :: accept_env where
  "example_accept = \<lparr>ae_handled_at = 8, ae_handled_db = Committed, ae_loaded = True, ae_now = 8, ae_insert_db = Committed,
     ae_listening = True, ae_failed_at = 9, ae_failed_db = Committed, ae_restore_db = Committed\<rparr>"

definition example_run :: string where "example_run = ''peer-dars-02aaaaaaaaaaaaaa-dars-1''"

definition example_invited :: event where "example_invited = Invited Committed Committed 7 InvDars example_sender [0]"

definition example_accepts :: event where "example_accepts = Accepts example_accept None (inv_id example_card)"

lemma example_meta: "invitation_meta_from std_hex example_json InvDars [0] = MetaDars example_dars"
  by (simp add: invitation_meta_from_def example_json_def dars_payload_from_def u_required_def u_default_def u_field_def
      u_list_def u_str_def u_option_def example_dars_def bytes_str_def)

lemma example_made: "make_invitation 7 InvDars example_sender (invitation_meta_from std_hex example_json InvDars [0]) = example_card"
  by (simp add: example_meta example_card_def)

definition example_before :: inbox where
  "example_before = inbox_empty\<lparr>pending_invitations := [example_card]\<rparr>"

lemma example_take: "take_card (inv_id example_card) example_before = Some (example_card, inbox_empty)"
  by (simp add: take_card_def extract_def example_before_def inbox_empty_def)

text \<open>C2: what a peer's run is checked against is the invitation its operator saw.  Take
  any card made from a message a coordinator sent.  When accepting it succeeds, one job is queued, for the key the
  message was authenticated with and the run the message named, and reading the stored run back yields exactly the card:
  the kind, the members, the party, the prefix, the thresholds, the participant to kick or to add, the names and hashes of
  the DARs and the contracts to create.  (\<open>serde_json\<close> reads back the document it wrote.)\<close>

theorem accepted_invitation_is_consent:
  assumes "hex_codec H"
    and "c = make_invitation now t pk (invitation_meta_from H J t p)"
    and "json_parse J (json_print J (invitation_json H c)) = Some (invitation_json H c)"
    and "take_card i s = Some (c, s1)"
    and "accept_invitation H J E None i s = (200, s')"
  shows "\<exists>j. peer_jobs s' = peer_jobs s @ [j] \<and> pj_coordinator_pubkey j = pk \<and>
    pj_coordinator_instance j = (case inv_instance c of Some r \<Rightarrow> r | None \<Rightarrow> []) \<and>
    load_expectations (stored_run s') (stored_config H J) own (pj_name j) coordinator = Inr (expectations_of own coordinator c)"
proof -
  have good: "good_card H c" and pk: "inv_pubkey c = pk"
    unfolding assms(2) by (rule received_good)
      (cases "invitation_meta_from H J t p"; simp add: make_invitation_def apply_meta_def blank_invitation_def party_fields_def Let_def)
  from assms have "accept_card H J E c s1 = (200, s')" by (simp add: accept_invitation_def)
  then obtain s2 name where ins: "insert_peer_run H J (ae_insert_db E) (ae_now E) c
      (persist_handled_invitation (ae_handled_db E) c Accepted (ae_handled_at E) s1) = (Some name, s2)"
    and s': "s' = send_job True \<lparr>pj_kind = kind_of_invitation (inv_type c), pj_name = name,
      pj_coordinator_instance = (case inv_instance c of Some i \<Rightarrow> i | None \<Rightarrow> []), pj_coordinator_pubkey = inv_pubkey c\<rparr> s2"
    by (rule accept_card_200)
  have "peer_jobs s2 = peer_jobs s"
    using insert_peer_run_Some(3) [OF ins] take_card_Some(4) [OF assms(4)] by auto
  moreover have "load_expectations (stored_run s') (stored_config H J) own name coordinator = Inr (expectations_of own coordinator c)"
    by (rule hex_codec.load_accepted [OF assms(1) _ assms(3) good])
      (simp add: s' insert_peer_run_Some(2) [OF ins])
  ultimately show ?thesis by (simp add: s' send_job_def pk)
qed

theorem accepted_invitation_is_consent_witness:
  "\<exists>s'. accept_invitation std_hex example_json example_accept None (inv_id example_card) example_before = (200, s') \<and>
    (\<exists>j. peer_jobs s' = [j] \<and> pj_coordinator_pubkey j = example_sender \<and>
      load_expectations (stored_run s') (stored_config std_hex example_json) ex_me (pj_name j) ex_party
        = Inr (expectations_of ex_me ex_party example_card))"
proof -
  have "fst (accept_invitation std_hex example_json example_accept None (inv_id example_card) example_before) = 200"
    by code_simp
  then obtain s' where a: "accept_invitation std_hex example_json example_accept None (inv_id example_card) example_before = (200, s')"
    by (metis prod.collapse)
  have d: "json_parse example_json (json_print example_json (invitation_json std_hex example_card)) = Some (invitation_json std_hex example_card)"
    by (simp add: example_json_def)
  have "peer_jobs example_before = []" by (simp add: example_before_def inbox_empty_def)
  with accepted_invitation_is_consent [OF std.hex_codec_axioms example_made [symmetric] d example_take a, of ex_me ex_party] a
  show ?thesis by auto
qed

text \<open>A run that was accepted and is driven.\<close>

definition example_driven :: inbox where
  "example_driven = fold (happen std_hex example_json) [example_invited, example_accepts, Spawns] inbox_empty"



text \<open>\<open>accept_invitation\<close> refuses to start a second loop for a run, and names an
  invitation delivered after a scoped cancel as a case it is for; but it does not refuse there.  The cancel leaves the task
  running and marks its row, so the next accept of the same run finds no row in progress: two jobs then act for one row.\<close>

theorem cancel_and_reaccept_doubles:
  "map pj_name (peer_jobs (fold (happen std_hex example_json) [example_invited, example_accepts, Spawns,
      Cancelled_by Committed True (\<lambda>_. Committed) 9 example_sender ''dars-1'', example_invited, example_accepts] inbox_empty) @
    driving (fold (happen std_hex example_json) [example_invited, example_accepts, Spawns,
      Cancelled_by Committed True (\<lambda>_. Committed) 9 example_sender ''dars-1'', example_invited, example_accepts] inbox_empty))
   = [example_run, example_run]"
  by code_simp

text \<open>A \<open>CancelInvite\<close> that names a run takes back exactly that run: of the cards those
  of that sender and run go, of the runs exactly those of that sender and run that are in progress become cancelled, if the
  read and the transaction succeed; every other card and run stays as it is, and so do the queued jobs and the
  tasks, also those of the cancelled run.\<close>

theorem scoped_cancel_isolated:
  assumes "inst \<noteq> []" and "distinct (map wr_name (workflow_runs s))"
    and "s' = happen H J (Cancelled_by db loaded dbs now pk inst) s"
  shows "pending_invitations s' = filter (\<lambda>c. \<not> (inv_pubkey c = pk \<and> inv_instance c = Some inst)) (pending_invitations s) \<and>
    workflow_runs s' = map (\<lambda>r. if wr_role r = Peer \<and> wr_coordinator_pubkey r = Some pk \<and> wr_coordinator_instance r = Some inst \<and>
          wr_status r = InProgress \<and> loaded \<and> dbs (wr_name r) = Committed
        then r\<lparr>wr_status := Cancelled, wr_error := Some ''Coordinator cancelled the workflow'', wr_updated_at := now\<rparr> else r) (workflow_runs s) \<and>
    peer_jobs s' = peer_jobs s \<and> driving s' = driving s"
proof -
  have "distinct (map wr_name (workflow_runs (drop_invitations_from db pk inst s)))" using assms(2) by (simp add: drop_invitations_keeps)
  from cancel_runs [OF this, of loaded dbs now pk inst] assms(1) show ?thesis
    unfolding assms(3) by (auto simp: happen_def cancel_keeps drop_invitations_keeps invitation_matches_def run_matches_def with_status_def)
qed

theorem scoped_cancel_isolated_witness:
  "pending_invitations (happen std_hex example_json (Cancelled_by Committed True (\<lambda>_. Committed) 9 example_sender ''dars-1'') example_driven) = [] \<and>
   map wr_status (workflow_runs (happen std_hex example_json (Cancelled_by Committed True (\<lambda>_. Committed) 9 example_sender ''dars-1'') example_driven)) = [Cancelled] \<and>
   driving (happen std_hex example_json (Cancelled_by Committed True (\<lambda>_. Committed) 9 example_sender ''dars-1'') example_driven) = driving example_driven"
proof -
  have "distinct (map wr_name (workflow_runs example_driven))" by code_simp
  note c = scoped_cancel_isolated [OF _ this refl, of "''dars-1''" std_hex example_json Committed True "\<lambda>_. Committed" 9 example_sender]
  have "pending_invitations example_driven = []" by code_simp
  moreover have "map wr_status (workflow_runs (happen std_hex example_json (Cancelled_by Committed True (\<lambda>_. Committed) 9 example_sender ''dars-1'') example_driven)) = [Cancelled]"
    by code_simp
  ultimately show ?thesis using c by simp
qed

text \<open>The backlog of invitations is bounded per coordinator.  Recording an invitation
  leaves at most sixteen cards of its sender, whatever the transactions do and however many there were; the ids stay
  distinct, no card of the sender that goes is newer than one that stays, and no other coordinator's card goes, unless it
  has the very id of the new one.\<close>

theorem invitation_backlog_bounded:
  assumes "distinct (map inv_id (pending_invitations s))"
    and "c = make_invitation now t pk m"
    and "P = pending_invitations (record_invitation db1 db2 now t pk m s)"
  shows "length (filter (\<lambda>i. inv_pubkey i = pk) P) \<le> 16 \<and> distinct (map inv_id P) \<and>
    (\<forall>i \<in> set (pending_invitations s). inv_pubkey i \<noteq> pk \<and> inv_id i \<noteq> inv_id c \<longrightarrow> i \<in> set P) \<and>
    (\<forall>i \<in> insert c {i \<in> set (pending_invitations s). inv_id i \<noteq> inv_id c}. inv_pubkey i = pk \<and> i \<notin> set P \<longrightarrow>
      (\<forall>j \<in> set P. inv_pubkey j = pk \<longrightarrow> inv_received_at i \<le> inv_received_at j))"
proof -
  define invs where "invs = filter (\<lambda>i. inv_id i \<noteq> inv_id c) (pending_invitations s) @ [c]"
  have P: "P = filter (\<lambda>i. inv_id i \<notin> set (evicted pk invs)) invs"
    unfolding assms(2,3) invs_def record_pending Let_def by (rule refl)
  have set_invs: "set invs = insert c {i \<in> set (pending_invitations s). inv_id i \<noteq> inv_id c}" by (auto simp: invs_def)
  have d: "distinct (map inv_id invs)" using assms(1) by (auto simp: invs_def distinct_map_filter)
  note ev = evicted_props [OF d refl [of "filter (\<lambda>i. inv_pubkey i = pk) invs"]]
  have "length (filter (\<lambda>i. inv_pubkey i = pk) P) \<le> 16"
    using ev(1) by (simp add: P MAX_PENDING_INVITES_PER_COORDINATOR_def conj_commute)
  moreover have "distinct (map inv_id P)" unfolding P using d by (rule distinct_map_filter)
  moreover have "i \<in> set P" if "i \<in> set invs" "inv_pubkey i \<noteq> pk" for i
  proof -
    have "inv_id i \<notin> set (evicted pk invs)"
    proof
      assume "inv_id i \<in> set (evicted pk invs)"
      with ev(2) obtain j where "j \<in> set invs" "inv_pubkey j = pk" "inv_id i = inv_id j" by auto
      with that d show False by (metis distinct_map inj_onD)
    qed
    with that show ?thesis by (simp add: P)
  qed
  moreover have "inv_received_at i \<le> inv_received_at j"
    if "i \<in> set invs" "inv_pubkey i = pk" "i \<notin> set P" "j \<in> set P" "inv_pubkey j = pk" for i j
    using that by (intro ev(3)) (auto simp: P)
  ultimately show ?thesis unfolding set_invs [symmetric] by (simp add: set_invs)
qed

theorem invitation_backlog_bounded_witness:
  "length (filter (\<lambda>i. inv_pubkey i = example_sender)
     (pending_invitations (record_invitation Committed Committed 7 InvDars example_sender (MetaDars example_dars) example_before))) \<le> 16"
proof -
  have "distinct (map inv_id (pending_invitations example_before))" by (simp add: example_before_def)
  from invitation_backlog_bounded [OF this refl refl] show ?thesis by (rule conjunct1)
qed

text \<open>A cancelled peer run does not stay cancelled.  The cancel leaves its task running;
  when that gives up, since the coordinator's run is gone, \<open>finalize_peer_run\<close> overwrites the status with \<open>Failed\<close>,
  where \<open>finish_workflow_run\<close> of the coordinator's side would have kept the first terminal one.\<close>

theorem cancelled_run_ends_failed:
  assumes "distinct (map wr_name (workflow_runs s))" and "r \<in> set (workflow_runs s)" and "wr_status r = InProgress"
    and "run_matches pk inst r" and "j \<in> set (driving s)" and "pj_name j = wr_name r"
    and "s1 = happen H J (Cancelled_by Committed True (\<lambda>_. Committed) now pk inst) s"
    and "s2 = happen H J (Ends Committed j (False, Some e) later) s1"
  shows "map_option wr_status (get_workflow_run (wr_name r) s1) = Some Cancelled \<and>
    map_option wr_status (get_workflow_run (wr_name r) s2) = Some Failed \<and>
    (row_status row = Cancelled \<longrightarrow> finish_workflow_run Failed (Some e) later row = Inr (row, False))"
proof -
  have found: "find (\<lambda>x. wr_name x = wr_name r) (map f rs) = Some (f r)"
    if "distinct (map wr_name rs)" "r \<in> set rs" "\<And>x. wr_name (f x) = wr_name x" for f rs
    using that by (induction rs) (auto simp: image_iff)
  have s1: "workflow_runs s1 = map (\<lambda>x. if wr_status x = InProgress \<and> run_matches pk inst x
      then with_status (wr_name x) Cancelled (Some ''Coordinator cancelled the workflow'') now x else x) (workflow_runs s)"
    using assms(1) by (simp add: assms(7) happen_def cancel_runs drop_invitations_keeps)
  have "j \<in> set (driving s1)" using assms(5) by (simp add: assms(7) happen_def cancel_keeps drop_invitations_keeps)
  then have "s2 = end_peer Committed j (False, Some e) later s1" by (simp add: assms(8) happen_def)
  then have "set_workflow_run_status (wr_name r) Failed (Some e) later (s1\<lparr>driving := remove1 j (driving s1)\<rparr>) = Some s2"
    using assms(6) by (simp add: end_peer_def finalize_peer_run_def snd_transact set_workflow_run_status_def Let_def)
  then have "workflow_runs s2 = map (with_status (wr_name r) Failed (Some e) later) (workflow_runs s1)"
    by (simp add: set_status_Some(1))
  then have "get_workflow_run (wr_name r) s1 = Some (with_status (wr_name r) Cancelled (Some ''Coordinator cancelled the workflow'') now r)"
    "map_option wr_status (get_workflow_run (wr_name r) s2) = Some Failed"
    using assms(1-4) by (simp_all add: get_workflow_run_def s1 found)
  then show ?thesis by (auto simp: finish_workflow_run_def)
qed

theorem cancelled_run_ends_failed_witness:
  "\<exists>s1 j. s1 = happen std_hex example_json (Cancelled_by Committed True (\<lambda>_. Committed) 9 example_sender ''dars-1'') example_driven \<and>
    map_option wr_status (get_workflow_run example_run s1) = Some Cancelled \<and>
    map_option wr_status (get_workflow_run example_run (happen std_hex example_json (Ends Committed j (False, Some ''gone'') 10) s1)) = Some Failed"
proof -
  let ?r = "hd (workflow_runs example_driven)" and ?j = "hd (driving example_driven)"
  have d: "distinct (map wr_name (workflow_runs example_driven))" by code_simp
  have "length (workflow_runs example_driven) = 1" "length (driving example_driven) = 1" by code_simp+
  then have r: "?r \<in> set (workflow_runs example_driven)" and j: "?j \<in> set (driving example_driven)" by (auto simp: length_Suc_conv)
  have p: "wr_status ?r = InProgress" and m: "run_matches example_sender ''dars-1'' ?r" and n: "pj_name ?j = wr_name ?r"
    and e: "wr_name ?r = example_run" by code_simp+
  from cancelled_run_ends_failed [OF d r p m j n refl refl, of std_hex example_json 9 "''gone''" 10 example_row] e
  show ?thesis by (intro exI [of _ "happen std_hex example_json (Cancelled_by Committed True (\<lambda>_. Committed) 9 example_sender ''dars-1'') example_driven"]
      exI [of _ ?j]) simp
qed

text \<open>The DAR an operator reads before accepting is the one the run can install.  If a
  file of a pending invitation was served as checked, and later a bundle passes the check of the run that invitation
  became, then the file of that name in the bundle has the hash of the one that was read.\<close>

theorem read_dar_is_installed_dar:
  assumes "get_invitation_dar (hash_dar P) coordinator_peer fetch refusal i index s = Inr (name, dar, False)"
    and "take_card i s = Some (c, s1)"
    and "check_dars P (expectations_of own coordinator c) files = Inr ()" and "(name, data) \<in> set files"
  shows "hash_dar P data = hash_dar P dar"
proof -
  have found: "find (\<lambda>c. inv_id c = i) (pending_invitations s) = Some c"
    using assms(2) by (auto simp: take_card_def extract_Some_iff find_append_hit split: option.splits)
  from assms(1) found have index: "index < length (inv_dar_filenames c)" and name: "name = inv_dar_filenames c ! index"
    and h: "pinned_dar_hash (inv_dar_filenames c) (inv_dar_hashes c) index = Inr (Some (hash_dar P dar))"
    by (auto simp: get_invitation_dar_def Let_def split: option.splits sum.splits if_splits)
  then have "length (inv_dar_hashes c) = length (inv_dar_filenames c)" "inv_dar_hashes c ! index = hash_dar P dar" "inv_dar_hashes c \<noteq> []"
    by (auto simp: pinned_dar_hash_def split: if_splits)
  with assms(3,4) index name show ?thesis
    unfolding check_dars_iff by (auto simp: expectations_of_def)
qed

theorem read_dar_is_installed_dar_witness:
  "\<exists>s c. get_invitation_dar (hash_dar (example_proto (\<lambda>_. None))) Some (\<lambda>_ _. Inr [5, 6]) None (inv_id c) 0 s = Inr (''a.dar'', [5, 6], False) \<and>
    check_dars (example_proto (\<lambda>_. None)) (expectations_of ex_me ex_party c) [(''a.dar'', [5, 6])] = Inr () \<and>
    hash_dar (example_proto (\<lambda>_. None)) [5, 6] = inv_dar_hashes c ! 0"
proof -
  let ?P = "example_proto (\<lambda>_. None)"
  let ?c = "example_card\<lparr>inv_dar_hashes := [hash_dar ?P [5, 6]]\<rparr>" and ?s = "inbox_empty\<lparr>pending_invitations := []\<rparr>"
  have n: "inv_dar_filenames ?c = [''a.dar'']" "inv_instance ?c = Some ''dars-1''"
    by (simp_all add: example_card_def make_invitation_def apply_meta_def blank_invitation_def example_dars_def Let_def)
  have g: "get_invitation_dar (hash_dar ?P) Some (\<lambda>_ _. Inr [5, 6]) None (inv_id ?c) 0 (?s\<lparr>pending_invitations := [?c]\<rparr>)
      = Inr (''a.dar'', [5, 6], False)"
    using n by (simp add: get_invitation_dar_def pinned_dar_hash_def Let_def)
  have t: "take_card (inv_id ?c) (?s\<lparr>pending_invitations := [?c]\<rparr>) = Some (?c, ?s\<lparr>pending_invitations := []\<rparr>)"
    by (simp add: take_card_def extract_def)
  have k: "check_dars ?P (expectations_of ex_me ex_party ?c) [(''a.dar'', [5, 6])] = Inr ()"
    using n by (simp add: check_dars_def expectations_of_def)
  have "hash_dar ?P [5, 6] = hash_dar ?P [5, 6]" by (rule read_dar_is_installed_dar [OF g t k]) simp
  then show ?thesis using g k by (intro exI [of _ "?s\<lparr>pending_invitations := [?c]\<rparr>"] exI [of _ ?c]) simp
qed

end
