(* ===== verification/Node.thy ===== *)
theory Node
  imports Listener Invitations
begin

text \<open>
  The messages the always-on listener answers itself (\<open>handle_incoming_connection\<close> of \<open>server/mod.rs\<close>):
  pings, health reports (\<open>server/health.rs\<close>), the DARs an invited peer may read, with the cache their chunks
  are served from, lists of keys and peers, invitations and what a coordinator does with them later; the allowlist
  the handshake is checked against; and the peer side of reading a DAR (\<open>fetch_dar_from_coordinator\<close>).

  Reads of Canton (\<open>list_my_owner_keys\<close>), of the peers table and of the credentials, the \<open>base64\<close> and
  \<open>secp256k1\<close> crates and the texts of refusals are parameters.
\<close>

section \<open>Who may connect\<close>

record peer_record =
  pe_participant_id :: canton_id
  pe_name :: string
  pe_address :: string
  pe_port :: nat
  pe_public_key :: string
  pe_party :: "string option"

text \<open>\<open>parse_public_key\<close> and the serialisation of a key; \<open>'k\<close> is \<open>secp256k1::PublicKey\<close>.\<close>

record 'k keylib =
  key_from_slice :: "bytes \<Rightarrow> 'k option"
  key_serialize :: "'k \<Rightarrow> bytes"

definition parse_public_key :: "hexlib \<Rightarrow> 'k keylib \<Rightarrow> string \<Rightarrow> 'k option" where
  "parse_public_key H C s = Option.bind (hex_decode H s) (key_from_slice C)"

definition add_peer_key :: "hexlib \<Rightarrow> 'k keylib \<Rightarrow> canton_id \<Rightarrow> peer_record \<Rightarrow> (string \<rightharpoonup> 'k) \<Rightarrow> (string \<rightharpoonup> 'k)" where
  "add_peer_key H C self p keys =
     (if pe_participant_id p = self \<or> pe_public_key p = [] then keys
      else case parse_public_key H C (pe_public_key p) of
        Some k \<Rightarrow> keys(canton_id_display H (pe_participant_id p) \<mapsto> k) | None \<Rightarrow> keys)"

definition build_peer_key_map :: "hexlib \<Rightarrow> 'k keylib \<Rightarrow> string + peer_record list \<Rightarrow> canton_id \<Rightarrow> (string \<rightharpoonup> 'k)" where
  "build_peer_key_map H C peers self = (case peers of Inl _ \<Rightarrow> Map.empty | Inr ps \<Rightarrow> fold (add_peer_key H C self) ps Map.empty)"

text \<open>The handshake's responder: the pre-shared key for a claimed identity, if any.\<close>

definition responder :: "(string \<rightharpoonup> 'k) \<Rightarrow> ('k \<Rightarrow> bytes) \<Rightarrow> bytes \<Rightarrow> bytes option" where
  "responder keys derive_psk identity = Option.bind (from_utf8 identity) (\<lambda>who. map_option derive_psk (keys who))"

definition peer_pubkey_hex :: "hexlib \<Rightarrow> 'k keylib \<Rightarrow> (string \<rightharpoonup> 'k) \<Rightarrow> string option \<Rightarrow> string option" where
  "peer_pubkey_hex H C keys sender = Option.bind sender (\<lambda>who. map_option (\<lambda>k. hex_encode H (key_serialize C k)) (keys who))"

text \<open>\<open>find_coordinator_peer\<close> and \<open>get_peer_by_public_key\<close>: by the text in the table.\<close>

definition find_coordinator_peer :: "string + peer_record list \<Rightarrow> string \<Rightarrow> peer_record option" where
  "find_coordinator_peer peers pk = (case peers of Inl _ \<Rightarrow> None | Inr ps \<Rightarrow> find (\<lambda>p. pe_public_key p = pk) ps)"

definition get_peer_by_public_key :: "string + peer_record list \<Rightarrow> string \<Rightarrow> string + peer_record option" where
  "get_peer_by_public_key peers pk = (case peers of Inl e \<Rightarrow> Inl e | Inr ps \<Rightarrow> Inr (find (\<lambda>p. pe_public_key p = pk) ps))"

definition peers_with_unparseable_keys :: "hexlib \<Rightarrow> 'k keylib \<Rightarrow> peer_record list \<Rightarrow> string list" where
  "peers_with_unparseable_keys H C ps =
     map (\<lambda>p. canton_id_display H (pe_participant_id p)) (filter (\<lambda>p. parse_public_key H C (pe_public_key p) = None) ps)"

text \<open>\<open>save_network_config\<close>: the table is replaced, or the request refused.\<close>

definition save_network_config :: "hexlib \<Rightarrow> 'k keylib \<Rightarrow> db_outcome \<Rightarrow> nat option \<Rightarrow> peer_record list \<Rightarrow> peer_record list
    \<Rightarrow> nat \<times> peer_record list" where
  "save_network_config H C db refusal new old = (case refusal of Some status \<Rightarrow> (status, old) | None \<Rightarrow>
     if peers_with_unparseable_keys H C new \<noteq> [] then (400, old)
     else if db = Committed then (200, new) else (500, old))"

section \<open>The environment of a request\<close>

datatype dar_refusal =
    MalformedRequest
  | UnknownCaller
  | RunUnreadable string
  | NoSuchRun string
  | NotDars string
  | NotInvited string string
  | UnreadableConfig string
  | NoDarAt nat
  | OtherDar nat string string
  | DoesNotDecode string

record local_env =
  lo_hex :: hexlib
  lo_json :: jsonlib
  lo_base64 :: "string \<Rightarrow> bytes option"
  lo_sender :: "string option"
  lo_pubkey :: "string option"
  lo_our_pubkey :: string
  lo_participant_id :: string
  lo_semver :: string
  lo_build :: string
  lo_peers :: "string + peer_record list"
  lo_credentials :: "(canton_id \<times> canton_id) list"
  lo_owner_keys :: "string list \<Rightarrow> string + bytes"
  lo_refusal :: "dar_refusal \<Rightarrow> string"
  lo_instant :: nat
  lo_now :: int
  lo_db1 :: db_outcome
  lo_db2 :: db_outcome
  lo_dbs :: "string \<Rightarrow> db_outcome"
  lo_loaded :: bool
  lo_listening :: bool

text \<open>The state of the node: the listener's, the inbox, and per key a payload kept for chunk requests with the
  time it was last used.\<close>

record node_state = listener +
  box :: inbox
  chunk_cache :: "string \<rightharpoonup> bytes \<times> nat"

section \<open>Health\<close>

definition workflow_info_json :: "workflow_run \<Rightarrow> json" where
  "workflow_info_json r = JObj [(''kind'', JStr (kind_str (wr_kind r))), (''role'', JStr (role_str (wr_role r))),
     (''step'', JStr (wr_step r)), (''step_index'', JNum (wr_index r)), (''step_total'', JNum (wr_total r))]"

definition build_health_response :: "local_env \<Rightarrow> inbox \<Rightarrow> json" where
  "build_health_response L s =
     (let rs = (if lo_loaded L then get_in_progress_workflow_runs s else []);
          workflow = (case rs of [] \<Rightarrow> None | r # _ \<Rightarrow> Some r) in
      JObj [(''participant_id'', JStr (lo_participant_id L)), (''in_workflow'', JBool (workflow \<noteq> None)),
        (''workflow'', j_option workflow_info_json workflow), (''workflow_count'', JNum (int (length rs))),
        (''version'', JStr (lo_semver L)), (''build_version'', JStr (lo_build L))])"

section \<open>DARs for invited peers\<close>

definition u_usize :: "json \<Rightarrow> nat option" where
  "u_usize j = (case j of JNum n \<Rightarrow> if 0 \<le> n \<and> n < 2 ^ 64 then Some (nat n) else None | _ \<Rightarrow> None)"

definition request_dar_from :: "json \<Rightarrow> (string \<times> nat \<times> string) option" where
  "request_dar_from j = (case j of JObj kvs \<Rightarrow>
     Option.bind (u_required ''workflow_instance'' u_str kvs) (\<lambda>w.
     Option.bind (u_required ''index'' u_usize kvs) (\<lambda>i.
     Option.bind (u_required ''filename'' u_str kvs) (\<lambda>f. Some (w, i, f))))
   | _ \<Rightarrow> None)"

definition request_dar_json :: "string \<times> nat \<times> string \<Rightarrow> json" where
  "request_dar_json r = (case r of (w, i, f) \<Rightarrow>
     JObj [(''workflow_instance'', JStr w), (''index'', JNum (int i)), (''filename'', JStr f)])"

definition dar_file_from :: "json \<Rightarrow> (string \<times> string) option" where
  "dar_file_from j = (case j of JObj kvs \<Rightarrow>
     Option.bind (u_required ''filename'' u_str kvs) (\<lambda>f. Option.bind (u_required ''data'' u_str kvs) (\<lambda>d. Some (f, d)))
   | _ \<Rightarrow> None)"

text \<open>The files of a \<open>DarsConfig\<close>, names with base64 data.\<close>

definition dars_config_from :: "hexlib \<Rightarrow> json \<Rightarrow> (string \<times> string) list option" where
  "dars_config_from H j = (case j of JObj kvs \<Rightarrow>
     Option.bind (u_required ''dar_files'' (u_list dar_file_from) kvs) (\<lambda>fs.
     Option.bind (u_required ''instance_name'' u_str kvs) (\<lambda>_.
     Option.bind (u_required ''peer_ids'' (u_list (u_id H)) kvs) (\<lambda>_. Some fs)))
   | _ \<Rightarrow> None)"

definition dar_for_invited_peer :: "local_env \<Rightarrow> bytes \<Rightarrow> inbox \<Rightarrow> dar_refusal + bytes" where
  "dar_for_invited_peer L p s =
     and_then (ok_or MalformedRequest (Option.bind (json_parse (lo_json L) (bytes_str p)) request_dar_from)) (\<lambda>(inst, index, filename).
     and_then (ok_or UnknownCaller (lo_sender L)) (\<lambda>sender.
     and_then (if lo_loaded L then Inr (get_workflow_run inst s) else Inl (RunUnreadable inst)) (\<lambda>found.
     and_then (ok_or (NoSuchRun inst) found) (\<lambda>run.
     and_then (ensure (wr_kind run = Dars) (NotDars inst)) (\<lambda>_.
     and_then (ensure (list_ex (\<lambda>i. canton_id_display (lo_hex L) i = sender) (wr_expected_peers run)) (NotInvited sender inst)) (\<lambda>_.
     and_then (ok_or (UnreadableConfig inst) (Option.bind (json_parse (lo_json L) (wr_config_json run)) (dars_config_from (lo_hex L)))) (\<lambda>files.
     and_then (if index < length files then Inr (files ! index) else Inl (NoDarAt index)) (\<lambda>(name, data).
     and_then (ensure (name = filename) (OtherDar index name filename)) (\<lambda>_.
       ok_or (DoesNotDecode name) (lo_base64 L data))))))))))"

definition PEER_CHUNK_CACHE_TTL :: nat where "PEER_CHUNK_CACHE_TTL = 30 * 10 ^ 9"

definition peer_payload_response :: "local_env \<Rightarrow> bytes \<Rightarrow> node_state \<Rightarrow> http_outcome \<times> node_state" where
  "peer_payload_response L p s =
     (if length p \<le> MAX_PAYLOAD_SIZE then (ok_response (message_new Data p), s)
      else case lo_pubkey L of
        None \<Rightarrow> (ok_response (message_new Data p), s)
      | Some pk \<Rightarrow>
          if length p > MAX_CHUNKED_TOTAL_SIZE then (HttpResponse 500 False (Inr []), s)
          else (ok_response (chunked_announcement Data p),
                s\<lparr>chunk_cache := (\<lambda>k. case chunk_cache s k of
                     Some (d, t) \<Rightarrow> if lo_instant L - t < PEER_CHUNK_CACHE_TTL then Some (d, t) else None
                   | None \<Rightarrow> None)(pk \<mapsto> (p, lo_instant L))\<rparr>))"

definition request_dar :: "local_env \<Rightarrow> bytes \<Rightarrow> node_state \<Rightarrow> http_outcome \<times> node_state" where
  "request_dar L p s = (case dar_for_invited_peer L p (box s) of
     Inr dar \<Rightarrow> peer_payload_response L dar s
   | Inl e \<Rightarrow> (ok_response (message_new Error (str_bytes (lo_refusal L e))), s))"

text \<open>A request for a chunk that names no run.\<close>

definition cached_chunk :: "local_env \<Rightarrow> bytes \<Rightarrow> node_state \<Rightarrow> http_outcome \<times> node_state" where
  "cached_chunk L p s =
     (if length p < 4 then (HttpResponse 400 False (Inr []), s)
      else let index = be_nat [p ! 0, p ! 1, p ! 2, p ! 3] in
      case lo_pubkey L of
        None \<Rightarrow> (HttpResponse 400 False (Inr []), s)
      | Some pk \<Rightarrow> (case chunk_cache s pk of
          None \<Rightarrow> (HttpResponse 404 False (Inr []), s)
        | Some (d, t) \<Rightarrow>
            if lo_instant L - t \<ge> PEER_CHUNK_CACHE_TTL
            then (HttpResponse 404 False (Inr []), s\<lparr>chunk_cache := (chunk_cache s)(pk := None)\<rparr>)
            else let start = index * CHUNK_SIZE in
              if start \<ge> length d then (HttpResponse 400 False (Inr []), s)
              else let b = take (min (start + CHUNK_SIZE) (length d) - start) (drop start d) in
                (ok_response (message_new Chunk (be_bytes 4 index @ b)),
                 s\<lparr>chunk_cache := (chunk_cache s)(pk \<mapsto> (d, lo_instant L))\<rparr>)))"

section \<open>The other messages\<close>

definition json_bytes :: "local_env \<Rightarrow> json \<Rightarrow> bytes" where
  "json_bytes L j = str_bytes (json_print (lo_json L) j)"

definition request_owner_keys :: "local_env \<Rightarrow> bytes \<Rightarrow> bytes" where
  "request_owner_keys L p =
     (let wanted = (case Option.bind (json_parse (lo_json L) (bytes_str p)) (u_list u_str) of Some ids \<Rightarrow> ids | None \<Rightarrow> []) in
      case lo_owner_keys L wanted of Inr d \<Rightarrow> d | Inl _ \<Rightarrow> str_bytes ''[]'')"

definition list_peers :: "local_env \<Rightarrow> bytes" where
  "list_peers L = (case lo_peers L of
     Inr ps \<Rightarrow> json_bytes L (j_list (\<lambda>p. j_id (lo_hex L) (pe_participant_id p)) ps) | Inl _ \<Rightarrow> str_bytes ''[]'')"

definition member_party :: "local_env \<Rightarrow> bytes \<Rightarrow> bytes" where
  "member_party L p =
     (let party = (case from_utf8 p of Some s \<Rightarrow> s | None \<Rightarrow> []) in
      case find (\<lambda>(dec, _). canton_id_display (lo_hex L) dec = party) (lo_credentials L) of
        Some (_, member) \<Rightarrow> str_bytes (canton_id_display (lo_hex L) member) | None \<Rightarrow> [])"

definition invitation_of_message :: "message_type \<Rightarrow> invitation_type option" where
  "invitation_of_message t = (case t of InviteOnboarding \<Rightarrow> Some InvOnboarding | InviteKick \<Rightarrow> Some InvKick
     | InviteContracts \<Rightarrow> Some InvContracts | InviteDars \<Rightarrow> Some InvDars | InviteAddParty \<Rightarrow> Some InvAddParty
     | InviteChangeThreshold \<Rightarrow> Some InvChangeThreshold | _ \<Rightarrow> None)"

text \<open>What a message does to the inbox, for a sender whose key is known.\<close>

definition inbox_request :: "local_env \<Rightarrow> message \<Rightarrow> inbox \<Rightarrow> inbox" where
  "inbox_request L m s = (case lo_pubkey L of None \<Rightarrow> s | Some pk \<Rightarrow>
     (case invitation_of_message (msg_type m) of
        Some t \<Rightarrow> record_invitation (lo_db1 L) (lo_db2 L) (lo_now L) t pk
                    (invitation_meta_from (lo_hex L) (lo_json L) t (payload m)) s
      | None \<Rightarrow>
          if msg_type m = CancelInvite then cancel_peer_runs_from (lo_loaded L) (lo_dbs L) (lo_now L) pk (msg_instance m)
                   (drop_invitations_from (lo_db1 L) pk (msg_instance m) s)
          else if msg_type m = RetryWorkflow
          then retry_peer_runs_from (lo_loaded L) (lo_listening L) (lo_dbs L) (lo_now L) pk (msg_instance m) s
          else s))"

definition local_request :: "local_env \<Rightarrow> message \<Rightarrow> node_state \<Rightarrow> http_outcome \<times> node_state" where
  "local_request L m s =
     (if msg_type m = Ping then (ok_response (message_new Pong (str_bytes (lo_our_pubkey L))), s)
      else if msg_type m = Health
      then (ok_response (message_new HealthResponse (json_bytes L (build_health_response L (box s)))), s)
      else if msg_type m = RequestDar then request_dar L (payload m) s
      else if msg_type m = GetChunk then cached_chunk L (payload m) s
      else if msg_type m = RequestOwnerKeys then (ok_response (message_new OwnerKeys (request_owner_keys L (payload m))), s)
      else if msg_type m = ListPeers then (ok_response (message_new PeerList (list_peers L)), s)
      else if msg_type m = RequestMemberParty then (ok_response (message_new MemberPartyResponse (member_party L (payload m))), s)
      else if invitation_of_message (msg_type m) \<noteq> None \<or> msg_type m = CancelInvite \<or> msg_type m = RetryWorkflow
      then (ok_response (message_new_empty Ack), s\<lparr>box := inbox_request L m (box s)\<rparr>)
      else (HttpResponse 200 False (Inr []), s))"

text \<open>The whole of the request handler.  The two environments describe one request.\<close>

definition handle_request :: "listener_env \<times> local_env \<Rightarrow> bytes \<Rightarrow> node_state \<Rightarrow> http_outcome \<times> node_state" where
  "handle_request E body s = handle_frame (fst E) (local_request (snd E)) body s"

section \<open>Reading a DAR, at the peer\<close>

datatype fetch_error = Transport noise_error | NotParsed | Refused string | Unexpected message_type

definition fetch_dar_from_coordinator :: "jsonlib \<Rightarrow> nat \<Rightarrow> 'w exchange \<Rightarrow> string \<times> nat \<times> string \<Rightarrow> 'w \<Rightarrow> (fetch_error + bytes) \<times> 'w" where
  "fetch_dar_from_coordinator J tries ex request w =
     (case send_noise_message_with_chunked_response tries ex
        (message_new RequestDar (str_bytes (json_print J (request_dar_json request)))) w of
        (Inl e, w') \<Rightarrow> (Inl (Transport e), w')
      | (Inr r, w') \<Rightarrow> (case from_bytes r of
          Inl _ \<Rightarrow> (Inl NotParsed, w')
        | Inr m \<Rightarrow> if msg_type m = Data then (Inr (payload m), w')
                  else if msg_type m = Error then (Inl (Refused (from_utf8_lossy (payload m))), w')
                  else (Inl (Unexpected (msg_type m)), w')))"

section \<open>Lemmas\<close>

subsection \<open>The allowlist\<close>

lemma peer_key_fold:
  assumes "distinct (map (\<lambda>p. canton_id_display H (pe_participant_id p)) ps)"
  shows "fold (add_peer_key H C self) ps keys who =
    (case find (\<lambda>p. canton_id_display H (pe_participant_id p) = who \<and> pe_participant_id p \<noteq> self \<and> pe_public_key p \<noteq> [] \<and>
        parse_public_key H C (pe_public_key p) \<noteq> None) ps of
       Some p \<Rightarrow> parse_public_key H C (pe_public_key p) | None \<Rightarrow> keys who)"
  using assms
proof (induction ps arbitrary: keys)
  case (Cons p ps)
  have "find (\<lambda>q. canton_id_display H (pe_participant_id q) = canton_id_display H (pe_participant_id p) \<and> P q) ps = None" for P
    using Cons.prems by (auto simp: find_None_iff image_iff)
  with Cons show ?case by (auto simp: add_peer_key_def split: option.splits)
qed simp

lemma peer_key_iff:
  assumes "distinct (map (\<lambda>p. canton_id_display H (pe_participant_id p)) ps)"
  shows "build_peer_key_map H C (Inr ps) self who = Some k \<longleftrightarrow>
    (\<exists>p \<in> set ps. canton_id_display H (pe_participant_id p) = who \<and> pe_participant_id p \<noteq> self \<and> pe_public_key p \<noteq> [] \<and>
      parse_public_key H C (pe_public_key p) = Some k)"
proof -
  let ?P = "\<lambda>p. canton_id_display H (pe_participant_id p) = who \<and> pe_participant_id p \<noteq> self \<and> pe_public_key p \<noteq> [] \<and>
        parse_public_key H C (pe_public_key p) \<noteq> None"
  show ?thesis
  proof (cases "find ?P ps")
    case None
    have "build_peer_key_map H C (Inr ps) self who = None"
      by (simp add: build_peer_key_map_def peer_key_fold [OF assms] None del: not_None_eq)
    with None show ?thesis unfolding find_None_iff by fastforce
  next
    case (Some p)
    then have p: "p \<in> set ps" "?P p" by (auto simp: find_Some_iff)
    have uniq: "q = p" if "q \<in> set ps" "canton_id_display H (pe_participant_id q) = who" for q
      using that p assms by (auto simp: distinct_map dest: inj_onD)
    have key: "build_peer_key_map H C (Inr ps) self who = parse_public_key H C (pe_public_key p)"
      by (simp add: build_peer_key_map_def peer_key_fold [OF assms] Some del: not_None_eq)
    show ?thesis
    proof
      assume "build_peer_key_map H C (Inr ps) self who = Some k"
      then show "\<exists>p \<in> set ps. canton_id_display H (pe_participant_id p) = who \<and> pe_participant_id p \<noteq> self \<and>
          pe_public_key p \<noteq> [] \<and> parse_public_key H C (pe_public_key p) = Some k"
        using p key by (intro bexI [of _ p]) simp_all
    next
      assume "\<exists>p \<in> set ps. canton_id_display H (pe_participant_id p) = who \<and> pe_participant_id p \<noteq> self \<and>
          pe_public_key p \<noteq> [] \<and> parse_public_key H C (pe_public_key p) = Some k"
      then obtain q where "q \<in> set ps" "canton_id_display H (pe_participant_id q) = who" "parse_public_key H C (pe_public_key q) = Some k" by blast
      with uniq key show "build_peer_key_map H C (Inr ps) self who = Some k" by simp
    qed
  qed
qed

subsection \<open>Requests the listener answers itself\<close>

lemma local_frame:
  assumes "length p < 256 ^ 4" and "t \<notin> set workflow_types"
  shows "\<exists>seen. handle_request E (to_bytes (message_new t p)) s = local_request (snd E) (message_new t p) (s\<lparr>last_seen := seen\<rparr>)"
proof -
  have "from_bytes (to_bytes (message_new t p)) = Inr (message_new t p)" using from_bytes_new [OF assms(1), of t "[]"] by simp
  moreover have "\<not> length (to_bytes (message_new t p)) < 6"
    using frame_length [of "message_new t p" "[]"] by (simp add: to_bytes_def message_new_def)
  ultimately show ?thesis
    using assms(2) by (intro exI [of _ "case le_sender (fst E) of
        Some who \<Rightarrow> if le_known (fst E) who then bump (last_seen s) who (se_instant (le_env (fst E))) else last_seen s | None \<Rightarrow> last_seen s"])
      (auto simp: handle_request_def handle_frame_def Let_def message_new_def split: option.splits)
qed

text \<open>The way from a peer to the listener when it works: other tasks act on the node, then the request is handled.\<close>

definition node_listen :: "(nat \<Rightarrow> listener_env \<times> local_env) \<Rightarrow> (nat \<Rightarrow> node_state \<Rightarrow> node_state) \<Rightarrow> (nat \<times> node_state) exchange" where
  "node_listen E other w body = (case w of (n, s) \<Rightarrow>
     (case handle_request (E n) body (other n s) of (r, s') \<Rightarrow> (r, (Suc n, s'))))"

lemma send_once:
  assumes "handle_request (E n) (to_bytes m) (other n s) = (ok_response resp, s')" and "1 \<le> tries"
  shows "send_noise_message_with_retry tries (node_listen E other) m (n, s) = (Inr (to_bytes resp), (Suc n, s'))"
  using assms by (cases tries)
    (simp_all add: send_noise_message_with_retry_def retry_loop_def send_noise_message_with_timeout_def node_listen_def ok_response_def)

text \<open>The cache will hold a payload for a key at the next request, used less than \<open>PEER_CHUNK_CACHE_TTL\<close> before.\<close>

definition holds :: "(nat \<Rightarrow> listener_env \<times> local_env) \<Rightarrow> (nat \<Rightarrow> node_state \<Rightarrow> node_state) \<Rightarrow> string \<Rightarrow> bytes \<Rightarrow> nat \<times> node_state \<Rightarrow> bool" where
  "holds E other pk d w \<longleftrightarrow> (case w of (n, s) \<Rightarrow> 1 \<le> n \<and>
     (\<exists>t. chunk_cache (other n s) pk = Some (d, t) \<and> lo_instant (snd (E n)) - t < PEER_CHUNK_CACHE_TTL))"

lemma chunk_block: "start < length d \<Longrightarrow> take (min (start + c) (length d) - start) (drop start d) = take c (drop start d)"
  by (simp add: min_def)

lemma cached_chunk_serves:
  assumes "lo_pubkey L = Some pk" "chunk_cache s pk = Some (d, t)" "lo_instant L - t < PEER_CHUNK_CACHE_TTL"
    and "i * CHUNK_SIZE < length d" "i < 2 ^ 32"
  shows "cached_chunk L (be_bytes 4 i) s = (ok_response (message_new Chunk (be_bytes 4 i @ take CHUNK_SIZE (drop (i * CHUNK_SIZE) d))),
    s\<lparr>chunk_cache := (chunk_cache s)(pk \<mapsto> (d, lo_instant L))\<rparr>)"
proof -
  let ?b = "be_bytes 4 i"
  have "[?b ! 0, ?b ! 1, ?b ! 2, ?b ! 3] = ?b" using nth4_take_drop [of 0 ?b 1 2 3] by simp
  then have "be_nat [?b ! 0, ?b ! 1, ?b ! 2, ?b ! 3] = i" using assms(5) by (simp del: be_nat.simps)
  then show ?thesis using assms by (simp add: cached_chunk_def chunk_block Let_def del: be_nat.simps)
qed

lemma fetch_chunk:
  assumes pk: "\<And>n. lo_pubkey (snd (E n)) = Some pk"
    and steady: "\<And>n. lo_instant (snd (E (Suc n))) - lo_instant (snd (E n)) < PEER_CHUNK_CACHE_TTL"
    and others: "\<And>n s. 2 \<le> n \<Longrightarrow> chunk_cache (other n s) pk = chunk_cache s pk"
    and i: "i * CHUNK_SIZE < length d" "length d \<le> MAX_CHUNKED_TOTAL_SIZE" and "holds E other pk d w" and tries: "1 \<le> tries"
  shows "\<exists>w'. (case send_noise_message_with_retry tries (node_listen E other) (message_new GetChunk (be_bytes 4 i)) w of
      (Inl e, w') \<Rightarrow> (Inl e, w') | (Inr r, w') \<Rightarrow> (parse_chunk i r, w')) =
    (Inr (take CHUNK_SIZE (drop (i * CHUNK_SIZE) d)), w') \<and> holds E other pk d w'"
proof -
  obtain n s where w: "w = (n, s)" by (cases w)
  then obtain t where c: "chunk_cache (other n s) pk = Some (d, t)" and fresh: "lo_instant (snd (E n)) - t < PEER_CHUNK_CACHE_TTL"
    and n: "1 \<le> n"
    using \<open>holds E other pk d w\<close> by (auto simp: holds_def)
  have small: "i < 2 ^ 32" using i by (simp add: CHUNK_SIZE_def MAX_CHUNKED_TOTAL_SIZE_def)
  let ?d = "take CHUNK_SIZE (drop (i * CHUNK_SIZE) d)"
  have "GetChunk \<notin> set workflow_types" by (simp add: workflow_types_def peer_data_types_def)
  then obtain seen where f: "handle_request (E n) (to_bytes (message_new GetChunk (be_bytes 4 i))) (other n s) =
      local_request (snd (E n)) (message_new GetChunk (be_bytes 4 i)) ((other n s)\<lparr>last_seen := seen\<rparr>)"
    using local_frame [of "be_bytes 4 i" GetChunk "E n" "other n s"] by auto
  have "local_request (snd (E n)) (message_new GetChunk (be_bytes 4 i)) ((other n s)\<lparr>last_seen := seen\<rparr>) =
      cached_chunk (snd (E n)) (be_bytes 4 i) ((other n s)\<lparr>last_seen := seen\<rparr>)"
    by (simp add: local_request_def message_new_def)
  then obtain s' where h: "handle_request (E n) (to_bytes (message_new GetChunk (be_bytes 4 i))) (other n s) =
      (ok_response (message_new Chunk (be_bytes 4 i @ ?d)), s')" and s': "chunk_cache s' pk = Some (d, lo_instant (snd (E n)))"
    using cached_chunk_serves [OF pk, of "(other n s)\<lparr>last_seen := seen\<rparr>" d t n i] c fresh i(1) small f by simp
  have "parse_chunk i (to_bytes (message_new Chunk (be_bytes 4 i @ ?d))) = Inr ?d" by (rule chunk_readable [OF small]) simp
  moreover have "holds E other pk d (Suc n, s')" using s' steady n by (simp add: holds_def others)
  ultimately show ?thesis
    using send_once [where E = E and n = n and other = other and s = s, OF h tries] by (auto simp: w)
qed

text \<open>A chunked answer, fetched while the cache holds some payload of the announced length: that payload arrives.\<close>

lemma fetch_announced:
  assumes pk: "\<And>n. lo_pubkey (snd (E n)) = Some pk"
    and steady: "\<And>n. lo_instant (snd (E (Suc n))) - lo_instant (snd (E n)) < PEER_CHUNK_CACHE_TTL"
    and others: "\<And>n s. 2 \<le> n \<Longrightarrow> chunk_cache (other n s) pk = chunk_cache s pk"
    and h: "holds E other pk d w" and d: "length d = length p" "length d \<le> MAX_CHUNKED_TOTAL_SIZE" and tries: "1 \<le> tries"
  shows "\<exists>w'. assemble (\<lambda>i w. case send_noise_message_with_retry tries (node_listen E other) (message_new GetChunk (be_bytes 4 i)) w of
      (Inl e, w') \<Rightarrow> (Inl e, w') | (Inr r, w') \<Rightarrow> (parse_chunk i r, w')) (length p) (div_ceil (length p) CHUNK_SIZE) w = (Inr d, w')"
proof -
  let ?f = "\<lambda>i w. case send_noise_message_with_retry tries (node_listen E other) (message_new GetChunk (be_bytes 4 i)) w of
      (Inl e, w') \<Rightarrow> (Inl e, w') | (Inr r, w') \<Rightarrow> (parse_chunk i r, w')"
  have "\<exists>w'. ?f i v = (Inr (take CHUNK_SIZE (drop (i * CHUNK_SIZE) d)), w') \<and> holds E other pk d w'"
    if "i * CHUNK_SIZE < length d" "holds E other pk d v" for i v
    by (rule fetch_chunk [where E = E and other = other and pk = pk, OF pk steady others that(1) d(2) that(2) tries])
  then show ?thesis using assemble_correct [where I = "holds E other pk d" and d = d and w = w and fetch = ?f] h d by auto
qed

text \<open>A request for a DAR the peer may read, and the payload it gets.\<close>

lemma request_dar_frame:
  assumes "length req < 256 ^ 4" and "dar_for_invited_peer (snd F) req (box s) = Inr dar"
  shows "\<exists>seen. handle_request F (to_bytes (message_new RequestDar req)) s = peer_payload_response (snd F) dar (s\<lparr>last_seen := seen\<rparr>)"
proof -
  have "RequestDar \<notin> set workflow_types" by (simp add: workflow_types_def peer_data_types_def)
  then obtain seen where "handle_request F (to_bytes (message_new RequestDar req)) s =
      local_request (snd F) (message_new RequestDar req) (s\<lparr>last_seen := seen\<rparr>)"
    using local_frame [OF assms(1), of RequestDar F s] by blast
  with assms(2) show ?thesis by (auto simp: local_request_def message_new_def request_dar_def)
qed

lemma payload_response_large:
  assumes "MAX_PAYLOAD_SIZE < length d" "length d \<le> MAX_CHUNKED_TOTAL_SIZE" "lo_pubkey L = Some pk"
  shows "\<exists>s'. peer_payload_response L d s = (ok_response (chunked_announcement Data d), s') \<and> chunk_cache s' pk = Some (d, lo_instant L) \<and>
    box s' = box s"
  using assms by (simp add: peer_payload_response_def)

lemma fetch_large:
  assumes pk: "\<And>n. lo_pubkey (snd (E n)) = Some pk"
    and steady: "\<And>n. lo_instant (snd (E (Suc n))) - lo_instant (snd (E n)) < PEER_CHUNK_CACHE_TTL"
    and others: "\<And>n s. 2 \<le> n \<Longrightarrow> chunk_cache (other n s) pk = chunk_cache s pk"
    and req: "length (json_print J (request_dar_json request)) < 256 ^ 4"
    and dar: "dar_for_invited_peer (snd (E 0)) (str_bytes (json_print J (request_dar_json request))) (box (other 0 s)) = Inr dar"
    and size: "MAX_PAYLOAD_SIZE < length dar" "length dar \<le> MAX_CHUNKED_TOTAL_SIZE"
    and held: "\<And>s'. chunk_cache s' pk = Some (dar, lo_instant (snd (E 0))) \<Longrightarrow> box s' = box (other 0 s) \<Longrightarrow> holds E other pk d (1, s')"
    and d: "length d = length dar" and tries: "1 \<le> tries"
  shows "\<exists>w. fetch_dar_from_coordinator J tries (node_listen E other) request (0, s) = (Inr d, w)"
proof -
  let ?m = "message_new RequestDar (str_bytes (json_print J (request_dar_json request)))"
  obtain seen where "handle_request (E 0) (to_bytes ?m) (other 0 s) = peer_payload_response (snd (E 0)) dar ((other 0 s)\<lparr>last_seen := seen\<rparr>)"
    using request_dar_frame [OF _ dar] req by auto
  moreover obtain s' where "peer_payload_response (snd (E 0)) dar ((other 0 s)\<lparr>last_seen := seen\<rparr>) =
      (ok_response (chunked_announcement Data dar), s')" and c: "chunk_cache s' pk = Some (dar, lo_instant (snd (E 0)))"
      and b: "box s' = box (other 0 s)"
    using payload_response_large [OF size pk, of 0 "(other 0 s)\<lparr>last_seen := seen\<rparr>"] by auto
  ultimately have "handle_request (E 0) (to_bytes ?m) (other 0 s) = (ok_response (chunked_announcement Data dar), s')" by simp
  from send_once [where E = E and n = 0 and other = other and s = s, OF this tries]
  have first: "send_noise_message_with_retry tries (node_listen E other) ?m (0, s) = (Inr (to_bytes (chunked_announcement Data dar)), (1, s'))"
    by simp
  have small: "length dar < 2 ^ 32" using size(2) by (simp add: MAX_CHUNKED_TOTAL_SIZE_def)
  have read: "from_bytes (to_bytes (chunked_announcement Data dar)) = Inr (chunked_announcement Data dar)"
    by (rule reply_readable) (simp_all add: chunked_announcement_def message_new_def)
  obtain w' where "assemble (\<lambda>i w. case send_noise_message_with_retry tries (node_listen E other) (message_new GetChunk (be_bytes 4 i)) w of
      (Inl e, w') \<Rightarrow> (Inl e, w') | (Inr r, w') \<Rightarrow> (parse_chunk i r, w')) (length dar) (div_ceil (length dar) CHUNK_SIZE) (1, s') = (Inr d, w')"
    using fetch_announced [where E = E and other = other and pk = pk, OF pk steady others held [OF c b] d _ tries] size(2) d by auto
  then have "send_noise_message_with_chunked_response tries (node_listen E other) ?m (0, s) = (Inr (to_bytes (message_new Data d)), w')"
    using first read chunked_announcement_parses [OF small, of Data]
    by (simp add: send_noise_message_with_chunked_response_def chunked_announcement_def message_new_def)
  moreover have "from_bytes (to_bytes (message_new Data d)) = Inr (message_new Data d)"
    using small d by (intro reply_readable) (simp_all add: message_new_def)
  ultimately show ?thesis by (simp add: fetch_dar_from_coordinator_def message_new_def)
qed

lemma fetch_small:
  assumes req: "length (json_print J (request_dar_json request)) < 256 ^ 4"
    and dar: "dar_for_invited_peer (snd (E 0)) (str_bytes (json_print J (request_dar_json request))) (box (other 0 s)) = Inr dar"
    and size: "length dar \<le> MAX_PAYLOAD_SIZE" and tries: "1 \<le> tries"
  shows "\<exists>w. fetch_dar_from_coordinator J tries (node_listen E other) request (0, s) = (Inr dar, w)"
proof -
  let ?m = "message_new RequestDar (str_bytes (json_print J (request_dar_json request)))"
  obtain seen where "handle_request (E 0) (to_bytes ?m) (other 0 s) = peer_payload_response (snd (E 0)) dar ((other 0 s)\<lparr>last_seen := seen\<rparr>)"
    using request_dar_frame [OF _ dar] req by auto
  then have "handle_request (E 0) (to_bytes ?m) (other 0 s) = (ok_response (message_new Data dar), (other 0 s)\<lparr>last_seen := seen\<rparr>)"
    using size by (simp add: peer_payload_response_def)
  from send_once [where E = E and n = 0 and other = other and s = s, OF this tries]
  obtain w where first: "send_noise_message_with_retry tries (node_listen E other) ?m (0, s) = (Inr (to_bytes (message_new Data dar)), w)"
    by simp
  have "from_bytes (to_bytes (message_new Data dar)) = Inr (message_new Data dar)"
    using size by (intro reply_readable) (simp_all add: message_new_def MAX_PAYLOAD_SIZE_def)
  with first show ?thesis
    by (simp add: fetch_dar_from_coordinator_def send_noise_message_with_chunked_response_def message_new_def)
qed

subsection \<open>Who gets the chunks\<close>

lemma dar_granted:
  assumes "dar_for_invited_peer L req s = Inr d"
  shows "\<exists>sender run files i. lo_sender L = Some sender \<and> run \<in> set (workflow_runs s) \<and> wr_kind run = Dars \<and>
    list_ex (\<lambda>p. canton_id_display (lo_hex L) p = sender) (wr_expected_peers run) \<and>
    Option.bind (json_parse (lo_json L) (wr_config_json run)) (dars_config_from (lo_hex L)) = Some files \<and>
    i < length files \<and> lo_base64 L (snd (files ! i)) = Some d"
proof -
  obtain inst index filename sender run files where
    "Option.bind (json_parse (lo_json L) (bytes_str req)) request_dar_from = Some (inst, index, filename)"
    and "lo_sender L = Some sender" and run: "get_workflow_run inst s = Some run" and "wr_kind run = Dars"
    and "list_ex (\<lambda>p. canton_id_display (lo_hex L) p = sender) (wr_expected_peers run)"
    and "Option.bind (json_parse (lo_json L) (wr_config_json run)) (dars_config_from (lo_hex L)) = Some files"
    and "index < length files" and "lo_base64 L (snd (files ! index)) = Some d"
    using assms by (auto simp: dar_for_invited_peer_def result_simps split: if_splits)
  moreover have "run \<in> set (workflow_runs s)" using run by (auto simp: get_workflow_run_def find_Some_iff)
  ultimately show ?thesis by blast
qed

text \<open>A history of the node: the requests it handled, each with the state it met, while other tasks act in between
  without touching the cache.\<close>

inductive node_history :: "((listener_env \<times> local_env) \<times> bytes \<times> node_state) list \<Rightarrow> node_state \<Rightarrow> bool" where
  start: "chunk_cache s = Map.empty \<Longrightarrow> node_history [] s"
| others: "node_history h s \<Longrightarrow> chunk_cache s' = chunk_cache s \<Longrightarrow> node_history h s'"
| request: "node_history h s \<Longrightarrow> node_history (h @ [(E, body, s)]) (snd (handle_request E body s))"

definition asked :: "((listener_env \<times> local_env) \<times> bytes \<times> node_state) list \<Rightarrow> string \<Rightarrow> bytes \<Rightarrow> bool" where
  "asked h pk d \<longleftrightarrow> list_ex (\<lambda>(E, body, s). lo_pubkey (snd E) = Some pk \<and>
     (case from_bytes body of Inr m \<Rightarrow> msg_type m = RequestDar \<and> dar_for_invited_peer (snd E) (payload m) (box s) = Inr d
      | Inl _ \<Rightarrow> False)) h"

lemma route_keeps_cache: "chunk_cache (snd (route_request L gone m s)) = chunk_cache (s :: node_state)"
  by (simp add: route_request_def split: prod.splits option.splits)

lemma payload_response_cache:
  "chunk_cache (snd (peer_payload_response L p s)) k = Some (d, t) \<Longrightarrow>
     (\<exists>t. chunk_cache s k = Some (d, t)) \<or> lo_pubkey L = Some k \<and> d = p"
  by (auto simp: peer_payload_response_def split: if_splits option.splits prod.splits)

lemma cached_chunk_cache:
  "chunk_cache (snd (cached_chunk L p s)) k = Some (d, t) \<Longrightarrow> \<exists>t. chunk_cache s k = Some (d, t)"
  by (auto simp: cached_chunk_def Let_def split: if_splits option.splits prod.splits)

lemma local_cache:
  assumes "chunk_cache (snd (local_request L m s)) k = Some (d, t)"
  shows "(\<exists>t. chunk_cache s k = Some (d, t)) \<or>
    lo_pubkey L = Some k \<and> msg_type m = RequestDar \<and> dar_for_invited_peer L (payload m) (box s) = Inr d"
proof (cases "msg_type m = RequestDar")
  case True
  then have "chunk_cache (snd (request_dar L (payload m) s)) k = Some (d, t)" using assms by (simp add: local_request_def)
  then show ?thesis using payload_response_cache [of L _ s k d t] True
    by (cases "dar_for_invited_peer L (payload m) (box s)") (auto simp: request_dar_def)
next
  case False
  with assms show ?thesis using cached_chunk_cache [of L "payload m" s k d t] by (auto simp: local_request_def split: if_splits)
qed

lemma frame_cache:
  assumes "chunk_cache (snd (handle_request E body s)) k = Some (d, t)"
  shows "(\<exists>t. chunk_cache s k = Some (d, t)) \<or> asked [(E, body, s)] k d"
proof -
  define s0 where "s0 = (case le_sender (fst E) of
      Some who \<Rightarrow> if le_known (fst E) who then s\<lparr>last_seen := bump (last_seen s) who (se_instant (le_env (fst E)))\<rparr> else s | None \<Rightarrow> s)"
  have s0: "chunk_cache s0 = chunk_cache s" "box s0 = box s" by (auto simp: s0_def split: option.splits)
  show ?thesis
  proof (cases "from_bytes body")
    case (Inr m)
    have "chunk_cache (snd (handle_request E body s)) k = chunk_cache s k \<or>
        chunk_cache (snd (handle_request E body s)) k = chunk_cache (snd (local_request (snd E) m s0)) k"
      by (simp add: handle_request_def handle_frame_def Inr flip: s0_def, simp add: route_keeps_cache s0)
    then show ?thesis
    proof
      assume "chunk_cache (snd (handle_request E body s)) k = chunk_cache (snd (local_request (snd E) m s0)) k"
      then show ?thesis using assms local_cache [of "snd E" m s0 k d t] s0 Inr by (simp add: asked_def)
    next
      assume "chunk_cache (snd (handle_request E body s)) k = chunk_cache s k"
      with assms have "chunk_cache s k = Some (d, t)" by metis
      then show ?thesis by blast
    qed
  next
    case (Inl e)
    then have "chunk_cache (snd (handle_request E body s)) = chunk_cache s0"
      by (simp add: handle_request_def handle_frame_def flip: s0_def)
    then show ?thesis using assms s0 by simp
  qed
qed

lemma cache_asked: "node_history h s \<Longrightarrow> chunk_cache s k = Some (d, t) \<Longrightarrow> asked h k d"
proof (induction arbitrary: t rule: node_history.induct)
  case (request h s E body)
  then show ?case using frame_cache [of E body s k d t] by (auto simp: asked_def)
qed simp_all

lemma chunk_answer:
  assumes "cached_chunk L p s = (ok_response m', s')"
  shows "\<exists>pk d t i. lo_pubkey L = Some pk \<and> chunk_cache s pk = Some (d, t) \<and> i * CHUNK_SIZE < length d \<and>
    to_bytes m' = to_bytes (message_new Chunk (be_bytes 4 i @ take CHUNK_SIZE (drop (i * CHUNK_SIZE) d)))"
proof -
  let ?i = "be_nat [p ! 0, p ! 1, p ! 2, p ! 3]"
  have "\<exists>pk d t. lo_pubkey L = Some pk \<and> chunk_cache s pk = Some (d, t) \<and> ?i * CHUNK_SIZE < length d \<and>
      to_bytes m' = to_bytes (message_new Chunk (be_bytes 4 ?i @ take CHUNK_SIZE (drop (?i * CHUNK_SIZE) d)))"
    using assms by (auto simp: cached_chunk_def Let_def ok_response_def chunk_block simp del: be_nat.simps
        split: if_splits option.splits prod.splits)
  then show ?thesis by blast
qed

lemma chunk_request:
  assumes "from_bytes body = Inr m" "msg_type m = GetChunk" "msg_instance m = []" "6 \<le> length body"
  shows "\<exists>seen. handle_request E body s = cached_chunk (snd E) (payload m) (s\<lparr>last_seen := seen\<rparr>)"
proof -
  have "GetChunk \<notin> set workflow_types" by (simp add: workflow_types_def peer_data_types_def)
  with assms show ?thesis
    by (intro exI [of _ "case le_sender (fst E) of
        Some who \<Rightarrow> if le_known (fst E) who then bump (last_seen s) who (se_instant (le_env (fst E))) else last_seen s | None \<Rightarrow> last_seen s"])
      (auto simp: handle_request_def handle_frame_def Let_def local_request_def split: option.splits)
qed

lemma asked_request:
  "asked h pk d \<Longrightarrow> \<exists>E body s (m :: message). (E, body, s) \<in> set h \<and> lo_pubkey (snd E) = Some pk \<and> dar_for_invited_peer (snd E) (payload m) (box s) = Inr d"
proof -
  assume "asked h pk d"
  then obtain x where x: "x \<in> set h" and c: "case x of (E, body, s) \<Rightarrow> lo_pubkey (snd E) = Some pk \<and>
     (case from_bytes body of Inr m \<Rightarrow> msg_type m = RequestDar \<and> dar_for_invited_peer (snd E) (payload m) (box s) = Inr d
      | Inl _ \<Rightarrow> False)"
    unfolding asked_def list_ex_iff by blast
  obtain E body s where [simp]: "x = (E, body, s)" by (rule prod_cases3)
  show ?thesis
  proof (cases "from_bytes body")
    case (Inr m)
    with x c show ?thesis by (intro exI [of _ E] exI [of _ body] exI [of _ s] exI [of _ m]) simp
  next
    case (Inl e)
    with c show ?thesis by simp
  qed
qed

subsection \<open>An example\<close>

definition example_request :: "string \<times> nat \<times> string" where "example_request = (''dars-1'', 0, ''a.dar'')"
definition second_request :: "string \<times> nat \<times> string" where "second_request = (''dars-1'', 1, ''b.dar'')"

definition node_json :: jsonlib where
  "node_json = \<lparr>json_print = (\<lambda>j. if j = request_dar_json example_request then ''one'' else ''two''),
     json_parse = (\<lambda>s. if s = ''one'' then Some (request_dar_json example_request)
        else if s = ''two'' then Some (request_dar_json second_request)
        else Some (JObj [(''dar_files'', JArr [JObj [(''filename'', JStr ''a.dar''), (''data'', JStr ''A'')],
            JObj [(''filename'', JStr ''b.dar''), (''data'', JStr ''B'')]]),
          (''instance_name'', JStr ''dars-1''), (''peer_ids'', JArr [])]))\<rparr>"

definition node_run :: workflow_run where
  "node_run = \<lparr>wr_name = ''dars-1'', wr_kind = Dars, wr_role = Coordinator, wr_status = InProgress, wr_step = [], wr_index = 0,
     wr_total = 0, wr_config_json = ''cfg'', wr_coordinator_pubkey = None, wr_coordinator_instance = None,
     wr_expected_peers = [ex_me], wr_completed_peers = [], wr_dec_party_id = None, wr_error = None, wr_dismissed = False,
     wr_created_at = 0, wr_updated_at = 0\<rparr>"

definition node_env :: "bytes \<Rightarrow> bytes \<Rightarrow> listener_env \<times> local_env" where
  "node_env a b = (example_env, \<lparr>lo_hex = std_hex, lo_json = node_json, lo_base64 = (\<lambda>d. Some (if d = ''A'' then a else b)),
     lo_sender = Some (canton_id_display std_hex ex_me), lo_pubkey = Some ''02aa'', lo_our_pubkey = ''02bb'',
     lo_participant_id = [], lo_semver = [], lo_build = [], lo_peers = Inr [], lo_credentials = [], lo_owner_keys = (\<lambda>_. Inl []),
     lo_refusal = (\<lambda>_. []), lo_instant = 5, lo_now = 0, lo_db1 = Committed, lo_db2 = Committed, lo_dbs = (\<lambda>_. Committed),
     lo_loaded = True, lo_listening = True\<rparr>)"

definition example_node :: node_state where
  "example_node = \<lparr>runs = [], last_seen = Map.empty, box = inbox_empty\<lparr>workflow_runs := [node_run]\<rparr>, chunk_cache = Map.empty\<rparr>"

lemma example_granted:
  "dar_for_invited_peer (snd (node_env a b)) (str_bytes ''one'') (inbox_empty\<lparr>workflow_runs := [node_run]\<rparr>) = Inr a"
  "dar_for_invited_peer (snd (node_env a b)) (str_bytes ''two'') (inbox_empty\<lparr>workflow_runs := [node_run]\<rparr>) = Inr b"
  by (simp_all add: dar_for_invited_peer_def node_env_def node_json_def example_request_def second_request_def request_dar_json_def
      request_dar_from_def u_required_def u_str_def u_usize_def node_run_def get_workflow_run_def dars_config_from_def u_list_def
      dar_file_from_def u_field_def)

section \<open>Properties\<close>

text \<open>The handshake offers a pre-shared key exactly to an identity that is the participant id
  of a peer in the table, not this node's own, whose public key can be read; and it is the key derived from that peer's.
  Every other initiator is refused.\<close>

theorem handshake_allowlist:
  assumes "distinct (map (\<lambda>p. canton_id_display H (pe_participant_id p)) ps)"
    and "list_all (\<lambda>p. rust_str (canton_id_display H (pe_participant_id p))) ps"
  shows "responder (build_peer_key_map H C (Inr ps) self) derive_psk identity = Some psk \<longleftrightarrow>
    (\<exists>p k. p \<in> set ps \<and> identity = str_bytes (canton_id_display H (pe_participant_id p)) \<and> pe_participant_id p \<noteq> self \<and>
      pe_public_key p \<noteq> [] \<and> parse_public_key H C (pe_public_key p) = Some k \<and> psk = derive_psk k)"
proof -
  have utf: "from_utf8 (str_bytes (canton_id_display H (pe_participant_id p))) = Some (canton_id_display H (pe_participant_id p))"
    if "p \<in> set ps" for p
    using that assms(2) by (simp add: list_all_iff)
  have "responder (build_peer_key_map H C (Inr ps) self) derive_psk identity = Some psk \<longleftrightarrow>
    (\<exists>who k. from_utf8 identity = Some who \<and> build_peer_key_map H C (Inr ps) self who = Some k \<and> psk = derive_psk k)"
    by (auto simp: responder_def bind_eq_Some_conv)
  also have "\<dots> \<longleftrightarrow> (\<exists>p k. p \<in> set ps \<and> from_utf8 identity = Some (canton_id_display H (pe_participant_id p)) \<and>
      pe_participant_id p \<noteq> self \<and> pe_public_key p \<noteq> [] \<and> parse_public_key H C (pe_public_key p) = Some k \<and> psk = derive_psk k)"
    unfolding peer_key_iff [OF assms(1)] by blast
  also have "\<dots> \<longleftrightarrow> (\<exists>p k. p \<in> set ps \<and> identity = str_bytes (canton_id_display H (pe_participant_id p)) \<and>
      pe_participant_id p \<noteq> self \<and> pe_public_key p \<noteq> [] \<and> parse_public_key H C (pe_public_key p) = Some k \<and> psk = derive_psk k)"
    using utf by (metis from_utf8_Some)
  finally show ?thesis .
qed



text \<open>C18: a peer that is entitled to a DAR of at most 16 MiB reads exactly that DAR from the coordinator, in
  one answer or in chunks, when its requests come less than thirty seconds apart and no other request replaces the payload
  cached for its key.\<close>

theorem dar_delivered:
  assumes "\<And>n. lo_pubkey (snd (E n)) = Some pk"
    and "\<And>n. lo_instant (snd (E (Suc n))) - lo_instant (snd (E n)) < PEER_CHUNK_CACHE_TTL"
    and others: "\<And>n s. 1 \<le> n \<Longrightarrow> chunk_cache (other n s) pk = chunk_cache s pk"
    and "length (json_print J (request_dar_json request)) < 256 ^ 4"
    and "dar_for_invited_peer (snd (E 0)) (str_bytes (json_print J (request_dar_json request))) (box (other 0 s)) = Inr dar"
    and "length dar \<le> MAX_CHUNKED_TOTAL_SIZE" and "1 \<le> tries"
  shows "\<exists>w. fetch_dar_from_coordinator J tries (node_listen E other) request (0, s) = (Inr dar, w)"
proof (cases "length dar \<le> MAX_PAYLOAD_SIZE")
  case True
  from fetch_small [where E = E and other = other and s = s, OF assms(4,5) True assms(7)] show ?thesis .
next
  case False
  have "holds E other pk dar (1, s')" if "chunk_cache s' pk = Some (dar, lo_instant (snd (E 0)))" for s'
    using that assms(2) [of 0] by (simp add: holds_def others)
  with False show ?thesis
    using fetch_large [where E = E and other = other and pk = pk and s = s and d = dar, OF assms(1,2) others assms(4,5) _ assms(6) _ refl assms(7)]
    by simp
qed

theorem dar_delivered_witness:
  "\<exists>w. fetch_dar_from_coordinator node_json 3 (node_listen (\<lambda>_. node_env (replicate 2000000 7) []) (\<lambda>_ s. s)) example_request (0, example_node)
     = (Inr (replicate 2000000 7), w)"
proof -
  let ?E = "\<lambda>_ :: nat. node_env (replicate 2000000 7) []"
  have "lo_pubkey (snd (?E n)) = Some ''02aa''" for n by (simp add: node_env_def)
  moreover have "json_print node_json (request_dar_json example_request) = ''one''" by (simp add: node_json_def)
  ultimately show ?thesis
    using dar_delivered [where E = ?E and pk = "''02aa''" and other = "\<lambda>_ s. s" and J = node_json and request = example_request
        and s = example_node and dar = "replicate 2000000 7" and tries = 3]
    by (simp add: example_granted example_node_def PEER_CHUNK_CACHE_TTL_def MAX_CHUNKED_TOTAL_SIZE_def)
qed

text \<open>The cache holds one payload per key, so two reads of one peer mix.  When a second request
  for another large DAR of the same length comes between the first announcement and its chunks, the first read ends
  with the bytes of the second DAR.\<close>

theorem concurrent_reads_mix:
  assumes pk: "\<And>n. lo_pubkey (snd (E n)) = Some pk" "lo_pubkey (snd F) = Some pk"
    and "\<And>n. lo_instant (snd (E (Suc n))) - lo_instant (snd (E n)) < PEER_CHUNK_CACHE_TTL"
    and F: "lo_instant (snd (E 1)) - lo_instant (snd F) < PEER_CHUNK_CACHE_TTL"
    and other: "other = (\<lambda>n s. if n = 1 then snd (handle_request F (to_bytes (message_new RequestDar request2)) s) else s)"
    and req: "length (json_print J (request_dar_json request)) < 256 ^ 4" "length request2 < 256 ^ 4"
    and dar: "dar_for_invited_peer (snd (E 0)) (str_bytes (json_print J (request_dar_json request))) (box s) = Inr dar"
    and dar2: "dar_for_invited_peer (snd F) request2 (box s) = Inr dar2"
    and size: "MAX_PAYLOAD_SIZE < length dar" "length dar \<le> MAX_CHUNKED_TOTAL_SIZE" "length dar2 = length dar" and "1 \<le> tries"
  shows "\<exists>w. fetch_dar_from_coordinator J tries (node_listen E other) request (0, s) = (Inr dar2, w)"
proof -
  have "holds E other pk dar2 (1, s')" if b: "box s' = box s" for s'
  proof -
    obtain seen where "handle_request F (to_bytes (message_new RequestDar request2)) s' = peer_payload_response (snd F) dar2 (s'\<lparr>last_seen := seen\<rparr>)"
      using request_dar_frame [OF req(2), of F s' dar2] dar2 b by auto
    then have "chunk_cache (other 1 s') pk = Some (dar2, lo_instant (snd F))"
      using payload_response_large [of dar2 "snd F" pk "s'\<lparr>last_seen := seen\<rparr>"] size pk(2) by (auto simp: other)
    then show ?thesis using F by (simp add: holds_def)
  qed
  then show ?thesis
    using fetch_large [where E = E and other = other and pk = pk and s = s and d = dar2, OF pk(1) assms(3) _ req(1) _ size(1,2) _ size(3) assms(13)] dar
    by (simp add: other)
qed

theorem concurrent_reads_mix_witness:
  "\<exists>other w. fetch_dar_from_coordinator node_json 3 (node_listen (\<lambda>_. node_env (replicate 2000000 7) (replicate 2000000 9)) other)
     example_request (0, example_node) = (Inr (replicate 2000000 9), w)"
proof -
  let ?F = "node_env (replicate 2000000 7) (replicate 2000000 9)"
  let ?other = "\<lambda>n s. if n = 1 then snd (handle_request ?F (to_bytes (message_new RequestDar (str_bytes ''two''))) s) else s"
  have "lo_pubkey (snd ?F) = Some ''02aa''" by (simp add: node_env_def)
  moreover have "json_print node_json (request_dar_json example_request) = ''one''" by (simp add: node_json_def)
  ultimately show ?thesis
    using concurrent_reads_mix [where E = "\<lambda>_. ?F" and F = ?F and pk = "''02aa''" and other = ?other and J = node_json
        and request = example_request and ?request2.0 = "str_bytes ''two''" and s = example_node and dar = "replicate 2000000 7"
        and ?dar2.0 = "replicate 2000000 9" and tries = 3]
    by (auto simp: example_granted example_node_def PEER_CHUNK_CACHE_TTL_def MAX_CHUNKED_TOTAL_SIZE_def MAX_PAYLOAD_SIZE_def)
qed

text \<open>A peer whose key was entered in another text than the lower-case hex of its serialisation
  is accepted by \<open>save_network_config\<close> and by the handshake, and its invitations arrive; but they are filed under the
  canonical text, the lookup of the coordinator compares texts, and every accepted run ends failed with
  \<open>Coordinator not found in peer database\<close>.\<close>

theorem noncanonical_key_strands:
  assumes "distinct (map (\<lambda>p. canton_id_display H (pe_participant_id p)) ps)" and "peers_with_unparseable_keys H C ps = []"
    and p: "p \<in> set ps" "pe_participant_id p \<noteq> self" "pe_public_key p \<noteq> []"
    and k: "parse_public_key H C (pe_public_key p) = Some k"
    and other_text: "list_all (\<lambda>q. pe_public_key q \<noteq> hex_encode H (key_serialize C k)) ps"
    and who: "who = canton_id_display H (pe_participant_id p)" "rust_str who"
    and keys: "keys = build_peer_key_map H C (Inr ps) self"
  shows "save_network_config H C Committed None ps old = (200, ps) \<and>
    responder keys derive_psk (str_bytes who) = Some (derive_psk k) \<and>
    (\<exists>pk. peer_pubkey_hex H C keys (Some who) = Some pk \<and> find_coordinator_peer (Inr ps) pk = None \<and>
      peer_task (get_peer_by_public_key (Inr ps) pk) run = (False, Some ''Coordinator not found in peer database''))"
proof -
  have "keys who = Some k" unfolding keys peer_key_iff [OF assms(1)] using p k who by blast
  moreover have "find (\<lambda>q. pe_public_key q = hex_encode H (key_serialize C k)) ps = None"
    using other_text by (auto simp: find_None_iff list_all_iff)
  ultimately show ?thesis using assms(2) who(2)
    by (simp add: save_network_config_def responder_def peer_pubkey_hex_def find_coordinator_peer_def get_peer_by_public_key_def peer_task_def)
qed

definition upper_peer :: peer_record where
  "upper_peer = \<lparr>pe_participant_id = ex_party, pe_name = [], pe_address = [], pe_port = 1, pe_public_key = ''0A'', pe_party = None\<rparr>"

definition byte_keys :: "bytes keylib" where
  "byte_keys = \<lparr>key_from_slice = Some, key_serialize = (\<lambda>b. b)\<rparr>"

lemma upper_key:
  "parse_public_key std_hex byte_keys (pe_public_key upper_peer) = Some [10]"
  "pe_public_key upper_peer \<noteq> std_encode (key_serialize byte_keys [10])"
  by code_simp+

lemma upper_simps [simp]: "pe_participant_id upper_peer = ex_party" "pe_public_key upper_peer \<noteq> []"
  by (simp_all add: upper_peer_def)

lemma party_text: "rust_str (canton_id_display std_hex ex_party)" by code_simp

theorem noncanonical_key_strands_witness:
  "\<exists>pk. peer_pubkey_hex std_hex byte_keys (build_peer_key_map std_hex byte_keys (Inr [upper_peer]) ex_me) (Some (canton_id_display std_hex ex_party)) = Some pk \<and>
    find_coordinator_peer (Inr [upper_peer]) pk = None"
proof -
  have "ex_party \<noteq> ex_me" by (simp add: ex_party_def ex_me_def)
  then show ?thesis
    using noncanonical_key_strands [of std_hex "[upper_peer]" byte_keys upper_peer ex_me "[10]" _ _ undefined "\<lambda>b. b" "\<lambda>_. Inr ()", OF _ _ _ _ _ _ _ refl _ refl]
    by (auto simp: upper_key party_text peers_with_unparseable_keys_def)
qed

theorem handshake_allowlist_witness:
  "responder (build_peer_key_map std_hex byte_keys (Inr [upper_peer]) ex_me) (\<lambda>b. b) (str_bytes (canton_id_display std_hex ex_party)) = Some [10]"
proof -
  have "ex_party \<noteq> ex_me" by (simp add: ex_party_def ex_me_def)
  then show ?thesis
    using handshake_allowlist [of std_hex "[upper_peer]" byte_keys ex_me "\<lambda>b. b" "str_bytes (canton_id_display std_hex ex_party)" "[10]"]
    by (simp add: upper_key party_text)
qed

end
