(* ===== verification/Launch.thy ===== *)
theory Launch
  imports Node
begin

text \<open>
  Starting a run: the \<open>start_*\<close> handlers of \<open>server/handlers/workflows.rs\<close> from the request to the plan of the run
  (configuration, invitees, the message that invites them), the checks before it (peer mesh, versions, runs in flight),
  and the sending of the invitations.  What becomes of the plan is the subject of \<open>Run_Control\<close>.

  Parameters are the database's answers, the replies of peers, the \<open>base64\<close>, \<open>sha2\<close> and \<open>semver\<close> crates and the
  calls that resolve packages and commit a deployment.  The field definitions of a contract stay the documents they
  are sent as.
\<close>

section \<open>Configurations\<close>

record onboarding_config =
  oc_prefix :: string
  oc_instance :: string
  oc_threshold :: "int option"
  oc_confirmation :: "int option"

record kick_config =
  kc_party :: canton_id
  kc_participant :: canton_id
  kc_fingerprint :: string
  kc_new_threshold :: int
  kc_confirmation :: "int option"
  kc_previous_threshold :: int
  kc_instance :: string

record contract_definition =
  cd_id :: string
  cd_name :: string
  cd_package_id :: string
  cd_module_name :: string
  cd_entity_name :: string
  cd_fields :: "json list"

record committed_deployment =
  co_governance_threshold :: int
  co_intents :: "contract_deployment_intent list"

record contracts_config =
  cc_party :: canton_id
  cc_participant_ids :: "canton_id list"
  cc_participant_parties :: "canton_id list"
  cc_operator :: canton_id
  cc_contracts :: "contract_definition list"
  cc_instance :: string
  cc_committed :: "committed_deployment option"

record dars_config =
  dc_files :: "(string \<times> string) list"
  dc_instance :: string
  dc_peers :: "canton_id list"

record add_party_config =
  ac_party :: canton_id
  ac_new_participant :: canton_id
  ac_new_threshold :: int
  ac_confirmation :: "int option"
  ac_previous_threshold :: int
  ac_instance :: string

record change_threshold_config =
  tc_party :: canton_id
  tc_new_threshold :: int
  tc_confirmation :: "int option"
  tc_previous_threshold :: int
  tc_instance :: string

text \<open>The documents they are stored as; \<open>_p\<close> is a \<open>PhantomData\<close>.\<close>

definition onboarding_config_json :: "onboarding_config \<Rightarrow> json" where
  "onboarding_config_json c = JObj [(''party_id_prefix'', JStr (oc_prefix c)), (''instance_name'', JStr (oc_instance c)),
     (''threshold'', j_option JNum (oc_threshold c)), (''confirmation_threshold'', j_option JNum (oc_confirmation c)), (''_p'', JNull)]"

definition kick_config_json :: "hexlib \<Rightarrow> kick_config \<Rightarrow> json" where
  "kick_config_json H c = JObj [(''decentralized_party_id'', j_id H (kc_party c)), (''participant_id'', j_id H (kc_participant c)),
     (''namespace_fingerprint'', JStr (kc_fingerprint c)), (''new_threshold'', JNum (kc_new_threshold c)),
     (''confirmation_threshold'', j_option JNum (kc_confirmation c)), (''previous_threshold'', JNum (kc_previous_threshold c)),
     (''instance_name'', JStr (kc_instance c)), (''_p'', JNull)]"

definition contract_definition_json :: "contract_definition \<Rightarrow> json" where
  "contract_definition_json c = JObj [(''id'', JStr (cd_id c)), (''name'', JStr (cd_name c)), (''package_id'', JStr (cd_package_id c)),
     (''module_name'', JStr (cd_module_name c)), (''entity_name'', JStr (cd_entity_name c)), (''fields'', JArr (cd_fields c))]"

definition committed_deployment_json :: "committed_deployment \<Rightarrow> json" where
  "committed_deployment_json d = JObj [(''governance_threshold'', JNum (co_governance_threshold d)), (''intents'', j_list j_intent (co_intents d))]"

definition contracts_config_json :: "hexlib \<Rightarrow> contracts_config \<Rightarrow> json" where
  "contracts_config_json H c = JObj ([(''decentralized_party_id'', j_id H (cc_party c)),
     (''participant_ids'', j_list (j_id H) (cc_participant_ids c)), (''participant_parties'', j_list (j_id H) (cc_participant_parties c)),
     (''operator_party'', j_id H (cc_operator c)), (''contracts'', j_list contract_definition_json (cc_contracts c)),
     (''instance_name'', JStr (cc_instance c))] @
     (case cc_committed c of None \<Rightarrow> [] | Some d \<Rightarrow> [(''committed_deployment'', committed_deployment_json d)]))"

definition dars_config_json :: "hexlib \<Rightarrow> dars_config \<Rightarrow> json" where
  "dars_config_json H c = JObj [(''dar_files'', j_list (\<lambda>(f, d). JObj [(''filename'', JStr f), (''data'', JStr d)]) (dc_files c)),
     (''instance_name'', JStr (dc_instance c)), (''peer_ids'', j_list (j_id H) (dc_peers c))]"

definition add_party_config_json :: "hexlib \<Rightarrow> add_party_config \<Rightarrow> json" where
  "add_party_config_json H c = JObj [(''decentralized_party_id'', j_id H (ac_party c)), (''new_participant_id'', j_id H (ac_new_participant c)),
     (''new_threshold'', JNum (ac_new_threshold c)), (''confirmation_threshold'', j_option JNum (ac_confirmation c)),
     (''previous_threshold'', JNum (ac_previous_threshold c)), (''instance_name'', JStr (ac_instance c)), (''_p'', JNull)]"

definition change_threshold_config_json :: "hexlib \<Rightarrow> change_threshold_config \<Rightarrow> json" where
  "change_threshold_config_json H c = JObj [(''decentralized_party_id'', j_id H (tc_party c)),
     (''new_threshold'', JNum (tc_new_threshold c)), (''confirmation_threshold'', j_option JNum (tc_confirmation c)),
     (''previous_threshold'', JNum (tc_previous_threshold c)), (''instance_name'', JStr (tc_instance c)), (''_p'', JNull)]"

text \<open>The documents an invitation carries; an \<open>Option\<close> that is \<open>None\<close> is left out.\<close>

definition j_some :: "string \<Rightarrow> ('a \<Rightarrow> json) \<Rightarrow> 'a option \<Rightarrow> (string \<times> json) list" where
  "j_some k f x = (case x of None \<Rightarrow> [] | Some v \<Rightarrow> [(k, f v)])"

definition onboarding_payload_json :: "hexlib \<Rightarrow> onboarding_payload \<Rightarrow> json" where
  "onboarding_payload_json H p = JObj ([(''prefix'', JStr (op_prefix p)), (''participants'', j_list (j_id H) (op_participants p))] @
     j_some ''threshold'' JNum (op_threshold p) @ j_some ''confirmation_threshold'' JNum (op_confirmation p) @
     j_some ''workflow_instance'' JStr (op_instance p))"

definition dars_payload_json :: "hexlib \<Rightarrow> dars_payload \<Rightarrow> json" where
  "dars_payload_json H p = JObj ([(''dar_filenames'', j_list JStr (dq_filenames p)), (''dar_hashes'', j_list JStr (dq_hashes p)),
     (''participants'', j_list (j_id H) (dq_participants p))] @ j_some ''workflow_instance'' JStr (dq_instance p))"

definition party_payload_json :: "hexlib \<Rightarrow> ('p \<Rightarrow> (string \<times> json) list) \<Rightarrow> 'p party_payload \<Rightarrow> json" where
  "party_payload_json H who p = JObj ([(''dec_party_id'', j_id H (pp_dec_party p))] @ who (pp_who p) @
     [(''new_threshold'', JNum (pp_new_threshold p)), (''previous_threshold'', JNum (pp_previous_threshold p))] @
     j_some ''confirmation_threshold'' JNum (pp_confirmation p) @ [(''participants'', j_list (j_id H) (pp_participants p))] @
     j_some ''workflow_instance'' JStr (pp_instance p))"

definition contracts_payload_json :: "hexlib \<Rightarrow> contracts_payload \<Rightarrow> json" where
  "contracts_payload_json H p = JObj ([(''dec_party_id'', j_id H (cp_dec_party p)), (''participants'', j_list (j_id H) (cp_participants p)),
     (''package_names'', j_list JStr (cp_package_names p)), (''contract_intents'', j_list j_intent (cp_contract_intents p))] @
     j_some ''workflow_instance'' JStr (cp_instance p))"

definition invitation_meta_json :: "hexlib \<Rightarrow> invitation_meta \<Rightarrow> json" where
  "invitation_meta_json H m = (case m of
     MetaNone \<Rightarrow> JNull
   | MetaOnboarding p \<Rightarrow> onboarding_payload_json H p
   | MetaDars p \<Rightarrow> dars_payload_json H p
   | MetaKick p \<Rightarrow> party_payload_json H (\<lambda>i. [(''kicked_participant'', j_id H i)]) p
   | MetaContracts p \<Rightarrow> contracts_payload_json H p
   | MetaAddParty p \<Rightarrow> party_payload_json H (\<lambda>i. [(''new_participant'', j_id H i)]) p
   | MetaChangeThreshold p \<Rightarrow> party_payload_json H (\<lambda>_. []) p)"

section \<open>The surroundings of a request\<close>

record dec_party_row =
  dp_party_id :: string
  dp_threshold :: int
  dp_confirmation :: "int option"

text \<open>\<open>la_peers\<close> is the table of peers as each read of it finds it, in the order of the reads; \<open>la_health\<close>,
  \<open>la_list_peers\<close> and \<open>la_invite\<close> are the answers of the network.\<close>

record launch_env =
  la_hex :: hexlib
  la_json :: jsonlib
  la_self :: canton_id
  la_key_ok :: "string \<Rightarrow> bool"
  la_keypair :: bool
  la_peers :: "nat \<Rightarrow> string + peer_record list"
  la_participants :: "canton_id \<Rightarrow> string + string list"
  la_owner_key :: "canton_id \<Rightarrow> string \<Rightarrow> string + string option"
  la_dec_parties :: "string \<Rightarrow> string + dec_party_row list"
  la_loaded :: bool
  la_now :: int
  la_health :: "peer_record \<Rightarrow> noise_error + bytes"
  la_version_ok :: "string \<Rightarrow> bool"
  la_list_peers :: "peer_record \<Rightarrow> noise_error + bytes"
  la_invite :: "peer_record \<Rightarrow> message \<Rightarrow> noise_error + bytes"
  la_resolve :: "contract_definition list \<Rightarrow> string + contract_definition list"
  la_commit :: "contracts_config \<Rightarrow> string + committed_deployment"
  la_base64 :: "string \<Rightarrow> bytes option"
  la_hash_dar :: "bytes \<Rightarrow> string"
  la_local_dar :: "string \<Rightarrow> string + (string \<times> string) option"

datatype edge_kind = UnreachableFromCoordinator | MeshHole

datatype launch_error =
    NotAdmin nat
  | KickSelf | AddSelf
  | OwnerKeyUnresolved | OwnerKeyUnread
  | PeersUnread | MembersUnread | ThresholdsUnread
  | TooFewPeers | NotAMember | AlreadyMember | NotConfigured | NoMembership | SelfNotMember | SoleMember
  | ThresholdRange | ConfirmationRange
  | PrefixInvalid | MeshUnread | MeshMissing "(string \<times> string \<times> edge_kind) list" | PrefixTaken string
  | NoPeers | NoContracts | Unresolved | Uncommitted | NoDarForPackage | DarUnread
  | PartyBusy string workflow_kind
  | Incompatible "(string \<times> string) list"

fun launch_status :: "launch_error \<Rightarrow> nat" where
  "launch_status (NotAdmin n) = n"
| "launch_status OwnerKeyUnresolved = 409"
| "launch_status OwnerKeyUnread = 500"
| "launch_status PeersUnread = 500"
| "launch_status MembersUnread = 500"
| "launch_status ThresholdsUnread = 500"
| "launch_status AlreadyMember = 409"
| "launch_status NoMembership = 409"
| "launch_status MeshUnread = 500"
| "launch_status (MeshMissing _) = 422"
| "launch_status (PrefixTaken _) = 409"
| "launch_status NoDarForPackage = 404"
| "launch_status DarUnread = 500"
| "launch_status (PartyBusy _ _) = 409"
| "launch_status (Incompatible _) = 409"
| "launch_status _ = 400"

section \<open>Before a start\<close>

definition party_member_count :: "canton_id set \<Rightarrow> canton_id \<Rightarrow> nat" where
  "party_member_count ms self = card ms + (if self \<notin> ms then 1 else 0)"

definition i32_try :: "int \<Rightarrow> string + int" where
  "i32_try n = (if - (2 ^ 31) \<le> n \<and> n < 2 ^ 31 then Inr n else Inl ''out of range'')"

definition cached_confirmation_threshold :: "launch_env \<Rightarrow> canton_id \<Rightarrow> nat \<Rightarrow> string + int option" where
  "cached_confirmation_threshold E party hosts =
     and_then (la_dec_parties E (prefix party)) (\<lambda>rows.
       case find (\<lambda>r. dp_party_id r = canton_id_display (la_hex E) party) rows of
         None \<Rightarrow> Inr None
       | Some row \<Rightarrow>
           and_then (i32_try (dp_threshold row)) (\<lambda>t.
           and_then (case dp_confirmation row of None \<Rightarrow> Inr None | Some c \<Rightarrow> and_then (i32_try c) (\<lambda>c. Inr (Some c))) (\<lambda>c.
             Inr (carried_confirmation_threshold (party_thresholds_new t c) hosts))))"

definition find_inprogress_run_for_party :: "bool \<Rightarrow> canton_id \<Rightarrow> 'a store_scheme \<Rightarrow> (string \<times> workflow_kind) option" where
  "find_inprogress_run_for_party loaded party s =
     map_option (\<lambda>r. (wr_name r, wr_kind r))
       (find (\<lambda>r. wr_dec_party_id r = Some party) (if loaded then get_in_progress_workflow_runs s else []))"

definition find_party_with_prefix :: "launch_env \<Rightarrow> string \<Rightarrow> string + string option" where
  "find_party_with_prefix E p = and_then (la_dec_parties E p) (\<lambda>rows.
     Inr (case rows of [] \<Rightarrow> None | r # _ \<Rightarrow> Some (dp_party_id r)))"

text \<open>A health report, as far as the version gate reads it; the derived reader checks all fields.\<close>

definition u_bool :: "json \<Rightarrow> bool option" where
  "u_bool j = (case j of JBool b \<Rightarrow> Some b | _ \<Rightarrow> None)"

definition u_i64 :: "json \<Rightarrow> int option" where
  "u_i64 j = (case j of JNum n \<Rightarrow> if - (2 ^ 63) \<le> n \<and> n < 2 ^ 63 then Some n else None | _ \<Rightarrow> None)"

definition workflow_info_from :: "json \<Rightarrow> (workflow_kind \<times> workflow_role \<times> string \<times> int \<times> int) option" where
  "workflow_info_from j = (case j of JObj kvs \<Rightarrow>
     Option.bind (u_required ''kind'' (\<lambda>j. Option.bind (u_str j) kind_from_str) kvs) (\<lambda>k.
     Option.bind (u_required ''role'' (\<lambda>j. Option.bind (u_str j) role_from_str) kvs) (\<lambda>r.
     Option.bind (u_required ''step'' u_str kvs) (\<lambda>st.
     Option.bind (u_required ''step_index'' u_i64 kvs) (\<lambda>i.
     Option.bind (u_required ''step_total'' u_i64 kvs) (\<lambda>t. Some (k, r, st, i, t))))))
   | _ \<Rightarrow> None)"

record health_reply =
  hr_workflow :: "(workflow_kind \<times> workflow_role \<times> string \<times> int \<times> int) option"
  hr_version :: "string option"
  hr_build :: "string option"

definition health_from_payload :: "json \<Rightarrow> health_reply option" where
  "health_from_payload j = (case j of JObj kvs \<Rightarrow>
     Option.bind (u_required ''participant_id'' u_str kvs) (\<lambda>_.
     Option.bind (u_required ''in_workflow'' u_bool kvs) (\<lambda>_.
     Option.bind (u_default ''workflow'' (u_option workflow_info_from) None kvs) (\<lambda>w.
     Option.bind (u_default ''workflow_count'' u_usize 0 kvs) (\<lambda>_.
     Option.bind (u_required ''version'' u_str kvs) (\<lambda>v.
     Option.bind (u_default ''build_version'' u_str [] kvs) (\<lambda>b.
       Some \<lparr>hr_workflow = w, hr_version = Some v, hr_build = (if b = [] then None else Some b)\<rparr>))))))
   | _ \<Rightarrow> None)"

definition classify_health_reply :: "jsonlib \<Rightarrow> bytes \<Rightarrow> health_reply" where
  "classify_health_reply J reply =
     (let unknown = \<lparr>hr_workflow = None, hr_version = None, hr_build = None\<rparr> in
      case from_bytes reply of
        Inl _ \<Rightarrow> unknown
      | Inr m \<Rightarrow> if msg_type m \<noteq> HealthResponse then unknown
                else case Option.bind (json_parse J (bytes_str (payload m))) health_from_payload of
                  Some h \<Rightarrow> h | None \<Rightarrow> unknown)"

text \<open>The verdict on one probe; \<open>None\<close>: compatible.\<close>

definition probe_verdict :: "launch_env \<Rightarrow> peer_record \<Rightarrow> (string \<times> string) option" where
  "probe_verdict E p = (let i = canton_id_display (la_hex E) (pe_participant_id p) in
     case la_health E p of
       Inl _ \<Rightarrow> Some (i, ''could not verify version'')
     | Inr reply \<Rightarrow> (case hr_version (classify_health_reply (la_json E) reply) of
         Some v \<Rightarrow> if la_version_ok E v then None else Some (i, ''running version '' @ v)
       | None \<Rightarrow> Some (i, ''reachable but reported no version (pre-0.1.9 build)'')))"

definition preflight_incompatible_peers :: "launch_env \<Rightarrow> string + peer_record list \<Rightarrow> canton_id list \<Rightarrow> (string \<times> string) list" where
  "preflight_incompatible_peers E read invitees = (case read of
     Inl _ \<Rightarrow> []
   | Inr peers \<Rightarrow> if \<not> la_keypair E then []
       else List.map_filter (\<lambda>p. if la_key_ok E (pe_public_key p) then probe_verdict E p else None)
         (filter (\<lambda>p. canton_id_display (la_hex E) (pe_participant_id p) \<in> set (map (canton_id_display (la_hex E)) invitees)) peers))"

text \<open>What a selected peer answers to \<open>ListPeers\<close>; \<open>None\<close>: the coordinator cannot query it.\<close>

definition peer_view :: "launch_env \<Rightarrow> peer_record list \<Rightarrow> canton_id \<Rightarrow> string list option" where
  "peer_view E peers i =
     Option.bind (find (\<lambda>p. pe_participant_id p = i) peers) (\<lambda>p.
       if pe_public_key p = [] \<or> \<not> la_key_ok E (pe_public_key p) then None
       else case la_list_peers E p of
         Inl _ \<Rightarrow> None
       | Inr reply \<Rightarrow> (case from_bytes reply of
           Inl _ \<Rightarrow> None
         | Inr m \<Rightarrow> if msg_type m \<noteq> PeerList then None
                   else Option.bind (json_parse (la_json E) (bytes_str (payload m))) (u_list u_str)))"

definition verify_peer_mesh :: "launch_env \<Rightarrow> canton_id list \<Rightarrow> string + (string \<times> string \<times> edge_kind) list" where
  "verify_peer_mesh E ids =
     and_then (la_peers E 0) (\<lambda>peers.
     and_then (if la_keypair E then Inr () else Inl ''key file'') (\<lambda>_.
       let show = canton_id_display (la_hex E);
           views = fold (\<lambda>i m. case peer_view E peers i of None \<Rightarrow> m | Some v \<Rightarrow> m(show i \<mapsto> v)) ids Map.empty in
       Inr (List.map_filter (\<lambda>i. if peer_view E peers i = None then Some (show (la_self E), show i, UnreachableFromCoordinator) else None) ids @
         concat (map (\<lambda>a. case views (show a) of None \<Rightarrow> [] | Some v \<Rightarrow>
           map (\<lambda>b. (show a, show b, MeshHole)) (filter (\<lambda>b. a \<noteq> b \<and> show b \<notin> set v) ids)) ids))))"

section \<open>Plans\<close>

text \<open>What a start handler has decided when it registers the run: its name, first step, stored configuration, the peers
  it waits for, the party it is about, and the invitation, as \<open>WorkflowRun\<close> and the spawned task carry them.
  \<open>pl_skip\<close> are the peers the sending loop leaves out besides those not invited; \<open>pl_by_ids\<close>: the loop goes through
  the invitees and looks each up, instead of through the table.\<close>

record plan =
  pl_name :: string
  pl_kind :: workflow_kind
  pl_step :: string
  pl_index :: int
  pl_total :: int
  pl_config :: json
  pl_invitees :: "canton_id list"
  pl_party :: "canton_id option"
  pl_invite :: "string + invitation_meta"
  pl_skip :: "canton_id set"
  pl_by_ids :: bool

definition plan_of :: "workflow_kind \<Rightarrow> 's step_ops \<Rightarrow> 's \<Rightarrow> string \<Rightarrow> json \<Rightarrow> canton_id list \<Rightarrow> canton_id option
    \<Rightarrow> string + invitation_meta \<Rightarrow> canton_id set \<Rightarrow> bool \<Rightarrow> plan" where
  "plan_of kind ops first name config invitees party invite skip by_ids =
     \<lparr>pl_name = name, pl_kind = kind, pl_step = step_name ops first, pl_index = step_index ops first, pl_total = step_total ops,
      pl_config = config, pl_invitees = invitees, pl_party = party, pl_invite = invite, pl_skip = skip, pl_by_ids = by_ids\<rparr>"

definition parsed_members :: "hexlib \<Rightarrow> string list \<Rightarrow> canton_id set" where
  "parsed_members H uids = set (List.map_filter (\<lambda>u. case canton_id_parse H u of Inr i \<Rightarrow> Some i | Inl _ \<Rightarrow> None) uids)"

text \<open>The two checks every handler but one ends with.\<close>

definition ensure_party_free :: "launch_env \<Rightarrow> canton_id \<Rightarrow> 'a store_scheme \<Rightarrow> launch_error + unit" where
  "ensure_party_free E party s = (case find_inprogress_run_for_party (la_loaded E) party s of
     Some (run, kind) \<Rightarrow> Inl (PartyBusy run kind) | None \<Rightarrow> Inr ())"

definition ensure_compatible :: "launch_env \<Rightarrow> nat \<Rightarrow> canton_id list \<Rightarrow> launch_error + unit" where
  "ensure_compatible E n invitees = (let bad = preflight_incompatible_peers E (la_peers E n) invitees in
     if bad \<noteq> [] then Inl (Incompatible bad) else Inr ())"

definition admin_gate :: "nat option \<Rightarrow> launch_error + unit" where
  "admin_gate refusal = (case refusal of Some status \<Rightarrow> Inl (NotAdmin status) | None \<Rightarrow> Inr ())"

subsection \<open>Kick\<close>

record kick_request =
  kq_party :: canton_id
  kq_participant :: canton_id
  kq_new_threshold :: int
  kq_previous_threshold :: int

definition start_kick :: "launch_env \<Rightarrow> nat option \<Rightarrow> kick_request \<Rightarrow> 'a store_scheme \<Rightarrow> launch_error + plan" where
  "start_kick E refusal q s =
     and_then (admin_gate refusal) (\<lambda>_.
     and_then (ensure (kq_participant q \<noteq> la_self E) KickSelf) (\<lambda>_.
     and_then (map_err (\<lambda>_. OwnerKeyUnread) (la_owner_key E (kq_party q) (canton_id_display (la_hex E) (kq_participant q)))) (\<lambda>key.
     and_then (ok_or OwnerKeyUnresolved key) (\<lambda>fingerprint.
     and_then (map_err (\<lambda>_. PeersUnread) (la_peers E 0)) (\<lambda>all_peers.
     and_then (map_err (\<lambda>_. MembersUnread) (la_participants E (kq_party q))) (\<lambda>rows.
       let parsed = parsed_members (la_hex E) rows;
           party_members = (if parsed = {} then set (map pe_participant_id all_peers) else parsed);
           peers = filter (\<lambda>p. pe_participant_id p \<in> party_members) all_peers;
           post_kick = int (party_member_count party_members (la_self E)) - 1 in
     and_then (ensure (2 \<le> length peers) TooFewPeers) (\<lambda>_.
     and_then (ensure (list_ex (\<lambda>p. pe_participant_id p = kq_participant q) peers) NotAMember) (\<lambda>_.
     and_then (ensure (1 \<le> kq_new_threshold q \<and> kq_new_threshold q \<le> post_kick) ThresholdRange) (\<lambda>_.
     and_then (map_err (\<lambda>_. ThresholdsUnread) (cached_confirmation_threshold E (kq_party q) (nat post_kick))) (\<lambda>confirmation.
       let invitees = filter (\<lambda>i. i \<noteq> la_self E \<and> i \<noteq> kq_participant q) (map pe_participant_id peers);
           name = prefix (kq_party q) @ ''-kick-'' @ i64_str (la_now E);
           config = \<lparr>kc_party = kq_party q, kc_participant = kq_participant q, kc_fingerprint = fingerprint,
             kc_new_threshold = kq_new_threshold q, kc_confirmation = confirmation,
             kc_previous_threshold = kq_previous_threshold q, kc_instance = name\<rparr>;
           meta = MetaKick \<lparr>pp_dec_party = kc_party config, pp_who = kc_participant config, pp_new_threshold = kc_new_threshold config,
             pp_previous_threshold = kc_previous_threshold config, pp_confirmation = kc_confirmation config,
             pp_participants = invitees, pp_instance = Some (kc_instance config)\<rparr> in
     and_then (ensure_party_free E (kq_party q) s) (\<lambda>_.
     and_then (ensure_compatible E 1 invitees) (\<lambda>_.
       Inr (plan_of Kick kick_ops kick_step.WaitingForPeers name (kick_config_json (la_hex E) config) invitees (Some (kq_party q)) (Inr meta)
         {la_self E, kq_participant q} False)))))))))))))"

subsection \<open>Adding a member\<close>

record add_party_request =
  aq_party :: canton_id
  aq_new_participant :: canton_id
  aq_new_threshold :: int
  aq_previous_threshold :: int

definition start_add_party :: "launch_env \<Rightarrow> nat option \<Rightarrow> add_party_request \<Rightarrow> 'a store_scheme \<Rightarrow> launch_error + plan" where
  "start_add_party E refusal q s =
     and_then (admin_gate refusal) (\<lambda>_.
     and_then (ensure (aq_new_participant q \<noteq> la_self E) AddSelf) (\<lambda>_.
     and_then (map_err (\<lambda>_. PeersUnread) (la_peers E 0)) (\<lambda>peers.
     and_then (ensure (list_ex (\<lambda>p. pe_participant_id p = aq_new_participant q) peers) NotConfigured) (\<lambda>_.
     and_then (map_err (\<lambda>_. MembersUnread) (la_participants E (aq_party q))) (\<lambda>rows.
       let party_members = parsed_members (la_hex E) rows in
     and_then (ensure (party_members \<noteq> {}) NoMembership) (\<lambda>_.
     and_then (ensure (aq_new_participant q \<notin> party_members) AlreadyMember) (\<lambda>_.
     and_then (ensure (la_self E \<in> party_members) SelfNotMember) (\<lambda>_.
     and_then (ensure (1 \<le> aq_new_threshold q \<and> aq_new_threshold q \<le> int (card party_members)) ThresholdRange) (\<lambda>_.
     and_then (map_err (\<lambda>_. ThresholdsUnread) (cached_confirmation_threshold E (aq_party q) (card party_members + 1))) (\<lambda>confirmation.
       let invitees = filter (\<lambda>i. i \<in> party_members \<and> i \<noteq> la_self E) (map pe_participant_id peers) @ [aq_new_participant q];
           name = prefix (aq_party q) @ ''-add-party-'' @ i64_str (la_now E);
           config = \<lparr>ac_party = aq_party q, ac_new_participant = aq_new_participant q, ac_new_threshold = aq_new_threshold q,
             ac_confirmation = confirmation, ac_previous_threshold = aq_previous_threshold q, ac_instance = name\<rparr>;
           meta = MetaAddParty \<lparr>pp_dec_party = ac_party config, pp_who = ac_new_participant config, pp_new_threshold = ac_new_threshold config,
             pp_previous_threshold = ac_previous_threshold config, pp_confirmation = ac_confirmation config,
             pp_participants = invitees @ [la_self E], pp_instance = Some (ac_instance config)\<rparr> in
     and_then (ensure_party_free E (aq_party q) s) (\<lambda>_.
     and_then (ensure_compatible E 1 invitees) (\<lambda>_.
       Inr (plan_of AddParty add_party_ops add_party_step.WaitingForPeers name (add_party_config_json (la_hex E) config) invitees
         (Some (aq_party q)) (Inr meta) {la_self E} False)))))))))))))"

subsection \<open>Changing thresholds\<close>

record change_threshold_request =
  tq_party :: canton_id
  tq_new_threshold :: int
  tq_confirmation :: "int option"
  tq_previous_threshold :: int

definition start_change_threshold :: "launch_env \<Rightarrow> nat option \<Rightarrow> change_threshold_request \<Rightarrow> 'a store_scheme \<Rightarrow> launch_error + plan" where
  "start_change_threshold E refusal q s =
     and_then (admin_gate refusal) (\<lambda>_.
     and_then (map_err (\<lambda>_. MembersUnread) (la_participants E (tq_party q))) (\<lambda>rows.
       let party_members = parsed_members (la_hex E) rows in
     and_then (ensure (party_members \<noteq> {}) NoMembership) (\<lambda>_.
     and_then (ensure (la_self E \<in> party_members) SelfNotMember) (\<lambda>_.
     and_then (ensure (2 \<le> card party_members) SoleMember) (\<lambda>_.
     and_then (ensure (1 \<le> tq_new_threshold q \<and> tq_new_threshold q \<le> int (card party_members)) ThresholdRange) (\<lambda>_.
     and_then (case tq_confirmation q of None \<Rightarrow> Inr ()
       | Some c \<Rightarrow> map_err (\<lambda>_. ConfirmationRange) (check_confirmation_threshold c (card party_members))) (\<lambda>_.
     and_then (map_err (\<lambda>_. PeersUnread) (la_peers E 0)) (\<lambda>peers.
       let invitees = filter (\<lambda>i. i \<in> party_members \<and> i \<noteq> la_self E) (map pe_participant_id peers);
           name = prefix (tq_party q) @ ''-change-threshold-'' @ i64_str (la_now E);
           config = \<lparr>tc_party = tq_party q, tc_new_threshold = tq_new_threshold q, tc_confirmation = tq_confirmation q,
             tc_previous_threshold = tq_previous_threshold q, tc_instance = name\<rparr>;
           meta = MetaChangeThreshold \<lparr>pp_dec_party = tc_party config, pp_who = (), pp_new_threshold = tc_new_threshold config,
             pp_previous_threshold = tc_previous_threshold config, pp_confirmation = tc_confirmation config,
             pp_participants = invitees @ [la_self E], pp_instance = Some (tc_instance config)\<rparr> in
     and_then (ensure_party_free E (tq_party q) s) (\<lambda>_.
     and_then (ensure_compatible E 1 invitees) (\<lambda>_.
       Inr (plan_of ChangeThreshold change_threshold_ops change_threshold_step.WaitingForPeers name (change_threshold_config_json (la_hex E) config)
         invitees (Some (tq_party q)) (Inr meta) {la_self E} False)))))))))))"

subsection \<open>A new party\<close>

record onboarding_request =
  oq_prefix :: string
  oq_peers :: "canton_id list"
  oq_threshold :: "int option"
  oq_confirmation :: "int option"

text \<open>\<open>owner_count\<close> is an \<open>i32\<close>; a list of peers that long cannot be sent.  The threshold shown is the one asked for,
  or the majority the coordinator falls back to.\<close>

definition start_onboarding :: "launch_env \<Rightarrow> nat option \<Rightarrow> onboarding_request \<Rightarrow> launch_error + plan" where
  "start_onboarding E refusal q =
     and_then (admin_gate refusal) (\<lambda>_.
     and_then (map_err (\<lambda>_. PrefixInvalid) (validate_party_id_prefix (oq_prefix q))) (\<lambda>_.
     and_then (map_err (\<lambda>_. MeshUnread) (verify_peer_mesh E (oq_peers q))) (\<lambda>missing.
     and_then (ensure (missing = []) (MeshMissing missing)) (\<lambda>_.
       let name = oq_prefix q @ ''-creation'';
           owner_count = length (oq_peers q) + 1 in
     and_then (case oq_threshold q of None \<Rightarrow> Inr () | Some t \<Rightarrow> ensure (1 \<le> t \<and> t \<le> int owner_count) ThresholdRange) (\<lambda>_.
     and_then (case oq_confirmation q of None \<Rightarrow> Inr ()
       | Some c \<Rightarrow> map_err (\<lambda>_. ConfirmationRange) (check_confirmation_threshold c owner_count)) (\<lambda>_.
       let config = \<lparr>oc_prefix = oq_prefix q, oc_instance = name, oc_threshold = oq_threshold q, oc_confirmation = oq_confirmation q\<rparr>;
           shown = (case oc_threshold config of Some t \<Rightarrow> t | None \<Rightarrow> int (max (div_ceil owner_count 2) 1));
           meta = MetaOnboarding \<lparr>op_prefix = oc_prefix config, op_participants = oq_peers q, op_threshold = Some shown,
             op_confirmation = oc_confirmation config, op_instance = Some name\<rparr> in
     and_then (case find_party_with_prefix E (oq_prefix q) of Inr (Some existing) \<Rightarrow> Inl (PrefixTaken existing) | _ \<Rightarrow> Inr ()) (\<lambda>_.
     and_then (ensure_compatible E 1 (oq_peers q)) (\<lambda>_.
       Inr (plan_of Onboarding onboarding_ops onboarding_step.WaitingForPeers name (onboarding_config_json config) (oq_peers q) None
         (Inr meta) {} True)))))))))"

subsection \<open>Contracts\<close>

record contracts_request =
  cq_party :: canton_id
  cq_participant_ids :: "canton_id list"
  cq_participant_parties :: "canton_id list"
  cq_operator :: canton_id
  cq_contracts :: "contract_definition list"

text \<open>\<open>Vec::dedup\<close>.\<close>

fun dedup :: "'a list \<Rightarrow> 'a list" where
  "dedup (x # y # xs) = (if x = y then dedup (y # xs) else x # dedup (y # xs))"
| "dedup xs = xs"

definition package_names_of :: "contract_definition list \<Rightarrow> string list" where
  "package_names_of cs = dedup (sort (filter (\<lambda>n. n \<noteq> []) (map cd_name cs)))"

definition start_contracts :: "launch_env \<Rightarrow> nat option \<Rightarrow> contracts_request \<Rightarrow> 'a store_scheme \<Rightarrow> launch_error + plan" where
  "start_contracts E refusal q s =
     and_then (admin_gate refusal) (\<lambda>_.
     and_then (ensure (cq_contracts q \<noteq> []) NoContracts) (\<lambda>_.
       let name = prefix (cq_party q) @ ''-contracts-'' @ i64_str (la_now E);
           config = \<lparr>cc_party = cq_party q, cc_participant_ids = cq_participant_ids q, cc_participant_parties = cq_participant_parties q,
             cc_operator = cq_operator q, cc_contracts = cq_contracts q, cc_instance = name, cc_committed = None\<rparr>;
           invitees = (case la_peers E 0 of Inl _ \<Rightarrow> [] | Inr peers \<Rightarrow>
             filter (\<lambda>i. i \<noteq> la_self E \<and> i \<in> set (cq_participant_ids q)) (map pe_participant_id peers)) in
     and_then (ensure_party_free E (cq_party q) s) (\<lambda>_.
     and_then (ensure_compatible E 1 invitees) (\<lambda>_.
     and_then (map_err (\<lambda>_. Unresolved) (la_resolve E (cc_contracts config))) (\<lambda>resolved.
       let config1 = config\<lparr>cc_contracts := resolved\<rparr> in
     and_then (map_err (\<lambda>_. Uncommitted) (la_commit E config1)) (\<lambda>committed.
       let config2 = config1\<lparr>cc_committed := Some committed\<rparr>;
           meta = MetaContracts \<lparr>cp_dec_party = cc_party config2, cp_participants = invitees, cp_package_names = package_names_of (cc_contracts config2),
             cp_contract_intents = co_intents committed, cp_instance = Some (cc_instance config2)\<rparr> in
       Inr (plan_of Contracts contracts_ops contracts_step.WaitingForPeers name (contracts_config_json (la_hex E) config2) invitees
         (Some (cq_party q)) (Inr meta) {la_self E} False)))))))"

subsection \<open>DARs\<close>

definition launch_dars :: "launch_env \<Rightarrow> (string \<times> string) list \<Rightarrow> canton_id list \<Rightarrow> launch_error + plan" where
  "launch_dars E files ids =
     (let name = ''dars-distribute-'' @ i64_str (la_now E);
          config = \<lparr>dc_files = files, dc_instance = name, dc_peers = ids\<rparr>;
          hashes = collect_results (map (\<lambda>(_, d). ok_or ''Could not hash the DARs for the invitation'' (map_option (la_hash_dar E) (la_base64 E d))) files);
          invite = and_then hashes (\<lambda>hs. Inr (MetaDars \<lparr>dq_filenames = map fst files, dq_hashes = hs, dq_participants = ids, dq_instance = Some name\<rparr>)) in
      and_then (ensure_compatible E 0 ids) (\<lambda>_.
        Inr (plan_of Dars dars_ops dars_step.WaitingForPeers name (dars_config_json (la_hex E) config) ids None invite {} True)))"

definition start_dars :: "launch_env \<Rightarrow> nat option \<Rightarrow> (string \<times> string) list \<Rightarrow> canton_id list \<Rightarrow> launch_error + plan" where
  "start_dars E refusal files ids =
     and_then (admin_gate refusal) (\<lambda>_. and_then (ensure (ids \<noteq> []) NoPeers) (\<lambda>_. launch_dars E files ids))"

definition start_dars_for_package :: "launch_env \<Rightarrow> nat option \<Rightarrow> string \<Rightarrow> canton_id list \<Rightarrow> launch_error + plan" where
  "start_dars_for_package E refusal package_id ids =
     and_then (admin_gate refusal) (\<lambda>_.
     and_then (ensure (ids \<noteq> []) NoPeers) (\<lambda>_.
     and_then (map_err (\<lambda>_. DarUnread) (la_local_dar E package_id)) (\<lambda>found.
     and_then (ok_or NoDarForPackage found) (\<lambda>dar. launch_dars E [dar] ids))))"

section \<open>Invitations, sent\<close>

definition interpret_invite_reply :: "bytes \<Rightarrow> string + unit" where
  "interpret_invite_reply reply = (case from_bytes reply of
     Inr m \<Rightarrow> if msg_type m = Busy then Inl ''busy'' else Inr ()
   | Inl _ \<Rightarrow> Inr ())"

definition invite_message_type :: "invitation_meta \<Rightarrow> message_type" where
  "invite_message_type m = (case m of MetaOnboarding _ \<Rightarrow> InviteOnboarding | MetaDars _ \<Rightarrow> InviteDars | MetaKick _ \<Rightarrow> InviteKick
     | MetaContracts _ \<Rightarrow> InviteContracts | MetaAddParty _ \<Rightarrow> InviteAddParty | MetaChangeThreshold _ \<Rightarrow> InviteChangeThreshold
     | MetaNone \<Rightarrow> InviteOnboarding)"

definition invite_message :: "launch_env \<Rightarrow> invitation_meta \<Rightarrow> message" where
  "invite_message E m = message_new (invite_message_type m) (str_bytes (json_print (la_json E) (invitation_meta_json (la_hex E) m)))"

text \<open>The peers a loop sends to, in its order.\<close>

definition invite_targets :: "launch_env \<Rightarrow> plan \<Rightarrow> peer_record list \<Rightarrow> peer_record list" where
  "invite_targets E pl peers =
     filter (\<lambda>p. pe_public_key p \<noteq> [] \<and> la_key_ok E (pe_public_key p))
       (if pl_by_ids pl then List.map_filter (\<lambda>i. find (\<lambda>p. pe_participant_id p = i) peers) (pl_invitees pl)
        else filter (\<lambda>p. pe_participant_id p \<in> set (pl_invitees pl) \<and> pe_participant_id p \<notin> pl_skip pl) peers)"

text \<open>A send that fails is logged; a peer that says it is busy ends the loop.\<close>

fun send_each :: "launch_env \<Rightarrow> message \<Rightarrow> peer_record list \<Rightarrow> peer_record list \<times> (string + unit)" where
  "send_each E m [] = ([], Inr ())"
| "send_each E m (p # ps) = (case la_invite E p m of
     Inl _ \<Rightarrow> apfst (\<lambda>sent. p # sent) (send_each E m ps)
   | Inr reply \<Rightarrow> (case interpret_invite_reply reply of
       Inl e \<Rightarrow> ([p], Inl e)
     | Inr _ \<Rightarrow> apfst (\<lambda>sent. p # sent) (send_each E m ps)))"

definition send_invites :: "launch_env \<Rightarrow> plan \<Rightarrow> (peer_record \<times> message) list \<times> (string + unit)" where
  "send_invites E pl = (case pl_invite pl of
     Inl e \<Rightarrow> ([], Inl e)
   | Inr meta \<Rightarrow> (case la_peers E 2 of
       Inl e \<Rightarrow> ([], Inl e)
     | Inr peers \<Rightarrow> if \<not> la_keypair E then ([], Inl ''key file'')
         else (let m = invite_message E meta in
           apfst (map (\<lambda>p. (p, m))) (send_each E m (invite_targets E pl peers)))))"

section \<open>Lemmas\<close>

lemma preflight_clear:
  "(\<And>p. p \<in> set peers \<Longrightarrow> la_key_ok E (pe_public_key p) \<Longrightarrow> probe_verdict E p = None) \<Longrightarrow>
     preflight_incompatible_peers E (Inr peers) ids = []"
  by (auto simp: preflight_incompatible_peers_def List.map_filter_def filter_empty_conv)

lemma j_some_simps [simp]: "j_some k f None = []" "j_some k f (Some v) = [(k, f v)]"
  by (simp_all add: j_some_def)

text \<open>What the documents of an invitation say, ids and numbers being such as requests carry.\<close>

definition good_meta :: "hexlib \<Rightarrow> invitation_meta \<Rightarrow> bool" where
  "good_meta H m = (case m of
     MetaNone \<Rightarrow> False
   | MetaOnboarding p \<Rightarrow> list_all (parsed_id H) (op_participants p) \<and> pred_option i32_range (op_threshold p) \<and> pred_option i32_range (op_confirmation p)
   | MetaDars p \<Rightarrow> list_all (parsed_id H) (dq_participants p)
   | MetaKick p \<Rightarrow> parsed_id H (pp_dec_party p) \<and> parsed_id H (pp_who p) \<and> i32_range (pp_new_threshold p) \<and> i32_range (pp_previous_threshold p) \<and>
       pred_option i32_range (pp_confirmation p) \<and> list_all (parsed_id H) (pp_participants p)
   | MetaContracts p \<Rightarrow> parsed_id H (cp_dec_party p) \<and> list_all (parsed_id H) (cp_participants p)
   | MetaAddParty p \<Rightarrow> parsed_id H (pp_dec_party p) \<and> parsed_id H (pp_who p) \<and> i32_range (pp_new_threshold p) \<and> i32_range (pp_previous_threshold p) \<and>
       pred_option i32_range (pp_confirmation p) \<and> list_all (parsed_id H) (pp_participants p)
   | MetaChangeThreshold p \<Rightarrow> parsed_id H (pp_dec_party p) \<and> i32_range (pp_new_threshold p) \<and> i32_range (pp_previous_threshold p) \<and>
       pred_option i32_range (pp_confirmation p) \<and> list_all (parsed_id H) (pp_participants p))"

definition type_of_meta :: "invitation_meta \<Rightarrow> invitation_type" where
  "type_of_meta m = (case m of MetaOnboarding _ \<Rightarrow> InvOnboarding | MetaDars _ \<Rightarrow> InvDars | MetaKick _ \<Rightarrow> InvKick | MetaContracts _ \<Rightarrow> InvContracts
     | MetaAddParty _ \<Rightarrow> InvAddParty | MetaChangeThreshold _ \<Rightarrow> InvChangeThreshold | MetaNone \<Rightarrow> InvOnboarding)"

lemma type_of_invite: "m \<noteq> MetaNone \<Longrightarrow> invitation_of_message (invite_message_type m) = Some (type_of_meta m)"
  by (cases m) (simp_all add: invitation_of_message_def invite_message_type_def type_of_meta_def)

lemmas read_defs = u_required_def u_default_def u_field_def

lemma u_option_num: "i32_range n \<Longrightarrow> u_option u_i32 (JNum n) = Some (Some n)"
  by (simp add: u_option_def u_i32_def i32_range_def)

lemma u_option_str: "u_option u_str (JStr s) = Some (Some s)"
  by (simp add: u_option_def u_str_def)

lemma u_i32_num: "i32_range n \<Longrightarrow> u_i32 (JNum n) = Some n"
  by (simp add: u_i32_def i32_range_def)

context hex_codec
begin

lemma u_ids: "list_all (parsed_id H) xs \<Longrightarrow> u_list (u_id H) (j_list (j_id H) xs) = Some xs"
  by (rule u_list_j_list) (simp add: list_all_iff u_id_j_id)

lemma u_strs: "u_list u_str (j_list JStr xs) = Some xs"
  by (rule u_list_j_list) (simp add: u_str_def)

lemma u_intents: "u_list u_intent (j_list j_intent xs) = Some xs"
  by (rule u_list_j_list) (rule u_intent_j_intent)

lemmas readback = u_ids u_strs u_intents u_id_j_id u_option_num u_option_str u_i32_num u_str_JStr

lemma onboarding_readback: "good_meta H (MetaOnboarding p) \<Longrightarrow> onboarding_payload_from H (onboarding_payload_json H p) = Some p"
  by (cases "op_threshold p"; cases "op_confirmation p"; cases "op_instance p")
    (simp_all add: good_meta_def onboarding_payload_from_def onboarding_payload_json_def read_defs readback)

lemma dars_readback: "good_meta H (MetaDars p) \<Longrightarrow> dars_payload_from H (dars_payload_json H p) = Some p"
  by (cases "dq_instance p") (simp_all add: good_meta_def dars_payload_from_def dars_payload_json_def read_defs readback)

lemma contracts_readback: "good_meta H (MetaContracts p) \<Longrightarrow> contracts_payload_from H (contracts_payload_json H p) = Some p"
  by (cases "cp_instance p") (simp_all add: good_meta_def contracts_payload_from_def contracts_payload_json_def read_defs readback)

lemma kick_readback:
  "good_meta H (MetaKick p) \<Longrightarrow> party_payload_from H (u_required ''kicked_participant'' (u_id H))
     (party_payload_json H (\<lambda>i. [(''kicked_participant'', j_id H i)]) p) = Some p"
  by (cases "pp_confirmation p"; cases "pp_instance p")
    (simp_all add: good_meta_def party_payload_from_def party_payload_json_def read_defs readback)

lemma add_party_readback:
  "good_meta H (MetaAddParty p) \<Longrightarrow> party_payload_from H (u_required ''new_participant'' (u_id H))
     (party_payload_json H (\<lambda>i. [(''new_participant'', j_id H i)]) p) = Some p"
  by (cases "pp_confirmation p"; cases "pp_instance p")
    (simp_all add: good_meta_def party_payload_from_def party_payload_json_def read_defs readback)

lemma change_threshold_readback:
  "good_meta H (MetaChangeThreshold p) \<Longrightarrow> party_payload_from H (\<lambda>_. Some ()) (party_payload_json H (\<lambda>_. []) p) = Some p"
  by (cases "pp_confirmation p"; cases "pp_instance p")
    (simp_all add: good_meta_def party_payload_from_def party_payload_json_def read_defs readback)

lemmas meta_readbacks = onboarding_readback dars_readback contracts_readback kick_readback add_party_readback change_threshold_readback

lemma meta_readback:
  assumes "good_meta H m" and "json_parse J (json_print J (invitation_meta_json H m)) = Some (invitation_meta_json H m)"
    and "json_print J (invitation_meta_json H m) \<noteq> []"
  shows "invitation_meta_from H J (type_of_meta m) (str_bytes (json_print J (invitation_meta_json H m))) = m"
proof -
  have "str_bytes (json_print J (invitation_meta_json H m)) \<noteq> []" using assms(3) by (simp add: str_bytes_def)
  then show ?thesis using assms(1,2) meta_readbacks
    by (cases m) (simp_all add: invitation_meta_from_def invitation_meta_json_def type_of_meta_def, simp add: good_meta_def)
qed

end

subsection \<open>What a plan contains\<close>

definition kick_members :: "launch_env \<Rightarrow> peer_record list \<Rightarrow> string list \<Rightarrow> canton_id set" where
  "kick_members E peers rows = (let parsed = parsed_members (la_hex E) rows in
     if parsed = {} then set (map pe_participant_id peers) else parsed)"

lemma and_then_cases: "and_then r f = Inr y \<Longrightarrow> (\<And>x. r = Inr x \<Longrightarrow> f x = Inr y \<Longrightarrow> P) \<Longrightarrow> P"
  by (auto simp: and_then_Inr_iff)

lemma kick_plan:
  assumes "start_kick E refusal q s = Inr pl"
  obtains peers rows fingerprint confirmation where "la_peers E 0 = Inr peers" "la_participants E (kq_party q) = Inr rows"
    "kq_participant q \<noteq> la_self E" "kq_participant q \<in> kick_members E peers rows"
    "1 \<le> kq_new_threshold q" "kq_new_threshold q \<le> int (party_member_count (kick_members E peers rows) (la_self E)) - 1"
    "find_inprogress_run_for_party (la_loaded E) (kq_party q) s = None"
    "set (pl_invitees pl) = set (map pe_participant_id peers) \<inter> kick_members E peers rows - {la_self E, kq_participant q}"
    "cached_confirmation_threshold E (kq_party q) (nat (int (party_member_count (kick_members E peers rows) (la_self E)) - 1)) = Inr confirmation"
    "pl_kind pl = Kick" "pl_party pl = Some (kq_party q)" "pl_name pl = prefix (kq_party q) @ ''-kick-'' @ i64_str (la_now E)"
    "pl_config pl = kick_config_json (la_hex E) \<lparr>kc_party = kq_party q, kc_participant = kq_participant q, kc_fingerprint = fingerprint,
       kc_new_threshold = kq_new_threshold q, kc_confirmation = confirmation, kc_previous_threshold = kq_previous_threshold q, kc_instance = pl_name pl\<rparr>"
    "pl_invite pl = Inr (MetaKick \<lparr>pp_dec_party = kq_party q, pp_who = kq_participant q, pp_new_threshold = kq_new_threshold q,
       pp_previous_threshold = kq_previous_threshold q, pp_confirmation = confirmation, pp_participants = pl_invitees pl,
       pp_instance = Some (pl_name pl)\<rparr>)"
proof -
  from assms show ?thesis
    unfolding start_kick_def Let_def
    apply (elim and_then_cases)
    subgoal premises p for u1 u2 key fp peers rows u3 u4 u5 c u6 u7
    proof -
      let ?ms = "if parsed_members (la_hex E) rows = {} then set (map pe_participant_id peers) else parsed_members (la_hex E) rows"
      have ms: "kick_members E peers rows = ?ms" by (simp only: kick_members_def Let_def)
      have pl: "pl = plan_of Kick kick_ops kick_step.WaitingForPeers (prefix (kq_party q) @ ''-kick-'' @ i64_str (la_now E))
         (kick_config_json (la_hex E) \<lparr>kc_party = kq_party q, kc_participant = kq_participant q, kc_fingerprint = fp,
           kc_new_threshold = kq_new_threshold q, kc_confirmation = c, kc_previous_threshold = kq_previous_threshold q,
           kc_instance = prefix (kq_party q) @ ''-kick-'' @ i64_str (la_now E)\<rparr>)
         (filter (\<lambda>i. i \<noteq> la_self E \<and> i \<noteq> kq_participant q) (map pe_participant_id (filter (\<lambda>p. pe_participant_id p \<in> kick_members E peers rows) peers)))
         (Some (kq_party q)) (Inr (MetaKick \<lparr>pp_dec_party = kq_party q, pp_who = kq_participant q, pp_new_threshold = kq_new_threshold q,
           pp_previous_threshold = kq_previous_threshold q, pp_confirmation = c,
           pp_participants = filter (\<lambda>i. i \<noteq> la_self E \<and> i \<noteq> kq_participant q) (map pe_participant_id (filter (\<lambda>p. pe_participant_id p \<in> kick_members E peers rows) peers)),
           pp_instance = Some (prefix (kq_party q) @ ''-kick-'' @ i64_str (la_now E))\<rparr>)) {la_self E, kq_participant q} False"
        using p(13) unfolding ms by simp
      show ?thesis
      proof (rule that [of peers rows c fp])
        show "la_peers E 0 = Inr peers" "la_participants E (kq_party q) = Inr rows" "kq_participant q \<noteq> la_self E"
          using p(2,5,6) by (simp_all add: map_err_Inr result_simps)
        have "\<exists>p \<in> {x \<in> set peers. pe_participant_id x \<in> kick_members E peers rows}. pe_participant_id p = kq_participant q"
          using p(8) unfolding ensure_Inr list_ex_iff set_filter ms .
        then show "kq_participant q \<in> kick_members E peers rows" by auto
        show "1 \<le> kq_new_threshold q" "kq_new_threshold q \<le> int (party_member_count (kick_members E peers rows) (la_self E)) - 1"
          unfolding ms using p(9) by (simp_all add: result_simps)
        show "find_inprogress_run_for_party (la_loaded E) (kq_party q) s = None"
          using p(11) by (simp add: ensure_party_free_def split: option.splits prod.splits)
        show "cached_confirmation_threshold E (kq_party q) (nat (int (party_member_count (kick_members E peers rows) (la_self E)) - 1)) = Inr c"
          unfolding ms using p(10) by (simp add: map_err_Inr)
      qed (auto simp: pl plan_of_def)
    qed
    done
qed

lemma sent_by: "x \<in> set (fst (send_each E m ps)) \<Longrightarrow> x \<in> set ps"
  by (induction E m ps rule: send_each.induct) (auto split: sum.splits)

lemma sent_invite:
  assumes "(p, m) \<in> set (fst (send_invites E pl))"
  obtains meta peers where "pl_invite pl = Inr meta" "la_peers E 2 = Inr peers" "m = invite_message E meta" "p \<in> set (invite_targets E pl peers)"
  using assms by (auto simp: send_invites_def Let_def dest: sent_by split: sum.splits if_splits)

lemma targets_invited: "p \<in> set (invite_targets E pl peers) \<Longrightarrow> p \<in> set peers \<and> pe_participant_id p \<in> set (pl_invitees pl)"
  by (auto simp: invite_targets_def map_filter_mem find_Some_iff split: if_splits)

subsection \<open>An example\<close>

definition example_table :: "peer_record list" where
  "example_table = map (\<lambda>n. \<lparr>pe_participant_id = example_peer n, pe_name = n, pe_address = [], pe_port = 1, pe_public_key = ''02'' @ n,
     pe_party = None\<rparr>) [''a'', ''b'']"

text \<open>The documents of the example are printed by their first key.\<close>

definition launch_json :: jsonlib where
  "launch_json = \<lparr>json_print = (\<lambda>j. ''doc''),
     json_parse = (\<lambda>s. if s = ''doc'' then Some (invitation_meta_json std_hex (MetaKick \<lparr>pp_dec_party = ex_party, pp_who = example_peer ''b'',
         pp_new_threshold = 2, pp_previous_threshold = 3, pp_confirmation = None, pp_participants = [example_peer ''a''],
         pp_instance = Some ''p-kick-7''\<rparr>))
       else if s = ''ids'' then Some (JArr [JStr (canton_id_display std_hex (example_peer ''a'')), JStr (canton_id_display std_hex (example_peer ''b''))])
       else Some (JObj [(''participant_id'', JStr []), (''in_workflow'', JBool False), (''workflow'', JNull), (''version'', JStr ''1.0.0'')]))\<rparr>"

definition example_launch :: launch_env where
  "example_launch = \<lparr>la_hex = std_hex, la_json = launch_json, la_self = ex_me, la_key_ok = (\<lambda>_. True), la_keypair = True,
     la_peers = (\<lambda>_. Inr example_table),
     la_participants = (\<lambda>_. Inr (map (canton_id_display std_hex) [ex_me, example_peer ''a'', example_peer ''b'', example_peer ''c''])),
     la_owner_key = (\<lambda>_ _. Inr (Some ''1220'')), la_dec_parties = (\<lambda>_. Inr []), la_loaded = True, la_now = 7,
     la_health = (\<lambda>_. Inr (to_bytes (message_new HealthResponse (str_bytes ''health'')))), la_version_ok = (\<lambda>_. True),
     la_list_peers = (\<lambda>_. Inr (to_bytes (message_new PeerList (str_bytes ''ids'')))),
     la_invite = (\<lambda>_ _. Inr (to_bytes (message_new_empty Ack))), la_resolve = Inr, la_commit = (\<lambda>_. Inl []),
     la_base64 = (\<lambda>_. Some []), la_hash_dar = (\<lambda>_. []), la_local_dar = (\<lambda>_. Inr None)\<rparr>"

definition example_kick :: kick_request where
  "example_kick = \<lparr>kq_party = ex_party, kq_participant = example_peer ''b'', kq_new_threshold = 2, kq_previous_threshold = 3\<rparr>"

definition example_plan :: plan where
  "example_plan = plan_of Kick kick_ops kick_step.WaitingForPeers ''p-kick-7'' (kick_config_json std_hex \<lparr>kc_party = ex_party,
     kc_participant = example_peer ''b'', kc_fingerprint = ''1220'', kc_new_threshold = 2, kc_confirmation = None,
     kc_previous_threshold = 3, kc_instance = ''p-kick-7''\<rparr>) [example_peer ''a''] (Some ex_party)
     (Inr (MetaKick \<lparr>pp_dec_party = ex_party, pp_who = example_peer ''b'', pp_new_threshold = 2, pp_previous_threshold = 3,
       pp_confirmation = None, pp_participants = [example_peer ''a''], pp_instance = Some ''p-kick-7''\<rparr>)) {ex_me, example_peer ''b''} False"

lemma example_launch_sel [simp]:
  "la_hex example_launch = std_hex" "la_json example_launch = launch_json" "la_self example_launch = ex_me"
  "la_key_ok example_launch k" "la_keypair example_launch" "la_peers example_launch n = Inr example_table"
  "la_participants example_launch d = Inr (map (canton_id_display std_hex) [ex_me, example_peer ''a'', example_peer ''b'', example_peer ''c''])"
  "la_owner_key example_launch d u = Inr (Some ''1220'')" "la_dec_parties example_launch u = Inr []" "la_loaded example_launch"
  "la_now example_launch = 7" "la_health example_launch p = Inr (to_bytes (message_new HealthResponse (str_bytes ''health'')))"
  "la_version_ok example_launch v" "la_list_peers example_launch p = Inr (to_bytes (message_new PeerList (str_bytes ''ids'')))"
  "la_invite example_launch p m = Inr (to_bytes (message_new_empty Ack))"
  by (simp_all add: example_launch_def)

lemma example_id: "canton_id_parse std_hex (canton_id_display std_hex (example_peer [c])) = Inr (example_peer [c])" if "CHR '':'' \<noteq> c"
  by (rule std.parse_display_no_colon) (simp_all add: that example_peer_def wf_id_def wf_namespace_def NAMESPACE_LENGTH_def)

lemma example_ids [simp]: "example_peer n \<noteq> ex_me" "ex_me \<noteq> example_peer n" "example_peer n = example_peer m \<longleftrightarrow> n = m"
  by (simp_all add: example_peer_def ex_me_def)

lemma example_members: "parsed_members std_hex (map (canton_id_display std_hex) [ex_me, example_peer ''a'', example_peer ''b'', example_peer ''c''])
    = {ex_me, example_peer ''a'', example_peer ''b'', example_peer ''c''}"
  by (simp add: parsed_members_def List.map_filter_simps example_id)

lemma example_verdict: "probe_verdict example_launch p = None"
proof -
  have "from_bytes (to_bytes (message_new HealthResponse (str_bytes ''health''))) = Inr (message_new HealthResponse (str_bytes ''health''))"
    by (rule reply_readable) (simp_all add: message_new_def)
  then show ?thesis
    by (simp add: probe_verdict_def classify_health_reply_def message_new_def launch_json_def health_from_payload_def
        u_required_def u_default_def u_field_def u_str_def u_bool_def u_option_def)
qed

lemma example_started: "start_kick example_launch None example_kick inbox_empty = Inr example_plan"
proof -
  have "ensure_compatible example_launch 1 ids = Inr ()" for ids
    by (simp add: ensure_compatible_def preflight_clear example_verdict)
  moreover have "i64_str 7 = ''7''" by code_simp
  ultimately show ?thesis
    by (simp add: start_kick_def admin_gate_def example_kick_def example_members [simplified] example_table_def Let_def
        party_member_count_def cached_confirmation_threshold_def ensure_party_free_def find_inprogress_run_for_party_def
        get_in_progress_workflow_runs_def inbox_empty_def example_plan_def ex_party_def)
qed

section \<open>Properties\<close>

text \<open>C11: an invitation arrives as it was meant.  Whatever run was planned, the message its coordinator
  sends is acknowledged by the invited node, and files there the card with the kind and all the particulars of the plan.\<close>

theorem invitation_arrives:
  assumes "hex_codec (la_hex E)" and "(p, m) \<in> set (fst (send_invites E pl))" and "pl_invite pl = Inr meta"
    and "good_meta (la_hex E) meta"
    and "json_parse (la_json E) (json_print (la_json E) (invitation_meta_json (la_hex E) meta)) = Some (invitation_meta_json (la_hex E) meta)"
    and "json_print (la_json E) (invitation_meta_json (la_hex E) meta) \<noteq> []"
    and "length (json_print (la_json E) (invitation_meta_json (la_hex E) meta)) < 256 ^ 4"
    and "lo_hex (snd F) = la_hex E" "lo_json (snd F) = la_json E" "lo_pubkey (snd F) = Some pk"
  shows "\<exists>s'. handle_request F (to_bytes m) s = (ok_response (message_new_empty Ack), s') \<and>
    box s' = record_invitation (lo_db1 (snd F)) (lo_db2 (snd F)) (lo_now (snd F)) (type_of_meta meta) pk meta (box s) \<and>
    interpret_invite_reply (to_bytes (message_new_empty Ack)) = Inr ()"
proof -
  let ?d = "json_print (la_json E) (invitation_meta_json (la_hex E) meta)"
  have m: "m = message_new (invite_message_type meta) (str_bytes ?d)"
    using assms(2,3) by (auto elim!: sent_invite simp: invite_message_def)
  have ne: "meta \<noteq> MetaNone" using assms(4) by (auto simp: good_meta_def)
  have "invite_message_type meta \<notin> set workflow_types"
    by (cases meta) (simp_all add: invite_message_type_def workflow_types_def peer_data_types_def)
  then obtain seen where "handle_request F (to_bytes m) s = local_request (snd F) m (s\<lparr>last_seen := seen\<rparr>)"
    using local_frame [of "str_bytes ?d" "invite_message_type meta" F s] assms(7) m by auto
  moreover have "local_request (snd F) m (s\<lparr>last_seen := seen\<rparr>) =
      (ok_response (message_new_empty Ack), s\<lparr>last_seen := seen, box := inbox_request (snd F) m (box s)\<rparr>)"
    using type_of_invite [OF ne] unfolding m by (cases meta) (simp_all add: local_request_def message_new_def invite_message_type_def ne)
  moreover have "inbox_request (snd F) m (box s) =
      record_invitation (lo_db1 (snd F)) (lo_db2 (snd F)) (lo_now (snd F)) (type_of_meta meta) pk meta (box s)"
    using hex_codec.meta_readback [OF assms(1,4-6)] type_of_invite [OF ne] assms(8-10)
    by (simp add: inbox_request_def m message_new_def)
  moreover have "from_bytes (to_bytes (message_new_empty Ack)) = Inr (message_new_empty Ack)"
    by (rule reply_readable) (simp_all add: message_new_empty_def message_new_def)
  then have "interpret_invite_reply (to_bytes (message_new_empty Ack)) = Inr ()"
    by (simp add: interpret_invite_reply_def message_new_empty_def message_new_def)
  ultimately show ?thesis by simp
qed


text \<open>A member of the party that is not among the peers of the coordinator makes a kick
  fail.  The handler accepts the request, but the invitation leaves that member out, and every invited peer refuses the
  true proposal, whose hosts are all members that remain.\<close>

theorem unconfigured_member_blocks_kick:
  assumes "start_kick E refusal q s = Inr pl" and "pl_invite pl = Inr meta" and "la_peers E 0 = Inr peers"
    and "la_participants E (kq_party q) = Inr rows"
    and "i \<in> parsed_members (la_hex E) rows" "i \<notin> set (map pe_participant_id peers)" "i \<noteq> la_self E" "i \<noteq> kq_participant q"
    and "hosts_are P (p2p_participants m) (insert (la_self E) (parsed_members (la_hex E) rows) - {kq_participant q})"
  shows "check_p2p_membership P (expectations_of own (la_self E) (make_invitation now (type_of_meta meta) pk meta)) m \<noteq> Inr ()"
proof -
  from kick_plan [OF assms(1)] obtain c where
    s: "set (pl_invitees pl) = set (map pe_participant_id peers) \<inter> kick_members E peers rows - {la_self E, kq_participant q}"
    and m: "pl_invite pl = Inr (MetaKick \<lparr>pp_dec_party = kq_party q, pp_who = kq_participant q, pp_new_threshold = kq_new_threshold q,
       pp_previous_threshold = kq_previous_threshold q, pp_confirmation = c, pp_participants = pl_invitees pl, pp_instance = Some (pl_name pl)\<rparr>)"
    using assms(3,4) by (metis sum.inject(2))
  have "members (expectations_of own (la_self E) (make_invitation now (type_of_meta meta) pk meta)) = insert (la_self E) (set (pl_invitees pl))"
    using assms(2) m by (auto simp: expectations_of_def make_invitation_def apply_meta_def party_fields_def blank_invitation_def Let_def)
  then have "i \<notin> members (expectations_of own (la_self E) (make_invitation now (type_of_meta meta) pk meta))"
    using assms(6,7) s by auto
  moreover have "i \<in> insert (la_self E) (parsed_members (la_hex E) rows) - {kq_participant q}" using assms(5,8) by simp
  ultimately show ?thesis
    using assms(9) unfolding check_p2p_membership_iff membership_ok_def hosts_are_def by (metis map_injective [OF _ inj_Inr])
qed

text \<open>The check before an onboarding passes exactly when the selected peers form a mesh: every one of them
  is configured with a readable key, answers with its list of peers, and has all the others in that list.\<close>

theorem mesh_verified_iff:
  assumes "inj_on (canton_id_display (la_hex E)) (set ids)"
  shows "verify_peer_mesh E ids = Inr [] \<longleftrightarrow> la_keypair E \<and> (\<exists>peers. la_peers E 0 = Inr peers \<and>
    list_all (\<lambda>a. \<exists>view. peer_view E peers a = Some view \<and>
      list_all (\<lambda>b. b = a \<or> canton_id_display (la_hex E) b \<in> set view) ids) ids)"
proof -
  let ?d = "canton_id_display (la_hex E)"
  have views: "fold (\<lambda>i m. case peer_view E peers i of None \<Rightarrow> m | Some v \<Rightarrow> m(?d i \<mapsto> v)) xs m0 (?d a) =
      (case peer_view E peers a of None \<Rightarrow> m0 (?d a) | Some v \<Rightarrow> if a \<in> set xs then Some v else m0 (?d a))"
    if "set xs \<subseteq> set ids" "a \<in> set ids" for xs peers m0 a
    using that
  proof (induction xs arbitrary: m0)
    case (Cons x xs)
    moreover have "?d x = ?d a \<longleftrightarrow> x = a" using assms Cons.prems by (auto dest: inj_onD)
    ultimately show ?case by (auto split: option.splits)
  qed (simp split: option.splits)
  show ?thesis
  proof (cases "la_peers E 0")
    case (Inr peers)
    have none: "List.map_filter (\<lambda>i. if peer_view E peers i = None then Some (?d (la_self E), ?d i, UnreachableFromCoordinator) else None) xs = [] \<longleftrightarrow>
        list_all (\<lambda>i. peer_view E peers i \<noteq> None) xs" for xs
      by (induction xs) (simp_all add: List.map_filter_simps)
    have hole: "(case fold (\<lambda>i m. case peer_view E peers i of None \<Rightarrow> m | Some v \<Rightarrow> m(?d i \<mapsto> v)) ids Map.empty (?d a) of
        None \<Rightarrow> [] | Some v \<Rightarrow> map (\<lambda>b. (?d a, ?d b, MeshHole)) (filter (\<lambda>b. a \<noteq> b \<and> ?d b \<notin> set v) ids)) = [] \<longleftrightarrow>
        (\<forall>v. peer_view E peers a = Some v \<longrightarrow> list_all (\<lambda>b. b = a \<or> ?d b \<in> set v) ids)" if "a \<in> set ids" for a
      using views [OF subset_refl that, of peers Map.empty] that
      by (cases "peer_view E peers a") (auto simp: filter_empty_conv list_all_iff)
    have "verify_peer_mesh E ids = Inr [] \<longleftrightarrow> la_keypair E \<and> list_all (\<lambda>i. peer_view E peers i \<noteq> None) ids \<and>
        (\<forall>a \<in> set ids. \<forall>v. peer_view E peers a = Some v \<longrightarrow> list_all (\<lambda>b. b = a \<or> ?d b \<in> set v) ids)"
      using none [of ids] hole by (auto simp: verify_peer_mesh_def Let_def result_simps Inr simp del: not_None_eq)
    also have "\<dots> \<longleftrightarrow> la_keypair E \<and> list_all (\<lambda>a. \<exists>view. peer_view E peers a = Some view \<and> list_all (\<lambda>b. b = a \<or> ?d b \<in> set view) ids) ids"
      unfolding list_all_iff by (metis option.exhaust option.inject option.distinct(1))
    finally show ?thesis by (simp add: Inr)
  next
    case (Inl e)
    then show ?thesis by (simp add: verify_peer_mesh_def)
  qed
qed

text \<open>A distribution of DARs can be started for a peer that is not configured.  The version gate,
  which is documented to refuse what it cannot verify, passes over it, the run expects it, and no invitation is ever sent
  to it.\<close>

theorem unknown_peer_never_invited:
  assumes "i \<in> set ids" and "\<And>n. la_peers E n = Inr peers" and "i \<notin> set (map pe_participant_id peers)"
    and "list_all (\<lambda>p. la_key_ok E (pe_public_key p) \<longrightarrow> probe_verdict E p = None) peers"
  shows "\<exists>pl. start_dars E None files ids = Inr pl \<and> i \<in> set (pl_invitees pl) \<and>
    i \<notin> set (map (\<lambda>(p, m). pe_participant_id p) (fst (send_invites E pl)))"
proof -
  have "preflight_incompatible_peers E (la_peers E 0) ids = []"
    unfolding assms(2) using assms(4) by (intro preflight_clear) (auto simp: list_all_iff)
  moreover have "ids \<noteq> []" using assms(1) by auto
  ultimately have "\<exists>pl. start_dars E None files ids = Inr pl \<and> pl_invitees pl = ids"
    by (simp add: start_dars_def launch_dars_def admin_gate_def ensure_compatible_def Let_def plan_of_def)
  then obtain pl where pl: "start_dars E None files ids = Inr pl" "pl_invitees pl = ids" by blast
  have "i \<noteq> pe_participant_id p" if "(p, m) \<in> set (fst (send_invites E pl))" for p m
    using sent_invite [OF that] targets_invited assms(2,3) by (metis image_eqI list.set_map sum.inject(2))
  then show ?thesis using pl assms(1) by (intro exI [of _ pl]) auto
qed

section \<open>Witnesses\<close>

definition example_meta_kick :: invitation_meta where
  "example_meta_kick = MetaKick \<lparr>pp_dec_party = ex_party, pp_who = example_peer ''b'', pp_new_threshold = 2, pp_previous_threshold = 3,
     pp_confirmation = None, pp_participants = [example_peer ''a''], pp_instance = Some ''p-kick-7''\<rparr>"

lemma example_invite: "pl_invite example_plan = Inr example_meta_kick"
  by (simp add: example_plan_def plan_of_def example_meta_kick_def)

lemma party_parsed: "canton_id_parse std_hex (canton_id_display std_hex ex_party) = Inr ex_party"
  by (rule std.parse_display_no_colon) (simp_all add: ex_party_def wf_id_def wf_namespace_def NAMESPACE_LENGTH_def)

lemma example_good: "good_meta std_hex example_meta_kick"
  using example_id [of "CHR ''a''"] example_id [of "CHR ''b''"] party_parsed
  by (auto simp: good_meta_def example_meta_kick_def parsed_id_def i32_range_def)

lemma example_sent: "(hd example_table, invite_message example_launch example_meta_kick) \<in> set (fst (send_invites example_launch example_plan))"
proof -
  have "from_bytes (to_bytes (message_new_empty Ack)) = Inr (message_new_empty Ack)"
    by (rule reply_readable) (simp_all add: message_new_empty_def message_new_def)
  then show ?thesis
    by (simp add: send_invites_def example_invite Let_def invite_targets_def example_plan_def plan_of_def example_table_def
        interpret_invite_reply_def message_new_empty_def message_new_def example_meta_kick_def)
qed

theorem invitation_arrives_witness:
  "\<exists>s'. handle_request (fst (node_env [] []), (snd (node_env [] []))\<lparr>lo_json := launch_json\<rparr>) (to_bytes (invite_message example_launch example_meta_kick)) example_node =
      (ok_response (message_new_empty Ack), s') \<and>
    box s' = record_invitation Committed Committed 0 InvKick ''02aa'' example_meta_kick (box example_node)"
proof -
  have "type_of_meta example_meta_kick = InvKick" by (simp add: type_of_meta_def example_meta_kick_def)
  moreover have "json_print launch_json j = ''doc''" "json_parse launch_json ''doc'' = Some (invitation_meta_json std_hex example_meta_kick)" for j
    by (simp_all add: launch_json_def example_meta_kick_def)
  moreover have "hex_codec std_hex" by (rule std.hex_codec_axioms)
  ultimately show ?thesis
    using invitation_arrives [OF _ example_sent example_invite, of "(fst (node_env [] []), (snd (node_env [] []))\<lparr>lo_json := launch_json\<rparr>)" "''02aa''" example_node]
      example_good
    by (auto simp: node_env_def)
qed


theorem unconfigured_member_blocks_kick_witness:
  "\<exists>m. hosts_are (example_proto (\<lambda>_. None)) (p2p_participants m) {ex_me, example_peer ''a'', example_peer ''c''} \<and>
    check_p2p_membership (example_proto (\<lambda>_. None)) (expectations_of (example_peer ''a'') ex_me
      (make_invitation 0 (type_of_meta example_meta_kick) ''02aa'' example_meta_kick)) m \<noteq> Inr ()"
proof -
  let ?m = "\<lparr>p2p_party = [], p2p_threshold = 2, p2p_participants = map (\<lambda>i. \<lparr>participant_uid = canton_id_display std_hex i, permission = 2,
      onboarding = None\<rparr>) [ex_me, example_peer ''a'', example_peer ''c''], p2p_signing_keys = None\<rparr>"
  have "hosts_are (example_proto (\<lambda>_. None)) (p2p_participants ?m) {ex_me, example_peer ''a'', example_peer ''c''}"
    unfolding hosts_are_def by (intro exI [of _ "[ex_me, example_peer ''a'', example_peer ''c'']"]) (simp add: example_id example_proto_def)
  moreover have "insert ex_me {ex_me, example_peer ''a'', example_peer ''b'', example_peer ''c''} - {example_peer ''b''} =
      {ex_me, example_peer ''a'', example_peer ''c''}" by auto
  ultimately show ?thesis
    using unconfigured_member_blocks_kick [OF example_started example_invite, of example_table
        "map (canton_id_display std_hex) [ex_me, example_peer ''a'', example_peer ''b'', example_peer ''c'']" "example_peer ''c''"
        "example_proto (\<lambda>_. None)" ?m "example_peer ''a''" 0 "''02aa''"]
    by (intro exI [of _ ?m]) (simp add: example_members [simplified] example_table_def example_kick_def)
qed

lemma example_view: "peer_view example_launch example_table (example_peer n) =
    (if n = ''a'' \<or> n = ''b'' then Some [canton_id_display std_hex (example_peer ''a''), canton_id_display std_hex (example_peer ''b'')] else None)"
proof -
  have "from_bytes (to_bytes (message_new PeerList (str_bytes ''ids''))) = Inr (message_new PeerList (str_bytes ''ids''))"
    by (rule reply_readable) (simp_all add: message_new_def)
  then show ?thesis
    by (simp add: peer_view_def example_table_def message_new_def launch_json_def u_list_def u_str_def)
qed

theorem mesh_verified_iff_witness: "verify_peer_mesh example_launch [example_peer ''a'', example_peer ''b''] = Inr []"
proof -
  have "inj_on (canton_id_display (la_hex example_launch)) (set [example_peer ''a'', example_peer ''b''])"
    using example_id [of "CHR ''a''"] example_id [of "CHR ''b''"] by (auto simp: inj_on_def)
  from mesh_verified_iff [OF this] show ?thesis by (simp add: example_view)
qed

theorem unknown_peer_never_invited_witness:
  "\<exists>pl. start_dars example_launch None [(''a.dar'', ''A'')] [example_peer ''c''] = Inr pl \<and> example_peer ''c'' \<in> set (pl_invitees pl) \<and>
    example_peer ''c'' \<notin> set (map (\<lambda>(p, m). pe_participant_id p) (fst (send_invites example_launch pl)))"
  using unknown_peer_never_invited [of "example_peer ''c''" "[example_peer ''c'']" example_launch example_table]
  by (simp add: example_verdict example_table_def)

end
