(* ===== verification/Run_Control.thy ===== *)
theory Run_Control
  imports Launch "HOL-Library.Multiset"
begin

text \<open>
  The life of the runs this node coordinates, as the handlers and tasks of \<open>server/handlers/workflows.rs\<close>,
  \<open>server/mod.rs\<close> and \<open>server/types.rs\<close> interleave: starting a run in the registry and in the database, its task with
  the order of its last writes and the guard that removes it from the registry, cancelling, retrying, dismissing, a
  restart and the recovery after it.  A thread is cut where its code awaits something another thread can change.

  The readers of stored configurations come first.  Rows of peer runs are the subject of \<open>Invitations\<close>; nothing here
  writes them.
\<close>

section \<open>Stored configurations, read\<close>

lemma u_field_in: "u_field k kvs = Some (Some v) \<Longrightarrow> (k, v) \<in> set kvs"
proof -
  assume "u_field k kvs = Some (Some v)"
  then obtain k' where "filter (\<lambda>(k', _). k' = k) kvs = [(k', v)]"
    unfolding u_field_def by (auto split: list.splits)
  then have "(k', v) \<in> set (filter (\<lambda>(k', _). k' = k) kvs)" by simp
  then show ?thesis by auto
qed

lemma json_sizes:
  "u_field k kvs = Some (Some v) \<Longrightarrow> size v < size (JObj kvs)"
  "v \<in> set vs \<Longrightarrow> size v < size (JArr vs)"
proof -
  show "size v < size (JObj kvs)" if "u_field k kvs = Some (Some v)"
    using u_field_in [OF that] by (induction kvs) auto
  show "v \<in> set vs \<Longrightarrow> size v < size (JArr vs)" by (induction vs) auto
qed

text \<open>A \<open>FieldDefinition\<close>, internally tagged.\<close>

function field_definition_ok :: "hexlib \<Rightarrow> json \<Rightarrow> bool" where
  "field_definition_ok H (JObj kvs) = (case u_required ''type'' u_str kvs of
     None \<Rightarrow> False
   | Some t \<Rightarrow>
       if t \<in> {''decentralized_party'', ''operator_party'', ''attestors_set'', ''none''} then True
       else if t = ''participant_party'' then u_required ''id'' (u_id H) kvs \<noteq> None
       else if t = ''text'' then u_required ''value'' u_str kvs \<noteq> None
       else if t = ''int64'' then u_required ''value'' u_i64 kvs \<noteq> None
       else if t = ''bool'' then u_required ''value'' u_bool kvs \<noteq> None
       else if t = ''instrument'' then u_required ''id'' u_str kvs \<noteq> None
       else if t = ''party_set'' then u_required ''parties'' (u_list (u_id H)) kvs \<noteq> None
       else if t = ''rel_time'' then u_required ''microseconds'' u_i64 kvs \<noteq> None
       else if t = ''governance_threshold'' then u_default ''value'' (u_option u_i64) None kvs \<noteq> None
       else if t = ''optional'' then (case u_field ''inner'' kvs of Some (Some v) \<Rightarrow> field_definition_ok H v | _ \<Rightarrow> False)
       else if t = ''record'' then (case u_field ''fields'' kvs of Some (Some (JArr vs)) \<Rightarrow> list_all (field_definition_ok H) vs | _ \<Rightarrow> False)
       else False)"
| "field_definition_ok H JNull = False"
| "field_definition_ok H (JBool b) = False"
| "field_definition_ok H (JNum n) = False"
| "field_definition_ok H (JStr s) = False"
| "field_definition_ok H (JArr vs) = False"
  by pat_completeness auto
termination
proof (relation "measure (\<lambda>(H, j). size j)", goal_cases)
  case (3 H kvs t x y vs v)
  then show ?case using json_sizes(1) [of "''fields''" kvs "JArr vs"] json_sizes(2) [of v vs] by simp
qed (auto dest: json_sizes(1))

definition contract_definition_from :: "hexlib \<Rightarrow> json \<Rightarrow> contract_definition option" where
  "contract_definition_from H j = (case j of JObj kvs \<Rightarrow>
     Option.bind (u_required ''id'' u_str kvs) (\<lambda>i.
     Option.bind (u_required ''name'' u_str kvs) (\<lambda>n.
     Option.bind (u_required ''package_id'' u_str kvs) (\<lambda>p.
     Option.bind (u_required ''module_name'' u_str kvs) (\<lambda>m.
     Option.bind (u_required ''entity_name'' u_str kvs) (\<lambda>e.
     Option.bind (u_required ''fields'' (u_list (\<lambda>d. if field_definition_ok H d then Some d else None)) kvs) (\<lambda>fs.
       Some \<lparr>cd_id = i, cd_name = n, cd_package_id = p, cd_module_name = m, cd_entity_name = e, cd_fields = fs\<rparr>))))))
   | _ \<Rightarrow> None)"

definition committed_deployment_from :: "json \<Rightarrow> committed_deployment option" where
  "committed_deployment_from j = (case j of JObj kvs \<Rightarrow>
     Option.bind (u_required ''governance_threshold'' u_i64 kvs) (\<lambda>t.
     Option.bind (u_required ''intents'' (u_list u_intent) kvs) (\<lambda>is.
       Some \<lparr>co_governance_threshold = t, co_intents = is\<rparr>))
   | _ \<Rightarrow> None)"

definition u_unit :: "json \<Rightarrow> unit option" where
  "u_unit j = (if j = JNull then Some () else None)"

definition onboarding_config_from :: "json \<Rightarrow> onboarding_config option" where
  "onboarding_config_from j = (case j of JObj kvs \<Rightarrow>
     Option.bind (u_required ''party_id_prefix'' u_str kvs) (\<lambda>p.
     Option.bind (u_required ''instance_name'' u_str kvs) (\<lambda>i.
     Option.bind (u_default ''threshold'' (u_option u_i32) None kvs) (\<lambda>t.
     Option.bind (u_default ''confirmation_threshold'' (u_option u_i32) None kvs) (\<lambda>c.
     Option.bind (u_required ''_p'' u_unit kvs) (\<lambda>_.
       Some \<lparr>oc_prefix = p, oc_instance = i, oc_threshold = t, oc_confirmation = c\<rparr>)))))
   | _ \<Rightarrow> None)"

definition kick_config_from :: "hexlib \<Rightarrow> json \<Rightarrow> kick_config option" where
  "kick_config_from H j = (case j of JObj kvs \<Rightarrow>
     Option.bind (u_required ''decentralized_party_id'' (u_id H) kvs) (\<lambda>d.
     Option.bind (u_required ''participant_id'' (u_id H) kvs) (\<lambda>p.
     Option.bind (u_required ''namespace_fingerprint'' u_str kvs) (\<lambda>f.
     Option.bind (u_required ''new_threshold'' u_i32 kvs) (\<lambda>t.
     Option.bind (u_default ''confirmation_threshold'' (u_option u_i32) None kvs) (\<lambda>c.
     Option.bind (u_default ''previous_threshold'' u_i32 0 kvs) (\<lambda>q.
     Option.bind (u_required ''instance_name'' u_str kvs) (\<lambda>i.
     Option.bind (u_required ''_p'' u_unit kvs) (\<lambda>_.
       Some \<lparr>kc_party = d, kc_participant = p, kc_fingerprint = f, kc_new_threshold = t, kc_confirmation = c,
         kc_previous_threshold = q, kc_instance = i\<rparr>))))))))
   | _ \<Rightarrow> None)"

definition contracts_config_from :: "hexlib \<Rightarrow> json \<Rightarrow> contracts_config option" where
  "contracts_config_from H j = (case j of JObj kvs \<Rightarrow>
     Option.bind (u_required ''decentralized_party_id'' (u_id H) kvs) (\<lambda>d.
     Option.bind (u_default ''participant_ids'' (u_list (u_id H)) [] kvs) (\<lambda>ps.
     Option.bind (u_default ''participant_parties'' (u_list (u_id H)) [] kvs) (\<lambda>qs.
     Option.bind (u_required ''operator_party'' (u_id H) kvs) (\<lambda>op.
     Option.bind (u_default ''contracts'' (u_list (contract_definition_from H)) [] kvs) (\<lambda>cs.
     Option.bind (u_default ''instance_name'' u_str [] kvs) (\<lambda>i.
     Option.bind (u_default ''committed_deployment'' (u_option committed_deployment_from) None kvs) (\<lambda>cd.
       Some \<lparr>cc_party = d, cc_participant_ids = ps, cc_participant_parties = qs, cc_operator = op, cc_contracts = cs,
         cc_instance = i, cc_committed = cd\<rparr>)))))))
   | _ \<Rightarrow> None)"

definition stored_dars_config_from :: "hexlib \<Rightarrow> json \<Rightarrow> dars_config option" where
  "stored_dars_config_from H j = (case j of JObj kvs \<Rightarrow>
     Option.bind (u_required ''dar_files'' (u_list dar_file_from) kvs) (\<lambda>fs.
     Option.bind (u_required ''instance_name'' u_str kvs) (\<lambda>i.
     Option.bind (u_required ''peer_ids'' (u_list (u_id H)) kvs) (\<lambda>ps.
       Some \<lparr>dc_files = fs, dc_instance = i, dc_peers = ps\<rparr>)))
   | _ \<Rightarrow> None)"

definition add_party_config_from :: "hexlib \<Rightarrow> json \<Rightarrow> add_party_config option" where
  "add_party_config_from H j = (case j of JObj kvs \<Rightarrow>
     Option.bind (u_required ''decentralized_party_id'' (u_id H) kvs) (\<lambda>d.
     Option.bind (u_required ''new_participant_id'' (u_id H) kvs) (\<lambda>n.
     Option.bind (u_required ''new_threshold'' u_i32 kvs) (\<lambda>t.
     Option.bind (u_default ''confirmation_threshold'' (u_option u_i32) None kvs) (\<lambda>c.
     Option.bind (u_default ''previous_threshold'' u_i32 0 kvs) (\<lambda>q.
     Option.bind (u_required ''instance_name'' u_str kvs) (\<lambda>i.
     Option.bind (u_required ''_p'' u_unit kvs) (\<lambda>_.
       Some \<lparr>ac_party = d, ac_new_participant = n, ac_new_threshold = t, ac_confirmation = c, ac_previous_threshold = q, ac_instance = i\<rparr>)))))))
   | _ \<Rightarrow> None)"

definition change_threshold_config_from :: "hexlib \<Rightarrow> json \<Rightarrow> change_threshold_config option" where
  "change_threshold_config_from H j = (case j of JObj kvs \<Rightarrow>
     Option.bind (u_required ''decentralized_party_id'' (u_id H) kvs) (\<lambda>d.
     Option.bind (u_required ''new_threshold'' u_i32 kvs) (\<lambda>t.
     Option.bind (u_default ''confirmation_threshold'' (u_option u_i32) None kvs) (\<lambda>c.
     Option.bind (u_default ''previous_threshold'' u_i32 0 kvs) (\<lambda>q.
     Option.bind (u_required ''instance_name'' u_str kvs) (\<lambda>i.
     Option.bind (u_required ''_p'' u_unit kvs) (\<lambda>_.
       Some \<lparr>tc_party = d, tc_new_threshold = t, tc_confirmation = c, tc_previous_threshold = q, tc_instance = i\<rparr>))))))
   | _ \<Rightarrow> None)"

text \<open>What \<open>respawn_coordinator\<close> parses for a run, one variant per kind.\<close>

datatype stored_config =
    OnboardingStored onboarding_config
  | KickStored kick_config
  | ContractsStored contracts_config
  | DarsStored dars_config
  | AddPartyStored add_party_config
  | ChangeThresholdStored change_threshold_config

definition stored_config_json :: "hexlib \<Rightarrow> stored_config \<Rightarrow> json" where
  "stored_config_json H c = (case c of OnboardingStored c \<Rightarrow> onboarding_config_json c | KickStored c \<Rightarrow> kick_config_json H c
     | ContractsStored c \<Rightarrow> contracts_config_json H c | DarsStored c \<Rightarrow> dars_config_json H c
     | AddPartyStored c \<Rightarrow> add_party_config_json H c | ChangeThresholdStored c \<Rightarrow> change_threshold_config_json H c)"

definition kind_of_config :: "stored_config \<Rightarrow> workflow_kind" where
  "kind_of_config c = (case c of OnboardingStored _ \<Rightarrow> Onboarding | KickStored _ \<Rightarrow> Kick | ContractsStored _ \<Rightarrow> Contracts
     | DarsStored _ \<Rightarrow> Dars | AddPartyStored _ \<Rightarrow> AddParty | ChangeThresholdStored _ \<Rightarrow> ChangeThreshold)"

definition parse_stored_config :: "hexlib \<Rightarrow> workflow_kind \<Rightarrow> json \<Rightarrow> stored_config option" where
  "parse_stored_config H kind j = (case kind of
     Onboarding \<Rightarrow> map_option OnboardingStored (onboarding_config_from j)
   | Kick \<Rightarrow> map_option KickStored (kick_config_from H j)
   | Contracts \<Rightarrow> map_option ContractsStored (contracts_config_from H j)
   | Dars \<Rightarrow> map_option DarsStored (stored_dars_config_from H j)
   | AddParty \<Rightarrow> map_option AddPartyStored (add_party_config_from H j)
   | ChangeThreshold \<Rightarrow> map_option ChangeThresholdStored (change_threshold_config_from H j))"

section \<open>Runs in memory and in the database\<close>

text \<open>\<open>WorkflowInstance\<close> with its \<open>HttpWorkflowState\<close>.  The abort handle is the number of the task's thread.\<close>

record run_instance =
  in_name :: string
  in_kind :: workflow_kind
  in_status :: workflow_progress
  in_error :: "string option"
  in_handle :: "nat option"
  in_invited :: "canton_id list"

definition workflow_instance_new :: "string \<Rightarrow> workflow_kind \<Rightarrow> run_instance" where
  "workflow_instance_new name kind =
     \<lparr>in_name = name, in_kind = kind, in_status = Idle, in_error = None, in_handle = None, in_invited = []\<rparr>"

text \<open>How a task ended, and what is left to do for it.  \<open>Half\<close>: the first of the two last writes is done.\<close>

datatype ending = EndOk | EndErr string

datatype task_phase = Inviting launch_env plan | Driving | Ending ending | Half ending | Closing

datatype resume_phase = ReadConfig | Recheck | Insert | Spawn nat | Handle nat nat

text \<open>\<open>Task i m ph a\<close>: instance, whether the status in memory is written before the row, phase, aborted.
  \<open>Resuming run rest ph\<close>: \<open>respawn_coordinator\<close>, called by a retry (\<open>rest = None\<close>) or by recovery with the runs
  that are left.  \<open>Finished n\<close>: gone; a handler has answered with status \<open>n\<close>.\<close>

datatype thread =
    Starting launch_env plan
  | Registered launch_env plan nat
  | Persisted launch_env plan nat
  | Task nat bool task_phase bool
  | Resuming workflow_run "workflow_run list option" resume_phase
  | CancelCheck nat
  | CancelTake nat
  | CancelPersist nat nat
  | CancelAbort nat nat
  | CancelNotify nat
  | CancelRow workflow_kind
  | CancelRowSend workflow_run
  | CancelRowMark workflow_run
  | RetryFlip string
  | RetryReload string
  | RetrySend workflow_run
  | Dismissing string
  | Finished nat

record control =
  rows :: store
  instances :: "run_instance list"
  registered :: "nat list"
  threads :: "thread list"
  told :: "(canton_id \<times> message) list"

text \<open>The answers of the world to one step of a thread: the end of its transaction, whether a read succeeds, the clock,
  how the coordinator's loop ends, the peers table and the key file, and the parsers.\<close>

record turn =
  tu_db :: db_outcome
  tu_loaded :: bool
  tu_now :: int
  tu_result :: ending
  tu_peers :: "string + peer_record list"
  tu_keypair :: bool
  tu_key_ok :: "string \<Rightarrow> bool"
  tu_hex :: hexlib
  tu_json :: jsonlib

abbreviation in_thread :: "nat \<Rightarrow> thread \<Rightarrow> control \<Rightarrow> control" where
  "in_thread t th c \<equiv> c\<lparr>threads := (threads c)[t := th]\<rparr>"

abbreviation in_instance :: "nat \<Rightarrow> (run_instance \<Rightarrow> run_instance) \<Rightarrow> control \<Rightarrow> control" where
  "in_instance i f c \<equiv> c\<lparr>instances := (instances c)[i := f (instances c ! i)]\<rparr>"

subsection \<open>The registry\<close>

definition registry_get :: "string \<Rightarrow> control \<Rightarrow> nat option" where
  "registry_get name c = find (\<lambda>i. in_name (instances c ! i) = name) (registered c)"

definition registry_put :: "run_instance \<Rightarrow> control \<Rightarrow> (nat \<times> control) option" where
  "registry_put inst c = (if registry_get (in_name inst) c \<noteq> None then None
     else Some (length (instances c),
       c\<lparr>instances := instances c @ [inst], registered := registered c @ [length (instances c)]\<rparr>))"

definition registry_drop :: "string \<Rightarrow> control \<Rightarrow> control" where
  "registry_drop name c = c\<lparr>registered := filter (\<lambda>i. in_name (instances c ! i) \<noteq> name) (registered c)\<rparr>"

subsection \<open>The last writes of a run\<close>

text \<open>\<open>finish_workflow_run\<close> and \<open>finish_run\<close> on the table.\<close>

definition finish_workflow_run_row :: "string \<Rightarrow> workflow_progress \<Rightarrow> string option \<Rightarrow> int \<Rightarrow> store \<Rightarrow> bool \<times> store" where
  "finish_workflow_run_row name status err now s =
     (let open_row = (\<lambda>r. wr_name r = name \<and> wr_status r \<in> {Idle, InProgress}) in
      if \<not> list_ex open_row (workflow_runs s) then (False, s)
      else (True, let s' = s\<lparr>workflow_runs := map (\<lambda>r. if open_row r
                      then r\<lparr>wr_status := status, wr_error := err, wr_updated_at := now\<rparr> else r) (workflow_runs s)\<rparr> in
        if status \<in> {Completed, Cancelled} then s'\<lparr>artifacts := (artifacts s')(name := Map.empty)\<rparr> else s'))"

definition finish_run_row :: "db_outcome \<Rightarrow> string \<Rightarrow> workflow_progress \<Rightarrow> string option \<Rightarrow> int \<Rightarrow> store \<Rightarrow> bool option \<times> store" where
  "finish_run_row db name status err now s =
     (if db = Committed then (case finish_workflow_run_row name status err now s of (moved, s') \<Rightarrow> (Some moved, s')) else (None, s))"

definition mark_ended :: "turn \<Rightarrow> string \<Rightarrow> ending \<Rightarrow> store \<Rightarrow> store" where
  "mark_ended T name e s = snd (case e of
     EndOk \<Rightarrow> finish_run_row (tu_db T) name Completed None (tu_now T) s
   | EndErr m \<Rightarrow> finish_run_row (tu_db T) name Failed (Some m) (tu_now T) s)"

definition status_ended :: "ending \<Rightarrow> run_instance \<Rightarrow> run_instance" where
  "status_ended e inst = (case e of
     EndOk \<Rightarrow> inst\<lparr>in_status := Completed\<rparr>
   | EndErr m \<Rightarrow> inst\<lparr>in_status := Failed, in_error := Some m\<rparr>)"

subsection \<open>Starting\<close>

definition coordinator_run :: "turn \<Rightarrow> launch_env \<Rightarrow> plan \<Rightarrow> workflow_run" where
  "coordinator_run T E pl =
     \<lparr>wr_name = pl_name pl, wr_kind = pl_kind pl, wr_role = Coordinator, wr_status = InProgress, wr_step = pl_step pl,
      wr_index = pl_index pl, wr_total = pl_total pl, wr_config_json = json_print (la_json E) (pl_config pl),
      wr_coordinator_pubkey = None, wr_coordinator_instance = None, wr_expected_peers = pl_invitees pl, wr_completed_peers = [],
      wr_dec_party_id = pl_party pl, wr_error = None, wr_dismissed = False, wr_created_at = tu_now T, wr_updated_at = tu_now T\<rparr>"

definition insert_coordinator_run :: "turn \<Rightarrow> launch_env \<Rightarrow> plan \<Rightarrow> store \<Rightarrow> bool \<times> store" where
  "insert_coordinator_run T E pl s = transact (tu_db T) (upsert_workflow_run (coordinator_run T E pl)) s"

definition register_run :: "nat \<Rightarrow> launch_env \<Rightarrow> plan \<Rightarrow> control \<Rightarrow> control" where
  "register_run t E pl c = (case registry_put (workflow_instance_new (pl_name pl) (pl_kind pl)) c of
     None \<Rightarrow> in_thread t (Finished 409) c
   | Some (i, c') \<Rightarrow> in_thread t (Registered E pl i) c')"

definition persist_run :: "nat \<Rightarrow> turn \<Rightarrow> launch_env \<Rightarrow> plan \<Rightarrow> nat \<Rightarrow> control \<Rightarrow> control" where
  "persist_run t T E pl i c = (case insert_coordinator_run T E pl (rows c) of
     (True, s) \<Rightarrow> in_thread t (Persisted E pl i) (c\<lparr>rows := s\<rparr>)
   | (False, _) \<Rightarrow> in_thread t (Finished 409) (registry_drop (pl_name pl) c))"

text \<open>Handle, status and error are set under all three locks around the spawn.  The kinds differ in which of the two
  last writes of the task comes first.\<close>

definition status_first :: "workflow_kind \<Rightarrow> bool" where
  "status_first kind \<longleftrightarrow> kind \<in> {Onboarding, Kick}"

definition spawn_run :: "nat \<Rightarrow> launch_env \<Rightarrow> plan \<Rightarrow> nat \<Rightarrow> control \<Rightarrow> control" where
  "spawn_run t E pl i c =
     (let c1 = in_thread t (Finished 202) c;
          c2 = c1\<lparr>threads := threads c1 @ [Task i (status_first (pl_kind pl)) (Inviting E pl) False]\<rparr> in
      in_instance i (\<lambda>inst. inst\<lparr>in_handle := Some (length (threads c1)), in_status := InProgress, in_error := None,
        in_invited := pl_invitees pl\<rparr>) c2)"

subsection \<open>The task of a run\<close>

text \<open>When invitations cannot be sent every kind writes the status first; the DARs task holds the status lock until the row
  is written, so that readers see the row first.\<close>

definition task_step :: "nat \<Rightarrow> turn \<Rightarrow> nat \<Rightarrow> bool \<Rightarrow> task_phase \<Rightarrow> bool \<Rightarrow> control \<Rightarrow> control" where
  "task_step t T i m ph a c = (let name = in_name (instances c ! i) in case ph of
     Inviting E pl \<Rightarrow> (case snd (send_invites E pl) of
       Inl e \<Rightarrow> in_thread t (Task i (pl_kind pl \<noteq> Dars) (Ending (EndErr (''Failed to send invites: '' @ e))) a) c
     | Inr _ \<Rightarrow> in_thread t (Task i m Driving a) c)
   | Driving \<Rightarrow> in_thread t (Task i m (Ending (tu_result T)) a) c
   | Ending e \<Rightarrow> in_thread t (Task i m (Half e) a)
       (if m then in_instance i (status_ended e) c else c\<lparr>rows := mark_ended T name e (rows c)\<rparr>)
   | Half e \<Rightarrow> in_thread t (Task i m Closing a)
       (if m then c\<lparr>rows := mark_ended T name e (rows c)\<rparr> else in_instance i (status_ended e) c)
   | Closing \<Rightarrow> in_thread t (Finished 0) (registry_drop name c))"

text \<open>An aborted task is dropped at an await, and its guard with it.\<close>

definition drop_task :: "nat \<Rightarrow> nat \<Rightarrow> control \<Rightarrow> control" where
  "drop_task t i c = in_thread t (Finished 0) (registry_drop (in_name (instances c ! i)) c)"

definition abort_task :: "nat \<Rightarrow> control \<Rightarrow> control" where
  "abort_task h c = (case threads c ! h of Task i m ph _ \<Rightarrow> in_thread h (Task i m ph True) c | _ \<Rightarrow> c)"

subsection \<open>Resuming\<close>

text \<open>The runs of recovery from the first coordinator run on.  What follows a resumed run: for a retry the answer, for
  recovery the next run.\<close>

fun recover_next :: "workflow_run list \<Rightarrow> thread" where
  "recover_next [] = Finished 0"
| "recover_next (r # rs) = (if wr_role r = Coordinator then Resuming r (Some rs) ReadConfig else recover_next rs)"

definition resume_end :: "workflow_run list option \<Rightarrow> thread" where
  "resume_end rest = (case rest of None \<Rightarrow> Finished 200 | Some rs \<Rightarrow> recover_next rs)"

definition respawn_coordinator :: "nat \<Rightarrow> turn \<Rightarrow> workflow_run \<Rightarrow> workflow_run list option \<Rightarrow> resume_phase \<Rightarrow> control \<Rightarrow> control" where
  "respawn_coordinator t T run rest ph c = (case ph of
     ReadConfig \<Rightarrow> (case Option.bind (json_parse (tu_json T) (wr_config_json run)) (parse_stored_config (tu_hex T) (wr_kind run)) of
       None \<Rightarrow> in_thread t (resume_end rest) (c\<lparr>rows := mark_ended T (wr_name run) (EndErr ''Resume failed: invalid config'') (rows c)\<rparr>)
     | Some _ \<Rightarrow> in_thread t (Resuming run rest Recheck) c)
   | Recheck \<Rightarrow>
       if \<not> tu_loaded T then in_thread t (Resuming run rest Insert) c
       else (case get_workflow_run (wr_name run) (rows c) of
         None \<Rightarrow> in_thread t (resume_end rest) c
       | Some r \<Rightarrow> if wr_status r = InProgress then in_thread t (Resuming run rest Insert) c
           else in_thread t (resume_end rest) c)
   | Insert \<Rightarrow> (case registry_put ((workflow_instance_new (wr_name run) (wr_kind run))
           \<lparr>in_invited := wr_expected_peers run, in_status := InProgress\<rparr>) c of
       None \<Rightarrow> in_thread t (resume_end rest) c
     | Some (i, c') \<Rightarrow> in_thread t (Resuming run rest (Spawn i)) c')
   | Spawn i \<Rightarrow> (let c1 = in_thread t (Resuming run rest (Handle i (length (threads c)))) c in
       c1\<lparr>threads := threads c1 @ [Task i True Driving False]\<rparr>)
   | Handle i h \<Rightarrow> in_thread t (resume_end rest) (in_instance i (\<lambda>inst. inst\<lparr>in_handle := Some h\<rparr>) c))"

subsection \<open>Telling the peers\<close>

definition broadcast_simple_message :: "turn \<Rightarrow> canton_id list \<Rightarrow> message \<Rightarrow> (canton_id \<times> message) list" where
  "broadcast_simple_message T ids m = (case tu_peers T of
     Inl _ \<Rightarrow> []
   | Inr peers \<Rightarrow> if \<not> tu_keypair T then []
       else List.map_filter (\<lambda>i. case find (\<lambda>p. pe_participant_id p = i) peers of
         None \<Rightarrow> None
       | Some p \<Rightarrow> if pe_public_key p \<noteq> [] \<and> tu_key_ok T (pe_public_key p) then Some (i, m) else None) ids)"

definition send_cancel_invites :: "turn \<Rightarrow> canton_id list \<Rightarrow> string \<Rightarrow> (canton_id \<times> message) list" where
  "send_cancel_invites T ids name = broadcast_simple_message T ids (with_instance (message_new_empty CancelInvite) name)"

definition send_retry_workflow :: "turn \<Rightarrow> canton_id list \<Rightarrow> string \<Rightarrow> (canton_id \<times> message) list" where
  "send_retry_workflow T ids name = broadcast_simple_message T ids (with_instance (message_new_empty RetryWorkflow) name)"

subsection \<open>Cancelling\<close>

definition pick_coordinator_run :: "workflow_kind \<Rightarrow> control \<Rightarrow> nat option" where
  "pick_coordinator_run kind c =
     (case sort_key (\<lambda>i. in_name (instances c ! i)) (filter (\<lambda>i. in_kind (instances c ! i) = kind) (registered c)) of
        [] \<Rightarrow> None | i # _ \<Rightarrow> Some i)"

definition cancel_workflow_instance :: "nat option \<Rightarrow> string \<Rightarrow> control \<Rightarrow> thread" where
  "cancel_workflow_instance refusal name c = (case refusal of Some n \<Rightarrow> Finished n | None \<Rightarrow>
     (case registry_get name c of None \<Rightarrow> Finished 409 | Some i \<Rightarrow> CancelCheck i))"

definition cancel_workflow_state :: "nat option \<Rightarrow> workflow_kind \<Rightarrow> control \<Rightarrow> thread" where
  "cancel_workflow_state refusal kind c = (case refusal of Some n \<Rightarrow> Finished n | None \<Rightarrow>
     (case pick_coordinator_run kind c of Some i \<Rightarrow> CancelCheck i | None \<Rightarrow> CancelRow kind))"

definition cancel_check :: "nat \<Rightarrow> nat \<Rightarrow> control \<Rightarrow> control" where
  "cancel_check t i c = in_thread t (if in_status (instances c ! i) \<noteq> InProgress then Finished 409 else CancelTake i) c"

definition cancel_take :: "nat \<Rightarrow> nat \<Rightarrow> control \<Rightarrow> control" where
  "cancel_take t i c = (case in_handle (instances c ! i) of
     None \<Rightarrow> in_thread t (Finished 409) c
   | Some h \<Rightarrow> in_thread t (CancelPersist i h) (in_instance i (\<lambda>inst. inst\<lparr>in_handle := None\<rparr>) c))"

definition cancel_persist :: "nat \<Rightarrow> turn \<Rightarrow> nat \<Rightarrow> nat \<Rightarrow> control \<Rightarrow> control" where
  "cancel_persist t T i h c =
     (case finish_run_row (tu_db T) (in_name (instances c ! i)) Cancelled None (tu_now T) (rows c) of
        (None, _) \<Rightarrow> in_thread t (Finished 500) (in_instance i (\<lambda>inst. inst\<lparr>in_handle := Some h\<rparr>) c)
      | (Some False, _) \<Rightarrow> in_thread t (Finished 200) (abort_task h c)
      | (Some True, s) \<Rightarrow> in_thread t (CancelAbort i h) (c\<lparr>rows := s\<rparr>))"

definition cancel_notify :: "nat \<Rightarrow> turn \<Rightarrow> nat \<Rightarrow> control \<Rightarrow> control" where
  "cancel_notify t T i c = in_thread t (Finished 200)
     (in_instance i (\<lambda>inst. inst\<lparr>in_status := Cancelled, in_error := None\<rparr>)
       (c\<lparr>told := told c @ send_cancel_invites T (in_invited (instances c ! i)) (in_name (instances c ! i))\<rparr>))"

definition cancel_row :: "nat \<Rightarrow> turn \<Rightarrow> workflow_kind \<Rightarrow> control \<Rightarrow> control" where
  "cancel_row t T kind c = in_thread t (if \<not> tu_loaded T then Finished 500
     else (case get_active_workflow_run kind Coordinator (rows c) of None \<Rightarrow> Finished 409 | Some r \<Rightarrow> CancelRowSend r)) c"

definition cancel_row_send :: "nat \<Rightarrow> turn \<Rightarrow> workflow_run \<Rightarrow> control \<Rightarrow> control" where
  "cancel_row_send t T r c = in_thread t (CancelRowMark r)
     (c\<lparr>told := told c @ send_cancel_invites T (wr_expected_peers r) (wr_name r)\<rparr>)"

definition cancel_row_mark :: "nat \<Rightarrow> turn \<Rightarrow> workflow_run \<Rightarrow> control \<Rightarrow> control" where
  "cancel_row_mark t T r c = (case finish_run_row (tu_db T) (wr_name r) Cancelled None (tu_now T) (rows c) of
     (None, _) \<Rightarrow> in_thread t (Finished 500) c
   | (Some False, _) \<Rightarrow> in_thread t (Finished 409) c
   | (Some True, s) \<Rightarrow> in_thread t (Finished 200) (c\<lparr>rows := s\<rparr>))"

subsection \<open>Retrying and dismissing\<close>

definition retry_workflow :: "nat option \<Rightarrow> bool \<Rightarrow> string \<Rightarrow> control \<Rightarrow> thread" where
  "retry_workflow refusal loaded name c = (case refusal of Some n \<Rightarrow> Finished n | None \<Rightarrow>
     if \<not> loaded then Finished 500
     else (case get_workflow_run name (rows c) of
       None \<Rightarrow> Finished 404
     | Some r \<Rightarrow> if wr_role r \<noteq> Coordinator then Finished 409 else if wr_status r \<noteq> Failed then Finished 409 else RetryFlip name))"

definition retry_flip :: "nat \<Rightarrow> turn \<Rightarrow> string \<Rightarrow> control \<Rightarrow> control" where
  "retry_flip t T name c = (case transact (tu_db T) (set_workflow_run_status name InProgress None (tu_now T)) (rows c) of
     (True, s) \<Rightarrow> in_thread t (RetryReload name) (c\<lparr>rows := s\<rparr>)
   | (False, _) \<Rightarrow> in_thread t (Finished (if tu_db T \<in> {BeginFailed, CommitFailed} then 500 else 409)) c)"

definition retry_reload :: "nat \<Rightarrow> turn \<Rightarrow> string \<Rightarrow> control \<Rightarrow> control" where
  "retry_reload t T name c = in_thread t (case (if tu_loaded T then get_workflow_run name (rows c) else None) of
     None \<Rightarrow> Finished 500 | Some r \<Rightarrow> RetrySend r) c"

definition retry_send :: "nat \<Rightarrow> turn \<Rightarrow> workflow_run \<Rightarrow> control \<Rightarrow> control" where
  "retry_send t T r c = in_thread t (Resuming r None ReadConfig)
     (c\<lparr>told := told c @ send_retry_workflow T (wr_expected_peers r) (wr_name r)\<rparr>)"

definition dismiss_workflow :: "nat option \<Rightarrow> bool \<Rightarrow> string \<Rightarrow> control \<Rightarrow> thread" where
  "dismiss_workflow refusal loaded name c = (case refusal of Some n \<Rightarrow> Finished n | None \<Rightarrow>
     if \<not> loaded then Finished 500
     else (case get_workflow_run name (rows c) of
       None \<Rightarrow> Finished 404
     | Some r \<Rightarrow> if wr_status r = InProgress then Finished 409 else Dismissing name))"

definition dismiss_row :: "nat \<Rightarrow> turn \<Rightarrow> string \<Rightarrow> control \<Rightarrow> control" where
  "dismiss_row t T name c = (case transact (tu_db T) (\<lambda>s. Some (dismiss_workflow_run name s)) (rows c) of
     (True, s) \<Rightarrow> in_thread t (Finished 200) (c\<lparr>rows := s\<rparr>)
   | (False, _) \<Rightarrow> in_thread t (Finished 500) c)"

section \<open>Histories\<close>

datatype start_request =
    StartKick kick_request
  | StartAddParty add_party_request
  | StartChangeThreshold change_threshold_request
  | StartOnboarding onboarding_request
  | StartContracts contracts_request
  | StartDars "(string \<times> string) list" "canton_id list"
  | StartDarsForPackage string "canton_id list"

definition decide_start :: "launch_env \<Rightarrow> nat option \<Rightarrow> start_request \<Rightarrow> store \<Rightarrow> launch_error + plan" where
  "decide_start E refusal q s = (case q of
     StartKick r \<Rightarrow> start_kick E refusal r s
   | StartAddParty r \<Rightarrow> start_add_party E refusal r s
   | StartChangeThreshold r \<Rightarrow> start_change_threshold E refusal r s
   | StartOnboarding r \<Rightarrow> start_onboarding E refusal r
   | StartContracts r \<Rightarrow> start_contracts E refusal r s
   | StartDars files peers \<Rightarrow> start_dars E refusal files peers
   | StartDarsForPackage pkg peers \<Rightarrow> start_dars_for_package E refusal pkg peers)"

text \<open>\<open>Decline\<close> is a peer's decline as the run's server handles it; \<open>Progress\<close> a step of a driven run written through
  (\<open>Noise_Server\<close>, \<open>Workflow_State\<close>).  \<open>Boot\<close> is a restart: memory is gone, and recovery runs before requests are
  served.\<close>

datatype event =
    Start launch_env "nat option" start_request
  | CancelByName "nat option" string
  | CancelByKind "nat option" workflow_kind
  | Retry "nat option" bool string
  | Dismiss "nat option" bool string
  | Go nat turn
  | Drop nat
  | Decline nat turn string
  | Progress nat turn string int "canton_id list"
  | Boot bool

definition handle_start :: "launch_env \<Rightarrow> nat option \<Rightarrow> start_request \<Rightarrow> control \<Rightarrow> thread" where
  "handle_start E refusal q c = (case decide_start E refusal q (rows c) of
     Inl e \<Rightarrow> Finished (launch_status e) | Inr pl \<Rightarrow> Starting E pl)"

definition go :: "nat \<Rightarrow> turn \<Rightarrow> control \<Rightarrow> control" where
  "go t T c = (case threads c ! t of
     Starting E pl \<Rightarrow> register_run t E pl c
   | Registered E pl i \<Rightarrow> persist_run t T E pl i c
   | Persisted E pl i \<Rightarrow> spawn_run t E pl i c
   | Task i m ph a \<Rightarrow> task_step t T i m ph a c
   | Resuming run rest ph \<Rightarrow> respawn_coordinator t T run rest ph c
   | CancelCheck i \<Rightarrow> cancel_check t i c
   | CancelTake i \<Rightarrow> cancel_take t i c
   | CancelPersist i h \<Rightarrow> cancel_persist t T i h c
   | CancelAbort i h \<Rightarrow> in_thread t (CancelNotify i) (abort_task h c)
   | CancelNotify i \<Rightarrow> cancel_notify t T i c
   | CancelRow kind \<Rightarrow> cancel_row t T kind c
   | CancelRowSend r \<Rightarrow> cancel_row_send t T r c
   | CancelRowMark r \<Rightarrow> cancel_row_mark t T r c
   | RetryFlip name \<Rightarrow> retry_flip t T name c
   | RetryReload name \<Rightarrow> retry_reload t T name c
   | RetrySend r \<Rightarrow> retry_send t T r c
   | Dismissing name \<Rightarrow> dismiss_row t T name c
   | Finished n \<Rightarrow> c)"

definition recovering :: "control \<Rightarrow> bool" where
  "recovering c = list_ex (\<lambda>th. case th of Resuming _ (Some _) _ \<Rightarrow> True | _ \<Rightarrow> False) (threads c)"

definition update_step_row :: "string \<Rightarrow> string \<Rightarrow> int \<Rightarrow> canton_id list \<Rightarrow> int \<Rightarrow> store \<Rightarrow> store" where
  "update_step_row name step index completed now s = s\<lparr>workflow_runs := map (\<lambda>r. if wr_name r = name
     then r\<lparr>wr_step := step, wr_index := index, wr_completed_peers := completed, wr_updated_at := now\<rparr> else r) (workflow_runs s)\<rparr>"

definition serve :: "thread \<Rightarrow> control \<Rightarrow> control" where
  "serve th c = (if recovering c then c else c\<lparr>threads := threads c @ [th]\<rparr>)"

definition control_step :: "event \<Rightarrow> control \<Rightarrow> control" where
  "control_step ev c = (case ev of
     Start E refusal q \<Rightarrow> serve (handle_start E refusal q c) c
   | CancelByName refusal name \<Rightarrow> serve (cancel_workflow_instance refusal name c) c
   | CancelByKind refusal kind \<Rightarrow> serve (cancel_workflow_state refusal kind c) c
   | Retry refusal loaded name \<Rightarrow> serve (retry_workflow refusal loaded name c) c
   | Dismiss refusal loaded name \<Rightarrow> serve (dismiss_workflow refusal loaded name c) c
   | Go t T \<Rightarrow> if t < length (threads c) then go t T c else c
   | Drop t \<Rightarrow> if t < length (threads c) then (case threads c ! t of Task i _ _ True \<Rightarrow> drop_task t i c | _ \<Rightarrow> c) else c
   | Decline t T why \<Rightarrow> if t < length (threads c) then (case threads c ! t of
       Task i _ Driving _ \<Rightarrow> c\<lparr>rows := mark_ended T (in_name (instances c ! i)) (EndErr why) (rows c)\<rparr> | _ \<Rightarrow> c) else c
   | Progress t T step index completed \<Rightarrow> if t < length (threads c) \<and> tu_db T = Committed then (case threads c ! t of
       Task i _ Driving _ \<Rightarrow> c\<lparr>rows := update_step_row (in_name (instances c ! i)) step index completed (tu_now T) (rows c)\<rparr> | _ \<Rightarrow> c) else c
   | Boot loaded \<Rightarrow> c\<lparr>instances := [], registered := [],
       threads := [recover_next (if loaded then get_in_progress_workflow_runs (rows c) else [])]\<rparr>)"

definition node_new :: "store \<Rightarrow> control" where
  "node_new s = \<lparr>rows = s, instances = [], registered = [], threads = [], told = []\<rparr>"

inductive arises :: "control \<Rightarrow> control \<Rightarrow> bool" for c0 where
  arises_refl: "arises c0 c0"
| arises_step: "arises c0 c \<Longrightarrow> arises c0 (control_step ev c)"

subsection \<open>What the status endpoint shows\<close>

definition kind_status :: "bool \<Rightarrow> workflow_kind \<Rightarrow> control \<Rightarrow> workflow_progress \<times> string option" where
  "kind_status loaded kind c = (case pick_coordinator_run kind c of
     Some i \<Rightarrow> (in_status (instances c ! i), in_error (instances c ! i))
   | None \<Rightarrow> (case (if loaded then filter (\<lambda>r. wr_kind r = kind \<and> wr_role r = Coordinator) (get_visible_workflow_runs (rows c)) else []) of
       [] \<Rightarrow> (Idle, None)
     | rs \<Rightarrow> let r = last (sort_key wr_created_at rs) in (wr_status r, wr_error r)))"

section \<open>One owner per registered run\<close>

text \<open>The thread that will take an instance out of the registry.\<close>

fun owns :: "thread \<Rightarrow> nat option" where
  "owns (Registered _ _ i) = Some i"
| "owns (Persisted _ _ i) = Some i"
| "owns (Task i _ _ _) = Some i"
| "owns (Resuming _ _ (Spawn i)) = Some i"
| "owns _ = None"

fun named_right :: "run_instance list \<Rightarrow> thread \<Rightarrow> bool" where
  "named_right insts (Registered E pl i) = (in_name (insts ! i) = pl_name pl)"
| "named_right insts _ = True"

definition tidy :: "control \<Rightarrow> bool" where
  "tidy c \<longleftrightarrow> mset (List.map_filter owns (threads c)) = mset (registered c) \<and> distinct (registered c) \<and>
     (\<forall>i \<in> set (registered c). i < length (instances c)) \<and>
     inj_on (\<lambda>i. in_name (instances c ! i)) (set (registered c)) \<and> list_all (named_right (instances c)) (threads c)"

definition opt_mset :: "'a option \<Rightarrow> 'a multiset" where
  "opt_mset x = (case x of None \<Rightarrow> {#} | Some i \<Rightarrow> {#i#})"

lemma mset_map_filter_update:
  "t < length ths \<Longrightarrow> mset (List.map_filter f (ths[t := x])) + opt_mset (f (ths ! t)) = mset (List.map_filter f ths) + opt_mset (f x)"
  by (induction ths arbitrary: t) (auto simp: opt_mset_def List.map_filter_def nth_Cons split: nat.splits option.splits)

lemma owner_registered:
  "tidy c \<Longrightarrow> t < length (threads c) \<Longrightarrow> owns (threads c ! t) = Some i \<Longrightarrow> i \<in> set (registered c)"
proof -
  assume "tidy c" "t < length (threads c)" "owns (threads c ! t) = Some i"
  then have "i \<in> set (List.map_filter owns (threads c))"
    by (auto simp: List.map_filter_def image_iff intro!: exI [of _ "threads c ! t"])
  then show ?thesis using \<open>tidy c\<close> by (metis tidy_def mset_eq_setD)
qed

text \<open>The five ways a step changes owners.\<close>

lemma tidy_keep:
  assumes "tidy c" "t < length (threads c)" "threads c' = (threads c)[t := th]" "owns th = owns (threads c ! t)"
    "registered c' = registered c" "length (instances c') = length (instances c)"
    "\<And>i. in_name (instances c' ! i) = in_name (instances c ! i)" "named_right (instances c) th"
  shows "tidy c'"
proof -
  have "named_right (instances c') x = named_right (instances c) x" for x
    using assms(7) by (cases x) auto
  then have "list_all (named_right (instances c')) (threads c')"
    using assms(1,3,8) by (auto simp: tidy_def list_all_iff dest!: set_mp [OF set_update_subset_insert])
  moreover have "mset (List.map_filter owns (threads c')) = mset (List.map_filter owns (threads c))"
    using mset_map_filter_update [OF assms(2), of owns th] assms(3,4) by simp
  ultimately show ?thesis using assms(1,5-7) by (simp add: tidy_def inj_on_def)
qed

lemma tidy_release:
  assumes "tidy c" "t < length (threads c)" "threads c' = (threads c)[t := th]" "owns (threads c ! t) = Some i" "owns th = None"
    "registered c' = filter (\<lambda>j. in_name (instances c ! j) \<noteq> in_name (instances c ! i)) (registered c)" "instances c' = instances c"
    "named_right (instances c) th"
  shows "tidy c'"
proof -
  have reg: "i \<in> set (registered c)" by (rule owner_registered [OF assms(1,2,4)])
  have d: "distinct (registered c)" and inj: "inj_on (\<lambda>i. in_name (instances c ! i)) (set (registered c))"
    using assms(1) by (auto simp: tidy_def)
  have "registered c' = filter (\<lambda>j. j \<noteq> i) (registered c)"
    using assms(6) reg inj by (auto intro!: filter_cong dest: inj_onD)
  then have f: "registered c' = remove1 i (registered c)" using d by (simp add: distinct_remove1_removeAll removeAll_filter_not_eq eq_commute)
  have "add_mset i (mset (List.map_filter owns (threads c'))) = mset (List.map_filter owns (threads c))"
    using mset_map_filter_update [OF assms(2), of owns th] assms(3,4,5) by (simp add: opt_mset_def)
  then have "mset (List.map_filter owns (threads c')) = mset (registered c')"
    using assms(1) f by (simp add: tidy_def) (metis add_mset_remove_trivial)
  moreover have "list_all (named_right (instances c)) (threads c')"
    using assms(1,3,8) by (auto simp: tidy_def list_all_iff dest!: set_mp [OF set_update_subset_insert])
  ultimately show ?thesis using assms(1,7) f d by (auto simp: tidy_def inj_on_def dest: notin_set_remove1)
qed

lemma registry_put_Some:
  assumes "registry_put inst c = Some (i, c')"
  shows "i = length (instances c) \<and> instances c' = instances c @ [inst] \<and> registered c' = registered c @ [i] \<and>
    threads c' = threads c \<and> rows c' = rows c \<and> told c' = told c \<and>
    (\<forall>j \<in> set (registered c). in_name (instances c ! j) \<noteq> in_name inst)"
  using assms by (auto simp: registry_put_def registry_get_def find_None_iff split: if_splits)

lemma tidy_acquire:
  assumes "tidy c" "t < length (threads c)" "registry_put inst c = Some (i, c')" "owns (threads c ! t) = None" "owns th = Some i"
    "named_right (instances c @ [inst]) th"
  shows "tidy (in_thread t th c')"
proof -
  note p = registry_put_Some [OF assms(3)]
  have low: "i \<in> set (registered c) \<Longrightarrow> i < length (instances c)" for i using assms(1) by (simp add: tidy_def)
  have "mset (List.map_filter owns ((threads c)[t := th])) = add_mset i (mset (registered c))"
    using mset_map_filter_update [OF assms(2), of owns th] assms(1,4,5) by (simp add: opt_mset_def tidy_def)
  moreover have "named_right (instances c @ [inst]) x" if "x \<in> set (threads c)" for x
  proof -
    obtain k where k: "k < length (threads c)" "threads c ! k = x" using \<open>x \<in> _\<close> by (auto simp: in_set_conv_nth)
    have "named_right (instances c) x" using assms(1) \<open>x \<in> _\<close> by (auto simp: tidy_def list_all_iff)
    then show ?thesis using low [OF owner_registered [OF assms(1) k(1)]] k(2) by (cases x) (auto simp: nth_append)
  qed
  then have "list_all (named_right (instances c @ [inst])) ((threads c)[t := th])"
    using assms(6) by (auto simp: list_all_iff dest!: set_mp [OF set_update_subset_insert])
  ultimately show ?thesis
    using assms(1) p by (auto simp: tidy_def inj_on_def nth_append less_Suc_eq dest: low)
qed

lemma tidy_spawn:
  assumes "tidy c" "t < length (threads c)" "threads c' = (threads c)[t := th] @ [th']" "owns th = None" "owns th' = owns (threads c ! t)"
    "registered c' = registered c" "length (instances c') = length (instances c)"
    "\<And>i. in_name (instances c' ! i) = in_name (instances c ! i)" "named_right (instances c) th" "named_right (instances c) th'"
  shows "tidy c'"
proof -
  have "named_right (instances c') x = named_right (instances c) x" for x
    using assms(8) by (cases x) auto
  then have "list_all (named_right (instances c')) (threads c')"
    using assms(1,3,9,10) by (auto simp: tidy_def list_all_iff dest!: set_mp [OF set_update_subset_insert])
  moreover have "mset (List.map_filter owns (threads c')) = mset (List.map_filter owns (threads c))"
    using mset_map_filter_update [OF assms(2), of owns th] assms(3,4,5)
    by (cases "owns (threads c ! t)") (simp_all add: opt_mset_def List.map_filter_def)
  ultimately show ?thesis using assms(1,6-8) by (simp add: tidy_def inj_on_def)
qed

lemma tidy_serve:
  assumes "tidy c" "owns th = None" "named_right (instances c) th"
  shows "tidy (serve th c)"
  using assms by (auto simp: tidy_def serve_def List.map_filter_def)

lemma recover_next_owns [simp]: "owns (recover_next rs) = None" "named_right insts (recover_next rs)"
  by (induction rs) auto

lemma resume_end_owns [simp]: "owns (resume_end rest) = None" "named_right insts (resume_end rest)"
  by (auto simp: resume_end_def split: option.splits)

lemma status_ended_name [simp]: "in_name (status_ended e inst) = in_name inst"
  by (simp add: status_ended_def split: ending.splits)

lemma abort_task_frame [simp]:
  "length (threads (abort_task h c)) = length (threads c)" "registered (abort_task h c) = registered c"
  "instances (abort_task h c) = instances c" "rows (abort_task h c) = rows c" "told (abort_task h c) = told c"
  by (auto simp: abort_task_def split: thread.splits)

lemma tidy_abort: "tidy c \<Longrightarrow> h < length (threads c) \<Longrightarrow> tidy (abort_task h c)"
  by (cases "threads c ! h") (simp_all add: abort_task_def tidy_keep [where c = c and t = h])

lemma in_instance_name: "in_name x = in_name (insts ! i) \<Longrightarrow> in_name (insts[i := x] ! j) = in_name (insts ! j)"
  by (cases "i < length insts"; cases "i = j") (auto simp: list_update_beyond)

lemma tidy_start:
  assumes "tidy c" "t < length (threads c)"
  shows "threads c ! t = Starting E pl \<Longrightarrow> tidy (register_run t E pl c)"
    and "threads c ! t = Registered E pl i \<Longrightarrow> tidy (persist_run t T E pl i c)"
    and "threads c ! t = Persisted E pl i \<Longrightarrow> tidy (spawn_run t E pl i c)"
proof -
  show "tidy (register_run t E pl c)" if "threads c ! t = Starting E pl"
  proof (cases "registry_put (workflow_instance_new (pl_name pl) (pl_kind pl)) c")
    case None
    then show ?thesis using assms that by (auto simp: register_run_def intro: tidy_keep)
  next
    case (Some x)
    then obtain i c' where x: "registry_put (workflow_instance_new (pl_name pl) (pl_kind pl)) c = Some (i, c')" by (cases x) auto
    show ?thesis
      using tidy_acquire [OF assms x, of "Registered E pl i"] registry_put_Some [OF x] x that
      by (simp add: register_run_def workflow_instance_new_def)
  qed
  show "tidy (persist_run t T E pl i c)" if "threads c ! t = Registered E pl i"
  proof -
    have "named_right (instances c) (Registered E pl i)"
      using assms that by (auto simp: tidy_def list_all_iff) (metis nth_mem named_right.simps(1))
    then have "tidy (in_thread t (Finished 409) (registry_drop (pl_name pl) c))"
      using assms that by - (rule tidy_release [where c = c and t = t and i = i], auto simp: registry_drop_def)
    moreover have "tidy (in_thread t (Persisted E pl i) (c\<lparr>rows := s\<rparr>))" for s
      using assms that by - (rule tidy_keep [where c = c and t = t], auto)
    ultimately show ?thesis by (auto simp: persist_run_def split: prod.splits bool.splits)
  qed
  show "tidy (spawn_run t E pl i c)" if "threads c ! t = Persisted E pl i"
    unfolding spawn_run_def Let_def using assms that
    by - (rule tidy_spawn [where c = c and t = t], auto simp: in_instance_name)
qed

lemma tidy_task:
  assumes "tidy c" "t < length (threads c)" "threads c ! t = Task i m ph a"
  shows "tidy (task_step t T i m ph a c)" "tidy (drop_task t i c)"
proof -
  show d: "tidy (drop_task t i c)"
    unfolding drop_task_def using assms by - (rule tidy_release [where c = c and t = t and i = i], auto simp: registry_drop_def)
  have k: "tidy (in_thread t (Task i m' ph' a) c)" for m' ph'
    using assms by - (rule tidy_keep [where c = c and t = t], auto)
  have r: "tidy (in_thread t (Task i m' ph' a) (c\<lparr>rows := s\<rparr>))" for m' ph' s
    using assms by - (rule tidy_keep [where c = c and t = t], auto)
  have e: "tidy (in_thread t (Task i m' ph' a) (in_instance i (status_ended e) c))" for m' ph' e
    using assms by - (rule tidy_keep [where c = c and t = t], auto simp: in_instance_name)
  show "tidy (task_step t T i m ph a c)"
  proof (cases ph)
    case (Inviting E pl)
    then show ?thesis using k by (simp add: task_step_def split: sum.splits)
  next
    case Closing
    then show ?thesis using d by (simp add: task_step_def drop_task_def Let_def)
  next
    case Driving
    then show ?thesis using k by (simp add: task_step_def)
  next
    case (Ending e)
    then show ?thesis using r e by (simp add: task_step_def Let_def)
  next
    case (Half e)
    then show ?thesis using r e by (simp add: task_step_def Let_def)
  qed
qed

lemma tidy_other:
  assumes "tidy c" "t < length (threads c)" "owns (threads c ! t) = None"
  shows "owns th = None \<Longrightarrow> named_right (instances c) th \<Longrightarrow> tidy (in_thread t th c)"
    and "owns th = None \<Longrightarrow> named_right (instances c) th \<Longrightarrow> tidy (in_thread t th (c\<lparr>rows := s\<rparr>))"
    and "owns th = None \<Longrightarrow> named_right (instances c) th \<Longrightarrow> tidy (in_thread t th (c\<lparr>told := ms\<rparr>))"
    and "owns th = None \<Longrightarrow> named_right (instances c) th \<Longrightarrow> in_name x = in_name (instances c ! i) \<Longrightarrow>
      tidy (in_thread t th (c\<lparr>told := ms, instances := (instances c)[i := x]\<rparr>))"
    and "owns th = None \<Longrightarrow> named_right (instances c) th \<Longrightarrow> in_name x = in_name (instances c ! i) \<Longrightarrow>
      tidy (in_thread t th (c\<lparr>instances := (instances c)[i := x]\<rparr>))"
  by (insert assms, (rule tidy_keep [where c = c and t = t], auto simp: in_instance_name)+)

lemma tidy_respawn:
  assumes "tidy c" "t < length (threads c)" "threads c ! t = Resuming run rest ph"
  shows "tidy (respawn_coordinator t T run rest ph c)"
proof -
  have "owns (threads c ! t) = None" if "\<And>i. ph \<noteq> Spawn i" using that assms(3) by (cases ph) auto
  note k = tidy_other(1) [OF assms(1,2) this] and r = tidy_other(2) [OF assms(1,2) this, simplified]
  show ?thesis
  proof (cases ph)
    case Insert
    let ?inst = "(workflow_instance_new (wr_name run) (wr_kind run))\<lparr>in_invited := wr_expected_peers run, in_status := InProgress\<rparr>"
    show ?thesis
    proof (cases "registry_put ?inst c")
      case (Some x)
      then obtain i c' where x: "registry_put ?inst c = Some (i, c')" by (cases x) auto
      show ?thesis using tidy_acquire [OF assms(1,2) x, of "Resuming run rest (Spawn i)"] x assms(3) Insert registry_put_Some [OF x]
        by (simp add: respawn_coordinator_def)
    qed (simp add: respawn_coordinator_def Insert k)
  next
    case (Spawn i)
    then show ?thesis unfolding respawn_coordinator_def Let_def resume_phase.case using assms
      by - (rule tidy_spawn [where c = c and t = t], auto)
  next
    case (Handle i h)
    then show ?thesis unfolding respawn_coordinator_def Let_def resume_phase.case using assms
      by - (rule tidy_keep [where c = c and t = t], auto simp: in_instance_name)
  qed (simp_all add: respawn_coordinator_def k r split: option.splits)
qed

lemma tidy_handlers:
  assumes "tidy c" "t < length (threads c)" "owns (threads c ! t) = None"
  shows "tidy (cancel_check t i c)" "tidy (cancel_take t i c)" "tidy (cancel_notify t T i c)" "tidy (cancel_row t T kind c)"
    "tidy (cancel_row_send t T r c)" "tidy (cancel_row_mark t T r c)" "tidy (retry_flip t T name c)" "tidy (retry_reload t T name c)"
    "tidy (retry_send t T r c)" "tidy (dismiss_row t T name c)"
  using tidy_other [OF assms, simplified]
  by (simp_all add: cancel_check_def cancel_take_def cancel_notify_def cancel_row_def cancel_row_send_def cancel_row_mark_def
      retry_flip_def retry_reload_def retry_send_def dismiss_row_def split: option.splits prod.splits bool.splits)

lemma tidy_cancel_persist:
  assumes "tidy c" "t < length (threads c)" "threads c ! t = CancelPersist i h" "h < length (threads c)"
  shows "tidy (cancel_persist t T i h c)"
proof -
  have o: "owns (threads c ! t) = None" using assms(3) by simp
  have "owns (threads (abort_task h c) ! t) = None"
    using assms by (cases "threads c ! h") (auto simp: abort_task_def nth_list_update)
  then have "tidy (in_thread t (Finished 200) (abort_task h c))"
    using tidy_other(1) [OF tidy_abort [OF assms(1,4)], of t "Finished 200"] assms(2) by simp
  then show ?thesis
    using tidy_other [OF assms(1,2) o, simplified]
    by (simp add: cancel_persist_def split: option.splits prod.splits bool.splits)
qed

text \<open>An abort handle, wherever it is kept, is that of the run's own task.\<close>

definition handle_ok :: "control \<Rightarrow> nat \<Rightarrow> nat \<Rightarrow> bool" where
  "handle_ok c i h \<longleftrightarrow> h < length (threads c) \<and> (case threads c ! h of Task j _ _ _ \<Rightarrow> j = i | Finished _ \<Rightarrow> True | _ \<Rightarrow> False)"

fun keeps_handle :: "thread \<Rightarrow> (nat \<times> nat) option" where
  "keeps_handle (CancelPersist i h) = Some (i, h)"
| "keeps_handle (CancelAbort i h) = Some (i, h)"
| "keeps_handle (Resuming _ _ (Handle i h)) = Some (i, h)"
| "keeps_handle _ = None"

definition handles_ok :: "control \<Rightarrow> bool" where
  "handles_ok c \<longleftrightarrow> (\<forall>i < length (instances c). \<forall>h. in_handle (instances c ! i) = Some h \<longrightarrow> handle_ok c i h) \<and>
     (\<forall>th \<in> set (threads c). \<forall>i h. keeps_handle th = Some (i, h) \<longrightarrow> handle_ok c i h)"

fun follows :: "thread \<Rightarrow> thread \<Rightarrow> bool" where
  "follows (Task i _ _ _) th = (case th of Task j _ _ _ \<Rightarrow> j = i | Finished _ \<Rightarrow> True | _ \<Rightarrow> False)"
| "follows (Finished _) th = (case th of Finished _ \<Rightarrow> True | _ \<Rightarrow> False)"
| "follows _ _ = True"

lemma handle_ok_step:
  assumes "handle_ok c i h" "threads c' = (threads c)[t := th] @ extra" "follows (threads c ! t) th"
  shows "handle_ok c' i h"
proof (cases "h = t")
  case True
  then show ?thesis using assms by (cases "threads c ! t"; cases th) (auto simp: handle_ok_def nth_append)
next
  case False
  then show ?thesis using assms by (auto simp: handle_ok_def nth_append split: thread.splits)
qed

lemma handles_step:
  assumes "handles_ok c" "threads c' = (threads c)[t := th] @ extra" "follows (threads c ! t) th"
    and "\<And>i h. i < length (instances c') \<Longrightarrow> in_handle (instances c' ! i) = Some h \<Longrightarrow>
      i < length (instances c) \<and> in_handle (instances c ! i) = Some h \<or> handle_ok c i h \<or> handle_ok c' i h"
    and "\<And>i h. keeps_handle th = Some (i, h) \<Longrightarrow> handle_ok c i h \<or> handle_ok c' i h" and "\<And>x. x \<in> set extra \<Longrightarrow> keeps_handle x = None"
  shows "handles_ok c'"
proof -
  note step = handle_ok_step [OF _ assms(2,3)]
  have "handle_ok c' i h" if "x \<in> set (threads c')" "keeps_handle x = Some (i, h)" for x i h
    using that assms(1,2,5) step assms(6) [of x]
    by (auto simp: handles_ok_def dest!: set_mp [OF set_update_subset_insert])
  then show ?thesis using assms(1,4) step unfolding handles_ok_def by blast
qed

lemma held: "handles_ok c \<Longrightarrow> t < length (threads c) \<Longrightarrow> keeps_handle (threads c ! t) = Some (i, h) \<Longrightarrow> handle_ok c i h"
  unfolding handles_ok_def by (meson nth_mem)

lemma recover_next_holds [simp]: "keeps_handle (recover_next rs) = None"
  by (induction rs) auto

lemma resume_end_holds [simp]: "keeps_handle (resume_end rest) = None"
  by (auto simp: resume_end_def split: option.splits)

lemma status_ended_handle [simp]: "in_handle (status_ended e inst) = in_handle inst"
  by (simp add: status_ended_def split: ending.splits)

lemma handle_update:
  "in_handle (insts[i := x] ! j) = Some h \<Longrightarrow> in_handle (insts ! j) = Some h \<or> i = j \<and> in_handle x = Some h"
  by (cases "i < length insts") (auto simp: nth_list_update list_update_beyond split: if_splits)

lemma handles_start:
  assumes "handles_ok c" "t < length (threads c)"
  shows "threads c ! t = Starting E pl \<Longrightarrow> handles_ok (register_run t E pl c)"
    and "threads c ! t = Registered E pl i \<Longrightarrow> handles_ok (persist_run t T E pl i c)"
    and "threads c ! t = Persisted E pl i \<Longrightarrow> handles_ok (spawn_run t E pl i c)"
proof -
  show "handles_ok (register_run t E pl c)" if "threads c ! t = Starting E pl"
    using that
    by - (rule handles_step [where t = t and extra = "[]" and th = "threads (register_run t E pl c) ! t", OF assms(1)],
      insert assms(2), auto simp: register_run_def registry_put_def workflow_instance_new_def nth_append split: if_splits)
  show "handles_ok (persist_run t T E pl i c)" if "threads c ! t = Registered E pl i"
    using that
    by - (rule handles_step [where t = t and extra = "[]" and th = "threads (persist_run t T E pl i c) ! t", OF assms(1)],
      insert assms(2), auto simp: persist_run_def registry_drop_def split: prod.splits bool.splits)
  show "handles_ok (spawn_run t E pl i c)" if "threads c ! t = Persisted E pl i"
    using that
    by - (rule handles_step [where t = t and th = "Finished 202" and extra = "[Task i (status_first (pl_kind pl)) (Inviting E pl) False]", OF assms(1)],
      insert assms(2), auto simp: spawn_run_def Let_def handle_ok_def nth_append dest!: handle_update)
qed

lemma handles_task:
  assumes "handles_ok c" "t < length (threads c)" "threads c ! t = Task i m ph a"
  shows "handles_ok (task_step t T i m ph a c)" "handles_ok (drop_task t i c)"
proof -
  show "handles_ok (task_step t T i m ph a c)"
    by (rule handles_step [where t = t and extra = "[]" and th = "threads (task_step t T i m ph a c) ! t", OF assms(1)],
      insert assms(2,3), auto simp: task_step_def Let_def registry_drop_def dest!: handle_update split: task_phase.splits sum.splits)
  show "handles_ok (drop_task t i c)"
    by (rule handles_step [where t = t and extra = "[]" and th = "Finished 0", OF assms(1)],
      insert assms(2,3), auto simp: drop_task_def registry_drop_def)
qed

lemma handles_respawn:
  assumes "handles_ok c" "t < length (threads c)" "threads c ! t = Resuming run rest ph"
  shows "handles_ok (respawn_coordinator t T run rest ph c)"
proof (cases "\<exists>i. ph = Spawn i")
  case True
  then obtain i where "ph = Spawn i" ..
  then show ?thesis
    by - (rule handles_step [where t = t and th = "Resuming run rest (Handle i (length (threads c)))" and
        extra = "[Task i True Driving False]", OF assms(1)],
      insert assms(2,3), auto simp: respawn_coordinator_def Let_def handle_ok_def nth_append)
next
  case False
  note held = held [OF assms(1,2)]
  from False show ?thesis
    by - (rule handles_step [where t = t and extra = "[]" and th = "threads (respawn_coordinator t T run rest ph c) ! t", OF assms(1)],
      insert assms(2,3) held, auto simp: respawn_coordinator_def registry_put_def workflow_instance_new_def nth_append
        dest!: handle_update split: resume_phase.splits option.splits if_splits)
qed

lemma handles_handlers:
  assumes "handles_ok c" "t < length (threads c)" "\<And>th. follows (threads c ! t) th"
  shows "handles_ok (cancel_check t i c)" "i < length (instances c) \<Longrightarrow> handles_ok (cancel_take t i c)" "handles_ok (cancel_notify t T i c)" "handles_ok (cancel_row t T kind c)"
    "handles_ok (cancel_row_send t T r c)" "handles_ok (cancel_row_mark t T r c)" "handles_ok (retry_flip t T name c)"
    "handles_ok (retry_reload t T name c)" "handles_ok (retry_send t T r c)" "handles_ok (dismiss_row t T name c)"
proof -
  note step = handles_step [where t = t and extra = "[]" and c = c, OF assms(1)]
  show "handles_ok (cancel_check t i c)"
    by (rule step [where th = "threads (cancel_check t i c) ! t"], insert assms(2,3), auto simp: cancel_check_def)
  show "handles_ok (cancel_take t i c)" if "i < length (instances c)"
    by (rule step [where th = "threads (cancel_take t i c) ! t"], insert assms that,
      auto simp: cancel_take_def handles_ok_def dest!: handle_update split: option.splits)
  show "handles_ok (cancel_notify t T i c)"
    by (rule step [where th = "Finished 200"], insert assms(2,3), auto simp: cancel_notify_def dest!: handle_update)
  show "handles_ok (cancel_row t T kind c)"
    by (rule step [where th = "threads (cancel_row t T kind c) ! t"], insert assms(2,3), auto simp: cancel_row_def split: option.splits if_splits)
  show "handles_ok (cancel_row_send t T r c)"
    by (rule step [where th = "CancelRowMark r"], insert assms(2,3), auto simp: cancel_row_send_def)
  show "handles_ok (cancel_row_mark t T r c)"
    by (rule step [where th = "threads (cancel_row_mark t T r c) ! t"], insert assms(2,3),
      auto simp: cancel_row_mark_def split: option.splits prod.splits bool.splits)
  show "handles_ok (retry_flip t T name c)"
    by (rule step [where th = "threads (retry_flip t T name c) ! t"], insert assms(2,3),
      auto simp: retry_flip_def split: prod.splits bool.splits)
  show "handles_ok (retry_reload t T name c)"
    by (rule step [where th = "threads (retry_reload t T name c) ! t"], insert assms(2,3), auto simp: retry_reload_def split: option.splits)
  show "handles_ok (retry_send t T r c)"
    by (rule step [where th = "Resuming r None ReadConfig"], insert assms(2,3), auto simp: retry_send_def)
  show "handles_ok (dismiss_row t T name c)"
    by (rule step [where th = "threads (dismiss_row t T name c) ! t"], insert assms(2,3),
      auto simp: dismiss_row_def split: prod.splits bool.splits)
qed

lemma handles_abort: "handles_ok c \<Longrightarrow> handles_ok (abort_task h c)"
proof (cases "threads c ! h")
  case (Task j m ph a)
  assume ok: "handles_ok c"
  show ?thesis
    by (rule handles_step [where t = h and th = "Task j m ph True" and extra = "[]", OF ok]) (simp_all add: abort_task_def Task)
qed (simp_all add: abort_task_def)

lemma handles_cancel_persist:
  assumes "handles_ok c" "t < length (threads c)" "threads c ! t = CancelPersist i h"
  shows "handles_ok (cancel_persist t T i h c)"
proof -
  have h: "handle_ok c i h" by (rule held [OF assms(1,2)]) (simp add: assms(3))
  have ab: "handles_ok (abort_task h c)" by (rule handles_abort [OF assms(1)])
  have "follows (threads (abort_task h c) ! t) th" for th
    using assms h by (cases "h = t"; cases "threads c ! h") (auto simp: abort_task_def handle_ok_def)
  then have "handles_ok (in_thread t (Finished 200) (abort_task h c))"
    by - (rule handles_step [where t = t and th = "Finished 200" and extra = "[]", OF ab], auto)
  moreover have "handles_ok (in_thread t (CancelAbort i h) (c\<lparr>rows := s\<rparr>))" for s
    by (rule handles_step [where t = t and th = "CancelAbort i h" and extra = "[]", OF assms(1)]) (auto simp: assms(3) h)
  moreover have "handles_ok (in_thread t (Finished 500) (in_instance i (\<lambda>inst. inst\<lparr>in_handle := Some h\<rparr>) c))"
    by (rule handles_step [where t = t and th = "Finished 500" and extra = "[]", OF assms(1)]) (auto simp: assms(3) h dest!: handle_update)
  ultimately show ?thesis
    by (auto simp: cancel_persist_def split: option.splits prod.splits bool.splits)
qed

lemma abort_step:
  assumes "tidy c" "handles_ok c" "t < length (threads c)" "threads c ! t = CancelAbort i h"
  shows "tidy (in_thread t (CancelNotify i) (abort_task h c))" "handles_ok (in_thread t (CancelNotify i) (abort_task h c))"
proof -
  have h: "handle_ok c i h" by (rule held [OF assms(2,3)]) (simp add: assms(4))
  then have l: "h < length (threads c)" by (simp add: handle_ok_def)
  have o: "threads (abort_task h c) ! t = CancelAbort i h"
    using assms h by (cases "h = t"; cases "threads c ! h") (auto simp: abort_task_def handle_ok_def)
  show "tidy (in_thread t (CancelNotify i) (abort_task h c))"
    using tidy_other(1) [OF tidy_abort [OF assms(1) l], of t "CancelNotify i"] assms(3) o by simp
  have ab: "handles_ok (abort_task h c)" by (rule handles_abort [OF assms(2)])
  show "handles_ok (in_thread t (CancelNotify i) (abort_task h c))"
    by (rule handles_step [where t = t and th = "CancelNotify i" and extra = "[]", OF ab]) (simp_all add: o)
qed

text \<open>A handler's instance exists.\<close>

fun target :: "thread \<Rightarrow> nat option" where
  "target (CancelCheck i) = Some i"
| "target (CancelTake i) = Some i"
| "target (CancelPersist i _) = Some i"
| "target (CancelAbort i _) = Some i"
| "target (CancelNotify i) = Some i"
| "target _ = None"

definition in_range :: "control \<Rightarrow> thread \<Rightarrow> bool" where
  "in_range c th \<longleftrightarrow> (\<forall>i. target th = Some i \<longrightarrow> i < length (instances c))"

definition settled :: "control \<Rightarrow> bool" where
  "settled c \<longleftrightarrow> tidy c \<and> handles_ok c \<and> list_all (in_range c) (threads c)"

lemma go_threads:
  assumes "t < length (threads c)" "th \<in> set (threads (go t T c))"
  shows "th \<in> set (threads c) \<or> target th = None \<or> target th = target (threads c ! t)"
proof -
  have ab: "th \<in> set (threads (abort_task h c)) \<Longrightarrow> th \<in> set (threads c) \<or> target th = None" for h
    by (auto simp: abort_task_def split: thread.splits dest!: set_mp [OF set_update_subset_insert])
  have r: "target (resume_end rest) = None" "target (recover_next rs) = None" for rest rs
  proof -
    show "target (recover_next rs) = None" for rs by (induction rs) auto
    then show "target (resume_end rest) = None" by (simp add: resume_end_def split: option.splits)
  qed
  note defs = register_run_def registry_put_def persist_run_def registry_drop_def spawn_run_def task_step_def Let_def respawn_coordinator_def
    cancel_check_def cancel_take_def cancel_persist_def cancel_notify_def cancel_row_def cancel_row_send_def cancel_row_mark_def
    retry_flip_def retry_reload_def retry_send_def dismiss_row_def
  show ?thesis
    using assms by (cases "threads c ! t")
      (auto simp: go_def defs r dest!: set_mp [OF set_update_subset_insert] ab
        split: if_splits option.splits prod.splits bool.splits task_phase.splits sum.splits resume_phase.splits)
qed

lemma go_instances: "length (instances c) \<le> length (instances (go t T c))"
  by (cases "threads c ! t")
    (auto simp: go_def register_run_def registry_put_def persist_run_def registry_drop_def spawn_run_def task_step_def Let_def
      respawn_coordinator_def cancel_check_def cancel_take_def cancel_persist_def cancel_notify_def cancel_row_def cancel_row_send_def
      cancel_row_mark_def retry_flip_def retry_reload_def retry_send_def dismiss_row_def
      split: if_splits option.splits prod.splits bool.splits task_phase.splits sum.splits resume_phase.splits)

lemma settled_go:
  assumes "settled c" "t < length (threads c)"
  shows "settled (go t T c)"
proof -
  have inv: "tidy c" "handles_ok c" and rng: "in_range c (threads c ! t)"
    using assms by (auto simp: settled_def list_all_length)
  note o = tidy_handlers [OF inv(1) assms(2)] and p = handles_handlers [OF inv(2) assms(2)]
  have "tidy (go t T c) \<and> handles_ok (go t T c)"
    using inv rng assms(2) tidy_start [OF inv(1) assms(2)] handles_start [OF inv(2) assms(2)]
      tidy_task(1) [OF inv(1) assms(2)] handles_task(1) [OF inv(2) assms(2)]
      tidy_respawn [OF inv(1) assms(2)] handles_respawn [OF inv(2) assms(2)] o p
      tidy_cancel_persist [OF inv(1) assms(2)] handles_cancel_persist [OF inv(2) assms(2)] abort_step [OF inv assms(2)]
      held [OF inv(2) assms(2)]
    by (cases "threads c ! t") (simp_all add: go_def in_range_def handle_ok_def)
  moreover have "list_all (in_range (go t T c)) (threads (go t T c))"
    unfolding list_all_iff
  proof
    fix th
    assume "th \<in> set (threads (go t T c))"
    from go_threads [OF assms(2) this] have "in_range c th"
      using assms rng by (auto simp: settled_def list_all_iff in_range_def)
    then show "in_range (go t T c) th"
      using go_instances [of c t T] by (auto simp: in_range_def)
  qed
  ultimately show ?thesis by (simp add: settled_def)
qed

lemma settled_serve:
  assumes "settled c" "owns th = None" "named_right (instances c) th" "keeps_handle th = None" "in_range c th"
  shows "settled (serve th c)"
proof -
  have "handle_ok c i h \<Longrightarrow> handle_ok (serve th c) i h" for i h
    by (auto simp: serve_def handle_ok_def nth_append)
  then have "handles_ok (serve th c)"
    using assms(1,4) unfolding settled_def handles_ok_def by (auto simp: serve_def)
  moreover have "list_all (in_range (serve th c)) (threads (serve th c))"
    using assms(1,5) by (auto simp: settled_def serve_def in_range_def list_all_iff)
  ultimately show ?thesis using assms(1-3) tidy_serve by (simp add: settled_def)
qed

lemma registry_get_range: "settled c \<Longrightarrow> registry_get name c = Some i \<Longrightarrow> i < length (instances c)"
  by (auto simp: settled_def tidy_def registry_get_def find_Some_iff)

lemma pick_registered:
  assumes "pick_coordinator_run kind c = Some i"
  shows "i \<in> set (registered c) \<and> in_kind (instances c ! i) = kind"
proof -
  let ?xs = "filter (\<lambda>i. in_kind (instances c ! i) = kind) (registered c)"
  obtain ys where "sort_key (\<lambda>i. in_name (instances c ! i)) ?xs = i # ys"
    using assms by (cases "sort_key (\<lambda>i. in_name (instances c ! i)) ?xs") (auto simp: pick_coordinator_run_def)
  then have "i \<in> set (sort_key (\<lambda>i. in_name (instances c ! i)) ?xs)" by simp
  then show ?thesis by simp
qed

lemma settled_rows: "settled c \<Longrightarrow> settled (c\<lparr>rows := s\<rparr>)"
  by (simp add: settled_def tidy_def handles_ok_def handle_ok_def in_range_def list_all_iff)

lemma settled_drop: "settled c \<Longrightarrow> t < length (threads c) \<Longrightarrow> threads c ! t = Task i m ph a \<Longrightarrow> settled (drop_task t i c)"
  using tidy_task(2) [of c t i m ph a] handles_task(2) [of c t i m ph a]
  by (auto simp: settled_def in_range_def drop_task_def registry_drop_def list_all_iff dest!: set_mp [OF set_update_subset_insert])

lemma settled_boot: "settled (c\<lparr>instances := [], registered := [], threads := [recover_next rs]\<rparr>)"
proof -
  have "target (recover_next rs) = None" by (induction rs) auto
  then show ?thesis by (auto simp: settled_def tidy_def List.map_filter_def handles_ok_def in_range_def)
qed

lemma settled_control_step: "settled c \<Longrightarrow> settled (control_step ev c)"
proof (cases ev)
  case (Start E refusal q)
  assume "settled c"
  then show ?thesis
    unfolding Start control_step_def event.case
    by (rule settled_serve) (auto simp: handle_start_def in_range_def split: sum.splits)
next
  case (CancelByName refusal name)
  assume "settled c"
  then show ?thesis
    unfolding CancelByName control_step_def event.case
    by (rule settled_serve)
      (auto simp: cancel_workflow_instance_def in_range_def registry_get_range [OF \<open>settled c\<close>] split: option.splits)
next
  case (CancelByKind refusal kind)
  assume "settled c"
  then have "pick_coordinator_run kind c = Some i \<Longrightarrow> i < length (instances c)" for i
    by (auto simp: settled_def tidy_def dest!: pick_registered)
  with \<open>settled c\<close> show ?thesis
    unfolding CancelByKind control_step_def event.case
    by - (rule settled_serve, auto simp: cancel_workflow_state_def in_range_def split: option.splits)
next
  case (Retry refusal loaded name)
  assume "settled c"
  then show ?thesis
    unfolding Retry control_step_def event.case
    by (rule settled_serve) (auto simp: retry_workflow_def in_range_def split: option.splits)
next
  case (Dismiss refusal loaded name)
  assume "settled c"
  then show ?thesis
    unfolding Dismiss control_step_def event.case
    by (rule settled_serve) (auto simp: dismiss_workflow_def in_range_def split: option.splits)
qed (auto simp: control_step_def settled_go settled_drop settled_boot split: thread.splits task_phase.splits bool.splits intro: settled_rows)

lemma arises_settled: "arises (node_new s) c \<Longrightarrow> settled c"
proof (induction rule: arises.induct)
  case arises_refl
  show ?case by (simp add: settled_def node_new_def tidy_def List.map_filter_def handles_ok_def)
qed (rule settled_control_step)

section \<open>Properties\<close>

lemma distinct_owner:
  "distinct (List.map_filter f xs) \<Longrightarrow> t < length xs \<Longrightarrow> u < length xs \<Longrightarrow> f (xs ! t) = Some i \<Longrightarrow> f (xs ! u) = Some i \<Longrightarrow> t = u"
proof (induction xs arbitrary: t u)
  case (Cons x xs)
  have mem: "k < length xs \<Longrightarrow> f (xs ! k) = Some i \<Longrightarrow> i \<in> set (List.map_filter f xs)" for k
    by (auto simp: List.map_filter_def image_iff intro!: exI [of _ "xs ! k"])
  have d: "distinct (List.map_filter f xs)" using Cons.prems(1) by (auto simp: List.map_filter_def split: if_splits)
  show ?case
  proof (cases t; cases u)
    fix t' u' assume "t = Suc t'" "u = Suc u'"
    then show ?thesis using Cons.IH [OF d] Cons.prems by simp
  qed (insert Cons.prems mem, auto simp: List.map_filter_def)
qed simp


definition same_status :: "string \<Rightarrow> workflow_progress \<Rightarrow> store \<Rightarrow> store \<Rightarrow> bool" where
  "same_status name st s s' \<longleftrightarrow> (map_option wr_status (get_workflow_run name s) = Some st \<longrightarrow>
     map_option wr_status (get_workflow_run name s') = Some st)"

lemma find_map_name:
  "(\<And>r. wr_name (f r) = wr_name r) \<Longrightarrow> find (\<lambda>r. wr_name r = name) (map f rs) = map_option f (find (\<lambda>r. wr_name r = name) rs)"
  by (induction rs) auto

lemma find_append_Some: "find P xs = Some x \<Longrightarrow> find P (xs @ ys) = Some x"
  by (induction xs) (auto split: if_splits)

lemma mapped_same_status:
  assumes "workflow_runs s' = map f (workflow_runs s)" "\<And>r. wr_name (f r) = wr_name r"
    and "\<And>r. wr_name r = name \<Longrightarrow> wr_status r = st \<Longrightarrow> wr_status (f r) = st"
  shows "same_status name st s s'"
proof (cases "get_workflow_run name s")
  case (Some r)
  then have "wr_name r = name" by (auto simp: get_workflow_run_def find_Some_iff)
  moreover have "get_workflow_run name s' = Some (f r)"
    using Some assms(1,2) by (simp add: get_workflow_run_def find_map_name)
  ultimately show ?thesis using Some assms(3) by (simp add: same_status_def)
qed (simp add: same_status_def)

lemma finish_same_status:
  assumes "st \<in> {Completed, Failed, Cancelled}"
  shows "same_status name st s (snd (finish_run_row db n st' err now s))"
proof (cases "db = Committed \<and> list_ex (\<lambda>r. wr_name r = n \<and> wr_status r \<in> {Idle, InProgress}) (workflow_runs s)")
  case True
  let ?f = "\<lambda>r. if wr_name r = n \<and> wr_status r \<in> {Idle, InProgress} then r\<lparr>wr_status := st', wr_error := err, wr_updated_at := now\<rparr> else r"
  have "workflow_runs (snd (finish_run_row db n st' err now s)) = map ?f (workflow_runs s)"
    using True by (simp add: finish_run_row_def finish_workflow_run_row_def Let_def)
  from mapped_same_status [OF this] show ?thesis using assms by auto
next
  case False
  then show ?thesis by (auto simp: same_status_def finish_run_row_def finish_workflow_run_row_def Let_def)
qed

lemma finish_parts:
  "st \<in> {Completed, Failed, Cancelled} \<Longrightarrow> finish_run_row db n st' err now s = (x, s') \<Longrightarrow> same_status name st s s'"
  using finish_same_status [of st name s db n st' err now] by simp

lemma mark_same_status: "st \<in> {Completed, Failed, Cancelled} \<Longrightarrow> same_status name st s (mark_ended T n e s)"
  using finish_same_status [of st name s "tu_db T" n] by (auto simp: mark_ended_def split: ending.splits)

lemma same_status_refl [simp]: "same_status name st s s"
  by (simp add: same_status_def)

lemma other_same_status:
  "n \<noteq> name \<Longrightarrow> set_workflow_run_status n st' err now s = Some s1 \<Longrightarrow> same_status name st s s1"
  "same_status name st s (update_step_row n step index completed now s)"
  "same_status name st s (dismiss_workflow_run n s)"
proof -
  show "same_status name st s s1" if "n \<noteq> name" "set_workflow_run_status n st' err now s = Some s1"
  proof -
    have "workflow_runs s1 = map (\<lambda>r. if wr_name r = n then r\<lparr>wr_status := st', wr_error := err, wr_updated_at := now\<rparr> else r) (workflow_runs s)"
      using that(2) by (auto simp: set_workflow_run_status_def Let_def split: if_splits)
    from mapped_same_status [OF this] that(1) show ?thesis by auto
  qed
  show "same_status name st s (update_step_row n step index completed now s)"
    by (rule mapped_same_status [where f = "\<lambda>r. if wr_name r = n
      then r\<lparr>wr_step := step, wr_index := index, wr_completed_peers := completed, wr_updated_at := now\<rparr> else r"]) (auto simp: update_step_row_def)
  show "same_status name st s (dismiss_workflow_run n s)"
    by (rule mapped_same_status [where f = "\<lambda>r. if wr_name r = n \<and> wr_status r \<noteq> InProgress then r\<lparr>wr_dismissed := True\<rparr> else r"])
      (auto simp: dismiss_workflow_run_def)
qed

lemma upsert_same_status:
  assumes "wr_name run \<noteq> name" "upsert_workflow_run run s = Some s1"
  shows "same_status name st s s1"
proof (cases "\<exists>r \<in> set (workflow_runs s). wr_name r = wr_name run")
  case True
  then have "workflow_runs s1 = map (\<lambda>r. if wr_name r = wr_name run then run\<lparr>wr_created_at := wr_created_at r\<rparr> else r) (workflow_runs s)"
    using assms(2) by (auto simp: upsert_workflow_run_def split: if_splits)
  from mapped_same_status [OF this] assms(1) show ?thesis by auto
next
  case False
  then have "workflow_runs s1 = workflow_runs s @ [run]" using assms(2) by (auto simp: upsert_workflow_run_def split: if_splits)
  then show ?thesis by (auto simp: same_status_def get_workflow_run_def dest: find_append_Some)
qed

lemma start_same_status:
  "pl_name pl \<noteq> name \<Longrightarrow> upsert_workflow_run (coordinator_run T E pl) s = Some s1 \<Longrightarrow> same_status name st s s1"
  by (rule upsert_same_status [of "coordinator_run T E pl"]) (simp_all add: coordinator_run_def)

lemma transact_Some: "transact db f s = (ok, s') \<Longrightarrow> s' = s \<or> f s = Some s'"
  by (auto simp: transact_def split: db_outcome.splits option.splits)

text \<open>C14: a run that has ended stays as it ended: no step of any thread changes a terminal status,
  except a retry that was admitted when the row read Failed, and a start of a new run under the same name.\<close>

theorem terminal_status_stays:
  assumes "get_workflow_run name (rows c) = Some r" "wr_status r \<in> {Completed, Failed, Cancelled}"
    and "\<And>t T E pl i. ev = Go t T \<Longrightarrow> t < length (threads c) \<Longrightarrow> threads c ! t \<noteq> RetryFlip name \<and>
      (threads c ! t = Registered E pl i \<longrightarrow> pl_name pl \<noteq> name)"
  shows "\<exists>r'. get_workflow_run name (rows (control_step ev c)) = Some r' \<and> wr_status r' = wr_status r"
proof -
  have ended: "wr_status r \<in> {Completed, Failed, Cancelled}" by (rule assms(2))
  note parts = finish_parts [OF ended] mark_same_status [OF ended] other_same_status start_same_status
  have "same_status name (wr_status r) (rows c) (rows (control_step ev c))"
  proof (cases ev)
    case (Go t T)
    show ?thesis
    proof (cases "t < length (threads c)")
      case True
      have flip: "threads c ! t \<noteq> RetryFlip name" and reg: "\<And>E pl i. threads c ! t = Registered E pl i \<Longrightarrow> pl_name pl \<noteq> name"
        using assms(3) [OF Go True] by auto
      have g: "same_status name (wr_status r) (rows c) (rows (go t T c))"
        using flip reg
        by (cases "threads c ! t")
          (auto simp: go_def register_run_def registry_put_def registry_drop_def persist_run_def insert_coordinator_run_def
            spawn_run_def task_step_def Let_def respawn_coordinator_def cancel_check_def cancel_take_def cancel_persist_def cancel_notify_def
            cancel_row_def cancel_row_send_def cancel_row_mark_def retry_flip_def retry_reload_def retry_send_def dismiss_row_def
            dest!: transact_Some intro: parts
            split: option.splits prod.splits bool.splits task_phase.splits sum.splits resume_phase.splits)
      with True Go show ?thesis by (simp add: control_step_def)
    qed (simp add: control_step_def Go)
  qed (auto simp: control_step_def serve_def drop_task_def registry_drop_def intro: parts split: thread.splits bool.splits task_phase.splits)
  then show ?thesis using assms(1) by (auto simp: same_status_def)
qed

text \<open>C13: the decisive step of a cancel has three outcomes.  If the status cannot be written, nothing has
  happened: the row, the task and every other thread are as before and the abort handle is back in place.  If the run had ended already,
  its outcome stays and its task is told to stop.  Otherwise the row is Cancelled before anything is aborted.  The task that is stopped
  is the cancelled run's own, in every history.\<close>

theorem cancel_outcomes:
  assumes "arises (node_new s) c" "t < length (threads c)" "threads c ! t = CancelPersist i h"
    and c'_def: "c' = control_step (Go t T) c" and name_def: "name = in_name (instances c ! i)"
  shows "threads c' ! t = Finished 500 \<and> rows c' = rows c \<and> threads c' = (threads c)[t := Finished 500] \<and> in_handle (instances c' ! i) = Some h \<or>
    threads c' ! t = Finished 200 \<and> rows c' = rows c \<and> \<not> list_ex (\<lambda>r. wr_name r = name \<and> wr_status r \<in> {Idle, InProgress}) (workflow_runs (rows c)) \<and>
      (case threads c' ! h of Task j _ _ stop \<Rightarrow> j = i \<and> stop | Finished _ \<Rightarrow> True | _ \<Rightarrow> False) \<or>
    threads c' ! t = CancelAbort i h \<and> threads c' = (threads c)[t := CancelAbort i h] \<and>
      (\<forall>r \<in> set (workflow_runs (rows c')). wr_name r = name \<longrightarrow> wr_status r \<in> {Completed, Failed, Cancelled}) \<and>
      (\<exists>r \<in> set (workflow_runs (rows c')). wr_name r = name \<and> wr_status r = Cancelled)"
proof -
  have ok: "handles_ok c" and range: "i < length (instances c)"
    using arises_settled [OF assms(1)] assms(2,3) by (auto simp: settled_def list_all_length in_range_def)
  have h: "handle_ok c i h" by (rule held [OF ok assms(2)]) (simp add: assms(3))
  have neq: "h \<noteq> t" using h assms(3) by (auto simp: handle_ok_def)
  have c': "c' = cancel_persist t T i h c" using assms(2,3) by (simp add: c'_def control_step_def go_def)
  consider (failed) "tu_db T \<noteq> Committed"
    | (ended) "tu_db T = Committed" "\<not> list_ex (\<lambda>r. wr_name r = name \<and> wr_status r \<in> {Idle, InProgress}) (workflow_runs (rows c))"
    | (moved) "tu_db T = Committed" "list_ex (\<lambda>r. wr_name r = name \<and> wr_status r \<in> {Idle, InProgress}) (workflow_runs (rows c))" by blast
  then show ?thesis
  proof cases
    case failed
    then show ?thesis using range assms(2) by (simp add: c' cancel_persist_def finish_run_row_def)
  next
    case ended
    then show ?thesis using h neq assms(2)
      by (cases "threads c ! h") (auto simp: c' cancel_persist_def finish_run_row_def finish_workflow_run_row_def name_def abort_task_def handle_ok_def)
  next
    case moved
    let ?f = "\<lambda>r. if wr_name r = name \<and> wr_status r \<in> {Idle, InProgress}
      then r\<lparr>wr_status := Cancelled, wr_error := None, wr_updated_at := tu_now T\<rparr> else r"
    have "threads c' = (threads c)[t := CancelAbort i h]" and rows: "workflow_runs (rows c') = map ?f (workflow_runs (rows c))"
      using moved by (simp_all add: c' cancel_persist_def finish_run_row_def finish_workflow_run_row_def name_def Let_def)
    moreover have "wr_status (?f r) \<in> {Completed, Failed, Cancelled}" if "wr_name r = name" for r
      using that by (cases "wr_status r") auto
    then have "\<forall>r \<in> set (workflow_runs (rows c')). wr_name r = name \<longrightarrow> wr_status r \<in> {Completed, Failed, Cancelled}"
      unfolding rows set_map by (force split: if_splits)
    moreover obtain r where "r \<in> set (workflow_runs (rows c))" "wr_name r = name" "wr_status r \<in> {Idle, InProgress}"
      using moved(2) by (auto simp: list_ex_iff)
    then have "?f r \<in> set (workflow_runs (rows c'))" "wr_name (?f r) = name" "wr_status (?f r) = Cancelled"
      unfolding rows set_map by simp_all
    ultimately show ?thesis using assms(2) by auto
  qed
qed

end
