(* ===== verification/Run_Histories.thy ===== *)
theory Run_Histories
  imports Run_Control
begin

text \<open>
  Histories of coordinated runs: the configuration a restart reads is the one the run was started with, recovery resumes exactly the
  runs that were in progress, and the histories in which a handler's answer and the state of the run part ways.  At the end, the
  feed of runs (\<open>list_workflows\<close>) and what its cards say.
\<close>

section \<open>Configurations survive a restart\<close>

definition i64_range :: "int \<Rightarrow> bool" where
  "i64_range n \<longleftrightarrow> - (2 ^ 63) \<le> n \<and> n < 2 ^ 63"

text \<open>What a typed configuration satisfies by its types: parsed ids, numbers in range, fields that deserialise.\<close>

definition typed_config :: "hexlib \<Rightarrow> stored_config \<Rightarrow> bool" where
  "typed_config H c = (case c of
     OnboardingStored c \<Rightarrow> pred_option i32_range (oc_threshold c) \<and> pred_option i32_range (oc_confirmation c)
   | KickStored c \<Rightarrow> parsed_id H (kc_party c) \<and> parsed_id H (kc_participant c) \<and> i32_range (kc_new_threshold c) \<and>
       pred_option i32_range (kc_confirmation c) \<and> i32_range (kc_previous_threshold c)
   | ContractsStored c \<Rightarrow> parsed_id H (cc_party c) \<and> list_all (parsed_id H) (cc_participant_ids c) \<and>
       list_all (parsed_id H) (cc_participant_parties c) \<and> parsed_id H (cc_operator c) \<and>
       list_all (\<lambda>d. list_all (field_definition_ok H) (cd_fields d)) (cc_contracts c) \<and>
       pred_option (\<lambda>d. i64_range (co_governance_threshold d)) (cc_committed c)
   | DarsStored c \<Rightarrow> list_all (parsed_id H) (dc_peers c)
   | AddPartyStored c \<Rightarrow> parsed_id H (ac_party c) \<and> parsed_id H (ac_new_participant c) \<and> i32_range (ac_new_threshold c) \<and>
       pred_option i32_range (ac_confirmation c) \<and> i32_range (ac_previous_threshold c)
   | ChangeThresholdStored c \<Rightarrow> parsed_id H (tc_party c) \<and> i32_range (tc_new_threshold c) \<and>
       pred_option i32_range (tc_confirmation c) \<and> i32_range (tc_previous_threshold c))"

lemma u_option_i32_j: "pred_option i32_range x \<Longrightarrow> u_option u_i32 (j_option JNum x) = Some x"
  by (cases x) (auto simp: u_option_def j_option_def u_i32_def i32_range_def)

lemma contract_definition_readback:
  assumes "list_all (field_definition_ok H) (cd_fields d)"
  shows "contract_definition_from H (contract_definition_json d) = Some d"
proof -
  have "list_all (field_definition_ok H) fs \<Longrightarrow> u_all (\<lambda>d. if field_definition_ok H d then Some d else None) fs = Some fs" for fs
    by (induction fs) auto
  from this [OF assms] show ?thesis
    by (simp add: contract_definition_from_def contract_definition_json_def u_required_def u_field_def u_str_def u_list_def)
qed

context hex_codec
begin

lemma stored_readback:
  assumes "typed_config H c"
  shows "parse_stored_config H (kind_of_config c) (stored_config_json H c) = Some c"
proof (cases c)
  case (ContractsStored d)
  have "u_list (contract_definition_from H) (j_list contract_definition_json (cc_contracts d)) = Some (cc_contracts d)"
    using assms ContractsStored
    by (intro u_list_j_list contract_definition_readback) (auto simp: typed_config_def list_all_iff)
  moreover have "u_option committed_deployment_from (committed_deployment_json e) = Some (Some e)" if "cc_committed d = Some e" for e
    using assms ContractsStored that
    by (simp add: typed_config_def u_option_def committed_deployment_json_def committed_deployment_from_def u_required_def u_field_def
        u_i64_def i64_range_def u_list_j_list u_intent_j_intent)
  ultimately show ?thesis
    using assms ContractsStored
    by (cases "cc_committed d")
      (simp_all add: typed_config_def parse_stored_config_def kind_of_config_def stored_config_json_def contracts_config_from_def
        contracts_config_json_def u_required_def u_default_def u_field_def u_ids u_id_j_id u_str_def)
next
  case (DarsStored d)
  have "u_list dar_file_from (j_list (\<lambda>(f, d). JObj [(''filename'', JStr f), (''data'', JStr d)]) (dc_files d)) = Some (dc_files d)"
    by (rule u_list_j_list) (auto simp: dar_file_from_def u_required_def u_field_def u_str_def)
  then show ?thesis using assms DarsStored
    by (simp add: typed_config_def parse_stored_config_def kind_of_config_def stored_config_json_def stored_dars_config_from_def
        dars_config_json_def u_required_def u_field_def u_ids u_str_def)
qed (insert assms, simp_all add: typed_config_def parse_stored_config_def kind_of_config_def stored_config_json_def
    onboarding_config_from_def onboarding_config_json_def kick_config_from_def kick_config_json_def add_party_config_from_def
    add_party_config_json_def change_threshold_config_from_def change_threshold_config_json_def u_required_def u_default_def u_field_def
    u_option_i32_j u_id_j_id u_i32_num u_unit_def u_str_def)

end


section \<open>Recovery\<close>

definition resumed :: "nat \<Rightarrow> workflow_run \<Rightarrow> run_instance" where
  "resumed k r = (workflow_instance_new (wr_name r) (wr_kind r))
     \<lparr>in_invited := wr_expected_peers r, in_status := InProgress, in_handle := Some (Suc k)\<rparr>"

text \<open>Memory with the runs \<open>rs\<close> resumed in order, their tasks behind the recovery thread.\<close>

definition recovered :: "control \<Rightarrow> workflow_run list \<Rightarrow> thread \<Rightarrow> control" where
  "recovered c rs th = c\<lparr>instances := map (\<lambda>(k, r). resumed k r) (enumerate 0 rs), registered := [0..<length rs],
     threads := th # map (\<lambda>k. Task k True Driving False) [0..<length rs]\<rparr>"

definition resumable :: "turn \<Rightarrow> workflow_run \<Rightarrow> bool" where
  "resumable T r \<longleftrightarrow> Option.bind (json_parse (tu_json T) (wr_config_json r)) (parse_stored_config (tu_hex T) (wr_kind r)) \<noteq> None"

lemma enumerate_snoc: "enumerate k (xs @ [x]) = enumerate k xs @ [(k + length xs, x)]"
  by (induction xs arbitrary: k) auto

lemma recover_one:
  assumes "resumable T r" "tu_loaded T" "get_workflow_run (wr_name r) (rows c) = Some q" "wr_status q = InProgress"
    and new: "wr_name r \<notin> set (map wr_name done_runs)"
  shows "(control_step (Go 0 T) ^^ 5) (recovered c done_runs (Resuming r (Some rs) ReadConfig)) = recovered c (done_runs @ [r]) (recover_next rs)"
proof -
  let ?n = "length done_runs"
  let ?s = "\<lambda>ph. recovered c done_runs (Resuming r (Some rs) ph)"
  obtain cfg where cfg: "Option.bind (json_parse (tu_json T) (wr_config_json r)) (parse_stored_config (tu_hex T) (wr_kind r)) = Some cfg"
    using assms(1) by (auto simp: resumable_def)
  have "in_name (map (\<lambda>(k, r). resumed k r) (enumerate 0 done_runs) ! i) = wr_name (done_runs ! i)" if "i < ?n" for i
    using that by (simp add: nth_enumerate_eq resumed_def workflow_instance_new_def)
  moreover have "wr_name (done_runs ! i) \<noteq> wr_name r" if "i < ?n" for i
    using new nth_mem [OF that] by (metis image_eqI set_map)
  ultimately have free: "find (\<lambda>i. in_name (map (\<lambda>(k, r). resumed k r) (enumerate 0 done_runs) ! i) = wr_name r) [0..<?n] = None"
    by (auto simp: find_None_iff)
  have 1: "control_step (Go 0 T) (?s ReadConfig) = ?s Recheck"
    by (simp add: control_step_def go_def respawn_coordinator_def recovered_def cfg)
  have 2: "control_step (Go 0 T) (?s Recheck) = ?s Insert"
    using assms(2-4) by (simp add: control_step_def go_def respawn_coordinator_def recovered_def)
  let ?i = "(workflow_instance_new (wr_name r) (wr_kind r))\<lparr>in_invited := wr_expected_peers r, in_status := InProgress\<rparr>"
  have 3: "control_step (Go 0 T) (?s Insert) = (?s (Spawn ?n))\<lparr>instances := map (\<lambda>(k, r). resumed k r) (enumerate 0 done_runs) @ [?i],
      registered := [0..<Suc ?n]\<rparr>"
    using free by (simp add: control_step_def go_def respawn_coordinator_def recovered_def registry_put_def registry_get_def workflow_instance_new_def)
  have 4: "control_step (Go 0 T) \<dots> = (?s (Handle ?n (Suc ?n)))\<lparr>instances := map (\<lambda>(k, r). resumed k r) (enumerate 0 done_runs) @ [?i],
      registered := [0..<Suc ?n],
      threads := Resuming r (Some rs) (Handle ?n (Suc ?n)) # map (\<lambda>k. Task k True Driving False) [0..<Suc ?n]\<rparr>"
    by (simp add: control_step_def go_def respawn_coordinator_def recovered_def Let_def)
  have 5: "control_step (Go 0 T) \<dots> = recovered c (done_runs @ [r]) (recover_next rs)"
    by (simp add: control_step_def go_def respawn_coordinator_def recovered_def resume_end_def enumerate_snoc resumed_def
        nth_append list_update_append)
  have "(5 :: nat) = Suc (Suc (Suc (Suc (Suc 0))))" by simp
  then show ?thesis by (simp only: funpow.simps o_apply id_apply 1 2 3 4 5)
qed

lemma recover_all:
  assumes "\<forall>r \<in> set rs. wr_role r = Coordinator \<longrightarrow> resumable T r \<and> (\<exists>q. get_workflow_run (wr_name r) (rows c) = Some q \<and> wr_status q = InProgress)"
    and "tu_loaded T" "distinct (map wr_name (done_runs @ rs))"
  shows "(control_step (Go 0 T) ^^ (5 * length (filter (\<lambda>r. wr_role r = Coordinator) rs))) (recovered c done_runs (recover_next rs)) =
    recovered c (done_runs @ filter (\<lambda>r. wr_role r = Coordinator) rs) (Finished 0)"
  using assms
proof (induction rs arbitrary: done_runs)
  case (Cons r rs)
  show ?case
  proof (cases "wr_role r = Coordinator")
    case True
    then obtain q where q: "get_workflow_run (wr_name r) (rows c) = Some q" "wr_status q = InProgress" and ok: "resumable T r"
      using Cons.prems(1) by auto
    have "wr_name r \<notin> set (map wr_name done_runs)" using Cons.prems(3) by auto
    note one = recover_one [OF ok Cons.prems(2) q this, of rs]
    let ?k = "5 * length (filter (\<lambda>r. wr_role r = Coordinator) rs)"
    have "(control_step (Go 0 T) ^^ (?k + 5)) (recovered c done_runs (recover_next (r # rs))) =
        (control_step (Go 0 T) ^^ ?k) (recovered c (done_runs @ [r]) (recover_next rs))"
      using True one by (simp add: funpow_add)
    also have "\<dots> = recovered c ((done_runs @ [r]) @ filter (\<lambda>r. wr_role r = Coordinator) rs) (Finished 0)"
      using Cons.prems by (intro Cons.IH) auto
    finally show ?thesis using True by (simp add: add.commute)
  next
    case False
    then show ?thesis using Cons by simp
  qed
qed simp

text \<open>C16: after a restart, recovery leaves exactly the coordinated runs that were in progress registered, in the order they
  were created, each with its peers, its status and a handle on its own new task; it changes no row.\<close>

theorem recovery_exact:
  assumes "distinct (map wr_name (workflow_runs (rows c)))" "tu_loaded T"
    and "\<forall>r \<in> set (workflow_runs (rows c)). wr_status r = InProgress \<and> wr_role r = Coordinator \<longrightarrow> resumable T r"
    and rs: "rs = filter (\<lambda>r. wr_role r = Coordinator) (get_in_progress_workflow_runs (rows c))"
  shows "(control_step (Go 0 T) ^^ (5 * length rs)) (control_step (Boot True) c) = recovered c rs (Finished 0)"
proof -
  let ?all = "get_in_progress_workflow_runs (rows c)"
  have boot: "control_step (Boot True) c = recovered c [] (recover_next ?all)" by (simp add: control_step_def recovered_def)
  have mem: "r \<in> set (workflow_runs (rows c)) \<and> wr_status r = InProgress" if "r \<in> set ?all" for r
    using that by (simp add: get_in_progress_workflow_runs_def)
  have get: "get_workflow_run (wr_name r) (rows c) = Some r" if "r \<in> set (workflow_runs (rows c))" for r
  proof -
    have "r \<in> set xs \<Longrightarrow> distinct (map wr_name xs) \<Longrightarrow> find (\<lambda>q. wr_name q = wr_name r) xs = Some r" for xs
      by (induction xs) (auto simp: rev_image_eqI)
    from this [OF that assms(1)] show ?thesis by (simp add: get_workflow_run_def)
  qed
  have "distinct (map wr_name (filter (\<lambda>r. wr_status r = InProgress) (workflow_runs (rows c))))"
    using assms(1) by (simp add: distinct_map inj_on_def)
  then have "distinct (map wr_name ?all)"
    by (simp add: get_in_progress_workflow_runs_def distinct_map)
  then show ?thesis
    unfolding boot rs using recover_all [of ?all T c "[]"] assms(2,3) mem get by auto
qed

section \<open>Histories that go wrong\<close>

definition one_row :: "workflow_run \<Rightarrow> store" where
  "one_row r = \<lparr>workflow_runs = [r], artifacts = (\<lambda>_. Map.empty), purging = False\<rparr>"

definition go_on :: "turn \<Rightarrow> nat list \<Rightarrow> control \<Rightarrow> control" where
  "go_on T ts c = fold (\<lambda>t. control_step (Go t T)) ts c"

lemma arises_go_on: "arises c0 c \<Longrightarrow> arises c0 (go_on T ts c)"
  unfolding go_on_def by (induction ts arbitrary: c) (auto intro: arises_step)

lemmas arises_intros = arises_go_on arises_step arises_refl

lemmas step_defs = control_step_def go_def serve_def recovering_def go_on_def respawn_coordinator_def resume_end_def registry_put_def registry_get_def
  registry_drop_def workflow_instance_new_def one_row_def node_new_def get_workflow_run_def transact_def

text \<open>A cancel that is answered as done can be undone by a retry under way.  The retry has just checked that the
  row is in progress; no instance is registered, so the cancel of the kind goes to the row, marks it Cancelled, tells the peers and
  answers 200; then the retry registers the run and starts its task, which drives a run whose row says Cancelled.\<close>

theorem cancelled_run_resumed:
  assumes "wr_role r = Coordinator" "wr_status r = Failed" "resumable T r" "tu_db T = Committed" "tu_loaded T"
  shows "\<exists>c. c = go_on T [1, 1, 1, 0, 0] (control_step (CancelByKind None (wr_kind r)) (go_on T [0, 0, 0, 0, 0]
      (control_step (Retry None True (wr_name r)) (node_new (one_row r))))) \<and> arises (node_new (one_row r)) c \<and>
    threads c ! 1 = Finished 200 \<and> map wr_status (workflow_runs (rows c)) = [Cancelled] \<and>
    threads c ! 2 = Task 0 True Driving False \<and> in_name (instances c ! 0) = wr_name r"
proof -
  obtain cfg where cfg: "Option.bind (json_parse (tu_json T) (wr_config_json r)) (parse_stored_config (tu_hex T) (wr_kind r)) = Some cfg"
    using assms(3) by (auto simp: resumable_def)
  show ?thesis
    by (intro exI conjI, rule refl, intro arises_intros, insert assms(1,2,4,5))
      (simp_all add: step_defs retry_workflow_def retry_flip_def retry_reload_def retry_send_def set_workflow_run_status_def cfg
        cancel_workflow_state_def pick_coordinator_run_def cancel_row_def cancel_row_send_def cancel_row_mark_def get_active_workflow_run_def
        finish_run_row_def finish_workflow_run_row_def Let_def)
qed

text \<open>A retry between the last write of a failing task and the end of that task is answered as done and lost.  The row goes back to
  in progress, the resume finds the old instance still registered and gives up, the old task ends: nothing runs, nothing is registered,
  and the row blocks its party until the node restarts.\<close>

theorem retry_lost:
  assumes "wr_role r = Coordinator" "wr_status r = InProgress" "resumable T r" "tu_db T = Committed" "tu_loaded T" "tu_result T = EndErr e"
    and "wr_dec_party_id r = Some party" "la_loaded E"
  shows "\<exists>c. c = go_on T [2, 2, 2, 2, 2, 2, 1] (control_step (Retry None True (wr_name r)) (go_on T [0, 0, 0, 0, 0, 1, 1, 1]
      (control_step (Boot True) (node_new (one_row r))))) \<and> arises (node_new (one_row r)) c \<and>
    threads c = [Finished 0, Finished 0, Finished 200] \<and> registered c = [] \<and>
    ensure_party_free E party (rows c) = Inl (PartyBusy (wr_name r) (wr_kind r))"
proof -
  obtain cfg where cfg: "Option.bind (json_parse (tu_json T) (wr_config_json r)) (parse_stored_config (tu_hex T) (wr_kind r)) = Some cfg"
    using assms(3) by (auto simp: resumable_def)
  show ?thesis
    by (intro exI conjI, rule refl, intro arises_intros, insert assms(1,2,4-8))
      (simp_all add: step_defs get_in_progress_workflow_runs_def task_step_def retry_workflow_def retry_flip_def retry_reload_def retry_send_def
        set_workflow_run_status_def cfg mark_ended_def status_ended_def finish_run_row_def finish_workflow_run_row_def Let_def
        ensure_party_free_def find_inprogress_run_for_party_def)
qed

text \<open>A resumed run reports that it has finished while its party is still blocked: the status in memory is written before the
  row, so that a caller who sees Completed and starts the next workflow for the party is refused.\<close>

theorem status_ahead_of_row:
  assumes "wr_role r = Coordinator" "wr_status r = InProgress" "resumable T r" "tu_db T = Committed" "tu_loaded T" "tu_result T = EndOk"
    and "wr_dec_party_id r = Some party" "la_loaded E"
  shows "\<exists>c. c = go_on T [0, 0, 0, 0, 0, 1, 1] (control_step (Boot True) (node_new (one_row r))) \<and> arises (node_new (one_row r)) c \<and>
    kind_status True (wr_kind r) c = (Completed, None) \<and>
    ensure_party_free E party (rows c) = Inl (PartyBusy (wr_name r) (wr_kind r))"
proof -
  obtain cfg where cfg: "Option.bind (json_parse (tu_json T) (wr_config_json r)) (parse_stored_config (tu_hex T) (wr_kind r)) = Some cfg"
    using assms(3) by (auto simp: resumable_def)
  show ?thesis
    by (intro exI conjI, rule refl, intro arises_intros, insert assms(1,2,4-8))
      (simp_all add: step_defs get_in_progress_workflow_runs_def task_step_def cfg status_ended_def Let_def
        kind_status_def pick_coordinator_run_def ensure_party_free_def find_inprogress_run_for_party_def)
qed

text \<open>Two workflows can run on one party although every start refuses a party that has one in flight: the check and the row
  that makes it bite are separated by the probes of the peers.  Two starts decided on the same rows, under different names, both
  register, both write their row and both start their task.\<close>

theorem two_runs_one_party:
  assumes "decide_start E None q s = Inr pl" "decide_start F None q' s = Inr pl'" "pl_name pl \<noteq> pl_name pl'"
    and "pl_party pl = Some party" "pl_party pl' = Some party" "tu_db T = Committed" "\<not> purging s"
    and "\<forall>r \<in> set (workflow_runs s). wr_name r \<notin> {pl_name pl, pl_name pl'}"
  shows "\<exists>c. c = go_on T [0, 0, 0, 1, 1, 1] (control_step (Start F None q') (control_step (Start E None q) (node_new s))) \<and> arises (node_new s) c \<and>
    (\<exists>m m'. threads c = [Finished 202, Finished 202, Task 0 m (Inviting E pl) False, Task 1 m' (Inviting F pl') False]) \<and>
    (\<exists>r r'. workflow_runs (rows c) = workflow_runs s @ [r, r'] \<and> wr_name r \<noteq> wr_name r' \<and>
      {wr_status r, wr_status r'} = {InProgress} \<and> wr_dec_party_id r = Some party \<and> wr_dec_party_id r' = Some party)"
proof -
  let ?r = "coordinator_run T E pl" and ?r' = "coordinator_run T F pl'"
  have n: "wr_name ?r = pl_name pl" "wr_name ?r' = pl_name pl'" "wr_status ?r = InProgress" "wr_status ?r' = InProgress"
    by (simp_all add: coordinator_run_def)
  have u: "upsert_workflow_run ?r s = Some (s\<lparr>workflow_runs := workflow_runs s @ [?r]\<rparr>)"
    "upsert_workflow_run ?r' (s\<lparr>workflow_runs := workflow_runs s @ [?r]\<rparr>) = Some (s\<lparr>workflow_runs := workflow_runs s @ [?r, ?r']\<rparr>)"
    using assms(3,7,8) n by (auto simp: upsert_workflow_run_def)
  let ?c = "go_on T [0, 0, 0, 1, 1, 1] (control_step (Start F None q') (control_step (Start E None q) (node_new s)))"
  have t: "threads ?c = [Finished 202, Finished 202, Task 0 (status_first (pl_kind pl)) (Inviting E pl) False,
      Task 1 (status_first (pl_kind pl')) (Inviting F pl') False]" and w: "workflow_runs (rows ?c) = workflow_runs s @ [?r, ?r']"
    using assms(1-6) n u
    by (simp_all add: control_step_def go_def serve_def recovering_def go_on_def node_new_def handle_start_def register_run_def registry_put_def
        registry_get_def workflow_instance_new_def persist_run_def insert_coordinator_run_def transact_def spawn_run_def Let_def)
  have a: "arises (node_new s) ?c" by (intro arises_intros)
  have d: "wr_dec_party_id ?r = Some party" "wr_dec_party_id ?r' = Some party" using assms(4,5) by (simp_all add: coordinator_run_def)
  have f: "wr_name ?r \<noteq> wr_name ?r'" "{wr_status ?r, wr_status ?r'} = {InProgress}" using assms(3) n by simp_all
  show ?thesis using t w a d f by blast
qed

section \<open>The feed\<close>

text \<open>\<open>WorkflowRun\<close> as the feed shows it: the row, and what is lifted from its configuration.\<close>

record card =
  ca_run :: workflow_run
  ca_coordinator_name :: "string option"
  ca_prefix :: "string option"
  ca_participants :: "canton_id list"
  ca_previous_threshold :: "int option"
  ca_new_threshold :: "int option"
  ca_kicked :: "canton_id option"
  ca_added :: "canton_id option"
  ca_package_names :: "string list"
  ca_dar_filenames :: "string list"

definition card_of_run :: "workflow_run \<Rightarrow> card" where
  "card_of_run r = \<lparr>ca_run = r, ca_coordinator_name = None, ca_prefix = None, ca_participants = [], ca_previous_threshold = None,
     ca_new_threshold = None, ca_kicked = None, ca_added = None, ca_package_names = [], ca_dar_filenames = []\<rparr>"

text \<open>\<open>ConfigShape\<close>: every field optional, whatever the kind.\<close>

record config_shape =
  sh_prefix :: "string option"
  sh_party_id_prefix :: "string option"
  sh_participants :: "canton_id list"
  sh_new_threshold :: "int option"
  sh_previous_threshold :: "int option"
  sh_threshold :: "int option"
  sh_participant_id :: "canton_id option"
  sh_new_participant_id :: "canton_id option"
  sh_party :: "canton_id option"
  sh_package_names :: "string list"
  sh_contracts :: "string list"
  sh_dar_filenames :: "string list"
  sh_dar_files :: "string list"

definition named_shape :: "string \<Rightarrow> json \<Rightarrow> string option" where
  "named_shape k j = (case j of JObj kvs \<Rightarrow> u_default k u_str [] kvs | _ \<Rightarrow> None)"

definition config_shape_from :: "hexlib \<Rightarrow> json \<Rightarrow> config_shape option" where
  "config_shape_from H j = (case j of JObj kvs \<Rightarrow>
     Option.bind (u_default ''prefix'' (u_option u_str) None kvs) (\<lambda>p.
     Option.bind (u_default ''party_id_prefix'' (u_option u_str) None kvs) (\<lambda>q.
     Option.bind (u_default ''participants'' (u_list (u_id H)) [] kvs) (\<lambda>ps.
     Option.bind (u_default ''new_threshold'' (u_option u_i32) None kvs) (\<lambda>nt.
     Option.bind (u_default ''previous_threshold'' (u_option u_i32) None kvs) (\<lambda>pt.
     Option.bind (u_default ''threshold'' (u_option u_i32) None kvs) (\<lambda>t.
     Option.bind (u_default ''participant_id'' (u_option (u_id H)) None kvs) (\<lambda>k.
     Option.bind (u_default ''new_participant_id'' (u_option (u_id H)) None kvs) (\<lambda>n.
     Option.bind (u_default ''decentralized_party_id'' (u_option (u_id H)) None kvs) (\<lambda>d.
     Option.bind (u_default ''package_names'' (u_list u_str) [] kvs) (\<lambda>pk.
     Option.bind (u_default ''contracts'' (u_list (named_shape ''name'')) [] kvs) (\<lambda>cs.
     Option.bind (u_default ''dar_filenames'' (u_list u_str) [] kvs) (\<lambda>dn.
     Option.bind (u_default ''dar_files'' (u_list (named_shape ''filename'')) [] kvs) (\<lambda>df.
       Some \<lparr>sh_prefix = p, sh_party_id_prefix = q, sh_participants = ps, sh_new_threshold = nt, sh_previous_threshold = pt,
         sh_threshold = t, sh_participant_id = k, sh_new_participant_id = n, sh_party = d, sh_package_names = pk, sh_contracts = cs,
         sh_dar_filenames = dn, sh_dar_files = df\<rparr>)))))))))))))
   | _ \<Rightarrow> None)"

definition or_opt :: "'a option \<Rightarrow> 'a option \<Rightarrow> 'a option" where
  "or_opt x y = (case x of None \<Rightarrow> y | Some _ \<Rightarrow> x)"

definition lift_shape :: "config_shape \<Rightarrow> card \<Rightarrow> card" where
  "lift_shape sh r = r\<lparr>
     ca_prefix := (case or_opt (sh_prefix sh) (or_opt (sh_party_id_prefix sh) (map_option prefix (sh_party sh))) of
       Some p \<Rightarrow> if p \<noteq> [] then Some p else ca_prefix r | None \<Rightarrow> ca_prefix r),
     ca_participants := (if sh_participants sh \<noteq> [] then sh_participants sh else ca_participants r),
     ca_new_threshold := or_opt (sh_new_threshold sh) (sh_threshold sh),
     ca_previous_threshold := (case sh_previous_threshold sh of Some t \<Rightarrow> if t > 0 then Some t else None | None \<Rightarrow> None),
     ca_kicked := sh_participant_id sh,
     ca_added := sh_new_participant_id sh,
     ca_package_names := (if sh_package_names sh \<noteq> [] then sh_package_names sh
       else if sh_contracts sh \<noteq> [] then filter (\<lambda>n. n \<noteq> []) (sh_contracts sh) else ca_package_names r),
     ca_dar_filenames := (if sh_dar_filenames sh \<noteq> [] then sh_dar_filenames sh
       else if sh_dar_files sh \<noteq> [] then filter (\<lambda>n. n \<noteq> []) (sh_dar_files sh) else ca_dar_filenames r)\<rparr>"

definition enrich_from_config_json :: "hexlib \<Rightarrow> jsonlib \<Rightarrow> card \<Rightarrow> card" where
  "enrich_from_config_json H J r =
     (let r1 = (case Option.bind (json_parse J (wr_config_json (ca_run r))) (config_shape_from H) of
          None \<Rightarrow> r | Some sh \<Rightarrow> lift_shape sh r) in
      if ca_participants r1 = [] \<and> wr_expected_peers (ca_run r1) \<noteq> [] then r1\<lparr>ca_participants := wr_expected_peers (ca_run r1)\<rparr> else r1)"

definition list_workflows :: "hexlib \<Rightarrow> jsonlib \<Rightarrow> (string \<times> string) list \<Rightarrow> store \<Rightarrow> card list" where
  "list_workflows H J names s = map (\<lambda>r. enrich_from_config_json H J
     ((card_of_run r)\<lparr>ca_coordinator_name := Option.bind (wr_coordinator_pubkey r) (map_of (rev names))\<rparr>)) (get_visible_workflow_runs s)"

text \<open>What an operator should read off the card of a run, from its configuration.\<close>

definition card_of_config :: "stored_config \<Rightarrow> workflow_run \<Rightarrow> card" where
  "card_of_config c r = (let base = (card_of_run r)\<lparr>ca_participants := wr_expected_peers r\<rparr>; named = (\<lambda>p. if p \<noteq> [] then Some p else None);
       shown = (\<lambda>t. if t > 0 then Some t else None) in case c of
     OnboardingStored d \<Rightarrow> base\<lparr>ca_prefix := named (oc_prefix d), ca_new_threshold := oc_threshold d\<rparr>
   | KickStored d \<Rightarrow> base\<lparr>ca_prefix := named (prefix (kc_party d)), ca_new_threshold := Some (kc_new_threshold d),
       ca_previous_threshold := shown (kc_previous_threshold d), ca_kicked := Some (kc_participant d)\<rparr>
   | ContractsStored d \<Rightarrow> base\<lparr>ca_prefix := named (prefix (cc_party d)),
       ca_package_names := filter (\<lambda>n. n \<noteq> []) (map cd_name (cc_contracts d))\<rparr>
   | DarsStored d \<Rightarrow> base\<lparr>ca_dar_filenames := filter (\<lambda>n. n \<noteq> []) (map fst (dc_files d))\<rparr>
   | AddPartyStored d \<Rightarrow> base\<lparr>ca_prefix := named (prefix (ac_party d)), ca_new_threshold := Some (ac_new_threshold d),
       ca_previous_threshold := shown (ac_previous_threshold d), ca_added := Some (ac_new_participant d)\<rparr>
   | ChangeThresholdStored d \<Rightarrow> base\<lparr>ca_prefix := named (prefix (tc_party d)), ca_new_threshold := Some (tc_new_threshold d),
       ca_previous_threshold := shown (tc_previous_threshold d)\<rparr>)"

context hex_codec
begin

lemma u_option_id: "parsed_id H i \<Longrightarrow> u_option (u_id H) (j_id H i) = Some (Some i)"
  using u_id_j_id [of i] by (cases "j_id H i") (auto simp: u_option_def j_id_def)

lemma named_list: "(\<And>x. x \<in> set xs \<Longrightarrow> named_shape k (g x) = Some (f x)) \<Longrightarrow> u_list (named_shape k) (j_list g xs) = Some (map f xs)"
  by (induction xs) (auto simp: u_list_def j_list_def)

lemma card_shows_config:
  assumes "typed_config H c" "json_parse J (wr_config_json r) = Some (stored_config_json H c)"
  shows "enrich_from_config_json H J (card_of_run r) = card_of_config c r"
proof -
  note read = u_default_def u_field_def u_option_id u_option_i32_j u_option_num u_option_str
  note lift = enrich_from_config_json_def card_of_config_def lift_shape_def or_opt_def card_of_run_def Let_def config_shape_from_def
    typed_config_def stored_config_json_def assms(2)
  show ?thesis
  proof (cases c)
    case (OnboardingStored d)
    then show ?thesis using assms(1) by (simp add: lift onboarding_config_json_def read)
  next
    case (KickStored d)
    then show ?thesis using assms(1) by (simp add: lift kick_config_json_def read)
  next
    case (ContractsStored d)
    have "u_list (named_shape ''name'') (j_list contract_definition_json (cc_contracts d)) = Some (map cd_name (cc_contracts d))"
      by (rule named_list) (simp add: named_shape_def contract_definition_json_def read u_str_def)
    then show ?thesis using assms(1) ContractsStored
      by (cases "cc_committed d") (simp_all add: lift contracts_config_json_def read)
  next
    case (DarsStored d)
    have "u_list (named_shape ''filename'') (j_list (\<lambda>(f, d). JObj [(''filename'', JStr f), (''data'', JStr d)]) (dc_files d)) = Some (map fst (dc_files d))"
      by (rule named_list) (auto simp: named_shape_def read u_str_def)
    then show ?thesis using assms(1) DarsStored by (simp add: lift dars_config_json_def read)
  next
    case (AddPartyStored d)
    then show ?thesis using assms(1) by (simp add: lift add_party_config_json_def read)
  next
    case (ChangeThresholdStored d)
    then show ?thesis using assms(1) by (simp add: lift change_threshold_config_json_def read)
  qed
qed

end

text \<open>The card of a run in the feed says what the run was configured to do: for each kind the prefix,
  the participants, the thresholds (a previous threshold of 0 is not shown), who leaves or joins, the packages and the files.\<close>

theorem feed_shows_config:
  assumes "hex_codec H" "r \<in> set (get_visible_workflow_runs s)" "wr_coordinator_pubkey r = None" "typed_config H c"
    and "json_parse J (wr_config_json r) = Some (stored_config_json H c)"
  shows "card_of_config c r \<in> set (list_workflows H J names s)"
proof -
  have "enrich_from_config_json H J ((card_of_run r)\<lparr>ca_coordinator_name := Option.bind (wr_coordinator_pubkey r) (map_of (rev names))\<rparr>) =
      card_of_config c r"
    using hex_codec.card_shows_config [OF assms(1,4,5)] assms(3) by (simp add: card_of_run_def)
  then show ?thesis using assms(2) unfolding list_workflows_def by (metis (no_types, lifting) image_eqI list.set_map)
qed

section \<open>Witnesses\<close>

definition example_config :: stored_config where
  "example_config = KickStored \<lparr>kc_party = ex_party, kc_participant = example_peer ''b'', kc_fingerprint = ''1220'', kc_new_threshold = 2,
     kc_confirmation = None, kc_previous_threshold = 3, kc_instance = ''p-kick-7''\<rparr>"

definition stored_json :: jsonlib where
  "stored_json = \<lparr>json_print = (\<lambda>_. []), json_parse = (\<lambda>_. Some (stored_config_json std_hex example_config))\<rparr>"

definition kick_run :: "workflow_progress \<Rightarrow> workflow_run" where
  "kick_run st = \<lparr>wr_name = ''p-kick-7'', wr_kind = Kick, wr_role = Coordinator, wr_status = st, wr_step = ''SignProposals'', wr_index = 2,
     wr_total = 5, wr_config_json = [], wr_coordinator_pubkey = None, wr_coordinator_instance = None, wr_expected_peers = [example_peer ''a''],
     wr_completed_peers = [], wr_dec_party_id = Some ex_party, wr_error = None, wr_dismissed = False, wr_created_at = 7, wr_updated_at = 7\<rparr>"

definition example_turn :: "ending \<Rightarrow> turn" where
  "example_turn e = \<lparr>tu_db = Committed, tu_loaded = True, tu_now = 9, tu_result = e, tu_peers = Inr example_table, tu_keypair = True,
     tu_key_ok = (\<lambda>_. True), tu_hex = std_hex, tu_json = stored_json\<rparr>"

lemma kick_run_sel [simp]: "wr_role (kick_run st) = Coordinator" "wr_status (kick_run st) = st" "wr_kind (kick_run st) = Kick"
  "wr_dec_party_id (kick_run st) = Some ex_party" "wr_name (kick_run st) = ''p-kick-7''" "wr_coordinator_pubkey (kick_run st) = None"
  by (simp_all add: kick_run_def)

lemma example_turn_sel [simp]: "tu_db (example_turn e) = Committed" "tu_loaded (example_turn e)" "tu_result (example_turn e) = e"
  "tu_hex (example_turn e) = std_hex" "tu_json (example_turn e) = stored_json"
  by (simp_all add: example_turn_def)

lemma example_typed: "typed_config std_hex example_config"
  using party_parsed example_id [of "CHR ''b''"] by (auto simp: typed_config_def example_config_def parsed_id_def i32_range_def)

lemma example_resumable: "resumable (example_turn e) (kick_run st)"
  using std.stored_readback [OF example_typed] by (simp add: resumable_def stored_json_def example_config_def kind_of_config_def)


theorem recovery_exact_witness:
  "(control_step (Go 0 (example_turn EndOk)) ^^ 5) (control_step (Boot True) (node_new (one_row (kick_run InProgress)))) =
    recovered (node_new (one_row (kick_run InProgress))) [kick_run InProgress] (Finished 0)"
proof -
  let ?c = "node_new (one_row (kick_run InProgress))"
  have "distinct (map wr_name (workflow_runs (rows ?c)))"
    "\<forall>r \<in> set (workflow_runs (rows ?c)). wr_status r = InProgress \<and> wr_role r = Coordinator \<longrightarrow> resumable (example_turn EndOk) r"
    "[kick_run InProgress] = filter (\<lambda>r. wr_role r = Coordinator) (get_in_progress_workflow_runs (rows ?c))"
    by (simp_all add: node_new_def one_row_def get_in_progress_workflow_runs_def example_resumable)
  from recovery_exact [OF this(1) example_turn_sel(2) this(2,3)] have "(control_step (Go 0 (example_turn EndOk)) ^^ (5 * length [kick_run InProgress]))
      (control_step (Boot True) ?c) = recovered ?c [kick_run InProgress] (Finished 0)" .
  moreover have "5 * length [kick_run InProgress] = 5" by simp
  ultimately show ?thesis by simp
qed

theorem cancelled_run_resumed_witness:
  "\<exists>c. arises (node_new (one_row (kick_run Failed))) c \<and> threads c ! 1 = Finished 200 \<and>
    map wr_status (workflow_runs (rows c)) = [Cancelled] \<and> threads c ! 2 = Task 0 True Driving False"
proof -
  note resumed = cancelled_run_resumed [OF kick_run_sel(1,2) example_resumable example_turn_sel(1,2), where e1 = EndOk]
  show ?thesis by (rule exE [OF resumed]) (elim conjE, intro exI conjI, assumption+)
qed

theorem retry_lost_witness:
  "\<exists>c. arises (node_new (one_row (kick_run InProgress))) c \<and> threads c = [Finished 0, Finished 0, Finished 200] \<and> registered c = [] \<and>
    ensure_party_free example_launch ex_party (rows c) = Inl (PartyBusy ''p-kick-7'' Kick)"
  using retry_lost [of "kick_run InProgress" "example_turn (EndErr [])" "[]" ex_party example_launch, OF _ _ example_resumable]
  by (simp only: kick_run_sel example_turn_sel example_launch_sel) blast

theorem status_ahead_of_row_witness:
  "\<exists>c. arises (node_new (one_row (kick_run InProgress))) c \<and> kind_status True Kick c = (Completed, None) \<and>
    ensure_party_free example_launch ex_party (rows c) = Inl (PartyBusy ''p-kick-7'' Kick)"
  using status_ahead_of_row [of "kick_run InProgress" "example_turn EndOk" ex_party example_launch, OF _ _ example_resumable]
  by (simp only: kick_run_sel example_turn_sel example_launch_sel) blast

theorem feed_shows_config_witness:
  "card_of_config example_config (kick_run InProgress) \<in> set (list_workflows std_hex stored_json [] (one_row (kick_run InProgress)))"
  by (rule feed_shows_config [OF std.hex_codec_axioms _ _ example_typed])
    (simp_all add: get_visible_workflow_runs_def one_row_def stored_json_def)

subsection \<open>Two starts\<close>

definition no_rows :: store where
  "no_rows = \<lparr>workflow_runs = [], artifacts = (\<lambda>_. Map.empty), purging = False\<rparr>"

lemma example_decided:
  "\<exists>pl. decide_start (example_launch\<lparr>la_now := n\<rparr>) None (StartKick example_kick) no_rows = Inr pl \<and> pl_name pl = ''p-kick-'' @ i64_str n \<and>
    pl_party pl = Some ex_party"
proof -
  have "probe_verdict (example_launch\<lparr>la_now := n\<rparr>) p = None" for p
    using example_verdict [of p] by (simp add: probe_verdict_def Let_def split: option.splits)
  then have "ensure_compatible (example_launch\<lparr>la_now := n\<rparr>) 1 ids = Inr ()" for ids
    by (simp add: ensure_compatible_def preflight_clear)
  moreover have "cached_confirmation_threshold (example_launch\<lparr>la_now := n\<rparr>) p k = Inr None" for p k
    by (simp add: cached_confirmation_threshold_def)
  ultimately show ?thesis
    by (simp add: decide_start_def start_kick_def admin_gate_def example_kick_def example_members [simplified] example_table_def Let_def
        party_member_count_def ensure_party_free_def find_inprogress_run_for_party_def get_in_progress_workflow_runs_def no_rows_def
        ex_party_def plan_of_def)
qed

theorem two_runs_one_party_witness:
  "\<exists>c r r'. arises (node_new no_rows) c \<and> workflow_runs (rows c) = [r, r'] \<and> wr_name r \<noteq> wr_name r' \<and>
    wr_dec_party_id r = Some ex_party \<and> wr_dec_party_id r' = Some ex_party"
proof -
  obtain pl pl' where p: "decide_start (example_launch\<lparr>la_now := 7\<rparr>) None (StartKick example_kick) no_rows = Inr pl"
      "decide_start (example_launch\<lparr>la_now := 8\<rparr>) None (StartKick example_kick) no_rows = Inr pl'"
    and n: "pl_name pl = ''p-kick-'' @ i64_str 7" "pl_name pl' = ''p-kick-'' @ i64_str 8" and q: "pl_party pl = Some ex_party" "pl_party pl' = Some ex_party"
    using example_decided [of 7] example_decided [of 8] by metis
  have "i64_str 7 = ''7''" "i64_str 8 = ''8''" by code_simp+
  then have "pl_name pl \<noteq> pl_name pl'" using n by simp
  moreover have "\<not> purging no_rows" "\<forall>r \<in> set (workflow_runs no_rows). wr_name r \<notin> {pl_name pl, pl_name pl'}" by (simp_all add: no_rows_def)
  ultimately obtain c r r' where
    "arises (node_new no_rows) c" "workflow_runs (rows c) = workflow_runs no_rows @ [r, r']" "wr_name r \<noteq> wr_name r'"
    "wr_dec_party_id r = Some ex_party" "wr_dec_party_id r' = Some ex_party"
    using two_runs_one_party [OF p _ q example_turn_sel(1) [of EndOk]] by blast
  then show ?thesis by (auto simp: no_rows_def)
qed

subsection \<open>Histories in general\<close>

definition cancelling :: control where
  "cancelling = go_on (example_turn EndOk) [2, 2] (control_step (CancelByKind None Kick) (go_on (example_turn EndOk) [0, 0, 0, 0, 0]
     (control_step (Boot True) (node_new (one_row (kick_run InProgress))))))"

lemma cancelling_arises: "arises (node_new (one_row (kick_run InProgress))) cancelling"
  unfolding cancelling_def by (intro arises_intros)

lemma cancelling_threads:
  "threads cancelling = [Finished 0, Task 0 True Driving False, CancelPersist 0 1] \<and> in_name (instances cancelling ! 0) = ''p-kick-7'' \<and>
    registered cancelling = [0]"
proof -
  obtain cfg where "Option.bind (json_parse stored_json (wr_config_json (kick_run InProgress))) (parse_stored_config std_hex Kick) = Some cfg"
    using example_resumable [of EndOk InProgress] by (auto simp: resumable_def)
  then show ?thesis
    by (simp add: cancelling_def step_defs get_in_progress_workflow_runs_def cancel_workflow_state_def pick_coordinator_run_def
        cancel_check_def cancel_take_def Let_def)
qed


theorem cancel_outcomes_witness:
  "\<exists>c'. c' = control_step (Go 2 (example_turn EndOk)) cancelling \<and>
    (threads c' ! 2 = Finished 500 \<or> threads c' ! 2 = Finished 200 \<or> threads c' ! 2 = CancelAbort 0 1)"
  using cancel_outcomes [OF cancelling_arises, of 2 0 1 _ "example_turn EndOk", OF _ _ refl refl] cancelling_threads by auto

theorem terminal_status_stays_witness:
  "\<exists>r. get_workflow_run ''p-kick-7'' (rows (control_step (Boot True) (node_new (one_row (kick_run Cancelled))))) = Some r \<and> wr_status r = Cancelled"
  using terminal_status_stays [of "''p-kick-7''" "node_new (one_row (kick_run Cancelled))" "kick_run Cancelled" "Boot True"]
  by (simp add: node_new_def one_row_def get_workflow_run_def)

end
