(* ===== verification/Token_Validation.thy ===== *)
theory Token_Validation
  imports Run_Store
begin

text \<open>
  Which bearer tokens this node accepts: \<open>auth/validators/jwt.rs\<close>, \<open>common.rs\<close>, \<open>mock.rs\<close> and \<open>auth/validator.rs\<close>, and the
  configuration types they read (\<open>config.rs\<close>).

  Parameters are the \<open>jsonwebtoken\<close> crate (\<open>decode_header\<close>, \<open>decode\<close>, the two constructors of \<open>DecodingKey\<close>), the base64 decoders,
  the URL library behind \<open>rewrite_authority\<close>, and what the identity provider answers over HTTP.  Everything the node does with
  them is modelled: which issuers are trusted, where keys are fetched from and how long they are kept, which algorithm is
  used, which claims are required, and which roles are read from them.

  Shown: an accepted token has been verified with a key that the discovery base of a trusted configuration of its issuer served
  less than \<open>JWKS_TTL\<close> ago, over every interleaving of validations with changes of the configuration; which roles a token carries;
  and which issuers are trusted.
\<close>

section \<open>Texts\<close>

definition trim_end_slashes :: "string \<Rightarrow> string" where
  "trim_end_slashes s = rev (dropWhile (\<lambda>c. c = CHR ''/'') (rev s))"

text \<open>\<open>str::split\<close> at a character.\<close>

fun split_char :: "char \<Rightarrow> string \<Rightarrow> string list" where
  "split_char d [] = [[]]"
| "split_char d (c # s) = (if c = d then [] # split_char d s
     else (case split_char d s of p # ps \<Rightarrow> (c # p) # ps | [] \<Rightarrow> [[c]]))"

text \<open>\<open>str::split_whitespace\<close>: a white space character ends a word, and empty words are skipped.\<close>

function words_from :: "string \<Rightarrow> string \<Rightarrow> string list" where
  "words_from w [] = (if w = [] then [] else [rev w])"
| "words_from w (c # s) = (case strip_one (map bytes_str white_space) (c # s) of
     Some r \<Rightarrow> (if w = [] then [] else [rev w]) @ words_from [] (if length r < length (c # s) then r else s)
   | None \<Rightarrow> words_from (c # w) s)"
  by pat_completeness auto
termination by (relation "measure (\<lambda>(_, s). length s)") auto

definition split_whitespace :: "string \<Rightarrow> string list" where
  "split_whitespace s = words_from [] s"

section \<open>Configuration\<close>

record keycloak_config =
  kc_url :: string
  kc_internal_url :: "string option"
  kc_realm :: string
  kc_client_id :: string
  kc_client_secret :: "string option"
  kc_username :: "string option"
  kc_password :: "string option"

definition keycloak_default :: keycloak_config where
  "keycloak_default = \<lparr>kc_url = '''', kc_internal_url = None, kc_realm = '''', kc_client_id = '''', kc_client_secret = None,
     kc_username = None, kc_password = None\<rparr>"

record auth0_config =
  a0_domain :: string
  a0_client_id :: string
  a0_audience :: "string option"
  a0_scope :: "string option"

record auth0_m2m_config =
  m2m_domain :: string
  m2m_audience :: string
  m2m_client_id :: string
  m2m_client_secret :: string

text \<open>\<open>PartyCredentials\<close>; its \<open>packages\<close> are not read here and always the default.\<close>

record party_credentials =
  pc_dec_party_id :: canton_id
  pc_member_party_id :: canton_id
  pc_user_id :: string
  pc_keycloak :: keycloak_config
  pc_auth0 :: "auth0_m2m_config option"

definition oidc_issuer_of :: "keycloak_config \<Rightarrow> string" where
  "oidc_issuer_of cfg = trim_end_slashes (kc_url cfg) @ ''/realms/'' @ kc_realm cfg"

definition non_empty :: "string option \<Rightarrow> string option" where
  "non_empty s = (case s of Some (c # cs) \<Rightarrow> Some (c # cs) | _ \<Rightarrow> None)"

definition oidc_discovery_base_of :: "keycloak_config \<Rightarrow> string" where
  "oidc_discovery_base_of cfg =
     (let base = (case non_empty (kc_internal_url cfg) of Some u \<Rightarrow> u | None \<Rightarrow> kc_url cfg) in
      trim_end_slashes base @ ''/realms/'' @ kc_realm cfg)"

definition auth0_issuer_of :: "string \<Rightarrow> string" where
  "auth0_issuer_of domain = ''https://'' @ trim_end_slashes domain"

section \<open>The provider's keys\<close>

datatype algorithm = HS256 | HS384 | HS512 | ES256 | ES384 | RS256 | RS384 | RS512 | PS256 | PS384 | PS512 | EdDSA

record 'k jwtlib =
  url_safe_no_pad :: "string \<Rightarrow> bytes option"
  standard_b64 :: "string \<Rightarrow> bytes option"
  decode_header :: "string \<Rightarrow> (string option \<times> algorithm) option"
  rsa_components :: "string \<Rightarrow> string \<Rightarrow> 'k option"
  ec_components :: "string \<Rightarrow> string \<Rightarrow> 'k option"
  decode_claims :: "string \<Rightarrow> 'k \<Rightarrow> algorithm \<Rightarrow> string list \<Rightarrow> nat \<Rightarrow> json option"
  set_authority :: "string \<Rightarrow> string \<Rightarrow> string option"
  parse_json :: "bytes \<Rightarrow> json option"

datatype validation_error =
    MissingToken
  | MalformedToken
  | UntrustedIssuer string
  | InactiveToken
  | DiscoveryFailed string
  | MissingRole string

text \<open>A derived \<open>Deserialize\<close> reads a struct from an object, or from an array of its fields in order.\<close>

definition struct_fields :: "string list \<Rightarrow> json \<Rightarrow> (string \<times> json) list option" where
  "struct_fields names j = (case j of JObj kvs \<Rightarrow> Some kvs
     | JArr js \<Rightarrow> if length js \<le> length names then Some (zip names js) else None
     | _ \<Rightarrow> None)"

record jwk =
  jwk_kid :: "string option"
  jwk_kty :: "string option"
  jwk_use :: "string option"
  jwk_alg :: "string option"
  jwk_n :: "string option"
  jwk_e :: "string option"
  jwk_crv :: "string option"
  jwk_x :: "string option"
  jwk_y :: "string option"

abbreviation opt_str :: "string \<Rightarrow> (string \<times> json) list \<Rightarrow> string option option" where
  "opt_str k kvs \<equiv> u_default k (u_option u_str) None kvs"

definition u_jwk :: "json \<Rightarrow> jwk option" where
  "u_jwk j = (if j = JArr [] then None else
     Option.bind (struct_fields [''kid'', ''kty'', ''use'', ''alg'', ''n'', ''e'', ''crv'', ''x'', ''y''] j) (\<lambda>kvs.
     Option.bind (opt_str ''kid'' kvs) (\<lambda>kid. Option.bind (opt_str ''kty'' kvs) (\<lambda>kty.
     Option.bind (opt_str ''use'' kvs) (\<lambda>us. Option.bind (opt_str ''alg'' kvs) (\<lambda>alg.
     Option.bind (opt_str ''n'' kvs) (\<lambda>n. Option.bind (opt_str ''e'' kvs) (\<lambda>e.
     Option.bind (opt_str ''crv'' kvs) (\<lambda>crv. Option.bind (opt_str ''x'' kvs) (\<lambda>x. Option.bind (opt_str ''y'' kvs) (\<lambda>y.
       Some \<lparr>jwk_kid = kid, jwk_kty = kty, jwk_use = us, jwk_alg = alg, jwk_n = n, jwk_e = e, jwk_crv = crv,
         jwk_x = x, jwk_y = y\<rparr>)))))))))))"

definition u_jwk_set :: "json \<Rightarrow> jwk list option" where
  "u_jwk_set j = Option.bind (struct_fields [''keys''] j) (u_required ''keys'' (u_list u_jwk))"

definition u_discovery :: "json \<Rightarrow> string option" where
  "u_discovery j = Option.bind (struct_fields [''jwks_uri''] j) (u_required ''jwks_uri'' u_str)"

definition resolve_algorithm :: "jwk \<Rightarrow> algorithm option" where
  "resolve_algorithm k = (case jwk_alg k of
     Some a \<Rightarrow> if a = ''RS256'' then Some RS256 else if a = ''RS384'' then Some RS384 else if a = ''RS512'' then Some RS512
       else if a = ''ES256'' then Some ES256 else if a = ''ES384'' then Some ES384
       else if a = ''PS256'' then Some PS256 else if a = ''PS384'' then Some PS384 else if a = ''PS512'' then Some PS512
       else if a = ''EdDSA'' then Some EdDSA else None
   | None \<Rightarrow> if jwk_kty k = Some ''RSA'' then Some RS256 else if jwk_kty k = Some ''EC'' then Some ES256 else None)"

definition decoding_key_from_jwk :: "'k jwtlib \<Rightarrow> jwk \<Rightarrow> 'k option" where
  "decoding_key_from_jwk L k = Option.bind (jwk_kty k) (\<lambda>kty.
     if kty = ''RSA'' then Option.bind (jwk_n k) (\<lambda>n. Option.bind (jwk_e k) (rsa_components L n))
     else if kty = ''EC'' then Option.bind (jwk_x k) (\<lambda>x. Option.bind (jwk_y k) (ec_components L x))
     else None)"

definition rewrite_authority :: "'k jwtlib \<Rightarrow> string \<Rightarrow> string \<Rightarrow> string" where
  "rewrite_authority L url source = (case set_authority L url source of Some u \<Rightarrow> u | None \<Rightarrow> url)"

record 'k key_entry =
  ke_key :: 'k
  ke_alg :: algorithm

text \<open>The entries of the document in order; a later entry with the same \<open>kid\<close> replaces an earlier one.\<close>

fun usable_keys :: "'k jwtlib \<Rightarrow> jwk list \<Rightarrow> (string \<rightharpoonup> 'k key_entry) \<Rightarrow> (string \<rightharpoonup> 'k key_entry)" where
  "usable_keys L [] keys = keys"
| "usable_keys L (k # ks) keys = usable_keys L ks
     (case jwk_kid k of None \<Rightarrow> keys
      | Some kid \<Rightarrow>
          if jwk_use k \<noteq> None \<and> jwk_use k \<noteq> Some ''sig'' then keys
          else (case resolve_algorithm k of None \<Rightarrow> keys
                | Some alg \<Rightarrow> (case decoding_key_from_jwk L k of None \<Rightarrow> keys
                    | Some key \<Rightarrow> keys(kid \<mapsto> \<lparr>ke_key = key, ke_alg = alg\<rparr>))))"

text \<open>What the provider answers to the two requests of one fetch: the body of a successful response, as JSON.\<close>

record net =
  net_discovery :: "string \<Rightarrow> json option"
  net_jwks :: "string \<Rightarrow> json option"

definition fetch_jwks :: "'k jwtlib \<Rightarrow> net \<Rightarrow> string \<Rightarrow> string \<Rightarrow> validation_error + (string \<rightharpoonup> 'k key_entry)" where
  "fetch_jwks L N discovery_base issuer =
     and_then (ok_or (DiscoveryFailed issuer)
       (Option.bind (net_discovery N (discovery_base @ ''/.well-known/openid-configuration'')) u_discovery)) (\<lambda>uri.
     and_then (ok_or (DiscoveryFailed issuer)
       (Option.bind (net_jwks N (rewrite_authority L uri discovery_base)) u_jwk_set)) (\<lambda>jwks.
     Inr (usable_keys L jwks Map.empty)))"

definition JWKS_TTL :: nat where "JWKS_TTL = 3600"

record 'k cached_jwks =
  cj_keys :: "string \<rightharpoonup> 'k key_entry"
  cj_expires_at :: nat

type_synonym 'k cache = "string \<rightharpoonup> 'k cached_jwks"

text \<open>\<open>resolve_key\<close> in two parts, because the cache is not locked while the provider is asked.\<close>

definition cached_key :: "'k cache \<Rightarrow> nat \<Rightarrow> string \<Rightarrow> string \<Rightarrow> 'k key_entry option" where
  "cached_key cache now issuer kid = (case cache issuer of None \<Rightarrow> None
     | Some entry \<Rightarrow> if now < cj_expires_at entry then cj_keys entry kid else None)"

definition store_keys :: "(string \<rightharpoonup> 'k key_entry) \<Rightarrow> string \<Rightarrow> string \<Rightarrow> nat \<Rightarrow> 'k cache \<Rightarrow>
    (validation_error + 'k key_entry) \<times> 'k cache" where
  "store_keys keys issuer kid now cache = (case keys kid of
     None \<Rightarrow> (Inl (DiscoveryFailed issuer), cache)
   | Some entry \<Rightarrow> (Inr entry, cache(issuer \<mapsto> \<lparr>cj_keys = keys, cj_expires_at = now + JWKS_TTL\<rparr>)))"

section \<open>Claims and roles\<close>

record principal =
  pr_sub :: string
  pr_issuer :: string
  pr_roles :: "string list"
  pr_email :: "string option"

record claims =
  cl_sub :: "string option"
  cl_email :: "string option"
  cl_azp :: "string option"
  cl_realm_access :: "string list option"
  cl_scope :: "string option"
  cl_roles :: "string list option"
  cl_additional :: "(string \<times> json) list"

definition u_realm_access :: "json \<Rightarrow> string list option" where
  "u_realm_access j = Option.bind (struct_fields [''roles''] j) (u_default ''roles'' (u_list u_str) [])"

definition typed_claims :: "string list" where
  "typed_claims = [''sub'', ''email'', ''azp'', ''realm_access'', ''scope'', ''roles'']"

definition u_claims :: "json \<Rightarrow> claims option" where
  "u_claims j = (case j of JObj kvs \<Rightarrow>
     Option.bind (opt_str ''sub'' kvs) (\<lambda>sub. Option.bind (opt_str ''email'' kvs) (\<lambda>email.
     Option.bind (opt_str ''azp'' kvs) (\<lambda>azp.
     Option.bind (u_default ''realm_access'' (u_option u_realm_access) None kvs) (\<lambda>ra.
     Option.bind (opt_str ''scope'' kvs) (\<lambda>scope.
     Option.bind (u_default ''roles'' (u_option (u_list u_str)) None kvs) (\<lambda>roles.
       Some \<lparr>cl_sub = sub, cl_email = email, cl_azp = azp, cl_realm_access = ra, cl_scope = scope, cl_roles = roles,
         cl_additional = filter (\<lambda>(k, _). k \<notin> set typed_claims) kvs\<rparr>))))))
   | _ \<Rightarrow> None)"

text \<open>Looking a key up in a \<open>serde_json\<close> map, where the last of several wins.\<close>

definition last_value :: "(string \<times> json) list \<Rightarrow> string \<Rightarrow> json option" where
  "last_value kvs k = map_of (rev kvs) k"

definition string_array :: "(string \<times> json) list \<Rightarrow> string \<Rightarrow> string list" where
  "string_array kvs k = (case Option.bind (last_value kvs k) (u_list u_str) of Some rs \<Rightarrow> rs | None \<Rightarrow> [])"

definition auth0_permission_roles :: "(string \<times> json) list \<Rightarrow> string list" where
  "auth0_permission_roles additional = string_array additional ''permissions''"

fun push_new :: "string list \<Rightarrow> string list \<Rightarrow> string list" where
  "push_new roles [] = roles"
| "push_new roles (r # rs) = push_new (if r \<in> set roles then roles else roles @ [r]) rs"

definition collect_roles :: "string list option \<Rightarrow> string list option \<Rightarrow> string option \<Rightarrow> string list" where
  "collect_roles realm_access flat_roles scope =
     (let roles = (case realm_access of Some r \<Rightarrow> r | None \<Rightarrow> []);
          roles = (case flat_roles of Some extra \<Rightarrow> push_new roles extra | None \<Rightarrow> roles) in
      case scope of Some s \<Rightarrow> push_new roles (split_whitespace s) | None \<Rightarrow> roles)"

section \<open>Validation\<close>

record validator =
  v_inbound :: "keycloak_config option"
  v_auth0 :: "auth0_config option"
  v_role_claim :: "string option"

definition jwt_validator :: "keycloak_config option \<Rightarrow> auth0_config option \<Rightarrow> string option \<Rightarrow> validator" where
  "jwt_validator inbound auth0 role_claim = \<lparr>v_inbound = inbound, v_auth0 = auth0, v_role_claim = non_empty role_claim\<rparr>"

record trusted_issuer =
  ti_client_id :: string
  ti_discovery_base :: string
  ti_is_auth0 :: bool

definition trusted_keycloak :: "keycloak_config \<Rightarrow> trusted_issuer" where
  "trusted_keycloak cfg = \<lparr>ti_client_id = kc_client_id cfg, ti_discovery_base = oidc_discovery_base_of cfg, ti_is_auth0 = False\<rparr>"

definition trusted_auth0 :: "string \<Rightarrow> string \<Rightarrow> trusted_issuer" where
  "trusted_auth0 client_id issuer = \<lparr>ti_client_id = client_id, ti_discovery_base = issuer, ti_is_auth0 = True\<rparr>"

fun find_party_issuer :: "party_credentials list \<Rightarrow> string \<Rightarrow> trusted_issuer option" where
  "find_party_issuer [] issuer = None"
| "find_party_issuer (p # ps) issuer =
     (case pc_auth0 p of
        Some a \<Rightarrow> if auth0_issuer_of (m2m_domain a) = issuer then Some (trusted_auth0 (m2m_client_id a) issuer)
                  else if oidc_issuer_of (pc_keycloak p) = issuer then Some (trusted_keycloak (pc_keycloak p))
                  else find_party_issuer ps issuer
      | None \<Rightarrow> if oidc_issuer_of (pc_keycloak p) = issuer then Some (trusted_keycloak (pc_keycloak p))
                else find_party_issuer ps issuer)"

definition find_trusted :: "validator \<Rightarrow> party_credentials list \<Rightarrow> string \<Rightarrow> trusted_issuer option" where
  "find_trusted V creds issuer =
     (if \<exists>cfg \<in> set_option (v_inbound V). oidc_issuer_of cfg = issuer then map_option trusted_keycloak (v_inbound V)
      else if \<exists>cfg \<in> set_option (v_auth0 V). auth0_issuer_of (a0_domain cfg) = issuer
        then map_option (\<lambda>cfg. trusted_auth0 (a0_client_id cfg) issuer) (v_auth0 V)
      else find_party_issuer creds issuer)"

definition extract_issuer :: "'k jwtlib \<Rightarrow> string \<Rightarrow> validation_error + string" where
  "extract_issuer L token = (case split_char CHR ''.'' token of
     header # body # _ \<Rightarrow>
       (let decoded = (case url_safe_no_pad L body of Some b \<Rightarrow> Some b
                       | None \<Rightarrow> standard_b64 L (body @ replicate ((4 - length body mod 4) mod 4) CHR ''='')) in
        and_then (ok_or MalformedToken decoded) (\<lambda>b.
        and_then (ok_or MalformedToken (parse_json L b)) (\<lambda>j.
        case j of JObj kvs \<Rightarrow> ok_or MalformedToken (map_option trim_end_slashes (Option.bind (last_value kvs ''iss'') u_str))
        | _ \<Rightarrow> Inl MalformedToken)))
   | _ \<Rightarrow> Inl MalformedToken)"

text \<open>A token on its way: routed to a trusted issuer, with the key it names.\<close>

record routed =
  ro_token :: string
  ro_issuer :: string
  ro_trusted :: trusted_issuer
  ro_kid :: string
  ro_alg :: algorithm

definition route_token :: "validator \<Rightarrow> 'k jwtlib \<Rightarrow> party_credentials list \<Rightarrow> string \<Rightarrow> validation_error + routed" where
  "route_token V L creds token =
     and_then (ensure (token \<noteq> []) MissingToken) (\<lambda>_.
     and_then (extract_issuer L token) (\<lambda>issuer.
     and_then (ok_or (UntrustedIssuer issuer) (find_trusted V creds issuer)) (\<lambda>trusted.
     and_then (ok_or MalformedToken (decode_header L token)) (\<lambda>(kid, alg).
     and_then (ok_or MalformedToken kid) (\<lambda>kid.
     Inr \<lparr>ro_token = token, ro_issuer = issuer, ro_trusted = trusted, ro_kid = kid, ro_alg = alg\<rparr>)))))"

definition roles_of :: "validator \<Rightarrow> bool \<Rightarrow> claims \<Rightarrow> string list" where
  "roles_of V is_auth0 c =
     (let flat = (case cl_roles c of Some rs \<Rightarrow> rs | None \<Rightarrow> []);
          flat = flat @ (case v_role_claim V of Some name \<Rightarrow> string_array (cl_additional c) name | None \<Rightarrow> []);
          flat = flat @ (if is_auth0 then auth0_permission_roles (cl_additional c) else []) in
      collect_roles (cl_realm_access c) (Some flat) (cl_scope c))"

definition verify_routed :: "validator \<Rightarrow> 'k jwtlib \<Rightarrow> routed \<Rightarrow> 'k key_entry \<Rightarrow> nat \<Rightarrow> validation_error + principal" where
  "verify_routed V L r entry now =
     and_then (ensure (ro_alg r = ke_alg entry) InactiveToken) (\<lambda>_.
     and_then (ok_or InactiveToken (Option.bind
       (decode_claims L (ro_token r) (ke_key entry) (ke_alg entry) [ro_issuer r, ro_issuer r @ ''/''] now) u_claims)) (\<lambda>c.
     and_then (ensure (cl_azp c = Some (ti_client_id (ro_trusted r))) InactiveToken) (\<lambda>_.
     Inr \<lparr>pr_sub = (case cl_sub c of Some s \<Rightarrow> s | None \<Rightarrow> []), pr_issuer = ro_issuer r,
          pr_roles = roles_of V (ti_is_auth0 (ro_trusted r)) c, pr_email = cl_email c\<rparr>)))"

text \<open>\<open>JwtValidator::validate\<close> with nothing in between.\<close>

definition jwt_validate :: "validator \<Rightarrow> 'k jwtlib \<Rightarrow> net \<Rightarrow> party_credentials list \<Rightarrow> 'k cache \<Rightarrow> nat \<Rightarrow> string \<Rightarrow>
    (validation_error + principal) \<times> 'k cache" where
  "jwt_validate V L N creds cache now token = (case route_token V L creds token of
     Inl e \<Rightarrow> (Inl e, cache)
   | Inr r \<Rightarrow> (case cached_key cache now (ro_issuer r) (ro_kid r) of
       Some entry \<Rightarrow> (verify_routed V L r entry now, cache)
     | None \<Rightarrow> (case fetch_jwks L N (ti_discovery_base (ro_trusted r)) (ro_issuer r) of
         Inl e \<Rightarrow> (Inl e, cache)
       | Inr keys \<Rightarrow> (case store_keys keys (ro_issuer r) (ro_kid r) now cache of
           (Inl e, cache') \<Rightarrow> (Inl e, cache')
         | (Inr entry, cache') \<Rightarrow> (verify_routed V L r entry now, cache')))))"

definition MOCK_USER_ID :: string where "MOCK_USER_ID = ''ledger-api-user''"

definition mock_validate :: "string \<Rightarrow> string \<Rightarrow> validation_error + principal" where
  "mock_validate admin_role token =
     Inr \<lparr>pr_sub = MOCK_USER_ID, pr_issuer = ''mock'', pr_roles = [admin_role], pr_email = None\<rparr>"

definition has_role :: "principal \<Rightarrow> string \<Rightarrow> bool" where
  "has_role p role = list_ex (\<lambda>r. r = role) (pr_roles p)"

definition principal_require_admin :: "principal \<Rightarrow> string \<Rightarrow> validation_error + unit" where
  "principal_require_admin p admin_role = (if has_role p admin_role then Inr () else Inl (MissingRole admin_role))"

section \<open>Facts about the texts\<close>

lemma trim_end_slashes_last: "s = trim_end_slashes t \<Longrightarrow> s = [] \<or> last s \<noteq> CHR ''/''"
  unfolding trim_end_slashes_def
  by (metis (mono_tags, lifting) hd_dropWhile last_rev rev_is_Nil_conv)

lemma trim_end_slashes_idem [simp]: "trim_end_slashes (trim_end_slashes s) = trim_end_slashes s"
  by (simp add: trim_end_slashes_def)

lemma push_new_set [simp]: "set (push_new roles rs) = set roles \<union> set rs"
  by (induction roles rs rule: push_new.induct) auto

lemma push_new_distinct: "distinct roles \<Longrightarrow> distinct (push_new roles rs)"
  by (induction roles rs rule: push_new.induct) auto

lemma strip_one_shorter:
  assumes "strip_one ws s = Some r" "\<forall>w \<in> set ws. w \<noteq> []"
  shows "length r < length s"
  using assms by (induction ws) (auto split: option.splits simp: strip_prefix_Some)

lemma words_from_non_empty: "x \<in> set (words_from w s) \<Longrightarrow> x \<noteq> []"
  by (induction w s rule: words_from.induct) (auto split: if_splits option.splits)

section \<open>Trusted issuers\<close>

text \<open>The configurations of the node and its parties, with the issuer each one stands for.\<close>

definition trusts :: "validator \<Rightarrow> party_credentials list \<Rightarrow> string \<Rightarrow> trusted_issuer \<Rightarrow> bool" where
  "trusts V creds issuer t \<longleftrightarrow>
     (\<exists>cfg. v_inbound V = Some cfg \<and> oidc_issuer_of cfg = issuer \<and> t = trusted_keycloak cfg)
   \<or> (\<exists>cfg. v_auth0 V = Some cfg \<and> auth0_issuer_of (a0_domain cfg) = issuer \<and> t = trusted_auth0 (a0_client_id cfg) issuer)
   \<or> (\<exists>p \<in> set creds. oidc_issuer_of (pc_keycloak p) = issuer \<and> t = trusted_keycloak (pc_keycloak p))
   \<or> (\<exists>p \<in> set creds. \<exists>a. pc_auth0 p = Some a \<and> auth0_issuer_of (m2m_domain a) = issuer
        \<and> t = trusted_auth0 (m2m_client_id a) issuer)"

lemma find_party_issuer_trusts: "find_party_issuer creds issuer = Some t \<Longrightarrow> trusts V creds issuer t"
  by (induction creds) (auto simp: trusts_def split: option.splits if_splits)

lemma find_party_issuer_None:
  "find_party_issuer creds issuer = None \<longleftrightarrow>
     (\<forall>p \<in> set creds. oidc_issuer_of (pc_keycloak p) \<noteq> issuer \<and>
        (\<forall>a. pc_auth0 p = Some a \<longrightarrow> auth0_issuer_of (m2m_domain a) \<noteq> issuer))"
  by (induction creds) (auto split: option.splits)

lemma find_trusted_trusts:
  assumes "find_trusted V creds issuer = Some t"
  shows "trusts V creds issuer t"
proof (cases "find_party_issuer creds issuer = Some t")
  case True
  then show ?thesis by (rule find_party_issuer_trusts)
next
  case False
  then show ?thesis
    using assms by (auto simp: find_trusted_def trusts_def split: if_splits)
qed

lemma find_trusted_None: "find_trusted V creds issuer = None \<longleftrightarrow> (\<forall>t. \<not> trusts V creds issuer t)"
proof
  assume n: "find_trusted V creds issuer = None"
  then have i: "\<forall>cfg \<in> set_option (v_inbound V). oidc_issuer_of cfg \<noteq> issuer"
    by (auto simp: find_trusted_def)
  then have a: "\<forall>cfg \<in> set_option (v_auth0 V). auth0_issuer_of (a0_domain cfg) \<noteq> issuer"
    using n by (auto simp: find_trusted_def)
  have "find_party_issuer creds issuer = None"
    using n i a by (simp add: find_trusted_def)
  then have "\<not> trusts V creds issuer t" for t
    using i a by (auto simp: trusts_def find_party_issuer_None)
  then show "\<forall>t. \<not> trusts V creds issuer t" ..
next
  assume "\<forall>t. \<not> trusts V creds issuer t"
  then show "find_trusted V creds issuer = None"
    by (meson find_trusted_trusts not_None_eq)
qed

lemma extract_issuer_trimmed:
  assumes "extract_issuer L token = Inr issuer"
  shows "trim_end_slashes issuer = issuer"
proof -
  have j: "(case j of JObj kvs \<Rightarrow> ok_or MalformedToken (map_option trim_end_slashes (Option.bind (last_value kvs ''iss'') u_str))
      | _ \<Rightarrow> Inl MalformedToken) = Inr issuer \<Longrightarrow> trim_end_slashes issuer = issuer" for j
    by (cases j) (auto simp: ok_or_Inr)
  show ?thesis
    using assms j unfolding extract_issuer_def Let_def by (auto simp: and_then_Inr_iff split: list.splits)
qed

section \<open>Keys\<close>

definition asymmetric :: "algorithm \<Rightarrow> bool" where
  "asymmetric a \<longleftrightarrow> a \<notin> {HS256, HS384, HS512}"

lemma resolve_algorithm_asymmetric: "resolve_algorithm k = Some a \<Longrightarrow> asymmetric a"
  by (auto simp: resolve_algorithm_def asymmetric_def split: option.splits if_splits)

lemma usable_keys_entry:
  assumes "usable_keys L ks keys kid = Some e"
  shows "keys kid = Some e \<or> (\<exists>k \<in> set ks. jwk_kid k = Some kid \<and> jwk_use k \<in> {None, Some ''sig''}
           \<and> resolve_algorithm k = Some (ke_alg e) \<and> decoding_key_from_jwk L k = Some (ke_key e))"
  using assms
proof (induction L ks keys rule: usable_keys.induct)
  case (2 L k ks keys)
  show ?case
    using "2.IH" "2.prems" by (auto split: option.splits if_splits)
qed simp

text \<open>A key set as the provider at \<open>base\<close> served it.\<close>

definition served :: "'k jwtlib \<Rightarrow> string \<Rightarrow> string \<Rightarrow> (string \<rightharpoonup> 'k key_entry) \<Rightarrow> bool" where
  "served L base issuer keys \<longleftrightarrow> (\<exists>N. fetch_jwks L N base issuer = Inr keys)"

lemma served_asymmetric:
  assumes "served L base issuer keys" "keys kid = Some e"
  shows "asymmetric (ke_alg e)"
  using assms usable_keys_entry [of L _ Map.empty kid e] resolve_algorithm_asymmetric
  by (fastforce simp: served_def fetch_jwks_def and_then_Inr_iff)

section \<open>Validations over time\<close>

text \<open>Requests are validated concurrently.  A validation lets others run before it reads the credentials, before it reads the
  cache, and while it waits for the provider; reading a key and checking the token with it is one step.  \<open>vs_past\<close> (the
  credentials that have been in force), \<open>vs_log\<close> (the key sets stored) and \<open>vs_accepted\<close> are history.\<close>

record 'k stored =
  st_issuer :: string
  st_base :: string
  st_keys :: "string \<rightharpoonup> 'k key_entry"
  st_time :: nat

record 'k vstate =
  vs_creds :: "party_credentials list"
  vs_cache :: "'k cache"
  vs_now :: nat
  vs_routed :: "routed list"
  vs_fetching :: "routed list"
  vs_past :: "party_credentials list list"
  vs_log :: "'k stored list"
  vs_accepted :: "(string \<times> principal \<times> nat) list"

definition vstart :: "party_credentials list \<Rightarrow> nat \<Rightarrow> 'k vstate" where
  "vstart creds now = \<lparr>vs_creds = creds, vs_cache = Map.empty, vs_now = now, vs_routed = [], vs_fetching = [],
     vs_past = [creds], vs_log = [], vs_accepted = []\<rparr>"

definition accepted_by :: "routed \<Rightarrow> validation_error + principal \<Rightarrow> nat \<Rightarrow> (string \<times> principal \<times> nat) list" where
  "accepted_by r res now = (case res of Inr p \<Rightarrow> [(ro_token r, p, now)] | Inl _ \<Rightarrow> [])"

inductive vstep :: "validator \<Rightarrow> 'k jwtlib \<Rightarrow> 'k vstate \<Rightarrow> 'k vstate \<Rightarrow> bool" for V L where
  tick: "vs_now s \<le> t \<Longrightarrow> vstep V L s (s\<lparr>vs_now := t\<rparr>)"
| reconfigure: "vstep V L s (s\<lparr>vs_creds := creds, vs_past := creds # vs_past s\<rparr>)"
| route: "route_token V L (vs_creds s) token = Inr r \<Longrightarrow> vstep V L s (s\<lparr>vs_routed := r # vs_routed s\<rparr>)"
| hit: "r \<in> set (vs_routed s) \<Longrightarrow> cached_key (vs_cache s) (vs_now s) (ro_issuer r) (ro_kid r) = Some e \<Longrightarrow>
    vstep V L s (s\<lparr>vs_routed := remove1 r (vs_routed s),
      vs_accepted := accepted_by r (verify_routed V L r e (vs_now s)) (vs_now s) @ vs_accepted s\<rparr>)"
| miss: "r \<in> set (vs_routed s) \<Longrightarrow> cached_key (vs_cache s) (vs_now s) (ro_issuer r) (ro_kid r) = None \<Longrightarrow>
    vstep V L s (s\<lparr>vs_routed := remove1 r (vs_routed s), vs_fetching := r # vs_fetching s\<rparr>)"
| fetch_failed: "r \<in> set (vs_fetching s) \<Longrightarrow> fetch_jwks L N (ti_discovery_base (ro_trusted r)) (ro_issuer r) = Inl err \<Longrightarrow>
    vstep V L s (s\<lparr>vs_fetching := remove1 r (vs_fetching s)\<rparr>)"
| unknown_key: "r \<in> set (vs_fetching s) \<Longrightarrow> fetch_jwks L N (ti_discovery_base (ro_trusted r)) (ro_issuer r) = Inr keys \<Longrightarrow>
    store_keys keys (ro_issuer r) (ro_kid r) (vs_now s) (vs_cache s) = (Inl err, cache) \<Longrightarrow>
    vstep V L s (s\<lparr>vs_fetching := remove1 r (vs_fetching s), vs_cache := cache\<rparr>)"
| fetched: "r \<in> set (vs_fetching s) \<Longrightarrow> fetch_jwks L N (ti_discovery_base (ro_trusted r)) (ro_issuer r) = Inr keys \<Longrightarrow>
    store_keys keys (ro_issuer r) (ro_kid r) (vs_now s) (vs_cache s) = (Inr e, cache) \<Longrightarrow>
    vstep V L s (s\<lparr>vs_fetching := remove1 r (vs_fetching s), vs_cache := cache,
      vs_log := \<lparr>st_issuer = ro_issuer r, st_base = ti_discovery_base (ro_trusted r), st_keys = keys, st_time = vs_now s\<rparr> # vs_log s,
      vs_accepted := accepted_by r (verify_routed V L r e (vs_now s)) (vs_now s) @ vs_accepted s\<rparr>)"

inductive vreach :: "validator \<Rightarrow> 'k jwtlib \<Rightarrow> 'k vstate \<Rightarrow> bool" for V L where
  vreach_start: "vreach V L (vstart creds now)"
| vreach_step: "vreach V L s \<Longrightarrow> vstep V L s s' \<Longrightarrow> vreach V L s'"

subsection \<open>Where keys and acceptances come from\<close>

definition routed_ok :: "validator \<Rightarrow> 'k jwtlib \<Rightarrow> party_credentials list list \<Rightarrow> routed \<Rightarrow> bool" where
  "routed_ok V L past r \<longleftrightarrow> (\<exists>creds \<in> set past. route_token V L creds (ro_token r) = Inr r)"

definition stored_ok :: "validator \<Rightarrow> 'k jwtlib \<Rightarrow> party_credentials list list \<Rightarrow> 'k stored \<Rightarrow> bool" where
  "stored_ok V L past f \<longleftrightarrow> served L (st_base f) (st_issuer f) (st_keys f)
     \<and> (\<exists>creds \<in> set past. \<exists>t. trusts V creds (st_issuer f) t \<and> st_base f = ti_discovery_base t)"

definition cache_ok :: "'k stored list \<Rightarrow> 'k cache \<Rightarrow> bool" where
  "cache_ok log cache \<longleftrightarrow> (\<forall>issuer entry. cache issuer = Some entry \<longrightarrow>
     (\<exists>f \<in> set log. st_issuer f = issuer \<and> st_keys f = cj_keys entry \<and> cj_expires_at entry = st_time f + JWKS_TTL))"

text \<open>What stands behind an accepted token.\<close>

definition evidence :: "validator \<Rightarrow> 'k jwtlib \<Rightarrow> party_credentials list list \<Rightarrow> 'k stored list \<Rightarrow> string \<Rightarrow> principal \<Rightarrow> nat \<Rightarrow> bool" where
  "evidence V L past log token p now \<longleftrightarrow> (\<exists>r f e. routed_ok V L past r \<and> ro_token r = token \<and>
     f \<in> set log \<and> stored_ok V L past f \<and> st_issuer f = ro_issuer r \<and> now < st_time f + JWKS_TTL \<and>
     st_keys f (ro_kid r) = Some e \<and> verify_routed V L r e now = Inr p)"

definition vinv :: "validator \<Rightarrow> 'k jwtlib \<Rightarrow> 'k vstate \<Rightarrow> bool" where
  "vinv V L s \<longleftrightarrow> vs_creds s \<in> set (vs_past s)
     \<and> (\<forall>r \<in> set (vs_routed s) \<union> set (vs_fetching s). routed_ok V L (vs_past s) r)
     \<and> (\<forall>f \<in> set (vs_log s). stored_ok V L (vs_past s) f)
     \<and> cache_ok (vs_log s) (vs_cache s)
     \<and> (\<forall>(token, p, now) \<in> set (vs_accepted s). evidence V L (vs_past s) (vs_log s) token p now)"

lemma routed_ok_mono: "routed_ok V L past r \<Longrightarrow> set past \<subseteq> set past' \<Longrightarrow> routed_ok V L past' r"
  by (auto simp: routed_ok_def)

lemma stored_ok_mono: "stored_ok V L past f \<Longrightarrow> set past \<subseteq> set past' \<Longrightarrow> stored_ok V L past' f"
  by (auto simp: stored_ok_def)

lemma evidence_mono:
  assumes "evidence V L past log token p now" "set past \<subseteq> set past'" "set log \<subseteq> set log'"
  shows "evidence V L past' log' token p now"
  using assms(1) routed_ok_mono [OF _ assms(2)] stored_ok_mono [OF _ assms(2)] assms(3)
  unfolding evidence_def by blast

lemma route_token_fields:
  assumes "route_token V L creds token = Inr r"
  shows "ro_token r = token" "extract_issuer L token = Inr (ro_issuer r)"
    "find_trusted V creds (ro_issuer r) = Some (ro_trusted r)" "decode_header L token = Some (Some (ro_kid r), ro_alg r)"
  using assms by (auto simp: route_token_def and_then_Inr_iff ok_or_Inr split: prod.splits)

lemma cached_key_stored:
  assumes "cache_ok log cache" "cached_key cache now issuer kid = Some e"
  shows "\<exists>f \<in> set log. st_issuer f = issuer \<and> st_keys f kid = Some e \<and> now < st_time f + JWKS_TTL"
  using assms unfolding cache_ok_def cached_key_def by (fastforce split: option.splits if_splits)

lemma store_keys_cases:
  assumes "store_keys keys issuer kid now cache = (res, cache')"
  shows "(\<exists>e. keys kid = Some e \<and> res = Inr e \<and> cache' = cache(issuer \<mapsto> \<lparr>cj_keys = keys, cj_expires_at = now + JWKS_TTL\<rparr>))
    \<or> (keys kid = None \<and> res = Inl (DiscoveryFailed issuer) \<and> cache' = cache)"
  using assms by (auto simp: store_keys_def split: option.splits)

lemma vinv_grow:
  assumes "vinv V L s" "set (vs_past s) \<subseteq> set past" "set (vs_log s) \<subseteq> set log"
  shows "\<forall>r \<in> set (vs_routed s) \<union> set (vs_fetching s). routed_ok V L past r"
    "\<forall>f \<in> set (vs_log s). stored_ok V L past f"
    "\<forall>(token, p, now) \<in> set (vs_accepted s). evidence V L past log token p now"
  using assms unfolding vinv_def by (blast intro: routed_ok_mono stored_ok_mono evidence_mono)+

lemma accepted_by_evidence:
  assumes "routed_ok V L past r" "f \<in> set log" "stored_ok V L past f" "st_issuer f = ro_issuer r" "now < st_time f + JWKS_TTL"
    "st_keys f (ro_kid r) = Some e"
  shows "\<forall>(token, p, t) \<in> set (accepted_by r (verify_routed V L r e now) now). evidence V L past log token p t"
  using assms unfolding accepted_by_def evidence_def by (auto split: sum.splits)

lemma routed_ok_stored:
  assumes "routed_ok V L past r" "fetch_jwks L N (ti_discovery_base (ro_trusted r)) (ro_issuer r) = Inr keys"
  shows "stored_ok V L past \<lparr>st_issuer = ro_issuer r, st_base = ti_discovery_base (ro_trusted r), st_keys = keys, st_time = t\<rparr>"
  using assms route_token_fields(3) find_trusted_trusts
  unfolding routed_ok_def stored_ok_def served_def by fastforce

lemma cache_ok_store:
  assumes "cache_ok log cache"
  shows "cache_ok (\<lparr>st_issuer = issuer, st_base = base, st_keys = keys, st_time = now\<rparr> # log)
    (cache(issuer \<mapsto> \<lparr>cj_keys = keys, cj_expires_at = now + JWKS_TTL\<rparr>))"
  using assms by (auto simp: cache_ok_def)

lemma vinv_step:
  assumes "vstep V L s s'" "vinv V L s"
  shows "vinv V L s'"
  using assms(1)
proof cases
  case (reconfigure creds)
  then show ?thesis
    using assms(2) vinv_grow [OF assms(2) set_subset_Cons [of _ creds] subset_refl] by (auto simp: vinv_def)
next
  case (route token r)
  then have "routed_ok V L (vs_past s) r"
    using assms(2) route_token_fields(1) [OF route(2)] by (auto simp: routed_ok_def vinv_def)
  then show ?thesis
    using route assms(2) by (auto simp: vinv_def)
next
  case (hit r e)
  obtain f where f: "f \<in> set (vs_log s)" "st_issuer f = ro_issuer r" "st_keys f (ro_kid r) = Some e"
      "vs_now s < st_time f + JWKS_TTL"
    using cached_key_stored [OF _ hit(3)] assms(2) unfolding vinv_def by blast
  have "\<forall>(token, p, t) \<in> set (accepted_by r (verify_routed V L r e (vs_now s)) (vs_now s)).
      evidence V L (vs_past s) (vs_log s) token p t"
    using hit(2) f assms(2) by (intro accepted_by_evidence) (auto simp: vinv_def)
  then show ?thesis
    using hit(1) assms(2) unfolding vinv_def by (simp add: ball_Un) (blast dest: notin_set_remove1)
next
  case (miss r)
  then show ?thesis
    using assms(2) unfolding vinv_def by (simp add: ball_Un) (blast dest: notin_set_remove1)
next
  case (unknown_key r N keys err cache)
  then show ?thesis
    using assms(2) store_keys_cases [OF unknown_key(4)] by (auto simp: vinv_def dest: notin_set_remove1)
next
  case (fetched r N keys e cache)
  define f where "f = \<lparr>st_issuer = ro_issuer r, st_base = ti_discovery_base (ro_trusted r), st_keys = keys, st_time = vs_now s\<rparr>"
  have r: "routed_ok V L (vs_past s) r" and c: "cache_ok (vs_log s) (vs_cache s)"
    using fetched(2) assms(2) by (auto simp: vinv_def)
  have k: "keys (ro_kid r) = Some e" and cache: "cache = (vs_cache s)(ro_issuer r \<mapsto> \<lparr>cj_keys = keys, cj_expires_at = vs_now s + JWKS_TTL\<rparr>)"
    using store_keys_cases [OF fetched(4)] by auto
  have ok: "stored_ok V L (vs_past s) f"
    unfolding f_def by (rule routed_ok_stored [OF r fetched(3)])
  have "\<forall>(token, p, t) \<in> set (accepted_by r (verify_routed V L r e (vs_now s)) (vs_now s)).
      evidence V L (vs_past s) (f # vs_log s) token p t"
    using r ok k by (intro accepted_by_evidence [where f = f]) (auto simp: f_def JWKS_TTL_def)
  moreover have "cache_ok (f # vs_log s) cache"
    unfolding f_def cache by (rule cache_ok_store [OF c])
  ultimately show ?thesis
    using fetched(1) assms(2) ok vinv_grow(3) [OF assms(2) subset_refl set_subset_Cons [of _ f]]
    unfolding vinv_def f_def [symmetric] by (simp add: ball_Un) (blast dest: notin_set_remove1)
qed (insert assms(2), auto simp: vinv_def dest: notin_set_remove1)

lemma vinv_start: "vinv V L (vstart creds now)"
  by (simp add: vstart_def vinv_def cache_ok_def)

lemma vinv_reach: "vreach V L s \<Longrightarrow> vinv V L s"
  by (induction rule: vreach.induct) (auto intro: vinv_step vinv_start)

section \<open>Properties\<close>

lemma verify_routed_Inr:
  "verify_routed V L r e now = Inr p \<longleftrightarrow> ro_alg r = ke_alg e \<and>
     (\<exists>j c. decode_claims L (ro_token r) (ke_key e) (ke_alg e) [ro_issuer r, ro_issuer r @ ''/''] now = Some j \<and> u_claims j = Some c
        \<and> cl_azp c = Some (ti_client_id (ro_trusted r))
        \<and> p = \<lparr>pr_sub = (case cl_sub c of Some s \<Rightarrow> s | None \<Rightarrow> []), pr_issuer = ro_issuer r,
             pr_roles = roles_of V (ti_is_auth0 (ro_trusted r)) c, pr_email = cl_email c\<rparr>)"
  by (auto simp: verify_routed_def and_then_Inr_iff ensure_Inr ok_or_Inr Option.bind_eq_Some_conv)

text \<open>C5: whatever the interleaving of validations, key fetches and changes of the party credentials, a token that
  is accepted at \<open>now\<close> names an issuer that some configuration in force trusted, and passed the library's verification (signature,
  expiry, issuer) with a key of that issuer: an entry, under the key id of the token's own header and for exactly its algorithm, of
  a key set that the discovery base of a trusted configuration of the same issuer served and that was stored less than an hour
  before.  The algorithm is never a symmetric one, and \<open>azp\<close> is the client of the trusted configuration.\<close>

theorem accepted_token_sound:
  assumes "vreach V L s" "(token, p, now) \<in> set (vs_accepted s)"
  shows "\<exists>creds \<in> set (vs_past s). \<exists>t kid alg key j c. \<exists>f \<in> set (vs_log s). \<exists>creds' \<in> set (vs_past s). \<exists>t'.
     extract_issuer L token = Inr (pr_issuer p) \<and> find_trusted V creds (pr_issuer p) = Some t
   \<and> st_issuer f = pr_issuer p \<and> served L (st_base f) (pr_issuer p) (st_keys f) \<and> now < st_time f + 3600
   \<and> trusts V creds' (pr_issuer p) t' \<and> st_base f = ti_discovery_base t'
   \<and> decode_header L token = Some (Some kid, alg) \<and> st_keys f kid = Some \<lparr>ke_key = key, ke_alg = alg\<rparr> \<and> asymmetric alg
   \<and> decode_claims L token key alg [pr_issuer p, pr_issuer p @ ''/''] now = Some j \<and> u_claims j = Some c
   \<and> cl_azp c = Some (ti_client_id t) \<and> pr_roles p = roles_of V (ti_is_auth0 t) c"
proof -
  obtain r f e where r: "routed_ok V L (vs_past s) r" "ro_token r = token" and f: "f \<in> set (vs_log s)" "stored_ok V L (vs_past s) f"
      "st_issuer f = ro_issuer r" "now < st_time f + JWKS_TTL" and e: "st_keys f (ro_kid r) = Some e"
      and v: "verify_routed V L r e now = Inr p"
    using vinv_reach [OF assms(1)] assms(2) unfolding vinv_def evidence_def by blast
  obtain creds where creds: "creds \<in> set (vs_past s)" "route_token V L creds token = Inr r"
    using r by (auto simp: routed_ok_def)
  obtain creds' t' where t': "creds' \<in> set (vs_past s)" "trusts V creds' (ro_issuer r) t'" "st_base f = ti_discovery_base t'"
      and s: "served L (st_base f) (ro_issuer r) (st_keys f)"
    using f by (auto simp: stored_ok_def)
  note fields = route_token_fields [OF creds(2)] served_asymmetric [OF s e]
  obtain j c where c: "decode_claims L token (ke_key e) (ke_alg e) [ro_issuer r, ro_issuer r @ ''/''] now = Some j" "u_claims j = Some c"
      "cl_azp c = Some (ti_client_id (ro_trusted r))" "pr_roles p = roles_of V (ti_is_auth0 (ro_trusted r)) c"
      and p: "pr_issuer p = ro_issuer r" and alg: "ro_alg r = ke_alg e"
    using v r(2) unfolding verify_routed_Inr by auto
  have e': "st_keys f (ro_kid r) = Some \<lparr>ke_key = ke_key e, ke_alg = ke_alg e\<rparr>"
    using e by simp
  show ?thesis
    unfolding p
    by (rule bexI [OF _ creds(1)], rule exI [of _ "ro_trusted r"], rule exI [of _ "ro_kid r"], rule exI [of _ "ke_alg e"],
        rule exI [of _ "ke_key e"], rule exI [of _ j], rule exI [of _ c], rule bexI [OF _ f(1)], rule bexI [OF _ t'(1)],
        rule exI [of _ t']) (insert s fields f(3,4) e' c t'(2,3) alg, simp add: JWKS_TTL_def)
qed

text \<open>The roles of a principal are exactly those of \<open>realm_access.roles\<close>, of \<open>roles\<close>, the words of \<open>scope\<close>, the
  strings of the configured role claim, and, only when the issuer is an Auth0 one, of \<open>permissions\<close>; a claim that is not an array
  of strings grants nothing.\<close>

theorem token_roles_exact:
  "role \<in> set (roles_of V is_auth0 c) \<longleftrightarrow>
     (\<exists>rs. cl_realm_access c = Some rs \<and> role \<in> set rs)
   \<or> (\<exists>rs. cl_roles c = Some rs \<and> role \<in> set rs)
   \<or> (\<exists>sc. cl_scope c = Some sc \<and> role \<in> set (split_whitespace sc))
   \<or> (\<exists>name j rs. v_role_claim V = Some name \<and> last_value (cl_additional c) name = Some j \<and> u_list u_str j = Some rs \<and> role \<in> set rs)
   \<or> (is_auth0 \<and> (\<exists>j rs. last_value (cl_additional c) ''permissions'' = Some j \<and> u_list u_str j = Some rs \<and> role \<in> set rs))"
proof -
  have arr: "role \<in> set (string_array kvs k) \<longleftrightarrow> (\<exists>j rs. last_value kvs k = Some j \<and> u_list u_str j = Some rs \<and> role \<in> set rs)" for kvs k
    by (cases "last_value kvs k"; cases "u_list u_str (the (last_value kvs k))") (auto simp: string_array_def)
  show ?thesis
    by (cases "cl_realm_access c"; cases "cl_roles c"; cases "cl_scope c"; cases "v_role_claim V")
      (auto simp: roles_of_def collect_roles_def arr auth0_permission_roles_def)
qed

text \<open>A validation that nothing interrupts is a run of these steps.\<close>

lemma jwt_validate_runs:
  assumes "jwt_validate V L N (vs_creds s) (vs_cache s) (vs_now s) token = (res, cache)"
  shows "\<exists>s'. (vstep V L)\<^sup>*\<^sup>* s s' \<and> vs_cache s' = cache \<and> vs_routed s' = vs_routed s \<and> vs_fetching s' = vs_fetching s
    \<and> vs_accepted s' = (case res of Inr p \<Rightarrow> [(token, p, vs_now s)] | Inl _ \<Rightarrow> []) @ vs_accepted s"
proof (cases "route_token V L (vs_creds s) token")
  case (Inl e)
  then have "res = Inl e" "cache = vs_cache s"
    using assms by (simp_all add: jwt_validate_def)
  then show ?thesis by auto
next
  case r: (Inr r)
  define s1 where "s1 = s\<lparr>vs_routed := r # vs_routed s\<rparr>"
  have s1: "vstep V L s s1" and r1: "r \<in> set (vs_routed s1)" and tok: "ro_token r = token"
    unfolding s1_def by (simp_all add: route [OF r] route_token_fields(1) [OF r])
  show ?thesis
  proof (cases "cached_key (vs_cache s) (vs_now s) (ro_issuer r) (ro_kid r)")
    case (Some e)
    then have "cached_key (vs_cache s1) (vs_now s1) (ro_issuer r) (ro_kid r) = Some e"
      by (simp add: s1_def)
    then have "(vstep V L)\<^sup>*\<^sup>* s (s1\<lparr>vs_routed := remove1 r (vs_routed s1),
        vs_accepted := accepted_by r (verify_routed V L r e (vs_now s1)) (vs_now s1) @ vs_accepted s1\<rparr>)"
      using hit [OF r1, where V = V and L = L] s1 by (meson converse_rtranclp_into_rtranclp r_into_rtranclp)
    moreover have "res = verify_routed V L r e (vs_now s)" "cache = vs_cache s"
      using assms r Some by (simp_all add: jwt_validate_def)
    ultimately show ?thesis
      by - (intro exI conjI, assumption, simp_all add: s1_def accepted_by_def tok split: sum.splits)
  next
    case None
    define s2 where "s2 = s\<lparr>vs_fetching := r # vs_fetching s\<rparr>"
    have "vstep V L s1 (s1\<lparr>vs_routed := remove1 r (vs_routed s1), vs_fetching := r # vs_fetching s1\<rparr>)"
      using None by (intro miss r1) (simp add: s1_def)
    then have s2: "(vstep V L)\<^sup>*\<^sup>* s s2" and r2: "r \<in> set (vs_fetching s2)"
      using s1 by (simp_all add: s2_def s1_def)
    show ?thesis
    proof (cases "fetch_jwks L N (ti_discovery_base (ro_trusted r)) (ro_issuer r)")
      case f: (Inl e)
      then have "res = Inl e" "cache = vs_cache s"
        using assms r None by (simp_all add: jwt_validate_def)
      then show ?thesis
        using rtranclp.rtrancl_into_rtrancl [OF s2 fetch_failed [OF r2 f]] by - (intro exI conjI, assumption, simp_all add: s2_def)
    next
      case f: (Inr keys)
      show ?thesis
      proof (cases "keys (ro_kid r)")
        case k: None
        then have "store_keys keys (ro_issuer r) (ro_kid r) (vs_now s2) (vs_cache s2) = (Inl (DiscoveryFailed (ro_issuer r)), vs_cache s)"
          by (simp add: store_keys_def s2_def)
        note rtranclp.rtrancl_into_rtrancl [OF s2 unknown_key [OF r2 f this]]
        moreover have "res = Inl (DiscoveryFailed (ro_issuer r))" "cache = vs_cache s"
          using assms r None f k by (simp_all add: jwt_validate_def store_keys_def)
        ultimately show ?thesis
          by - (intro exI conjI, assumption, simp_all add: s2_def)
      next
        case k: (Some e)
        define c where "c = (vs_cache s)(ro_issuer r \<mapsto> \<lparr>cj_keys = keys, cj_expires_at = vs_now s + JWKS_TTL\<rparr>)"
        have "store_keys keys (ro_issuer r) (ro_kid r) (vs_now s2) (vs_cache s2) = (Inr e, c)"
          using k by (simp add: store_keys_def s2_def c_def)
        note rtranclp.rtrancl_into_rtrancl [OF s2 fetched [OF r2 f this]]
        moreover have "res = verify_routed V L r e (vs_now s)" "cache = c"
          using assms r None f k by (simp_all add: jwt_validate_def store_keys_def c_def)
        ultimately show ?thesis
          by - (intro exI conjI, assumption, simp_all add: s2_def accepted_by_def tok split: sum.splits)
      qed
    qed
  qed
qed

lemma vreach_steps: "(vstep V L)\<^sup>*\<^sup>* s s' \<Longrightarrow> vreach V L s \<Longrightarrow> vreach V L s'"
  by (induction rule: rtranclp_induct) (auto intro: vreach_step)

section \<open>An example\<close>

text \<open>A provider with one key: a token is its header and its payload, the payload is the issuer, and only tokens that end in
  \<open>''.ok''\<close> have a good signature.\<close>

definition example_lib :: "string jwtlib" where
  "example_lib = \<lparr>url_safe_no_pad = (\<lambda>s. Some (str_bytes s)), standard_b64 = (\<lambda>_. None),
     decode_header = (\<lambda>_. Some (Some ''k1'', RS256)), rsa_components = (\<lambda>n e. Some (n @ e)), ec_components = (\<lambda>_ _. None),
     decode_claims = (\<lambda>token key alg issuers now. if token = ''h.p.ok'' \<and> key = ''nAQAB'' \<and> alg = RS256
        then Some (JObj [(''sub'', JStr ''alice''), (''azp'', JStr ''decman''), (''permissions'', JArr [JStr ''admin'']),
          (''roles'', JArr [JStr ''operator''])]) else None),
     set_authority = (\<lambda>u b. Some u),
     parse_json = (\<lambda>b. Some (JObj [(''iss'', JStr ''https://idp/realms/main'')]))\<rparr>"

definition example_net :: net where
  "example_net = \<lparr>net_discovery = (\<lambda>u. if u = ''https://idp/realms/main/.well-known/openid-configuration''
       then Some (JObj [(''jwks_uri'', JStr ''https://idp/keys'')]) else None),
     net_jwks = (\<lambda>u. if u = ''https://idp/keys''
       then Some (JObj [(''keys'', JArr [JObj [(''kid'', JStr ''k1''), (''kty'', JStr ''RSA''), (''n'', JStr ''n''), (''e'', JStr ''AQAB'')]])])
       else None)\<rparr>"

definition example_validator :: validator where
  "example_validator = jwt_validator (Some (keycloak_default\<lparr>kc_url := ''https://idp/'', kc_realm := ''main'', kc_client_id := ''decman''\<rparr>))
     None None"

definition example_principal :: principal where
  "example_principal = \<lparr>pr_sub = ''alice'', pr_issuer = ''https://idp/realms/main'', pr_roles = [''operator''], pr_email = None\<rparr>"

lemma example_validate:
  "fst (jwt_validate example_validator example_lib example_net [] Map.empty 10 ''h.p.ok'') = Inr example_principal"
  by code_simp

lemma example_reach:
  "\<exists>s. vreach example_validator example_lib s \<and> vs_accepted s = [(''h.p.ok'', example_principal, 10)]"
proof -
  have "jwt_validate example_validator example_lib example_net (vs_creds (vstart [] 10)) (vs_cache (vstart [] 10)) (vs_now (vstart [] 10)) ''h.p.ok''
      = (Inr example_principal, snd (jwt_validate example_validator example_lib example_net [] Map.empty 10 ''h.p.ok''))"
    using example_validate by (simp add: vstart_def prod_eq_iff)
  from jwt_validate_runs [OF this] obtain s where "(vstep example_validator example_lib)\<^sup>*\<^sup>* (vstart [] 10) s"
      "vs_accepted s = [(''h.p.ok'', example_principal, 10)]"
    by (auto simp: vstart_def)
  then show ?thesis
    using vreach_steps [OF _ vreach_start] by blast
qed

theorem accepted_token_sound_witness:
  "\<exists>s f. vreach example_validator example_lib s \<and> vs_accepted s = [(''h.p.ok'', example_principal, 10)]
     \<and> f \<in> set (vs_log s) \<and> st_issuer f = ''https://idp/realms/main''"
proof -
  obtain s where s: "vreach example_validator example_lib s" "vs_accepted s = [(''h.p.ok'', example_principal, 10)]"
    using example_reach by blast
  then have "(''h.p.ok'', example_principal, 10) \<in> set (vs_accepted s)"
    by simp
  from accepted_token_sound [OF s(1) this] s show ?thesis
    by (auto simp: example_principal_def)
qed

end
