(* ===== verification/Access.thy ===== *)
theory Access
  imports Token_Validation
begin

text \<open>
  Who may call this node: the middleware in front of every request (\<open>server/middleware/auth.rs\<close>), the request budget of tenant keys
  (\<open>server/tenant_rate_limit.rs\<close>), and the party credentials, which decide whether the first-run exemption applies and which issuers
  are trusted: how they are changed (\<open>server/handlers/party_config.rs\<close>), stored (\<open>db/rows.rs\<close>, \<open>db/crypto.rs\<close>, \<open>db/sqlite.rs\<close>) and loaded
  at boot (\<open>server/mod.rs\<close>).

  Requests run concurrently.  \<open>gstep\<close> interleaves them at the points where the code awaits, and a request may be dropped at each of them,
  as the server does when the client disconnects; a dropped request releases the bootstrap lock if it holds it.  Token validation
  is the model of \<open>Token_Validation\<close>, run beside it.

  SHA-256, the AES-GCM cipher and base64 are parameters.  The handlers behind the middleware are modelled for \<open>PUT /party-config\<close>
  only; the rebuilding of the outbound token registry at its end is not.
\<close>

section \<open>The budget of tenant keys\<close>

text \<open>Times are nanoseconds.\<close>

definition WINDOW :: nat where "WINDOW = 60 * 10 ^ 9"

record window =
  win_started :: nat
  win_count :: nat

type_synonym limiter = "nat \<rightharpoonup> window"

datatype verdict = Allowed | Limited nat

definition rate_check :: "limiter \<Rightarrow> nat \<Rightarrow> nat \<Rightarrow> nat \<Rightarrow> verdict \<times> limiter" where
  "rate_check windows key_index limit now =
     (let w = (case windows key_index of Some w \<Rightarrow> w | None \<Rightarrow> \<lparr>win_started = now, win_count = 0\<rparr>);
          elapsed = now - win_started w;
          w' = (if WINDOW \<le> elapsed then \<lparr>win_started = now, win_count = 0\<rparr> else w) in
      if limit \<le> win_count w' then (Limited (WINDOW - elapsed), windows(key_index \<mapsto> w'))
      else (Allowed, windows(key_index \<mapsto> w'\<lparr>win_count := win_count w' + 1\<rparr>)))"

definition retry_after_secs :: "nat \<Rightarrow> nat" where
  "retry_after_secs wait = max (wait div 10 ^ 9 + (if 0 < wait mod 10 ^ 9 then 1 else 0)) 1"

section \<open>Requests and responses\<close>

record party_config_request =
  rq_dec_party_id :: canton_id
  rq_member_party_id :: canton_id
  rq_user_id :: string
  rq_keycloak_url :: string
  rq_keycloak_realm :: string
  rq_keycloak_client_id :: string
  rq_keycloak_client_secret :: "string option"
  rq_keycloak_username :: "string option"
  rq_keycloak_password :: "string option"
  rq_auth0_domain :: "string option"
  rq_auth0_audience :: "string option"
  rq_auth0_client_id :: "string option"
  rq_auth0_client_secret :: "string option"

text \<open>A request: the value of its \<open>Authorization\<close> header, and what its body says as a \<open>PartyConfigRequest\<close>, if anything.\<close>

record request =
  rq_method :: string
  rq_path :: string
  rq_authorization :: "string option"
  rq_body :: "party_config_request option"

datatype response =
    Unauthorized
  | Forbidden
  | TooManyRequests nat
  | Conflict
  | BadRequest
  | InternalServerError

record access_config =
  ac_test_mode :: bool
  ac_tenant_api_keys :: "string list"
  ac_rate_limit :: nat
  ac_admin_role :: "string option"
  ac_sha256 :: "bytes \<Rightarrow> bytes"
  ac_hex :: hexlib

section \<open>The middleware\<close>

definition starts_with :: "string \<Rightarrow> string \<Rightarrow> bool" where
  "starts_with p s \<longleftrightarrow> strip_prefix p s \<noteq> None"

definition is_always_public :: "string \<Rightarrow> bool" where
  "is_always_public path \<longleftrightarrow>
     path \<in> {'''', ''/'', ''/index.html'', ''/favicon.ico'', ''/favicon.svg'', ''/auth-config'', ''/healthz''}
   \<or> starts_with ''/assets/'' path \<or> starts_with ''/swagger-ui/'' path \<or> starts_with ''/api-docs/'' path
   \<or> starts_with ''/.well-known/'' path"

text \<open>\<open>HeaderValue::to_str\<close>: visible ASCII characters, spaces and tabs only.\<close>

definition to_str :: "string \<Rightarrow> string option" where
  "to_str h = (if list_all (\<lambda>c. let n = of_char c :: nat in n = 9 \<or> 32 \<le> n \<and> n < 127) h then Some h else None)"

text \<open>\<open>str::split_once(char::is_whitespace)\<close>.\<close>

fun split_once_white :: "string \<Rightarrow> string \<Rightarrow> (string \<times> string) option" where
  "split_once_white acc [] = None"
| "split_once_white acc (c # s) = (case strip_one (map bytes_str white_space) (c # s) of
     Some r \<Rightarrow> Some (rev acc, r)
   | None \<Rightarrow> split_once_white (c # acc) s)"

definition parse_bearer :: "string \<Rightarrow> string option" where
  "parse_bearer header = Option.bind (split_once_white [] (trim header)) (\<lambda>(scheme, token).
     if map lower_char scheme \<noteq> ''bearer'' then None
     else let token = trim token in if token = [] then None else Some token)"

definition bearer_token :: "request \<Rightarrow> string option" where
  "bearer_token rq = Option.bind (rq_authorization rq) (\<lambda>h. Option.bind (to_str h) parse_bearer)"

definition constant_time_eq :: "bytes \<Rightarrow> bytes \<Rightarrow> bool" where
  "constant_time_eq a b = (if length a \<noteq> length b then False
     else fold (\<lambda>(x, y) acc. or acc (xor x y)) (zip a b) 0 = (0 :: u8))"

record tenant_key =
  tk_index :: nat
  tk_id :: string

definition tenant_key_id :: "access_config \<Rightarrow> string \<Rightarrow> string" where
  "tenant_key_id A key = take 16 (hex_encode (ac_hex A) (ac_sha256 A (str_bytes key)))"

fun position :: "('a \<Rightarrow> bool) \<Rightarrow> 'a list \<Rightarrow> nat option" where
  "position P [] = None"
| "position P (x # xs) = (if P x then Some 0 else map_option Suc (position P xs))"

definition match_tenant_api_key :: "access_config \<Rightarrow> request \<Rightarrow> response + tenant_key option" where
  "match_tenant_api_key A rq =
     (if ac_test_mode A then Inr None
      else let presented = (case bearer_token rq of Some t \<Rightarrow> t | None \<Rightarrow> []);
               matched = (if presented = [] then None
                 else position (\<lambda>k. constant_time_eq (str_bytes k) (str_bytes presented)) (ac_tenant_api_keys A)) in
        case matched of
          Some index \<Rightarrow> Inr (Some \<lparr>tk_index = index, tk_id = tenant_key_id A presented\<rparr>)
        | None \<Rightarrow> Inl Unauthorized)"

definition TENANT_PREFIX :: string where "TENANT_PREFIX = ''/v0/tenant/''"

definition is_acs_relay_call :: "string \<Rightarrow> string \<Rightarrow> bool" where
  "is_acs_relay_call m path = (case strip_prefix TENANT_PREFIX path of
     None \<Rightarrow> False
   | Some route \<Rightarrow> if m = ''POST'' then route = ''add-hosts/import''
       else m = ''GET'' \<and> (case split_char CHR ''/'' route of [_, s, _] \<Rightarrow> s = ''acs'' | _ \<Rightarrow> False))"

definition charge_tenant_key :: "access_config \<Rightarrow> tenant_key option \<Rightarrow> nat \<Rightarrow> limiter \<Rightarrow> (response + unit) \<times> limiter" where
  "charge_tenant_key A key now lim = (case key of
     None \<Rightarrow> (Inr (), lim)
   | Some k \<Rightarrow> if ac_rate_limit A = 0 then (Inr (), lim)
       else (case rate_check lim (tk_index k) (ac_rate_limit A) now of
           (Allowed, lim') \<Rightarrow> (Inr (), lim')
         | (Limited wait, lim') \<Rightarrow> (Inl (TooManyRequests (retry_after_secs wait)), lim')))"

definition admit_tenant_call :: "access_config \<Rightarrow> request \<Rightarrow> nat \<Rightarrow> limiter \<Rightarrow> (response + tenant_key option) \<times> limiter" where
  "admit_tenant_call A rq now lim = (case match_tenant_api_key A rq of
     Inl e \<Rightarrow> (Inl e, lim)
   | Inr key \<Rightarrow>
       if is_acs_relay_call (rq_method rq) (rq_path rq) then (Inr key, lim)
       else (case charge_tenant_key A key now lim of (Inl e, lim') \<Rightarrow> (Inl e, lim') | (Inr _, lim') \<Rightarrow> (Inr key, lim')))"

text \<open>What the middleware attaches to a request it lets through.\<close>

datatype attachment = Nothing | TenantCaller "tenant_key option" | Authenticated principal

definition require_admin :: "attachment \<Rightarrow> string option \<Rightarrow> response + principal" where
  "require_admin a admin_role = (case a of
     Authenticated p \<Rightarrow> (case admin_role of None \<Rightarrow> Inr p
       | Some role \<Rightarrow> and_then (map_err (\<lambda>_. Forbidden) (principal_require_admin p role)) (\<lambda>_. Inr p))
   | _ \<Rightarrow> Inl Unauthorized)"

definition tenant_caller :: "attachment \<Rightarrow> response + tenant_key option" where
  "tenant_caller a = (case a of TenantCaller k \<Rightarrow> Inr k | _ \<Rightarrow> Inl Unauthorized)"

section \<open>Stored credentials\<close>

record aead =
  ae_key :: "bytes option"
  ae_b64 :: "bytes \<Rightarrow> string"
  ae_unb64 :: "string \<Rightarrow> bytes option"
  ae_seal :: "bytes \<Rightarrow> bytes \<Rightarrow> bytes \<Rightarrow> bytes option"
  ae_unseal :: "bytes \<Rightarrow> bytes \<Rightarrow> bytes \<Rightarrow> bytes option"

text \<open>\<open>nonce\<close>: what the generator of nonces gives, \<open>None\<close> if it fails.\<close>

definition encrypt :: "aead \<Rightarrow> bytes option \<Rightarrow> string \<Rightarrow> string option" where
  "encrypt E nonce s = (case ae_key E of None \<Rightarrow> Some s
     | Some key \<Rightarrow> Option.bind nonce (\<lambda>n. Option.bind (ae_seal E key n (str_bytes s)) (\<lambda>c. Some (ae_b64 E (n @ c)))))"

definition decrypt :: "aead \<Rightarrow> string \<Rightarrow> string option" where
  "decrypt E stored = (case ae_key E of None \<Rightarrow> Some stored
     | Some key \<Rightarrow> (case ae_unb64 E stored of None \<Rightarrow> Some stored
         | Some d \<Rightarrow> if length d \<le> 12 then Some stored
             else (case ae_unseal E key (take 12 d) (drop 12 d) of None \<Rightarrow> Some stored | Some p \<Rightarrow> from_utf8 p)))"

definition opt_map :: "('a \<Rightarrow> 'b option) \<Rightarrow> 'a option \<Rightarrow> 'b option option" where
  "opt_map f x = (case x of None \<Rightarrow> Some None | Some v \<Rightarrow> map_option Some (f v))"

record party_credentials_row =
  pr_dec_party_id :: string
  pr_member_party_id :: string
  pr_user_id :: string
  pr_keycloak_url :: string
  pr_keycloak_realm :: string
  pr_keycloak_client_id :: string
  pr_keycloak_client_secret :: "string option"
  pr_keycloak_username :: "string option"
  pr_keycloak_password :: "string option"
  pr_auth0_domain :: "string option"
  pr_auth0_audience :: "string option"
  pr_auth0_client_id :: "string option"
  pr_auth0_client_secret :: "string option"

text \<open>The nonces are drawn in the order of the fields.\<close>

definition credentials_row :: "hexlib \<Rightarrow> aead \<Rightarrow> (nat \<Rightarrow> bytes option) \<Rightarrow> party_credentials \<Rightarrow> party_credentials_row option" where
  "credentials_row H E nonce c =
     Option.bind (opt_map (\<lambda>a. Option.bind (encrypt E (nonce 0) (m2m_client_id a)) (\<lambda>i.
       Option.bind (encrypt E (nonce 1) (m2m_client_secret a)) (\<lambda>s. Some (m2m_domain a, m2m_audience a, i, s)))) (pc_auth0 c)) (\<lambda>a0.
     Option.bind (encrypt E (nonce 2) (kc_client_id (pc_keycloak c))) (\<lambda>cid.
     Option.bind (opt_map (encrypt E (nonce 3)) (kc_client_secret (pc_keycloak c))) (\<lambda>sec.
     Option.bind (opt_map (encrypt E (nonce 4)) (kc_username (pc_keycloak c))) (\<lambda>usr.
     Option.bind (opt_map (encrypt E (nonce 5)) (kc_password (pc_keycloak c))) (\<lambda>pw.
       Some \<lparr>pr_dec_party_id = canton_id_display H (pc_dec_party_id c), pr_member_party_id = canton_id_display H (pc_member_party_id c),
         pr_user_id = pc_user_id c, pr_keycloak_url = kc_url (pc_keycloak c), pr_keycloak_realm = kc_realm (pc_keycloak c),
         pr_keycloak_client_id = cid, pr_keycloak_client_secret = sec, pr_keycloak_username = usr, pr_keycloak_password = pw,
         pr_auth0_domain = map_option (\<lambda>(d, a, i, s). d) a0, pr_auth0_audience = map_option (\<lambda>(d, a, i, s). a) a0,
         pr_auth0_client_id = map_option (\<lambda>(d, a, i, s). i) a0, pr_auth0_client_secret = map_option (\<lambda>(d, a, i, s). s) a0\<rparr>)))))"

definition parse_id :: "hexlib \<Rightarrow> string \<Rightarrow> canton_id option" where
  "parse_id H s = (case canton_id_parse H s of Inr i \<Rightarrow> Some i | Inl _ \<Rightarrow> None)"

definition row_credentials :: "hexlib \<Rightarrow> aead \<Rightarrow> party_credentials_row \<Rightarrow> party_credentials option" where
  "row_credentials H E r =
     Option.bind (case (pr_auth0_domain r, pr_auth0_audience r, pr_auth0_client_id r, pr_auth0_client_secret r) of
         (Some d, Some a, Some i, Some s) \<Rightarrow> Option.bind (decrypt E i) (\<lambda>cid. Option.bind (decrypt E s) (\<lambda>sec.
            Some (Some \<lparr>m2m_domain = d, m2m_audience = a, m2m_client_id = cid, m2m_client_secret = sec\<rparr>)))
       | _ \<Rightarrow> Some None) (\<lambda>a0.
     Option.bind (parse_id H (pr_dec_party_id r)) (\<lambda>dec. Option.bind (parse_id H (pr_member_party_id r)) (\<lambda>mem.
     Option.bind (decrypt E (pr_keycloak_client_id r)) (\<lambda>cid.
     Option.bind (opt_map (decrypt E) (pr_keycloak_client_secret r)) (\<lambda>sec.
     Option.bind (opt_map (decrypt E) (pr_keycloak_username r)) (\<lambda>usr.
     Option.bind (opt_map (decrypt E) (pr_keycloak_password r)) (\<lambda>pw.
       Some \<lparr>pc_dec_party_id = dec, pc_member_party_id = mem, pc_user_id = pr_user_id r,
         pc_keycloak = \<lparr>kc_url = pr_keycloak_url r, kc_internal_url = None, kc_realm = pr_keycloak_realm r, kc_client_id = cid,
           kc_client_secret = sec, kc_username = usr, kc_password = pw\<rparr>,
         pc_auth0 = a0\<rparr>)))))))"

fun read_rows :: "hexlib \<Rightarrow> aead \<Rightarrow> party_credentials_row list \<Rightarrow> party_credentials list option" where
  "read_rows H E [] = Some []"
| "read_rows H E (r # rs) = Option.bind (row_credentials H E r) (\<lambda>c. Option.bind (read_rows H E rs) (\<lambda>cs. Some (c # cs)))"

text \<open>\<open>INSERT OR REPLACE\<close> deletes the row of that key and inserts the new one.\<close>

definition upsert_party_credentials :: "party_credentials_row \<Rightarrow> party_credentials_row list \<Rightarrow> party_credentials_row list" where
  "upsert_party_credentials row rows = filter (\<lambda>r. pr_dec_party_id r \<noteq> pr_dec_party_id row) rows @ [row]"

text \<open>At boot; \<open>rows\<close> is what the table's query gives, \<open>None\<close> if it fails.\<close>

definition load_credentials :: "hexlib \<Rightarrow> aead \<Rightarrow> party_credentials_row list option \<Rightarrow> party_credentials list" where
  "load_credentials H E rows = (case Option.bind rows (read_rows H E) of Some cs \<Rightarrow> cs | None \<Rightarrow> [])"

section \<open>Changing the credentials\<close>

definition merge_optional_secret :: "string option \<Rightarrow> string option \<Rightarrow> string option" where
  "merge_optional_secret new existing = (case new of None \<Rightarrow> existing | Some v \<Rightarrow> if v = [] then None else Some v)"

definition differs :: "string \<Rightarrow> string option \<Rightarrow> bool" where
  "differs x old = (case old of None \<Rightarrow> False | Some y \<Rightarrow> y \<noteq> x)"

definition merge_auth0 :: "party_config_request \<Rightarrow> auth0_m2m_config option \<Rightarrow> response + auth0_m2m_config" where
  "merge_auth0 rq existing =
     and_then (ok_or BadRequest (non_empty (rq_auth0_domain rq))) (\<lambda>domain.
     and_then (ok_or BadRequest (non_empty (rq_auth0_audience rq))) (\<lambda>audience.
     and_then (ok_or BadRequest (non_empty (rq_auth0_client_id rq))) (\<lambda>client_id.
     and_then (ensure (\<not> (differs domain (map_option m2m_domain existing) \<and> non_empty (rq_auth0_client_secret rq) = None)) BadRequest) (\<lambda>_.
     let client_secret = (case non_empty (rq_auth0_client_secret rq) of Some s \<Rightarrow> s
           | None \<Rightarrow> (case existing of Some a \<Rightarrow> m2m_client_secret a | None \<Rightarrow> [])) in
     and_then (ensure (client_secret \<noteq> []) BadRequest) (\<lambda>_.
     Inr \<lparr>m2m_domain = domain, m2m_audience = audience, m2m_client_id = client_id, m2m_client_secret = client_secret\<rparr>)))))"

definition merge_keycloak :: "bool \<Rightarrow> party_config_request \<Rightarrow> keycloak_config option \<Rightarrow> response + keycloak_config" where
  "merge_keycloak test_mode rq existing =
     (if \<not> test_mode \<and> (trim (rq_keycloak_url rq) = [] \<or> trim (rq_keycloak_realm rq) = [] \<or> trim (rq_keycloak_client_id rq) = [])
      then Inl BadRequest
      else let url_changed = differs (rq_keycloak_url rq) (map_option kc_url existing);
               new_secret = (non_empty (rq_keycloak_client_secret rq) \<noteq> None);
               new_pair = (non_empty (rq_keycloak_username rq) \<noteq> None \<and> non_empty (rq_keycloak_password rq) \<noteq> None);
               base = \<lparr>kc_url = rq_keycloak_url rq, kc_internal_url = None, kc_realm = rq_keycloak_realm rq,
                 kc_client_id = rq_keycloak_client_id rq, kc_client_secret = None, kc_username = None, kc_password = None\<rparr> in
        if url_changed \<and> \<not> new_secret \<and> \<not> new_pair then Inl BadRequest
        else if url_changed
        then Inr (base\<lparr>kc_client_secret := non_empty (rq_keycloak_client_secret rq), kc_username := non_empty (rq_keycloak_username rq),
               kc_password := non_empty (rq_keycloak_password rq)\<rparr>)
        else Inr (base\<lparr>kc_client_secret := merge_optional_secret (rq_keycloak_client_secret rq) (Option.bind existing kc_client_secret),
               kc_username := merge_optional_secret (rq_keycloak_username rq) (Option.bind existing kc_username),
               kc_password := merge_optional_secret (rq_keycloak_password rq) (Option.bind existing kc_password)\<rparr>))"

text \<open>\<open>save_party_config\<close> after its checks of the caller: the new credentials, from the request and what was stored.\<close>

definition new_credentials :: "bool \<Rightarrow> party_config_request \<Rightarrow> party_credentials option \<Rightarrow> response + party_credentials" where
  "new_credentials test_mode rq existing =
     (let creds = \<lparr>pc_dec_party_id = rq_dec_party_id rq, pc_member_party_id = rq_member_party_id rq, pc_user_id = rq_user_id rq,
        pc_keycloak = keycloak_default, pc_auth0 = None\<rparr> in
      if non_empty (rq_auth0_domain rq) \<noteq> None
      then and_then (merge_auth0 rq (Option.bind existing pc_auth0)) (\<lambda>a. Inr (creds\<lparr>pc_auth0 := Some a\<rparr>))
      else and_then (merge_keycloak test_mode rq (map_option pc_keycloak existing)) (\<lambda>k. Inr (creds\<lparr>pc_keycloak := k\<rparr>)))"

definition find_credentials :: "canton_id \<Rightarrow> party_credentials list \<Rightarrow> party_credentials option" where
  "find_credentials party cs = List.find (\<lambda>p. pc_dec_party_id p = party) cs"

text \<open>The in-memory list: the first entry of the party is replaced, or the new one is appended.\<close>

fun put_credentials :: "party_credentials \<Rightarrow> party_credentials list \<Rightarrow> party_credentials list" where
  "put_credentials c [] = [c]"
| "put_credentials c (p # ps) = (if pc_dec_party_id p = pc_dec_party_id c then c # ps else p # put_credentials c ps)"

section \<open>Requests in flight\<close>

text \<open>Where a request is.  The last argument of the handler's places says whether the request holds \<open>bootstrap_mu\<close>.\<close>

datatype place =
    Arrived request
  | WantsLock request
  | Locked request
  | WantsToken request
  | SaveRead attachment party_config_request bool
  | SaveCheck attachment party_config_request "party_credentials option" bool
  | SavePersist attachment party_credentials bool
  | SaveMemory attachment party_credentials bool
  | SaveDone bool

fun holds_lock :: "place \<Rightarrow> bool" where
  "holds_lock (Locked _) = True"
| "holds_lock (SaveRead _ _ g) = g"
| "holds_lock (SaveCheck _ _ _ g) = g"
| "holds_lock (SavePersist _ _ g) = g"
| "holds_lock (SaveMemory _ _ g) = g"
| "holds_lock (SaveDone g) = g"
| "holds_lock _ = False"

text \<open>\<open>ga_forwarded\<close> (the requests the middleware let through), \<open>ga_writes\<close> (the writes of the in-memory credentials, newest first,
  with what the middleware had attached) and \<open>ga_merged\<close> (the requests whose credentials were accepted) are history.\<close>

record 'k gate =
  ga_validator :: "'k vstate"
  ga_mutex :: bool
  ga_limiter :: limiter
  ga_rows :: "party_credentials_row list"
  ga_flight :: "nat \<rightharpoonup> place"
  ga_forwarded :: "(request \<times> attachment) list"
  ga_writes :: "(attachment \<times> party_credentials) list"
  ga_merged :: "party_config_request list"

abbreviation ga_creds :: "'k gate \<Rightarrow> party_credentials list" where
  "ga_creds s \<equiv> vs_creds (ga_validator s)"

definition gstart :: "party_credentials list \<Rightarrow> party_credentials_row list \<Rightarrow> nat \<Rightarrow> 'k gate" where
  "gstart creds rows now = \<lparr>ga_validator = vstart creds now, ga_mutex = False, ga_limiter = Map.empty, ga_rows = rows,
     ga_flight = Map.empty, ga_forwarded = [], ga_writes = [], ga_merged = []\<rparr>"

definition move :: "nat \<Rightarrow> place \<Rightarrow> 'k gate \<Rightarrow> 'k gate" where
  "move i pl s = s\<lparr>ga_flight := (ga_flight s)(i \<mapsto> pl)\<rparr>"

text \<open>A request ends, answered or dropped; its lock, if it holds it, is released.\<close>

definition finish :: "nat \<Rightarrow> place \<Rightarrow> 'k gate \<Rightarrow> 'k gate" where
  "finish i pl s = s\<lparr>ga_flight := (ga_flight s)(i := None), ga_mutex := ga_mutex s \<and> \<not> holds_lock pl\<rparr>"

definition is_save :: "request \<Rightarrow> bool" where
  "is_save rq \<longleftrightarrow> rq_method rq = ''PUT'' \<and> rq_path rq = ''/party-config''"

text \<open>\<open>service.call\<close>: the handler of \<open>PUT /party-config\<close>, whose body must be one, or another handler.\<close>

definition forward :: "nat \<Rightarrow> request \<Rightarrow> attachment \<Rightarrow> bool \<Rightarrow> 'k gate \<Rightarrow> 'k gate" where
  "forward i rq a g s =
     (let s' = s\<lparr>ga_forwarded := (rq, a) # ga_forwarded s\<rparr> in
      if is_save rq then (case rq_body rq of Some b \<Rightarrow> move i (SaveRead a b g) s' | None \<Rightarrow> finish i (SaveDone g) s')
      else finish i (SaveDone g) s')"

text \<open>The middleware up to its first await.\<close>

definition arrive_step :: "access_config \<Rightarrow> nat \<Rightarrow> nat \<Rightarrow> request \<Rightarrow> 'k gate \<Rightarrow> 'k gate" where
  "arrive_step A i now rq s =
     (if is_always_public (rq_path rq) then forward i rq Nothing False s
      else if starts_with TENANT_PREFIX (rq_path rq)
      then (case admit_tenant_call A rq now (ga_limiter s) of
          (Inr key, lim) \<Rightarrow> forward i rq (TenantCaller key) False (s\<lparr>ga_limiter := lim\<rparr>)
        | (Inl _, lim) \<Rightarrow> finish i (Arrived rq) (s\<lparr>ga_limiter := lim\<rparr>))
      else if is_save rq \<and> ga_creds s = [] then move i (WantsLock rq) s
      else move i (WantsToken rq) s)"

definition lock_step :: "nat \<Rightarrow> request \<Rightarrow> 'k gate \<Rightarrow> 'k gate" where
  "lock_step i rq s = (if ga_mutex s then finish i (WantsLock rq) s else move i (Locked rq) (s\<lparr>ga_mutex := True\<rparr>))"

definition recheck_step :: "nat \<Rightarrow> request \<Rightarrow> 'k gate \<Rightarrow> 'k gate" where
  "recheck_step i rq s =
     (if ga_creds s = [] then forward i rq Nothing True s else move i (WantsToken rq) (s\<lparr>ga_mutex := False\<rparr>))"

definition check_step :: "access_config \<Rightarrow> nat \<Rightarrow> attachment \<Rightarrow> party_config_request \<Rightarrow> party_credentials option \<Rightarrow> bool \<Rightarrow> 'k gate \<Rightarrow> 'k gate" where
  "check_step A i a b existing g s =
     (if ga_creds s \<noteq> [] \<and> \<not> is_ok (require_admin a (ac_admin_role A)) then finish i (SaveDone g) s
      else (case new_credentials (ac_test_mode A) b existing of
          Inl _ \<Rightarrow> finish i (SaveDone g) s
        | Inr c \<Rightarrow> move i (SavePersist a c g) (s\<lparr>ga_merged := b # ga_merged s\<rparr>)))"

definition memory_step :: "nat \<Rightarrow> attachment \<Rightarrow> party_credentials \<Rightarrow> bool \<Rightarrow> 'k gate \<Rightarrow> 'k gate" where
  "memory_step i a c g s =
     (let v = ga_validator s; cs = put_credentials c (vs_creds v) in
      move i (SaveDone g) (s\<lparr>ga_validator := v\<lparr>vs_creds := cs, vs_past := cs # vs_past v\<rparr>, ga_writes := (a, c) # ga_writes s\<rparr>))"

definition mock_principal :: "access_config \<Rightarrow> principal" where
  "mock_principal A = (case mock_validate (case ac_admin_role A of Some r \<Rightarrow> r | None \<Rightarrow> []) [] of Inr p \<Rightarrow> p)"

definition token_of :: "request \<Rightarrow> string" where
  "token_of rq = (case bearer_token rq of Some t \<Rightarrow> t | None \<Rightarrow> [])"

inductive gstep :: "access_config \<Rightarrow> validator \<Rightarrow> 'k jwtlib \<Rightarrow> aead \<Rightarrow> 'k gate \<Rightarrow> 'k gate \<Rightarrow> bool" for A V L E where
  validating: "vstep V L (ga_validator s) v \<Longrightarrow> vs_past v = vs_past (ga_validator s) \<Longrightarrow> gstep A V L E s (s\<lparr>ga_validator := v\<rparr>)"
| new_request: "ga_flight s i = None \<Longrightarrow> gstep A V L E s (move i (Arrived rq) s)"
| arrived: "ga_flight s i = Some (Arrived rq) \<Longrightarrow> gstep A V L E s (arrive_step A i now rq s)"
| try_lock: "ga_flight s i = Some (WantsLock rq) \<Longrightarrow> gstep A V L E s (lock_step i rq s)"
| recheck: "ga_flight s i = Some (Locked rq) \<Longrightarrow> gstep A V L E s (recheck_step i rq s)"
| accepted: "ga_flight s i = Some (WantsToken rq) \<Longrightarrow> \<not> ac_test_mode A \<Longrightarrow> (token_of rq, p, t) \<in> set (vs_accepted (ga_validator s)) \<Longrightarrow>
    gstep A V L E s (forward i rq (Authenticated p) False s)"
| mocked: "ga_flight s i = Some (WantsToken rq) \<Longrightarrow> ac_test_mode A \<Longrightarrow>
    gstep A V L E s (forward i rq (Authenticated (mock_principal A)) False s)"
| refused: "ga_flight s i = Some (WantsToken rq) \<Longrightarrow> \<not> ac_test_mode A \<Longrightarrow> gstep A V L E s (finish i (WantsToken rq) s)"
| save_read: "ga_flight s i = Some (SaveRead a b g) \<Longrightarrow>
    gstep A V L E s (move i (SaveCheck a b (find_credentials (rq_dec_party_id b) (ga_creds s)) g) s)"
| save_check: "ga_flight s i = Some (SaveCheck a b ex g) \<Longrightarrow> gstep A V L E s (check_step A i a b ex g s)"
| persisted: "ga_flight s i = Some (SavePersist a c g) \<Longrightarrow> credentials_row (ac_hex A) E nonce c = Some row \<Longrightarrow>
    gstep A V L E s (move i (SaveMemory a c g) (s\<lparr>ga_rows := upsert_party_credentials row (ga_rows s)\<rparr>))"
| not_persisted: "ga_flight s i = Some (SavePersist a c g) \<Longrightarrow> gstep A V L E s (finish i (SaveDone g) s)"
| memory: "ga_flight s i = Some (SaveMemory a c g) \<Longrightarrow> gstep A V L E s (memory_step i a c g s)"
| answered: "ga_flight s i = Some (SaveDone g) \<Longrightarrow> gstep A V L E s (finish i (SaveDone g) s)"
| dropped: "ga_flight s i = Some pl \<Longrightarrow> gstep A V L E s (finish i pl s)"

inductive greach :: "access_config \<Rightarrow> validator \<Rightarrow> 'k jwtlib \<Rightarrow> aead \<Rightarrow> 'k gate \<Rightarrow> 'k gate \<Rightarrow> bool" for A V L E s0 where
  greach_start: "greach A V L E s0 s0"
| greach_step: "greach A V L E s0 s \<Longrightarrow> gstep A V L E s s' \<Longrightarrow> greach A V L E s0 s'"

section \<open>Lemmas: the budget\<close>

text \<open>The requests of all keys in the order they are checked, and those that are allowed.\<close>

fun rate_run :: "nat \<Rightarrow> limiter \<Rightarrow> (nat \<times> nat) list \<Rightarrow> (nat \<times> nat) list" where
  "rate_run limit lim [] = []"
| "rate_run limit lim ((k, now) # rs) = (case rate_check lim k limit now of
     (Allowed, lim') \<Rightarrow> (k, now) # rate_run limit lim' rs
   | (Limited _, lim') \<Rightarrow> rate_run limit lim' rs)"

definition allowed_in :: "nat \<Rightarrow> nat \<Rightarrow> nat \<Rightarrow> (nat \<times> nat) list \<Rightarrow> nat" where
  "allowed_in k t u xs = length (filter (\<lambda>(j, x). j = k \<and> t \<le> x \<and> x < u) xs)"

lemma allowed_in_Nil [simp]: "allowed_in k t u [] = 0"
  by (simp add: allowed_in_def)

lemma allowed_in_Cons [simp]: "allowed_in k t u ((j, x) # xs) = (if j = k \<and> t \<le> x \<and> x < u then 1 else 0) + allowed_in k t u xs"
  by (simp add: allowed_in_def)

lemma rate_check_other: "rate_check lim j limit now = (v, lim') \<Longrightarrow> k \<noteq> j \<Longrightarrow> lim' k = lim k"
  by (auto simp: rate_check_def Let_def split: if_splits)

text \<open>The check of a key with a window: the window goes on, or a new one starts.\<close>

lemma rate_check_cases:
  assumes "rate_check lim k limit now = (v, lim')" "lim k = Some w" "win_count w \<le> limit"
  obtains
    (allowed) "v = Allowed" "now - win_started w < WINDOW" "win_count w < limit"
      "lim' k = Some (w\<lparr>win_count := win_count w + 1\<rparr>)"
  | (limited) wait where "v = Limited wait" "now - win_started w < WINDOW" "win_count w = limit" "lim' k = Some w"
  | (renewed) "v = Allowed" "WINDOW \<le> now - win_started w" "0 < limit" "lim' k = Some \<lparr>win_started = now, win_count = 1\<rparr>"
  | (nothing) wait where "v = Limited wait" "limit = 0" "win_count w = 0" "WINDOW \<le> now - win_started w"
      "lim' k = Some \<lparr>win_started = now, win_count = 0\<rparr>"
  using assms unfolding rate_check_def Let_def by (fastforce split: if_splits)

lemma rate_check_keeps:
  assumes "rate_check lim k limit now = (v, lim')" "lim k = Some w" "win_count w \<le> limit" "win_started w \<le> now"
  shows "\<exists>w'. lim' k = Some w' \<and> win_count w' \<le> limit \<and> win_started w' \<le> now"
  using assms(1-3) by (cases rule: rate_check_cases) (insert assms(3,4), auto)

lemma rate_run_subset: "r \<in> set (rate_run limit lim rs) \<Longrightarrow> r \<in> set rs"
proof (induction rs arbitrary: lim)
  case (Cons q rs)
  obtain j x v lim' where "q = (j, x)" "rate_check lim j limit x = (v, lim')"
    by (metis surj_pair)
  then show ?case
    using Cons by (cases v) auto
qed simp

text \<open>From the start of a window, at most what is left of its budget is allowed before it ends.\<close>

lemma window_budget:
  assumes "sorted (map snd rs)" "lim k = Some w" "win_count w \<le> limit" "t \<le> win_started w" "\<forall>q \<in> set rs. win_started w \<le> snd q"
  shows "allowed_in k t (t + WINDOW) (rate_run limit lim rs) \<le> limit - win_count w"
  using assms
proof (induction rs arbitrary: lim w)
  case (Cons r rs)
  obtain j x where r: "r = (j, x)" by fastforce
  obtain v lim' where v: "rate_check lim j limit x = (v, lim')" by fastforce
  show ?case
  proof (cases "j = k")
    case False
    then show ?thesis
      using Cons rate_check_other [OF v] by (auto simp: r v split: verdict.splits)
  next
    case True
    from v [unfolded True] Cons.prems(2,3) show ?thesis
    proof (cases rule: rate_check_cases)
      case allowed
      then show ?thesis
        using Cons.IH [of lim' "w\<lparr>win_count := win_count w + 1\<rparr>"] Cons.prems v by (auto simp: r True)
    next
      case (limited wait)
      then show ?thesis
        using Cons.IH [of lim' w] Cons.prems v by (auto simp: r True)
    next
      case renewed
      then have "\<not> x < t + WINDOW" and "\<forall>q \<in> set rs. x \<le> snd q"
        using Cons.prems by (auto simp: r)
      moreover from this have "allowed_in k t (t + WINDOW) (rate_run limit lim' rs) = 0"
        unfolding allowed_in_def
        by (fastforce simp: filter_empty_conv dest!: rate_run_subset)
      ultimately show ?thesis
        using renewed v by (simp add: r True)
    next
      case (nothing wait)
      then show ?thesis
        using Cons.IH [of lim' "\<lparr>win_started = x, win_count = 0\<rparr>"] Cons.prems v by (auto simp: r True)
    qed
  qed
qed simp

lemma two_windows:
  assumes "sorted (map snd rs)" "lim k = Some w" "win_count w \<le> limit" "\<forall>q \<in> set rs. win_started w \<le> snd q \<and> t \<le> snd q"
  shows "allowed_in k t (t + WINDOW) (rate_run limit lim rs) \<le> (limit - win_count w) + limit"
  using assms
proof (induction rs arbitrary: lim w)
  case (Cons r rs)
  obtain j x where r: "r = (j, x)" by fastforce
  obtain v lim' where v: "rate_check lim j limit x = (v, lim')" by fastforce
  have s: "sorted (map snd rs)" "\<forall>q \<in> set rs. x \<le> snd q" "t \<le> x" "win_started w \<le> x"
    using Cons.prems by (auto simp: r)
  show ?case
  proof (cases "j = k")
    case False
    then show ?thesis
      using Cons rate_check_other [OF v] by (auto simp: r v split: verdict.splits)
  next
    case True
    from v [unfolded True] Cons.prems(2,3) show ?thesis
    proof (cases rule: rate_check_cases)
      case allowed
      then show ?thesis
        using Cons.IH [of lim' "w\<lparr>win_count := win_count w + 1\<rparr>"] Cons.prems v by (auto simp: r True)
    next
      case (limited wait)
      then show ?thesis
        using Cons.IH [of lim' w] Cons.prems v by (auto simp: r True)
    next
      case renewed
      then show ?thesis
        using window_budget [of rs lim' k "\<lparr>win_started = x, win_count = 1\<rparr>" limit t] s v by (auto simp: r True)
    next
      case (nothing wait)
      then show ?thesis
        using window_budget [of rs lim' k "\<lparr>win_started = x, win_count = 0\<rparr>" limit t] s v by (simp add: r True)
    qed
  qed
qed simp

text \<open>A key without a window gets one, as if it had been there.\<close>

lemma rate_check_None:
  assumes "lim k = None"
  shows "rate_check lim k limit now = rate_check (lim(k \<mapsto> \<lparr>win_started = now, win_count = 0\<rparr>)) k limit now"
  using assms by (simp add: rate_check_def WINDOW_def Let_def)

lemma rate_run_bound:
  assumes "sorted (map snd rs)" "\<forall>w. lim k = Some w \<longrightarrow> win_count w \<le> limit \<and> (\<forall>q \<in> set rs. win_started w \<le> snd q)"
  shows "allowed_in k t (t + WINDOW) (rate_run limit lim rs) \<le> 2 * limit"
  using assms
proof (induction rs arbitrary: lim)
  case (Cons r rs)
  obtain j x where r: "r = (j, x)" by fastforce
  obtain v lim' where v: "rate_check lim j limit x = (v, lim')" by fastforce
  have s: "sorted (map snd rs)" "\<forall>q \<in> set rs. x \<le> snd q"
    using Cons.prems by (auto simp: r)
  define w where "w = (case lim k of Some w \<Rightarrow> w | None \<Rightarrow> \<lparr>win_started = x, win_count = 0\<rparr>)"
  have w: "win_count w \<le> limit" "win_started w \<le> x" "j = k \<Longrightarrow> rate_check (lim(k \<mapsto> w)) j limit x = (v, lim')"
    using Cons.prems(2) v rate_check_None [of lim k limit x] by (auto simp: w_def r fun_upd_idem split: option.splits)
  show ?case
  proof (cases "j = k")
    case False
    then show ?thesis
      using Cons.IH [OF s(1), of lim'] Cons.prems rate_check_other [OF v] by (auto simp: r v split: verdict.splits)
  next
    case True
    show ?thesis
    proof (cases "t \<le> x")
      case le: True
      have "rate_run limit lim (r # rs) = rate_run limit (lim(k \<mapsto> w)) (r # rs)"
        using w(3) [OF True] v by (simp add: r True)
      moreover have "allowed_in k t (t + WINDOW) (rate_run limit (lim(k \<mapsto> w)) (r # rs)) \<le> (limit - win_count w) + limit"
        using s w(1,2) le Cons.prems(1) by (intro two_windows) (auto simp: r intro: order_trans)
      ultimately show ?thesis by simp
    next
      case False
      obtain w' where "lim' k = Some w'" "win_count w' \<le> limit" "win_started w' \<le> x"
        using rate_check_keeps [of "lim(k \<mapsto> w)" k limit x v lim' w] w(3) [OF True] w(1,2) True by auto
      then have "allowed_in k t (t + WINDOW) (rate_run limit lim' rs) \<le> 2 * limit"
        using s by (intro Cons.IH) (auto intro: order_trans)
      then show ?thesis
        using False v by (auto simp: r split: verdict.splits)
    qed
  qed
qed simp

section \<open>Lemmas: admission\<close>

lemma fold_or_zero:
  "fold (\<lambda>(x, y) acc. or acc (xor x y)) ps (a :: u8) = 0 \<longleftrightarrow> a = 0 \<and> (\<forall>(x, y) \<in> set ps. x = y)"
proof (induction ps arbitrary: a)
  case (Cons q ps)
  have "or a (xor x y) = 0 \<longleftrightarrow> a = 0 \<and> x = y" for x y :: u8
    by (metis bit.disj_zero_right or_eq_0_iff word_bw_same(3) xor_self_eq bit.xor_cancel_right xor.assoc xor.right_neutral)
  then show ?case
    using Cons by (cases q) auto
qed simp

lemma constant_time_eq_iff: "constant_time_eq a b \<longleftrightarrow> a = b"
proof -
  have "(\<forall>(x, y) \<in> set (zip a b). x = y) \<longleftrightarrow> a = b" if "length a = length b"
    using that by (induction a b rule: list_induct2) auto
  then show ?thesis
    by (auto simp: constant_time_eq_def fold_or_zero)
qed

lemma position_Some: "position P xs = Some i \<longleftrightarrow> i < length xs \<and> P (xs ! i) \<and> (\<forall>j < i. \<not> P (xs ! j))"
proof (induction xs arbitrary: i)
  case (Cons x xs)
  then show ?case
    by (cases i) (auto simp: nth_Cons' gr0_conv_Suc less_Suc_eq_0_disj)
qed simp

lemma position_None: "position P xs = None \<longleftrightarrow> (\<forall>x \<in> set xs. \<not> P x)"
  by (induction xs) auto

lemma parse_bearer_non_empty: "parse_bearer h = Some t \<Longrightarrow> t \<noteq> []"
  by (auto simp: parse_bearer_def Option.bind_eq_Some_conv Let_def split: if_splits)

lemma match_tenant_api_key_Inr:
  "match_tenant_api_key A rq = Inr key \<longleftrightarrow>
     (if ac_test_mode A then key = None
      else \<exists>token i. bearer_token rq = Some token \<and> position (\<lambda>k. k = token) (ac_tenant_api_keys A) = Some i
        \<and> key = Some \<lparr>tk_index = i, tk_id = tenant_key_id A token\<rparr>)"
proof (cases "bearer_token rq")
  case (Some token)
  then have "token \<noteq> []"
    by (auto simp: bearer_token_def Option.bind_eq_Some_conv dest: parse_bearer_non_empty)
  then show ?thesis
    using Some by (auto simp: match_tenant_api_key_def Let_def constant_time_eq_iff str_bytes_inj split: option.splits)
qed (auto simp: match_tenant_api_key_def)

lemma admit_tenant_call_Inr: "admit_tenant_call A rq now lim = (Inr key, lim') \<Longrightarrow> match_tenant_api_key A rq = Inr key"
  by (auto simp: admit_tenant_call_def split: sum.splits if_splits prod.splits)

section \<open>Lemmas: requests in flight\<close>

lemma move_fields [simp]:
  "ga_validator (move i pl s) = ga_validator s" "ga_mutex (move i pl s) = ga_mutex s" "ga_flight (move i pl s) = (ga_flight s)(i \<mapsto> pl)"
  "ga_writes (move i pl s) = ga_writes s" "ga_forwarded (move i pl s) = ga_forwarded s" "ga_merged (move i pl s) = ga_merged s"
  by (simp_all add: move_def)

lemma finish_fields [simp]:
  "ga_validator (finish i pl s) = ga_validator s" "ga_mutex (finish i pl s) \<longleftrightarrow> ga_mutex s \<and> \<not> holds_lock pl"
  "ga_flight (finish i pl s) = (ga_flight s)(i := None)" "ga_writes (finish i pl s) = ga_writes s"
  "ga_forwarded (finish i pl s) = ga_forwarded s" "ga_merged (finish i pl s) = ga_merged s"
  by (simp_all add: finish_def)

lemma forward_fields [simp]:
  "ga_validator (forward i rq a g s) = ga_validator s" "ga_writes (forward i rq a g s) = ga_writes s"
  "ga_forwarded (forward i rq a g s) = (rq, a) # ga_forwarded s" "ga_merged (forward i rq a g s) = ga_merged s"
  by (auto simp: forward_def Let_def split: option.splits)

lemma forward_cases:
  obtains (save) b where "is_save rq" "rq_body rq = Some b" "forward i rq a g s = move i (SaveRead a b g) (s\<lparr>ga_forwarded := (rq, a) # ga_forwarded s\<rparr>)"
  | (other) "forward i rq a g s = finish i (SaveDone g) (s\<lparr>ga_forwarded := (rq, a) # ga_forwarded s\<rparr>)"
  by (cases "is_save rq"; cases "rq_body rq") (auto simp: forward_def Let_def)

lemma save_not_public [simp]: "is_save rq \<Longrightarrow> \<not> is_always_public (rq_path rq)" "is_save rq \<Longrightarrow> \<not> starts_with TENANT_PREFIX (rq_path rq)"
  by (simp_all add: is_save_def is_always_public_def starts_with_def TENANT_PREFIX_def)

text \<open>The handler's check of the caller.\<close>

definition may_write :: "access_config \<Rightarrow> attachment \<Rightarrow> bool" where
  "may_write A a \<longleftrightarrow> is_ok (require_admin a (ac_admin_role A))"

text \<open>What holds of a request at each place, given the credentials in memory.\<close>

fun place_ok :: "access_config \<Rightarrow> party_credentials list \<Rightarrow> place \<Rightarrow> bool" where
  "place_ok A cs (WantsToken rq) \<longleftrightarrow> (is_save rq \<longrightarrow> cs \<noteq> [])"
| "place_ok A cs (WantsLock rq) \<longleftrightarrow> is_save rq"
| "place_ok A cs (Locked rq) \<longleftrightarrow> is_save rq"
| "place_ok A cs (SaveRead a b g) \<longleftrightarrow> (g \<or> cs \<noteq> [])"
| "place_ok A cs (SaveCheck a b ex g) \<longleftrightarrow> (g \<or> cs \<noteq> [])"
| "place_ok A cs (SavePersist a c g) \<longleftrightarrow> (may_write A a \<and> cs \<noteq> []) \<or> (g \<and> cs = [])"
| "place_ok A cs (SaveMemory a c g) \<longleftrightarrow> (may_write A a \<and> cs \<noteq> []) \<or> (g \<and> cs = [])"
| "place_ok A cs _ \<longleftrightarrow> True"

definition locks_ok :: "'k gate \<Rightarrow> bool" where
  "locks_ok s \<longleftrightarrow> (\<forall>i pl. ga_flight s i = Some pl \<and> holds_lock pl \<longrightarrow>
     ga_mutex s \<and> (\<forall>j pl'. ga_flight s j = Some pl' \<and> holds_lock pl' \<longrightarrow> j = i))"

definition flight_ok :: "access_config \<Rightarrow> 'k gate \<Rightarrow> bool" where
  "flight_ok A s \<longleftrightarrow> (\<forall>i pl. ga_flight s i = Some pl \<longrightarrow> place_ok A (ga_creds s) pl)"

definition writes_ok :: "access_config \<Rightarrow> bool \<Rightarrow> 'k gate \<Rightarrow> bool" where
  "writes_ok A configured s \<longleftrightarrow> (configured \<or> ga_writes s \<noteq> [] \<longrightarrow> ga_creds s \<noteq> [])
     \<and> (\<forall>(a, c) \<in> set (if configured then ga_writes s else butlast (ga_writes s)). may_write A a)"

definition ginv :: "access_config \<Rightarrow> bool \<Rightarrow> 'k gate \<Rightarrow> bool" where
  "ginv A configured s \<longleftrightarrow> locks_ok s \<and> flight_ok A s \<and> writes_ok A configured s"

lemma ginv_place: "ginv A configured s \<Longrightarrow> ga_flight s i = Some pl \<Longrightarrow> place_ok A (ga_creds s) pl"
  by (simp add: ginv_def flight_ok_def)

lemma ginv_finish:
  assumes "ginv A configured s" "ga_flight s i = Some pl'" "holds_lock pl \<longleftrightarrow> holds_lock pl'"
  shows "ginv A configured (finish i pl s)"
  using assms by (auto simp: ginv_def locks_ok_def flight_ok_def writes_ok_def)

lemma ginv_move:
  assumes "ginv A configured s" "ga_flight s i = Some pl'" "holds_lock pl \<longrightarrow> holds_lock pl'" "place_ok A (ga_creds s) pl"
  shows "ginv A configured (move i pl s)"
  using assms by (auto simp: ginv_def locks_ok_def flight_ok_def writes_ok_def)

lemma ginv_ghost [simp]:
  "ginv A configured (s\<lparr>ga_forwarded := f\<rparr>) = ginv A configured s" "ginv A configured (s\<lparr>ga_limiter := lim\<rparr>) = ginv A configured s"
  "ginv A configured (s\<lparr>ga_merged := m\<rparr>) = ginv A configured s" "ginv A configured (s\<lparr>ga_rows := rows\<rparr>) = ginv A configured s"
  by (simp_all add: ginv_def locks_ok_def flight_ok_def writes_ok_def)

lemma ginv_forward:
  assumes "ginv A configured s" "ga_flight s i = Some pl'" "g \<longleftrightarrow> holds_lock pl'" "is_save rq \<longrightarrow> g \<or> ga_creds s \<noteq> []"
  shows "ginv A configured (forward i rq a g s)"
  by (rule forward_cases [of rq i a g s])
    (insert assms, auto intro!: ginv_move [where pl' = pl'] ginv_finish [where pl' = pl'])

lemma put_credentials_non_empty [simp]: "put_credentials c cs \<noteq> []"
  by (cases cs) auto

lemma vstep_creds: "vstep V L v v' \<Longrightarrow> vs_past v' = vs_past v \<Longrightarrow> vs_creds v' = vs_creds v"
  by (erule vstep.cases) auto

lemma ginv_memory:
  assumes "ginv A configured s" "ga_flight s i = Some (SaveMemory a c g)"
  shows "ginv A configured (memory_step i a c g s)"
proof -
  have pl: "may_write A a \<and> ga_creds s \<noteq> [] \<or> (g \<and> ga_creds s = [])"
    using ginv_place [OF assms] by simp
  have "ginv A configured (move i (SaveDone g) s)"
    using assms by (intro ginv_move [where pl' = "SaveMemory a c g"]) auto
  then have locks: "locks_ok (memory_step i a c g s)"
    by (simp add: ginv_def locks_ok_def memory_step_def Let_def)
  have "place_ok A (put_credentials c (ga_creds s)) pl" if "ga_flight s j = Some pl" "j \<noteq> i" for j pl
  proof -
    have "place_ok A (ga_creds s) pl" "ga_creds s = [] \<longrightarrow> \<not> holds_lock pl"
      using assms that pl by (auto simp: ginv_def flight_ok_def locks_ok_def)
    then show ?thesis by (cases pl) auto
  qed
  then have "flight_ok A (memory_step i a c g s)"
    by (auto simp: flight_ok_def memory_step_def Let_def)
  moreover have "writes_ok A configured (memory_step i a c g s)"
    using assms(1) pl by (cases "ga_writes s") (auto simp: ginv_def writes_ok_def memory_step_def Let_def)
  ultimately show ?thesis
    using locks by (simp add: ginv_def)
qed

lemma ginv_lock:
  assumes "ginv A configured s" "ga_flight s i = Some (WantsLock rq)"
  shows "ginv A configured (lock_step i rq s)"
proof (cases "ga_mutex s")
  case True
  then show ?thesis
    using assms by (simp add: lock_step_def ginv_finish)
next
  case False
  then have "\<forall>j pl. ga_flight s j = Some pl \<longrightarrow> \<not> holds_lock pl"
    using assms(1) by (auto simp: ginv_def locks_ok_def)
  moreover have "is_save rq"
    using ginv_place [OF assms] by simp
  ultimately show ?thesis
    using assms(1) False by (auto simp: lock_step_def ginv_def locks_ok_def flight_ok_def writes_ok_def)
qed

lemma ginv_recheck:
  assumes "ginv A configured s" "ga_flight s i = Some (Locked rq)"
  shows "ginv A configured (recheck_step i rq s)"
proof (cases "ga_creds s = []")
  case True
  then show ?thesis
    using assms by (auto simp: recheck_step_def intro: ginv_forward)
next
  case False
  then show ?thesis
    using assms unfolding recheck_step_def ginv_def locks_ok_def flight_ok_def writes_ok_def by (auto split: if_splits)
qed

lemma ginv_arrive:
  assumes "ginv A configured s" "ga_flight s i = Some (Arrived rq)"
  shows "ginv A configured (arrive_step A i now rq s)"
proof -
  have f: "ginv A configured (forward i rq a False (s\<lparr>ga_limiter := lim\<rparr>))" if "\<not> is_save rq" for a lim
    using assms that by (intro ginv_forward) auto
  have e: "ginv A configured (finish i (Arrived rq) (s\<lparr>ga_limiter := lim\<rparr>))" for lim
    using assms by (intro ginv_finish) auto
  have m: "ginv A configured (move i pl s)" if "\<not> holds_lock pl" "place_ok A (ga_creds s) pl" for pl
    using assms that by (intro ginv_move) auto
  have p: "ginv A configured (forward i rq Nothing False s)" if "\<not> is_save rq"
    using assms that by (intro ginv_forward) auto
  show ?thesis
    using save_not_public [of rq] f e m p
    by (cases "is_save rq") (auto simp: arrive_step_def split: prod.splits sum.splits)
qed

lemma ginv_check:
  assumes "ginv A configured s" "ga_flight s i = Some (SaveCheck a b ex g)"
  shows "ginv A configured (check_step A i a b ex g s)"
proof -
  have g: "g \<or> ga_creds s \<noteq> []"
    using ginv_place [OF assms] by simp
  have e: "ginv A configured (finish i (SaveDone g) s)"
    using assms by (intro ginv_finish) auto
  have "ginv A configured (move i (SavePersist a c g) (s\<lparr>ga_merged := b # ga_merged s\<rparr>))"
    if "ga_creds s \<noteq> [] \<longrightarrow> may_write A a" for c
    using assms g that by (intro ginv_move [where pl' = "SaveCheck a b ex g"]) auto
  then show ?thesis
    using e by (auto simp: check_step_def may_write_def split: sum.splits)
qed

lemma ginv_step:
  assumes "gstep A V L E s s'" "ginv A configured s"
  shows "ginv A configured s'"
  using assms(1)
proof cases
  case (validating v)
  then show ?thesis
    using assms(2) vstep_creds [OF validating(2,3)] by (simp add: ginv_def locks_ok_def flight_ok_def writes_ok_def)
next
  case (new_request i rq)
  then show ?thesis
    using assms(2) by (auto simp: ginv_def locks_ok_def flight_ok_def writes_ok_def)
next
  case (accepted i rq p t)
  then have "is_save rq \<longrightarrow> ga_creds s \<noteq> []"
    using ginv_place [OF assms(2)] by fastforce
  then show ?thesis
    using accepted assms(2) by (auto intro!: ginv_forward)
next
  case (mocked i rq)
  then have "is_save rq \<longrightarrow> ga_creds s \<noteq> []"
    using ginv_place [OF assms(2)] by fastforce
  then show ?thesis
    using mocked assms(2) by (auto intro!: ginv_forward)
next
  case (save_read i a b g)
  then have "g \<or> ga_creds s \<noteq> []"
    using ginv_place [OF assms(2)] by fastforce
  then show ?thesis
    using save_read assms(2) by (auto intro!: ginv_move)
next
  case (persisted i a c g nonce row)
  then have "place_ok A (ga_creds s) (SavePersist a c g)"
    using ginv_place [OF assms(2)] by fastforce
  then show ?thesis
    using persisted assms(2) by (auto intro!: ginv_move)
qed (insert assms(2), auto intro: ginv_arrive ginv_lock ginv_recheck ginv_check ginv_memory ginv_finish)

lemma ginv_reach: "greach A V L E s0 s \<Longrightarrow> ginv A configured s0 \<Longrightarrow> ginv A configured s"
  by (induction rule: greach.induct) (auto intro: ginv_step)

lemma ginv_start: "ginv A (creds \<noteq> []) (gstart creds rows now)"
  by (simp add: ginv_def gstart_def locks_ok_def flight_ok_def writes_ok_def vstart_def)

subsection \<open>What reaches a handler\<close>

definition entry_ok :: "access_config \<Rightarrow> bool \<Rightarrow> 'k vstate \<Rightarrow> request \<Rightarrow> attachment \<Rightarrow> bool" where
  "entry_ok A configured v rq a \<longleftrightarrow>
     is_always_public (rq_path rq) \<and> a = Nothing
   \<or> starts_with TENANT_PREFIX (rq_path rq) \<and> (\<exists>key. a = TenantCaller key \<and> match_tenant_api_key A rq = Inr key)
   \<or> (\<exists>p. a = Authenticated p \<and> (if ac_test_mode A then p = mock_principal A else \<exists>t. (token_of rq, p, t) \<in> set (vs_accepted v)))
   \<or> is_save rq \<and> a = Nothing \<and> \<not> configured"

definition entries_ok :: "access_config \<Rightarrow> validator \<Rightarrow> 'k jwtlib \<Rightarrow> bool \<Rightarrow> 'k gate \<Rightarrow> bool" where
  "entries_ok A V L configured s \<longleftrightarrow> vreach V L (ga_validator s)
     \<and> (\<forall>(rq, a) \<in> set (ga_forwarded s). entry_ok A configured (ga_validator s) rq a)"

lemma vstep_accepted: "vstep V L v v' \<Longrightarrow> set (vs_accepted v) \<subseteq> set (vs_accepted v')"
  by (erule vstep.cases) auto

lemma entry_ok_mono: "entry_ok A configured v rq a \<Longrightarrow> set (vs_accepted v) \<subseteq> set (vs_accepted v') \<Longrightarrow> entry_ok A configured v' rq a"
  unfolding entry_ok_def by (auto split: if_splits)

lemma entries_ok_forward:
  "entries_ok A V L configured s \<Longrightarrow> entry_ok A configured (ga_validator s) rq a \<Longrightarrow> entries_ok A V L configured (forward i rq a g s)"
  by (auto simp: entries_ok_def)

lemma entries_ok_same:
  "entries_ok A V L configured s \<Longrightarrow> ga_validator s' = ga_validator s \<Longrightarrow> ga_forwarded s' = ga_forwarded s \<Longrightarrow> entries_ok A V L configured s'"
  by (simp add: entries_ok_def)

lemma entries_ok_validator:
  assumes "entries_ok A V L configured s" "vstep V L (ga_validator s) v" "ga_validator s' = v" "ga_forwarded s' = ga_forwarded s"
  shows "entries_ok A V L configured s'"
  using assms vreach_step [OF _ assms(2)] entry_ok_mono [OF _ vstep_accepted [OF assms(2)]]
  unfolding entries_ok_def by fastforce

lemma entries_ok_arrive:
  assumes "entries_ok A V L configured s"
  shows "entries_ok A V L configured (arrive_step A i now rq s)"
proof -
  have lim: "entries_ok A V L configured (s\<lparr>ga_limiter := lim\<rparr>)" for lim
    using assms by (rule entries_ok_same) simp_all
  have "entries_ok A V L configured (forward i rq (TenantCaller key) False (s\<lparr>ga_limiter := lim\<rparr>))"
    if "starts_with TENANT_PREFIX (rq_path rq)" "admit_tenant_call A rq now (ga_limiter s) = (Inr key, lim)" for key lim
    using that admit_tenant_call_Inr by (intro entries_ok_forward lim) (fastforce simp: entry_ok_def)
  moreover have "entries_ok A V L configured (forward i rq Nothing False s)" if "is_always_public (rq_path rq)"
    using that by (intro entries_ok_forward assms) (simp add: entry_ok_def)
  moreover have "entries_ok A V L configured (finish i (Arrived rq) (s\<lparr>ga_limiter := lim\<rparr>))"
    "entries_ok A V L configured (move i pl s)" for lim pl
    by (rule entries_ok_same [OF assms]; simp)+
  ultimately show ?thesis
    by (auto simp: arrive_step_def split: prod.splits sum.splits)
qed

lemma entries_ok_recheck:
  assumes "entries_ok A V L configured s" "ginv A configured s" "ga_flight s i = Some (Locked rq)"
  shows "entries_ok A V L configured (recheck_step i rq s)"
proof (cases "ga_creds s = []")
  case True
  then have "\<not> configured" "is_save rq"
    using assms(2) ginv_place [OF assms(2,3)] by (auto simp: ginv_def writes_ok_def)
  then have "entries_ok A V L configured (forward i rq Nothing True s)"
    by (intro entries_ok_forward assms) (simp add: entry_ok_def)
  then show ?thesis
    using True by (simp add: recheck_step_def)
next
  case False
  then show ?thesis
    by (intro entries_ok_same [OF assms(1)]) (simp_all add: recheck_step_def)
qed

lemma entries_ok_step:
  assumes "gstep A V L E s s'" "entries_ok A V L configured s" "ginv A configured s"
  shows "entries_ok A V L configured s'"
  using assms(1)
proof cases
  case (validating v)
  then show ?thesis
    by (intro entries_ok_validator [OF assms(2)]) simp_all
next
  case (arrived i rq now)
  then show ?thesis
    using entries_ok_arrive [OF assms(2)] by simp
next
  case (recheck i rq)
  then show ?thesis
    using entries_ok_recheck [OF assms(2,3)] by simp
next
  case (accepted i rq p t)
  then show ?thesis
    by (auto intro!: entries_ok_forward assms simp: entry_ok_def)
next
  case (mocked i rq)
  then show ?thesis
    by (auto intro!: entries_ok_forward assms simp: entry_ok_def)
next
  case (memory i a c g)
  then show ?thesis
    by (intro entries_ok_validator [OF assms(2) reconfigure]) (auto simp: memory_step_def Let_def)
next
  case (try_lock i rq)
  then show ?thesis
    by (intro entries_ok_same [OF assms(2)]) (simp_all add: lock_step_def)
next
  case (save_check i a b ex g)
  then show ?thesis
    by (intro entries_ok_same [OF assms(2)]) (auto simp: check_step_def split: sum.splits)
qed (rule entries_ok_same [OF assms(2)]; simp)+

lemma entries_ok_reach:
  assumes "greach A V L E (gstart creds rows now) s"
  shows "entries_ok A V L (creds \<noteq> []) s"
  using assms
proof (induction rule: greach.induct)
  case greach_start
  then show ?case
    by (auto simp: entries_ok_def gstart_def intro: vreach_start)
next
  case (greach_step s s')
  then show ?case
    using entries_ok_step ginv_reach [OF greach_step(1) ginv_start] by blast
qed

subsection \<open>Where stored secrets come from\<close>

datatype slot = Client_secret | Username | Password | Auth0_secret

definition carried :: "slot \<Rightarrow> string \<Rightarrow> string option \<Rightarrow> (slot \<times> string \<times> string) set" where
  "carried k endpoint v = (\<lambda>x. (k, endpoint, x)) ` set_option v"

text \<open>The secrets of a party's credentials, and those a request brings along, with the endpoint they are sent to.\<close>

definition secrets_of :: "party_credentials \<Rightarrow> (slot \<times> string \<times> string) set" where
  "secrets_of c = (let k = pc_keycloak c in
     carried Client_secret (kc_url k) (kc_client_secret k) \<union> carried Username (kc_url k) (kc_username k)
   \<union> carried Password (kc_url k) (kc_password k)
   \<union> (case pc_auth0 c of None \<Rightarrow> {} | Some a \<Rightarrow> {(Auth0_secret, m2m_domain a, m2m_client_secret a)}))"

definition submitted :: "party_config_request \<Rightarrow> (slot \<times> string \<times> string) set" where
  "submitted rq =
     carried Client_secret (rq_keycloak_url rq) (rq_keycloak_client_secret rq)
   \<union> carried Username (rq_keycloak_url rq) (rq_keycloak_username rq) \<union> carried Password (rq_keycloak_url rq) (rq_keycloak_password rq)
   \<union> (case rq_auth0_domain rq of None \<Rightarrow> {} | Some d \<Rightarrow> carried Auth0_secret d (rq_auth0_client_secret rq))"

definition secrets_opt :: "party_credentials option \<Rightarrow> (slot \<times> string \<times> string) set" where
  "secrets_opt c = (case c of None \<Rightarrow> {} | Some c \<Rightarrow> secrets_of c)"

lemma non_empty_Some: "non_empty v = Some x \<longleftrightarrow> v = Some x \<and> x \<noteq> []"
  by (auto simp: non_empty_def split: option.splits list.splits)

lemma non_empty_None: "non_empty v = None \<longleftrightarrow> v = None \<or> v = Some []"
  by (auto simp: non_empty_def split: option.splits list.splits)

lemma merge_optional_secret_Some:
  "merge_optional_secret new existing = Some x \<Longrightarrow> new = Some x \<or> (new = None \<and> existing = Some x)"
  by (auto simp: merge_optional_secret_def split: option.splits if_splits)

lemma merge_keycloak_secrets:
  assumes "merge_keycloak test_mode rq (map_option pc_keycloak existing) = Inr k" "pc_keycloak c = k" "pc_auth0 c = None"
  shows "secrets_of c \<subseteq> submitted rq \<union> secrets_opt existing"
proof (cases "differs (rq_keycloak_url rq) (map_option kc_url (map_option pc_keycloak existing))")
  case True
  then have k: "kc_url k = rq_keycloak_url rq" "kc_client_secret k = non_empty (rq_keycloak_client_secret rq)"
      "kc_username k = non_empty (rq_keycloak_username rq)" "kc_password k = non_empty (rq_keycloak_password rq)"
    using assms(1) by (auto simp: merge_keycloak_def Let_def split: if_splits)
  show ?thesis
    using assms(2,3) unfolding secrets_of_def submitted_def carried_def Let_def by (auto simp: k non_empty_Some)
next
  case False
  then have same: "existing = Some e \<Longrightarrow> kc_url (pc_keycloak e) = rq_keycloak_url rq" for e
    by (simp add: differs_def)
  have k: "kc_url k = rq_keycloak_url rq"
      "kc_client_secret k = merge_optional_secret (rq_keycloak_client_secret rq) (Option.bind (map_option pc_keycloak existing) kc_client_secret)"
      "kc_username k = merge_optional_secret (rq_keycloak_username rq) (Option.bind (map_option pc_keycloak existing) kc_username)"
      "kc_password k = merge_optional_secret (rq_keycloak_password rq) (Option.bind (map_option pc_keycloak existing) kc_password)"
    using assms(1) False by (auto simp: merge_keycloak_def Let_def split: if_splits)
  show ?thesis
    using same assms(2,3) unfolding secrets_of_def submitted_def carried_def secrets_opt_def Let_def
    by (cases existing) (auto simp: k dest!: merge_optional_secret_Some)
qed

lemma merge_auth0_secrets:
  assumes "merge_auth0 rq (Option.bind existing pc_auth0) = Inr a" "pc_keycloak c = keycloak_default" "pc_auth0 c = Some a"
  shows "secrets_of c \<subseteq> submitted rq \<union> secrets_opt existing"
  using assms
  by (cases existing)
    (auto simp: merge_auth0_def and_then_Inr_iff ok_or_Inr ensure_Inr non_empty_Some non_empty_None Let_def differs_def secrets_of_def keycloak_default_def
       submitted_def secrets_opt_def carried_def split: option.splits)

lemma new_credentials_secrets:
  assumes "new_credentials test_mode rq existing = Inr c"
  shows "secrets_of c \<subseteq> submitted rq \<union> secrets_opt existing"
proof (cases "non_empty (rq_auth0_domain rq) = None")
  case True
  then show ?thesis
    using assms merge_keycloak_secrets [of test_mode rq existing _ c] by (auto simp: new_credentials_def Let_def and_then_Inr_iff)
next
  case False
  then show ?thesis
    using assms merge_auth0_secrets [of rq existing _ c] by (auto simp: new_credentials_def Let_def and_then_Inr_iff)
qed

text \<open>The credentials a node holds, in memory and in requests in flight.\<close>

fun held :: "place \<Rightarrow> party_credentials set" where
  "held (SaveCheck _ _ ex _) = set_option ex"
| "held (SavePersist _ c _) = {c}"
| "held (SaveMemory _ c _) = {c}"
| "held _ = {}"

definition known :: "'k gate \<Rightarrow> party_credentials set" where
  "known s = set (ga_creds s) \<union> (\<Union>i. \<Union>pl \<in> set_option (ga_flight s i). held pl)"

definition traceable :: "(slot \<times> string \<times> string) set \<Rightarrow> 'k gate \<Rightarrow> bool" where
  "traceable S s \<longleftrightarrow> (\<forall>c \<in> known s. secrets_of c \<subseteq> S \<union> (\<Union>rq \<in> set (ga_merged s). submitted rq))"

lemma known_ghost [simp]:
  "known (s\<lparr>ga_limiter := lim\<rparr>) = known s" "known (s\<lparr>ga_mutex := m\<rparr>) = known s" "known (s\<lparr>ga_merged := rqs\<rparr>) = known s"
  by (simp_all add: known_def)

lemma known_move: "known (move i pl s) \<subseteq> known s \<union> held pl"
  by (auto simp: known_def split: if_splits)

lemma known_finish: "known (finish i pl s) \<subseteq> known s"
  by (auto simp: known_def split: if_splits)

lemma known_forward: "known (forward i rq a g s) \<subseteq> known s"
  by (rule forward_cases [of rq i a g s]) (auto simp: known_def split: if_splits)

lemma known_flight: "ga_flight s i = Some pl \<Longrightarrow> held pl \<subseteq> known s"
  unfolding known_def by (metis UN_upper le_supI2 option.set_intros UNIV_I dual_order.trans)

lemma set_put_credentials: "set (put_credentials c cs) \<subseteq> insert c (set cs)"
  by (induction c cs rule: put_credentials.induct) auto

lemma traceable_same:
  assumes "traceable S s" "known s' \<subseteq> known s" "ga_merged s' = ga_merged s"
  shows "traceable S s'"
  using assms unfolding traceable_def by (metis subsetD)

lemma traceable_check:
  assumes "traceable S s" "ga_flight s i = Some (SaveCheck a b ex g)"
  shows "traceable S (check_step A i a b ex g s)"
proof (cases "\<exists>c. new_credentials (ac_test_mode A) b ex = Inr c \<and>
    check_step A i a b ex g s = move i (SavePersist a c g) (s\<lparr>ga_merged := b # ga_merged s\<rparr>)")
  case True
  then obtain c where c: "new_credentials (ac_test_mode A) b ex = Inr c"
      "check_step A i a b ex g s = move i (SavePersist a c g) (s\<lparr>ga_merged := b # ga_merged s\<rparr>)"
    by blast
  have "secrets_opt ex \<subseteq> S \<union> (\<Union>rq \<in> set (ga_merged s). submitted rq)"
    using assms known_flight [OF assms(2)] by (fastforce simp: traceable_def secrets_opt_def split: option.splits)
  then have "secrets_of c \<subseteq> S \<union> (\<Union>rq \<in> set (b # ga_merged s). submitted rq)"
    using new_credentials_secrets [OF c(1)] by auto
  moreover have "known (check_step A i a b ex g s) \<subseteq> known s \<union> {c}"
    unfolding c(2) by (auto simp: known_def split: if_splits)
  ultimately show ?thesis
    using assms(1) unfolding traceable_def c(2) by fastforce
next
  case False
  then have "check_step A i a b ex g s = finish i (SaveDone g) s"
    by (auto simp: check_step_def split: sum.splits if_splits)
  then show ?thesis
    using known_finish by (intro traceable_same [OF assms(1)]) auto
qed

lemma traceable_step:
  assumes "gstep A V L E s s'" "traceable S s"
  shows "traceable S s'"
  using assms(1)
proof cases
  case (validating v)
  then show ?thesis
    using vstep_creds [OF validating(2,3)] by (intro traceable_same [OF assms(2)]) (auto simp: known_def)
next
  case (arrived i rq now)
  have "known (forward i rq a False (s\<lparr>ga_limiter := lim\<rparr>)) \<subseteq> known s" "known (finish i pl (s\<lparr>ga_limiter := lim\<rparr>)) \<subseteq> known s"
      "known (forward i rq a False s) \<subseteq> known s" "held pl = {} \<Longrightarrow> known (move i pl s) \<subseteq> known s" for a lim pl
    using known_forward [of i rq a False "s\<lparr>ga_limiter := lim\<rparr>"] known_finish [of i pl "s\<lparr>ga_limiter := lim\<rparr>"]
      known_forward [of i rq a False s] known_move [of i pl s] by simp_all
  then have "known s' \<subseteq> known s \<and> ga_merged s' = ga_merged s"
    unfolding arrived(1) arrive_step_def by (simp split: prod.splits sum.splits)
  then show ?thesis
    by (intro traceable_same [OF assms(2)]) auto
next
  case (recheck i rq)
  have "known s' \<subseteq> known s \<and> ga_merged s' = ga_merged s"
    unfolding recheck(1) recheck_step_def
    using known_forward [of i rq Nothing True s] known_move [of i "WantsToken rq" "s\<lparr>ga_mutex := False\<rparr>"] by simp
  then show ?thesis
    by (intro traceable_same [OF assms(2)]) auto
next
  case (try_lock i rq)
  then show ?thesis
    by (intro traceable_same [OF assms(2)]) (auto simp: lock_step_def known_def split: if_splits)
next
  case (save_read i a b g)
  then have "known s' \<subseteq> known s"
    by (auto simp: known_def find_credentials_def find_Some_iff split: if_splits)
  then show ?thesis
    using save_read by (intro traceable_same [OF assms(2)]) auto
next
  case (save_check i a b ex g)
  then show ?thesis
    using traceable_check [OF assms(2)] by simp
next
  case (persisted i a c g nonce row)
  then have "known s' \<subseteq> known s"
    using known_flight [of s i] by (auto simp: known_def split: if_splits)
  then show ?thesis
    using persisted by (intro traceable_same [OF assms(2)]) auto
next
  case (memory i a c g)
  then have "known s' \<subseteq> known s"
    using known_flight [of s i] set_put_credentials [of c "ga_creds s"]
    by (auto simp: known_def memory_step_def Let_def split: if_splits)
  then show ?thesis
    using memory by (intro traceable_same [OF assms(2)]) (auto simp: memory_step_def Let_def)
qed (insert known_move known_finish known_forward, rule traceable_same [OF assms(2)]; fastforce)+

lemma traceable_reach: "greach A V L E s0 s \<Longrightarrow> traceable S s0 \<Longrightarrow> traceable S s"
  by (induction rule: greach.induct) (auto intro: traceable_step)

section \<open>Properties\<close>

text \<open>C4: on a node that is not in test mode, a request that reaches a handler is for one of the public paths; or is a
  tenant call with one of the configured keys as its bearer token, which the handler is told; or carries a bearer token for which
  there is the evidence of \<open>Token_Validation\<close> (it was verified with a key of a trusted issuer), whose principal the handler is given;
  or is a \<open>PUT /party-config\<close> on a node that booted without credentials.\<close>

theorem access_control:
  assumes "greach A V L E (gstart creds rows now) s" "(rq, a) \<in> set (ga_forwarded s)" "\<not> ac_test_mode A"
  shows "is_always_public (rq_path rq) \<and> a = Nothing
    \<or> (\<exists>token i. starts_with TENANT_PREFIX (rq_path rq) \<and> bearer_token rq = Some token \<and> i < length (ac_tenant_api_keys A)
         \<and> ac_tenant_api_keys A ! i = token \<and> a = TenantCaller (Some \<lparr>tk_index = i, tk_id = tenant_key_id A token\<rparr>))
    \<or> (\<exists>p t. a = Authenticated p \<and> evidence V L (vs_past (ga_validator s)) (vs_log (ga_validator s)) (token_of rq) p t)
    \<or> (is_save rq \<and> a = Nothing \<and> creds = [])"
proof -
  have v: "vreach V L (ga_validator s)" and e: "entry_ok A (creds \<noteq> []) (ga_validator s) rq a"
    using entries_ok_reach [OF assms(1)] assms(2) by (auto simp: entries_ok_def)
  have "evidence V L (vs_past (ga_validator s)) (vs_log (ga_validator s)) token p t"
    if "(token, p, t) \<in> set (vs_accepted (ga_validator s))" for token p t
    using vinv_reach [OF v] that unfolding vinv_def by blast
  moreover have "is_always_public (rq_path rq) \<and> a = Nothing
    \<or> starts_with TENANT_PREFIX (rq_path rq) \<and> (\<exists>token i. bearer_token rq = Some token \<and> i < length (ac_tenant_api_keys A)
         \<and> ac_tenant_api_keys A ! i = token \<and> a = TenantCaller (Some \<lparr>tk_index = i, tk_id = tenant_key_id A token\<rparr>))
    \<or> (\<exists>p t. a = Authenticated p \<and> (token_of rq, p, t) \<in> set (vs_accepted (ga_validator s)))
    \<or> is_save rq \<and> a = Nothing \<and> creds = []"
    using e assms(3) unfolding entry_ok_def match_tenant_api_key_Inr position_Some by simp blast
  ultimately show ?thesis by blast
qed


text \<open>C7: a client secret, username, password or Auth0 secret in memory was there at boot with the same server
  (Keycloak URL or Auth0 domain), or came in a request together with that server: changing the server of a party never sends a stored
  secret to the new one, whatever changes run at the same time.\<close>

theorem secrets_stay_home:
  assumes "greach A V L E (gstart creds rows now) s" "c \<in> set (ga_creds s)" "(slot, endpoint, secret) \<in> secrets_of c"
  shows "(\<exists>c0 \<in> set creds. (slot, endpoint, secret) \<in> secrets_of c0) \<or> (\<exists>rq \<in> set (ga_merged s). (slot, endpoint, secret) \<in> submitted rq)"
proof -
  have "traceable (\<Union>c0 \<in> set creds. secrets_of c0) (gstart creds rows now)"
    by (auto simp: traceable_def known_def gstart_def vstart_def)
  from traceable_reach [OF assms(1) this] assms(2,3) show ?thesis
    unfolding traceable_def known_def by fastforce
qed

text \<open>C36: checks of any number of keys in the order of their times never allow a key more than twice its limit within
  any sixty seconds, and never more than its limit within the window its first request opens.\<close>

theorem tenant_rate_bound:
  assumes "sorted (map snd reqs)"
  shows "allowed_in k t (t + WINDOW) (rate_run limit Map.empty reqs) \<le> 2 * limit
    \<and> (\<forall>x rest. reqs = (k, x) # rest \<longrightarrow> allowed_in k x (x + WINDOW) (rate_run limit Map.empty reqs) \<le> limit)"
proof (intro conjI allI impI)
  show "allowed_in k t (t + WINDOW) (rate_run limit Map.empty reqs) \<le> 2 * limit"
    by (rule rate_run_bound [OF assms]) simp
  fix x rest
  assume r: "reqs = (k, x) # rest"
  let ?w = "\<lparr>win_started = x, win_count = 0\<rparr>"
  have "rate_run limit Map.empty reqs = rate_run limit [k \<mapsto> ?w] reqs"
    using rate_check_None [of Map.empty k limit x] by (simp add: r)
  moreover have "allowed_in k x (x + WINDOW) (rate_run limit [k \<mapsto> ?w] reqs) \<le> limit - win_count ?w"
    using assms by (intro window_budget) (auto simp: r)
  ultimately show "allowed_in k x (x + WINDOW) (rate_run limit Map.empty reqs) \<le> limit"
    by simp
qed

text \<open>A refused call leaves the key's budget as it was, is told to wait between 1 and 60 whole seconds, and a call
  after that wait is allowed, however often the key was refused in between.\<close>

theorem retry_after_honest:
  assumes "rate_check lim k limit now = (Limited wait, lim')" "lim k = Some w" "win_started w \<le> now" "win_count w \<le> limit" "0 < limit"
  shows "lim' = lim \<and> 1 \<le> retry_after_secs wait \<and> retry_after_secs wait \<le> 60
    \<and> (\<forall>later. now + retry_after_secs wait * 10 ^ 9 \<le> later \<longrightarrow> fst (rate_check lim' k limit later) = Allowed)"
proof -
  have w: "now - win_started w < WINDOW" "win_count w = limit" "wait = WINDOW - (now - win_started w)" "lim' = lim"
    using assms by (auto simp: rate_check_def Let_def fun_upd_idem split: if_splits)
  have ceil: "wait \<le> retry_after_secs wait * 10 ^ 9"
    unfolding retry_after_secs_def by (auto simp: max_def)
  have "wait \<le> WINDOW"
    using w(3) by simp
  then have "wait \<le> 60 * 1000000000"
    by (simp add: WINDOW_def)
  then have "0 < wait mod 1000000000 \<Longrightarrow> wait div 1000000000 < 60" "wait div 1000000000 \<le> 60"
    using div_mult_mod_eq [of wait 1000000000] by linarith+
  then have "1 \<le> retry_after_secs wait \<and> retry_after_secs wait \<le> 60"
    by (auto simp: retry_after_secs_def)
  moreover have "fst (rate_check lim' k limit later) = Allowed" if "now + retry_after_secs wait * 10 ^ 9 \<le> later" for later
  proof -
    have "WINDOW \<le> later - win_started w"
      using that ceil w(1,3) assms(3) by linarith
    then show ?thesis
      using assms(2,5) w(4) by (simp add: rate_check_def Let_def)
  qed
  ultimately show ?thesis
    using w(4) by simp
qed

text \<open>AES-GCM and base64 as documented: what was sealed opens to the plaintext, and a sealed text is longer than its plaintext.\<close>

definition aead_ok :: "aead \<Rightarrow> bool" where
  "aead_ok E \<longleftrightarrow> (\<forall>b. ae_unb64 E (ae_b64 E b) = Some b)
     \<and> (\<forall>k n p c. ae_seal E k n p = Some c \<longrightarrow> ae_unseal E k n c = Some p \<and> length p < length c)"

lemma decrypt_encrypt:
  assumes "aead_ok E" "encrypt E nonce s = Some t" "\<forall>n. nonce = Some n \<longrightarrow> length n = 12" "rust_str s"
  shows "decrypt E t = Some s"
proof (cases "ae_key E")
  case None
  then show ?thesis
    using assms by (simp add: encrypt_def decrypt_def)
next
  case (Some key)
  then obtain n c where n: "nonce = Some n" "ae_seal E key n (str_bytes s) = Some c" "t = ae_b64 E (n @ c)"
    using assms(2) by (auto simp: encrypt_def Option.bind_eq_Some_conv)
  then have "length n = 12" "ae_unb64 E t = Some (n @ c)"
    using assms(1,3) by (simp_all add: aead_ok_def)
  moreover have "ae_unseal E key n c = Some (str_bytes s) \<and> length (str_bytes s) < length c"
    using assms(1) n(2) unfolding aead_ok_def by blast
  ultimately show ?thesis
    using Some assms(4) by (auto simp: decrypt_def from_utf8_def rust_str_def)
qed

definition texts_of :: "party_credentials \<Rightarrow> string set" where
  "texts_of c = (let k = pc_keycloak c in
     {kc_client_id k} \<union> set_option (kc_client_secret k) \<union> set_option (kc_username k) \<union> set_option (kc_password k)
   \<union> (case pc_auth0 c of None \<Rightarrow> {} | Some a \<Rightarrow> {m2m_client_id a, m2m_client_secret a}))"

lemma opt_map_Some:
  "opt_map f x = Some y \<longleftrightarrow> (x = None \<and> y = None \<or> (\<exists>v w. x = Some v \<and> f v = Some w \<and> y = Some w))"
  by (auto simp: opt_map_def split: option.splits)

lemma opt_map_decrypt_encrypt:
  assumes "aead_ok E" "opt_map (encrypt E nonce) v = Some w" "\<forall>n. nonce = Some n \<longrightarrow> length n = 12" "\<forall>s \<in> set_option v. rust_str s"
  shows "opt_map (decrypt E) w = Some v"
  using assms decrypt_encrypt [OF assms(1) _ assms(3)] by (auto simp: opt_map_Some)

text \<open>What the table stores for a party's credentials is read back as the same credentials, with and without
  an encryption key.\<close>

theorem credentials_round_trip:
  assumes "hex_codec H" "aead_ok E" "\<And>i n. nonce i = Some n \<Longrightarrow> length n = 12" "credentials_row H E nonce c = Some row"
    and "parsed_id H (pc_dec_party_id c)" "parsed_id H (pc_member_party_id c)" "\<forall>s \<in> texts_of c. rust_str s"
    and "kc_internal_url (pc_keycloak c) = None"
  shows "row_credentials H E row = Some c"
proof -
  have ids: "parse_id H (canton_id_display H (pc_dec_party_id c)) = Some (pc_dec_party_id c)"
      "parse_id H (canton_id_display H (pc_member_party_id c)) = Some (pc_member_party_id c)"
    using assms(5,6) hex_codec.parse_sound(2) [OF assms(1)] by (auto simp: parse_id_def parsed_id_def)
  have d: "encrypt E (nonce i) s = Some t \<Longrightarrow> rust_str s \<Longrightarrow> decrypt E t = Some s"
      "opt_map (encrypt E (nonce i)) v = Some w \<Longrightarrow> \<forall>s \<in> set_option v. rust_str s \<Longrightarrow> opt_map (decrypt E) w = Some v" for i s t v w
    using decrypt_encrypt [OF assms(2), of "nonce i" s t] opt_map_decrypt_encrypt [OF assms(2), of "nonce i" v w] assms(3) by auto
  from assms(4) obtain a0 cid sec usr pw where r: "opt_map (\<lambda>a. Option.bind (encrypt E (nonce 0) (m2m_client_id a)) (\<lambda>i.
       Option.bind (encrypt E (nonce 1) (m2m_client_secret a)) (\<lambda>s. Some (m2m_domain a, m2m_audience a, i, s)))) (pc_auth0 c) = Some a0"
      and k: "encrypt E (nonce 2) (kc_client_id (pc_keycloak c)) = Some cid" "opt_map (encrypt E (nonce 3)) (kc_client_secret (pc_keycloak c)) = Some sec"
      "opt_map (encrypt E (nonce 4)) (kc_username (pc_keycloak c)) = Some usr" "opt_map (encrypt E (nonce 5)) (kc_password (pc_keycloak c)) = Some pw"
      and row: "row = \<lparr>pr_dec_party_id = canton_id_display H (pc_dec_party_id c), pr_member_party_id = canton_id_display H (pc_member_party_id c),
         pr_user_id = pc_user_id c, pr_keycloak_url = kc_url (pc_keycloak c), pr_keycloak_realm = kc_realm (pc_keycloak c),
         pr_keycloak_client_id = cid, pr_keycloak_client_secret = sec, pr_keycloak_username = usr, pr_keycloak_password = pw,
         pr_auth0_domain = map_option (\<lambda>(d, a, i, s). d) a0, pr_auth0_audience = map_option (\<lambda>(d, a, i, s). a) a0,
         pr_auth0_client_id = map_option (\<lambda>(d, a, i, s). i) a0, pr_auth0_client_secret = map_option (\<lambda>(d, a, i, s). s) a0\<rparr>"
    unfolding credentials_row_def Option.bind_eq_Some_conv by blast
  have texts: "rust_str (kc_client_id (pc_keycloak c))" "\<forall>s \<in> set_option (kc_client_secret (pc_keycloak c)). rust_str s"
      "\<forall>s \<in> set_option (kc_username (pc_keycloak c)). rust_str s" "\<forall>s \<in> set_option (kc_password (pc_keycloak c)). rust_str s"
      "pc_auth0 c = Some a \<Longrightarrow> rust_str (m2m_client_id a) \<and> rust_str (m2m_client_secret a)" for a
    using assms(7) by (auto simp: texts_of_def Let_def)
  note dk = d(1) [OF k(1) texts(1)] d(2) [OF k(2) texts(2)] d(2) [OF k(3) texts(3)] d(2) [OF k(4) texts(4)]
  show ?thesis
  proof (cases "pc_auth0 c")
    case None
    then have "a0 = None"
      using r by (simp add: opt_map_def)
    then show ?thesis
      using ids dk None assms(8) by (simp add: row_credentials_def row)
  next
    case (Some a)
    then obtain i s where "encrypt E (nonce 0) (m2m_client_id a) = Some i" "encrypt E (nonce 1) (m2m_client_secret a) = Some s"
        "a0 = Some (m2m_domain a, m2m_audience a, i, s)"
      using r by (auto simp: opt_map_Some Option.bind_eq_Some_conv)
    then show ?thesis
      using ids dk Some assms(8) texts(5) [OF Some] d(1) by (simp add: row_credentials_def row)
  qed
qed

section \<open>What the first-run exemption depends on\<close>

lemma greach_trans: "greach A V L E s1 s2 \<Longrightarrow> greach A V L E s0 s1 \<Longrightarrow> greach A V L E s0 s2"
  by (induction rule: greach.induct) (auto intro: greach.intros)

text \<open>A call without credentials on a node whose memory holds none.\<close>

lemma unauthenticated_save:
  fixes L :: "'k jwtlib"
  assumes "is_save rq" "rq_body rq = Some b" "new_credentials (ac_test_mode A) b None = Inr c"
    and "credentials_row (ac_hex A) E nonce c = Some row"
  shows "\<exists>s. greach A V L E (gstart [] rows now) s \<and> ga_writes s = [(Nothing, c)] \<and> ga_creds s = [c]
    \<and> ga_rows s = upsert_party_credentials row rows \<and> ga_forwarded s = [(rq, Nothing)] \<and> ga_merged s = [b]"
proof -
  define s1 :: "'k gate" where "s1 = move 0 (Arrived rq) (gstart [] rows now)"
  define s2 where "s2 = move 0 (WantsLock rq) s1"
  define s3 where "s3 = move 0 (Locked rq) (s2\<lparr>ga_mutex := True\<rparr>)"
  define s4 where "s4 = move 0 (SaveRead Nothing b True) (s3\<lparr>ga_forwarded := (rq, Nothing) # ga_forwarded s3\<rparr>)"
  define s5 where "s5 = move 0 (SaveCheck Nothing b None True) s4"
  define s6 where "s6 = move 0 (SavePersist Nothing c True) (s5\<lparr>ga_merged := b # ga_merged s5\<rparr>)"
  define s7 where "s7 = move 0 (SaveMemory Nothing c True) (s6\<lparr>ga_rows := upsert_party_credentials row (ga_rows s6)\<rparr>)"
  have creds: "ga_creds s1 = []" "ga_creds s3 = []" "ga_creds s4 = []" "ga_creds s5 = []"
    by (simp_all add: s1_def s2_def s3_def s4_def s5_def gstart_def vstart_def)
  have 1: "gstep A V L E (gstart [] rows now) s1"
    unfolding s1_def by (rule new_request) (simp add: gstart_def)
  have "arrive_step A 0 now rq s1 = s2"
    using assms(1) creds by (simp add: arrive_step_def s2_def)
  then have 2: "gstep A V L E s1 s2"
    using arrived [of s1 0 rq] by (metis s1_def move_fields(3) fun_upd_same)
  have "lock_step 0 rq s2 = s3"
    by (simp add: lock_step_def s3_def s2_def s1_def gstart_def)
  then have 3: "gstep A V L E s2 s3"
    using try_lock [of s2 0 rq] by (metis s2_def move_fields(3) fun_upd_same)
  have "recheck_step 0 rq s3 = s4"
    using assms(1,2) creds by (simp add: recheck_step_def forward_def s4_def)
  then have 4: "gstep A V L E s3 s4"
    using recheck [of s3 0 rq] by (metis s3_def move_fields(3) fun_upd_same)
  have 5: "gstep A V L E s4 s5"
    using save_read [of s4 0 Nothing b True] creds by (simp add: s5_def s4_def find_credentials_def)
  have "check_step A 0 Nothing b None True s5 = s6"
    using assms(3) creds by (simp add: check_step_def s6_def)
  then have 6: "gstep A V L E s5 s6"
    using save_check [of s5 0 Nothing b None True] by (metis s5_def move_fields(3) fun_upd_same)
  have 7: "gstep A V L E s6 s7"
    unfolding s7_def by (rule persisted [OF _ assms(4)]) (simp add: s6_def)
  have 8: "gstep A V L E s7 (memory_step 0 Nothing c True s7)"
    by (rule memory) (simp add: s7_def)
  have "greach A V L E (gstart [] rows now) (memory_step 0 Nothing c True s7)"
    by (rule greach_step [OF greach_step [OF greach_step [OF greach_step [OF greach_step [OF greach_step [OF greach_step
          [OF greach_step [OF greach_start 1] 2] 3] 4] 5] 6] 7] 8])
  moreover have "ga_rows (move i pl s) = ga_rows s" for i pl and s :: "'k gate"
    by (simp add: move_def)
  ultimately show ?thesis
    by (intro exI [of _ "memory_step 0 Nothing c True s7"])
      (simp add: memory_step_def Let_def s7_def s6_def s5_def s4_def s3_def s2_def s1_def gstart_def vstart_def)
qed

text \<open>C37: when reading the table of credentials fails at boot, the node starts as if it had never been
  configured: a caller without any token may then overwrite the credentials of a party in the table, although the table is not
  empty.\<close>

theorem failed_read_reopens_bootstrap:
  assumes "is_save rq" "rq_body rq = Some b" "new_credentials (ac_test_mode A) b None = Inr c"
    and "credentials_row (ac_hex A) E nonce c = Some row"
  shows "\<exists>s. greach A V L E (gstart (load_credentials H E None) rows now) s \<and> ga_writes s = [(Nothing, c)]
    \<and> ga_rows s = upsert_party_credentials row rows"
  using unauthenticated_save [OF assms] by (fastforce simp: load_credentials_def)

text \<open>Two saves of one party at the same time: the one commits its row first and writes the memory last.\<close>

theorem racing_saves_disagree:
  fixes s :: "'k gate"
  assumes "ga_flight s i = Some (SavePersist a c g)" "ga_flight s j = Some (SavePersist a' c' g')" "i \<noteq> j"
    and "pc_dec_party_id c' = pc_dec_party_id c" "credentials_row (ac_hex A) E nonce c = Some row" "credentials_row (ac_hex A) E nonce' c' = Some row'"
  shows "\<exists>s'. greach A V L E s s' \<and> find_credentials (pc_dec_party_id c) (ga_creds s') = Some c
    \<and> last (ga_rows s') = row' \<and> ga_flight s' i = Some (SaveDone g) \<and> ga_flight s' j = Some (SaveDone g')"
proof -
  have rows: "ga_rows (move i pl s) = ga_rows s" for i pl and s :: "'k gate"
    by (simp add: move_def)
  have put: "find_credentials (pc_dec_party_id c) (put_credentials c cs) = Some c" for cs
    by (induction cs) (auto simp: find_credentials_def)
  define s1 where "s1 = move i (SaveMemory a c g) (s\<lparr>ga_rows := upsert_party_credentials row (ga_rows s)\<rparr>)"
  define s2 where "s2 = move j (SaveMemory a' c' g') (s1\<lparr>ga_rows := upsert_party_credentials row' (ga_rows s1)\<rparr>)"
  define s3 where "s3 = memory_step j a' c' g' s2"
  define s4 where "s4 = memory_step i a c g s3"
  have 1: "gstep A V L E s s1"
    unfolding s1_def by (rule persisted [OF assms(1,5)])
  have 2: "gstep A V L E s1 s2"
    unfolding s2_def by (rule persisted [OF _ assms(6)]) (insert assms(2,3), simp add: s1_def)
  have 3: "gstep A V L E s2 s3"
    unfolding s3_def by (rule memory) (simp add: s2_def)
  have 4: "gstep A V L E s3 s4"
    unfolding s4_def by (rule memory) (simp add: s3_def s2_def s1_def assms(3) memory_step_def Let_def)
  have "greach A V L E s s4"
    by (rule greach_step [OF greach_step [OF greach_step [OF greach_step [OF greach_start 1] 2] 3] 4])
  then show ?thesis
    using assms(3) by (intro exI [of _ s4])
      (simp add: s4_def s3_def s2_def s1_def memory_step_def Let_def put rows upsert_party_credentials_def)
qed

section \<open>Examples\<close>

definition example_party :: canton_id where
  "example_party = CantonId ''dec'' (Namespace (replicate 34 7))"

definition example_body :: party_config_request where
  "example_body = \<lparr>rq_dec_party_id = example_party, rq_member_party_id = example_party, rq_user_id = ''user'', rq_keycloak_url = '''',
     rq_keycloak_realm = '''', rq_keycloak_client_id = '''', rq_keycloak_client_secret = None, rq_keycloak_username = None,
     rq_keycloak_password = None, rq_auth0_domain = Some ''tenant.auth0.com'', rq_auth0_audience = Some ''api'',
     rq_auth0_client_id = Some ''client'', rq_auth0_client_secret = Some ''secret''\<rparr>"

definition example_credentials :: party_credentials where
  "example_credentials = \<lparr>pc_dec_party_id = example_party, pc_member_party_id = example_party, pc_user_id = ''user'',
     pc_keycloak = keycloak_default,
     pc_auth0 = Some \<lparr>m2m_domain = ''tenant.auth0.com'', m2m_audience = ''api'', m2m_client_id = ''client'', m2m_client_secret = ''secret''\<rparr>\<rparr>"

definition example_request :: request where
  "example_request = \<lparr>rq_method = ''PUT'', rq_path = ''/party-config'', rq_authorization = None, rq_body = Some example_body\<rparr>"

definition example_access :: access_config where
  "example_access = \<lparr>ac_test_mode = False, ac_tenant_api_keys = [], ac_rate_limit = 60, ac_admin_role = Some ''admin'',
     ac_sha256 = (\<lambda>b. b), ac_hex = std_hex\<rparr>"

text \<open>No encryption key, and one whose cipher appends a byte.\<close>

definition example_aead :: "bytes option \<Rightarrow> aead" where
  "example_aead key = \<lparr>ae_key = key, ae_b64 = bytes_str, ae_unb64 = (\<lambda>s. Some (str_bytes s)), ae_seal = (\<lambda>k n p. Some (p @ [0])),
     ae_unseal = (\<lambda>k n c. Some (butlast c))\<rparr>"

definition example_row :: "(nat \<Rightarrow> bytes option) \<Rightarrow> bytes option \<Rightarrow> party_credentials_row" where
  "example_row nonce key = the (credentials_row std_hex (example_aead key) nonce example_credentials)"

lemma example_new: "new_credentials (ac_test_mode example_access) example_body None = Inr example_credentials"
  by (simp add: new_credentials_def example_body_def merge_auth0_def non_empty_def ok_or_def ensure_def differs_def Let_def
      example_credentials_def)

lemma example_save: "is_save example_request" "rq_body example_request = Some example_body"
  by (simp_all add: is_save_def example_request_def)

lemma example_row_eq:
  "nonce = (\<lambda>_. Some (replicate 12 0)) \<Longrightarrow> credentials_row std_hex (example_aead key) nonce example_credentials = Some (example_row nonce key)"
  by (cases key) (simp_all add: example_row_def credentials_row_def example_credentials_def opt_map_def encrypt_def example_aead_def
      keycloak_default_def)

lemma example_row_access:
  "credentials_row (ac_hex example_access) (example_aead None) (\<lambda>_. Some (replicate 12 0)) example_credentials
     = Some (example_row (\<lambda>_. Some (replicate 12 0)) None)"
  by (simp add: example_access_def example_row_eq)

lemmas example_run = unauthenticated_save [OF example_save example_new example_row_access, of example_validator example_lib "[]" 0]

theorem access_control_witness:
  "\<exists>s. greach example_access example_validator example_lib (example_aead None) (gstart [] [] 0) s
     \<and> ga_forwarded s = [(example_request, Nothing)] \<and> \<not> is_always_public (rq_path example_request)"
proof -
  obtain s where s: "greach example_access example_validator example_lib (example_aead None) (gstart [] [] 0) s"
      "ga_forwarded s = [(example_request, Nothing)]"
    using example_run by blast
  then have "(example_request, Nothing) \<in> set (ga_forwarded s)" "\<not> ac_test_mode example_access"
    by (simp_all add: example_access_def)
  from access_control [OF s(1) this] s show ?thesis
    using save_not_public(1) [OF example_save(1)] by blast
qed


theorem secrets_stay_home_witness:
  "\<exists>s. greach example_access example_validator example_lib (example_aead None) (gstart [] [] 0) s \<and> ga_creds s = [example_credentials]
     \<and> (\<exists>rq \<in> set (ga_merged s). (Auth0_secret, ''tenant.auth0.com'', ''secret'') \<in> submitted rq)"
proof -
  obtain s where s: "greach example_access example_validator example_lib (example_aead None) (gstart [] [] 0) s"
      "ga_creds s = [example_credentials]"
    using example_run by blast
  have "example_credentials \<in> set (ga_creds s)" "(Auth0_secret, ''tenant.auth0.com'', ''secret'') \<in> secrets_of example_credentials"
    using s(2) by (simp_all add: secrets_of_def example_credentials_def)
  from secrets_stay_home [OF s(1) this] s show ?thesis by auto
qed

theorem failed_read_reopens_bootstrap_witness:
  "\<exists>s. greach example_access example_validator example_lib (example_aead None)
      (gstart (load_credentials std_hex (example_aead None) None) [example_row (\<lambda>_. Some (replicate 12 0)) None] 0) s
     \<and> ga_writes s = [(Nothing, example_credentials)]"
  using failed_read_reopens_bootstrap [OF example_save example_new example_row_access, of example_validator example_lib std_hex
      "[example_row (\<lambda>_. Some (replicate 12 0)) None]" 0] by blast

theorem tenant_rate_bound_witness:
  "sorted (map snd [(0, 0), (1, 1), (0, 2), (0, 3 :: nat)]) \<and> rate_run 2 Map.empty [(0, 0), (1, 1), (0, 2), (0, 3)] = [(0, 0), (1, 1), (0, 2)]
     \<and> allowed_in 0 0 (0 + WINDOW) (rate_run 2 Map.empty [(0, 0), (1, 1), (0, 2), (0, 3)]) \<le> 2 * 2"
  using tenant_rate_bound [of "[(0, 0), (1, 1), (0, 2), (0, 3)]" 0 0 2]
  by (simp add: rate_check_def WINDOW_def Let_def)

theorem retry_after_honest_witness:
  "rate_check [0 \<mapsto> \<lparr>win_started = 0, win_count = 1\<rparr>] 0 1 (10 ^ 9) = (Limited (59 * 10 ^ 9), [0 \<mapsto> \<lparr>win_started = 0, win_count = 1\<rparr>])
     \<and> 1 \<le> retry_after_secs (59 * 10 ^ 9) \<and> retry_after_secs (59 * 10 ^ 9) \<le> 60"
proof -
  have r: "rate_check [0 \<mapsto> \<lparr>win_started = 0, win_count = 1\<rparr>] 0 1 (10 ^ 9) = (Limited (59 * 10 ^ 9), [0 \<mapsto> \<lparr>win_started = 0, win_count = 1\<rparr>])"
    by (simp add: rate_check_def WINDOW_def Let_def)
  show ?thesis
    using r retry_after_honest [OF r, of "\<lparr>win_started = 0, win_count = 1\<rparr>"] by simp
qed

lemma example_party_parsed: "parsed_id std_hex example_party"
  using std.parse_display_no_colon [of example_party]
  by (auto simp: parsed_id_def example_party_def wf_id_def wf_namespace_def NAMESPACE_LENGTH_def)

theorem credentials_round_trip_witness:
  "row_credentials std_hex (example_aead (Some [1])) (example_row (\<lambda>_. Some (replicate 12 0)) (Some [1])) = Some example_credentials"
proof (rule credentials_round_trip [where nonce = "\<lambda>_. Some (replicate 12 0)"])
  show "hex_codec std_hex"
    by (rule std.hex_codec_axioms)
  show "aead_ok (example_aead (Some [1]))"
    by (simp add: aead_ok_def example_aead_def)
  show "credentials_row std_hex (example_aead (Some [1])) (\<lambda>_. Some (replicate 12 0)) example_credentials
      = Some (example_row (\<lambda>_. Some (replicate 12 0)) (Some [1]))"
    by (simp add: example_row_eq)
  show "\<forall>s \<in> texts_of example_credentials. rust_str s"
    by (simp add: texts_of_def example_credentials_def keycloak_default_def rust_str_def str_bytes_def)
qed (simp_all add: example_credentials_def example_party_parsed keycloak_default_def)

end
