(* ===== verification/Ledger_Record.thy ===== *)
theory Ledger_Record
  imports Token_Validation
begin

text \<open>
  Values of the ledger API and how this node reads and builds them: \<open>decman-lib/src/framework/record.rs\<close> (the field readers), the
  constructors of \<open>encode.rs\<close> a command is built with, the envelope of \<open>commands.rs\<close> and the event formats of \<open>filters.rs\<close>.

  The protobuf types are the messages of \<open>canton-proto-rs\<close>: a \<open>Value\<close> holds at most one \<open>Sum\<close>, a \<open>RecordField\<close> at most one value, and the
  type identifiers a record, a variant or an enum may carry are left out, since this code neither reads nor sets them.  The decimal
  parser and the calendar library are parameters (\<open>valuelib\<close>).
\<close>

section \<open>Values\<close>

datatype dvalue = DValue (value_sum: "dsum option")
and dsum =
    SUnit
  | SBool bool
  | SInt64 int
  | SDate int
  | STimestamp int
  | SNumeric string
  | SParty string
  | SText string
  | SContractId string
  | SOptional "dvalue option"
  | SList "dvalue list"
  | STextMap "(string \<times> dvalue option) list"
  | SGenMap "(dvalue option \<times> dvalue option) list"
  | SRecord "(string \<times> dvalue option) list"
  | SVariant string "dvalue option"
  | SEnum string

type_synonym drecord = "(string \<times> dvalue option) list"

text \<open>\<open>vl_decimal\<close> is \<open>DamlDecimal::parse\<close>, \<open>vl_time\<close> is \<open>DateTime::from_timestamp_micros\<close>, \<open>vl_seconds\<close> is \<open>Duration::seconds\<close>, which
  panics (\<open>None\<close>) outside its range.  An instant and a duration are nanoseconds.\<close>

record 'd valuelib =
  vl_hex :: hexlib
  vl_decimal :: "string \<Rightarrow> 'd option"
  vl_time :: "int \<Rightarrow> int option"
  vl_seconds :: "int \<Rightarrow> int option"

section \<open>Readers\<close>

text \<open>Every error of a reader is \<open>Error::Decode\<close> with a message.\<close>

datatype decode_error = Decode string

definition record_value :: "drecord \<Rightarrow> string \<Rightarrow> dvalue option" where
  "record_value rec label = Option.bind (find (\<lambda>f. fst f = label) rec) snd"

definition record_has_field :: "drecord \<Rightarrow> string \<Rightarrow> bool" where
  "record_has_field rec label = list_ex (\<lambda>f. fst f = label) rec"

definition record_field :: "drecord \<Rightarrow> string \<Rightarrow> dsum option" where
  "record_field rec label = Option.bind (record_value rec label) value_sum"

definition named :: "string \<Rightarrow> string \<Rightarrow> decode_error" where
  "named label what = Decode (''field `'' @ label @ ''`: '' @ what)"

definition parse_party :: "'d valuelib \<Rightarrow> string \<Rightarrow> string \<Rightarrow> decode_error + canton_id" where
  "parse_party V label p = map_err (\<lambda>_. named label (''invalid party id `'' @ p @ ''`'')) (canton_id_parse (vl_hex V) p)"

definition field_party_id :: "'d valuelib \<Rightarrow> drecord \<Rightarrow> string \<Rightarrow> decode_error + canton_id" where
  "field_party_id V rec label = (case record_field rec label of
     Some (SParty p) \<Rightarrow> parse_party V label p
   | _ \<Rightarrow> Inl (named label ''expected a Party value''))"

definition field_decimal :: "'d valuelib \<Rightarrow> drecord \<Rightarrow> string \<Rightarrow> decode_error + 'd" where
  "field_decimal V rec label = (case record_field rec label of
     Some (SNumeric n) \<Rightarrow> ok_or (named label (''invalid decimal `'' @ n @ ''`'')) (vl_decimal V n)
   | _ \<Rightarrow> Inl (named label ''expected a Numeric value''))"

definition field_time :: "'d valuelib \<Rightarrow> drecord \<Rightarrow> string \<Rightarrow> decode_error + int" where
  "field_time V rec label = (case record_field rec label of
     Some (STimestamp t) \<Rightarrow> ok_or (named label ''timestamp is out of range'') (vl_time V t)
   | _ \<Rightarrow> Inl (named label ''expected a Time value''))"

definition field_optional_is_none :: "drecord \<Rightarrow> string \<Rightarrow> bool" where
  "field_optional_is_none rec label = (case record_field rec label of Some (SOptional v) \<Rightarrow> v = None | _ \<Rightarrow> False)"

definition field_list_len :: "drecord \<Rightarrow> string \<Rightarrow> decode_error + nat" where
  "field_list_len rec label = (case record_field rec label of
     Some (SList l) \<Rightarrow> Inr (length l)
   | _ \<Rightarrow> Inl (named label ''expected a List value''))"

definition field_record :: "drecord \<Rightarrow> string \<Rightarrow> drecord option" where
  "field_record rec label = (case record_field rec label of Some (SRecord r) \<Rightarrow> Some r | _ \<Rightarrow> None)"

definition field_party_list :: "'d valuelib \<Rightarrow> drecord \<Rightarrow> string \<Rightarrow> decode_error + canton_id list" where
  "field_party_list V rec label = (case record_field rec label of
     Some (SList l) \<Rightarrow> collect_results (map (\<lambda>e. case value_sum e of
         Some (SParty p) \<Rightarrow> parse_party V label p
       | _ \<Rightarrow> Inl (named label ''element is not a Party'')) l)
   | _ \<Rightarrow> Inl (named label ''expected a List value''))"

definition extract_party :: "dvalue \<Rightarrow> decode_error + string" where
  "extract_party v = (case value_sum v of Some (SParty p) \<Rightarrow> Inr p | _ \<Rightarrow> Inl (Decode ''Expected Party value''))"

definition extract_party_id :: "'d valuelib \<Rightarrow> dvalue \<Rightarrow> decode_error + canton_id" where
  "extract_party_id V v = and_then (extract_party v) (\<lambda>p.
     map_err (\<lambda>_. Decode (''invalid party id `'' @ p @ ''`'')) (canton_id_parse (vl_hex V) p))"

definition extract_text :: "dvalue \<Rightarrow> decode_error + string" where
  "extract_text v = (case value_sum v of Some (SText t) \<Rightarrow> Inr t | _ \<Rightarrow> Inl (Decode ''Expected Text value''))"

definition extract_int64 :: "dvalue \<Rightarrow> decode_error + int" where
  "extract_int64 v = (case value_sum v of Some (SInt64 n) \<Rightarrow> Inr n | _ \<Rightarrow> Inl (Decode ''Expected Int64 value''))"

definition extract_numeric :: "dvalue \<Rightarrow> decode_error + string" where
  "extract_numeric v = (case value_sum v of Some (SNumeric n) \<Rightarrow> Inr n | _ \<Rightarrow> Inl (Decode ''Expected Numeric value''))"

definition extract_contract_id :: "dvalue \<Rightarrow> decode_error + string" where
  "extract_contract_id v = (case value_sum v of Some (SContractId c) \<Rightarrow> Inr c | _ \<Rightarrow> Inl (Decode ''Expected ContractId value''))"

definition extract_record :: "dvalue \<Rightarrow> decode_error + drecord" where
  "extract_record v = (case value_sum v of Some (SRecord r) \<Rightarrow> Inr r | _ \<Rightarrow> Inl (Decode ''Expected Record value''))"

definition extract_list :: "dvalue \<Rightarrow> decode_error + dvalue list" where
  "extract_list v = (case value_sum v of Some (SList l) \<Rightarrow> Inr l | _ \<Rightarrow> Inl (Decode ''Expected List value''))"

definition get_field :: "drecord \<Rightarrow> string \<Rightarrow> decode_error + dvalue" where
  "get_field rec label = ok_or (Decode (''Missing field: '' @ label)) (record_value rec label)"

definition field_party :: "drecord \<Rightarrow> string \<Rightarrow> string option" where
  "field_party rec label = (case record_field rec label of Some (SParty p) \<Rightarrow> Some p | _ \<Rightarrow> None)"

definition field_text :: "drecord \<Rightarrow> string \<Rightarrow> string option" where
  "field_text rec label = (case record_field rec label of Some (SText t) \<Rightarrow> Some t | _ \<Rightarrow> None)"

definition field_numeric :: "drecord \<Rightarrow> string \<Rightarrow> string option" where
  "field_numeric rec label = (case record_field rec label of Some (SNumeric n) \<Rightarrow> Some n | _ \<Rightarrow> None)"

definition field_timestamp :: "drecord \<Rightarrow> string \<Rightarrow> int option" where
  "field_timestamp rec label = (case record_field rec label of Some (STimestamp t) \<Rightarrow> Some t | _ \<Rightarrow> None)"

definition field_contract_id :: "drecord \<Rightarrow> string \<Rightarrow> string option" where
  "field_contract_id rec label = (case record_field rec label of Some (SContractId c) \<Rightarrow> Some c | _ \<Rightarrow> None)"

definition field_int64 :: "drecord \<Rightarrow> string \<Rightarrow> int option" where
  "field_int64 rec label = (case record_field rec label of Some (SInt64 i) \<Rightarrow> Some i | _ \<Rightarrow> None)"

definition party_keys :: "(dvalue option \<times> dvalue option) list \<Rightarrow> string list" where
  "party_keys entries = List.map_filter (\<lambda>(k, _). Option.bind k (\<lambda>k. case value_sum k of Some (SParty p) \<Rightarrow> Some p | _ \<Rightarrow> None)) entries"

definition extract_genmap_parties :: "dvalue \<Rightarrow> string list option" where
  "extract_genmap_parties v = (case value_sum v of Some (SGenMap es) \<Rightarrow> Some (party_keys es) | _ \<Rightarrow> None)"

definition extract_party_set :: "dvalue \<Rightarrow> string list option" where
  "extract_party_set v = (case value_sum v of
     Some (SRecord r) \<Rightarrow> Option.bind (record_value r ''map'') extract_genmap_parties
   | Some (SGenMap es) \<Rightarrow> Some (party_keys es)
   | _ \<Rightarrow> None)"

definition extract_optional_party_set :: "dvalue \<Rightarrow> string list option" where
  "extract_optional_party_set v = (case value_sum v of
     Some (SOptional (Some inner)) \<Rightarrow> extract_party_set inner
   | Some (SOptional None) \<Rightarrow> Some []
   | _ \<Rightarrow> None)"

definition extract_reltime :: "dvalue \<Rightarrow> int option" where
  "extract_reltime v = (case value_sum v of
     Some (SRecord r) \<Rightarrow> Option.bind (record_value r ''microseconds'')
       (\<lambda>m. case value_sum m of Some (SInt64 i) \<Rightarrow> Some i | _ \<Rightarrow> None)
   | Some (SInt64 i) \<Rightarrow> Some i
   | _ \<Rightarrow> None)"

definition extract_optional_reltime :: "dvalue \<Rightarrow> int option" where
  "extract_optional_reltime v = (case value_sum v of Some (SOptional w) \<Rightarrow> Option.bind w extract_reltime | _ \<Rightarrow> None)"

section \<open>Constructors\<close>

definition make_party :: "hexlib \<Rightarrow> canton_id \<Rightarrow> dvalue" where
  "make_party H p = DValue (Some (SParty (canton_id_display H p)))"

definition make_contract_id :: "string \<Rightarrow> dvalue" where
  "make_contract_id c = DValue (Some (SContractId c))"

definition rec_field :: "string \<Rightarrow> dvalue \<Rightarrow> string \<times> dvalue option" where
  "rec_field label v = (label, Some v)"

definition make_record :: "drecord \<Rightarrow> dvalue" where
  "make_record fs = DValue (Some (SRecord fs))"

definition make_list :: "dvalue list \<Rightarrow> dvalue" where
  "make_list vs = DValue (Some (SList vs))"

definition make_text_map :: "(string \<times> dvalue) list \<Rightarrow> dvalue" where
  "make_text_map entries = DValue (Some (STextMap (map (\<lambda>(k, v). (k, Some v)) entries)))"

definition make_empty_text_map :: dvalue where
  "make_empty_text_map = make_text_map []"

definition make_empty_metadata :: dvalue where
  "make_empty_metadata = make_record [rec_field ''values'' make_empty_text_map]"

definition make_extra_args :: "dvalue \<Rightarrow> dvalue" where
  "make_extra_args context_values = make_record
     [rec_field ''context'' (make_record [rec_field ''values'' context_values]), rec_field ''meta'' make_empty_metadata]"

text \<open>\<open>make_party_set\<close>: the \<open>BTreeSet\<close> sorts the printed identifiers and drops duplicates.\<close>

definition make_party_set :: "hexlib \<Rightarrow> canton_id list \<Rightarrow> dvalue" where
  "make_party_set H parties = make_record [rec_field ''map'' (DValue (Some (SGenMap
     (map (\<lambda>p. (Some (DValue (Some (SParty p))), Some (DValue (Some SUnit))))
        (remdups (sort (map (canton_id_display H) parties)))))))]"

definition make_optional_party_set :: "hexlib \<Rightarrow> canton_id list option \<Rightarrow> dvalue" where
  "make_optional_party_set H opt = DValue (Some (SOptional (map_option (make_party_set H) opt)))"

section \<open>Commands and event formats\<close>

record ident =
  id_package :: string
  id_module :: string
  id_entity :: string

record exercise_command =
  ex_template_id :: ident
  ex_contract_id :: string
  ex_choice :: string
  ex_choice_argument :: dvalue

text \<open>\<open>commands_envelope\<close>: every field it leaves empty is left out.\<close>

record commands =
  cm_command_id :: string
  cm_commands :: "exercise_command list"
  cm_act_as :: "string list"
  cm_read_as :: "string list"

definition commands_envelope :: "hexlib \<Rightarrow> string \<Rightarrow> canton_id \<Rightarrow> canton_id \<Rightarrow> exercise_command list \<Rightarrow> commands" where
  "commands_envelope H command_id member governance_party cs =
     \<lparr>cm_command_id = command_id, cm_commands = cs, cm_act_as = [canton_id_display H member],
      cm_read_as = [canton_id_display H governance_party]\<rparr>"

datatype event_filter = WildcardFilter | TemplateFilter ident | InterfaceFilter ident

record event_format =
  ef_by_party :: "(string \<times> event_filter list) list"
  ef_verbose :: bool

definition party_event_format :: "hexlib \<Rightarrow> canton_id \<Rightarrow> event_filter list \<Rightarrow> bool \<Rightarrow> event_format" where
  "party_event_format H p cumulative verbose = \<lparr>ef_by_party = [(canton_id_display H p, cumulative)], ef_verbose = verbose\<rparr>"

section \<open>What the readers say\<close>

text \<open>The inversion of each reader: the field is there with the right shape.\<close>

lemma field_party_id_ok [result_simps]:
  "field_party_id V rec l = Inr p \<longleftrightarrow> (\<exists>s. record_field rec l = Some (SParty s) \<and> canton_id_parse (vl_hex V) s = Inr p)"
  by (auto simp: field_party_id_def parse_party_def result_simps split: option.splits dsum.splits)

lemma field_time_ok [result_simps]:
  "field_time V rec l = Inr t \<longleftrightarrow> (\<exists>m. record_field rec l = Some (STimestamp m) \<and> vl_time V m = Some t)"
  by (auto simp: field_time_def result_simps split: option.splits dsum.splits)

lemma field_list_len_ok [result_simps]:
  "field_list_len rec l = Inr n \<longleftrightarrow> (\<exists>vs. record_field rec l = Some (SList vs) \<and> length vs = n)"
  by (auto simp: field_list_len_def split: option.splits dsum.splits)

lemma field_optional_is_none_iff: "field_optional_is_none rec l \<longleftrightarrow> record_field rec l = Some (SOptional None)"
  by (auto simp: field_optional_is_none_def split: option.splits dsum.splits)

lemma collect_results_Inr_iff:
  "collect_results rs = Inr xs \<longleftrightarrow> rs = map Inr xs"
  by (induction rs arbitrary: xs) (auto simp: result_simps)

text \<open>A party, a set of parties and an optional one read back what was built.\<close>

lemma extract_make_party:
  assumes "hex_codec (vl_hex V)" and "canton_id_parse (vl_hex V) s = Inr p"
  shows "extract_party_id V (make_party (vl_hex V) p) = Inr p"
  using hex_codec.parse_sound(2) [OF assms] by (simp add: extract_party_id_def extract_party_def make_party_def)

lemma party_keys_parties: "party_keys (map (\<lambda>p. (Some (DValue (Some (SParty p))), v)) ps) = ps"
  by (induction ps) (simp_all add: party_keys_def map_filter_simps)

lemma party_set_round_trip:
  "extract_party_set (make_party_set H ps) = Some (remdups (sort (map (canton_id_display H) ps)))"
  by (simp add: extract_party_set_def make_party_set_def make_record_def rec_field_def record_value_def extract_genmap_parties_def
      party_keys_parties)

lemma optional_party_set_round_trip:
  "extract_optional_party_set (make_optional_party_set H opt)
     = Some (case opt of None \<Rightarrow> [] | Some ps \<Rightarrow> remdups (sort (map (canton_id_display H) ps)))"
  by (simp add: extract_optional_party_set_def make_optional_party_set_def party_set_round_trip split: option.splits)

end
