(* ===== verification/Outbound_Tokens.thy ===== *)
theory Outbound_Tokens
  imports Token_Validation
begin

text \<open>
  The tokens this node presents to its participant: the token manager of each party, the registry of them and the insecure variant
  (\<open>auth/mod.rs\<close>, \<open>auth/mock.rs\<close>), and \<open>get_party_credentials\<close> of \<open>server/handlers/governance.rs\<close>.

  The identity provider, the clock, the \<open>keycloak\<close> crate's \<open>token_url\<close> and the minting of an unsafe token are parameters: an operation takes
  the state \<open>'w\<close> of the world outside and returns it changed, so an answer may depend on everything asked before.  A token manager's
  state is behind a lock that a refresh holds to its end, so a refresh is one step.
\<close>

section \<open>Operations on the world outside\<close>

text \<open>A fallible operation that also changes the world; \<open>io_bind\<close> is the sequencing of \<open>?\<close>.\<close>

type_synonym ('w, 'e, 'a) io = "'w \<Rightarrow> ('e + 'a) \<times> 'w"

definition io_bind :: "('w, 'e, 'a) io \<Rightarrow> ('a \<Rightarrow> ('w, 'e, 'b) io) \<Rightarrow> ('w, 'e, 'b) io" where
  "io_bind m f w = (case m w of (Inl e, w') \<Rightarrow> (Inl e, w') | (Inr x, w') \<Rightarrow> f x w')"

definition io_lift :: "'e + 'a \<Rightarrow> ('w, 'e, 'a) io" where
  "io_lift r w = (r, w)"

text \<open>An operation that cannot fail.\<close>

definition io_do :: "('w \<Rightarrow> 'a \<times> 'w) \<Rightarrow> ('w, 'e, 'a) io" where
  "io_do f w = (case f w of (x, w') \<Rightarrow> (Inr x, w'))"

definition io_err :: "('e \<Rightarrow> 'f) \<Rightarrow> ('w, 'e, 'a) io \<Rightarrow> ('w, 'f, 'a) io" where
  "io_err g m w = (case m w of (r, w') \<Rightarrow> (map_err g r, w'))"

named_theorems io_simps

lemma io_bind_ok [io_simps]:
  "io_bind m f w = (Inr y, w') \<longleftrightarrow> (\<exists>x w1. m w = (Inr x, w1) \<and> f x w1 = (Inr y, w'))"
  by (auto simp: io_bind_def split: prod.splits sum.splits)

lemma io_lift_ok [io_simps]: "io_lift r w = (Inr y, w') \<longleftrightarrow> r = Inr y \<and> w' = w"
  by (auto simp: io_lift_def)

lemma io_do_ok [io_simps]: "io_do f w = (Inr y, w') \<longleftrightarrow> f w = (y, w')"
  by (auto simp: io_do_def split: prod.splits)

lemma io_err_ok [io_simps]: "io_err g m w = (Inr y, w') \<longleftrightarrow> m w = (Inr y, w')"
  by (auto simp: io_err_def map_err_def split: prod.splits sum.splits)

section \<open>Token managers\<close>

datatype auth_error =
    M2MAuthFailed string
  | PasswordAuthFailed string
  | RefreshFailed string
  | MissingUsername
  | MissingPassword
  | NoCredentials string
  | TimedOut nat

definition TOKEN_REQUEST_TIMEOUT :: nat where "TOKEN_REQUEST_TIMEOUT = 15"

record token_state =
  ts_access_token :: string
  ts_refresh_token :: string
  ts_expires_at :: nat
  ts_is_m2m :: bool

datatype token_source = Keycloak keycloak_config | Auth0 auth0_m2m_config

record token_manager =
  tm_source :: token_source
  tm_user_id :: string
  tm_member_party_id :: canton_id
  tm_state :: token_state

text \<open>What is asked of a Keycloak server: the token URL, the client and the grant.\<close>

datatype kc_request =
    ClientCredentials string string string
  | PasswordGrant string string string string
  | RefreshGrant string string string

record kc_response =
  kr_access_token :: string
  kr_refresh_token :: string
  kr_expires_in :: int

text \<open>What Auth0 answers: whether the status is a success, the status and the body as texts, and the body as an \<open>Auth0TokenResponse\<close>.\<close>

record http_answer =
  ha_success :: bool
  ha_status :: string
  ha_text :: "string option"
  ha_json :: "string + (string \<times> nat)"

text \<open>\<open>id_keycloak\<close> and \<open>id_post\<close> give \<open>None\<close> when no answer comes within \<open>TOKEN_REQUEST_TIMEOUT\<close>; \<open>id_now\<close> is \<open>SystemTime::now\<close>, in
  nanoseconds.\<close>

record 'w idp =
  id_now :: "'w \<Rightarrow> nat \<times> 'w"
  id_token_url :: "string \<Rightarrow> string \<Rightarrow> string"
  id_keycloak :: "kc_request \<Rightarrow> 'w \<Rightarrow> (string + kc_response) option \<times> 'w"
  id_post :: "string \<Rightarrow> (string \<times> string) list \<Rightarrow> 'w \<Rightarrow> (string + http_answer) option \<times> 'w"
  id_mint :: "string \<Rightarrow> string \<Rightarrow> string \<Rightarrow> 'w \<Rightarrow> string option \<times> 'w"

text \<open>\<open>SystemTime::now().checked_add(Duration::from_secs(expires_in.saturating_sub(60) as u64)).unwrap_or(SystemTime::now())\<close>: an instant is
  representable below \<open>2^63\<close> seconds, and a lifetime below a minute gives no time at all, be it a saturated zero or a negative number
  cast to one too large.\<close>

definition expiry_of :: "nat \<Rightarrow> nat \<Rightarrow> int \<Rightarrow> nat" where
  "expiry_of now now' expires_in = (let secs = expires_in - 60 in
     if secs = 0 then now
     else if 0 < secs \<and> int (now div 10 ^ 9) + secs < 2 ^ 63 then now + nat secs * 10 ^ 9
     else now')"

definition read_expiry :: "('w, 'm) idp_scheme \<Rightarrow> int \<Rightarrow> ('w, 'e, nat) io" where
  "read_expiry I expires_in =
     io_bind (io_do (id_now I)) (\<lambda>now. io_bind (io_do (id_now I)) (\<lambda>now'. io_lift (Inr (expiry_of now now' expires_in))))"

text \<open>One call under \<open>tokio::time::timeout\<close>.\<close>

definition timed :: "('w \<Rightarrow> (string + 'a) option \<times> 'w) \<Rightarrow> (string \<Rightarrow> auth_error) \<Rightarrow> ('w, auth_error, 'a) io" where
  "timed call err w = (case call w of
     (None, w') \<Rightarrow> (Inl (TimedOut TOKEN_REQUEST_TIMEOUT), w')
   | (Some r, w') \<Rightarrow> (map_err err r, w'))"

definition authenticate_keycloak :: "('w, 'm) idp_scheme \<Rightarrow> keycloak_config \<Rightarrow> ('w, auth_error, token_state) io" where
  "authenticate_keycloak I cfg =
     (let url = id_token_url I (kc_url cfg) (kc_realm cfg) in
      io_bind
        (case kc_client_secret cfg of
           Some secret \<Rightarrow> io_bind (timed (id_keycloak I (ClientCredentials url (kc_client_id cfg) secret)) M2MAuthFailed)
             (\<lambda>r. io_lift (Inr (r, True)))
         | None \<Rightarrow> io_bind (io_lift (ok_or MissingUsername (kc_username cfg))) (\<lambda>username.
             io_bind (io_lift (ok_or MissingPassword (kc_password cfg))) (\<lambda>password.
             io_bind (timed (id_keycloak I (PasswordGrant url (kc_client_id cfg) username password)) PasswordAuthFailed)
               (\<lambda>r. io_lift (Inr (r, False))))))
        (\<lambda>(r, is_m2m). io_bind (read_expiry I (kr_expires_in r)) (\<lambda>at. io_lift (Inr
          \<lparr>ts_access_token = kr_access_token r, ts_refresh_token = kr_refresh_token r, ts_expires_at = at, ts_is_m2m = is_m2m\<rparr>))))"

text \<open>\<open>str::floor_char_boundary\<close>: the last index up to \<open>i\<close> that does not fall inside a character.\<close>

fun floor_char_boundary :: "string \<Rightarrow> nat \<Rightarrow> nat" where
  "floor_char_boundary s 0 = 0"
| "floor_char_boundary s (Suc i) = (if length s \<le> Suc i then length s
     else let b = of_char (s ! Suc i) :: nat in if 128 \<le> b \<and> b < 192 then floor_char_boundary s i else Suc i)"

definition MAX_LOGGED_BODY_BYTES :: nat where "MAX_LOGGED_BODY_BYTES = 512"

definition truncate_for_log :: "string \<Rightarrow> string" where
  "truncate_for_log body = take (floor_char_boundary body MAX_LOGGED_BODY_BYTES) body"

definition auth0_token_url :: "string \<Rightarrow> string" where
  "auth0_token_url domain = ''https://'' @ trim_end_slashes domain @ ''/oauth/token''"

definition auth0_token_body :: "string \<Rightarrow> string \<Rightarrow> string \<Rightarrow> (string \<times> string) list" where
  "auth0_token_body client_id client_secret audience =
     [(''grant_type'', ''client_credentials''), (''client_id'', client_id), (''client_secret'', client_secret), (''audience'', audience)]"

definition auth0_client_credentials :: "('w, 'm) idp_scheme \<Rightarrow> auth0_m2m_config \<Rightarrow> ('w, auth_error, string \<times> nat) io" where
  "auth0_client_credentials I cfg =
     io_bind (timed (id_post I (auth0_token_url (m2m_domain cfg))
         (auth0_token_body (m2m_client_id cfg) (m2m_client_secret cfg) (m2m_audience cfg)))
         (\<lambda>e. M2MAuthFailed (''Auth0 request failed: '' @ e)))
       (\<lambda>response. io_lift
          (if \<not> ha_success response then Inl (M2MAuthFailed (''Auth0 token endpoint returned '' @ ha_status response @ '': '' @
             truncate_for_log (case ha_text response of Some t \<Rightarrow> t | None \<Rightarrow> [])))
           else map_err (\<lambda>e. M2MAuthFailed (''Auth0 response parse failed: '' @ e)) (ha_json response)))"

definition authenticate_auth0 :: "('w, 'm) idp_scheme \<Rightarrow> auth0_m2m_config \<Rightarrow> ('w, auth_error, token_state) io" where
  "authenticate_auth0 I cfg = io_bind (auth0_client_credentials I cfg) (\<lambda>(token, expires_in).
     io_bind (read_expiry I (max (int expires_in) 60)) (\<lambda>at. io_lift (Inr
       \<lparr>ts_access_token = token, ts_refresh_token = [], ts_expires_at = at, ts_is_m2m = True\<rparr>)))"

definition authenticate :: "('w, 'm) idp_scheme \<Rightarrow> token_source \<Rightarrow> ('w, auth_error, token_state) io" where
  "authenticate I source = (case source of Keycloak cfg \<Rightarrow> authenticate_keycloak I cfg | Auth0 cfg \<Rightarrow> authenticate_auth0 I cfg)"

text \<open>\<open>TokenManager::new\<close> and \<open>new_auth0\<close>.\<close>

definition token_manager_new :: "('w, 'm) idp_scheme \<Rightarrow> token_source \<Rightarrow> string \<Rightarrow> canton_id \<Rightarrow> ('w, auth_error, token_manager) io" where
  "token_manager_new I source user_id member = io_bind (authenticate I source) (\<lambda>st. io_lift (Inr
     \<lparr>tm_source = source, tm_user_id = user_id, tm_member_party_id = member, tm_state = st\<rparr>))"

text \<open>The state after \<open>refresh_or_reauthenticate\<close>.  An error leaves it as it was.\<close>

definition refresh_or_reauthenticate :: "('w, 'm) idp_scheme \<Rightarrow> token_source \<Rightarrow> token_state \<Rightarrow> ('w, auth_error, token_state) io" where
  "refresh_or_reauthenticate I source st =
     (if ts_is_m2m st then authenticate I source
      else case source of
        Auth0 _ \<Rightarrow> authenticate I source
      | Keycloak cfg \<Rightarrow> (\<lambda>w.
          case id_keycloak I (RefreshGrant (id_token_url I (kc_url cfg) (kc_realm cfg)) (kc_client_id cfg) (ts_refresh_token st)) w of
            (None, w') \<Rightarrow> (Inl (TimedOut TOKEN_REQUEST_TIMEOUT), w')
          | (Some (Inr r), w') \<Rightarrow> io_bind (read_expiry I (kr_expires_in r)) (\<lambda>at. io_lift (Inr
              \<lparr>ts_access_token = kr_access_token r, ts_refresh_token = kr_refresh_token r, ts_expires_at = at,
               ts_is_m2m = ts_is_m2m st\<rparr>)) w'
          | (Some (Inl e), w') \<Rightarrow>
              if str_contains e ''Token is not active'' then authenticate I source w' else (Inl (RefreshFailed e), w')))"

definition get_token :: "('w, 'm) idp_scheme \<Rightarrow> token_manager \<Rightarrow> 'w \<Rightarrow> (auth_error + string) \<times> token_manager \<times> 'w" where
  "get_token I tm w = (case id_now I w of (now, w1) \<Rightarrow>
     if ts_expires_at (tm_state tm) \<le> now then
       (case refresh_or_reauthenticate I (tm_source tm) (tm_state tm) w1 of
          (Inl e, w2) \<Rightarrow> (Inl e, tm, w2)
        | (Inr st, w2) \<Rightarrow> (Inr (ts_access_token st), tm\<lparr>tm_state := st\<rparr>, w2))
     else (Inr (ts_access_token (tm_state tm)), tm, w1))"

section \<open>The registry\<close>

type_synonym auth_registry = "string \<rightharpoonup> token_manager"

definition source_of :: "party_credentials \<Rightarrow> token_source" where
  "source_of party = (case pc_auth0 party of Some auth0 \<Rightarrow> Auth0 auth0 | None \<Rightarrow> Keycloak (pc_keycloak party))"

text \<open>\<open>AuthRegistry::new\<close>: a party whose authentication fails is skipped.\<close>

fun registry_from :: "hexlib \<Rightarrow> ('w, 'm) idp_scheme \<Rightarrow> party_credentials list \<Rightarrow> auth_registry \<Rightarrow> 'w \<Rightarrow> auth_registry \<times> 'w" where
  "registry_from H I [] managers w = (managers, w)"
| "registry_from H I (party # parties) managers w =
     (case token_manager_new I (source_of party) (pc_user_id party) (pc_member_party_id party) w of
        (Inr manager, w') \<Rightarrow> registry_from H I parties (managers(canton_id_display H (pc_dec_party_id party) \<mapsto> manager)) w'
      | (Inl e, w') \<Rightarrow> registry_from H I parties managers w')"

definition auth_registry_new :: "hexlib \<Rightarrow> ('w, 'm) idp_scheme \<Rightarrow> party_credentials list \<Rightarrow> 'w \<Rightarrow> auth_registry \<times> 'w" where
  "auth_registry_new H I parties w = registry_from H I parties Map.empty w"

definition auth_registry_get :: "hexlib \<Rightarrow> auth_registry \<Rightarrow> canton_id \<Rightarrow> token_manager option" where
  "auth_registry_get H managers party_id = managers (canton_id_display H party_id)"

definition registry_has_credentials :: "hexlib \<Rightarrow> auth_registry \<Rightarrow> canton_id \<Rightarrow> bool" where
  "registry_has_credentials H managers party_id \<longleftrightarrow> managers (canton_id_display H party_id) \<noteq> None"

section \<open>Insecure mode\<close>

record insecure_auth_config =
  ia_secret :: string
  ia_audience :: string
  ia_subject :: string

definition MOCK_TOKEN :: string where
  "MOCK_TOKEN = ''eyJ0eXAiOiJKV1QiLCJhbGciOiJIUzI1NiJ9.eyJhdWQiOiJodHRwczovL2NhbnRvbi5uZXR3b3JrLmdsb2JhbCIsI'' @
     ''mlhdCI6MTc2Mzc0ODcwMiwic3ViIjoibGVkZ2VyLWFwaS11c2VyIn0.vpkfH4SoM9AZqbE38W4hrvl3xxy69jYs4u8'' @
     ''gveskw9k''"

definition MOCK_MEMBER_PARTY_ID :: string where
  "MOCK_MEMBER_PARTY_ID = ''mock-member::1220aaaaaaaaaaaaaaaaaaaaaaaaaaaaaaaaaaaaaaaaaaaaaaaaaaaaaaaaaaaaaa01''"

definition mint_credentials :: "('w, 'm) idp_scheme \<Rightarrow> insecure_auth_config \<Rightarrow> 'w \<Rightarrow> (string \<times> string) \<times> 'w" where
  "mint_credentials I cfg w = (case id_mint I (ia_secret cfg) (ia_audience cfg) (ia_subject cfg) w of
     (Some token, w') \<Rightarrow> ((token, ia_subject cfg), w')
   | (None, w') \<Rightarrow> ((MOCK_TOKEN, MOCK_USER_ID), w'))"

record mock_manager =
  mm_user_id :: string
  mm_token :: string
  mm_member_party_id :: canton_id

text \<open>The registry shares the list of party credentials with the rest of the node; it is an argument of \<open>mock_get\<close>.\<close>

record mock_registry =
  mr_token :: string
  mr_user_id :: string
  mr_fallback_member :: canton_id

text \<open>\<open>None\<close> is the panic of the \<open>expect\<close> on the hardcoded identifier.\<close>

definition mock_with_config :: "hexlib \<Rightarrow> ('w, 'm) idp_scheme \<Rightarrow> insecure_auth_config \<Rightarrow> 'w \<Rightarrow> mock_registry option \<times> 'w" where
  "mock_with_config H I cfg w = (case mint_credentials I cfg w of ((token, user_id), w') \<Rightarrow>
     (case canton_id_parse H MOCK_MEMBER_PARTY_ID of
        Inl _ \<Rightarrow> (None, w')
      | Inr m \<Rightarrow> (Some \<lparr>mr_token = token, mr_user_id = user_id, mr_fallback_member = m\<rparr>, w')))"

definition manager_for :: "mock_registry \<Rightarrow> canton_id \<Rightarrow> mock_manager" where
  "manager_for r member = \<lparr>mm_user_id = mr_user_id r, mm_token = mr_token r, mm_member_party_id = member\<rparr>"

definition mock_get :: "mock_registry \<Rightarrow> party_credentials list \<Rightarrow> canton_id \<Rightarrow> mock_manager" where
  "mock_get r creds party_id = manager_for r (case find (\<lambda>p. pc_dec_party_id p = party_id) creds of
     Some c \<Rightarrow> pc_member_party_id c
   | None \<Rightarrow> mr_fallback_member r)"

definition mock_get_by_str :: "hexlib \<Rightarrow> mock_registry \<Rightarrow> party_credentials list \<Rightarrow> string \<Rightarrow> mock_manager" where
  "mock_get_by_str H r creds s = (case canton_id_parse H s of
     Inr p \<Rightarrow> mock_get r creds p
   | Inl _ \<Rightarrow> manager_for r (mr_fallback_member r))"

section \<open>Credentials of a party\<close>

datatype workflow_auth = KeycloakAuth auth_registry | MockAuth mock_registry

definition auth_has_credentials :: "hexlib \<Rightarrow> workflow_auth \<Rightarrow> canton_id \<Rightarrow> bool" where
  "auth_has_credentials H auth party_id = (case auth of
     KeycloakAuth registry \<Rightarrow> registry_has_credentials H registry party_id
   | MockAuth _ \<Rightarrow> True)"

record party_auth_credentials =
  pa_token :: string
  pa_user_id :: string
  pa_member_party_id :: canton_id

text \<open>A token manager is shared behind a lock, so the registry that holds it changes with it.\<close>

definition get_credentials :: "hexlib \<Rightarrow> ('w, 'm) idp_scheme \<Rightarrow> party_credentials list \<Rightarrow> workflow_auth \<Rightarrow> canton_id \<Rightarrow> 'w
    \<Rightarrow> (auth_error + party_auth_credentials) \<times> workflow_auth \<times> 'w" where
  "get_credentials H I creds auth dparty w = (case auth of
     KeycloakAuth registry \<Rightarrow> (case auth_registry_get H registry dparty of
         None \<Rightarrow> (Inl (NoCredentials (canton_id_display H dparty)), auth, w)
       | Some tm \<Rightarrow> (case get_token I tm w of (r, tm', w') \<Rightarrow>
           (and_then r (\<lambda>token. Inr \<lparr>pa_token = token, pa_user_id = tm_user_id tm, pa_member_party_id = tm_member_party_id tm\<rparr>),
            KeycloakAuth (registry(canton_id_display H dparty \<mapsto> tm')), w')))
   | MockAuth registry \<Rightarrow> (let mm = mock_get registry creds dparty in
       (Inr \<lparr>pa_token = mm_token mm, pa_user_id = mm_user_id mm, pa_member_party_id = mm_member_party_id mm\<rparr>, auth, w)))"

definition get_party_credentials :: "hexlib \<Rightarrow> ('w, 'm) idp_scheme \<Rightarrow> party_credentials list \<Rightarrow> workflow_auth option \<Rightarrow> canton_id \<Rightarrow> 'w
    \<Rightarrow> (auth_error + (string \<times> canton_id) option) \<times> workflow_auth option \<times> 'w" where
  "get_party_credentials H I creds auth party_id w = (case auth of
     Some (KeycloakAuth registry) \<Rightarrow> (case auth_registry_get H registry party_id of
         None \<Rightarrow> (Inr None, auth, w)
       | Some tm \<Rightarrow> (case get_token I tm w of (r, tm', w') \<Rightarrow>
           (and_then r (\<lambda>token. Inr (Some (token, tm_member_party_id tm))),
            Some (KeycloakAuth (registry(canton_id_display H party_id \<mapsto> tm'))), w')))
   | Some (MockAuth registry) \<Rightarrow> (let mm = mock_get registry creds party_id in (Inr (Some (mm_token mm, mm_member_party_id mm)), auth, w))
   | None \<Rightarrow> (Inr None, auth, w))"

section \<open>Whose token it is\<close>

text \<open>\<open>issued_by I source t\<close>: the provider that \<open>source\<close> names answered a request of its client with the token \<open>t\<close>.\<close>

fun own_request :: "('w, 'm) idp_scheme \<Rightarrow> keycloak_config \<Rightarrow> kc_request \<Rightarrow> bool" where
  "own_request I cfg (ClientCredentials url client secret) \<longleftrightarrow>
     url = id_token_url I (kc_url cfg) (kc_realm cfg) \<and> client = kc_client_id cfg \<and> kc_client_secret cfg = Some secret"
| "own_request I cfg (PasswordGrant url client username password) \<longleftrightarrow>
     url = id_token_url I (kc_url cfg) (kc_realm cfg) \<and> client = kc_client_id cfg \<and> kc_client_secret cfg = None
   \<and> kc_username cfg = Some username \<and> kc_password cfg = Some password"
| "own_request I cfg (RefreshGrant url client token) \<longleftrightarrow>
     url = id_token_url I (kc_url cfg) (kc_realm cfg) \<and> client = kc_client_id cfg"

definition issued_by :: "('w, 'm) idp_scheme \<Rightarrow> token_source \<Rightarrow> string \<Rightarrow> bool" where
  "issued_by I source t = (case source of
     Keycloak cfg \<Rightarrow> \<exists>req w r w'. own_request I cfg req \<and> id_keycloak I req w = (Some (Inr r), w') \<and> kr_access_token r = t
   | Auth0 cfg \<Rightarrow> \<exists>w r w' n. id_post I (auth0_token_url (m2m_domain cfg))
       (auth0_token_body (m2m_client_id cfg) (m2m_client_secret cfg) (m2m_audience cfg)) w = (Some (Inr r), w')
       \<and> ha_success r \<and> ha_json r = Inr (t, n))"

lemma timed_ok [io_simps]: "timed call err w = (Inr x, w') \<longleftrightarrow> call w = (Some (Inr x), w')"
  by (auto simp: timed_def map_err_def split: prod.splits option.splits sum.splits)

lemma authenticate_issued:
  assumes "authenticate I source w = (Inr st, w')"
  shows "issued_by I source (ts_access_token st)"
proof (cases source)
  case (Keycloak cfg)
  show ?thesis
  proof (cases "kc_client_secret cfg")
    case (Some secret)
    with Keycloak assms obtain r w1 where
      "id_keycloak I (ClientCredentials (id_token_url I (kc_url cfg) (kc_realm cfg)) (kc_client_id cfg) secret) w = (Some (Inr r), w1)"
      "kr_access_token r = ts_access_token st"
      by (auto simp: authenticate_def authenticate_keycloak_def io_simps)
    with Some Keycloak show ?thesis by (force simp: issued_by_def)
  next
    case None
    with Keycloak assms obtain u p r w1 where "kc_username cfg = Some u" "kc_password cfg = Some p"
      "id_keycloak I (PasswordGrant (id_token_url I (kc_url cfg) (kc_realm cfg)) (kc_client_id cfg) u p) w = (Some (Inr r), w1)"
      "kr_access_token r = ts_access_token st"
      by (auto simp: authenticate_def authenticate_keycloak_def io_simps result_simps)
    with None Keycloak show ?thesis by (force simp: issued_by_def)
  qed
next
  case (Auth0 cfg)
  with assms obtain x w1 n where
    "id_post I (auth0_token_url (m2m_domain cfg))
       (auth0_token_body (m2m_client_id cfg) (m2m_client_secret cfg) (m2m_audience cfg)) w = (Some (Inr x), w1)"
    "ha_success x" "ha_json x = Inr (ts_access_token st, n)"
    by (auto simp: authenticate_def authenticate_auth0_def auth0_client_credentials_def io_simps result_simps split: if_splits)
  with Auth0 show ?thesis by (simp add: issued_by_def) blast
qed

lemma refresh_issued:
  assumes "refresh_or_reauthenticate I source st w = (Inr st', w')"
  shows "issued_by I source (ts_access_token st')"
proof (cases "ts_is_m2m st \<or> (\<exists>cfg. source = Auth0 cfg)")
  case True
  with assms have "authenticate I source w = (Inr st', w')"
    by (auto simp: refresh_or_reauthenticate_def split: if_splits)
  then show ?thesis by (rule authenticate_issued)
next
  case False
  then obtain cfg where cfg: "source = Keycloak cfg" and m: "\<not> ts_is_m2m st" by (cases source) auto
  let ?req = "RefreshGrant (id_token_url I (kc_url cfg) (kc_realm cfg)) (kc_client_id cfg) (ts_refresh_token st)"
  obtain a w1 where call: "id_keycloak I ?req w = (a, w1)" by force
  show ?thesis
  proof (cases "\<exists>r. a = Some (Inr r)")
    case True
    then obtain r where r: "a = Some (Inr r)" ..
    with assms cfg m call have "ts_access_token st' = kr_access_token r"
      by (auto simp: refresh_or_reauthenticate_def io_simps)
    with call r cfg show ?thesis by (force simp: issued_by_def)
  next
    case False
    with assms cfg m call have "authenticate I source w1 = (Inr st', w')"
      by (auto simp: refresh_or_reauthenticate_def split: option.splits sum.splits if_splits)
    then show ?thesis by (rule authenticate_issued)
  qed
qed

text \<open>A manager holds a token of its own source.\<close>

definition manager_ok :: "('w, 'm) idp_scheme \<Rightarrow> party_credentials \<Rightarrow> token_manager \<Rightarrow> bool" where
  "manager_ok I c tm \<longleftrightarrow> tm_source tm = source_of c \<and> tm_user_id tm = pc_user_id c \<and> tm_member_party_id tm = pc_member_party_id c
   \<and> issued_by I (source_of c) (ts_access_token (tm_state tm))"

lemma token_manager_new_ok:
  "token_manager_new I (source_of c) (pc_user_id c) (pc_member_party_id c) w = (Inr tm, w') \<Longrightarrow> manager_ok I c tm"
  by (auto simp: token_manager_new_def manager_ok_def io_simps dest: authenticate_issued)

lemma get_token_ok:
  assumes "manager_ok I c tm" and "get_token I tm w = (r, tm', w')"
  shows "manager_ok I c tm'" and "r = Inr t \<Longrightarrow> t = ts_access_token (tm_state tm')"
    and "r = Inl e \<Longrightarrow> tm' = tm"
  using assms by (auto simp: get_token_def manager_ok_def split: prod.splits if_splits sum.splits dest: refresh_issued)

text \<open>A registry holds, for each printed party identifier, a manager of a row with that identifier.\<close>

definition registry_ok :: "hexlib \<Rightarrow> ('w, 'm) idp_scheme \<Rightarrow> party_credentials list \<Rightarrow> auth_registry \<Rightarrow> bool" where
  "registry_ok H I parties managers \<longleftrightarrow> (\<forall>s tm. managers s = Some tm \<longrightarrow>
     (\<exists>c\<in>set parties. canton_id_display H (pc_dec_party_id c) = s \<and> manager_ok I c tm))"

lemma registry_from_ok:
  assumes "registry_ok H I all managers" and "set parties \<subseteq> set all"
  shows "registry_ok H I all (fst (registry_from H I parties managers w))"
  using assms
proof (induction parties arbitrary: managers w)
  case (Cons c cs)
  show ?case
  proof (cases "token_manager_new I (source_of c) (pc_user_id c) (pc_member_party_id c) w")
    case (Pair r w1)
    show ?thesis
    proof (cases r)
      case (Inr tm)
      with Pair have "manager_ok I c tm" by (simp add: token_manager_new_ok)
      with Cons.prems have "registry_ok H I all (managers(canton_id_display H (pc_dec_party_id c) \<mapsto> tm))"
        by (auto simp: registry_ok_def)
      with Cons.IH [OF this, of w1] Cons.prems Pair Inr show ?thesis by (simp del: fun_upd_apply)
    next
      case (Inl e)
      with Cons Pair show ?thesis by simp
    qed
  qed
qed simp

inductive served_by :: "hexlib \<Rightarrow> ('w, 'm) idp_scheme \<Rightarrow> party_credentials list \<Rightarrow> workflow_auth \<Rightarrow> bool" for H I parties where
  boot: "auth_registry_new H I parties w = (managers, w') \<Longrightarrow> served_by H I parties (KeycloakAuth managers)"
| fetch: "served_by H I parties auth \<Longrightarrow> get_party_credentials H I creds (Some auth) p w = (r, Some auth', w')
    \<Longrightarrow> served_by H I parties auth'"
| fetch_for_workflow: "served_by H I parties auth \<Longrightarrow> get_credentials H I creds auth p w = (r', auth', w')
    \<Longrightarrow> served_by H I parties auth'"


lemma registry_ok_upd:
  "registry_ok H I parties managers \<Longrightarrow> managers s = Some tm \<Longrightarrow> get_token I tm w = (r, tm', w')
    \<Longrightarrow> registry_ok H I parties (managers(s \<mapsto> tm'))"
  unfolding registry_ok_def by (metis get_token_ok(1) map_upd_Some_unfold)

lemma served_by_registry:
  "served_by H I parties auth \<Longrightarrow> \<exists>managers. auth = KeycloakAuth managers \<and> registry_ok H I parties managers"
proof (induction rule: served_by.induct)
  case (boot w managers w')
  have "registry_ok H I parties (fst (registry_from H I parties Map.empty w))"
    by (rule registry_from_ok) (simp_all add: registry_ok_def)
  with boot show ?case by (simp add: auth_registry_new_def)
next
  case (fetch auth creds p w r auth' w')
  then obtain managers where m: "auth = KeycloakAuth managers" "registry_ok H I parties managers" by blast
  with fetch.hyps(2) registry_ok_upd [OF m(2)] show ?case
    by (auto simp: get_party_credentials_def auth_registry_get_def split: option.splits prod.splits)
next
  case (fetch_for_workflow auth creds p w r' auth' w')
  then obtain managers where m: "auth = KeycloakAuth managers" "registry_ok H I parties managers" by blast
  with fetch_for_workflow.hyps(2) registry_ok_upd [OF m(2)] show ?case
    by (auto simp: get_credentials_def auth_registry_get_def split: option.splits prod.splits)
qed

text \<open>C40: The token handed out for a party comes from the identity provider that a configured row of that party names, asked with that
  row's client, and is handed out with that row's member party: no token of another party is ever used, however the managers
  are refreshed in between.\<close>

theorem tokens_are_the_partys_own:
  assumes "served_by H I parties auth" and "get_party_credentials H I creds (Some auth) p w = (Inr (Some (t, member)), auth', w')"
  shows "\<exists>c\<in>set parties. canton_id_display H (pc_dec_party_id c) = canton_id_display H p
    \<and> member = pc_member_party_id c \<and> issued_by I (source_of c) t"
proof -
  obtain managers where m: "auth = KeycloakAuth managers" "registry_ok H I parties managers"
    using served_by_registry [OF assms(1)] by blast
  obtain tm tm' where tm: "managers (canton_id_display H p) = Some tm" "get_token I tm w = (Inr t, tm', w')" "member = tm_member_party_id tm"
    using assms(2) by (auto simp: m(1) get_party_credentials_def auth_registry_get_def result_simps split: option.splits prod.splits)
  then obtain c where c: "c \<in> set parties" "canton_id_display H (pc_dec_party_id c) = canton_id_display H p" "manager_ok I c tm"
    using m(2) by (auto simp: registry_ok_def)
  with get_token_ok(1,2) [OF c(3) tm(2)] tm(3) show ?thesis by (auto simp: manager_ok_def)
qed

definition example_answer :: kc_response where
  "example_answer = \<lparr>kr_access_token = ''t'', kr_refresh_token = ''r'', kr_expires_in = 300\<rparr>"

text \<open>A world that only has a clock, and a provider that gives out a token whose name is the client's.\<close>

definition example_idp :: "nat idp" where
  "example_idp = \<lparr>id_now = (\<lambda>w. (w, w + 1)), id_token_url = (\<lambda>u r. u @ r),
     id_keycloak = (\<lambda>req w. (case req of
         ClientCredentials _ c s \<Rightarrow> if s = ''secret'' then Some (Inr (example_answer\<lparr>kr_access_token := c\<rparr>)) else Some (Inl ''refused'')
       | _ \<Rightarrow> None, w)),
     id_post = (\<lambda>_ _ w. (None, w)), id_mint = (\<lambda>_ _ _ w. (None, w))\<rparr>"

definition example_party_row :: "string \<Rightarrow> string \<Rightarrow> party_credentials" where
  "example_party_row name secret = \<lparr>pc_dec_party_id = CantonId name (Namespace []), pc_member_party_id = CantonId (''m-'' @ name) (Namespace []),
     pc_user_id = [], pc_keycloak = keycloak_default\<lparr>kc_client_id := name, kc_client_secret := Some secret\<rparr>, pc_auth0 = None\<rparr>"

definition example_parties :: "party_credentials list" where
  "example_parties = [example_party_row ''a'' ''wrong'', example_party_row ''b'' ''secret'']"

lemmas example_idp_simps = example_idp_def example_parties_def example_party_row_def example_answer_def keycloak_default_def
  auth_registry_new_def token_manager_new_def authenticate_def authenticate_keycloak_def read_expiry_def io_bind_def io_lift_def io_do_def
  timed_def source_of_def expiry_of_def canton_id_display_def namespace_to_hex_def std_hex_def

lemma example_registry:
  "auth_registry_new std_hex example_idp example_parties 0 =
     ([''b::'' \<mapsto> \<lparr>tm_source = Keycloak (pc_keycloak (example_party_row ''b'' ''secret'')), tm_user_id = [],
        tm_member_party_id = CantonId ''m-b'' (Namespace []),
        tm_state = \<lparr>ts_access_token = ''b'', ts_refresh_token = ''r'', ts_expires_at = 240 * 10 ^ 9, ts_is_m2m = True\<rparr>\<rparr>], 2)"
  by (simp add: example_idp_simps)

theorem tokens_are_the_partys_own_witness:
  "\<exists>auth auth' w'. served_by std_hex example_idp example_parties auth
   \<and> get_party_credentials std_hex example_idp [] (Some auth) (CantonId ''b'' (Namespace [])) (300 * 10 ^ 9)
       = (Inr (Some (''b'', CantonId ''m-b'' (Namespace []))), auth', w')
   \<and> (\<exists>c\<in>set example_parties. canton_id_display std_hex (pc_dec_party_id c) = canton_id_display std_hex (CantonId ''b'' (Namespace []))
       \<and> CantonId ''m-b'' (Namespace []) = pc_member_party_id c \<and> issued_by example_idp (source_of c) ''b'')"
proof -
  let ?auth = "KeycloakAuth (fst (auth_registry_new std_hex example_idp example_parties 0))"
  have s: "served_by std_hex example_idp example_parties ?auth"
    by (rule served_by.boot [of _ _ _ 0 _ 2]) (simp add: example_registry)
  have "\<exists>auth' w'. get_party_credentials std_hex example_idp [] (Some ?auth) (CantonId ''b'' (Namespace [])) (300 * 10 ^ 9)
      = (Inr (Some (''b'', CantonId ''m-b'' (Namespace []))), auth', w')"
    by (simp add: example_registry get_party_credentials_def auth_registry_get_def get_token_def refresh_or_reauthenticate_def example_idp_simps)
  with s tokens_are_the_partys_own [OF s] show ?thesis by blast
qed

text \<open>A token is returned only if the clock has not reached its expiry (less the minute of leeway), or if this very call obtained it;
  when the provider refuses or does not answer, the caller gets the error, never the expired token, and the manager is unchanged.\<close>

theorem expired_tokens_are_not_used:
  assumes "get_token I tm w = (r, tm', w')" and "id_now I w = (now, w1)"
  shows "case r of
      Inr t \<Rightarrow> t = ts_access_token (tm_state tm')
        \<and> (now < ts_expires_at (tm_state tm) \<and> tm' = tm
           \<or> ts_expires_at (tm_state tm) \<le> now
             \<and> refresh_or_reauthenticate I (tm_source tm) (tm_state tm) w1 = (Inr (tm_state tm'), w'))
    | Inl e \<Rightarrow> tm' = tm \<and> ts_expires_at (tm_state tm) \<le> now
        \<and> refresh_or_reauthenticate I (tm_source tm) (tm_state tm) w1 = (Inl e, w')"
  using assms by (auto simp: get_token_def split: sum.splits prod.splits if_splits)

definition example_manager :: token_manager where
  "example_manager = \<lparr>tm_source = source_of (example_party_row ''b'' ''secret''), tm_user_id = [],
     tm_member_party_id = CantonId ''m-b'' (Namespace []),
     tm_state = \<lparr>ts_access_token = ''old'', ts_refresh_token = ''r'', ts_expires_at = 5, ts_is_m2m = True\<rparr>\<rparr>"

theorem expired_tokens_are_not_used_witness:
  "\<exists>tm' w'. get_token example_idp example_manager 5 = (Inr ''b'', tm', w') \<and> id_now example_idp 5 = (5, 6)
   \<and> ''b'' = ts_access_token (tm_state tm') \<and> ts_expires_at (tm_state example_manager) \<le> 5
   \<and> refresh_or_reauthenticate example_idp (tm_source example_manager) (tm_state example_manager) 6 = (Inr (tm_state tm'), w')"
proof -
  have n: "id_now example_idp 5 = (5, 6)" by (simp add: example_idp_def)
  have "\<exists>tm' w'. get_token example_idp example_manager 5 = (Inr ''b'', tm', w')"
    by (simp add: get_token_def refresh_or_reauthenticate_def example_manager_def example_idp_simps)
  then obtain tm' w' where g: "get_token example_idp example_manager 5 = (Inr ''b'', tm', w')" by blast
  show ?thesis using n g expired_tokens_are_not_used [OF g n] by (auto simp: example_manager_def)
qed

text \<open>A party whose provider refuses does not keep another from being served: which rows get a manager is decided row by row.\<close>

lemma registry_from_append:
  "registry_from H I (xs @ ys) managers w = (case registry_from H I xs managers w of (m, w') \<Rightarrow> registry_from H I ys m w')"
  by (induction xs arbitrary: managers w) (auto split: prod.splits sum.splits)

lemma registry_from_other:
  "s \<notin> (\<lambda>c. canton_id_display H (pc_dec_party_id c)) ` set ps \<Longrightarrow> fst (registry_from H I ps managers w) s = managers s"
  by (induction ps arbitrary: managers w) (auto split: prod.splits sum.splits)

theorem one_broken_party_stops_no_other:
  assumes "parties = xs @ c # ys" and "\<forall>d\<in>set xs \<union> set ys. canton_id_display H (pc_dec_party_id d) \<noteq> canton_id_display H (pc_dec_party_id c)"
  shows "registry_has_credentials H (fst (auth_registry_new H I parties w)) (pc_dec_party_id c) \<longleftrightarrow>
     is_ok (fst (authenticate I (source_of c) (snd (registry_from H I xs Map.empty w))))"
proof -
  let ?s = "canton_id_display H (pc_dec_party_id c)"
  obtain m w1 where xs: "registry_from H I xs Map.empty w = (m, w1)" by force
  have m: "m ?s = None" using registry_from_other [of ?s H xs I Map.empty w] assms(2) xs by fastforce
  have ys: "fst (registry_from H I ys m' w') ?s = m' ?s" for m' w'
    using assms(2) by (intro registry_from_other) fastforce
  show ?thesis
    by (cases "authenticate I (source_of c) w1"; cases "fst (authenticate I (source_of c) w1)")
       (auto simp: registry_has_credentials_def auth_registry_new_def assms(1) registry_from_append xs m ys
          token_manager_new_def io_bind_def io_lift_def)
qed

theorem one_broken_party_stops_no_other_witness:
  "registry_has_credentials std_hex (fst (auth_registry_new std_hex example_idp example_parties 0)) (CantonId ''b'' (Namespace []))
   \<and> \<not> registry_has_credentials std_hex (fst (auth_registry_new std_hex example_idp example_parties 0)) (CantonId ''a'' (Namespace []))"
proof -
  have a: "registry_has_credentials std_hex (fst (auth_registry_new std_hex example_idp example_parties 0)) (pc_dec_party_id (example_party_row ''a'' ''wrong''))
      \<longleftrightarrow> is_ok (fst (authenticate example_idp (source_of (example_party_row ''a'' ''wrong'')) (snd (registry_from std_hex example_idp [] Map.empty 0))))"
    by (rule one_broken_party_stops_no_other [of _ _ _ "[example_party_row ''b'' ''secret'']"]) (simp_all add: example_idp_simps)
  have b: "registry_has_credentials std_hex (fst (auth_registry_new std_hex example_idp example_parties 0)) (pc_dec_party_id (example_party_row ''b'' ''secret''))
      \<longleftrightarrow> is_ok (fst (authenticate example_idp (source_of (example_party_row ''b'' ''secret''))
            (snd (registry_from std_hex example_idp [example_party_row ''a'' ''wrong''] Map.empty 0))))"
    by (rule one_broken_party_stops_no_other [of _ _ _ "[]"]) (simp_all add: example_idp_simps)
  from a b show ?thesis by (simp add: example_idp_simps)
qed

text \<open>The hardcoded member of insecure mode is a valid identifier, so the \<open>expect\<close> does not panic.\<close>

lemma mock_member_parses: "is_ok (canton_id_parse std_hex MOCK_MEMBER_PARTY_ID)"
  by code_simp

end
