(* ===== verification/Rewards.thy ===== *)
theory Rewards
  imports Ledger_Record Outbound_Tokens "HOL-Library.Sublist"
begin

text \<open>
  The reward automation (\<open>server/reward_automation.rs\<close>): the loop that reads a decentralized party's unassigned reward coupons and,
  when the active delegation names this node's member, assigns them in chunked \<open>Delegation_Assign\<close> transactions; what it reports in
  its metrics; and the status the dec party page shows.

  The participant is a parameter: an operation takes the state \<open>'w\<close> of everything outside the node and returns it changed, so what a
  read or a submission answers may depend on everything that happened before, on other nodes too.  \<open>wd_sent\<close> records the commands
  submitted with their answers, for the statements only.  The diagnostic read of the governance members is an answer of the world outside.
  The fault injection of the test build is left out.  Counters are unbounded, and the gauge holds milliseconds (the code divides by 1000).
\<close>

section \<open>The participant\<close>

text \<open>An error: the message of a \<open>tonic::Status\<close> somewhere in its chain, or none there.\<close>

datatype rw_error = Status string | Other string

definition from_decode :: "decode_error + 'a \<Rightarrow> rw_error + 'a" where
  "from_decode r = map_err (\<lambda>e. case e of Decode m \<Rightarrow> Other m) r"

record iface_view =
  iv_interface_id :: "ident option"
  iv_view_value :: "drecord option"

record created =
  cr_contract_id :: string
  cr_offset :: int
  cr_template_id :: "ident option"
  cr_create_arguments :: "drecord option"
  cr_interface_views :: "iface_view list"

text \<open>The answers of a stream of active contracts: each response carries a created event or none, and the stream may end in an error.\<close>

type_synonym acs_stream = "created option list \<times> rw_error option"

text \<open>\<open>lg_header\<close>: whether a text is a valid metadata value.  A call under a timeout gives \<open>None\<close> when it runs out.\<close>

record 'w ledger =
  lg_ledger_end :: "string option \<Rightarrow> ('w, rw_error, int) io"
  lg_active :: "string option \<Rightarrow> int \<Rightarrow> event_format \<Rightarrow> ('w, rw_error, acs_stream) io"
  lg_created_by_id :: "string option \<Rightarrow> string \<Rightarrow> event_format \<Rightarrow> ('w, rw_error, created option) io"
  lg_packages :: "('w, rw_error, (string \<times> string) list) io"
  lg_packages_timed :: "'w \<Rightarrow> (rw_error + (string \<times> string) list) option \<times> 'w"
  lg_channel :: "('w, rw_error, unit) io"
  lg_submit :: "string \<Rightarrow> commands \<Rightarrow> ('w, rw_error, unit) io"
  lg_members_timed :: "canton_id \<Rightarrow> string \<Rightarrow> 'w \<Rightarrow> (rw_error + canton_id list option) option \<times> 'w"
  lg_header :: "string \<Rightarrow> bool"
  lg_uuid :: "'w \<Rightarrow> string \<times> 'w"
  lg_utc_now :: "'w \<Rightarrow> int \<times> 'w"
  lg_instant :: "'w \<Rightarrow> nat \<times> 'w"
  lg_credentials :: "canton_id \<Rightarrow> ('w, auth_error, (string \<times> canton_id) option) io"
  lg_served :: "'w \<Rightarrow> canton_id list \<times> 'w"

datatype family = SWEEPS | ASSIGNED | SKIPPED | ZERO_ASSIGNED | SWEEP_FAILED | EXPIRY_READS | CREDENTIALS_UNAVAILABLE
  | AUTH_UNREGISTERED | ASSIGNER_NOT_MEMBER

record metrics =
  mt_heartbeat :: nat
  mt_enablement_unreadable :: nat
  mt_counters :: "family \<times> string \<rightharpoonup> nat"
  mt_oldest_expires_in :: "string \<rightharpoonup> int"

record 'w world =
  wd_ext :: 'w
  wd_sent :: "(commands \<times> (rw_error + unit)) list"
  wd_metrics :: metrics

definition ext :: "('w, 'e, 'a) io \<Rightarrow> ('w world, 'e, 'a) io" where
  "ext m w = (case m (wd_ext w) of (r, x) \<Rightarrow> (r, w\<lparr>wd_ext := x\<rparr>))"

definition inc_by :: "nat \<Rightarrow> family \<Rightarrow> string \<Rightarrow> 'w world \<Rightarrow> 'w world" where
  "inc_by n f label w = w\<lparr>wd_metrics := (wd_metrics w)\<lparr>mt_counters :=
     (mt_counters (wd_metrics w))((f, label) \<mapsto> (case mt_counters (wd_metrics w) (f, label) of Some k \<Rightarrow> k | None \<Rightarrow> 0) + n)\<rparr>\<rparr>"

definition drop_gauge :: "string \<Rightarrow> 'w world \<Rightarrow> 'w world" where
  "drop_gauge label w = w\<lparr>wd_metrics := (wd_metrics w)\<lparr>mt_oldest_expires_in := (mt_oldest_expires_in (wd_metrics w))(label := None)\<rparr>\<rparr>"

definition set_gauge :: "string \<Rightarrow> int \<Rightarrow> 'w world \<Rightarrow> 'w world" where
  "set_gauge label v w = w\<lparr>wd_metrics := (wd_metrics w)\<lparr>mt_oldest_expires_in := (mt_oldest_expires_in (wd_metrics w))(label \<mapsto> v)\<rparr>\<rparr>"

definition ensure_outcome_series :: "string \<Rightarrow> 'w world \<Rightarrow> 'w world" where
  "ensure_outcome_series label w = fold (\<lambda>f. inc_by 0 f label)
     [ASSIGNED, SKIPPED, ZERO_ASSIGNED, SWEEP_FAILED, EXPIRY_READS, CREDENTIALS_UNAVAILABLE, AUTH_UNREGISTERED, ASSIGNER_NOT_MEMBER] w"

text \<open>What the automation is configured with; \<open>rc_rewards\<close> is \<open>packages().governance_rewards\<close>.\<close>

record 'd reward_config =
  rc_values :: "'d valuelib"
  rc_test_mode :: bool
  rc_rewards :: "string option"
  rc_max_creates :: nat
  rc_min_expiry_margin_secs :: nat
  rc_interval_secs :: nat
  rc_expiry_read_interval_secs :: nat

abbreviation show_id :: "'d reward_config \<Rightarrow> canton_id \<Rightarrow> string" where
  "show_id A p \<equiv> canton_id_display (vl_hex (rc_values A)) p"

section \<open>Reading contracts\<close>

record contract_filter =
  cf_package_id :: string
  cf_module :: string
  cf_entity :: string
  cf_interface_view :: bool
  cf_implementer :: "(string \<times> string) option"

definition filter_template :: "string \<Rightarrow> string \<Rightarrow> string \<Rightarrow> contract_filter" where
  "filter_template package_id m e = \<lparr>cf_package_id = package_id, cf_module = m, cf_entity = e, cf_interface_view = False, cf_implementer = None\<rparr>"

definition filter_interface :: "string \<Rightarrow> string \<Rightarrow> string \<Rightarrow> contract_filter" where
  "filter_interface package_id m e = \<lparr>cf_package_id = package_id, cf_module = m, cf_entity = e, cf_interface_view = True, cf_implementer = None\<rparr>"

definition implemented_by :: "contract_filter \<Rightarrow> string \<Rightarrow> string \<Rightarrow> contract_filter" where
  "implemented_by f m e = f\<lparr>cf_implementer := Some (m, e)\<rparr>"

definition named_as :: "string \<Rightarrow> string \<Rightarrow> ident option \<Rightarrow> bool" where
  "named_as m e i = (case i of Some t \<Rightarrow> id_module t = m \<and> id_entity t = e | None \<Rightarrow> False)"

text \<open>The record of a created event that is visited, if any.\<close>

definition visited :: "bool \<Rightarrow> contract_filter \<Rightarrow> created \<Rightarrow> drecord option" where
  "visited test_mode f c =
     (if cf_interface_view f then
        (if (case cf_implementer f of Some (m, e) \<Rightarrow> \<not> named_as m e (cr_template_id c) | None \<Rightarrow> False) then None
         else Option.bind (find (\<lambda>v. named_as (cf_module f) (cf_entity f) (iv_interface_id v)) (cr_interface_views c)) iv_view_value)
      else if test_mode \<and> \<not> named_as (cf_module f) (cf_entity f) (cr_template_id c) then None
      else cr_create_arguments c)"

text \<open>The responses in order: a failing visit ends the read, and so does an error of the stream.\<close>

fun visit_all :: "(created \<Rightarrow> 's \<Rightarrow> rw_error + 's) \<Rightarrow> created option list \<Rightarrow> rw_error option \<Rightarrow> 's \<Rightarrow> rw_error + 's" where
  "visit_all visit [] err s = (case err of None \<Rightarrow> Inr s | Some e \<Rightarrow> Inl e)"
| "visit_all visit (None # rs) err s = visit_all visit rs err s"
| "visit_all visit (Some c # rs) err s = and_then (visit c s) (visit_all visit rs err)"

definition acs_filter :: "bool \<Rightarrow> contract_filter \<Rightarrow> event_filter" where
  "acs_filter test_mode f =
     (let i = \<lparr>id_package = cf_package_id f, id_module = cf_module f, id_entity = cf_entity f\<rparr> in
      if cf_interface_view f then InterfaceFilter i else if test_mode then WildcardFilter else TemplateFilter i)"

definition for_each_active_created :: "'d reward_config \<Rightarrow> 'w ledger \<Rightarrow> canton_id \<Rightarrow> string option \<Rightarrow> contract_filter
    \<Rightarrow> (string \<Rightarrow> int \<Rightarrow> drecord \<Rightarrow> 's \<Rightarrow> rw_error + 's) \<Rightarrow> 's \<Rightarrow> ('w, rw_error, 's) io" where
  "for_each_active_created A L party token f visit s =
     io_bind (lg_ledger_end L token) (\<lambda>ledger_end.
     io_bind (lg_active L token ledger_end (party_event_format (vl_hex (rc_values A)) party [acs_filter (rc_test_mode A) f] True)) (\<lambda>(responses, err).
     io_lift (visit_all (\<lambda>c s. case visited (rc_test_mode A) f c of
         Some rec \<Rightarrow> visit (cr_contract_id c) (cr_offset c) rec s
       | None \<Rightarrow> Inr s) responses err s)))"

definition bounded_created_records :: "'d reward_config \<Rightarrow> 'w ledger \<Rightarrow> canton_id \<Rightarrow> string option \<Rightarrow> contract_filter
    \<Rightarrow> ('w, rw_error, (string \<times> int \<times> drecord) list) io" where
  "bounded_created_records A L party token f =
     for_each_active_created A L party token f (\<lambda>cid offset rec out. Inr (out @ [(cid, offset, rec)])) []"

section \<open>The delegation\<close>

record delegation =
  ad_cid :: string
  ad_dso :: canton_id
  ad_assigners :: "canton_id list"
  ad_beneficiary_count :: nat

definition DELEGATION_MODULE :: string where "DELEGATION_MODULE = ''Governance.Rewards.CouponReassignmentDelegation''"
definition DELEGATION_ENTITY :: string where "DELEGATION_ENTITY = ''CouponReassignmentDelegation''"

definition parse_delegation_record :: "'d valuelib \<Rightarrow> string \<Rightarrow> drecord \<Rightarrow> decode_error + delegation" where
  "parse_delegation_record V cid rec =
     and_then (field_list_len rec ''split'') (\<lambda>beneficiary_count.
       if beneficiary_count = 0 then Inl (named ''split'' ''delegation names no beneficiaries'')
       else and_then (field_party_id V rec ''dso'') (\<lambda>dso. and_then (field_party_list V rec ''assigners'') (\<lambda>assigners.
         Inr \<lparr>ad_cid = cid, ad_dso = dso, ad_assigners = assigners, ad_beneficiary_count = beneficiary_count\<rparr>)))"

text \<open>\<open>sort_by_key\<close> is stable, as \<open>sort_key\<close> is.\<close>

definition delegations_newest_first :: "'d valuelib \<Rightarrow> (string \<times> int \<times> drecord) list \<Rightarrow> canton_id \<Rightarrow> (string \<times> drecord) list" where
  "delegations_newest_first V records decparty =
     (let mine = filter (\<lambda>(_, _, rec). case field_party_id V rec ''decparty'' of Inr p \<Rightarrow> p = decparty | Inl _ \<Rightarrow> False) records in
      map (\<lambda>(cid, _, rec). (cid, rec)) (sort_key (\<lambda>(_, offset, _). - offset) mine))"

definition newest_delegation_for :: "'d valuelib \<Rightarrow> (string \<times> int \<times> drecord) list \<Rightarrow> canton_id \<Rightarrow> (string \<times> drecord) option" where
  "newest_delegation_for V records decparty = (case delegations_newest_first V records decparty of [] \<Rightarrow> None | d # _ \<Rightarrow> Some d)"

definition delegation_filter :: "string \<Rightarrow> contract_filter" where
  "delegation_filter package_id = filter_template package_id DELEGATION_MODULE DELEGATION_ENTITY"

definition active_delegation :: "'d reward_config \<Rightarrow> 'w ledger \<Rightarrow> canton_id \<Rightarrow> string \<Rightarrow> ('w, rw_error, delegation option) io" where
  "active_delegation A L decparty token = (case rc_rewards A of
     None \<Rightarrow> io_lift (Inr None)
   | Some package_id \<Rightarrow>
       io_bind (bounded_created_records A L decparty (Some token) (delegation_filter package_id)) (\<lambda>records.
       io_lift (case newest_delegation_for (rc_values A) records decparty of
         None \<Rightarrow> Inr None
       | Some (cid, rec) \<Rightarrow> from_decode (and_then (parse_delegation_record (rc_values A) cid rec) (\<lambda>d. Inr (Some d))))))"

definition active_delegations :: "'d reward_config \<Rightarrow> 'w ledger \<Rightarrow> canton_id \<Rightarrow> string \<Rightarrow> ('w, rw_error, delegation list) io" where
  "active_delegations A L decparty token = (case rc_rewards A of
     None \<Rightarrow> io_lift (Inr [])
   | Some package_id \<Rightarrow>
       io_bind (bounded_created_records A L decparty (Some token) (delegation_filter package_id)) (\<lambda>records.
       io_lift (from_decode (collect_results (map (\<lambda>(cid, rec). parse_delegation_record (rc_values A) cid rec)
         (delegations_newest_first (rc_values A) records decparty))))))"

definition delegated_decparties :: "'d reward_config \<Rightarrow> 'w ledger \<Rightarrow> canton_id \<Rightarrow> string \<Rightarrow> ('w, rw_error, canton_id list) io" where
  "delegated_decparties A L member token = (case rc_rewards A of
     None \<Rightarrow> io_lift (Inr [])
   | Some package_id \<Rightarrow> for_each_active_created A L member (Some token) (delegation_filter package_id)
       (\<lambda>_ _ rec decparties. Inr (case field_party_id (rc_values A) rec ''decparty'' of
          Inr p \<Rightarrow> List.insert p decparties | Inl _ \<Rightarrow> decparties)) [])"

section \<open>Errors of the ledger\<close>

definition TRANSIENT_ASSIGN_ERROR_IDS :: "string list" where
  "TRANSIENT_ASSIGN_ERROR_IDS = [''LOCAL_VERDICT_LOCKED_CONTRACTS'', ''LOCAL_VERDICT_INACTIVE_CONTRACTS'',
     ''UNKNOWN_CONTRACT_SYNCHRONIZERS'', ''CONTRACT_NOT_FOUND'', ''LOCAL_VERDICT_TIMEOUT'', ''NOT_SEQUENCED_TIMEOUT'',
     ''SEQUENCER_BACKPRESSURE'', ''REQUEST_TIME_OUT'', ''MEDIATOR_SAYS_TX_TIMED_OUT'']"

definition upper_or_underscore :: "char \<Rightarrow> bool" where
  "upper_or_underscore c \<longleftrightarrow> (let n = of_char c :: nat in 65 \<le> n \<and> n \<le> 90 \<or> n = 95)"

definition canton_error_id :: "rw_error \<Rightarrow> string option" where
  "canton_error_id e = (case e of
     Other _ \<Rightarrow> None
   | Status message \<Rightarrow> (let id = trim (takeWhile (\<lambda>c. c \<noteq> CHR ''('') message) in
       if id \<noteq> [] \<and> list_all upper_or_underscore id then Some id else None))"

definition package_absent :: "rw_error \<Rightarrow> bool" where
  "package_absent e \<longleftrightarrow> canton_error_id e = Some ''PACKAGE_NAMES_NOT_FOUND''"

definition assign_failure_is_transient :: "rw_error \<Rightarrow> bool" where
  "assign_failure_is_transient e = (case canton_error_id e of
     Some i \<Rightarrow> i \<in> set TRANSIENT_ASSIGN_ERROR_IDS
   | None \<Rightarrow> True)"

section \<open>The status page\<close>

record 'd reward_beneficiary =
  rb_beneficiary :: canton_id
  rb_percentage :: 'd

record 'd reward_status_response =
  rs_dar_resolvable :: bool
  rs_delegation :: "delegation option"
  rs_member :: canton_id
  rs_member_is_assigner :: bool
  rs_beneficiaries :: "'d reward_beneficiary list"

datatype role = Assign | ReportOnly

definition role_for :: "delegation \<Rightarrow> canton_id \<Rightarrow> role" where
  "role_for d member = (if member \<in> set (ad_assigners d) then Assign else ReportOnly)"

text \<open>\<open>HashMap::from_iter\<close> keeps the last entry of a key.\<close>

definition package_listed :: "(string \<times> string) list \<Rightarrow> string \<Rightarrow> bool" where
  "package_listed packages package_ref = (case strip_prefix ''#'' package_ref of
     Some name \<Rightarrow> list_ex (\<lambda>i. map_of (rev packages) i = Some name) (map fst packages)
   | None \<Rightarrow> map_of (rev packages) package_ref \<noteq> None)"

definition missing_dar_status :: "canton_id \<Rightarrow> 'd reward_status_response" where
  "missing_dar_status member = \<lparr>rs_dar_resolvable = False, rs_delegation = None, rs_member = member, rs_member_is_assigner = False,
     rs_beneficiaries = []\<rparr>"

definition parse_split :: "'d valuelib \<Rightarrow> drecord \<Rightarrow> decode_error + 'd reward_beneficiary list" where
  "parse_split V rec = and_then (get_field rec ''split'') (\<lambda>v. and_then (extract_list v) (\<lambda>elements.
     collect_results (map (\<lambda>entry. and_then (extract_record entry) (\<lambda>entry.
       and_then (field_party_id V entry ''beneficiary'') (\<lambda>b. and_then (field_decimal V entry ''percentage'') (\<lambda>d.
         Inr \<lparr>rb_beneficiary = b, rb_percentage = d\<rparr>)))) elements)))"

definition reward_status_from :: "'d valuelib \<Rightarrow> rw_error + (string \<times> int \<times> drecord) list \<Rightarrow> canton_id \<Rightarrow> canton_id
    \<Rightarrow> rw_error + 'd reward_status_response" where
  "reward_status_from V r decparty member = (case r of
     Inl e \<Rightarrow> if package_absent e then Inr (missing_dar_status member) else Inl e
   | Inr records \<Rightarrow>
       (let status = (missing_dar_status member)\<lparr>rs_dar_resolvable := True\<rparr> in
        case newest_delegation_for V records decparty of
          None \<Rightarrow> Inr status
        | Some (cid, rec) \<Rightarrow> from_decode (and_then (parse_delegation_record V cid rec) (\<lambda>d. and_then (parse_split V rec) (\<lambda>split.
            Inr (status\<lparr>rs_beneficiaries := split, rs_member_is_assigner := (role_for d member = Assign), rs_delegation := Some d\<rparr>))))))"

definition reward_status :: "'d reward_config \<Rightarrow> 'w ledger \<Rightarrow> canton_id \<Rightarrow> canton_id \<Rightarrow> string \<Rightarrow> ('w, rw_error, 'd reward_status_response) io" where
  "reward_status A L decparty member token = (case rc_rewards A of
     None \<Rightarrow> io_lift (Inl (Other ''governance_rewards package not configured''))
   | Some package_id \<Rightarrow>
       io_bind (if rc_test_mode A then io_bind (lg_packages L) (\<lambda>ps. io_lift (Inr (\<not> package_listed ps package_id))) else io_lift (Inr False)) (\<lambda>missing.
         if missing then io_lift (Inr (missing_dar_status member))
         else (\<lambda>w. case bounded_created_records A L decparty (Some token) (delegation_filter package_id) w of
           (r, w') \<Rightarrow> (reward_status_from (rc_values A) r decparty member, w'))))"

section \<open>Coupons\<close>

record coupon_info =
  ci_cid :: string
  ci_expires_at :: int

definition parse_unassigned_coupon :: "'d valuelib \<Rightarrow> string \<Rightarrow> drecord \<Rightarrow> canton_id \<Rightarrow> canton_id \<Rightarrow> decode_error + coupon_info option" where
  "parse_unassigned_coupon V cid rec decparty dso =
     and_then (field_party_id V rec ''provider'') (\<lambda>provider.
       if provider \<noteq> decparty then Inr None
       else and_then (field_party_id V rec ''dso'') (\<lambda>d.
         if d \<noteq> dso then Inr None
         else if \<not> field_optional_is_none rec ''beneficiary'' then Inr None
         else and_then (field_decimal V rec ''amount'') (\<lambda>_.
           and_then (field_time V rec ''expiresAt'') (\<lambda>t. Inr (Some \<lparr>ci_cid = cid, ci_expires_at = t\<rparr>)))))"

definition coupon_filter :: contract_filter where
  "coupon_filter = implemented_by (filter_interface ''#splice-api-reward-assignment-v1'' ''Splice.Api.RewardAssignmentV1'' ''RewardCoupon'')
     ''Splice.Amulet'' ''RewardCouponV2''"

definition for_each_unassigned_coupon :: "'d reward_config \<Rightarrow> 'w ledger \<Rightarrow> canton_id \<Rightarrow> canton_id \<Rightarrow> string option
    \<Rightarrow> (coupon_info \<Rightarrow> 's \<Rightarrow> rw_error + 's) \<Rightarrow> 's \<Rightarrow> ('w, rw_error, 's) io" where
  "for_each_unassigned_coupon A L decparty dso token visit =
     for_each_active_created A L decparty token coupon_filter (\<lambda>cid _ rec s.
       and_then (from_decode (parse_unassigned_coupon (rc_values A) cid rec decparty dso)) (\<lambda>c.
         case c of Some coupon \<Rightarrow> visit coupon s | None \<Rightarrow> Inr s))"

definition unassigned_coupons :: "'d reward_config \<Rightarrow> 'w ledger \<Rightarrow> canton_id \<Rightarrow> canton_id \<Rightarrow> string option
    \<Rightarrow> ('w, rw_error, coupon_info list) io" where
  "unassigned_coupons A L decparty dso token =
     for_each_unassigned_coupon A L decparty dso token (\<lambda>coupon coupons. Inr (coupons @ [coupon])) []"

definition is_assignable :: "coupon_info \<Rightarrow> int \<Rightarrow> int \<Rightarrow> bool" where
  "is_assignable c now expiry_margin \<longleftrightarrow> expiry_margin \<le> ci_expires_at c - now"

definition select_assignable :: "coupon_info list \<Rightarrow> int \<Rightarrow> int \<Rightarrow> string list" where
  "select_assignable coupons now expiry_margin =
     map ci_cid (sort_key ci_expires_at (filter (\<lambda>c. is_assignable c now expiry_margin) coupons))"

definition chunk_size :: "nat \<Rightarrow> nat \<Rightarrow> nat" where
  "chunk_size max_creates beneficiary_count = max (max_creates div max beneficiary_count 1) 1"

definition fold_oldest_expiry :: "int option \<Rightarrow> int \<Rightarrow> int \<Rightarrow> int option" where
  "fold_oldest_expiry oldest expires_at now = (if expires_at \<le> now then oldest
     else Some (case oldest of Some current \<Rightarrow> min current expires_at | None \<Rightarrow> expires_at))"

definition oldest_expiry :: "coupon_info list \<Rightarrow> int \<Rightarrow> int option" where
  "oldest_expiry coupons now = fold (\<lambda>c oldest. fold_oldest_expiry oldest (ci_expires_at c) now) coupons None"

definition read_oldest_expiry :: "'d reward_config \<Rightarrow> 'w ledger \<Rightarrow> canton_id \<Rightarrow> canton_id \<Rightarrow> string \<Rightarrow> ('w, rw_error, int option) io" where
  "read_oldest_expiry A L decparty dso token = io_bind (io_do (lg_utc_now L)) (\<lambda>read_started_at.
     for_each_unassigned_coupon A L decparty dso (Some token)
       (\<lambda>coupon oldest. Inr (fold_oldest_expiry oldest (ci_expires_at coupon) read_started_at)) None)"

section \<open>Assigning\<close>

definition build_delegation_assign_arg :: "hexlib \<Rightarrow> canton_id \<Rightarrow> string \<Rightarrow> string list \<Rightarrow> drecord" where
  "build_delegation_assign_arg H assigner primary additional =
     [rec_field ''assigner'' (make_party H assigner), rec_field ''primaryCoupon'' (make_contract_id primary),
      rec_field ''additionalCoupons'' (make_list (map make_contract_id additional)),
      rec_field ''extraArgs'' (make_extra_args (make_text_map []))]"

definition delegation_template_id :: "string \<Rightarrow> ident" where
  "delegation_template_id package_id = \<lparr>id_package = package_id, id_module = DELEGATION_MODULE, id_entity = DELEGATION_ENTITY\<rparr>"

definition verified_delegation_template :: "ident \<Rightarrow> string \<Rightarrow> string option \<Rightarrow> rw_error + ident" where
  "verified_delegation_template actual configured package_name =
     (let expected = delegation_template_id configured;
          package_matches = (case strip_prefix ''#'' configured of
            Some name \<Rightarrow> package_name = Some name
          | None \<Rightarrow> id_package actual = configured) in
      and_then (ensure (package_matches \<and> id_module actual = id_module expected \<and> id_entity actual = id_entity expected)
        (Other ''refusing delegation'')) (\<lambda>_. Inr actual))"

definition fetch_contract_template_id :: "'d reward_config \<Rightarrow> 'w ledger \<Rightarrow> canton_id \<Rightarrow> string option \<Rightarrow> string \<Rightarrow> ('w, rw_error, ident option) io" where
  "fetch_contract_template_id A L party token cid =
     io_bind (lg_created_by_id L token cid (party_event_format (vl_hex (rc_values A)) party [WildcardFilter] False))
       (\<lambda>c. io_lift (Inr (Option.bind c cr_template_id)))"

text \<open>Submitting, and recording what was submitted.\<close>

definition submit_and_wait :: "'w ledger \<Rightarrow> string \<Rightarrow> commands \<Rightarrow> ('w world, rw_error, unit) io" where
  "submit_and_wait L auth cs w = (case ext (lg_submit L auth cs) w of (r, w') \<Rightarrow> (r, w'\<lparr>wd_sent := wd_sent w' @ [(cs, r)]\<rparr>))"

definition submit_delegation_assign :: "'d reward_config \<Rightarrow> 'w ledger \<Rightarrow> canton_id \<Rightarrow> canton_id \<Rightarrow> string \<Rightarrow> string \<Rightarrow> string \<Rightarrow> string list
    \<Rightarrow> ('w world, rw_error, unit) io" where
  "submit_delegation_assign A L decparty assigner token delegation_cid primary additional =
     io_bind (io_lift (ok_or (Other ''governance_rewards package not configured'') (rc_rewards A))) (\<lambda>fallback.
     io_bind (ext (fetch_contract_template_id A L decparty (Some token) delegation_cid)) (\<lambda>found.
     io_bind (io_lift (ok_or (Other ''delegation created event has no template id'') found)) (\<lambda>actual.
     io_bind (if strip_prefix ''#'' fallback \<noteq> None
              then io_bind (ext (lg_packages L)) (\<lambda>ps. io_lift (Inr (map_of (rev ps) (id_package actual))))
              else io_lift (Inr None)) (\<lambda>package_name.
     io_bind (io_lift (verified_delegation_template actual fallback package_name)) (\<lambda>template_id.
     io_bind (ext (lg_channel L)) (\<lambda>_.
     io_bind (ext (io_do (lg_uuid L))) (\<lambda>uuid.
     let cmd = \<lparr>ex_template_id = template_id, ex_contract_id = delegation_cid, ex_choice = ''Delegation_Assign'',
                ex_choice_argument = make_record (build_delegation_assign_arg (vl_hex (rc_values A)) assigner primary additional)\<rparr>;
         cs = commands_envelope (vl_hex (rc_values A)) uuid assigner decparty [cmd] in
     io_bind (io_lift (ensure (lg_header L (''Bearer '' @ token)) (Other ''authorization header is not a valid metadata value''))) (\<lambda>_.
     submit_and_wait L (''Bearer '' @ token) cs))))))))"

section \<open>The drain\<close>

text \<open>The coupons of a rejected chunk one at a time; \<open>stopped\<close> tells a transient failure.\<close>

type_synonym 'w submitter = "string \<Rightarrow> string list \<Rightarrow> ('w, rw_error, unit) io"

fun fan_out :: "'w submitter \<Rightarrow> string list \<Rightarrow> nat \<Rightarrow> nat \<Rightarrow> 'w \<Rightarrow> (bool \<times> nat \<times> nat) \<times> 'w" where
  "fan_out submit [] assigned skipped w = ((False, assigned, skipped), w)"
| "fan_out submit (coupon # rest) assigned skipped w = (case submit coupon [] w of
     (Inr _, w') \<Rightarrow> fan_out submit rest (assigned + 1) skipped w'
   | (Inl e, w') \<Rightarrow> if assign_failure_is_transient e then ((True, assigned, skipped), w')
       else fan_out submit rest assigned (skipped + 1) w')"

text \<open>\<open>for lo in (0..len).step_by(size)\<close>, on the coupons from \<open>lo\<close> on; the size is at least one.\<close>

function drain_chunks :: "'w submitter \<Rightarrow> nat \<Rightarrow> string list \<Rightarrow> nat \<Rightarrow> nat \<Rightarrow> 'w \<Rightarrow> (nat \<times> nat) \<times> 'w" where
  "drain_chunks submit sz [] assigned skipped w = ((assigned, skipped), w)"
| "drain_chunks submit sz (primary # cs) assigned skipped w =
     (let additional = take (sz - 1) cs; rest = drop (sz - 1) cs; n = 1 + length additional in
      case submit primary additional w of
        (Inr _, w') \<Rightarrow> drain_chunks submit sz rest (assigned + n) skipped w'
      | (Inl e, w') \<Rightarrow>
          if assign_failure_is_transient e then ((assigned, skipped), w')
          else if n = 1 then drain_chunks submit sz rest assigned (skipped + 1) w'
          else (case fan_out submit (primary # additional) assigned skipped w' of
              ((True, a, k), w'') \<Rightarrow> ((a, k), w'')
            | ((False, a, k), w'') \<Rightarrow> drain_chunks submit sz rest a k w''))"
  by pat_completeness auto
termination by (relation "measure (\<lambda>(_, _, cs, _). length cs)") auto

definition sweep_assigned_nothing :: "nat \<Rightarrow> nat \<Rightarrow> bool" where
  "sweep_assigned_nothing assignable assigned \<longleftrightarrow> 0 < assignable \<and> assigned = 0"

definition drain_assignable :: "string list \<Rightarrow> nat \<Rightarrow> string \<Rightarrow> 'w world submitter \<Rightarrow> 'w world \<Rightarrow> nat \<times> 'w world" where
  "drain_assignable assignable chunk label submit w =
     (case drain_chunks submit (max chunk 1) assignable 0 0 w of ((assigned, skipped), w') \<Rightarrow>
        (assigned,
         (if sweep_assigned_nothing (length assignable) assigned then inc_by 1 ZERO_ASSIGNED label else id)
         ((if 0 < skipped then inc_by skipped SKIPPED label else id)
         ((if 0 < assigned then inc_by assigned ASSIGNED label else id) w'))))"

section \<open>One pass for a party\<close>

datatype pass = Sweep | ExpiryRead

datatype sweep_outcome = Backlog int | Empty | Failed | CredentialsUnavailable | AuthUnregistered | Off

text \<open>The result of a pass is \<open>None\<close> when it panics.\<close>

definition i64_max :: nat where "i64_max = 2 ^ 63 - 1"

definition run_reassign_once :: "'d reward_config \<Rightarrow> 'w ledger \<Rightarrow> canton_id \<Rightarrow> canton_id \<Rightarrow> string \<Rightarrow> delegation \<Rightarrow> 'w world
    \<Rightarrow> (rw_error + int option) option \<times> 'w world" where
  "run_reassign_once A L decparty assigner token d w =
     (case vl_seconds (rc_values A) (int (min (rc_min_expiry_margin_secs A) i64_max)) of
        None \<Rightarrow> (None, w)
      | Some expiry_margin \<Rightarrow>
          (case ext (unassigned_coupons A L decparty (ad_dso d) (Some token)) w of
             (Inl e, w1) \<Rightarrow> (Some (Inl e), w1)
           | (Inr coupons, w1) \<Rightarrow>
               (case lg_utc_now L (wd_ext w1) of (now, x) \<Rightarrow>
                 let w2 = w1\<lparr>wd_ext := x\<rparr>;
                     oldest = oldest_expiry coupons now;
                     assignable = select_assignable coupons now expiry_margin in
                 if assignable = [] then (Some (Inr oldest), w2)
                 else (case drain_assignable assignable (chunk_size (rc_max_creates A) (ad_beneficiary_count d)) (show_id A decparty)
                         (submit_delegation_assign A L decparty assigner token (ad_cid d)) w2 of
                     (_, w3) \<Rightarrow> (Some (Inr oldest), w3)))))"

definition assigners_not_members :: "canton_id list \<Rightarrow> canton_id list \<Rightarrow> canton_id list" where
  "assigners_not_members assigners ms = filter (\<lambda>a. a \<notin> set ms) assigners"

definition report_assigners_not_members :: "'d reward_config \<Rightarrow> 'w ledger \<Rightarrow> canton_id \<Rightarrow> delegation \<Rightarrow> string \<Rightarrow> 'w world \<Rightarrow> 'w world" where
  "report_assigners_not_members A L decparty d token w =
     (case lg_members_timed L decparty token (wd_ext w) of (r, x) \<Rightarrow>
        let w' = w\<lparr>wd_ext := x\<rparr> in
        case r of
          Some (Inr (Some ms)) \<Rightarrow>
            if assigners_not_members (ad_assigners d) ms \<noteq> [] then inc_by 1 ASSIGNER_NOT_MEMBER (show_id A decparty) w' else w'
        | _ \<Rightarrow> w')"

definition outcome_of :: "rw_error + int option \<Rightarrow> rw_error + sweep_outcome" where
  "outcome_of r = and_then r (\<lambda>t. Inr (case t of Some t \<Rightarrow> Backlog t | None \<Rightarrow> Empty))"

definition run_once_for_party :: "'d reward_config \<Rightarrow> 'w ledger \<Rightarrow> canton_id \<Rightarrow> pass \<Rightarrow> 'w world \<Rightarrow> (rw_error + sweep_outcome) option \<times> 'w world" where
  "run_once_for_party A L decparty pass w = (case ext (lg_credentials L decparty) w of
     (Inl _, w1) \<Rightarrow> (Some (Inr CredentialsUnavailable), w1)
   | (Inr None, w1) \<Rightarrow> (Some (Inr AuthUnregistered), w1)
   | (Inr (Some (token, member)), w1) \<Rightarrow>
       (case ext (active_delegation A L decparty token) w1 of
          (Inl e, w2) \<Rightarrow> (Some (Inl e), w2)
        | (Inr None, w2) \<Rightarrow> (Some (Inr Empty), w2)
        | (Inr (Some d), w2) \<Rightarrow>
            let w3 = (if pass = Sweep then report_assigners_not_members A L decparty d token w2 else w2) in
            if role_for d member = Assign \<and> pass = Sweep then
              (case run_reassign_once A L decparty member token d w3 of (r, w4) \<Rightarrow> (map_option outcome_of r, w4))
            else (case ext (read_oldest_expiry A L decparty (ad_dso d) token) w3 of (r, w4) \<Rightarrow> (Some (outcome_of r), w4))))"

section \<open>The loop\<close>

datatype enablement = Read "canton_id list" | EOff | Unreadable

definition counts_as_auth_fault :: "sweep_outcome \<Rightarrow> canton_id \<Rightarrow> canton_id list option \<Rightarrow> bool" where
  "counts_as_auth_fault outcome decparty enabled \<longleftrightarrow> outcome \<in> {CredentialsUnavailable, AuthUnregistered}
     \<and> (case enabled of Some ps \<Rightarrow> decparty \<in> set ps | None \<Rightarrow> False)"

definition counts_as_unreadable_enablement :: "enablement \<Rightarrow> nat \<Rightarrow> bool" where
  "counts_as_unreadable_enablement r n \<longleftrightarrow> r = Unreadable \<and> 0 < n"

definition enablement_without_a_token :: "string option \<Rightarrow> (string \<times> string) list \<Rightarrow> enablement" where
  "enablement_without_a_token rewards packages =
     (let present = (case rewards of None \<Rightarrow> False | Some reference \<Rightarrow> package_listed packages reference) in
      if present then Unreadable else EOff)"

fun read_enablement :: "'d reward_config \<Rightarrow> 'w ledger \<Rightarrow> canton_id list \<Rightarrow> 'w \<Rightarrow> enablement \<times> 'w" where
  "read_enablement A L [] w = (case lg_packages_timed L w of
     (Some (Inr packages), w') \<Rightarrow> (enablement_without_a_token (rc_rewards A) packages, w')
   | (_, w') \<Rightarrow> (Unreadable, w'))"
| "read_enablement A L (decparty # parties) w = (case lg_credentials L decparty w of
     (Inr (Some (token, member)), w1) \<Rightarrow> (case delegated_decparties A L member token w1 of
         (Inr ps, w2) \<Rightarrow> (Read ps, w2)
       | (Inl e, w2) \<Rightarrow> if package_absent e then (EOff, w2) else read_enablement A L parties w2)
   | (_, w1) \<Rightarrow> read_enablement A L parties w1)"

definition is_due :: "nat option \<Rightarrow> nat \<Rightarrow> bool" where
  "is_due since_last interval = (case since_last of None \<Rightarrow> True | Some elapsed \<Rightarrow> interval \<le> elapsed)"

definition due_pass :: "nat option \<Rightarrow> nat \<Rightarrow> nat option \<Rightarrow> nat \<Rightarrow> pass option" where
  "due_pass since_sweep sweep_interval since_read read_interval =
     (if is_due since_sweep sweep_interval then Some Sweep
      else if is_due since_read read_interval then Some ExpiryRead
      else None)"

text \<open>The period of the tick, in seconds.\<close>

definition HEARTBEAT_INTERVAL :: nat where "HEARTBEAT_INTERVAL = 60"

definition tick_period :: "'d reward_config \<Rightarrow> nat" where
  "tick_period A = min (min HEARTBEAT_INTERVAL (max (rc_interval_secs A) 1)) (max (rc_expiry_read_interval_secs A) 1)"

text \<open>\<open>num_milliseconds\<close> truncates towards zero.\<close>

definition seconds_until :: "int \<Rightarrow> int \<Rightarrow> int" where
  "seconds_until expires_at now = (let d = expires_at - now in if 0 \<le> d then d div 10 ^ 6 else - ((- d) div 10 ^ 6))"

type_synonym remembered = "(canton_id \<times> int) list"

definition report_oldest_expiry :: "'d reward_config \<Rightarrow> remembered \<Rightarrow> int \<Rightarrow> 'w world \<Rightarrow> 'w world" where
  "report_oldest_expiry A oldest now w = fold (\<lambda>(p, t). set_gauge (show_id A p) (seconds_until t now)) oldest w"

definition remember :: "canton_id \<Rightarrow> int \<Rightarrow> remembered \<Rightarrow> remembered" where
  "remember p t oldest = (p, t) # filter (\<lambda>(q, _). q \<noteq> p) oldest"

definition apply_sweep_outcome :: "'d reward_config \<Rightarrow> canton_id \<Rightarrow> sweep_outcome \<Rightarrow> remembered \<times> 'w world \<Rightarrow> remembered \<times> 'w world" where
  "apply_sweep_outcome A decparty outcome = (\<lambda>(oldest, w). case outcome of
     Backlog t \<Rightarrow> (remember decparty t oldest, w)
   | Empty \<Rightarrow> (filter (\<lambda>(q, _). q \<noteq> decparty) oldest, drop_gauge (show_id A decparty) w)
   | _ \<Rightarrow> (oldest, w))"

definition prune_unserved :: "'d reward_config \<Rightarrow> canton_id list \<Rightarrow> remembered \<times> 'w world \<Rightarrow> remembered \<times> 'w world" where
  "prune_unserved A ps = (\<lambda>(oldest, w).
     (filter (\<lambda>(p, _). p \<in> set ps) oldest,
      fold (\<lambda>(p, _). if p \<in> set ps then id else drop_gauge (show_id A p)) oldest w))"

record loop_state =
  ls_last_sweep :: "nat option"
  ls_last_read :: "nat option"
  ls_oldest :: remembered
  ls_enabled :: "canton_id list option"

text \<open>The arm of the loop for one decentralized party: what it counts, and what it remembers.\<close>

definition note_party :: "'d reward_config \<Rightarrow> pass \<Rightarrow> canton_id \<Rightarrow> 'w world \<Rightarrow> 'w world" where
  "note_party A pass decparty w = (case pass of
     Sweep \<Rightarrow> ensure_outcome_series (show_id A decparty) (inc_by 1 SWEEPS (show_id A decparty) w)
   | ExpiryRead \<Rightarrow> inc_by 1 EXPIRY_READS (show_id A decparty) w)"

definition settle :: "'d reward_config \<Rightarrow> pass \<Rightarrow> canton_id \<Rightarrow> rw_error + sweep_outcome \<Rightarrow> 'w world \<Rightarrow> sweep_outcome \<times> 'w world" where
  "settle A pass decparty r w = (case r of
     Inr outcome \<Rightarrow> (outcome, w)
   | Inl e \<Rightarrow> if package_absent e then (Off, w)
       else (Failed, if pass = Sweep then inc_by 1 SWEEP_FAILED (show_id A decparty) w else w))"

definition count_auth_fault :: "'d reward_config \<Rightarrow> canton_id list option \<Rightarrow> canton_id \<Rightarrow> sweep_outcome \<Rightarrow> 'w world \<Rightarrow> 'w world" where
  "count_auth_fault A enabled decparty outcome w =
     (if counts_as_auth_fault outcome decparty enabled then
        inc_by 1 (if outcome = CredentialsUnavailable then CREDENTIALS_UNAVAILABLE else AUTH_UNREGISTERED) (show_id A decparty) w
      else w)"

fun serve_parties :: "'d reward_config \<Rightarrow> 'w ledger \<Rightarrow> pass \<Rightarrow> canton_id list option \<Rightarrow> canton_id list \<Rightarrow> remembered \<times> 'w world
    \<Rightarrow> (remembered \<times> 'w world) option" where
  "serve_parties A L pass enabled [] s = Some s"
| "serve_parties A L pass enabled (decparty # parties) (oldest, w) =
     (case run_once_for_party A L decparty pass (note_party A pass decparty w) of
        (None, w') \<Rightarrow> None
      | (Some r, w') \<Rightarrow> (case settle A pass decparty r w' of (outcome, w'') \<Rightarrow>
          serve_parties A L pass enabled parties
            (apply_sweep_outcome A decparty outcome (oldest, count_auth_fault A enabled decparty outcome w''))))"

text \<open>One turn of \<open>run_reward_automation_loop\<close> after the tick: \<open>None\<close> when it panics, which ends the detached task.\<close>

definition loop_turn :: "'d reward_config \<Rightarrow> 'w ledger \<Rightarrow> loop_state \<Rightarrow> 'w world \<Rightarrow> (loop_state \<times> 'w world) option" where
  "loop_turn A L ls w =
     (let w1 = w\<lparr>wd_metrics := (wd_metrics w)\<lparr>mt_heartbeat := mt_heartbeat (wd_metrics w) + 1\<rparr>\<rparr> in
      case lg_utc_now L (wd_ext w1) of (utc, x2) \<Rightarrow>
      let w2 = report_oldest_expiry A (ls_oldest ls) utc (w1\<lparr>wd_ext := x2\<rparr>) in
      case lg_instant L (wd_ext w2) of (now, x3) \<Rightarrow>
      let w3 = w2\<lparr>wd_ext := x3\<rparr> in
      case due_pass (map_option (\<lambda>t. now - t) (ls_last_sweep ls)) (max (rc_interval_secs A) 1 * 10 ^ 9)
             (map_option (\<lambda>t. now - t) (ls_last_read ls)) (max (rc_expiry_read_interval_secs A) 1 * 10 ^ 9) of
        None \<Rightarrow> Some (ls, w3)
      | Some pass \<Rightarrow>
          (case lg_served L (wd_ext w3) of (parties, x4) \<Rightarrow>
           case prune_unserved A parties (ls_oldest ls, w3\<lparr>wd_ext := x4\<rparr>) of (oldest, w4) \<Rightarrow>
           case read_enablement A L parties (wd_ext w4) of (r, x5) \<Rightarrow>
           let w5 = w4\<lparr>wd_ext := x5\<rparr>;
               w6 = (if counts_as_unreadable_enablement r (length parties)
                     then w5\<lparr>wd_metrics := (wd_metrics w5)\<lparr>mt_enablement_unreadable := mt_enablement_unreadable (wd_metrics w5) + 1\<rparr>\<rparr>
                     else w5);
               enabled = (case r of Read ps \<Rightarrow> Some ps | _ \<Rightarrow> ls_enabled ls) in
           map_option (\<lambda>(oldest', w7).
               (\<lparr>ls_last_sweep = (if pass = Sweep then Some now else ls_last_sweep ls), ls_last_read = Some now,
                 ls_oldest = oldest', ls_enabled = enabled\<rparr>, w7))
             (serve_parties A L pass enabled parties (oldest, w6))))"

end
