(* ===== verification/Reward_Facts.thy ===== *)
theory Reward_Facts
  imports Rewards
begin

text \<open>
  What holds of the reward automation of \<open>Rewards\<close>: what a drain submits, whatever the ledger answers; that it pays every coupon the
  ledger accepts on its own; on what evidence a command is submitted at all; and when a countdown is dropped.
\<close>

section \<open>What a drain submits\<close>

text \<open>A submitter that keeps a log of the batches and their answers.\<close>

type_synonym batch_log = "(string list \<times> (rw_error + unit)) list"

definition recorded :: "'w submitter \<Rightarrow> ('w \<times> batch_log) submitter" where
  "recorded s primary additional = (\<lambda>(w, log). case s primary additional w of (r, w') \<Rightarrow> (r, (w', log @ [(primary # additional, r)])))"

lemma recorded_apply:
  "s primary additional w = (r, w') \<Longrightarrow> recorded s primary additional (w, log) = (r, (w', log @ [(primary # additional, r)]))"
  by (simp add: recorded_def)

definition paid :: "batch_log \<Rightarrow> string list" where
  "paid log = concat (map fst (filter (\<lambda>(_, r). is_ok r) log))"

definition gave_way :: "string list \<times> (rw_error + unit) \<Rightarrow> bool" where
  "gave_way x = (case snd x of Inl e \<Rightarrow> assign_failure_is_transient e | Inr _ \<Rightarrow> False)"

lemma paid_simps [simp]:
  "paid [] = []" "paid (l @ l') = paid l @ paid l'" "paid [(b, Inr u)] = b" "paid [(b, Inl e)] = []"
  by (simp_all add: paid_def)

lemma gave_way_simps [simp]: "gave_way (b, Inr u) = False" "gave_way (b, Inl e) = assign_failure_is_transient e"
  by (simp_all add: gave_way_def)

text \<open>A run over the coupons \<open>xs\<close> that assigns \<open>a\<close> and skips \<open>k\<close> of them in at most \<open>n\<close> batches of at most \<open>m\<close> coupons: what is paid is
  paid once and in order, and the run stops at the first transient failure and only there.\<close>

definition drain_ok :: "nat \<Rightarrow> nat \<Rightarrow> string list \<Rightarrow> batch_log \<Rightarrow> bool \<Rightarrow> nat \<Rightarrow> nat \<Rightarrow> bool" where
  "drain_ok m n xs log stopped a k \<longleftrightarrow>
     (\<forall>x\<in>set log. 1 \<le> length (fst x) \<and> length (fst x) \<le> m) \<and> length log \<le> n \<and> subseq (paid log) xs \<and> a = length (paid log)
   \<and> (if stopped then a + k \<le> length xs \<and> log \<noteq> [] \<and> gave_way (last log) \<and> list_all (\<lambda>x. \<not> gave_way x) (butlast log)
      else a + k = length xs \<and> list_all (\<lambda>x. \<not> gave_way x) log)"

lemma drain_ok_append:
  assumes "drain_ok m n xs l False a k" and "drain_ok m n' ys l' stopped a' k'"
  shows "drain_ok m (n + n') (xs @ ys) (l @ l') stopped (a + a') (k + k')"
  using assms by (auto simp: drain_ok_def list_emb_append_mono butlast_append split: if_splits)

lemma drain_ok_weaken: "drain_ok m n xs l stopped a k \<Longrightarrow> n \<le> n' \<Longrightarrow> drain_ok m n' xs l stopped a k"
  by (auto simp: drain_ok_def split: if_splits)

lemma drain_ok_extend: "drain_ok m n xs l True a k \<Longrightarrow> drain_ok m n (xs @ ys) l True a k"
  by (auto simp: drain_ok_def intro: list_emb_prefix)

lemma drain_ok_nil: "drain_ok m 0 [] [] False 0 0"
  by (simp add: drain_ok_def)

lemma drain_ok_paid: "b \<noteq> [] \<Longrightarrow> length b \<le> m \<Longrightarrow> drain_ok m 1 b [(b, Inr u)] False (length b) 0"
  by (cases b) (auto simp: drain_ok_def)

lemma drain_ok_stop: "b \<noteq> [] \<Longrightarrow> length b \<le> m \<Longrightarrow> assign_failure_is_transient e \<Longrightarrow> drain_ok m 1 (b @ ys) [(b, Inl e)] True 0 0"
  by (cases b) (auto simp: drain_ok_def)

lemma drain_ok_skip: "1 \<le> m \<Longrightarrow> \<not> assign_failure_is_transient e \<Longrightarrow> drain_ok m 1 [c] [([c], Inl e)] False 0 1"
  by (simp add: drain_ok_def)

text \<open>A rejected batch is not the end: its coupons are tried one by one.\<close>

lemma drain_ok_rejected:
  assumes "drain_ok m n xs l stopped a k" and "1 \<le> length b" and "length b \<le> m" and "\<not> assign_failure_is_transient e"
  shows "drain_ok m (1 + n) xs ((b, Inl e) # l) stopped a k"
  using assms by (auto simp: drain_ok_def paid_def split: if_splits)

lemma fan_out_run:
  assumes "fan_out (recorded s) cs a k (w, log) = ((stopped, a', k'), (w', log'))" and "1 \<le> m"
  shows "\<exists>new da dk. log' = log @ new \<and> a' = a + da \<and> k' = k + dk \<and> drain_ok m (length cs) cs new stopped da dk"
  using assms(1)
proof (induction cs arbitrary: a k w log)
  case Nil
  then show ?case using drain_ok_nil by auto
next
  case (Cons c cs)
  obtain r w1 where sub: "s c [] w = (r, w1)" by force
  show ?case
  proof (cases r)
    case (Inr u)
    with Cons.prems sub have "fan_out (recorded s) cs (a + 1) k (w1, log @ [([c], r)]) = ((stopped, a', k'), (w', log'))"
      by (simp add: recorded_apply)
    from Cons.IH [OF this] obtain new da dk where n: "log' = log @ [([c], r)] @ new" "a' = a + 1 + da" "k' = k + dk"
      "drain_ok m (length cs) cs new stopped da dk" by auto
    from drain_ok_append [OF drain_ok_paid [of "[c]" m u] n(4)] assms(2) n Inr show ?thesis
      by (intro exI [of _ "([c], r) # new"] exI [of _ "1 + da"] exI [of _ dk]) simp
  next
    case (Inl e)
    show ?thesis
    proof (cases "assign_failure_is_transient e")
      case True
      with Cons.prems sub Inl have "stopped" "a' = a" "k' = k" "log' = log @ [([c], Inl e)]" by (auto simp: recorded_apply)
      with drain_ok_weaken [OF drain_ok_stop [of "[c]" m e cs] , of "length (c # cs)"] True assms(2) show ?thesis
        by (intro exI [of _ "[([c], Inl e)]"] exI [of _ 0]) simp
    next
      case False
      with Cons.prems sub Inl have "fan_out (recorded s) cs a (k + 1) (w1, log @ [([c], r)]) = ((stopped, a', k'), (w', log'))"
        by (simp add: recorded_apply)
      from Cons.IH [OF this] obtain new da dk where n: "log' = log @ [([c], r)] @ new" "a' = a + da" "k' = k + 1 + dk"
        "drain_ok m (length cs) cs new stopped da dk" by auto
      from drain_ok_append [OF drain_ok_skip [OF assms(2) False, of c] n(4)] n Inl show ?thesis
        by (intro exI [of _ "([c], r) # new"] exI [of _ da] exI [of _ "1 + dk"]) simp
    qed
  qed
qed

lemma drain_chunks_step:
  assumes "ad = take (sz - 1) cs" and "rest = drop (sz - 1) cs"
  shows "drain_chunks submit sz (p # cs) a k w = (case submit p ad w of
      (Inr _, w') \<Rightarrow> drain_chunks submit sz rest (a + length (p # ad)) k w'
    | (Inl e, w') \<Rightarrow>
        if assign_failure_is_transient e then ((a, k), w')
        else if ad = [] then drain_chunks submit sz rest a (k + 1) w'
        else (case fan_out submit (p # ad) a k w' of
            ((True, a, k), w'') \<Rightarrow> ((a, k), w'')
          | ((False, a, k), w'') \<Rightarrow> drain_chunks submit sz rest a k w''))"
proof -
  have one: "1 + length ad = length (p # ad)" "length (p # ad) = 1 \<longleftrightarrow> ad = []" by simp_all
  show ?thesis by (simp only: drain_chunks.simps(2) Let_def assms [symmetric] one)
qed

definition submissions :: "nat \<Rightarrow> nat \<Rightarrow> nat" where
  "submissions sz n = div_ceil n sz + n"

lemma submissions_step:
  assumes "1 \<le> sz"
  shows "1 + (1 + length (take (sz - 1) cs)) + submissions sz (length (drop (sz - 1) cs)) \<le> submissions sz (1 + length cs)"
proof (cases "length cs < sz")
  case True
  then have "1 \<le> div_ceil (1 + length cs) sz"
    by (cases "1 + length cs = sz") (simp_all add: div_ceil_def)
  with True show ?thesis by (simp add: submissions_def) (simp add: div_ceil_def)
next
  case False
  have plus: "div_ceil (q + sz) sz = div_ceil q sz + 1" for q
    using assms by (simp add: div_ceil_def div_add_self2)
  from False assms have "1 + length cs = (length cs - (sz - 1)) + sz" by simp
  then have "div_ceil (1 + length cs) sz = div_ceil (length cs - (sz - 1)) sz + 1" by (simp only: plus)
  with False assms show ?thesis by (simp add: submissions_def)
qed

lemma drain_chunks_run:
  assumes "drain_chunks (recorded s) sz xs a k (w, log) = ((a', k'), (w', log'))" and "1 \<le> sz"
  shows "\<exists>new da dk stopped. log' = log @ new \<and> a' = a + da \<and> k' = k + dk \<and> drain_ok sz (submissions sz (length xs)) xs new stopped da dk"
  using assms(1)
proof (induction xs arbitrary: a k w log rule: length_induct)
  case (1 xs)
  show ?case
  proof (cases xs)
    case Nil
    with 1 drain_ok_weaken [OF drain_ok_nil, of "submissions sz 0" sz] show ?thesis by auto
  next
    case (Cons p cs)
    define ad where "ad = take (sz - 1) cs"
    define rest where "rest = drop (sz - 1) cs"
    have cs: "cs = ad @ rest" by (simp add: ad_def rest_def)
    have len: "length (p # ad) \<le> sz" using assms(2) by (simp add: ad_def)
    have short: "length rest < length xs" by (simp add: Cons rest_def)
    have budget: "1 + length (p # ad) + submissions sz (length rest) \<le> submissions sz (length xs)"
      using submissions_step [OF assms(2), of cs] by (simp add: Cons ad_def rest_def)
    obtain r w1 where sub: "s p ad w = (r, w1)" by force
    have IH: "drain_chunks (recorded s) sz rest a2 k2 (w2, log2) = ((a', k'), (w', log')) \<Longrightarrow>
       \<exists>new da dk stopped. log' = log2 @ new \<and> a' = a2 + da \<and> k' = k2 + dk
         \<and> drain_ok sz (submissions sz (length rest)) rest new stopped da dk" for a2 k2 w2 log2
      using 1 short by blast
    have run: "drain_chunks (recorded s) sz (p # cs) a k (w, log) = ((a', k'), (w', log'))" using 1 Cons by simp
    note run = run [unfolded drain_chunks_step [OF ad_def rest_def]]
    have xs: "xs = (p # ad) @ rest" by (simp add: Cons cs)
    show ?thesis
    proof (cases r)
      case (Inr u)
      with run sub have "drain_chunks (recorded s) sz rest (a + length (p # ad)) k (w1, log @ [(p # ad, r)]) = ((a', k'), (w', log'))"
        by (simp add: recorded_apply)
      from IH [OF this] obtain new da dk st where n: "log' = log @ [(p # ad, r)] @ new" "a' = a + length (p # ad) + da" "k' = k + dk"
        "drain_ok sz (submissions sz (length rest)) rest new st da dk" by auto
      from drain_ok_append [OF drain_ok_paid [OF _ len, of u] n(4)] n Inr budget show ?thesis
        by (intro exI [of _ "(p # ad, r) # new"] exI [of _ "length (p # ad) + da"] exI [of _ dk] exI [of _ st])
           (auto simp: xs intro: drain_ok_weaken)
    next
      case (Inl e)
      consider (t) "assign_failure_is_transient e" | (one) "\<not> assign_failure_is_transient e" "ad = []"
        | (many) "\<not> assign_failure_is_transient e" "ad \<noteq> []" by blast
      then show ?thesis
      proof cases
        case t
        with run sub Inl have "a' = a" "k' = k" "log' = log @ [(p # ad, Inl e)]"
          by (simp_all add: recorded_apply)
        with drain_ok_stop [OF _ len t, of rest] budget show ?thesis
          by (intro exI [of _ "[(p # ad, Inl e)]"] exI [of _ 0] exI [of _ 0] exI [of _ True])
             (auto simp: xs intro: drain_ok_weaken)
      next
        case one
        with run sub Inl have "drain_chunks (recorded s) sz rest a (k + 1) (w1, log @ [([p], r)]) = ((a', k'), (w', log'))"
          by (simp add: recorded_apply)
        from IH [OF this] obtain new da dk st where n: "log' = log @ [([p], r)] @ new" "a' = a + da" "k' = k + 1 + dk"
          "drain_ok sz (submissions sz (length rest)) rest new st da dk" by auto
        from drain_ok_append [OF drain_ok_skip [OF assms(2) one(1), of p] n(4)] n Inl budget one show ?thesis
          by (intro exI [of _ "([p], r) # new"] exI [of _ da] exI [of _ "1 + dk"] exI [of _ st])
             (auto simp: xs intro: drain_ok_weaken)
      next
        case many
        obtain st1 a1 k1 w2 log2 where fo: "fan_out (recorded s) (p # ad) a k (w1, log @ [(p # ad, r)]) = ((st1, a1, k1), (w2, log2))"
          by (metis prod.exhaust)
        from fan_out_run [OF fo assms(2)] obtain new da dk where n: "log2 = log @ [(p # ad, r)] @ new" "a1 = a + da" "k1 = k + dk"
          "drain_ok sz (length (p # ad)) (p # ad) new st1 da dk" by auto
        note rej = drain_ok_rejected [OF n(4) _ len many(1)]
        show ?thesis
        proof (cases st1)
          case True
          with run sub Inl many fo have "a' = a1" "k' = k1" "log' = log2"
            by (simp_all add: recorded_apply)
          moreover from rej True have "drain_ok sz (1 + length (p # ad)) (p # ad) ((p # ad, Inl e) # new) True da dk" by simp
          then have "drain_ok sz (submissions sz (length xs)) xs ((p # ad, Inl e) # new) True da dk"
            using budget unfolding xs by (metis drain_ok_weaken drain_ok_extend add_leD1)
          ultimately show ?thesis using n Inl
            by (intro exI [of _ "(p # ad, r) # new"] exI [of _ da] exI [of _ dk] exI [of _ True]) simp
        next
          case False
          with run sub Inl many fo have "drain_chunks (recorded s) sz rest a1 k1 (w2, log2) = ((a', k'), (w', log'))"
            by (simp add: recorded_apply)
          from IH [OF this] obtain new' da' dk' st where n': "log' = log2 @ new'" "a' = a1 + da'" "k' = k1 + dk'"
            "drain_ok sz (submissions sz (length rest)) rest new' st da' dk'" by blast
          from False rej have "drain_ok sz (1 + length (p # ad)) (p # ad) ((p # ad, Inl e) # new) False da dk" by simp
          from drain_ok_append [OF this n'(4)] n n' Inl budget show ?thesis
            by (intro exI [of _ "(p # ad, r) # new @ new'"] exI [of _ "da + da'"] exI [of _ "dk + dk'"] exI [of _ st])
               (auto simp: xs intro: drain_ok_weaken)
        qed
      qed
    qed
  qed
qed

text \<open>C38: Whatever the ledger answers: a drain pays each coupon at most once, the most urgent first; a batch has at most \<open>chunk\<close> coupons; a
  list of \<open>n\<close> coupons costs at most one submission per chunk and one per coupon; after a transient failure nothing more is submitted, and
  without one every coupon is either paid or counted as skipped.\<close>

theorem drain_bounded:
  assumes "drain_chunks (recorded s) (max chunk 1) xs 0 0 (w, []) = ((assigned, skipped), (w', log))"
  shows "subseq (paid log) xs \<and> length (paid log) = assigned \<and> assigned + skipped \<le> length xs
    \<and> (\<forall>(batch, _)\<in>set log. 1 \<le> length batch \<and> length batch \<le> max chunk 1)
    \<and> length log \<le> div_ceil (length xs) (max chunk 1) + length xs
    \<and> list_all (\<lambda>x. \<not> gave_way x) (butlast log)
    \<and> (assigned + skipped = length xs \<or> gave_way (last log))"
proof -
  from drain_chunks_run [OF assms] obtain stopped
    where "drain_ok (max chunk 1) (submissions (max chunk 1) (length xs)) xs log stopped assigned skipped" by auto
  then show ?thesis
    by (auto simp: drain_ok_def submissions_def list_all_iff dest: in_set_butlastD split: if_splits)
qed

text \<open>A ledger that accepts a batch if it is not too large for it and holds no coupon it refuses, and rejects the others for good.\<close>

definition steady :: "'w submitter \<Rightarrow> nat \<Rightarrow> string set \<Rightarrow> bool" where
  "steady s cap bad \<longleftrightarrow> (\<forall>p ad w. case fst (s p ad w) of
     Inr _ \<Rightarrow> length (p # ad) \<le> cap \<and> set (p # ad) \<inter> bad = {}
   | Inl e \<Rightarrow> \<not> (length (p # ad) \<le> cap \<and> set (p # ad) \<inter> bad = {}) \<and> \<not> assign_failure_is_transient e)"

lemma steady_cases:
  assumes "steady s cap bad"
  obtains (ok) w' where "s p ad w = (Inr (), w')" "set (p # ad) \<inter> bad = {}" "length (p # ad) \<le> cap"
  | (rejected) e w' where "s p ad w = (Inl e, w')" "\<not> (length (p # ad) \<le> cap \<and> set (p # ad) \<inter> bad = {})" "\<not> assign_failure_is_transient e"
proof -
  obtain r w' where r: "s p ad w = (r, w')" by force
  have "case r of Inr _ \<Rightarrow> length (p # ad) \<le> cap \<and> set (p # ad) \<inter> bad = {}
     | Inl e \<Rightarrow> \<not> (length (p # ad) \<le> cap \<and> set (p # ad) \<inter> bad = {}) \<and> \<not> assign_failure_is_transient e"
    using assms r unfolding steady_def by (metis fst_conv)
  then show thesis
    using that r by (cases r) auto
qed

lemma fan_out_steady:
  assumes "steady s cap bad" and "1 \<le> cap"
  shows "\<exists>w' new. fan_out (recorded s) cs a k (w, log) =
      ((False, a + length (filter (\<lambda>c. c \<notin> bad) cs), k + length (filter (\<lambda>c. c \<in> bad) cs)), (w', log @ new))
    \<and> paid new = filter (\<lambda>c. c \<notin> bad) cs"
proof (induction cs arbitrary: a k w log)
  case Nil
  then show ?case by simp
next
  case (Cons c cs)
  show ?case
  proof (cases rule: steady_cases [OF assms(1), of c "[]" w, case_names ok rejected])
    case (ok w1)
    from Cons.IH [of "a + 1" k w1 "log @ [([c], Inr ())]"] obtain w' new where
      "fan_out (recorded s) cs (a + 1) k (w1, log @ [([c], Inr ())]) =
        ((False, a + 1 + length (filter (\<lambda>c. c \<notin> bad) cs), k + length (filter (\<lambda>c. c \<in> bad) cs)), (w', (log @ [([c], Inr ())]) @ new))"
      "paid new = filter (\<lambda>c. c \<notin> bad) cs" by blast
    with ok show ?thesis
      by (intro exI [of _ w'] exI [of _ "([c], Inr ()) # new"]) (simp add: recorded_apply paid_def)
  next
    case (rejected e w1)
    from Cons.IH [of a "k + 1" w1 "log @ [([c], Inl e)]"] obtain w' new where
      "fan_out (recorded s) cs a (k + 1) (w1, log @ [([c], Inl e)]) =
        ((False, a + length (filter (\<lambda>c. c \<notin> bad) cs), k + 1 + length (filter (\<lambda>c. c \<in> bad) cs)), (w', (log @ [([c], Inl e)]) @ new))"
      "paid new = filter (\<lambda>c. c \<notin> bad) cs" by blast
    with rejected assms(2) show ?thesis
      by (intro exI [of _ w'] exI [of _ "([c], Inl e) # new"]) (simp add: recorded_apply paid_def)
  qed
qed

lemma drain_step_steady:
  assumes "steady s cap bad" and "1 \<le> cap" and "ad = take (sz - 1) cs" and "rest = drop (sz - 1) cs"
  shows "\<exists>w' new. drain_chunks (recorded s) sz (p # cs) a k (w, log) = drain_chunks (recorded s) sz rest
      (a + length (filter (\<lambda>c. c \<notin> bad) (p # ad))) (k + length (filter (\<lambda>c. c \<in> bad) (p # ad))) (w', log @ new)
    \<and> paid new = filter (\<lambda>c. c \<notin> bad) (p # ad)"
proof (cases rule: steady_cases [OF assms(1), of p ad w, case_names ok rejected])
  case (ok w1)
  then have "filter (\<lambda>c. c \<notin> bad) (p # ad) = p # ad" "filter (\<lambda>c. c \<in> bad) (p # ad) = []"
    by (auto simp: filter_id_conv filter_empty_conv)
  with ok show ?thesis
    by (intro exI [of _ w1] exI [of _ "[(p # ad, Inr ())]"])
       (simp only: drain_chunks_step [OF assms(3,4)] recorded_apply prod.case sum.case paid_simps list.size add_0_right)
next
  case (rejected e w1)
  show ?thesis
  proof (cases "ad = []")
    case True
    with rejected assms(2) have "p \<in> bad" by simp
    with rejected True show ?thesis
      by (intro exI [of _ w1] exI [of _ "[([p], Inl e)]"]) (simp add: drain_chunks_step [OF assms(3,4)] recorded_apply del: drain_chunks.simps)
  next
    case False
    from fan_out_steady [OF assms(1,2), of "p # ad" a k w1 "log @ [(p # ad, Inl e)]"] obtain w' new where
      fo: "fan_out (recorded s) (p # ad) a k (w1, log @ [(p # ad, Inl e)]) =
        ((False, a + length (filter (\<lambda>c. c \<notin> bad) (p # ad)), k + length (filter (\<lambda>c. c \<in> bad) (p # ad))),
         (w', (log @ [(p # ad, Inl e)]) @ new))" and "paid new = filter (\<lambda>c. c \<notin> bad) (p # ad)" by blast
    then have "paid ((p # ad, Inl e) # new) = filter (\<lambda>c. c \<notin> bad) (p # ad)" by (simp add: paid_def)
    moreover have "drain_chunks (recorded s) sz (p # cs) a k (w, log) = drain_chunks (recorded s) sz rest
        (a + length (filter (\<lambda>c. c \<notin> bad) (p # ad))) (k + length (filter (\<lambda>c. c \<in> bad) (p # ad))) (w', log @ (p # ad, Inl e) # new)"
      using rejected False fo by (simp add: drain_chunks_step [OF assms(3,4)] recorded_apply del: drain_chunks.simps fan_out.simps)
    ultimately show ?thesis by blast
  qed
qed

lemma drain_chunks_steady:
  assumes "steady s cap bad" and "1 \<le> cap"
  shows "\<exists>w' new. drain_chunks (recorded s) sz xs a k (w, log) =
      ((a + length (filter (\<lambda>c. c \<notin> bad) xs), k + length (filter (\<lambda>c. c \<in> bad) xs)), (w', log @ new))
    \<and> paid new = filter (\<lambda>c. c \<notin> bad) xs"
proof (induction xs arbitrary: a k w log rule: length_induct)
  case (1 xs)
  show ?case
  proof (cases xs)
    case Nil
    then show ?thesis by simp
  next
    case (Cons p cs)
    define ad where "ad = take (sz - 1) cs"
    define rest where "rest = drop (sz - 1) cs"
    have xs: "xs = (p # ad) @ rest" by (simp add: Cons ad_def rest_def)
    obtain w1 n1 where first: "drain_chunks (recorded s) sz xs a k (w, log) = drain_chunks (recorded s) sz rest
        (a + length (filter (\<lambda>c. c \<notin> bad) (p # ad))) (k + length (filter (\<lambda>c. c \<in> bad) (p # ad))) (w1, log @ n1)"
      "paid n1 = filter (\<lambda>c. c \<notin> bad) (p # ad)"
      using drain_step_steady [OF assms ad_def rest_def, of p a k w log] unfolding Cons by blast
    have "length rest < length xs" by (simp add: xs)
    then obtain w2 n2 where second: "drain_chunks (recorded s) sz rest
        (a + length (filter (\<lambda>c. c \<notin> bad) (p # ad))) (k + length (filter (\<lambda>c. c \<in> bad) (p # ad))) (w1, log @ n1) =
        ((a + length (filter (\<lambda>c. c \<notin> bad) (p # ad)) + length (filter (\<lambda>c. c \<notin> bad) rest),
          k + length (filter (\<lambda>c. c \<in> bad) (p # ad)) + length (filter (\<lambda>c. c \<in> bad) rest)), (w2, (log @ n1) @ n2))"
      "paid n2 = filter (\<lambda>c. c \<notin> bad) rest"
      using 1 by blast
    show ?thesis unfolding first(1) second(1)
      by (intro exI [of _ w2] exI [of _ "n1 @ n2"]) (simp add: first(2) second(2) xs)
  qed
qed

text \<open>C9: A coupon the ledger refuses costs the others nothing: every coupon that is accepted on its own is paid, in order, whatever the
  chunk size, even one that is larger than any transaction the ledger takes.\<close>

theorem drain_pays_healthy:
  assumes "steady s cap bad" and "1 \<le> cap"
  shows "\<exists>w' log. drain_chunks (recorded s) (max chunk 1) xs 0 0 (w, []) =
      ((length (filter (\<lambda>c. c \<notin> bad) xs), length (filter (\<lambda>c. c \<in> bad) xs)), (w', log))
    \<and> paid log = filter (\<lambda>c. c \<notin> bad) xs"
  using drain_chunks_steady [OF assms, of "max chunk 1" xs 0 0 w "[]"] by simp

section \<open>What a pass reads\<close>

lemma ext_result: "ext m w = (r, w') \<Longrightarrow> m (wd_ext w) = (r, wd_ext w') \<and> wd_sent w' = wd_sent w"
  by (auto simp: ext_def split: prod.splits)

lemma sent_simps [simp]:
  "wd_sent (inc_by n f l w) = wd_sent w" "wd_sent (drop_gauge l w) = wd_sent w" "wd_sent (set_gauge l v w) = wd_sent w"
  by (simp_all add: inc_by_def drop_gauge_def set_gauge_def)

lemma report_assigners_sent [simp]: "wd_sent (report_assigners_not_members A L p d t w) = wd_sent w"
  by (auto simp: report_assigners_not_members_def Let_def split: prod.splits option.splits sum.splits)

lemma visit_all_inv:
  assumes "visit_all f rs err s = Inr s'" and "P s"
    and "\<And>c s s'. Some c \<in> set rs \<Longrightarrow> f c s = Inr s' \<Longrightarrow> P s \<Longrightarrow> P s'"
  shows "P s' \<and> err = None"
  using assms by (induction f rs err s rule: visit_all.induct) (auto simp: result_simps split: option.splits)

text \<open>The responses of a read that ended without an error.\<close>

definition answered :: "'d reward_config \<Rightarrow> 'w ledger \<Rightarrow> canton_id \<Rightarrow> string \<Rightarrow> contract_filter \<Rightarrow> created option list \<Rightarrow> bool" where
  "answered A L party token f rs \<longleftrightarrow> (\<exists>off x y. lg_active L (Some token) off
     (party_event_format (vl_hex (rc_values A)) party [acs_filter (rc_test_mode A) f] True) x = (Inr (rs, None), y))"

lemma for_each_answered:
  assumes "for_each_active_created A L party (Some token) f visit s w = (Inr s', w')"
  obtains rs where "answered A L party token f rs"
    and "visit_all (\<lambda>c s. case visited (rc_test_mode A) f c of
      Some rec \<Rightarrow> visit (cr_contract_id c) (cr_offset c) rec s | None \<Rightarrow> Inr s) rs None s = Inr s'"
proof -
  from assms obtain off w1 rs err w2 where
    a: "lg_active L (Some token) off (party_event_format (vl_hex (rc_values A)) party [acs_filter (rc_test_mode A) f] True) w1 = (Inr (rs, err), w2)"
    and v: "visit_all (\<lambda>c s. case visited (rc_test_mode A) f c of
      Some rec \<Rightarrow> visit (cr_contract_id c) (cr_offset c) rec s | None \<Rightarrow> Inr s) rs err s = Inr s'"
    by (auto simp: for_each_active_created_def io_simps)
  have "err = None" using visit_all_inv [OF v, of "\<lambda>_. True"] by simp
  with a v that show thesis by (auto simp: answered_def)
qed

text \<open>The records a bounded read collects: those of the visited events, in order.\<close>

definition records_of :: "bool \<Rightarrow> contract_filter \<Rightarrow> created option list \<Rightarrow> (string \<times> int \<times> drecord) set" where
  "records_of test_mode f rs = {(cr_contract_id c, cr_offset c, rec) | c rec. Some c \<in> set rs \<and> visited test_mode f c = Some rec}"

lemma visit_all_collect:
  "visit_all (\<lambda>c s. case visited tm f c of Some rec \<Rightarrow> Inr (s @ [(cr_contract_id c, cr_offset c, rec)]) | None \<Rightarrow> Inr s) rs None out = Inr out'
    \<Longrightarrow> set out' = set out \<union> records_of tm f rs"
proof (induction rs arbitrary: out)
  case (Cons r rs)
  show ?case
  proof (cases r)
    case None
    with Cons show ?thesis by (auto simp: records_of_def)
  next
    case (Some c)
    show ?thesis
    proof (cases "visited tm f c")
      case None
      with Cons Some show ?thesis by (fastforce simp: records_of_def)
    next
      case (Some rec)
      with Cons.prems \<open>r = Some c\<close> have "set out' = set (out @ [(cr_contract_id c, cr_offset c, rec)]) \<union> records_of tm f rs"
        by (intro Cons.IH) simp
      with Some \<open>r = Some c\<close> show ?thesis by (auto simp: records_of_def)
    qed
  qed
qed (simp add: records_of_def)

lemma case_sum_is: "(case r of Inr p \<Rightarrow> p = q | Inl _ \<Rightarrow> False) \<longleftrightarrow> r = Inr q"
  by (cases r) auto

lemma newest_delegation_max:
  assumes "newest_delegation_for V records decparty = Some (cid, rec)"
  shows "\<exists>off. (cid, off, rec) \<in> set records \<and> field_party_id V rec ''decparty'' = Inr decparty
    \<and> (\<forall>(cid', off', rec')\<in>set records. field_party_id V rec' ''decparty'' = Inr decparty \<longrightarrow> off' \<le> off)"
proof -
  let ?mine = "filter (\<lambda>(_, _, rec). case field_party_id V rec ''decparty'' of Inr p \<Rightarrow> p = decparty | Inl _ \<Rightarrow> False) records"
  let ?key = "\<lambda>(_ :: string, offset :: int, _ :: drecord). - offset"
  from assms obtain off rest where srt: "sort_key ?key ?mine = (cid, off, rec) # rest"
    by (auto simp: newest_delegation_for_def delegations_newest_first_def Let_def split: list.splits)
  then have eq: "set ?mine = set ((cid, off, rec) # rest)" by (metis set_sort)
  have "sorted (map ?key ((cid, off, rec) # rest))" by (metis srt sorted_sort_key)
  then have le: "\<forall>x\<in>set ?mine. ?key (cid, off, rec) \<le> ?key x" unfolding eq by simp
  have "(cid, off, rec) \<in> set ?mine" unfolding eq by simp
  with le show ?thesis by (intro exI [of _ off]) (auto simp: case_sum_is)
qed

text \<open>What a delegation is acted on for: the ledger answered a read for the party with a contract that names it, carries these fields,
  and is the newest of those that name it.\<close>

definition delegation_evidence :: "'d reward_config \<Rightarrow> 'w ledger \<Rightarrow> canton_id \<Rightarrow> string \<Rightarrow> delegation \<Rightarrow> bool" where
  "delegation_evidence A L decparty token d \<longleftrightarrow> (\<exists>package rs off rec. rc_rewards A = Some package
     \<and> answered A L decparty token (delegation_filter package) rs
     \<and> (ad_cid d, off, rec) \<in> records_of (rc_test_mode A) (delegation_filter package) rs
     \<and> field_party_id (rc_values A) rec ''decparty'' = Inr decparty
     \<and> (\<forall>(cid', off', rec')\<in>records_of (rc_test_mode A) (delegation_filter package) rs.
          field_party_id (rc_values A) rec' ''decparty'' = Inr decparty \<longrightarrow> off' \<le> off)
     \<and> field_party_id (rc_values A) rec ''dso'' = Inr (ad_dso d)
     \<and> field_party_list (rc_values A) rec ''assigners'' = Inr (ad_assigners d)
     \<and> field_list_len rec ''split'' = Inr (ad_beneficiary_count d) \<and> 0 < ad_beneficiary_count d)"

lemma active_delegation_evidence:
  assumes "active_delegation A L decparty token w = (Inr (Some d), w')"
  shows "delegation_evidence A L decparty token d"
proof -
  from assms obtain package records w1 cid rec where pk: "rc_rewards A = Some package"
    and rd: "bounded_created_records A L decparty (Some token) (delegation_filter package) w = (Inr records, w1)"
    and nw: "newest_delegation_for (rc_values A) records decparty = Some (cid, rec)"
    and ps: "parse_delegation_record (rc_values A) cid rec = Inr d"
    by (auto simp: active_delegation_def io_simps result_simps from_decode_def split: option.splits)
  from for_each_answered [OF rd [unfolded bounded_created_records_def]] obtain rs where
    rs: "answered A L decparty token (delegation_filter package) rs"
    and v: "visit_all (\<lambda>c s. case visited (rc_test_mode A) (delegation_filter package) c of
        Some rec \<Rightarrow> Inr (s @ [(cr_contract_id c, cr_offset c, rec)]) | None \<Rightarrow> Inr s) rs None [] = Inr records" .
  have set: "set records = records_of (rc_test_mode A) (delegation_filter package) rs" using visit_all_collect [OF v] by simp
  from ps have d: "ad_cid d = cid" "field_party_id (rc_values A) rec ''dso'' = Inr (ad_dso d)"
    "field_party_list (rc_values A) rec ''assigners'' = Inr (ad_assigners d)"
    "field_list_len rec ''split'' = Inr (ad_beneficiary_count d)" "0 < ad_beneficiary_count d"
    unfolding parse_delegation_record_def and_then_Inr_iff by (auto simp: and_then_Inr_iff split: if_splits)
  from newest_delegation_max [OF nw] obtain off where "(cid, off, rec) \<in> set records"
    "field_party_id (rc_values A) rec ''decparty'' = Inr decparty"
    "\<forall>(cid', off', rec')\<in>set records. field_party_id (rc_values A) rec' ''decparty'' = Inr decparty \<longrightarrow> off' \<le> off" by blast
  with pk rs d show ?thesis unfolding delegation_evidence_def set by blast
qed

text \<open>What a coupon is assigned for: the ledger answered a read for the party with a contract that \<open>RewardCouponV2\<close> created, whose
  view names the party as provider and the DSO, has no beneficiary, and does not expire before \<open>limit\<close>.\<close>

definition coupon_evidence :: "'d reward_config \<Rightarrow> 'w ledger \<Rightarrow> canton_id \<Rightarrow> string \<Rightarrow> canton_id \<Rightarrow> int \<Rightarrow> string \<Rightarrow> bool" where
  "coupon_evidence A L decparty token dso limit cid \<longleftrightarrow> (\<exists>rs c rec t. answered A L decparty token coupon_filter rs
     \<and> Some c \<in> set rs \<and> cr_contract_id c = cid
     \<and> named_as ''Splice.Amulet'' ''RewardCouponV2'' (cr_template_id c)
     \<and> visited (rc_test_mode A) coupon_filter c = Some rec
     \<and> field_party_id (rc_values A) rec ''provider'' = Inr decparty \<and> field_party_id (rc_values A) rec ''dso'' = Inr dso
     \<and> record_field rec ''beneficiary'' = Some (SOptional None)
     \<and> field_time (rc_values A) rec ''expiresAt'' = Inr t \<and> limit \<le> t)"

lemma parse_unassigned_coupon_ok:
  assumes "parse_unassigned_coupon V cid rec decparty dso = Inr (Some coupon)"
  shows "ci_cid coupon = cid \<and> field_party_id V rec ''provider'' = Inr decparty \<and> field_party_id V rec ''dso'' = Inr dso
    \<and> record_field rec ''beneficiary'' = Some (SOptional None) \<and> field_time V rec ''expiresAt'' = Inr (ci_expires_at coupon)"
  using assms unfolding parse_unassigned_coupon_def and_then_Inr_iff
  by (auto simp: and_then_Inr_iff field_optional_is_none_iff split: if_splits)

lemma coupon_visited_template:
  "visited tm coupon_filter c = Some rec \<Longrightarrow> named_as ''Splice.Amulet'' ''RewardCouponV2'' (cr_template_id c)"
  by (auto simp: visited_def coupon_filter_def implemented_by_def filter_interface_def split: if_splits)

lemma unassigned_coupons_evidence:
  assumes "unassigned_coupons A L decparty dso (Some token) w = (Inr coupons, w')" and "coupon \<in> set coupons" and "limit \<le> ci_expires_at coupon"
  shows "coupon_evidence A L decparty token dso limit (ci_cid coupon)"
proof -
  let ?visit = "\<lambda>cid rec s. and_then (from_decode (parse_unassigned_coupon (rc_values A) cid rec decparty dso))
    (\<lambda>c. case c of Some coupon \<Rightarrow> Inr (s @ [coupon]) | None \<Rightarrow> Inr s)"
  from for_each_answered [OF assms(1) [unfolded unassigned_coupons_def for_each_unassigned_coupon_def]] obtain rs where
    rs: "answered A L decparty token coupon_filter rs"
    and v: "visit_all (\<lambda>c s. case visited (rc_test_mode A) coupon_filter c of
        Some rec \<Rightarrow> ?visit (cr_contract_id c) rec s | None \<Rightarrow> Inr s) rs None [] = Inr coupons" .
  let ?P = "\<lambda>s. \<forall>x\<in>set s. \<exists>c rec. Some c \<in> set rs \<and> visited (rc_test_mode A) coupon_filter c = Some rec
      \<and> parse_unassigned_coupon (rc_values A) (cr_contract_id c) rec decparty dso = Inr (Some x)"
  have "?P coupons"
  proof (rule conjunct1 [OF visit_all_inv [OF v]])
    fix c s s'
    assume c: "Some c \<in> set rs" and step: "(case visited (rc_test_mode A) coupon_filter c of
        Some rec \<Rightarrow> ?visit (cr_contract_id c) rec s | None \<Rightarrow> Inr s) = Inr s'" and P: "?P s"
    show "?P s'"
    proof (cases "visited (rc_test_mode A) coupon_filter c")
      case None
      with step P show ?thesis by simp
    next
      case (Some rec)
      with step obtain co where co: "parse_unassigned_coupon (rc_values A) (cr_contract_id c) rec decparty dso = Inr co"
        and s': "(case co of Some coupon \<Rightarrow> Inr (s @ [coupon]) | None \<Rightarrow> Inr s) = (Inr s' :: rw_error + coupon_info list)"
        by (auto simp: and_then_Inr_iff from_decode_def map_err_Inr)
      show ?thesis
      proof (cases co)
        case None
        with s' P show ?thesis by simp
      next
        case (Some x)
        with s' have "s' = s @ [x]" by simp
        with P c co Some \<open>visited (rc_test_mode A) coupon_filter c = Some rec\<close> show ?thesis by auto
      qed
    qed
  qed simp
  then obtain c rec where c: "Some c \<in> set rs" "visited (rc_test_mode A) coupon_filter c = Some rec"
    "parse_unassigned_coupon (rc_values A) (cr_contract_id c) rec decparty dso = Inr (Some coupon)" using assms(2) by blast
  show ?thesis unfolding coupon_evidence_def
    using parse_unassigned_coupon_ok [OF c(3)] coupon_visited_template [OF c(2)] c(1,2) rs assms(3)
    by (intro exI [of _ rs] exI [of _ c] exI [of _ rec] exI [of _ "ci_expires_at coupon"]) simp
qed

section \<open>What is submitted\<close>

text \<open>The command that assigns a batch.\<close>

definition assign_command :: "'d reward_config \<Rightarrow> string \<Rightarrow> canton_id \<Rightarrow> canton_id \<Rightarrow> ident \<Rightarrow> string \<Rightarrow> string list \<Rightarrow> commands" where
  "assign_command A uuid member decparty template cid batch =
     commands_envelope (vl_hex (rc_values A)) uuid member decparty
       [\<lparr>ex_template_id = template, ex_contract_id = cid, ex_choice = ''Delegation_Assign'',
         ex_choice_argument = make_record (build_delegation_assign_arg (vl_hex (rc_values A)) member (hd batch) (tl batch))\<rparr>]"

text \<open>The template is the delegation's, of the configured package or of one of the configured name.\<close>

definition trusted_template :: "'d reward_config \<Rightarrow> 'w ledger \<Rightarrow> ident \<Rightarrow> bool" where
  "trusted_template A L i \<longleftrightarrow> id_module i = DELEGATION_MODULE \<and> id_entity i = DELEGATION_ENTITY
   \<and> (\<exists>configured. rc_rewards A = Some configured \<and> (case strip_prefix ''#'' configured of
        None \<Rightarrow> id_package i = configured
      | Some name \<Rightarrow> \<exists>x ps y. lg_packages L x = (Inr ps, y) \<and> map_of (rev ps) (id_package i) = Some name))"

definition sends :: "(commands \<Rightarrow> bool) \<Rightarrow> 'w world \<Rightarrow> 'w world \<Rightarrow> bool" where
  "sends P w w' \<longleftrightarrow> (\<exists>new. wd_sent w' = wd_sent w @ new \<and> (\<forall>(cs, _)\<in>set new. P cs))"

lemma sends_refl: "wd_sent w' = wd_sent w \<Longrightarrow> sends P w w'"
  by (simp add: sends_def)

lemma sends_trans: "sends P w w' \<Longrightarrow> sends P w' w'' \<Longrightarrow> sends P w w''"
  unfolding sends_def by (force simp: ball_Un)

lemma sends_mono: "sends P w w' \<Longrightarrow> (\<And>cs. P cs \<Longrightarrow> Q cs) \<Longrightarrow> sends Q w w'"
  unfolding sends_def by blast

text \<open>Operations that submit nothing.\<close>

definition quiet :: "('w world, 'e, 'a) io \<Rightarrow> bool" where
  "quiet m \<longleftrightarrow> (\<forall>w r w'. m w = (r, w') \<longrightarrow> wd_sent w' = wd_sent w)"

lemma quiet_ext: "quiet (ext m)"
  unfolding quiet_def by (metis ext_result)

lemma quiet_lift: "quiet (io_lift q)"
  by (simp add: quiet_def io_lift_def)

lemma quiet_bind:
  assumes "quiet m" and "\<And>x. quiet (f x)"
  shows "quiet (io_bind m f)"
  unfolding quiet_def
proof (intro allI impI)
  fix w r w'
  assume run: "io_bind m f w = (r, w')"
  obtain q w1 where q: "m w = (q, w1)" by force
  with assms(1) have "wd_sent w1 = wd_sent w" by (simp add: quiet_def)
  moreover from run q assms(2) have "wd_sent w' = wd_sent w1"
    by (cases q) (auto simp: io_bind_def quiet_def)
  ultimately show "wd_sent w' = wd_sent w" by simp
qed

lemma quiet_if: "quiet m' \<Longrightarrow> quiet m'' \<Longrightarrow> quiet (if b then m' else m'')"
  by simp

lemmas quiet_intros = quiet_ext quiet_lift quiet_bind quiet_if

lemma sends_bind:
  assumes "io_bind m f w = (r, w')" and "quiet m" and "\<And>x w1. m w = (Inr x, w1) \<Longrightarrow> f x w1 = (r, w') \<Longrightarrow> sends P w1 w'"
  shows "sends P w w'"
proof -
  obtain q w1 where q: "m w = (q, w1)" by force
  with assms(2) have s: "wd_sent w1 = wd_sent w" by (simp add: quiet_def)
  show ?thesis
  proof (cases q)
    case (Inl e)
    with assms(1) q s show ?thesis by (simp add: io_bind_def sends_def)
  next
    case (Inr x)
    with assms(1) q have "f x w1 = (r, w')" by (simp add: io_bind_def)
    with assms(3) q Inr have "sends P w1 w'" by blast
    with s show ?thesis by (simp add: sends_def)
  qed
qed

lemma submit_and_wait_sends:
  "submit_and_wait L auth cs w = (r, w') \<Longrightarrow> P cs \<Longrightarrow> sends P w w'"
  by (auto simp: submit_and_wait_def sends_def dest: ext_result split: prod.splits)

lemma verified_template_ok:
  assumes "verified_delegation_template actual configured package_name = Inr i" and "rc_rewards A = Some configured"
    and "\<And>name. strip_prefix ''#'' configured = Some name \<Longrightarrow> \<exists>x ps y. lg_packages L x = (Inr ps, y) \<and> package_name = map_of (rev ps) (id_package actual)"
  shows "trusted_template A L i"
  using assms by (auto simp: verified_delegation_template_def trusted_template_def delegation_template_id_def result_simps Let_def
      split: option.splits) metis

lemma submit_sends:
  assumes "submit_delegation_assign A L decparty member token cid primary additional w = (r, w')"
  shows "sends (\<lambda>cs. \<exists>uuid template. cs = assign_command A uuid member decparty template cid (primary # additional) \<and> trusted_template A L template) w w'"
  using assms unfolding submit_delegation_assign_def Let_def
  apply -
  apply (erule sends_bind, intro quiet_intros)+
  subgoal premises prems for configured w1 found w2 actual w3 package_name w4 template w5 u w6 uuid w7 v w8
  proof -
    have t: "trusted_template A L template"
      using prems by (intro verified_template_ok [of actual configured package_name])
        (auto simp: io_simps result_simps dest!: ext_result split: if_splits)
    from prems t show ?thesis
      by (auto simp: assign_command_def intro!: submit_and_wait_sends)
  qed
  done

lemma fan_out_sends:
  assumes "\<And>c w r w'. c \<in> set cs \<Longrightarrow> submit c [] w = (r, w') \<Longrightarrow> sends P w w'" and "fan_out submit cs a k w = (q, w')"
  shows "sends P w w'"
  using assms
proof (induction cs arbitrary: a k w)
  case Nil
  then show ?case by (simp add: sends_refl)
next
  case (Cons c cs)
  obtain r w1 where r: "submit c [] w = (r, w1)" by force
  have first: "sends P w w1" by (rule Cons.prems(1) [OF _ r]) simp
  have rest: "fan_out submit cs a2 k2 w1 = (q, w') \<Longrightarrow> sends P w w'" for a2 k2
    using Cons.IH Cons.prems(1) first by (meson list.set_intros(2) sends_trans)
  show ?case using Cons.prems(2) r first rest by (auto split: sum.splits if_splits)
qed

lemma drain_sends:
  assumes "\<And>p ad w r w'. set (p # ad) \<subseteq> X \<Longrightarrow> length (p # ad) \<le> max sz 1 \<Longrightarrow> submit p ad w = (r, w') \<Longrightarrow> sends P w w'"
    and "set xs \<subseteq> X" and "drain_chunks submit sz xs a k w = (q, w')"
  shows "sends P w w'"
  using assms(2,3)
proof (induction xs arbitrary: a k w rule: length_induct)
  case (1 xs)
  show ?case
  proof (cases xs)
    case Nil
    with 1 show ?thesis by (simp add: sends_refl)
  next
    case (Cons p cs)
    define ad where "ad = take (sz - 1) cs"
    define rest where "rest = drop (sz - 1) cs"
    have xs: "xs = (p # ad) @ rest" by (simp add: Cons ad_def rest_def)
    have X: "set (p # ad) \<subseteq> X" "set rest \<subseteq> X" using 1 xs by auto
    obtain r w1 where r: "submit p ad w = (r, w1)" by force
    have first: "sends P w w1" by (rule assms(1) [OF X(1) _ r]) (simp add: ad_def)
    have rest: "drain_chunks submit sz rest a2 k2 w2 = (q, w') \<Longrightarrow> sends P w2 w'" for a2 k2 w2
      using 1 X(2) xs by (metis length_append less_add_same_cancel2 length_greater_0_conv list.distinct(1))
    have fan: "fan_out submit (p # ad) a2 k2 w1 = (z, w2) \<Longrightarrow> sends P w1 w2" for a2 k2 z w2
    proof (erule fan_out_sends [rotated])
      fix c v t v'
      assume "c \<in> set (p # ad)" and "submit c [] v = (t, v')"
      then show "sends P v v'" using X(1) by (intro assms(1) [of c "[]" v t v']) auto
    qed
    have "drain_chunks submit sz (p # cs) a k w = (q, w')" using 1 Cons by simp
    moreover have "sends P w w2 \<Longrightarrow> drain_chunks submit sz rest a2 k2 w2 = (q, w') \<Longrightarrow> sends P w w'" for a2 k2 w2
      using rest sends_trans by blast
    moreover have "fan_out submit (p # ad) a2 k2 w1 = (z, w2) \<Longrightarrow> sends P w w2" for a2 k2 z w2
      using fan first sends_trans by blast
    ultimately show ?thesis unfolding drain_chunks_step [OF ad_def rest_def]
      using r first by (auto split: sum.splits if_splits prod.splits bool.splits simp del: fan_out.simps) blast
  qed
qed

text \<open>A batch of the chunk size creates at most \<open>max_creates\<close> contracts, unless it is a single coupon.\<close>

lemma chunk_size_bound:
  assumes "n \<le> max (chunk_size max_creates count) 1" and "0 < count"
  shows "n * count \<le> max_creates \<or> n \<le> 1"
proof (cases "max_creates div count")
  case 0
  with assms show ?thesis by (simp add: chunk_size_def)
next
  case (Suc m)
  with assms have "n \<le> max_creates div count" by (auto simp: chunk_size_def)
  then have "n * count \<le> max_creates div count * count" by simp
  also have "\<dots> \<le> max_creates" by simp
  finally show ?thesis ..
qed

text \<open>A submitted command is in order when it is the member's, exercises \<open>Delegation_Assign\<close> on the newest delegation of the party, which
  names the member, through a trusted template, and carries only unassigned coupons of the party and the delegation's DSO that
  expire no sooner than the margin after some reading of the clock.\<close>

definition in_order :: "'d reward_config \<Rightarrow> 'w ledger \<Rightarrow> canton_id \<Rightarrow> commands \<Rightarrow> bool" where
  "in_order A L decparty cs \<longleftrightarrow> (\<exists>token member d uuid template batch now margin.
     (\<exists>x y. lg_credentials L decparty x = (Inr (Some (token, member)), y))
   \<and> delegation_evidence A L decparty token d \<and> member \<in> set (ad_assigners d)
   \<and> cs = assign_command A uuid member decparty template (ad_cid d) batch \<and> trusted_template A L template
   \<and> batch \<noteq> [] \<and> (length batch * ad_beneficiary_count d \<le> rc_max_creates A \<or> length batch = 1)
   \<and> (\<exists>x y. lg_utc_now L x = (now, y))
   \<and> vl_seconds (rc_values A) (int (min (rc_min_expiry_margin_secs A) i64_max)) = Some margin
   \<and> (\<forall>cid\<in>set batch. coupon_evidence A L decparty token (ad_dso d) (now + margin) cid))"

lemma select_assignable_evidence:
  assumes "unassigned_coupons A L decparty dso (Some token) w = (Inr coupons, w')" and "cid \<in> set (select_assignable coupons now margin)"
  shows "coupon_evidence A L decparty token dso (now + margin) cid"
proof -
  from assms(2) obtain c where "c \<in> set coupons" "now + margin \<le> ci_expires_at c" "cid = ci_cid c"
    by (auto simp: select_assignable_def is_assignable_def)
  with unassigned_coupons_evidence [OF assms(1)] show ?thesis by simp
qed

lemma run_reassign_sends:
  assumes run: "run_reassign_once A L decparty member token d w = (r, w')"
    and creds: "\<exists>x y. lg_credentials L decparty x = (Inr (Some (token, member)), y)"
    and d: "delegation_evidence A L decparty token d" and m: "member \<in> set (ad_assigners d)"
  shows "sends (in_order A L decparty) w w'"
proof (cases "vl_seconds (rc_values A) (int (min (rc_min_expiry_margin_secs A) i64_max))")
  case None
  with run show ?thesis by (simp add: run_reassign_once_def sends_refl)
next
  case (Some margin)
  obtain q w1 where q: "ext (unassigned_coupons A L decparty (ad_dso d) (Some token)) w = (q, w1)" by force
  show ?thesis
  proof (cases q)
    case (Inl e)
    with run Some q have "w' = w1" by (simp add: run_reassign_once_def)
    with q ext_result show ?thesis by (blast intro: sends_refl)
  next
    case (Inr coupons)
    obtain now x where now: "lg_utc_now L (wd_ext w1) = (now, x)" by force
    let ?xs = "select_assignable coupons now margin"
    let ?sz = "chunk_size (rc_max_creates A) (ad_beneficiary_count d)"
    from q Inr have read: "unassigned_coupons A L decparty (ad_dso d) (Some token) (wd_ext w) = (Inr coupons, wd_ext w1)"
      and w1: "wd_sent w1 = wd_sent w" using ext_result by fastforce+
    have batch: "sends (in_order A L decparty) v v'"
      if "set (p # ad) \<subseteq> set ?xs" and "length (p # ad) \<le> max (max ?sz 1) 1"
        and "submit_delegation_assign A L decparty member token (ad_cid d) p ad v = (t, v')" for p ad v t v'
    proof (rule sends_mono [OF submit_sends [OF that(3)]])
      fix cs
      assume "\<exists>uuid template. cs = assign_command A uuid member decparty template (ad_cid d) (p # ad) \<and> trusted_template A L template"
      moreover have "\<forall>cid\<in>set (p # ad). coupon_evidence A L decparty token (ad_dso d) (now + margin) cid"
        using that(1) select_assignable_evidence [OF read] by blast
      moreover have "length (p # ad) * ad_beneficiary_count d \<le> rc_max_creates A \<or> length (p # ad) = 1"
        using chunk_size_bound [of "length (p # ad)" "rc_max_creates A" "ad_beneficiary_count d"] that(2) d
        by (auto simp: delegation_evidence_def)
      ultimately show "in_order A L decparty cs"
        using creds d m now Some unfolding in_order_def by blast
    qed
    have "sends (in_order A L decparty) (w1\<lparr>wd_ext := x\<rparr>) w'"
    proof (cases "?xs = []")
      case True
      with run Some q Inr now show ?thesis by (simp add: run_reassign_once_def sends_refl)
    next
      case False
      obtain a k w2 where dr: "drain_chunks (submit_delegation_assign A L decparty member token (ad_cid d)) (max ?sz 1) ?xs 0 0
          (w1\<lparr>wd_ext := x\<rparr>) = ((a, k), w2)" by (metis prod.exhaust)
      with run Some q Inr now False have "wd_sent w' = wd_sent w2"
        by (auto simp: run_reassign_once_def drain_assignable_def Let_def)
      moreover have "sends (in_order A L decparty) (w1\<lparr>wd_ext := x\<rparr>) w2"
        by (rule drain_sends [OF batch _ dr]) auto
      ultimately show ?thesis by (simp add: sends_def)
    qed
    with w1 show ?thesis by (simp add: sends_def)
  qed
qed

text \<open>A pass submits commands only in a sweep, and every command it submits is in order.\<close>

lemma run_once_submits:
  assumes "run_once_for_party A L decparty pass w = (r, w')"
  shows "\<exists>new. wd_sent w' = wd_sent w @ new \<and> (new \<noteq> [] \<longrightarrow> pass = Sweep) \<and> (\<forall>(cs, _)\<in>set new. in_order A L decparty cs)"
proof -
  have none: ?thesis if "wd_sent w' = wd_sent w" using that by simp
  obtain q w1 where q: "ext (lg_credentials L decparty) w = (q, w1)" by force
  note c = ext_result [OF q]
  show ?thesis
  proof (cases "\<exists>token member. q = Inr (Some (token, member))")
    case False
    with assms q c show ?thesis by (intro none) (auto simp: run_once_for_party_def split: sum.splits option.splits)
  next
    case True
    then obtain token member where tm: "q = Inr (Some (token, member))" by blast
    obtain z w2 where z: "ext (active_delegation A L decparty token) w1 = (z, w2)" by force
    note ad = ext_result [OF z]
    show ?thesis
    proof (cases "\<exists>d. z = Inr (Some d)")
      case False
      with assms q tm z c ad show ?thesis by (intro none) (auto simp: run_once_for_party_def split: sum.splits option.splits)
    next
      case True
      then obtain d where d: "z = Inr (Some d)" by blast
      with ad have ev: "delegation_evidence A L decparty token d" by (auto intro: active_delegation_evidence)
      define w3 where "w3 = (if pass = Sweep then report_assigners_not_members A L decparty d token w2 else w2)"
      have w3: "wd_sent w3 = wd_sent w" using c ad by (simp add: w3_def)
      show ?thesis
      proof (cases "role_for d member = Assign \<and> pass = Sweep")
        case True
        with assms q tm z d obtain r' where "run_reassign_once A L decparty member token d w3 = (r', w')"
          by (auto simp: run_once_for_party_def Let_def w3_def split: prod.splits)
        from run_reassign_sends [OF this _ ev] c tm True w3 show ?thesis
          by (auto simp: role_for_def sends_def split: if_splits)
      next
        case False
        then have "ext (read_oldest_expiry A L decparty (ad_dso d) token) w3 = (fst (ext (read_oldest_expiry A L decparty (ad_dso d) token) w3), w')"
          using assms q tm z d by (auto simp: run_once_for_party_def Let_def w3_def split: prod.splits)
        from ext_result [OF this] w3 show ?thesis by (intro none) simp
      qed
    qed
  qed
qed

section \<open>The countdown\<close>

text \<open>The earliest expiry still to come.\<close>

definition earliest :: "int \<Rightarrow> int set \<Rightarrow> int option" where
  "earliest now ts = (let live = {t \<in> ts. now < t} in if live = {} then None else Some (Min live))"

lemma fold_oldest_earliest:
  assumes "finite ts"
  shows "fold_oldest_expiry (earliest now ts) t now = earliest now (insert t ts)"
proof -
  let ?live = "{t \<in> ts. now < t}"
  have fin: "finite ?live" using assms by simp
  have ins: "{s. (s = t \<or> s \<in> ts) \<and> now < s} = (if now < t then insert t ?live else ?live)" by auto
  show ?thesis
  proof (cases "?live = {}")
    case True
    then have none: "earliest now ts = None" by (simp add: earliest_def)
    from True have "{s \<in> insert t ts. now < s} = (if now < t then {t} else {})" by auto
    then have "earliest now (insert t ts) = (if now < t then Some t else None)" by (simp only: earliest_def Let_def) simp
    with none show ?thesis by (simp add: fold_oldest_expiry_def)
  next
    case False
    with fin ins show ?thesis by (auto simp: fold_oldest_expiry_def earliest_def Let_def min.commute)
  qed
qed

lemma oldest_expiry_earliest: "oldest_expiry coupons now = earliest now (ci_expires_at ` set coupons)"
proof -
  have "fold (\<lambda>c oldest. fold_oldest_expiry oldest (ci_expires_at c) now) coupons (earliest now ts)
      = earliest now (ts \<union> ci_expires_at ` set coupons)" if "finite ts" for ts
    using that
  proof (induction coupons arbitrary: ts)
    case (Cons c cs)
    then show ?case by (simp add: fold_oldest_earliest)
  qed simp
  from this [of "{}"] show ?thesis by (simp add: oldest_expiry_def earliest_def)
qed

lemma visit_all_sim:
  assumes "\<And>c s. f2 c (h s) = map_sum id h (f1 c s)"
  shows "visit_all f2 rs err (h s) = map_sum id h (visit_all f1 rs err s)"
proof (induction rs arbitrary: s)
  case Nil
  then show ?case by (simp split: option.splits)
next
  case (Cons r rs)
  show ?case
  proof (cases r)
    case None
    with Cons show ?thesis by simp
  next
    case (Some c)
    with Cons show ?thesis by (cases "f1 c s") (simp_all add: assms)
  qed
qed

lemma for_each_coupon_sim:
  assumes "\<And>c s. v2 c (h s) = map_sum id h (v1 c s)" and "for_each_unassigned_coupon A L decparty dso token v1 s x = (r, z)"
  shows "for_each_unassigned_coupon A L decparty dso token v2 (h s) x = (map_sum id h r, z)"
proof -
  have step: "and_then q (\<lambda>co. case co of Some coupon \<Rightarrow> v2 coupon (h s) | None \<Rightarrow> Inr (h s))
      = map_sum id h (and_then q (\<lambda>co. case co of Some coupon \<Rightarrow> v1 coupon s | None \<Rightarrow> Inr s))" for q :: "rw_error + coupon_info option" and s
    by (cases q) (auto simp: assms(1) split: option.splits)
  note sim = visit_all_sim [of "\<lambda>c s. case visited (rc_test_mode A) coupon_filter c of Some rec \<Rightarrow>
      and_then (from_decode (parse_unassigned_coupon (rc_values A) (cr_contract_id c) rec decparty dso))
        (\<lambda>co. case co of Some coupon \<Rightarrow> v2 coupon s | None \<Rightarrow> Inr s) | None \<Rightarrow> Inr s" h
    "\<lambda>c s. case visited (rc_test_mode A) coupon_filter c of Some rec \<Rightarrow>
      and_then (from_decode (parse_unassigned_coupon (rc_values A) (cr_contract_id c) rec decparty dso))
        (\<lambda>co. case co of Some coupon \<Rightarrow> v1 coupon s | None \<Rightarrow> Inr s) | None \<Rightarrow> Inr s"]
  have "visit_all (\<lambda>c s. case visited (rc_test_mode A) coupon_filter c of Some rec \<Rightarrow>
      and_then (from_decode (parse_unassigned_coupon (rc_values A) (cr_contract_id c) rec decparty dso))
        (\<lambda>co. case co of Some coupon \<Rightarrow> v2 coupon s | None \<Rightarrow> Inr s) | None \<Rightarrow> Inr s) rs err (h s)
    = map_sum id h (visit_all (\<lambda>c s. case visited (rc_test_mode A) coupon_filter c of Some rec \<Rightarrow>
      and_then (from_decode (parse_unassigned_coupon (rc_values A) (cr_contract_id c) rec decparty dso))
        (\<lambda>co. case co of Some coupon \<Rightarrow> v1 coupon s | None \<Rightarrow> Inr s) | None \<Rightarrow> Inr s) rs err s)" for rs err
    by (rule sim) (simp add: step split: option.splits)
  with assms(2) show ?thesis
    by (auto simp: for_each_unassigned_coupon_def for_each_active_created_def io_bind_def io_lift_def split: prod.splits sum.splits)
qed

lemma read_oldest_expiry_eq:
  assumes "lg_utc_now L x = (now, y)" and "unassigned_coupons A L decparty dso (Some token) y = (r, z)"
  shows "read_oldest_expiry A L decparty dso token x = (map_sum id (\<lambda>coupons. oldest_expiry coupons now) r, z)"
proof -
  have app: "oldest_expiry (cs @ [c]) now = fold_oldest_expiry (oldest_expiry cs now) (ci_expires_at c) now" for cs c
    by (simp add: oldest_expiry_def)
  have "for_each_unassigned_coupon A L decparty dso (Some token)
      (\<lambda>coupon oldest. Inr (fold_oldest_expiry oldest (ci_expires_at coupon) now)) (oldest_expiry [] now) y
    = (map_sum id (\<lambda>coupons. oldest_expiry coupons now) r, z)"
    using assms(2) unfolding unassigned_coupons_def by (rule for_each_coupon_sim [rotated]) (simp add: app)
  then show ?thesis
    using assms(1) by (simp add: read_oldest_expiry_def io_bind_def io_do_def oldest_expiry_def)
qed

text \<open>The streaming read of the expiry gives what the sweep computes from the list of coupons, errors included, and that is the
  earliest expiry still to come.\<close>

theorem streaming_read_is_the_minimum:
  assumes "lg_utc_now L x = (now, y)" and "unassigned_coupons A L decparty dso (Some token) y = (r, z)"
  shows "read_oldest_expiry A L decparty dso token x = (map_sum id (\<lambda>coupons. earliest now (ci_expires_at ` set coupons)) r, z)
    \<and> (\<forall>coupons. oldest_expiry coupons now = earliest now (ci_expires_at ` set coupons))"
  using read_oldest_expiry_eq [OF assms] by (simp add: oldest_expiry_earliest)

text \<open>The keys of the remembered expiries, and what leaves them.\<close>

lemma apply_outcome_keys:
  assumes "apply_sweep_outcome A decparty outcome (oldest, w) = (oldest', w')" and "p \<in> fst ` set oldest" and "p \<notin> fst ` set oldest'"
  shows "p = decparty \<and> outcome = Empty"
proof (cases outcome)
  case (Backlog t)
  with assms have "fst ` set oldest \<subseteq> fst ` set oldest'" by (auto simp: apply_sweep_outcome_def remember_def image_iff)
  with assms show ?thesis by blast
next
  case Empty
  with assms show ?thesis by (auto simp: apply_sweep_outcome_def image_iff)
next
  case Failed
  with assms show ?thesis by (simp add: apply_sweep_outcome_def)
next
  case CredentialsUnavailable
  with assms show ?thesis by (simp add: apply_sweep_outcome_def)
next
  case AuthUnregistered
  with assms show ?thesis by (simp add: apply_sweep_outcome_def)
next
  case Off
  with assms show ?thesis by (simp add: apply_sweep_outcome_def)
qed

lemma settle_Empty: "settle A pass decparty r w = (Empty, w') \<Longrightarrow> r = Inr Empty"
  by (auto simp: settle_def split: sum.splits if_splits)

lemma serve_keeps:
  assumes "serve_parties A L pass enabled parties (oldest, w) = Some (oldest', w')" and "p \<in> fst ` set oldest" and "p \<notin> fst ` set oldest'"
  shows "\<exists>w1 w2. run_once_for_party A L p pass w1 = (Some (Inr Empty), w2)"
  using assms
proof (induction parties arbitrary: oldest w)
  case (Cons decparty parties)
  from Cons.prems(1) obtain r w1 where run: "run_once_for_party A L decparty pass (note_party A pass decparty w) = (Some r, w1)"
    by (auto split: prod.splits option.splits)
  obtain outcome w2 where st: "settle A pass decparty r w1 = (outcome, w2)" by force
  obtain o3 w3 where ap: "apply_sweep_outcome A decparty outcome (oldest, count_auth_fault A enabled decparty outcome w2) = (o3, w3)" by force
  from Cons.prems(1) run st ap have rest: "serve_parties A L pass enabled parties (o3, w3) = Some (oldest', w')" by simp
  show ?case
  proof (cases "p \<in> fst ` set o3")
    case True
    from Cons.IH [OF rest True Cons.prems(3)] show ?thesis .
  next
    case False
    with apply_outcome_keys [OF ap Cons.prems(2)] have "p = decparty" "outcome = Empty" by auto
    with run st settle_Empty show ?thesis by blast
  qed
qed auto

text \<open>What a pass that reports an empty backlog has seen: the party's credentials, and either no delegation of the party or no
  unassigned coupon that is still to expire.\<close>

lemma oldest_None: "oldest_expiry coupons now = None \<longleftrightarrow> (\<forall>c\<in>set coupons. ci_expires_at c \<le> now)"
  by (force simp: oldest_expiry_earliest earliest_def Let_def)

definition nothing_left :: "'d reward_config \<Rightarrow> 'w ledger \<Rightarrow> canton_id \<Rightarrow> string \<Rightarrow> delegation \<Rightarrow> bool" where
  "nothing_left A L p token d \<longleftrightarrow> (\<exists>now coupons. (\<exists>x y. lg_utc_now L x = (now, y))
     \<and> (\<exists>x y. unassigned_coupons A L p (ad_dso d) (Some token) x = (Inr coupons, y)) \<and> (\<forall>c\<in>set coupons. ci_expires_at c \<le> now))"

lemma reassign_nothing_left:
  assumes "run_reassign_once A L p member token d w = (Some (Inr None), w')"
  shows "nothing_left A L p token d"
proof -
  from assms obtain margin where m: "vl_seconds (rc_values A) (int (min (rc_min_expiry_margin_secs A) i64_max)) = Some margin"
    by (auto simp: run_reassign_once_def split: option.splits)
  obtain q w1 where q: "ext (unassigned_coupons A L p (ad_dso d) (Some token)) w = (q, w1)" by force
  obtain now x where now: "lg_utc_now L (wd_ext w1) = (now, x)" by force
  from assms m q obtain coupons where c: "q = Inr coupons" by (cases q) (auto simp: run_reassign_once_def)
  with assms m q now have "oldest_expiry coupons now = None"
    by (auto simp: run_reassign_once_def Let_def split: if_splits prod.splits)
  with now c ext_result [OF q] show ?thesis by (auto simp: nothing_left_def oldest_None)
qed

lemma read_nothing_left:
  assumes "read_oldest_expiry A L p (ad_dso d) token x = (Inr None, z)"
  shows "nothing_left A L p token d"
proof -
  obtain now y where now: "lg_utc_now L x = (now, y)" by force
  obtain r z' where r: "unassigned_coupons A L p (ad_dso d) (Some token) y = (r, z')" by force
  from read_oldest_expiry_eq [OF now r] assms obtain coupons where "r = Inr coupons" "oldest_expiry coupons now = None"
    by (cases r) auto
  with now r show ?thesis by (auto simp: nothing_left_def oldest_None)
qed

lemma empty_backlog_seen:
  assumes "run_once_for_party A L p pass w = (Some (Inr Empty), w')"
  shows "\<exists>token member x y. lg_credentials L p x = (Inr (Some (token, member)), y)
    \<and> ((\<exists>x y. active_delegation A L p token x = (Inr None, y)) \<or> (\<exists>d. delegation_evidence A L p token d \<and> nothing_left A L p token d))"
proof -
  obtain q w1 where q: "ext (lg_credentials L p) w = (q, w1)" by force
  with assms obtain token member where tm: "q = Inr (Some (token, member))"
    by (auto simp: run_once_for_party_def split: sum.splits option.splits)
  obtain z w2 where z: "ext (active_delegation A L p token) w1 = (z, w2)" by force
  note creds = ext_result [OF q] and ad = ext_result [OF z]
  from assms q tm z consider "z = Inr None" | d where "z = Inr (Some d)"
    by (auto simp: run_once_for_party_def split: sum.splits option.splits)
  then show ?thesis
  proof cases
    case 1
    with creds tm ad show ?thesis by blast
  next
    case (2 d)
    with ad have ev: "delegation_evidence A L p token d" by (auto intro: active_delegation_evidence)
    have out: "outcome_of r = Inr Empty \<longleftrightarrow> r = Inr None" for r
      by (cases r) (auto simp: outcome_of_def split: option.splits)
    have "nothing_left A L p token d"
      using assms q tm z 2
      by (auto simp: run_once_for_party_def Let_def out split: if_splits prod.splits dest!: ext_result
          intro: reassign_nothing_left read_nothing_left)
    with creds tm ev show ?thesis by blast
  qed
qed

lemma fold_gauge_sent [simp]:
  "wd_sent (fold (\<lambda>(p, t). set_gauge (f p) (g t)) xs w) = wd_sent w"
  "wd_sent (fold (\<lambda>(p, _). if p \<in> S then id else drop_gauge (f p)) xs w) = wd_sent w"
  by (induction xs arbitrary: w) auto

text \<open>A turn of the loop does nothing but report, or serves the parties that have credentials.\<close>

lemma loop_turn_cases:
  assumes "loop_turn A L ls w = Some (ls', w')"
  obtains (idle) "ls' = ls" and "wd_sent w' = wd_sent w"
  | (pass) pass enabled parties x y w1 where "lg_served L x = (parties, y)" and "wd_sent w1 = wd_sent w"
      and "serve_parties A L pass enabled parties (filter (\<lambda>(p, _). p \<in> set parties) (ls_oldest ls), w1) = Some (ls_oldest ls', w')"
proof -
  define w1 where "w1 = w\<lparr>wd_metrics := (wd_metrics w)\<lparr>mt_heartbeat := mt_heartbeat (wd_metrics w) + 1\<rparr>\<rparr>"
  obtain utc x2 where utc: "lg_utc_now L (wd_ext w1) = (utc, x2)" by force
  define w2 where "w2 = report_oldest_expiry A (ls_oldest ls) utc (w1\<lparr>wd_ext := x2\<rparr>)"
  obtain now x3 where now: "lg_instant L (wd_ext w2) = (now, x3)" by force
  define w3 where "w3 = w2\<lparr>wd_ext := x3\<rparr>"
  have w3: "wd_sent w3 = wd_sent w" by (simp add: w3_def w2_def w1_def report_oldest_expiry_def)
  define due where "due = due_pass (map_option (\<lambda>t. now - t) (ls_last_sweep ls)) (max (rc_interval_secs A) 1 * 10 ^ 9)
             (map_option (\<lambda>t. now - t) (ls_last_read ls)) (max (rc_expiry_read_interval_secs A) 1 * 10 ^ 9)"
  note turn = assms [unfolded loop_turn_def Let_def, folded w1_def, unfolded utc prod.case, folded w2_def, unfolded now prod.case,
      folded w3_def due_def]
  show thesis
  proof (cases due)
    case None
    with turn w3 idle show thesis by simp
  next
    case (Some pass)
    obtain parties x4 where sv: "lg_served L (wd_ext w3) = (parties, x4)" by force
    obtain oldest w4 where pr: "prune_unserved A parties (ls_oldest ls, w3\<lparr>wd_ext := x4\<rparr>) = (oldest, w4)" by force
    then have o: "oldest = filter (\<lambda>(p, _). p \<in> set parties) (ls_oldest ls)" and w4: "wd_sent w4 = wd_sent w"
      using w3 by (auto simp: prune_unserved_def)
    obtain e x5 where en: "read_enablement A L parties (wd_ext w4) = (e, x5)" by force
    define w6 where "w6 = (if counts_as_unreadable_enablement e (length parties)
      then w4\<lparr>wd_ext := x5, wd_metrics := (wd_metrics w4)\<lparr>mt_enablement_unreadable := mt_enablement_unreadable (wd_metrics w4) + 1\<rparr>\<rparr>
      else w4\<lparr>wd_ext := x5\<rparr>)"
    have "serve_parties A L pass (case e of Read ps \<Rightarrow> Some ps | _ \<Rightarrow> ls_enabled ls) parties (oldest, w6) = Some (ls_oldest ls', w')"
      using turn Some sv pr en by (auto simp: w6_def)
    moreover have "wd_sent w6 = wd_sent w" using w4 by (simp add: w6_def)
    ultimately show thesis using pass sv o by blast
  qed
qed

text \<open>C39: The countdown of a party is dropped only if the party is no longer served, or if its credentials worked and the ledger showed
  no delegation for it, or no unassigned coupon that can still be saved: no failure, of any kind, ever stops it.\<close>

theorem countdown_kept:
  assumes "loop_turn A L ls w = Some (ls', w')" and "p \<in> fst ` set (ls_oldest ls)" and "p \<notin> fst ` set (ls_oldest ls')"
  shows "(\<exists>x ps y. lg_served L x = (ps, y) \<and> p \<notin> set ps)
    \<or> (\<exists>token member x y. lg_credentials L p x = (Inr (Some (token, member)), y)
        \<and> ((\<exists>x y. active_delegation A L p token x = (Inr None, y))
          \<or> (\<exists>d. delegation_evidence A L p token d \<and> nothing_left A L p token d)))"
proof -
  from assms(1) show ?thesis
  proof (cases rule: loop_turn_cases)
    case idle
    with assms(2,3) show ?thesis by simp
  next
    case (pass pass enabled parties x y w1)
    show ?thesis
    proof (cases "p \<in> set parties")
      case True
      with assms(2) have "p \<in> fst ` set (filter (\<lambda>(p, _). p \<in> set parties) (ls_oldest ls))" by force
      from serve_keeps [OF pass(3) this assms(3)] obtain w2 w3 where "run_once_for_party A L p pass w2 = (Some (Inr Empty), w3)" by blast
      from empty_backlog_seen [OF this] show ?thesis by blast
    next
      case False
      with pass(1) show ?thesis by blast
    qed
  qed
qed

text \<open>Any number of turns of the loop.\<close>

fun loop_turns :: "'d reward_config \<Rightarrow> 'w ledger \<Rightarrow> nat \<Rightarrow> loop_state \<Rightarrow> 'w world \<Rightarrow> (loop_state \<times> 'w world) option" where
  "loop_turns A L 0 ls w = Some (ls, w)"
| "loop_turns A L (Suc n) ls w = (case loop_turn A L ls w of None \<Rightarrow> None | Some (ls', w') \<Rightarrow> loop_turns A L n ls' w')"

lemma note_party_sent [simp]: "wd_sent (note_party A pass decparty w) = wd_sent w"
  by (simp add: note_party_def ensure_outcome_series_def split: pass.splits)

lemma serve_submits:
  assumes "serve_parties A L pass enabled parties (oldest, w) = Some (oldest', w')"
  shows "sends (\<lambda>cs. \<exists>p\<in>set parties. in_order A L p cs) w w'"
  using assms
proof (induction parties arbitrary: oldest w)
  case Nil
  then show ?case by (simp add: sends_refl)
next
  case (Cons decparty parties)
  from Cons.prems(1) obtain r w1 where run: "run_once_for_party A L decparty pass (note_party A pass decparty w) = (Some r, w1)"
    by (auto split: prod.splits option.splits)
  obtain outcome w2 where st: "settle A pass decparty r w1 = (outcome, w2)" by force
  obtain o3 w3 where ap: "apply_sweep_outcome A decparty outcome (oldest, count_auth_fault A enabled decparty outcome w2) = (o3, w3)" by force
  from Cons.prems(1) run st ap have rest: "serve_parties A L pass enabled parties (o3, w3) = Some (oldest', w')" by simp
  have "wd_sent w2 = wd_sent w1" using st by (auto simp: settle_def split: sum.splits if_splits)
  then have w3: "wd_sent w3 = wd_sent w1"
    using ap by (auto simp: apply_sweep_outcome_def count_auth_fault_def split: sweep_outcome.splits if_splits)
  from run_once_submits [OF run] w3 have "sends (in_order A L decparty) w w3" by (auto simp: sends_def)
  then have "sends (\<lambda>cs. \<exists>p\<in>set (decparty # parties). in_order A L p cs) w w3" by (rule sends_mono) simp
  moreover have "sends (\<lambda>cs. \<exists>p\<in>set (decparty # parties). in_order A L p cs) w3 w'"
    by (rule sends_mono [OF Cons.IH [OF rest]]) auto
  ultimately show ?case by (rule sends_trans)
qed

text \<open>C8: Whatever the ledger, the identity providers and the clock answer, every command the automation ever submits is in order, for a
  party whose credentials it holds at the time.\<close>

theorem assigns_only_what_it_may:
  assumes "loop_turns A L n ls w = Some (ls', w')"
  shows "\<exists>new. wd_sent w' = wd_sent w @ new
    \<and> (\<forall>(cs, _)\<in>set new. \<exists>decparty. (\<exists>x ps y. lg_served L x = (ps, y) \<and> decparty \<in> set ps) \<and> in_order A L decparty cs)"
proof -
  let ?P = "\<lambda>cs. \<exists>decparty. (\<exists>x ps y. lg_served L x = (ps, y) \<and> decparty \<in> set ps) \<and> in_order A L decparty cs"
  have turn: "sends ?P w w1" if "loop_turn A L ls w = Some (ls1, w1)" for ls w ls1 w1
    using that
  proof (cases rule: loop_turn_cases)
    case (pass pass enabled parties x y w2)
    then have "sends ?P w2 w1" by (intro sends_mono [OF serve_submits [OF pass(3)]]) blast
    with pass(2) show ?thesis by (simp add: sends_def)
  qed (simp add: sends_refl)
  have "sends ?P w w'" using assms
  proof (induction n arbitrary: ls w)
    case (Suc n)
    then obtain ls1 w1 where "loop_turn A L ls w = Some (ls1, w1)" "loop_turns A L n ls1 w1 = Some (ls', w')"
      by (auto split: option.splits)
    with Suc.IH turn sends_trans show ?case by blast
  qed (simp add: sends_refl)
  then show ?thesis by (simp add: sends_def)
qed

section \<open>Examples\<close>

definition ex_values :: "string valuelib" where
  "ex_values = \<lparr>vl_hex = std_hex, vl_decimal = Some, vl_time = (\<lambda>m. Some (m * 1000)),
     vl_seconds = (\<lambda>s. if s \<le> int (i64_max div 1000) then Some (s * 10 ^ 9) else None)\<rparr>"

definition ex_rewards :: "nat \<Rightarrow> string reward_config" where
  "ex_rewards margin = \<lparr>rc_values = ex_values, rc_test_mode = False, rc_rewards = Some ''pkg'', rc_max_creates = 4,
     rc_min_expiry_margin_secs = margin, rc_interval_secs = 300, rc_expiry_read_interval_secs = 3600\<rparr>"

definition ex_id :: "string \<Rightarrow> canton_id" where
  "ex_id name = CantonId name (Namespace (replicate 34 0))"

definition ex_delegation :: created where
  "ex_delegation = \<lparr>cr_contract_id = ''D'', cr_offset = 7, cr_template_id = Some (delegation_template_id ''pkg''),
     cr_create_arguments = Some [rec_field ''decparty'' (make_party std_hex (ex_id ''dec'')), rec_field ''dso'' (make_party std_hex (ex_id ''dso'')),
       rec_field ''assigners'' (make_list [make_party std_hex (ex_id ''me'')]), rec_field ''split'' (make_list [make_record []])],
     cr_interface_views = []\<rparr>"

definition ex_coupon :: "string \<Rightarrow> int \<Rightarrow> created" where
  "ex_coupon cid t = \<lparr>cr_contract_id = cid, cr_offset = 8,
     cr_template_id = Some \<lparr>id_package = [], id_module = ''Splice.Amulet'', id_entity = ''RewardCouponV2''\<rparr>, cr_create_arguments = None,
     cr_interface_views = [\<lparr>iv_interface_id = Some \<lparr>id_package = [], id_module = ''Splice.Api.RewardAssignmentV1'', id_entity = ''RewardCoupon''\<rparr>,
       iv_view_value = Some [rec_field ''provider'' (make_party std_hex (ex_id ''dec'')), rec_field ''dso'' (make_party std_hex (ex_id ''dso'')),
         rec_field ''beneficiary'' (DValue (Some (SOptional None))), rec_field ''amount'' (DValue (Some (SNumeric ''1.0''))),
         rec_field ''expiresAt'' (DValue (Some (STimestamp t)))]\<rparr>]\<rparr>"

definition ex_ledger :: "unit ledger" where
  "ex_ledger = \<lparr>lg_ledger_end = (\<lambda>_ w. (Inr 9, w)),
     lg_active = (\<lambda>_ _ f w. (Inr (case ef_by_party f of
         [(_, [InterfaceFilter _])] \<Rightarrow> ([Some (ex_coupon ''late'' (10 ^ 12)), None, Some (ex_coupon ''gone'' (- 5)), Some (ex_coupon ''soon'' (10 ^ 11))], None)
       | _ \<Rightarrow> ([Some ex_delegation], None)), w)),
     lg_created_by_id = (\<lambda>_ _ _ w. (Inr (Some ex_delegation), w)), lg_packages = (\<lambda>w. (Inr [], w)),
     lg_packages_timed = (\<lambda>w. (None, w)), lg_channel = (\<lambda>w. (Inr (), w)), lg_submit = (\<lambda>_ _ w. (Inr (), w)),
     lg_members_timed = (\<lambda>_ _ w. (None, w)), lg_header = (\<lambda>_. True), lg_uuid = (\<lambda>w. (''u'', w)), lg_utc_now = (\<lambda>w. (0, w)),
     lg_instant = (\<lambda>w. (0, w)), lg_credentials = (\<lambda>p w. (Inr (Some (''tok'', ex_id ''me'')), w)), lg_served = (\<lambda>w. ([ex_id ''dec''], w))\<rparr>"

definition ex_world :: "unit world" where
  "ex_world = \<lparr>wd_ext = (), wd_sent = [], wd_metrics = \<lparr>mt_heartbeat = 0, mt_enablement_unreadable = 0, mt_counters = Map.empty,
     mt_oldest_expires_in = Map.empty\<rparr>\<rparr>"

definition ex_start :: loop_state where
  "ex_start = \<lparr>ls_last_sweep = None, ls_last_read = None, ls_oldest = [], ls_enabled = None\<rparr>"

lemma ex_id_parse: "CHR '':'' \<notin> set name \<Longrightarrow> canton_id_parse std_hex (canton_id_display std_hex (ex_id name)) = Inr (ex_id name)"
  by (rule std.parse_display_no_colon) (simp_all add: ex_id_def wf_id_def wf_namespace_def NAMESPACE_LENGTH_def)

lemma ex_id_eq: "ex_id a = ex_id b \<longleftrightarrow> a = b"
  by (simp add: ex_id_def)

lemmas ex_reads = field_party_id_def field_party_list_def field_decimal_def field_time_def field_list_len_def field_optional_is_none_def
  parse_party_def record_field_def record_value_def rec_field_def make_party_def make_list_def make_record_def ex_id_parse ex_id_eq ex_values_def

lemma ex_active: "active_delegation (ex_rewards m) ex_ledger (ex_id ''dec'') t x =
   (Inr (Some \<lparr>ad_cid = ''D'', ad_dso = ex_id ''dso'', ad_assigners = [ex_id ''me''], ad_beneficiary_count = 1\<rparr>), x)"
  by (simp add: active_delegation_def bounded_created_records_def for_each_active_created_def io_bind_def io_lift_def ex_ledger_def
      ex_rewards_def party_event_format_def acs_filter_def delegation_filter_def filter_template_def visited_def ex_delegation_def
      newest_delegation_for_def delegations_newest_first_def parse_delegation_record_def from_decode_def ex_reads)

lemma ex_coupons: "unassigned_coupons (ex_rewards m) ex_ledger (ex_id ''dec'') (ex_id ''dso'') t x =
   (Inr [\<lparr>ci_cid = ''late'', ci_expires_at = 10 ^ 15\<rparr>, \<lparr>ci_cid = ''gone'', ci_expires_at = - 5000\<rparr>, \<lparr>ci_cid = ''soon'', ci_expires_at = 10 ^ 14\<rparr>], x)"
  by (simp add: unassigned_coupons_def for_each_unassigned_coupon_def for_each_active_created_def io_bind_def io_lift_def ex_ledger_def
      ex_rewards_def party_event_format_def acs_filter_def coupon_filter_def implemented_by_def filter_interface_def visited_def ex_coupon_def
      named_as_def parse_unassigned_coupon_def from_decode_def ex_reads)

lemma ex_submit: "submit_delegation_assign (ex_rewards m) ex_ledger (ex_id ''dec'') (ex_id ''me'') t ''D'' p ad w =
   (Inr (), w\<lparr>wd_sent := wd_sent w @
     [(assign_command (ex_rewards m) ''u'' (ex_id ''me'') (ex_id ''dec'') (delegation_template_id ''pkg'') ''D'' (p # ad), Inr ())]\<rparr>)"
  by (simp add: submit_delegation_assign_def fetch_contract_template_id_def submit_and_wait_def verified_delegation_template_def
      io_bind_def io_lift_def io_do_def ext_def ex_ledger_def ex_rewards_def ex_delegation_def delegation_template_id_def assign_command_def
      party_event_format_def)

lemma ex_pass:
  "run_once_for_party (ex_rewards 120) ex_ledger (ex_id ''dec'') Sweep w =
     (Some (Inr (Backlog (10 ^ 14))), inc_by 2 ASSIGNED (show_id (ex_rewards 120) (ex_id ''dec''))
       (w\<lparr>wd_sent := wd_sent w @ [(assign_command (ex_rewards 120) ''u'' (ex_id ''me'') (ex_id ''dec'') (delegation_template_id ''pkg'') ''D''
          [''soon'', ''late''], Inr ())]\<rparr>))"
proof -
  have creds: "lg_credentials ex_ledger p x = (Inr (Some (''tok'', ex_id ''me'')), x)" "lg_utc_now ex_ledger x = (0, x)"
    "lg_members_timed ex_ledger p t x = (None, x)" for p x t
    by (simp_all add: ex_ledger_def)
  have unit: "v\<lparr>wd_ext := (), wd_sent := l\<rparr> = v\<lparr>wd_sent := l\<rparr>" for v :: "unit world" and l by (cases v) simp
  have cfg: "vl_seconds (rc_values (ex_rewards 120)) (int (min (rc_min_expiry_margin_secs (ex_rewards 120)) i64_max)) = Some (120 * 10 ^ 9)"
    by (simp add: ex_rewards_def ex_values_def i64_max_def)
  show ?thesis
    by (simp add: run_once_for_party_def run_reassign_once_def report_assigners_not_members_def ext_def creds ex_active ex_coupons cfg role_for_def
        oldest_expiry_def fold_oldest_expiry_def select_assignable_def is_assignable_def drain_assignable_def chunk_size_def ex_submit
        sweep_assigned_nothing_def outcome_of_def Let_def) (simp add: ex_rewards_def outcome_of_def unit numeral_2_eq_2)
qed

lemma ex_turn: "\<exists>ls' w'. loop_turns (ex_rewards 120) ex_ledger 1 ex_start ex_world = Some (ls', w') \<and> ls_oldest ls' = [(ex_id ''dec'', 10 ^ 14)]
   \<and> wd_sent w' = [(assign_command (ex_rewards 120) ''u'' (ex_id ''me'') (ex_id ''dec'') (delegation_template_id ''pkg'') ''D'' [''soon'', ''late''], Inr ())]"
proof -
  have fields: "lg_credentials ex_ledger p x = (Inr (Some (''tok'', ex_id ''me'')), x)" "lg_utc_now ex_ledger x = (0, x)"
    "lg_instant ex_ledger x = (0, x)" "lg_served ex_ledger x = ([ex_id ''dec''], x)" for p x
    by (simp_all add: ex_ledger_def)
  have en: "\<exists>ps. delegated_decparties (ex_rewards 120) ex_ledger p t x = (Inr ps, x)" for p t x
    by (simp add: delegated_decparties_def for_each_active_created_def io_bind_def io_lift_def ex_ledger_def ex_rewards_def
        party_event_format_def acs_filter_def delegation_filter_def filter_template_def visited_def ex_delegation_def)
  then obtain ps where en: "delegated_decparties (ex_rewards 120) ex_ledger (ex_id ''me'') ''tok'' () = (Inr ps, ())" by blast
  show ?thesis
    by (simp add: loop_turn_def fields en ex_pass report_oldest_expiry_def due_pass_def is_due_def prune_unserved_def ex_start_def
        counts_as_unreadable_enablement_def settle_def apply_sweep_outcome_def remember_def count_auth_fault_def counts_as_auth_fault_def
        ex_world_def Let_def)
qed

text \<open>A ledger that refuses the coupon \<open>bad\<close> and takes at most two coupons at a time.\<close>

definition ex_submitter :: "nat submitter" where
  "ex_submitter p ad w = (if ''bad'' \<in> set (p # ad) \<or> 2 < length (p # ad) then Inl (Status ''COMMAND_PREPROCESSING_FAILED(8)'') else Inr (), w + 1)"

lemma ex_rejection: "\<not> assign_failure_is_transient (Status ''COMMAND_PREPROCESSING_FAILED(8)'')"
  by code_simp

lemma ex_drain: "\<exists>w' log. drain_chunks (recorded ex_submitter) (max 3 1) [''a'', ''bad'', ''b'', ''c'', ''d''] 0 0 (0, []) = ((4, 1), (w', log)) \<and> length log = 5"
  by (simp add: recorded_def ex_submitter_def ex_rejection eval_nat_numeral Let_def)

theorem drain_bounded_witness:
  "\<exists>w' log. drain_chunks (recorded ex_submitter) (max 3 1) [''a'', ''bad'', ''b'', ''c'', ''d''] 0 0 (0, []) = ((4, 1), (w', log))
    \<and> subseq (paid log) [''a'', ''bad'', ''b'', ''c'', ''d''] \<and> length (paid log) = 4 \<and> length log = 5
    \<and> length log \<le> div_ceil 5 3 + 5"
proof -
  obtain w' log where run: "drain_chunks (recorded ex_submitter) (max 3 1) [''a'', ''bad'', ''b'', ''c'', ''d''] 0 0 (0, []) = ((4, 1), (w', log))"
    and n: "length log = 5" using ex_drain by blast
  show ?thesis using drain_bounded [OF run] run n by auto
qed

theorem drain_pays_healthy_witness:
  "steady ex_submitter 2 {''bad''} \<and> (\<exists>w' log. drain_chunks (recorded ex_submitter) (max 100 1) [''a'', ''bad'', ''b'', ''c''] 0 0 (0, []) = ((3, 1), (w', log))
    \<and> paid log = [''a'', ''b'', ''c''])"
proof -
  have st: "steady ex_submitter 2 {''bad''}" by (auto simp: steady_def ex_submitter_def ex_rejection)
  with drain_pays_healthy [OF st, of 100 "[''a'', ''bad'', ''b'', ''c'']" 0] show ?thesis
    by (simp add: numeral_3_eq_3 del: drain_chunks.simps)
qed

theorem assigns_only_what_it_may_witness:
  "\<exists>ls' w' cs. loop_turns (ex_rewards 120) ex_ledger 1 ex_start ex_world = Some (ls', w') \<and> wd_sent w' = [(cs, Inr ())]
    \<and> (\<exists>decparty. in_order (ex_rewards 120) ex_ledger decparty cs)"
proof -
  obtain ls' w' cs where run: "loop_turns (ex_rewards 120) ex_ledger 1 ex_start ex_world = Some (ls', w')" and sent: "wd_sent w' = [(cs, Inr ())]"
    using ex_turn by blast
  from assigns_only_what_it_may [OF run] sent have "\<exists>decparty. in_order (ex_rewards 120) ex_ledger decparty cs"
    by (auto simp: ex_world_def)
  with run sent show ?thesis by blast
qed

theorem streaming_read_is_the_minimum_witness:
  "read_oldest_expiry (ex_rewards 120) ex_ledger (ex_id ''dec'') (ex_id ''dso'') ''tok'' () = (Inr (Some (10 ^ 14)), ())"
proof -
  have "lg_utc_now ex_ledger () = (0, ())" by (simp add: ex_ledger_def)
  from streaming_read_is_the_minimum [OF this ex_coupons]
  have "read_oldest_expiry (ex_rewards 120) ex_ledger (ex_id ''dec'') (ex_id ''dso'') ''tok'' () = (Inr (earliest 0 {10 ^ 15, - 5000, 10 ^ 14}), ())"
    by simp
  moreover have "{t \<in> {10 ^ 15, - 5000, 10 ^ 14}. 0 < t} = {10 ^ 15, 10 ^ 14 :: int}" by auto
  then have "earliest 0 {10 ^ 15, - 5000, 10 ^ 14} = Some (10 ^ 14)" unfolding earliest_def Let_def by (simp only:) simp
  ultimately show ?thesis by simp
qed

definition ex_unserved :: "unit ledger" where
  "ex_unserved = ex_ledger\<lparr>lg_served := (\<lambda>w. ([], w))\<rparr>"

definition ex_remembering :: loop_state where
  "ex_remembering = ex_start\<lparr>ls_oldest := [(ex_id ''dec'', 5)]\<rparr>"

theorem countdown_kept_witness:
  "\<exists>ls' w'. loop_turn (ex_rewards 120) ex_unserved ex_remembering ex_world = Some (ls', w')
    \<and> ex_id ''dec'' \<in> fst ` set (ls_oldest ex_remembering) \<and> ex_id ''dec'' \<notin> fst ` set (ls_oldest ls')
    \<and> ((\<exists>x ps y. lg_served ex_unserved x = (ps, y) \<and> ex_id ''dec'' \<notin> set ps)
    \<or> (\<exists>token member x y. lg_credentials ex_unserved (ex_id ''dec'') x = (Inr (Some (token, member)), y)
        \<and> ((\<exists>x y. active_delegation (ex_rewards 120) ex_unserved (ex_id ''dec'') token x = (Inr None, y))
          \<or> (\<exists>d. delegation_evidence (ex_rewards 120) ex_unserved (ex_id ''dec'') token d
               \<and> nothing_left (ex_rewards 120) ex_unserved (ex_id ''dec'') token d))))"
proof -
  have fields: "lg_served ex_unserved x = ([], x)" "lg_utc_now ex_unserved x = (0, x)" "lg_instant ex_unserved x = (0, x)"
    "lg_packages_timed ex_unserved x = (None, x)" for x
    by (simp_all add: ex_ledger_def ex_unserved_def)
  have "\<exists>ls' w'. loop_turn (ex_rewards 120) ex_unserved ex_remembering ex_world = Some (ls', w') \<and> ls_oldest ls' = []"
    by (simp add: loop_turn_def fields due_pass_def is_due_def prune_unserved_def ex_start_def ex_remembering_def Let_def)
  then obtain ls' w' where run: "loop_turn (ex_rewards 120) ex_unserved ex_remembering ex_world = Some (ls', w')" and o: "ls_oldest ls' = []" by blast
  have k: "ex_id ''dec'' \<in> fst ` set (ls_oldest ex_remembering)" "ex_id ''dec'' \<notin> fst ` set (ls_oldest ls')"
    by (simp_all add: ex_remembering_def o)
  show ?thesis using run k countdown_kept [OF run k] by blast
qed

section \<open>A margin that ends the loop\<close>

text \<open>\<open>Duration::seconds\<close> panics beyond \<open>i64::MAX / 1000\<close> seconds.  The margin is capped at \<open>i64::MAX\<close> only, so a larger one ends the detached
  task at the first sweep for a party whose delegation names this node.\<close>

theorem huge_margin_ends_the_loop:
  assumes "\<forall>s > int (i64_max div 1000). vl_seconds (rc_values A) s = None" and "i64_max div 1000 < rc_min_expiry_margin_secs A"
    and "lg_credentials L decparty (wd_ext w1) = (Inr (Some (token, member)), x)" and "w1 = note_party A Sweep decparty w"
    and "active_delegation A L decparty token x = (Inr (Some d), y)" and "member \<in> set (ad_assigners d)"
  shows "serve_parties A L Sweep enabled (decparty # parties) (oldest, w) = None"
proof -
  have "i64_max div 1000 < i64_max" by (simp add: i64_max_def)
  with assms(1,2) have panic: "vl_seconds (rc_values A) (int (min (rc_min_expiry_margin_secs A) i64_max)) = None" by auto
  have "fst (run_once_for_party A L decparty Sweep w1) = None"
    using assms(3,5,6) by (simp add: run_once_for_party_def ext_def role_for_def run_reassign_once_def panic Let_def)
  then show ?thesis using assms(4) by (cases "run_once_for_party A L decparty Sweep w1") simp
qed

theorem huge_margin_ends_the_loop_witness:
  "serve_parties (ex_rewards (2 ^ 60)) ex_ledger Sweep None [ex_id ''dec''] ([], ex_world) = None"
proof (rule huge_margin_ends_the_loop)
  show "\<forall>s > int (i64_max div 1000). vl_seconds (rc_values (ex_rewards (2 ^ 60))) s = None"
    by (simp add: ex_rewards_def ex_values_def)
  show "i64_max div 1000 < rc_min_expiry_margin_secs (ex_rewards (2 ^ 60))" by (simp add: ex_rewards_def i64_max_def)
  show "lg_credentials ex_ledger (ex_id ''dec'') (wd_ext (note_party (ex_rewards (2 ^ 60)) Sweep (ex_id ''dec'') ex_world)) =
     (Inr (Some (''tok'', ex_id ''me'')), ())" by (simp add: ex_ledger_def)
  show "active_delegation (ex_rewards (2 ^ 60)) ex_ledger (ex_id ''dec'') ''tok'' () =
     (Inr (Some \<lparr>ad_cid = ''D'', ad_dso = ex_id ''dso'', ad_assigners = [ex_id ''me''], ad_beneficiary_count = 1\<rparr>), ())" by (rule ex_active)
qed simp_all

end
