(* ===== verification/Workflow_Locks.thy ===== *)
theory Workflow_Locks
  imports Workflow_State
begin

text \<open>
  The state machine of a run under concurrency (\<open>crates/decman/src/workflow/state.rs\<close>).  Peer
  events are served on tasks of their own, so \<open>peer_connected\<close>, \<open>peer_completed\<close> and the
  coordinator's advances interleave at their lock operations.

  A task is the program point it has reached; a step of the system lets one task take or release a
  lock or do the work between two such points.  \<open>current_step\<close> and \<open>completed_peers\<close> are held for
  writing across further lock operations, so the system records which task holds each of them;
  every read guard in these operations is dropped in the statement that takes it, so a read only
  waits for the writer to leave.
\<close>

section \<open>Tasks\<close>

text \<open>Who advances: a peer event that saw the gate of a step open, the coordinator loop
  (\<open>advance_step\<close>), or the coordinator loop on behalf of a gate no peer will trip
  (\<open>advance_step_if\<close> called directly).\<close>

datatype 's origin = ByPeer 's | ByCoordinator | BySolo 's

datatype 's task =
    CompletedStart canton_id
  | CompletedLocked
  | CompletedPersist 's
  | ConnectedStart canton_id
  | ReadStep
  | ReadGate 's
  | TakeStep "'s origin"
  | HoldStep "'s origin"
  | HoldBoth "'s origin"
  | Finished

record 's system =
  run :: "'s wstate"
  step_lock :: "nat option"
  completed_lock :: "nat option"
  tasks :: "'s task list"
  history :: "('s origin \<times> 's \<times> bool) list"

text \<open>The step an advance of this origin insists on finding.\<close>

definition still_on :: "'s origin \<Rightarrow> 's \<Rightarrow> bool" where
  "still_on w cur \<longleftrightarrow> (case w of ByPeer e \<Rightarrow> cur = e | BySolo e \<Rightarrow> cur = e | ByCoordinator \<Rightarrow> True)"

inductive lstep :: "'s step_ops \<Rightarrow> nat \<Rightarrow> 's system \<Rightarrow> 's system \<Rightarrow> bool" for ops :: "'s step_ops" and i :: nat where
  completed_ignored:
    "i < length (tasks y) \<Longrightarrow> tasks y ! i = CompletedStart p \<Longrightarrow> p \<notin> expected_peers (run y) \<Longrightarrow>
     lstep ops i y (y\<lparr>tasks := (tasks y)[i := Finished]\<rparr>)"
| completed_lock:
    "i < length (tasks y) \<Longrightarrow> tasks y ! i = CompletedStart p \<Longrightarrow> p \<in> expected_peers (run y) \<Longrightarrow>
     completed_lock y = None \<Longrightarrow>
     lstep ops i y (y\<lparr>tasks := (tasks y)[i := CompletedLocked], completed_lock := Some i,
       run := (run y)\<lparr>completed_peers := insert p (completed_peers (run y))\<rparr>\<rparr>)"
| completed_read:
    "i < length (tasks y) \<Longrightarrow> tasks y ! i = CompletedLocked \<Longrightarrow> step_lock y = None \<Longrightarrow>
     lstep ops i y (y\<lparr>tasks := (tasks y)[i := CompletedPersist (current_step (run y))]\<rparr>)"
| completed_persist:
    "i < length (tasks y) \<Longrightarrow> tasks y ! i = CompletedPersist cur \<Longrightarrow>
     lstep ops i y (y\<lparr>tasks := (tasks y)[i := ReadStep], completed_lock := None,
       run := persist_step_progress ops now db cur (completed_peers (run y)) (run y)\<rparr>)"
| connected_ignored:
    "i < length (tasks y) \<Longrightarrow> tasks y ! i = ConnectedStart p \<Longrightarrow> p \<notin> expected_peers (run y) \<Longrightarrow>
     lstep ops i y (y\<lparr>tasks := (tasks y)[i := Finished]\<rparr>)"
| connected_insert:
    "i < length (tasks y) \<Longrightarrow> tasks y ! i = ConnectedStart p \<Longrightarrow> p \<in> expected_peers (run y) \<Longrightarrow>
     lstep ops i y (y\<lparr>tasks := (tasks y)[i := ReadStep],
       run := (run y)\<lparr>connected_peers := insert p (connected_peers (run y))\<rparr>\<rparr>)"
| read_step:
    "i < length (tasks y) \<Longrightarrow> tasks y ! i = ReadStep \<Longrightarrow> step_lock y = None \<Longrightarrow>
     lstep ops i y (y\<lparr>tasks := (tasks y)[i := ReadGate (current_step (run y))]\<rparr>)"
| gate_open:
    "i < length (tasks y) \<Longrightarrow> tasks y ! i = ReadGate cur \<Longrightarrow> gate_ready ops cur (run y) \<Longrightarrow>
     requires_peers ops cur \<longrightarrow> completed_lock y = None \<Longrightarrow>
     lstep ops i y (y\<lparr>tasks := (tasks y)[i := TakeStep (ByPeer cur)]\<rparr>)"
| gate_shut:
    "i < length (tasks y) \<Longrightarrow> tasks y ! i = ReadGate cur \<Longrightarrow> \<not> gate_ready ops cur (run y) \<Longrightarrow>
     requires_peers ops cur \<longrightarrow> completed_lock y = None \<Longrightarrow>
     lstep ops i y (y\<lparr>tasks := (tasks y)[i := Finished]\<rparr>)"
| take_step:
    "i < length (tasks y) \<Longrightarrow> tasks y ! i = TakeStep w \<Longrightarrow> step_lock y = None \<Longrightarrow>
     lstep ops i y (y\<lparr>tasks := (tasks y)[i := HoldStep w], step_lock := Some i\<rparr>)"
| cas_failed:
    "i < length (tasks y) \<Longrightarrow> tasks y ! i = HoldStep w \<Longrightarrow> \<not> still_on w (current_step (run y)) \<Longrightarrow>
     lstep ops i y (y\<lparr>tasks := (tasks y)[i := Finished], step_lock := None\<rparr>)"
| take_completed:
    "i < length (tasks y) \<Longrightarrow> tasks y ! i = HoldStep w \<Longrightarrow> still_on w (current_step (run y)) \<Longrightarrow>
     completed_lock y = None \<Longrightarrow>
     lstep ops i y (y\<lparr>tasks := (tasks y)[i := HoldBoth w], completed_lock := Some i\<rparr>)"
| advance:
    "i < length (tasks y) \<Longrightarrow> tasks y ! i = HoldBoth w \<Longrightarrow>
     lstep ops i y (y\<lparr>tasks := (tasks y)[i := Finished], step_lock := None, completed_lock := None,
       run := advance_locked ops now db (run y),
       history := history y @ [(w, current_step (run y), gate_ready ops (current_step (run y)) (run y))]\<rparr>)"

text \<open>The system takes a step of some task, or a new request arrives.\<close>

inductive sysstep :: "'s step_ops \<Rightarrow> 's system \<Rightarrow> 's system \<Rightarrow> bool" for ops :: "'s step_ops" where
  task_step: "lstep ops i y y' \<Longrightarrow> sysstep ops y y'"
| arrives: "k \<in> {CompletedStart p, ConnectedStart p, TakeStep ByCoordinator, TakeStep (BySolo e)} \<Longrightarrow>
    sysstep ops y (y\<lparr>tasks := tasks y @ [k]\<rparr>)"

definition sysreach :: "'s step_ops \<Rightarrow> 's system \<Rightarrow> 's system \<Rightarrow> bool" where
  "sysreach ops = (sysstep ops)\<^sup>*\<^sup>*"

definition system_start :: "'s wstate \<Rightarrow> 's system" where
  "system_start s = \<lparr>run = s, step_lock = None, completed_lock = None, tasks = [], history = []\<rparr>"

inductive_cases lstepE: "lstep ops i y y'"

section \<open>Invariant\<close>

fun holds_completed :: "'s task \<Rightarrow> bool" where
  "holds_completed CompletedLocked = True"
| "holds_completed (CompletedPersist _) = True"
| "holds_completed (HoldBoth _) = True"
| "holds_completed _ = False"

fun holds_step :: "'s task \<Rightarrow> bool" where
  "holds_step (HoldStep _) = True"
| "holds_step (HoldBoth _) = True"
| "holds_step _ = False"

text \<open>The step a peer event has seen with its gate open.\<close>

fun seen_open :: "'s task \<Rightarrow> 's option" where
  "seen_open (TakeStep (ByPeer e)) = Some e"
| "seen_open (HoldStep (ByPeer e)) = Some e"
| "seen_open (HoldBoth (ByPeer e)) = Some e"
| "seen_open _ = None"

text \<open>The step a peer event has seen.\<close>

fun seen_step :: "'s task \<Rightarrow> 's option" where
  "seen_step (ReadGate e) = Some e"
| "seen_step k = seen_open k"

text \<open>A lock is held by exactly the task that is at a point where it holds it.\<close>

definition lock_ok :: "('s task \<Rightarrow> bool) \<Rightarrow> nat option \<Rightarrow> 's task list \<Rightarrow> bool" where
  "lock_ok h l ks \<longleftrightarrow> (\<forall>j. l = Some j \<longleftrightarrow> j < length ks \<and> h (ks ! j))"

lemma lock_keep: "lock_ok h l ks \<Longrightarrow> h k = h (ks ! i) \<Longrightarrow> lock_ok h l (ks[i := k])"
proof -
  assume ok: "lock_ok h l ks" and k: "h k = h (ks ! i)"
  have "h (ks[i := k] ! j) = h (ks ! j)" for j
    using k by (cases "i = j"; cases "i < length ks") (simp_all add: list_update_beyond)
  with ok show ?thesis unfolding lock_ok_def by simp
qed

lemma lock_take: "lock_ok h None ks \<Longrightarrow> i < length ks \<Longrightarrow> h k \<Longrightarrow> lock_ok h (Some i) (ks[i := k])"
  by (auto simp: lock_ok_def nth_list_update)

lemma lock_release:
  assumes "lock_ok h l ks" and "i < length ks" and "h (ks ! i)" and "\<not> h k"
  shows "lock_ok h None (ks[i := k])"
  unfolding lock_ok_def
proof (intro allI)
  fix j
  have "l = Some i" using assms by (simp add: lock_ok_def)
  then have "j < length ks \<Longrightarrow> h (ks ! j) \<Longrightarrow> j = i" using assms(1) unfolding lock_ok_def by (metis option.inject)
  then show "(None = Some j) = (j < length (ks[i := k]) \<and> h (ks[i := k] ! j))"
    using assms(2,4) by (cases "i = j") auto
qed

lemma lock_append: "lock_ok h l ks \<Longrightarrow> \<not> h k \<Longrightarrow> lock_ok h l (ks @ [k])"
  by (auto simp: lock_ok_def nth_append less_Suc_eq)

definition locks_ok :: "'s system \<Rightarrow> bool" where
  "locks_ok y \<longleftrightarrow> lock_ok holds_completed (completed_lock y) (tasks y) \<and> lock_ok holds_step (step_lock y) (tasks y)"

definition task_ok :: "'s step_ops \<Rightarrow> 's wstate \<Rightarrow> 's task \<Rightarrow> bool" where
  "task_ok ops r k \<longleftrightarrow>
     (\<forall>e. seen_step k = Some e \<longrightarrow> step_index ops e \<le> step_index ops (current_step r))
     \<and> (\<forall>e. seen_open k = Some e \<and> e = current_step r \<longrightarrow> gate_ready ops e r)
     \<and> (\<forall>w. k = HoldBoth w \<longrightarrow> still_on w (current_step r))"

definition tasks_ok :: "'s step_ops \<Rightarrow> 's system \<Rightarrow> bool" where
  "tasks_ok ops y \<longleftrightarrow> (\<forall>k\<in>set (tasks y). task_ok ops (run y) k)"

definition history_ok :: "'s step_ops \<Rightarrow> 's system \<Rightarrow> bool" where
  "history_ok ops y \<longleftrightarrow> (\<forall>(w, from, ready)\<in>set (history y). \<forall>e. w = ByPeer e \<longrightarrow> from = e \<and> ready)"

definition peers_ok :: "'s system \<Rightarrow> bool" where
  "peers_ok y \<longleftrightarrow> finite (expected_peers (run y)) \<and> completed_peers (run y) \<subseteq> expected_peers (run y)
     \<and> connected_peers (run y) \<subseteq> expected_peers (run y)"

lemma nth_set_update: "k \<in> set (xs[i := x]) \<Longrightarrow> k = x \<or> k \<in> set xs"
  using set_update_subset_insert by fastforce

lemma gate_ready_mono:
  assumes "gate_ready ops e s" and "expected_peers t = expected_peers s" "peer_threshold t = peer_threshold s"
    and "completed_peers s \<subseteq> completed_peers t" "connected_peers s \<subseteq> connected_peers t"
    and "finite (completed_peers t)" "finite (connected_peers t)"
  shows "gate_ready ops e t"
proof -
  have "peers_quorum t = peers_quorum s" using assms by (intro peers_quorum_cong)
  moreover have "card (completed_peers s) \<le> card (completed_peers t)" "card (connected_peers s) \<le> card (connected_peers t)"
    using assms by (auto intro: card_mono)
  ultimately show ?thesis using assms(1) by (auto simp: gate_ready_def split: if_splits)
qed

lemma locks_ok_step:
  assumes "lstep ops i y y'" and "locks_ok y"
  shows "locks_ok y'"
proof -
  have ok: "lock_ok holds_completed (completed_lock y) (tasks y)" "lock_ok holds_step (step_lock y) (tasks y)"
    using assms(2) by (auto simp: locks_ok_def)
  note keep = lock_keep [OF ok(1)] lock_keep [OF ok(2)]
  note release = lock_release [OF ok(1)] lock_release [OF ok(2)]
  from assms(1) show ?thesis
  proof cases
    case (completed_lock p)
    then show ?thesis using keep ok lock_take [of holds_completed "tasks y" i CompletedLocked] by (simp add: locks_ok_def)
  next
    case (take_step w)
    then show ?thesis using keep ok lock_take [of holds_step "tasks y" i "HoldStep w"] by (simp add: locks_ok_def)
  next
    case (take_completed w)
    then show ?thesis using keep ok lock_take [of holds_completed "tasks y" i "HoldBoth w"] by (simp add: locks_ok_def)
  qed (use keep release in \<open>simp_all add: locks_ok_def\<close>)
qed

text \<open>Work that only adds peers keeps what the tasks have seen.\<close>

definition grows :: "'s wstate \<Rightarrow> 's wstate \<Rightarrow> bool" where
  "grows r r' \<longleftrightarrow> current_step r' = current_step r \<and> expected_peers r' = expected_peers r
     \<and> peer_threshold r' = peer_threshold r \<and> completed_peers r \<subseteq> completed_peers r'
     \<and> connected_peers r \<subseteq> connected_peers r' \<and> finite (completed_peers r') \<and> finite (connected_peers r')"

lemma task_ok_grows: "task_ok ops r k \<Longrightarrow> grows r r' \<Longrightarrow> task_ok ops r' k"
  unfolding task_ok_def grows_def using gate_ready_mono [of ops _ r r'] by auto

lemma tasks_okI:
  assumes "tasks_ok ops y" and "grows (run y) (run y')" and "tasks y' = (tasks y)[i := k]" and "task_ok ops (run y') k"
  shows "tasks_ok ops y'"
  using assms task_ok_grows [OF _ assms(2)] by (auto simp: tasks_ok_def dest!: nth_set_update)

lemma peers_ok_finite:
  assumes "peers_ok y"
  shows "finite (completed_peers (run y))" "finite (connected_peers (run y))" "grows (run y) (run y)"
    and "p \<in> expected_peers (run y) \<Longrightarrow> grows (run y) ((run y)\<lparr>completed_peers := insert p (completed_peers (run y))\<rparr>)"
    and "p \<in> expected_peers (run y) \<Longrightarrow> grows (run y) ((run y)\<lparr>connected_peers := insert p (connected_peers (run y))\<rparr>)"
    and "grows (run y) (persist_step_progress ops now db cur c (run y))"
  using assms by (auto simp: peers_ok_def grows_def intro: finite_subset)

lemma peers_ok_step:
  assumes "lstep ops i y y'" and "peers_ok y"
  shows "peers_ok y'"
  using assms by cases (auto simp: peers_ok_def advance_locked_def split: option.splits)

text \<open>Two tasks never hold both locks.\<close>

lemma hold_both_unique:
  "locks_ok y \<Longrightarrow> i < length (tasks y) \<Longrightarrow> j < length (tasks y) \<Longrightarrow> holds_completed (tasks y ! i) \<Longrightarrow>
    holds_completed (tasks y ! j) \<Longrightarrow> i = j"
  unfolding locks_ok_def lock_ok_def by (metis option.inject)

context workflow_step
begin

lemma task_ok_advance:
  assumes "task_ok ops r k" and "\<And>w. k \<noteq> HoldBoth w"
  shows "task_ok ops (advance_locked ops now db r) k"
proof (cases "next_step ops (current_step r)")
  case None
  then show ?thesis using assms by (simp add: advance_locked_def)
next
  case (Some t)
  have i: "step_index ops t = step_index ops (current_step r) + 1" by (rule index_next [OF Some])
  have c: "current_step (advance_locked ops now db r) = t" using Some by (simp add: advance_locked_def)
  have sub: "seen_open k = Some e \<Longrightarrow> seen_step k = Some e" for e by (cases k) auto
  have le: "step_index ops e \<le> step_index ops (current_step r)" if "seen_step k = Some e" for e
    using assms(1) that by (auto simp: task_ok_def)
  then have ne: "e \<noteq> t" if "seen_open k = Some e" for e
    using i sub [OF that] by force
  show ?thesis unfolding task_ok_def c
    using le ne i assms(2) by force
qed

lemma tasks_ok_step:
  assumes step: "lstep ops i y y'" and ok: "tasks_ok ops y" and locks: "locks_ok y" and peers: "peers_ok y"
  shows "tasks_ok ops y'"
proof -
  have at: "task_ok ops (run y) (tasks y ! i)" if "i < length (tasks y)"
    using ok that by (simp add: tasks_ok_def)
  have same: "grows (run y) (run y)" by (rule peers_ok_finite(3) [OF peers])
  show ?thesis using step
  proof cases
    case (advance w now db)
    have other: "k \<noteq> HoldBoth v" if "k \<in> set ((tasks y)[i := Finished])" for k v
    proof
      assume k: "k = HoldBoth v"
      from that obtain j where j: "j < length (tasks y)" "(tasks y)[i := Finished] ! j = HoldBoth v"
        unfolding k by (metis in_set_conv_nth length_list_update)
      then have "j \<noteq> i" "tasks y ! j = HoldBoth v" by (cases "i = j"; simp)+
      then show False using hold_both_unique [OF locks, of i j] advance j by simp
    qed
    have "task_ok ops (run y) k" if "k \<in> set ((tasks y)[i := Finished])" for k
      using nth_set_update [OF that] ok by (auto simp: tasks_ok_def task_ok_def)
    then show ?thesis using advance other by (auto simp: tasks_ok_def intro: task_ok_advance)
  next
    case (completed_lock p)
    show ?thesis
      by (rule tasks_okI [OF ok, where i = i and k = CompletedLocked]) (use completed_lock peers_ok_finite(4) [OF peers] in \<open>simp_all add: task_ok_def\<close>)
  next
    case (connected_insert p)
    show ?thesis
      by (rule tasks_okI [OF ok, where i = i and k = ReadStep]) (use connected_insert peers_ok_finite(5) [OF peers] in \<open>simp_all add: task_ok_def\<close>)
  next
    case (completed_persist cur now db)
    show ?thesis
      by (rule tasks_okI [OF ok, where i = i and k = ReadStep]) (use completed_persist peers_ok_finite(6) [OF peers] in \<open>simp_all add: task_ok_def\<close>)
  next
    case (take_step w)
    then have "task_ok ops (run y) (HoldStep w)" using at by (cases w) (auto simp: task_ok_def)
    show ?thesis
      by (rule tasks_okI [OF ok, where i = i and k = "HoldStep w"]) (use take_step ok same \<open>task_ok ops (run y) _\<close> in \<open>simp_all\<close>)
  next
    case (take_completed w)
    then have "task_ok ops (run y) (HoldBoth w)" using at by (cases w) (auto simp: task_ok_def)
    show ?thesis
      by (rule tasks_okI [OF ok, where i = i and k = "HoldBoth w"]) (use take_completed ok same \<open>task_ok ops (run y) _\<close> in \<open>simp_all\<close>)
  next
    case (gate_open cur)
    then have "task_ok ops (run y) (TakeStep (ByPeer cur))" using at by (auto simp: task_ok_def)
    show ?thesis
      by (rule tasks_okI [OF ok, where i = i and k = "TakeStep (ByPeer cur)"]) (use gate_open ok same \<open>task_ok ops (run y) _\<close> in \<open>simp_all\<close>)
  next
    case (completed_read)
    show ?thesis
      by (rule tasks_okI [OF ok, where i = i and k = "CompletedPersist (current_step (run y))"]) (use completed_read same in \<open>simp_all add: task_ok_def\<close>)
  next
    case (read_step)
    show ?thesis
      by (rule tasks_okI [OF ok, where i = i and k = "ReadGate (current_step (run y))"]) (use read_step same in \<open>simp_all add: task_ok_def\<close>)
  qed (use ok same in \<open>auto intro: tasks_okI [OF ok, where i = i and k = Finished] simp: task_ok_def\<close>)
qed

lemma history_ok_step:
  assumes "lstep ops i y y'" and "tasks_ok ops y" and "history_ok ops y"
  shows "history_ok ops y'"
  using assms(1)
proof cases
  case (advance w now db)
  then have k: "task_ok ops (run y) (HoldBoth w)" using assms(2) nth_mem [of i "tasks y"] by (auto simp: tasks_ok_def)
  then have "current_step (run y) = e \<and> gate_ready ops (current_step (run y)) (run y)" if "w = ByPeer e" for e
    using that by (auto simp: task_ok_def still_on_def)
  then show ?thesis using assms(3) advance by (auto simp: history_ok_def)
qed (use assms(3) in \<open>simp_all add: history_ok_def\<close>)

lemma history_ok_sysreach:
  assumes "sysreach ops y y'" and "tasks_ok ops y" "locks_ok y" "peers_ok y" "history_ok ops y"
  shows "tasks_ok ops y' \<and> locks_ok y' \<and> peers_ok y' \<and> history_ok ops y'"
  using assms(1) unfolding sysreach_def
proof (induction rule: rtranclp_induct)
  case (step y' y'')
  from step.hyps(2) show ?case
  proof cases
    case (task_step i)
    then show ?thesis
      using step.IH tasks_ok_step locks_ok_step peers_ok_step history_ok_step by blast
  next
    case (arrives k p e)
    then show ?thesis using step.IH
      by (auto simp: tasks_ok_def task_ok_def locks_ok_def peers_ok_def history_ok_def intro!: lock_append)
  qed
qed (use assms in simp)

end

text \<open>The steps from which the advances of a history left, in order, are the steps of the workflow
  from \<open>s\<close> on, and \<open>cur\<close> is where they end.\<close>

fun follows :: "'s step_ops \<Rightarrow> 's \<Rightarrow> ('s origin \<times> 's \<times> bool) list \<Rightarrow> 's \<Rightarrow> bool" where
  "follows ops s [] cur \<longleftrightarrow> cur = s"
| "follows ops s ((w, from, r) # h) cur \<longleftrightarrow>
     from = s \<and> follows ops (case next_step ops s of Some t \<Rightarrow> t | None \<Rightarrow> s) h cur"

lemma follows_snoc:
  "follows ops s h cur \<Longrightarrow>
     follows ops s (h @ [(w, cur, r)]) (case next_step ops cur of Some t \<Rightarrow> t | None \<Rightarrow> cur)"
  by (induction ops s h cur rule: follows.induct) auto

lemma follows_step:
  assumes "lstep ops i y y'" and "follows ops s (history y) (current_step (run y))"
  shows "follows ops s (history y') (current_step (run y'))"
  using assms(1)
proof cases
  case (advance w now db)
  have "current_step (advance_locked ops now db (run y))
      = (case next_step ops (current_step (run y)) of Some t \<Rightarrow> t | None \<Rightarrow> current_step (run y))"
    by (simp add: advance_locked_def split: option.splits)
  then show ?thesis using advance follows_snoc [OF assms(2)] by simp
qed (use assms(2) in simp_all)

lemma follows_sysreach:
  assumes "sysreach ops y y'" and "follows ops s (history y) (current_step (run y))"
  shows "follows ops s (history y') (current_step (run y'))"
  using assms unfolding sysreach_def
proof (induction rule: rtranclp_induct)
  case (step y' y'')
  from step.hyps(2) step.IH step.prems show ?case
    by cases (auto dest: follows_step)
qed simp

section \<open>Deadlock\<close>

text \<open>A request is stuck when its task is not finished and cannot take a step.\<close>

definition stuck :: "'s step_ops \<Rightarrow> 's system \<Rightarrow> bool" where
  "stuck ops y \<longleftrightarrow> (\<exists>k\<in>set (tasks y). k \<noteq> Finished) \<and> (\<forall>i y'. \<not> lstep ops i y y')"

lemma can_step:
  assumes "i < length (tasks y)" and "step_lock y = None" and "completed_lock y = None" and "tasks y ! i \<noteq> Finished"
  shows "\<exists>y'. lstep ops i y y'"
proof (cases "tasks y ! i")
  case (CompletedStart p)
  then show ?thesis using assms by (cases "p \<in> expected_peers (run y)") (auto intro: lstep.intros)
next
  case (ConnectedStart p)
  then show ?thesis using assms by (cases "p \<in> expected_peers (run y)") (auto intro: lstep.intros)
next
  case (ReadGate e)
  then show ?thesis using assms by (cases "gate_ready ops e (run y)") (auto intro: lstep.intros)
next
  case (HoldStep w)
  then show ?thesis using assms by (cases "still_on w (current_step (run y))") (auto intro: lstep.intros)
qed (use assms in \<open>auto intro: lstep.intros\<close>)

lemma stuck_shape:
  assumes "locks_ok y" and "stuck ops y"
  shows "\<exists>i j w. i < length (tasks y) \<and> j < length (tasks y) \<and> tasks y ! i = HoldStep w
    \<and> tasks y ! j = CompletedLocked \<and> step_lock y = Some i \<and> completed_lock y = Some j"
proof -
  have no: "\<not> lstep ops i y y'" for i y' using assms(2) by (simp add: stuck_def)
  obtain k where "k \<in> set (tasks y)" "k \<noteq> Finished" using assms(2) by (auto simp: stuck_def)
  then obtain n where n: "n < length (tasks y)" "tasks y ! n \<noteq> Finished" by (metis in_set_conv_nth)
  then have held: "\<not> (step_lock y = None \<and> completed_lock y = None)" using can_step [of n y ops] no by blast
  have cl: "j < length (tasks y) \<and> tasks y ! j = CompletedLocked \<and> step_lock y \<noteq> None"
    if j: "completed_lock y = Some j" for j
  proof -
    have h: "j < length (tasks y)" "holds_completed (tasks y ! j)"
      using assms(1) j by (auto simp: locks_ok_def lock_ok_def)
    then have "tasks y ! j = CompletedLocked" using no by (cases "tasks y ! j") (auto intro: lstep.intros)
    then show ?thesis using no h lstep.completed_read [of j y ops] by auto
  qed
  have sl: "i < length (tasks y) \<and> (\<exists>w. tasks y ! i = HoldStep w) \<and> completed_lock y \<noteq> None"
    if i: "step_lock y = Some i" for i
  proof -
    have h: "i < length (tasks y)" "holds_step (tasks y ! i)"
      using assms(1) i by (auto simp: locks_ok_def lock_ok_def)
    show ?thesis
    proof (cases "tasks y ! i")
      case (HoldStep w)
      then have "still_on w (current_step (run y))" "completed_lock y \<noteq> None"
        using no h lstep.cas_failed [of i y w ops] lstep.take_completed [of i y w ops] by blast+
      then show ?thesis using HoldStep h by blast
    next
      case (HoldBoth w)
      then show ?thesis using no h by (auto intro: lstep.intros)
    qed (use h in auto)
  qed
  from held cl sl show ?thesis by (metis option.exhaust)
qed

lemma stuck_pair:
  assumes "tasks y = [HoldStep w, CompletedLocked]" and "step_lock y = Some 0" and "completed_lock y = Some 1"
    and "still_on w (current_step (run y))"
  shows "stuck ops y"
proof -
  have "\<not> lstep ops i y y'" for i y'
  proof
    assume "lstep ops i y y'"
    then have "i < 2" using assms(1) by cases auto
    then have "i = 0 \<or> i = 1" by auto
    with \<open>lstep ops i y y'\<close> show False using assms by cases auto
  qed
  then show ?thesis using assms(1) by (auto simp: stuck_def)
qed

context workflow_step
begin

lemma reach_deadlock:
  assumes gated: "requires_peers ops (current_step r)" and p: "p \<in> expected_peers r" and q: "q \<in> expected_peers r"
    and quorum: "peers_quorum r \<le> card (insert p (completed_peers r))"
  shows "\<exists>y. sysreach ops (system_start r) y \<and> stuck ops y
    \<and> tasks y = [HoldStep (ByPeer (current_step r)), CompletedLocked]"
proof -
  let ?cur = "current_step r"
  define sys where "sys ks sl cl r = \<lparr>run = r, step_lock = sl, completed_lock = cl, tasks = ks, history = []\<rparr>"
    for ks :: "'s task list" and sl cl and r :: "'s wstate"
  define r1 where "r1 = r\<lparr>completed_peers := insert p (completed_peers r)\<rparr>"
  define r2 where "r2 = persist_step_progress ops 0 Committed ?cur (completed_peers r1) r1"
  define r3 where "r3 = r2\<lparr>completed_peers := insert q (completed_peers r2)\<rparr>"
  have cur: "current_step r1 = ?cur" "current_step r2 = ?cur" "current_step r3 = ?cur"
    by (simp_all add: r1_def r2_def r3_def)
  have exp: "expected_peers r2 = expected_peers r" by (simp add: r1_def r2_def)
  have ready: "gate_ready ops ?cur r2"
    using gated waiting_idle [of ?cur] quorum by (auto simp: gate_ready_def r1_def r2_def peers_quorum_def)
  have one: "sysstep ops (system_start r) (sys [CompletedStart p] None None r)"
    using sysstep.arrives [of "CompletedStart p" p undefined ops "system_start r"]
    by (simp add: system_start_def sys_def)
  have two: "sysstep ops (sys [CompletedStart p] None None r) (sys [CompletedStart p, CompletedStart q] None None r)"
    using sysstep.arrives [of "CompletedStart q" q undefined ops "sys [CompletedStart p] None None r"]
    by (simp add: sys_def)
  note mv = sysstep.task_step [where ops = ops]
  have three: "sysstep ops (sys [CompletedStart p, CompletedStart q] None None r)
      (sys [CompletedLocked, CompletedStart q] None (Some 0) r1)"
    using lstep.completed_lock [of 0 "sys [CompletedStart p, CompletedStart q] None None r" p ops] p
    by (intro mv [where i = 0]) (simp add: sys_def r1_def)
  have four: "sysstep ops (sys [CompletedLocked, CompletedStart q] None (Some 0) r1)
      (sys [CompletedPersist ?cur, CompletedStart q] None (Some 0) r1)"
    using lstep.completed_read [of 0 "sys [CompletedLocked, CompletedStart q] None (Some 0) r1" ops] cur
    by (intro mv [where i = 0]) (simp add: sys_def)
  have five: "sysstep ops (sys [CompletedPersist ?cur, CompletedStart q] None (Some 0) r1)
      (sys [ReadStep, CompletedStart q] None None r2)"
    using lstep.completed_persist [of 0 "sys [CompletedPersist ?cur, CompletedStart q] None (Some 0) r1" ?cur ops 0 Committed]
    by (intro mv [where i = 0]) (simp add: sys_def r2_def)
  have six: "sysstep ops (sys [ReadStep, CompletedStart q] None None r2)
      (sys [ReadGate ?cur, CompletedStart q] None None r2)"
    using lstep.read_step [of 0 "sys [ReadStep, CompletedStart q] None None r2" ops] cur
    by (intro mv [where i = 0]) (simp add: sys_def)
  have seven: "sysstep ops (sys [ReadGate ?cur, CompletedStart q] None None r2)
      (sys [TakeStep (ByPeer ?cur), CompletedStart q] None None r2)"
    using lstep.gate_open [of 0 "sys [ReadGate ?cur, CompletedStart q] None None r2" ?cur ops] ready
    by (intro mv [where i = 0]) (simp add: sys_def)
  have eight: "sysstep ops (sys [TakeStep (ByPeer ?cur), CompletedStart q] None None r2)
      (sys [HoldStep (ByPeer ?cur), CompletedStart q] (Some 0) None r2)"
    using lstep.take_step [of 0 "sys [TakeStep (ByPeer ?cur), CompletedStart q] None None r2" "ByPeer ?cur" ops]
    by (intro mv [where i = 0]) (simp add: sys_def)
  have nine: "sysstep ops (sys [HoldStep (ByPeer ?cur), CompletedStart q] (Some 0) None r2)
      (sys [HoldStep (ByPeer ?cur), CompletedLocked] (Some 0) (Some 1) r3)"
    using lstep.completed_lock [of 1 "sys [HoldStep (ByPeer ?cur), CompletedStart q] (Some 0) None r2" q ops] q exp
    by (intro mv [where i = 1]) (simp add: sys_def r3_def)
  have "sysreach ops (system_start r) (sys [HoldStep (ByPeer ?cur), CompletedLocked] (Some 0) (Some 1) r3)"
    unfolding sysreach_def using one two three four five six seven eight nine
    by (meson rtranclp.rtrancl_into_rtrancl rtranclp.rtrancl_refl)
  moreover have "stuck ops (sys [HoldStep (ByPeer ?cur), CompletedLocked] (Some 0) (Some 1) r3)"
    by (rule stuck_pair [where w = "ByPeer ?cur"]) (simp_all add: sys_def still_on_def cur)
  ultimately show ?thesis by (intro exI) (auto simp: sys_def)
qed

end

section \<open>Properties\<close>



text \<open>\<open>peer_completed\<close> takes \<open>completed_peers\<close> and then reads \<open>current_step\<close>, while an
  advance takes \<open>current_step\<close> and then \<open>completed_peers\<close>.  On any step that needs peers, when the
  report of \<open>p\<close> completes the quorum while a report of \<open>q\<close> arrives, there is an interleaving after
  which both requests wait for each other's lock and no task of the run can take a step.\<close>

theorem lock_order_deadlock:
  assumes "workflow_step ops" and "requires_peers ops (current_step s)"
    and "p \<in> expected_peers s" and "q \<in> expected_peers s"
    and "peers_quorum s \<le> card (insert p (completed_peers s))"
  shows "\<exists>y. sysreach ops (system_start s) y \<and> stuck ops y \<and>
    tasks y = [HoldStep (ByPeer (current_step s)), CompletedLocked]"
  by (rule workflow_step.reach_deadlock [OF assms])

theorem lock_order_deadlock_witness:
  "\<exists>y. sysreach kick_ops (system_start (example_state (Some 1))) y \<and> stuck kick_ops y \<and>
    tasks y = [HoldStep (ByPeer (current_step (example_state (Some 1)))), CompletedLocked]"
proof (rule lock_order_deadlock [OF kick_wf.workflow_step_axioms,
      where p = "example_peer ''a''" and q = "example_peer ''b''"])
  show "peers_quorum (example_state (Some 1)) \<le> card (insert (example_peer ''a'') (completed_peers (example_state (Some 1))))"
    using example_peers_neq by (simp add: peers_quorum_def example_state_def wstate_new_def clamp_def)
qed (simp_all add: example_state_def wstate_new_def kick_ops_def kick_requires_peers_def)

text \<open>C27: that is the only way a run stops.  In every reachable state in which an unfinished task
  exists and none can take a step, one task holds \<open>current_step\<close> waiting for \<open>completed_peers\<close> and
  another holds \<open>completed_peers\<close> waiting to read \<open>current_step\<close>.\<close>

theorem only_deadlock:
  assumes "workflow_step ops" and "finite (expected_peers s)" and "completed_peers s \<subseteq> expected_peers s"
    and "connected_peers s \<subseteq> expected_peers s" and "sysreach ops (system_start s) y" and "stuck ops y"
  shows "\<exists>i j w. i < length (tasks y) \<and> j < length (tasks y) \<and> tasks y ! i = HoldStep w \<and>
    tasks y ! j = CompletedLocked \<and> step_lock y = Some i \<and> completed_lock y = Some j"
proof -
  have "tasks_ok ops (system_start s)" "locks_ok (system_start s)" "peers_ok (system_start s)" "history_ok ops (system_start s)"
    using assms by (simp_all add: tasks_ok_def locks_ok_def lock_ok_def peers_ok_def history_ok_def system_start_def)
  from workflow_step.history_ok_sysreach [OF assms(1,5) this] have "locks_ok y" by blast
  from stuck_shape [OF this assms(6)] show ?thesis .
qed

theorem only_deadlock_witness:
  "\<exists>y i j w. stuck kick_ops y \<and> i < length (tasks y) \<and> j < length (tasks y) \<and> tasks y ! i = HoldStep w \<and>
    tasks y ! j = CompletedLocked \<and> step_lock y = Some i \<and> completed_lock y = Some j"
proof -
  let ?s = "example_state (Some 1)"
  have q: "peers_quorum ?s \<le> card (insert (example_peer ''a'') (completed_peers ?s))"
    using example_peers_neq by (simp add: peers_quorum_def example_state_def wstate_new_def clamp_def)
  have s: "requires_peers kick_ops (current_step ?s)" "example_peer ''a'' \<in> expected_peers ?s"
    "finite (expected_peers ?s)" "completed_peers ?s \<subseteq> expected_peers ?s" "connected_peers ?s \<subseteq> expected_peers ?s"
    by (simp_all add: example_state_def wstate_new_def kick_ops_def kick_requires_peers_def)
  from kick_wf.reach_deadlock [OF s(1,2,2) q] obtain y where
    "sysreach kick_ops (system_start ?s) y" "stuck kick_ops y" by blast
  from only_deadlock [OF kick_wf.workflow_step_axioms s(3-5) this] this(2) show ?thesis by blast
qed

end
