(* ===== verification/Spec2Isabelle.thy ===== *)
theory Spec2Isabelle
  imports Run_Histories Access Reward_Facts Workflow_Locks
begin

text \<open>
  A verification of the core of the decentralization manager (crates \<open>decman\<close> and \<open>common\<close>): the
  program with which the members of a decentralized Canton party create the party, change its
  members and thresholds, distribute packages and sign contracts together.

  \<^bold>\<open>The program.\<close>  Every member runs a node.  A node that starts a workflow is its \<^emph>\<open>coordinator\<close>; the
  invited nodes are its \<^emph>\<open>peers\<close>.  A workflow is a line of steps (\<open>workflow/*/mod.rs\<close>).  The coordinator
  keeps the state of the run (\<open>workflow/state.rs\<close>), writes it through to its database, drives it in a
  loop (\<open>workflow/*/coordinator.rs\<close>), and serves its peers (\<open>noise/server.rs\<close>) behind one listener that
  routes requests to runs (\<open>server/mod.rs\<close>, \<open>server/types.rs\<close>).  A peer polls its coordinator
  (\<open>noise/client.rs\<close>), checks every payload against the invitation its operator accepted and against the
  topology (\<open>workflow/validation.rs\<close>, \<open>workflow/topology.rs\<close>, \<open>workflow/signing_keys.rs\<close>), acts, and
  reports (\<open>workflow/mod.rs\<close>).  Coordinator and peers talk in frames over Noise (\<open>noise/mod.rs\<close>); a new member
  pulls the contracts of its party in blocks (\<open>workflow/party_replication/pipe.rs\<close>).  Between the two sides stand the
  invitations: a coordinator plans a run, registers it and sends invitations (\<open>server/handlers/workflows.rs\<close>); one arrives as a message, becomes a card, and an operator who accepts it starts a peer run
  (\<open>server/mod.rs\<close>, \<open>server/handlers/invitations.rs\<close>), which the database keeps across restarts (\<open>db/sqlite.rs\<close>,
  \<open>db/rows.rs\<close>).  Operators and tenants reach a node over HTTP, behind a middleware that checks tokens and keys
  (\<open>server/middleware/auth.rs\<close>, \<open>auth/\<close>) against the credentials of the parties (\<open>server/handlers/party_config.rs\<close>).
  With these it obtains the tokens it presents to its participant (\<open>auth/mod.rs\<close>), and a background loop assigns the reward
  coupons of the parties that delegate it to this node (\<open>server/reward_automation.rs\<close>).

  \<^bold>\<open>Theories\<close>, each after those it imports:
  \<^item> \<open>Prelude\<close>: results (\<open>and_then\<close>, \<open>map_err\<close>), big-endian integers, UTF-8, \<open>clamp\<close> and \<open>div_ceil\<close>, and the lemma
    collections of the development.
  \<^item> \<open>Canton_Id\<close>: identifiers and fingerprints (\<open>common/canton_id.rs\<close>, \<open>common/fingerprint.rs\<close>); the interface
    \<open>hex_codec\<close> of the hex crate.  Validated ids survive both text forms.
  \<^item> \<open>Framing\<close>: byte framings and helpers of \<open>utils.rs\<close>; the interface \<open>varint_codec\<close> of prost's varints.
  \<^item> \<open>Noise_Message\<close>: message types, frames, errors, retries, chunk metadata.  Frames round-trip, and the
    decoder accepts nothing else; the retry loop stops where it should.
  \<^item> \<open>Pipe\<close>: the export session behind the block transfer.  It refines the function from the exported bytes
    to block \<open>n\<close>, for any sequence of requests.
  \<^item> \<open>Noise_Client\<close>: the requests of a peer over an arbitrary network, with a bound on their number.
  \<^item> \<open>Workflow_Step\<close>: the six step machines and the contract they share, the locale \<open>workflow_step\<close>, with its
    six interpretations.
  \<^item> \<open>Workflow_State\<close>: the state of a run with every operation and the row it is persisted in.  A step
    relation with the outcome of every transaction gives the reachable states; the row never runs ahead of
    the run, gates open exactly at the quorum, the first terminal status stays.
  \<^item> \<open>Workflow_Locks\<close>: the same operations cut at their lock acquisitions.  No interleaving skips a step; the
    one deadlock the lock order allows is exhibited, and shown to be the only one.
  \<^item> \<open>Topology\<close>: decoding of topology transactions, reads of head state, thresholds, legacy keys.
  \<^item> \<open>Signing_Keys\<close>: attribution of signing keys to members, removal on a kick, adoption of legacy keys.
  \<^item> \<open>Validation\<close>: the accepted invitation and every check of a coordinator's payload against it and against
    the chain, and what an accepted payload is thereby known to contain.
  \<^item> \<open>Peer_Loop\<close>: the peer's command loop with the handler of every command.  Its actions go through an
    executor and are logged with the world they were taken in, so that what the peer did can be compared with
    what it was entitled to do; the loop's patience is bounded.
  \<^item> \<open>Noise_Server\<close>: the coordinator's server: resume, quorum, requests, declines, silent peers.
  \<^item> \<open>Coordinator\<close>: the loops of the six workflows, and what a restart does to payloads and uploads.
  \<^item> \<open>Listener\<close>: the registry, the routing of frames, and the composition of client, listener and server:
    commands are delivered end to end up to 16 MiB, and not above.
  \<^item> \<open>Run_Store\<close>: JSON documents and their readers, the rows of workflow runs and the statements on them.  A run
    survives the way through its row.
  \<^item> \<open>Invitations\<close>: everything that happens to an invitation and to the peer run it becomes: payloads, cards, accept,
    decline, cancel, retry, the queue of peer jobs, restarts.  What an accepted run loads as its consent is what the card
    showed; histories keep one loop per run, and the history that does not is exhibited; the backlog of a
    coordinator is bounded; a scoped cancel touches nothing else.
  \<^item> \<open>Node\<close>: the listener as a whole: who may connect, the requests it answers itself, and the reading of DARs.  Chunks
    go only to peers that were entitled to the payload; a DAR arrives as it is.
  \<^item> \<open>Launch\<close>: the handlers that start a run (\<open>server/handlers/workflows.rs\<close>) up to the run they register, and the sending
    of its invitations.  An invitation arrives as the card of the planned run; what peers consent to in a kick is what was
    requested.
  \<^item> \<open>Run_Control\<close>: the life of the runs of this node, in memory and in the database, as an interleaving of handlers and
    tasks: starting, ending, cancelling, retrying, dismissing, restarts.  A run has one task and one owner; a cancel is
    durable before anything is stopped; terminal statuses stay.
  \<^item> \<open>Run_Histories\<close>: stored configurations survive a restart, recovery is exact, the feed shows what was configured; and
    the histories in which an answer and the state of a run part ways.
  \<^item> \<open>Token_Validation\<close>: which bearer tokens are accepted (\<open>auth/validators/\<close>), with the cache of signing keys, as steps
    that interleave with changes of the configuration.  An accepted token was verified with a fresh key of a trusted issuer;
    its roles are those of the documented claims.
  \<^item> \<open>Access\<close>: the middleware, the budget of tenant keys, and the party credentials, as an interleaving of requests that may
    be dropped at any await.  What reaches a handler was entitled to; the first-run exemption writes once; stored secrets stay
    with their server; credentials survive their row; a key's budget holds.
  \<^item> \<open>Outbound_Tokens\<close>: the token managers of the parties, their registry and the insecure variant.  A token handed out for a
    party was issued to that party's client; an expired one is never handed out; a broken party stops no other.
  \<^item> \<open>Ledger_Record\<close>: values of the ledger API, the readers and constructors of \<open>decman-lib/src/framework\<close>, commands and filters.
  \<^item> \<open>Rewards\<close>: the reward automation: reading delegations and coupons, the drain, a pass for a party, the loop with its
    metrics, and the status page.  \<open>Reward_Facts\<close>: every command the loop ever submits is in order; a drain pays each coupon at
    most once, within a bound of submissions, and every coupon the ledger accepts; a countdown is dropped only on evidence.
  \<^item> this theory: properties of coordinator and peer together.

  \<^bold>\<open>Correspondence.\<close>  Structs are records, enums datatypes with the source's variants, functions definitions
  under the source's names (suffixed or prefixed where a name is taken).  Fallible functions return a sum with
  the error on the left.  Stateful code takes and returns its state; the world outside (network, participant,
  ledger, clock) is a type variable that operations thread through.  Strings are byte strings; lengths are
  those of the UTF-8 bytes.  Integers are naturals or integers with the width written out where code casts or
  can overflow; wire integers are bytes.

  \<^bold>\<open>Parameters.\<close>  Third-party code is an argument: hex, SHA-256, varints, protobuf and JSON decoders, base64, the
  Canton API, the TCP, Noise and HTTP stack.  Where a property relies on a law of such code the law is the
  assumption of a locale (\<open>hex_codec\<close>, \<open>varint_codec\<close>), which is interpreted on a concrete codec.

  \<^bold>\<open>Bounds.\<close>  Loops that recurse on data are total.  The peer's and the coordinator's command loops may run for
  ever, as long as somebody keeps answering; they take a number of rounds, and the properties hold for every
  number.  That a loop ends is proved where the code promises it: one poll makes at most 49 requests, a peer
  without useful answers gives up, a departure report ends within the silence limit.

  \<^bold>\<open>Findings\<close> are theorems like the others: the lock order of completion and advance can deadlock; a run resumed on
  its signing step serves no proposals; signatures received just before a restart are lost without notice;
  payloads above 16 MiB are announced and never accepted; the clearing check does not look at signing keys; a run that is
  cancelled and accepted again can have two loops, and a cancelled peer run ends as failed; a peer key in non-canonical
  text authenticates but is never found; concurrent reads of DARs by one peer mix; a kick announces only the members in the
  peer table and is then refused; a version gate passes peers it could not probe; a retry can resurrect a cancelled run, or be
  lost; two starts can pass the check for a run in flight; some tasks report their end before the row does; a failed read
  at boot reopens the first-run exemption; racing saves leave memory and table with different credentials;
  an expiry margin above what a duration can hold ends the reward loop without notice.

  \<^bold>\<open>Not modelled.\<close>  The steps that call Canton (creating, signing and submitting topology transactions, preparing and
  executing submissions, importing contracts) are actions of the executor and of the coordinator's environment:
  they are sequences of gRPC calls around the modelled decisions.  The same holds for SQL beyond the statements of
  runs and invitations, for the other HTTP handlers (governance among them) and ledger queries, and the terminal client.  Request
  handlers of the listener and of invitations run without interleaving; interleavings are modelled for the locks of a run
  (\<open>Workflow_Locks\<close>), for the handlers and tasks of coordinated runs (\<open>Run_Control\<close>), and for the requests at the middleware
  (\<open>Token_Validation\<close>, \<open>Access\<close>).  The reward loop is one task and runs as it is written; what other tasks and nodes do meanwhile shows in
  the answers of the world outside, which are arbitrary.
\<close>

section \<open>The commands of a run, on both sides\<close>

definition mirrored :: "workflow_kind \<Rightarrow> 's step_ops \<Rightarrow> 's \<Rightarrow> bool" where
  "mirrored kind ops t \<longleftrightarrow> (case to_command ops t of
     None \<Rightarrow> True
   | Some c \<Rightarrow> command_matches_kind kind c \<and>
       peer_step_for_command kind c = Some (step_name ops t, step_index ops t, step_total ops))"


end
